(* ===== verification/Prelude.thy ===== *)
theory Prelude
  imports Main "HOL-Library.Word" "HOL-Library.Monad_Syntax"
begin

text \<open>
  Shared vocabulary of the development: the machine integers and byte strings of the Go
  program, its error values, big-endian integers on the wire, the guards and loops that
  the parsers are written with, and the lemmas on them that every component uses.
\<close>

named_theorems wire_simps \<open>evaluation of encoders and decoders on wire strings\<close>
named_theorems consume_intros \<open>loop bodies that consume input\<close>

section \<open>Machine integers, byte strings and errors\<close>

type_synonym u8 = "8 word"
type_synonym u16 = "16 word"
type_synonym u32 = "32 word"
type_synonym u64 = "64 word"
type_synonym bytes = "u8 list"

text \<open>
  Go error values. \<open>ErrorsNew\<close> is \<open>errors.New\<close> (and \<open>fmt.Errorf\<close> without numeric
  arguments), \<open>Errorf\<close> carries the numeric arguments of a formatted error, \<open>AlertErr\<close> is an
  \<open>alert\<close> used as an error, \<open>OpError\<close> is \<open>net.OpError\<close> around an alert, \<open>NetError\<close> an
  error of the underlying connection with its \<open>Temporary\<close> flag, and \<open>RecordHeaderError\<close> the
  struct of conn.go (message, header bytes, whether it carries the raw connection). \<open>WrapError\<close> is
  \<open>fmt.Errorf\<close> with \<open>%w\<close> behind a text, \<open>TextError\<close> an error whose text ends with the text of another one, and
  \<open>WithAlertError\<close> is \<open>fmt.Errorf("%w%.0w", err, AlertError(a))\<close>. \<open>EchConfigErr\<close>, \<open>ECHRejectionError\<close> and
  \<open>CertificateVerificationError\<close> (with the raw certificates) are the structs of the package; \<open>UnknownAuthorityError\<close>,
  \<open>CertificateExpired\<close> and \<open>X509Error\<close> are errors of \<open>crypto/x509\<close>.
\<close>

datatype goerror =
    ErrorsNew string
  | Errorf string "nat list"
  | AlertErr u8
  | OpError string u8
  | NetError bool
  | PermanentError goerror
  | IoEOF
  | IoErrUnexpectedEOF
  | RecordHeaderError string bytes bool
  | WrapError string goerror
  | WithAlertError goerror u8
  | TextError string goerror
  | EchConfigErr string
  | ECHRejectionError bytes
  | CertificateVerificationError "bytes list" goerror
  | UnknownAuthorityError
  | CertificateExpired
  | X509Error string

type_synonym 'a res = "goerror + 'a"

text \<open>The bytes of a slice that may be nil, where only nil and empty are told apart.\<close>

definition bytesOf :: "bytes option \<Rightarrow> bytes" where
  "bytesOf w = (case w of None \<Rightarrow> [] | Some b \<Rightarrow> b)"

lemma bytesOf_simps [simp]: "bytesOf None = []" "bytesOf (Some b) = b"
  by (simp_all add: bytesOf_def)

text \<open>ASCII text as a byte string: the conversion \<open>[]byte("...")\<close>.\<close>

definition ascii :: "string \<Rightarrow> bytes" where
  "ascii s = map (\<lambda>c. word_of_nat (of_char c)) s"

lemma length_ascii [simp]: "length (ascii s) = length s"
  by (simp add: ascii_def)

section \<open>Big-endian integers\<close>

primrec be :: "nat \<Rightarrow> nat \<Rightarrow> bytes" where
  "be 0 v = []"
| "be (Suc n) v = be n (v div 256) @ [word_of_nat v]"

definition unbe :: "bytes \<Rightarrow> nat" where
  "unbe bs = foldl (\<lambda>acc b. acc * 256 + unat b) 0 bs"

lemma length_be [simp]: "length (be n v) = n"
  by (induction n arbitrary: v) auto

lemma be_eq_Nil [simp]: "be n v = [] \<longleftrightarrow> n = 0"
  by (metis length_be length_0_conv)

lemma unbe_Nil [simp]: "unbe [] = 0"
  by (simp add: unbe_def)

lemma unbe_snoc [simp]: "unbe (bs @ [b]) = unbe bs * 256 + unat b"
  by (simp add: unbe_def)

lemma unat_u8_mod: "unat (word_of_nat v :: u8) = v mod 256"
  by (simp add: unat_of_nat)

lemma unat_u8_less [simp]: "unat (b :: u8) < 256"
  by (rule unsigned_less [where w = b, simplified])

lemma word_of_nat_unat_same: "word_of_nat (unat x) = (x :: 'a::len word)"
  by simp

lemma unbe_be: "unbe (be n v) = v mod 256 ^ n"
proof (induction n arbitrary: v)
  case 0
  then show ?case by simp
next
  case (Suc n)
  have "v mod 256 ^ Suc n = 256 * (v div 256 mod 256 ^ n) + v mod 256"
    by (simp add: mod_mult2_eq)
  with Suc.IH [of "v div 256"] show ?case by (simp add: unat_u8_mod)
qed

lemma unbe_be_small [wire_simps]: "v < 256 ^ n \<Longrightarrow> unbe (be n v) = v"
  by (simp add: unbe_be)

lemma unbe_less: "unbe bs < 256 ^ length bs"
proof (induction bs rule: rev_induct)
  case Nil
  then show ?case by simp
next
  case (snoc b bs)
  then have "unbe bs + 1 \<le> 256 ^ length bs" by simp
  then have "(unbe bs + 1) * 256 \<le> 256 ^ length bs * 256" by (rule mult_le_mono1)
  moreover have "unbe bs * 256 + unat b < (unbe bs + 1) * 256" by simp
  ultimately have "unbe bs * 256 + unat b < 256 ^ length bs * 256" by (rule less_le_trans [rotated])
  then show ?case by (simp add: mult.commute)
qed

lemma be_unbe: "be (length bs) (unbe bs) = bs"
proof (induction bs rule: rev_induct)
  case Nil
  then show ?case by simp
next
  case (snoc b bs)
  have lt: "unat b < 256" by simp
  then have "(unbe bs * 256 + unat b) div 256 = unbe bs" by linarith
  moreover have "(unbe bs * 256 + unat b) mod 256 = unat b" using lt by simp
  then have "(word_of_nat (unbe bs * 256 + unat b) :: u8) = b"
    by (metis unat_u8_mod word_unat_eq_iff)
  ultimately show ?case using snoc by (simp del: of_nat_add of_nat_mult)
qed

lemma be_unbe_len: "length bs = n \<Longrightarrow> be n (unbe bs) = bs"
  using be_unbe by blast

lemma be_inject: "v < 256 ^ n \<Longrightarrow> w < 256 ^ n \<Longrightarrow> be n v = be n w \<longleftrightarrow> v = w"
  by (metis unbe_be_small)

text \<open>A wide word is its big-endian string: the ranges of the four integer widths.\<close>

lemma unat_word_less [simp]:
  "unat (x :: u16) < 65536" "unat (y :: u32) < 4294967296" "unat (z :: u64) < 18446744073709551616"
  by (rule unsigned_less [where w = x, simplified], rule unsigned_less [where w = y, simplified],
      rule unsigned_less [where w = z, simplified])

lemma unbe_be_word [simp]:
  "unbe [a :: u8] = unat a"
  "unbe (be 2 (unat (b :: u16))) = unat b"
  "unbe (be 4 (unat (c :: u32))) = unat c"
  "unbe (be 8 (unat (d :: u64))) = unat d"
  by (simp add: unbe_def) (simp_all add: unbe_be)

text \<open>A 16-bit number on the wire, kept folded so that numerals stay recognisable.\<close>

definition u16b :: "u16 \<Rightarrow> bytes" where
  "u16b v = be 2 (unat v)"

lemma length_u16b [simp]: "length (u16b v) = 2"
  by (simp add: u16b_def)

lemma u16b_neq_Nil [simp]: "u16b v \<noteq> []"
  by (simp add: u16b_def)

lemma u16b_0: "u16b 0 = be 2 0"
  by (simp add: u16b_def)

lemma u16b_inject: "u16b v = u16b w \<longleftrightarrow> v = w"
proof
  assume "u16b v = u16b w"
  then have "unbe (u16b v) = unbe (u16b w)" by simp
  then show "v = w" by (simp add: u16b_def word_unat_eq_iff)
qed simp

text \<open>Strings behind an 8, 16 or 24-bit length, kept folded as well.\<close>

definition lp8 :: "bytes \<Rightarrow> bytes" where
  "lp8 w = be 1 (length w) @ w"

definition lp16 :: "bytes \<Rightarrow> bytes" where
  "lp16 w = be 2 (length w) @ w"

definition lp24 :: "bytes \<Rightarrow> bytes" where
  "lp24 w = be 3 (length w) @ w"

lemma length_lp [simp]:
  "length (lp8 w) = Suc (length w)" "length (lp16 w) = 2 + length w" "length (lp24 w) = 3 + length w"
  by (simp_all add: lp8_def lp16_def lp24_def)

lemma lp_neq_Nil [simp]: "lp8 w \<noteq> []" "lp16 w \<noteq> []" "lp24 w \<noteq> []"
  by (simp_all add: lp8_def lp16_def lp24_def)

text \<open>The shifts the hand-written encoders use, \<open>uint8(n >> 16), uint8(n >> 8), uint8(n)\<close>.\<close>

lemma be_1: "be (Suc 0) v = [word_of_nat v]"
  by simp

lemma be_2: "be 2 v = [word_of_nat (drop_bit 8 v), word_of_nat v]"
proof -
  have "be (Suc (Suc 0)) v = [word_of_nat (v div 256), word_of_nat v]" by simp
  then show ?thesis by (simp only: numeral_2_eq_2 [symmetric]) (simp add: drop_bit_eq_div)
qed

lemma be_3: "be 3 v = [word_of_nat (drop_bit 16 v), word_of_nat (drop_bit 8 v), word_of_nat v]"
proof -
  have "be (Suc (Suc (Suc 0))) v = [word_of_nat (v div 256 div 256), word_of_nat (v div 256), word_of_nat v]"
    by (simp del: div_mult2_eq)
  then show ?thesis
    by (simp only: numeral_3_eq_3 [symmetric]) (simp add: drop_bit_eq_div div_mult2_eq [symmetric])
qed

lemma unbe_2: "unbe [a, b] = unat a * 256 + unat b"
  by (simp add: unbe_def)

lemma unbe_3: "unbe [a, b, c] = unat a * 65536 + unat b * 256 + unat c"
  by (simp add: unbe_def)

text \<open>
  Integers assembled from bytes by shifts and bitwise or:
  \<open>int(a)<<16 | int(b)<<8 | int(c)\<close>, the same at width 32, and \<open>uint16(a)<<8 | uint16(b)\<close>.
\<close>

definition int24 :: "u8 \<Rightarrow> u8 \<Rightarrow> u8 \<Rightarrow> nat" where
  "int24 a b c = or (or (push_bit 16 (unat a)) (push_bit 8 (unat b))) (unat c)"

definition uint24 :: "u8 \<Rightarrow> u8 \<Rightarrow> u8 \<Rightarrow> u32" where
  "uint24 a b c = or (or (push_bit 16 (ucast a)) (push_bit 8 (ucast b))) (ucast c)"

definition uint16 :: "u8 \<Rightarrow> u8 \<Rightarrow> u16" where
  "uint16 a b = or (push_bit 8 (ucast a)) (ucast b)"

lemma bit_u8_bound: "bit (unat (a :: u8)) n \<Longrightarrow> n < 8"
  using bit_imp_le_length [of a n] by (simp add: bit_unsigned_iff)

lemma or_push_bit_8: "or (push_bit 8 v) (unat (c :: u8)) = v * 256 + unat c"
proof -
  have "push_bit 8 v + unat c = or (push_bit 8 v) (unat c)"
    by (rule disjunctive_add) (auto simp: bit_push_bit_iff dest: bit_u8_bound)
  then show ?thesis by (simp add: push_bit_eq_mult)
qed

lemma int24_unbe: "int24 a b c = unbe [a, b, c]"
proof -
  have "or (push_bit 16 (unat a)) (push_bit 8 (unat b)) = push_bit 8 (or (push_bit 8 (unat a)) (unat b))"
    by (simp add: push_bit_or)
  then show ?thesis by (simp add: int24_def or_push_bit_8 unbe_3)
qed

lemma uint24_int24: "unat (uint24 a b c) = int24 a b c"
proof -
  have "int24 a b c < 2 ^ 32"
    using unbe_less [of "[a, b, c]"] by (simp add: int24_unbe)
  moreover have "uint24 a b c = word_of_nat (int24 a b c)"
    by (rule bit_word_eqI)
      (auto simp: uint24_def int24_def bit_or_iff bit_push_bit_iff bit_ucast_iff bit_of_nat_iff bit_unsigned_iff)
  ultimately show ?thesis by (simp add: unat_of_nat)
qed

lemma uint24_unbe: "unat (uint24 a b c) = unbe [a, b, c]"
  by (simp add: uint24_int24 int24_unbe)

lemma uint24_add3: "unat (3 + uint24 a b c) = 3 + unbe [a, b, c]"
proof -
  have "unbe [a, b, c] < 2 ^ 24" using unbe_less [of "[a, b, c]"] by simp
  then show ?thesis by (simp add: unat_word_ariths uint24_unbe)
qed

lemma uint16_unbe: "unat (uint16 a b) = unbe [a, b]"
proof -
  have "or (push_bit 8 (unat a)) (unat b) < 2 ^ 16"
    using unbe_less [of "[a, b]"] by (simp add: or_push_bit_8 unbe_2)
  moreover have "uint16 a b = word_of_nat (or (push_bit 8 (unat a)) (unat b))"
    by (rule bit_word_eqI)
      (auto simp: uint16_def bit_or_iff bit_push_bit_iff bit_ucast_iff bit_of_nat_iff bit_unsigned_iff)
  ultimately have "unat (uint16 a b) = or (push_bit 8 (unat a)) (unat b)" by (simp add: unat_of_nat)
  then show ?thesis by (simp only: or_push_bit_8 unbe_2)
qed

section \<open>Splitting byte strings\<close>

text \<open>\<open>split_at n s\<close>: the first \<open>n\<close> bytes and the rest, when there are that many.\<close>

definition split_at :: "nat \<Rightarrow> bytes \<Rightarrow> (bytes \<times> bytes) option" where
  "split_at n s = (if length s < n then None else Some (take n s, drop n s))"

lemma split_at_append [simp]: "length w = n \<Longrightarrow> split_at n (w @ r) = Some (w, r)"
  by (simp add: split_at_def)

lemma split_at_all [simp]: "split_at (length s) s = Some (s, [])"
  by (simp add: split_at_def)

lemma split_at_Some: "split_at n s = Some (w, r) \<longleftrightarrow> s = w @ r \<and> length w = n"
  by (auto simp: split_at_def min_def)

section \<open>Guards and loops of the parsers\<close>

text \<open>\<open>if !cond { return false }\<close> in a parser whose failure is \<open>None\<close>.\<close>

definition require :: "bool \<Rightarrow> unit option" where
  "require b = (if b then Some () else None)"

lemma require_simps [simp]: "require True = Some ()" "require False = None"
  by (simp_all add: require_def)

lemma require_Some [simp]: "require b = Some u \<longleftrightarrow> b"
  by (simp add: require_def)

lemma require_bind_Some [simp]: "Option.bind (require b) f = Some y \<longleftrightarrow> b \<and> f () = Some y"
  by (simp add: require_def)

text \<open>
  The loop \<open>for !s.Empty() { ... }\<close>: the body reads from \<open>s\<close> and updates the state, and
  \<open>None\<close> is its early \<open>return false\<close>. \<open>for_nonempty\<close> spends one unit of fuel per round;
  \<open>read_while\<close> starts it with as many rounds as the string has bytes, which is enough
  whenever every round consumes at least a byte (\<open>for_nonempty_enough\<close> below).
\<close>

fun for_nonempty :: "nat \<Rightarrow> (bytes \<Rightarrow> 'a \<Rightarrow> (bytes \<times> 'a) option) \<Rightarrow> bytes \<Rightarrow> 'a \<Rightarrow> 'a option" where
  "for_nonempty k body [] a = Some a"
| "for_nonempty 0 body (b # bs) a = None"
| "for_nonempty (Suc k) body (b # bs) a =
     (case body (b # bs) a of None \<Rightarrow> None | Some (s', a') \<Rightarrow> for_nonempty k body s' a')"

definition read_while :: "(bytes \<Rightarrow> 'a \<Rightarrow> (bytes \<times> 'a) option) \<Rightarrow> bytes \<Rightarrow> 'a \<Rightarrow> 'a option" where
  "read_while body s a = for_nonempty (length s) body s a"

definition consumes :: "(bytes \<Rightarrow> 'a \<Rightarrow> (bytes \<times> 'a) option) \<Rightarrow> bool" where
  "consumes body \<longleftrightarrow> (\<forall>s a s' a'. s \<noteq> [] \<longrightarrow> body s a = Some (s', a') \<longrightarrow> length s' < length s)"

lemma consumesI [consume_intros]:
  "(\<And>s a s' a'. s \<noteq> [] \<Longrightarrow> body s a = Some (s', a') \<Longrightarrow> length s' < length s) \<Longrightarrow> consumes body"
  by (auto simp: consumes_def)

lemma for_nonempty_Suc:
  "for_nonempty (Suc k) body s a =
     (if s = [] then Some a
      else case body s a of None \<Rightarrow> None | Some (s', a') \<Rightarrow> for_nonempty k body s' a')"
  by (cases s) auto

text \<open>More fuel than the string has bytes never changes the outcome.\<close>

lemma for_nonempty_enough:
  assumes "consumes body" and "length s \<le> k"
  shows "for_nonempty k body s a = read_while body s a"
  unfolding read_while_def using assms(2)
proof (induction "length s" arbitrary: s k a rule: less_induct)
  case less
  show ?case
  proof (cases "s = []")
    case True
    then show ?thesis by simp
  next
    case False
    then obtain n where n: "length s = Suc n" by (cases s) auto
    with less.prems obtain m where m: "k = Suc m" "n \<le> m" by (cases k) auto
    show ?thesis
    proof (cases "body s a")
      case None
      with False show ?thesis by (simp add: m n for_nonempty_Suc)
    next
      case (Some p)
      obtain s' a' where p: "p = (s', a')" by force
      with Some False assms(1) have lt: "length s' < length s" by (auto simp: consumes_def)
      with n m(2) have "length s' \<le> m" "length s' \<le> n" by auto
      with less.hyps [OF lt] have "for_nonempty m body s' a' = for_nonempty n body s' a'" by metis
      with Some p False show ?thesis by (simp add: m n for_nonempty_Suc)
    qed
  qed
qed

lemma read_while_Nil [simp]: "read_while body [] a = Some a"
  by (simp add: read_while_def)

lemma read_while_step:
  assumes "consumes body" and "s \<noteq> []"
  shows "read_while body s a =
     (case body s a of None \<Rightarrow> None | Some (s', a') \<Rightarrow> read_while body s' a')"
proof -
  obtain n where n: "length s = Suc n" using assms(2) by (cases s) auto
  show ?thesis
  proof (cases "body s a")
    case None
    with assms(2) show ?thesis by (simp add: read_while_def n for_nonempty_Suc)
  next
    case (Some p)
    obtain s' a' where p: "p = (s', a')" by force
    with Some assms have "length s' \<le> n" unfolding consumes_def using n by fastforce
    then have "for_nonempty n body s' a' = read_while body s' a'"
      by (rule for_nonempty_enough [OF assms(1)])
    with Some p assms(2) show ?thesis by (simp add: read_while_def n for_nonempty_Suc)
  qed
qed

text \<open>
  A loop whose body undoes an element encoder reads back a whole list. The state update is
  \<open>upd\<close>, applied once per element and in order.
\<close>

lemma read_while_fold:
  assumes "consumes body"
    and "\<And>x r a. x \<in> set xs \<Longrightarrow> enc x \<noteq> [] \<and> body (enc x @ r) a = Some (r, upd x a)"
  shows "read_while body (concat (map enc xs)) a = Some (fold upd xs a)"
  using assms(2)
proof (induction xs arbitrary: a)
  case Nil
  then show ?case by simp
next
  case (Cons x xs)
  then have "enc x \<noteq> []" "body (enc x @ concat (map enc xs)) a = Some (concat (map enc xs), upd x a)"
    by auto
  with Cons show ?case by (simp add: read_while_step [OF assms(1)])
qed

lemma read_while_append:
  assumes "consumes body"
    and "\<And>x r a. x \<in> set xs \<Longrightarrow> enc x \<noteq> [] \<and> body (enc x @ r) a = Some (r, a @ [x])"
  shows "read_while body (concat (map enc xs)) a = Some (a @ xs)"
proof -
  have "fold (\<lambda>x a. a @ [x]) xs a = a @ xs" for a :: "'a list"
    by (induction xs arbitrary: a) auto
  with read_while_fold [of body xs enc "\<lambda>x a. a @ [x]", OF assms] show ?thesis by simp
qed

text \<open>Invariants of a loop: what the body keeps, the loop keeps.\<close>

lemma for_nonempty_invariant:
  assumes "\<And>s a s' a'. P a \<Longrightarrow> body s a = Some (s', a') \<Longrightarrow> P a'"
  shows "P a \<Longrightarrow> for_nonempty k body s a = Some r \<Longrightarrow> P r"
proof (induction k arbitrary: s a)
  case 0
  then show ?case by (cases s) auto
next
  case (Suc k)
  then show ?case
    by (auto simp: for_nonempty_Suc split: if_splits option.splits intro: assms)
qed

lemma read_while_invariant:
  assumes "\<And>s a s' a'. P a \<Longrightarrow> body s a = Some (s', a') \<Longrightarrow> P a'"
    and "P a" and "read_while body s a = Some r"
  shows "P r"
  using assms(2) assms(3) [unfolded read_while_def]
  by (rule for_nonempty_invariant [of P body, rotated]) (rule assms(1))

text \<open>The same for an invariant that also speaks about the unread input.\<close>

lemma for_nonempty_input_invariant:
  assumes "\<And>s a s' a'. P s a \<Longrightarrow> body s a = Some (s', a') \<Longrightarrow> P s' a'"
  shows "P s a \<Longrightarrow> for_nonempty k body s a = Some r \<Longrightarrow> P [] r"
proof (induction k arbitrary: s a)
  case 0
  then show ?case by (cases s) auto
next
  case (Suc k)
  then show ?case
    by (auto simp: for_nonempty_Suc split: if_splits option.splits intro: assms)
qed

lemma read_while_input_invariant:
  assumes "\<And>s a s' a'. P s a \<Longrightarrow> body s a = Some (s', a') \<Longrightarrow> P s' a'"
    and "P s a" and "read_while body s a = Some r"
  shows "P [] r"
  using assms(2) assms(3) [unfolded read_while_def]
  by (rule for_nonempty_input_invariant [of P body, rotated]) (rule assms(1))

lemma read_while_all:
  assumes "read_while body s l = Some l'"
    and "\<And>s a s' a'. body s a = Some (s', a') \<Longrightarrow> \<exists>x. a' = a @ [x] \<and> P x"
    and "\<forall>x\<in>set l. P x"
  shows "\<forall>x\<in>set l'. P x"
  by (rule read_while_invariant [OF _ _ assms(1), of "\<lambda>l. \<forall>x\<in>set l. P x"])
    (use assms(2,3) in fastforce)+

end
