(* ===== verification/Cryptobyte.thy ===== *)
theory Cryptobyte
  imports Prelude
begin

text \<open>
  The interface of \<open>golang.org/x/crypto/cryptobyte\<close>, the package that handshake_messages.go,
  ticket.go, key_schedule.go and ech.go are written against. Its code is not part of the
  repository, so it is a parameter: a record of the methods that the repository calls, passed
  to every definition that uses them. What the callers rely on is the locale
  \<open>cryptobyte_pkg\<close>, which states the documented behaviour of the methods: a \<open>String\<close>
  method decodes a big-endian value or a length-prefixed string from the front and reports
  failure when the input is too short; a \<open>Builder\<close> method appends, a length-prefixed
  continuation is run on an empty builder and its output is appended behind its length, the
  first error sticks, and \<open>Bytes\<close> returns the accumulated string or that error.

  The theory also gives the statement forms that the builder code is written in (a block of
  statements, a conditional, a loop), the meaning of builder code as an optional wire string
  and the locale's lemmas that compute it, and a reference instance of the interface on which
  the locale is interpreted.
\<close>

record 'b cryptobyte =
  ReadUint8 :: "bytes \<Rightarrow> (u8 \<times> bytes) option"
  ReadUint16 :: "bytes \<Rightarrow> (u16 \<times> bytes) option"
  ReadUint32 :: "bytes \<Rightarrow> (u32 \<times> bytes) option"
  ReadUint64 :: "bytes \<Rightarrow> (u64 \<times> bytes) option"
  ReadBytes :: "nat \<Rightarrow> bytes \<Rightarrow> (bytes \<times> bytes) option"
  CopyBytes :: "nat \<Rightarrow> bytes \<Rightarrow> (bytes \<times> bytes) option"
  Skip :: "nat \<Rightarrow> bytes \<Rightarrow> bytes option"
  ReadUint8LengthPrefixed :: "bytes \<Rightarrow> (bytes \<times> bytes) option"
  ReadUint16LengthPrefixed :: "bytes \<Rightarrow> (bytes \<times> bytes) option"
  ReadUint24LengthPrefixed :: "bytes \<Rightarrow> (bytes \<times> bytes) option"
  NewBuilder :: 'b
  AddUint8 :: "u8 \<Rightarrow> 'b \<Rightarrow> 'b"
  AddUint16 :: "u16 \<Rightarrow> 'b \<Rightarrow> 'b"
  AddUint32 :: "u32 \<Rightarrow> 'b \<Rightarrow> 'b"
  AddBytes :: "bytes \<Rightarrow> 'b \<Rightarrow> 'b"
  AddUint8LengthPrefixed :: "('b \<Rightarrow> 'b) \<Rightarrow> 'b \<Rightarrow> 'b"
  AddUint16LengthPrefixed :: "('b \<Rightarrow> 'b) \<Rightarrow> 'b \<Rightarrow> 'b"
  AddUint24LengthPrefixed :: "('b \<Rightarrow> 'b) \<Rightarrow> 'b \<Rightarrow> 'b"
  AddValue :: "('b \<Rightarrow> goerror option \<times> 'b) \<Rightarrow> 'b \<Rightarrow> 'b"
  SetError :: "goerror \<Rightarrow> 'b \<Rightarrow> 'b"
  Bytes :: "'b \<Rightarrow> bytes res"

section \<open>Statement forms of builder code\<close>

text \<open>
  A \<open>func(b *cryptobyte.Builder) { ... }\<close> is the list of its statements; \<open>cond\<close> is an
  \<open>if\<close> without else and \<open>foreach\<close> a \<open>for range\<close> loop over a slice.
\<close>

definition block :: "('b \<Rightarrow> 'b) list \<Rightarrow> 'b \<Rightarrow> 'b" where
  "block ops b = fold (\<lambda>op b. op b) ops b"

definition cond :: "bool \<Rightarrow> ('b \<Rightarrow> 'b) list \<Rightarrow> 'b \<Rightarrow> 'b" where
  "cond c ops = (if c then block ops else (\<lambda>b. b))"

definition foreach :: "'a list \<Rightarrow> ('a \<Rightarrow> ('b \<Rightarrow> 'b) list) \<Rightarrow> 'b \<Rightarrow> 'b" where
  "foreach xs f = block (map (\<lambda>x. block (f x)) xs)"

lemma block_Nil [simp]: "block [] b = b"
  by (simp add: block_def)

lemma block_Cons: "block (op # ops) b = block ops (op b)"
  by (simp add: block_def)

section \<open>Wire strings of builder code\<close>

text \<open>
  The wire string of a piece of builder code, \<open>None\<close> when it ends in an error:
  concatenation of pieces and length prefixes.
\<close>

fun wcat :: "bytes option list \<Rightarrow> bytes option" where
  "wcat [] = Some []"
| "wcat (r # rs) = (case r of None \<Rightarrow> None | Some x \<Rightarrow> map_option (\<lambda>y. x @ y) (wcat rs))"

definition wprefix :: "nat \<Rightarrow> bytes option \<Rightarrow> bytes option" where
  "wprefix n r = (case r of None \<Rightarrow> None
     | Some w \<Rightarrow> if length w < 256 ^ n then Some (be n (length w) @ w) else None)"

lemma wcat_Cons_Some:
  "wcat (r # rs) = Some z \<longleftrightarrow> (\<exists>x y. r = Some x \<and> wcat rs = Some y \<and> z = x @ y)"
  by (auto split: option.splits)

declare wcat.simps(2) [simp del]

lemma wcat_map_Some:
  "wcat (map (\<lambda>x. Some (f x)) xs) = Some (concat (map f xs))"
  by (induction xs) (auto simp: wcat.simps)

lemma wcat_singleton [simp]: "wcat [r] = r"
  by (cases r) (auto simp: wcat.simps)

lemma wcat_Some_Nil: "wcat (Some [] # rs) = wcat rs"
  by (cases "wcat rs") (auto simp: wcat.simps)

lemma wprefix_Some:
  "wprefix n r = Some z \<longleftrightarrow> (\<exists>w. r = Some w \<and> length w < 256 ^ n \<and> z = be n (length w) @ w)"
  by (auto simp: wprefix_def split: option.splits)

lemma wprefix_lp:
  "wprefix (Suc 0) r = Some z \<longleftrightarrow> (\<exists>w. r = Some w \<and> length w < 256 \<and> z = lp8 w)"
  "wprefix 2 r = Some z \<longleftrightarrow> (\<exists>w. r = Some w \<and> length w < 65536 \<and> z = lp16 w)"
  "wprefix 3 r = Some z \<longleftrightarrow> (\<exists>w. r = Some w \<and> length w < 16777216 \<and> z = lp24 w)"
  by (simp_all add: wprefix_Some lp8_def lp16_def lp24_def)

lemma wcat_map_Some_iff:
  "wcat (map f xs) = Some z \<longleftrightarrow> (\<forall>x\<in>set xs. f x \<noteq> None) \<and> z = concat (map (\<lambda>x. the (f x)) xs)"
  by (induction xs arbitrary: z) (auto simp: wcat_Cons_Some)

lemma wcat_map_wprefix:
  "wcat (map (\<lambda>x. wprefix (Suc 0) (Some (f x))) xs) = Some z \<longleftrightarrow>
     (\<forall>x\<in>set xs. length (f x) < 256) \<and> z = concat (map (\<lambda>x. lp8 (f x)) xs)"
  "wcat (map (\<lambda>x. wprefix 2 (Some (f x))) xs) = Some z \<longleftrightarrow>
     (\<forall>x\<in>set xs. length (f x) < 65536) \<and> z = concat (map (\<lambda>x. lp16 (f x)) xs)"
  "wcat (map (\<lambda>x. wprefix 3 (Some (f x))) xs) = Some z \<longleftrightarrow>
     (\<forall>x\<in>set xs. length (f x) < 16777216) \<and> z = concat (map (\<lambda>x. lp24 (f x)) xs)"
  by (induction xs arbitrary: z) (auto simp: wcat_Cons_Some wprefix_lp)

lemmas wire_iffs = wprefix_lp wcat_Cons_Some wcat_map_wprefix wcat_map_Some

definition wopt :: "bool \<Rightarrow> bytes option \<Rightarrow> bytes option" where
  "wopt c r = (if c then r else Some [])"

lemma wopt_True [simp]: "wopt True r = r"
  by (simp add: wopt_def)

lemma wopt_False [simp]: "wopt False r = Some []"
  by (simp add: wopt_def)

definition wire :: "('b, 'x) cryptobyte_scheme \<Rightarrow> ('b \<Rightarrow> 'b) \<Rightarrow> bytes option" where
  "wire C f = (case Bytes C (f (NewBuilder C)) of Inl e \<Rightarrow> None | Inr w \<Rightarrow> Some w)"

lemma wire_Some: "wire C f = Some w \<longleftrightarrow> Bytes C (f (NewBuilder C)) = Inr w"
  by (auto simp: wire_def split: sum.splits)

lemma wire_None: "wire C f = None \<longleftrightarrow> (\<exists>e. Bytes C (f (NewBuilder C)) = Inl e)"
  by (auto simp: wire_def split: sum.splits)

text \<open>Code whose effect on any builder is to append its wire string, or to leave an error.\<close>

definition lawful :: "('b, 'x) cryptobyte_scheme \<Rightarrow> ('b \<Rightarrow> 'b) \<Rightarrow> bool" where
  "lawful C f \<longleftrightarrow>
     (\<forall>b e. Bytes C b = Inl e \<longrightarrow> (\<exists>e'. Bytes C (f b) = Inl e')) \<and>
     (\<forall>b x. Bytes C b = Inr x \<longrightarrow> wire C f = None \<longrightarrow> (\<exists>e'. Bytes C (f b) = Inl e')) \<and>
     (\<forall>b x w. Bytes C b = Inr x \<longrightarrow> wire C f = Some w \<longrightarrow> Bytes C (f b) = Inr (x @ w))"

section \<open>The documented behaviour of the package\<close>

definition appends :: "('b, 'x) cryptobyte_scheme \<Rightarrow> ('b \<Rightarrow> 'b) \<Rightarrow> bytes \<Rightarrow> bool" where
  "appends C op w \<longleftrightarrow>
     (\<forall>b e. Bytes C b = Inl e \<longrightarrow> Bytes C (op b) = Inl e) \<and>
     (\<forall>b x. Bytes C b = Inr x \<longrightarrow> Bytes C (op b) = Inr (x @ w))"

definition length_prefixes ::
    "('b, 'x) cryptobyte_scheme \<Rightarrow> nat \<Rightarrow> (('b \<Rightarrow> 'b) \<Rightarrow> 'b \<Rightarrow> 'b) \<Rightarrow> bool" where
  "length_prefixes C n add \<longleftrightarrow>
     (\<forall>f b e. Bytes C b = Inl e \<longrightarrow> Bytes C (add f b) = Inl e) \<and>
     (\<forall>f b x e. Bytes C b = Inr x \<longrightarrow> Bytes C (f (NewBuilder C)) = Inl e \<longrightarrow> Bytes C (add f b) = Inl e) \<and>
     (\<forall>f b x w. Bytes C b = Inr x \<longrightarrow> Bytes C (f (NewBuilder C)) = Inr w \<longrightarrow>
        (if length w < 256 ^ n then Bytes C (add f b) = Inr (x @ be n (length w) @ w)
         else (\<exists>e. Bytes C (add f b) = Inl e)))"

definition decodes :: "nat \<Rightarrow> (bytes \<Rightarrow> ('w::len word \<times> bytes) option) \<Rightarrow> bool" where
  "decodes n rd \<longleftrightarrow> (\<forall>s. rd s = map_option (\<lambda>(w, r). (word_of_nat (unbe w), r)) (split_at n s))"

definition unprefixes :: "nat \<Rightarrow> (bytes \<Rightarrow> (bytes \<times> bytes) option) \<Rightarrow> bool" where
  "unprefixes n rd \<longleftrightarrow>
     (\<forall>s. rd s = (case split_at n s of None \<Rightarrow> None | Some (l, r) \<Rightarrow> split_at (unbe l) r))"

locale cryptobyte_pkg =
  fixes C :: "('b, 'x) cryptobyte_scheme"
  assumes decodes_ReadUint8: "decodes 1 (ReadUint8 C)"
    and decodes_ReadUint16: "decodes 2 (ReadUint16 C)"
    and decodes_ReadUint32: "decodes 4 (ReadUint32 C)"
    and decodes_ReadUint64: "decodes 8 (ReadUint64 C)"
    and ReadBytes_split: "ReadBytes C n s = split_at n s"
    and CopyBytes_split: "CopyBytes C n s = split_at n s"
    and Skip_split: "Skip C n s = map_option snd (split_at n s)"
    and unprefixes_ReadUint8LengthPrefixed: "unprefixes 1 (ReadUint8LengthPrefixed C)"
    and unprefixes_ReadUint16LengthPrefixed: "unprefixes 2 (ReadUint16LengthPrefixed C)"
    and unprefixes_ReadUint24LengthPrefixed: "unprefixes 3 (ReadUint24LengthPrefixed C)"
    and Bytes_NewBuilder [simp]: "Bytes C (NewBuilder C) = Inr []"
    and appends_AddUint8: "appends C (AddUint8 C v) [v]"
    and appends_AddUint16: "appends C (AddUint16 C v16) (be 2 (unat v16))"
    and appends_AddUint32: "appends C (AddUint32 C v32) (be 4 (unat v32))"
    and appends_AddBytes: "appends C (AddBytes C w) w"
    and length_prefixes_8: "length_prefixes C 1 (AddUint8LengthPrefixed C)"
    and length_prefixes_16: "length_prefixes C 2 (AddUint16LengthPrefixed C)"
    and length_prefixes_24: "length_prefixes C 3 (AddUint24LengthPrefixed C)"
    and Bytes_AddValue_error: "f b = (Some e, b') \<Longrightarrow> Bytes C (AddValue C f b) = Inl e"
    and Bytes_AddValue: "f b = (None, b') \<Longrightarrow> Bytes C (AddValue C f b) = Bytes C b'"
    and Bytes_SetError: "Bytes C (SetError C e b) = Inl e"
begin

text \<open>Reading, as inversion rules: what a successful read says about the input.\<close>

lemma decodes_iff:
  assumes "decodes n (rd :: bytes \<Rightarrow> ('w::len word \<times> bytes) option)" and "LENGTH('w) = 8 * n"
  shows "rd s = Some (v, r) \<longleftrightarrow> s = be n (unat v) @ r"
proof -
  have lim: "(256::nat) ^ n = 2 ^ LENGTH('w)" by (simp add: assms(2) power_mult)
  have "unat (word_of_nat (unbe w) :: 'w word) = unbe w" if "length w = n" for w
    using unbe_less [of w] that lim by (simp add: unat_of_nat)
  moreover have "unbe (be n (unat v)) = unat v"
    using unsigned_less [of v] lim by (simp add: unbe_be_small)
  ultimately show ?thesis
    using assms(1) by (auto simp: decodes_def split_at_Some be_unbe_len)
qed

lemma ReadUint8_iff: "ReadUint8 C s = Some (v, r) \<longleftrightarrow> s = v # r"
  using decodes_iff [OF decodes_ReadUint8, of s v r] by simp

lemma ReadUint16_iff: "ReadUint16 C s = Some (v, r) \<longleftrightarrow> s = u16b v @ r"
  unfolding u16b_def by (rule decodes_iff [OF decodes_ReadUint16]) simp

lemma ReadUint32_iff: "ReadUint32 C s = Some (v, r) \<longleftrightarrow> s = be 4 (unat v) @ r"
  by (rule decodes_iff [OF decodes_ReadUint32]) simp

lemma ReadUint64_iff: "ReadUint64 C s = Some (v, r) \<longleftrightarrow> s = be 8 (unat v) @ r"
  by (rule decodes_iff [OF decodes_ReadUint64]) simp

lemma unprefixes_iff:
  assumes "unprefixes n rd"
  shows "rd s = Some (w, r) \<longleftrightarrow> length w < 256 ^ n \<and> s = be n (length w) @ w @ r"
proof -
  have "rd s = Some (w, r) \<longleftrightarrow> (\<exists>l r'. split_at n s = Some (l, r') \<and> split_at (unbe l) r' = Some (w, r))"
    using assms by (cases "split_at n s") (auto simp: unprefixes_def)
  also have "\<dots> \<longleftrightarrow> (\<exists>l. s = l @ w @ r \<and> length l = n \<and> length w = unbe l)"
    by (auto simp: split_at_Some)
  also have "\<dots> \<longleftrightarrow> length w < 256 ^ n \<and> s = be n (length w) @ w @ r"
    by (metis be_unbe_len length_be unbe_be_small unbe_less)
  finally show ?thesis .
qed

lemma ReadUint8LengthPrefixed_iff:
  "ReadUint8LengthPrefixed C s = Some (w, r) \<longleftrightarrow> length w < 256 \<and> s = lp8 w @ r"
  using unprefixes_iff [OF unprefixes_ReadUint8LengthPrefixed, of s w r] by (simp add: lp8_def)

lemma ReadUint16LengthPrefixed_iff:
  "ReadUint16LengthPrefixed C s = Some (w, r) \<longleftrightarrow> length w < 65536 \<and> s = lp16 w @ r"
  using unprefixes_iff [OF unprefixes_ReadUint16LengthPrefixed, of s w r] by (simp add: lp16_def)

lemma ReadUint24LengthPrefixed_iff:
  "ReadUint24LengthPrefixed C s = Some (w, r) \<longleftrightarrow> length w < 16777216 \<and> s = lp24 w @ r"
  using unprefixes_iff [OF unprefixes_ReadUint24LengthPrefixed, of s w r] by (simp add: lp24_def)

lemma ReadBytes_iff: "ReadBytes C n s = Some (w, r) \<longleftrightarrow> s = w @ r \<and> length w = n"
  by (simp add: ReadBytes_split split_at_Some)

lemma CopyBytes_iff: "CopyBytes C n s = Some (w, r) \<longleftrightarrow> s = w @ r \<and> length w = n"
  by (simp add: CopyBytes_split split_at_Some)

lemma Skip_iff: "Skip C n s = Some r \<longleftrightarrow> (\<exists>w. s = w @ r \<and> length w = n)"
  by (auto simp: Skip_split split_at_Some)

lemmas read_iffs =
  ReadUint8_iff ReadUint16_iff ReadUint32_iff ReadUint64_iff ReadUint8LengthPrefixed_iff
  ReadUint16LengthPrefixed_iff ReadUint24LengthPrefixed_iff ReadBytes_iff CopyBytes_iff Skip_iff

text \<open>Reading back what the builder wrote.\<close>

lemma read_back [simp]:
  "ReadUint8 C (a # r) = Some (a, r)"
  "ReadUint16 C (u16b b @ r) = Some (b, r)"
  "ReadUint32 C (be 4 (unat c) @ r) = Some (c, r)"
  "ReadUint64 C (be 8 (unat d) @ r) = Some (d, r)"
  by (simp_all add: read_iffs)

lemma read_back_end [simp]:
  "ReadUint16 C (u16b b) = Some (b, [])"
  "ReadUint32 C (be 4 (unat c)) = Some (c, [])"
  "ReadUint64 C (be 8 (unat d)) = Some (d, [])"
  by (simp_all add: read_iffs)

lemma read_prefixed_back [simp]:
  "length w < 256 \<Longrightarrow> ReadUint8LengthPrefixed C (lp8 w @ r) = Some (w, r)"
  "length w < 65536 \<Longrightarrow> ReadUint16LengthPrefixed C (lp16 w @ r) = Some (w, r)"
  "length w < 16777216 \<Longrightarrow> ReadUint24LengthPrefixed C (lp24 w @ r) = Some (w, r)"
  by (simp_all add: read_iffs)

lemma read_prefixed_back_end [simp]:
  "length w < 256 \<Longrightarrow> ReadUint8LengthPrefixed C (lp8 w) = Some (w, [])"
  "length w < 65536 \<Longrightarrow> ReadUint16LengthPrefixed C (lp16 w) = Some (w, [])"
  "length w < 16777216 \<Longrightarrow> ReadUint24LengthPrefixed C (lp24 w) = Some (w, [])"
  by (simp_all add: read_iffs)

lemma ReadBytes_all [simp]: "ReadBytes C (length s) s = Some (s, [])"
  by (simp add: ReadBytes_split)

lemma ReadBytes_append [simp]: "length w = n \<Longrightarrow> ReadBytes C n (w @ r) = Some (w, r)"
  by (simp add: ReadBytes_split)

lemma CopyBytes_all [simp]: "CopyBytes C (length s) s = Some (s, [])"
  by (simp add: CopyBytes_split)

lemma Skip_header [simp]: "Skip C 4 (t # lp24 r) = Some r"
  unfolding Skip_iff by (rule exI [of _ "t # be 3 (length r)"]) (simp add: lp24_def)

text \<open>Writing: every statement form is lawful, and its wire string is computed from its parts.\<close>

lemma wire_appends: "appends C op w \<Longrightarrow> wire C op = Some w"
  by (simp add: appends_def wire_Some)

lemma lawful_appends: "appends C op w \<Longrightarrow> lawful C op"
  by (auto simp: lawful_def wire_appends) (auto simp: appends_def)

lemma length_prefixesD:
  assumes "length_prefixes C n add"
  shows "Bytes C b = Inl e \<Longrightarrow> Bytes C (add f b) = Inl e"
    and "Bytes C b = Inr x \<Longrightarrow> wprefix n (wire C f) = Some w \<Longrightarrow> Bytes C (add f b) = Inr (x @ w)"
    and "Bytes C b = Inr x \<Longrightarrow> wprefix n (wire C f) = None \<Longrightarrow> \<exists>e. Bytes C (add f b) = Inl e"
proof -
  show "Bytes C b = Inl e \<Longrightarrow> Bytes C (add f b) = Inl e"
    using assms by (simp add: length_prefixes_def)
  show "Bytes C b = Inr x \<Longrightarrow> wprefix n (wire C f) = Some w \<Longrightarrow> Bytes C (add f b) = Inr (x @ w)"
    using assms by (auto simp: length_prefixes_def wprefix_Some wire_Some)
  assume b: "Bytes C b = Inr x" and n: "wprefix n (wire C f) = None"
  show "\<exists>e. Bytes C (add f b) = Inl e"
  proof (cases "Bytes C (f (NewBuilder C))")
    case (Inl e)
    with assms b show ?thesis by (auto simp: length_prefixes_def)
  next
    case (Inr w)
    with n have "\<not> length w < 256 ^ n" by (auto simp: wprefix_def wire_def split: if_splits)
    with assms b Inr show ?thesis by (auto simp: length_prefixes_def)
  qed
qed

lemma wire_length_prefixes:
  assumes "length_prefixes C n add"
  shows "wire C (add f) = wprefix n (wire C f)"
proof (cases "wprefix n (wire C f)")
  case None
  then show ?thesis using length_prefixesD(3) [OF assms Bytes_NewBuilder None] by (auto simp: wire_None)
next
  case (Some w)
  then show ?thesis using length_prefixesD(2) [OF assms Bytes_NewBuilder Some] by (simp add: wire_Some)
qed

lemma lawful_length_prefixes: "length_prefixes C n add \<Longrightarrow> lawful C (add f)"
  unfolding lawful_def by (auto simp: wire_length_prefixes dest: length_prefixesD)

lemma wire_add [simp, wire_simps]:
  "wire C (AddUint8 C v) = Some [v]"
  "wire C (AddUint16 C v16) = Some (u16b v16)"
  "wire C (AddUint32 C v32) = Some (be 4 (unat v32))"
  "wire C (AddBytes C w) = Some w"
  "wire C (AddUint8LengthPrefixed C f) = wprefix 1 (wire C f)"
  "wire C (AddUint16LengthPrefixed C f) = wprefix 2 (wire C f)"
  "wire C (AddUint24LengthPrefixed C f) = wprefix 3 (wire C f)"
  using appends_AddUint8 appends_AddUint16 appends_AddUint32 appends_AddBytes
    length_prefixes_8 length_prefixes_16 length_prefixes_24
  by (simp_all add: wire_appends wire_length_prefixes u16b_def)

lemma lawful_add [simp]:
  "lawful C (AddUint8 C v)" "lawful C (AddUint16 C v16)" "lawful C (AddUint32 C v32)"
  "lawful C (AddBytes C w)" "lawful C (AddUint8LengthPrefixed C f)"
  "lawful C (AddUint16LengthPrefixed C f)" "lawful C (AddUint24LengthPrefixed C f)"
  using lawful_appends [OF appends_AddUint8] lawful_appends [OF appends_AddUint16]
    lawful_appends [OF appends_AddUint32] lawful_appends [OF appends_AddBytes]
    lawful_length_prefixes [OF length_prefixes_8] lawful_length_prefixes [OF length_prefixes_16]
    lawful_length_prefixes [OF length_prefixes_24] by simp_all

lemma lawful_SetError [simp]: "lawful C (SetError C e)"
  by (simp add: lawful_def wire_def Bytes_SetError)

lemma wire_SetError [simp]: "wire C (SetError C e) = None"
  by (simp add: wire_def Bytes_SetError)

lemma Bytes_block_error:
  assumes "\<forall>op\<in>set ops. lawful C op" and "Bytes C b = Inl e"
  shows "\<exists>e'. Bytes C (block ops b) = Inl e'"
  using assms
proof (induction ops arbitrary: b e)
  case (Cons op ops)
  then obtain e' where "Bytes C (op b) = Inl e'" unfolding lawful_def by fastforce
  with Cons show ?case by (auto simp: block_Cons)
qed simp

lemma Bytes_block:
  assumes "\<forall>op\<in>set ops. lawful C op" and "Bytes C b = Inr x"
  shows "wcat (map (wire C) ops) = None \<Longrightarrow> \<exists>e. Bytes C (block ops b) = Inl e"
    and "wcat (map (wire C) ops) = Some w \<Longrightarrow> Bytes C (block ops b) = Inr (x @ w)"
  using assms
proof (induction ops arbitrary: b x w)
  case (Cons op ops)
  {
    case 1
    show ?case
    proof (cases "wire C op")
      case None
      with 1 obtain e where "Bytes C (op b) = Inl e" by (auto simp: lawful_def)
      with 1 show ?thesis by (auto simp: block_Cons intro: Bytes_block_error)
    next
      case (Some w')
      with 1 have "Bytes C (op b) = Inr (x @ w')" "wcat (map (wire C) ops) = None"
        by (auto simp: lawful_def wcat.simps)
      with Cons.IH(1) 1 show ?thesis by (auto simp: block_Cons)
    qed
  next
    case 2
    then obtain x1 y1 where "wire C op = Some x1" "wcat (map (wire C) ops) = Some y1" "w = x1 @ y1"
      by (auto simp: wcat.simps split: option.splits)
    with 2 Cons.IH(2) [of y1 "op b" "x @ x1"] show ?case by (auto simp: block_Cons lawful_def)
  }
qed auto

lemma wire_block [simp, wire_simps]:
  assumes "\<forall>op\<in>set ops. lawful C op"
  shows "wire C (block ops) = wcat (map (wire C) ops)"
  using Bytes_block [OF assms Bytes_NewBuilder]
  by (cases "wcat (map (wire C) ops)") (auto simp: wire_None wire_Some)

lemma lawful_block [simp]: "\<forall>op\<in>set ops. lawful C op \<Longrightarrow> lawful C (block ops)"
  unfolding lawful_def [of C "block ops"]
  by (auto intro: Bytes_block Bytes_block_error)

lemma wire_skip: "wire C (\<lambda>b. b) = Some []"
  by (simp add: wire_def)

lemma lawful_skip: "lawful C (\<lambda>b. b)"
  by (simp add: lawful_def wire_skip)

lemma wire_cond [simp, wire_simps]:
  "\<forall>op\<in>set ops. lawful C op \<Longrightarrow>
     wire C (cond c ops) = wopt c (wcat (map (wire C) ops))"
  by (simp add: cond_def wire_skip)

lemma lawful_cond [simp]: "\<forall>op\<in>set ops. lawful C op \<Longrightarrow> lawful C (cond c ops)"
  by (simp add: cond_def lawful_skip)

lemma wire_foreach [simp, wire_simps]:
  "\<forall>x\<in>set xs. \<forall>op\<in>set (f x). lawful C op \<Longrightarrow>
     wire C (foreach xs f) = wcat (map (\<lambda>x. wcat (map (wire C) (f x))) xs)"
  by (simp add: foreach_def comp_def cong: map_cong)

lemma lawful_foreach [simp]:
  "\<forall>x\<in>set xs. \<forall>op\<in>set (f x). lawful C op \<Longrightarrow> lawful C (foreach xs f)"
  by (simp add: foreach_def)

end

section \<open>A reference instance\<close>

text \<open>
  An instance of the interface: a builder is the string built so far or the first error.
  The witnesses of the development evaluate the model on it.
\<close>

definition ref_append :: "bytes \<Rightarrow> bytes res \<Rightarrow> bytes res" where
  "ref_append w b = (case b of Inl e \<Rightarrow> Inl e | Inr x \<Rightarrow> Inr (x @ w))"

definition ref_prefixed :: "nat \<Rightarrow> (bytes res \<Rightarrow> bytes res) \<Rightarrow> bytes res \<Rightarrow> bytes res" where
  "ref_prefixed n f b = (case b of Inl e \<Rightarrow> Inl e
     | Inr x \<Rightarrow> (case f (Inr []) of Inl e \<Rightarrow> Inl e
         | Inr w \<Rightarrow> if length w < 256 ^ n then Inr (x @ be n (length w) @ w)
                   else Inl (Errorf ''cryptobyte: pending child length %d exceeds %d-byte length prefix'' [length w, n])))"

definition ref_uint :: "nat \<Rightarrow> bytes \<Rightarrow> ('w::len word \<times> bytes) option" where
  "ref_uint n s = map_option (\<lambda>(w, r). (word_of_nat (unbe w), r)) (split_at n s)"

definition ref_unprefix :: "nat \<Rightarrow> bytes \<Rightarrow> (bytes \<times> bytes) option" where
  "ref_unprefix n s = (case split_at n s of None \<Rightarrow> None | Some (l, r) \<Rightarrow> split_at (unbe l) r)"

definition cb_ref :: "bytes res cryptobyte" where
  "cb_ref = \<lparr>
     ReadUint8 = ref_uint 1, ReadUint16 = ref_uint 2, ReadUint32 = ref_uint 4, ReadUint64 = ref_uint 8,
     ReadBytes = split_at, CopyBytes = split_at, Skip = (\<lambda>n s. map_option snd (split_at n s)),
     ReadUint8LengthPrefixed = ref_unprefix 1, ReadUint16LengthPrefixed = ref_unprefix 2,
     ReadUint24LengthPrefixed = ref_unprefix 3,
     NewBuilder = Inr [],
     AddUint8 = (\<lambda>v. ref_append [v]), AddUint16 = (\<lambda>v. ref_append (be 2 (unat v))),
     AddUint32 = (\<lambda>v. ref_append (be 4 (unat v))), AddBytes = ref_append,
     AddUint8LengthPrefixed = ref_prefixed 1, AddUint16LengthPrefixed = ref_prefixed 2,
     AddUint24LengthPrefixed = ref_prefixed 3,
     AddValue = (\<lambda>f b. case f b of (Some e, b') \<Rightarrow> Inl e | (None, b') \<Rightarrow> b'),
     SetError = (\<lambda>e b. Inl e),
     Bytes = (\<lambda>b. b)\<rparr>"

interpretation cbr: cryptobyte_pkg cb_ref
  by unfold_locales
    (auto simp: cb_ref_def decodes_def unprefixes_def appends_def length_prefixes_def ref_uint_def
      ref_unprefix_def ref_append_def ref_prefixed_def split: sum.splits option.splits)

end
