(* ===== verification/Wire.thy ===== *)
theory Wire
  imports Cryptobyte
begin

text \<open>
  What the message codecs share: the protocol constants and small structs of common.go, the
  helpers at the head of handshake_messages.go, and the list loops that the unmarshalers
  repeat (16-bit numbers, length-prefixed strings that may not be empty), with the locale
  lemmas that a loop reads back what the matching builder loop wrote.
\<close>

section \<open>Constants of common.go\<close>

abbreviation VersionTLS10 :: u16 where "VersionTLS10 \<equiv> 0x0301"
abbreviation VersionTLS11 :: u16 where "VersionTLS11 \<equiv> 0x0302"
abbreviation VersionTLS12 :: u16 where "VersionTLS12 \<equiv> 0x0303"
abbreviation VersionTLS13 :: u16 where "VersionTLS13 \<equiv> 0x0304"
abbreviation VersionSSL30 :: u16 where "VersionSSL30 \<equiv> 0x0300"

abbreviation typeHelloRequest :: u8 where "typeHelloRequest \<equiv> 0"
abbreviation typeClientHello :: u8 where "typeClientHello \<equiv> 1"
abbreviation typeServerHello :: u8 where "typeServerHello \<equiv> 2"
abbreviation typeNewSessionTicket :: u8 where "typeNewSessionTicket \<equiv> 4"
abbreviation typeEndOfEarlyData :: u8 where "typeEndOfEarlyData \<equiv> 5"
abbreviation typeEncryptedExtensions :: u8 where "typeEncryptedExtensions \<equiv> 8"
abbreviation typeCertificate :: u8 where "typeCertificate \<equiv> 11"
abbreviation typeServerKeyExchange :: u8 where "typeServerKeyExchange \<equiv> 12"
abbreviation typeCertificateRequest :: u8 where "typeCertificateRequest \<equiv> 13"
abbreviation typeServerHelloDone :: u8 where "typeServerHelloDone \<equiv> 14"
abbreviation typeCertificateVerify :: u8 where "typeCertificateVerify \<equiv> 15"
abbreviation typeClientKeyExchange :: u8 where "typeClientKeyExchange \<equiv> 16"
abbreviation typeFinished :: u8 where "typeFinished \<equiv> 20"
abbreviation typeCertificateStatus :: u8 where "typeCertificateStatus \<equiv> 22"
abbreviation typeKeyUpdate :: u8 where "typeKeyUpdate \<equiv> 24"
abbreviation typeMessageHash :: u8 where "typeMessageHash \<equiv> 254"

abbreviation extensionServerName :: u16 where "extensionServerName \<equiv> 0"
abbreviation extensionStatusRequest :: u16 where "extensionStatusRequest \<equiv> 5"
abbreviation extensionSupportedCurves :: u16 where "extensionSupportedCurves \<equiv> 10"
abbreviation extensionSupportedPoints :: u16 where "extensionSupportedPoints \<equiv> 11"
abbreviation extensionSignatureAlgorithms :: u16 where "extensionSignatureAlgorithms \<equiv> 13"
abbreviation extensionALPN :: u16 where "extensionALPN \<equiv> 16"
abbreviation extensionSCT :: u16 where "extensionSCT \<equiv> 18"
abbreviation extensionExtendedMasterSecret :: u16 where "extensionExtendedMasterSecret \<equiv> 23"
abbreviation extensionSessionTicket :: u16 where "extensionSessionTicket \<equiv> 35"
abbreviation extensionPreSharedKey :: u16 where "extensionPreSharedKey \<equiv> 41"
abbreviation extensionEarlyData :: u16 where "extensionEarlyData \<equiv> 42"
abbreviation extensionSupportedVersions :: u16 where "extensionSupportedVersions \<equiv> 43"
abbreviation extensionCookie :: u16 where "extensionCookie \<equiv> 44"
abbreviation extensionPSKModes :: u16 where "extensionPSKModes \<equiv> 45"
abbreviation extensionCertificateAuthorities :: u16 where "extensionCertificateAuthorities \<equiv> 47"
abbreviation extensionSignatureAlgorithmsCert :: u16 where "extensionSignatureAlgorithmsCert \<equiv> 50"
abbreviation extensionKeyShare :: u16 where "extensionKeyShare \<equiv> 51"
abbreviation extensionQUICTransportParameters :: u16 where "extensionQUICTransportParameters \<equiv> 57"
abbreviation extensionRenegotiationInfo :: u16 where "extensionRenegotiationInfo \<equiv> 0xff01"
abbreviation extensionECHOuterExtensions :: u16 where "extensionECHOuterExtensions \<equiv> 0xfd00"
abbreviation extensionEncryptedClientHello :: u16 where "extensionEncryptedClientHello \<equiv> 0xfe0d"

abbreviation scsvRenegotiation :: u16 where "scsvRenegotiation \<equiv> 0x00ff"
abbreviation statusTypeOCSP :: u8 where "statusTypeOCSP \<equiv> 1"

record keyShare =
  ks_group :: u16
  ks_data :: bytes

record pskIdentity =
  psk_label :: bytes
  psk_obfuscatedTicketAge :: u32

section \<open>Helpers at the head of handshake\_messages.go\<close>

definition addBytesWithLength :: "('b, 'x) cryptobyte_scheme \<Rightarrow> bytes \<Rightarrow> nat \<Rightarrow> 'b \<Rightarrow> 'b" where
  "addBytesWithLength C v n =
     AddValue C (\<lambda>b. if length v \<noteq> n
       then (Some (Errorf ''invalid value length: expected %d, got %d'' [n, length v]), b)
       else (None, AddBytes C v b))"

definition addUint64 :: "('b, 'x) cryptobyte_scheme \<Rightarrow> u64 \<Rightarrow> 'b \<Rightarrow> 'b" where
  "addUint64 C v = block [AddUint32 C (ucast (drop_bit 32 v)), AddUint32 C (ucast v)]"

definition readUint64 :: "('b, 'x) cryptobyte_scheme \<Rightarrow> bytes \<Rightarrow> (u64 \<times> bytes) option" where
  "readUint64 C s = do {
     (hi, s) \<leftarrow> ReadUint32 C s;
     (lo, s) \<leftarrow> ReadUint32 C s;
     Some (or (push_bit 32 (ucast hi)) (ucast lo), s)
   }"

definition readUint8LengthPrefixed :: "('b, 'x) cryptobyte_scheme \<Rightarrow> bytes \<Rightarrow> (bytes \<times> bytes) option" where
  "readUint8LengthPrefixed C s = ReadUint8LengthPrefixed C s"

definition readUint16LengthPrefixed :: "('b, 'x) cryptobyte_scheme \<Rightarrow> bytes \<Rightarrow> (bytes \<times> bytes) option" where
  "readUint16LengthPrefixed C s = ReadUint16LengthPrefixed C s"

definition readUint24LengthPrefixed :: "('b, 'x) cryptobyte_scheme \<Rightarrow> bytes \<Rightarrow> (bytes \<times> bytes) option" where
  "readUint24LengthPrefixed C s = ReadUint24LengthPrefixed C s"

text \<open>
  The end of a \<open>switch\<close> case in an extension loop: control reaches the
  \<open>if !extData.Empty() { return false }\<close> behind the switch.
\<close>

definition endExt :: "bytes \<Rightarrow> 'm \<Rightarrow> 'm option" where
  "endExt extData m = (if extData \<noteq> [] then None else Some m)"

lemma endExt_simps [simp]: "endExt [] m = Some m" "endExt d m = Some m' \<longleftrightarrow> d = [] \<and> m' = m"
  by (auto simp: endExt_def)

section \<open>List loops of the unmarshalers\<close>

text \<open>\<open>for !s.Empty() { var v uint16; if !s.ReadUint16(&v) ...; l = append(l, v) }\<close>\<close>

definition readU16s :: "('b, 'x) cryptobyte_scheme \<Rightarrow> bytes \<Rightarrow> u16 list \<Rightarrow> u16 list option" where
  "readU16s C = read_while (\<lambda>s acc. do { (v, s) \<leftarrow> ReadUint16 C s; Some (s, acc @ [v]) })"

text \<open>The same for non-empty strings behind an 8-bit or a 16-bit length.\<close>

definition readU8Strings :: "('b, 'x) cryptobyte_scheme \<Rightarrow> bytes \<Rightarrow> bytes list \<Rightarrow> bytes list option" where
  "readU8Strings C = read_while (\<lambda>s acc. do {
     (w, s) \<leftarrow> ReadUint8LengthPrefixed C s; require (w \<noteq> []); Some (s, acc @ [w]) })"

definition readU16Strings :: "('b, 'x) cryptobyte_scheme \<Rightarrow> bytes \<Rightarrow> bytes list \<Rightarrow> bytes list option" where
  "readU16Strings C = read_while (\<lambda>s acc. do {
     (w, s) \<leftarrow> readUint16LengthPrefixed C s; require (w \<noteq> []); Some (s, acc @ [w]) })"

lemmas read_helper_defs =
  readUint8LengthPrefixed_def readUint16LengthPrefixed_def readUint24LengthPrefixed_def

context cryptobyte_pkg
begin

lemma lawful_addBytesWithLength [simp]: "lawful C (addBytesWithLength C v n)"
  and wire_addBytesWithLength [simp, wire_simps]:
    "wire C (addBytesWithLength C v n) = (if length v = n then Some v else None)"
proof -
  have bytes: "Bytes C (addBytesWithLength C v n b) =
      (if length v = n then Bytes C (AddBytes C v b)
       else Inl (Errorf ''invalid value length: expected %d, got %d'' [n, length v]))" for b
    unfolding addBytesWithLength_def
    by (auto intro: Bytes_AddValue Bytes_AddValue_error)
  have "Bytes C (AddBytes C v (NewBuilder C)) = Inr v"
    using appends_AddBytes [of v] by (simp add: appends_def)
  then show w: "wire C (addBytesWithLength C v n) = (if length v = n then Some v else None)"
    by (auto simp: wire_def bytes)
  show "lawful C (addBytesWithLength C v n)"
    using appends_AddBytes [of v] by (auto simp: lawful_def w bytes appends_def split: if_splits)
qed

lemma u64_halves:
  "or (push_bit 32 (ucast (ucast (drop_bit 32 v) :: u32))) (ucast (ucast v :: u32)) = (v :: u64)"
  by (rule bit_word_eqI)
    (auto simp: bit_or_iff bit_push_bit_iff bit_ucast_iff bit_drop_bit_eq)

lemma lawful_addUint64 [simp]: "lawful C (addUint64 C v)"
  by (simp add: addUint64_def)

lemma wire_addUint64 [simp, wire_simps]:
  "wire C (addUint64 C v) =
     Some (be 4 (unat (ucast (drop_bit 32 v) :: u32)) @ be 4 (unat (ucast v :: u32)))"
  by (simp add: addUint64_def wcat.simps)

lemma readUint64_back [simp]:
  "readUint64 C (be 4 (unat (ucast (drop_bit 32 v) :: u32)) @ be 4 (unat (ucast v :: u32)) @ r) = Some (v, r)"
  by (simp add: readUint64_def u64_halves)

lemma read_helper_back [simp]:
  "length w < 256 \<Longrightarrow> readUint8LengthPrefixed C (lp8 w @ r) = Some (w, r)"
  "length w < 65536 \<Longrightarrow> readUint16LengthPrefixed C (lp16 w @ r) = Some (w, r)"
  "length w < 16777216 \<Longrightarrow> readUint24LengthPrefixed C (lp24 w @ r) = Some (w, r)"
  "length w < 256 \<Longrightarrow> readUint8LengthPrefixed C (lp8 w) = Some (w, [])"
  "length w < 65536 \<Longrightarrow> readUint16LengthPrefixed C (lp16 w) = Some (w, [])"
  "length w < 16777216 \<Longrightarrow> readUint24LengthPrefixed C (lp24 w) = Some (w, [])"
  by (simp_all add: read_helper_defs)

lemmas read_helper_iffs =
  ReadUint8LengthPrefixed_iff [folded readUint8LengthPrefixed_def]
  ReadUint16LengthPrefixed_iff [folded readUint16LengthPrefixed_def]
  ReadUint24LengthPrefixed_iff [folded readUint24LengthPrefixed_def]

lemmas all_read_iffs = read_iffs read_helper_iffs

lemma consumes_readU16s:
  "consumes (\<lambda>s acc. do { (v, s) \<leftarrow> ReadUint16 C s; Some (s, acc @ [v]) })"
  by (rule consumesI) (auto simp: all_read_iffs bind_eq_Some_conv)

lemma consumes_readU8Strings:
  "consumes (\<lambda>s acc. do { (w, s) \<leftarrow> ReadUint8LengthPrefixed C s; require (w \<noteq> []); Some (s, acc @ [w]) })"
  by (rule consumesI) (auto simp: all_read_iffs bind_eq_Some_conv)

lemma consumes_readU16Strings:
  "consumes (\<lambda>s acc. do { (w, s) \<leftarrow> readUint16LengthPrefixed C s; require (w \<noteq> []); Some (s, acc @ [w]) })"
  by (rule consumesI) (auto simp: all_read_iffs bind_eq_Some_conv)

lemma readU16s_back [simp]:
  "readU16s C (concat (map u16b vs)) acc = Some (acc @ vs)"
  unfolding readU16s_def by (rule read_while_append [OF consumes_readU16s]) simp

lemma readU8Strings_back:
  assumes "[] \<notin> set ws" and "\<forall>w\<in>set ws. length w < 256"
  shows "readU8Strings C (concat (map lp8 ws)) acc = Some (acc @ ws)"
  unfolding readU8Strings_def
  by (rule read_while_append [OF consumes_readU8Strings]) (use assms in auto)

lemma readU16Strings_back:
  assumes "[] \<notin> set ws" and "\<forall>w\<in>set ws. length w < 65536"
  shows "readU16Strings C (concat (map lp16 ws)) acc = Some (acc @ ws)"
  unfolding readU16Strings_def
  by (rule read_while_append [OF consumes_readU16Strings]) (use assms in auto)

end

lemma concat_map_neq_Nil [simp]:
  "concat (map u16b vs) = [] \<longleftrightarrow> vs = []" "concat (map lp8 ws) = [] \<longleftrightarrow> ws = []"
  "concat (map lp16 ws) = [] \<longleftrightarrow> ws = []" "concat (map lp24 ws) = [] \<longleftrightarrow> ws = []"
  by (cases vs; simp) (cases ws; simp)+

section \<open>Extension blocks\<close>

text \<open>
  One extension on the wire, and the two forms of the loop over an extension block: with the
  \<open>seenExts\<close> map that rejects a repeated extension, and without it. The \<open>switch\<close> of the
  message is the argument \<open>sw\<close>: it gets the extension number, its data, the rest of the
  block and the message so far.
\<close>

definition extb :: "u16 \<Rightarrow> bytes \<Rightarrow> bytes" where
  "extb t d = u16b t @ lp16 d"

definition uniqueExtBody :: "('b, 'x) cryptobyte_scheme \<Rightarrow> (u16 \<Rightarrow> bytes \<Rightarrow> bytes \<Rightarrow> 'm \<Rightarrow> 'm option) \<Rightarrow>
    bytes \<Rightarrow> 'm \<times> u16 set \<Rightarrow> (bytes \<times> 'm \<times> u16 set) option" where
  "uniqueExtBody C sw extensions = (\<lambda>(m, seenExts). do {
     (extension, extensions) \<leftarrow> ReadUint16 C extensions;
     (extData, extensions) \<leftarrow> ReadUint16LengthPrefixed C extensions;
     require (extension \<notin> seenExts);
     m \<leftarrow> sw extension extData extensions m;
     Some (extensions, m, insert extension seenExts)
   })"

definition readUniqueExts :: "('b, 'x) cryptobyte_scheme \<Rightarrow> (u16 \<Rightarrow> bytes \<Rightarrow> bytes \<Rightarrow> 'm \<Rightarrow> 'm option) \<Rightarrow>
    bytes \<Rightarrow> 'm \<times> u16 set \<Rightarrow> ('m \<times> u16 set) option" where
  "readUniqueExts C sw = read_while (uniqueExtBody C sw)"

definition extBody :: "('b, 'x) cryptobyte_scheme \<Rightarrow> (u16 \<Rightarrow> bytes \<Rightarrow> 'm \<Rightarrow> 'm option) \<Rightarrow>
    bytes \<Rightarrow> 'm \<Rightarrow> (bytes \<times> 'm) option" where
  "extBody C sw extensions m = do {
     (extension, extensions) \<leftarrow> ReadUint16 C extensions;
     (extData, extensions) \<leftarrow> ReadUint16LengthPrefixed C extensions;
     m \<leftarrow> sw extension extData m;
     Some (extensions, m)
   }"

definition readExts :: "('b, 'x) cryptobyte_scheme \<Rightarrow> (u16 \<Rightarrow> bytes \<Rightarrow> 'm \<Rightarrow> 'm option) \<Rightarrow>
    bytes \<Rightarrow> 'm \<Rightarrow> 'm option" where
  "readExts C sw = read_while (extBody C sw)"

lemma extb_neq_Nil [simp]: "extb t d \<noteq> []"
  by (simp add: extb_def)

text \<open>The wire string of the two statements that emit an extension.\<close>

definition wext :: "u16 \<Rightarrow> bytes option \<Rightarrow> bytes option" where
  "wext t r = (case r of None \<Rightarrow> None | Some d \<Rightarrow> if length d < 65536 then Some (extb t d) else None)"

lemma wext_Some: "wext t r = Some e \<longleftrightarrow> (\<exists>d. r = Some d \<and> length d < 65536 \<and> e = extb t d)"
  by (auto simp: wext_def split: option.splits)

lemma wcat_ext [simp]: "wcat [Some (u16b t), wprefix 2 r] = wext t r"
  by (cases r) (auto simp: wcat.simps wprefix_def wext_def extb_def lp16_def)

lemma wcat_empty_ext [simp]: "wcat [Some (u16b t), Some (u16b 0)] = wext t (Some [])"
  by (auto simp: wcat.simps wext_def extb_def u16b_0 lp16_def)

text \<open>None of the extensions \<open>ts\<close> has been seen yet.\<close>

definition fresh :: "u16 list \<Rightarrow> u16 set \<Rightarrow> bool" where
  "fresh ts seen \<longleftrightarrow> (\<forall>t\<in>set ts. t \<notin> seen)"

lemma fresh_empty [simp]: "fresh ts {}"
  by (simp add: fresh_def)

context cryptobyte_pkg
begin

lemma consumes_uniqueExtBody: "consumes (uniqueExtBody C sw)"
  by (rule consumesI) (auto simp: uniqueExtBody_def all_read_iffs bind_eq_Some_conv)

lemma consumes_extBody: "consumes (extBody C sw)"
  by (rule consumesI) (auto simp: extBody_def all_read_iffs bind_eq_Some_conv)

lemma readUniqueExts_Nil [simp]: "readUniqueExts C sw [] a = Some a"
  by (simp add: readUniqueExts_def)

lemma readExts_Nil [simp]: "readExts C sw [] a = Some a"
  by (simp add: readExts_def)

lemma readUniqueExts_ext:
  assumes "length d < 65536"
  shows "readUniqueExts C sw (extb t d @ r) (m, seen) =
     (if t \<in> seen then None
      else case sw t d r m of None \<Rightarrow> None | Some m' \<Rightarrow> readUniqueExts C sw r (m', insert t seen))"
  using assms unfolding readUniqueExts_def
  by (subst read_while_step [OF consumes_uniqueExtBody])
    (auto simp: uniqueExtBody_def extb_def require_def split: option.splits)

text \<open>An extension that is only emitted under a condition, in either kind of loop.\<close>

lemma readUniqueExts_opt:
  assumes "wopt c (wext t r) = Some e" and "fresh (t # ts) seen" and "t \<notin> set ts"
    and "\<And>d. c \<Longrightarrow> r = Some d \<Longrightarrow> length d < 65536 \<Longrightarrow> sw t d R m = Some m'"
    and "\<not> c \<Longrightarrow> m' = m"
    and "\<And>seen'. fresh ts seen' \<Longrightarrow> \<exists>S. readUniqueExts C sw R (m', seen') = Some (mF, S)"
  shows "\<exists>S. readUniqueExts C sw (e @ R) (m, seen) = Some (mF, S)"
proof (cases c)
  case True
  with assms(1) obtain d where "r = Some d" "length d < 65536" "e = extb t d" by (auto simp: wext_Some)
  moreover have "fresh ts (insert t seen)" using assms(2,3) by (auto simp: fresh_def)
  ultimately show ?thesis
    using True assms(2,4,6) by (simp add: readUniqueExts_ext fresh_def)
next
  case False
  then show ?thesis using assms(1,2,5,6) by (simp add: fresh_def)
qed

lemma readExts_ext:
  assumes "length d < 65536"
  shows "readExts C sw (extb t d @ r) m =
     (case sw t d m of None \<Rightarrow> None | Some m' \<Rightarrow> readExts C sw r m')"
  using assms unfolding readExts_def
  by (subst read_while_step [OF consumes_extBody])
    (auto simp: extBody_def extb_def split: option.splits)

lemma readExts_opt:
  assumes "wopt c (wext t r) = Some e"
    and "\<And>d. c \<Longrightarrow> r = Some d \<Longrightarrow> length d < 65536 \<Longrightarrow> sw t d m = Some m'"
    and "\<not> c \<Longrightarrow> m' = m"
  shows "readExts C sw (e @ R) m = readExts C sw R m'"
  using assms by (cases c) (auto simp: wext_Some readExts_ext)

end

text \<open>
  A whole block of optional extensions: each entry has its condition, number, contents and
  effect on the message. \<open>reads_back sw L m mF\<close> says that \<open>sw\<close> undoes every entry that
  is present, whatever follows it (nothing follows the last), turning \<open>m\<close> into \<open>mF\<close>, and that no two entries that
  are present have the same number.
\<close>

type_synonym 'm optext = "bool \<times> u16 \<times> bytes option \<times> ('m \<Rightarrow> 'm)"

definition wexts :: "'m optext list \<Rightarrow> bytes option" where
  "wexts L = wcat (map (\<lambda>(c, t, r, f). wopt c (wext t r)) L)"

fun reads_back :: "(u16 \<Rightarrow> bytes \<Rightarrow> bytes \<Rightarrow> 'm \<Rightarrow> 'm option) \<Rightarrow> 'm optext list \<Rightarrow> 'm \<Rightarrow> 'm \<Rightarrow> bool" where
  "reads_back sw [] m mF \<longleftrightarrow> mF = m"
| "reads_back sw ((c, t, r, f) # L) m mF \<longleftrightarrow>
     list_all (\<lambda>(c', t', _, _). c \<and> c' \<longrightarrow> t' \<noteq> t) L \<and>
     (c \<longrightarrow> (\<forall>d R. r = Some d \<longrightarrow> length d < 65536 \<longrightarrow> (L = [] \<longrightarrow> R = []) \<longrightarrow> sw t d R m = Some (f m))) \<and>
     (\<not> c \<longrightarrow> f m = m) \<and> reads_back sw L (f m) mF"

lemma wexts_Nil [simp]: "wexts [] = Some []"
  by (simp add: wexts_def)

lemma wexts_Cons_Some:
  "wexts ((c, t, r, f) # L) = Some X \<longleftrightarrow>
     (\<exists>e R. wopt c (wext t r) = Some e \<and> wexts L = Some R \<and> X = e @ R)"
  by (simp add: wexts_def wcat_Cons_Some)

lemma wexts_snoc_Some:
  "wexts (L @ [(c, t, r, f)]) = Some X \<longleftrightarrow>
     (\<exists>Y e. wexts L = Some Y \<and> wopt c (wext t r) = Some e \<and> X = Y @ e)"
proof (induction L arbitrary: X)
  case (Cons x L)
  obtain c' t' r' f' where x: "x = (c', t', r', f')" by (cases x)
  show ?case unfolding x append_Cons wexts_Cons_Some Cons.IH by (metis append_assoc)
qed (simp add: wexts_def)

context cryptobyte_pkg
begin

lemma readUniqueExts_reads_back:
  assumes "wexts L = Some X" and "reads_back sw L m mF"
    and "list_all (\<lambda>(c, t, _, _). c \<longrightarrow> t \<notin> seen) L"
  shows "\<exists>S. readUniqueExts C sw X (m, seen) = Some (mF, S)"
  using assms
proof (induction L arbitrary: X m seen)
  case Nil
  then show ?case by simp
next
  case (Cons x L)
  obtain c t r f where x: "x = (c, t, r, f)" by (cases x)
  from Cons.prems(1) obtain e R where e: "wopt c (wext t r) = Some e" and R: "wexts L = Some R"
    and X: "X = e @ R" unfolding x wexts_Cons_Some by blast
  show ?case
  proof (cases c)
    case True
    with e obtain d where d: "r = Some d" "length d < 65536" "e = extb t d" by (auto simp: wext_Some)
    moreover have "L = [] \<longrightarrow> R = []" using R by auto
    ultimately have "sw t d R m = Some (f m)" "t \<notin> seen" using Cons.prems True by (simp_all add: x)
    moreover have "list_all (\<lambda>(c, t', _, _). c \<longrightarrow> t' \<notin> insert t seen) L" "reads_back sw L (f m) mF"
      using Cons.prems(2,3) True by (auto simp: x list_all_iff)
    then have "\<exists>S. readUniqueExts C sw R (f m, insert t seen) = Some (mF, S)"
      by (intro Cons.IH [OF R])
    ultimately show ?thesis by (simp add: X d readUniqueExts_ext)
  next
    case False
    with Cons.prems(2,3) have "reads_back sw L m mF" "list_all (\<lambda>(c, t, _, _). c \<longrightarrow> t \<notin> seen) L"
      by (auto simp: x list_all_iff)
    then have "\<exists>S. readUniqueExts C sw R (m, seen) = Some (mF, S)" by (intro Cons.IH [OF R])
    with e False show ?thesis by (simp add: X)
  qed
qed

end

end
