(* ===== verification/Crypto.thy ===== *)
theory Crypto
  imports Prelude
begin

text \<open>
  The cryptographic values that the record layer holds. Interface values of Go's standard
  library (\<open>cipher.AEAD\<close>, \<open>cipher.Stream\<close>, \<open>cipher.BlockMode\<close> with \<open>SetIV\<close>,
  \<open>hash.Hash\<close>) are records of their methods with the state the methods advance; the
  algorithms behind them are values of those records, never fixed here. The two nonce wrappers
  of cipher\_suites.go, \<open>prefixNonceAEAD\<close> and \<open>xorNonceAEAD\<close>, and the MAC function
  \<open>tls10MAC\<close> are the repository's own code. The lemmas show that the XOR wrapper restores
  its mask and that both wrappers keep the round trip of the AEAD they wrap.
\<close>

section \<open>Interface values of the standard library\<close>

record cipherAEAD =
  ca_Overhead :: nat
  ca_Seal :: "bytes \<Rightarrow> bytes \<Rightarrow> bytes \<Rightarrow> bytes"
  ca_Open :: "bytes \<Rightarrow> bytes \<Rightarrow> bytes \<Rightarrow> bytes option"

text \<open>The documented contract of \<open>cipher.AEAD\<close>: \<open>Open\<close> undoes \<open>Seal\<close>, which adds \<open>Overhead\<close> bytes.\<close>

definition cipherAEAD_ok :: "cipherAEAD \<Rightarrow> bool" where
  "cipherAEAD_ok A \<longleftrightarrow>
     (\<forall>nonce p ad. ca_Open A nonce (ca_Seal A nonce p ad) ad = Some p) \<and>
     (\<forall>nonce p ad. length (ca_Seal A nonce p ad) = length p + ca_Overhead A)"

text \<open>\<open>cipher.Stream\<close>: a key stream and the position in it.\<close>

record cipherStream =
  st_keystream :: "nat \<Rightarrow> u8"
  st_pos :: nat

definition XORKeyStream :: "cipherStream \<Rightarrow> bytes \<Rightarrow> bytes \<times> cipherStream" where
  "XORKeyStream s src =
     (map (\<lambda>(i, b). xor b (st_keystream s i)) (enumerate (st_pos s) src), s\<lparr>st_pos := st_pos s + length src\<rparr>)"

text \<open>
  \<open>cbcMode\<close>: the block size, the chaining value, what \<open>CryptBlocks\<close> computes from the
  chaining value and the data, and the chaining value it leaves.
\<close>

record cbcMode =
  cbc_blockSize :: nat
  cbc_iv :: bytes
  cbc_crypt :: "bytes \<Rightarrow> bytes \<Rightarrow> bytes"
  cbc_next :: "bytes \<Rightarrow> bytes \<Rightarrow> bytes"

definition CryptBlocks :: "cbcMode \<Rightarrow> bytes \<Rightarrow> (bytes \<times> cbcMode) option" where
  "CryptBlocks c src =
     (if length src mod cbc_blockSize c \<noteq> 0 then None
      else Some (cbc_crypt c (cbc_iv c) src, c\<lparr>cbc_iv := cbc_next c (cbc_iv c) src\<rparr>))"

definition SetIV :: "cbcMode \<Rightarrow> bytes \<Rightarrow> cbcMode option" where
  "SetIV c iv = (if length iv \<noteq> cbc_blockSize c then None else Some (c\<lparr>cbc_iv := iv\<rparr>))"

text \<open>A keyed \<open>hash.Hash\<close> (HMAC): its output size and the digest of what was written since \<open>Reset\<close>.\<close>

record macHash =
  mac_Size :: nat
  mac_Sum :: "bytes \<Rightarrow> bytes"

definition macHash_ok :: "macHash \<Rightarrow> bool" where
  "macHash_ok h \<longleftrightarrow> (\<forall>w. length (mac_Sum h w) = mac_Size h)"

text \<open>\<open>extra\<close> is written after the digest was taken, so the result does not depend on it.\<close>

definition tls10MAC :: "macHash \<Rightarrow> bytes \<Rightarrow> bytes \<Rightarrow> bytes \<Rightarrow> bytes \<Rightarrow> bytes" where
  "tls10MAC h sq header data extra =
     (let h0 = []; h1 = h0 @ sq; h2 = h1 @ header; h3 = h2 @ data; res = mac_Sum h h3 in res)"

text \<open>
  A hash function: its output size, its digest, and the \<open>hmac.New\<close> built on it. A
  \<open>hash.Hash\<close> in use is the function with what was written to it.
\<close>

record hashFn =
  h_Size :: nat
  h_Sum :: "bytes \<Rightarrow> bytes"
  h_hmac :: "bytes \<Rightarrow> bytes \<Rightarrow> bytes"

definition hashFn_ok :: "hashFn \<Rightarrow> bool" where
  "hashFn_ok h \<longleftrightarrow> 0 < h_Size h \<and> (\<forall>w. length (h_Sum h w) = h_Size h) \<and>
     (\<forall>k w. length (h_hmac h k w) = h_Size h)"

record hashState =
  hs_fn :: hashFn
  hs_written :: bytes

definition hs_new :: "hashFn \<Rightarrow> hashState" where
  "hs_new h = \<lparr>hs_fn = h, hs_written = []\<rparr>"

definition hs_Write :: "hashState \<Rightarrow> bytes \<Rightarrow> hashState" where
  "hs_Write t w = t\<lparr>hs_written := hs_written t @ w\<rparr>"

definition hs_Sum :: "hashState \<Rightarrow> bytes" where
  "hs_Sum t = h_Sum (hs_fn t) (hs_written t)"

lemma hashFn_ok_simps [simp]:
  "hashFn_ok h \<Longrightarrow> length (h_Sum h w) = h_Size h" "hashFn_ok h \<Longrightarrow> length (h_hmac h k w) = h_Size h"
  "hashFn_ok h \<Longrightarrow> 0 < h_Size h"
  by (simp_all add: hashFn_ok_def)

text \<open>\<open>crypto/hkdf\<close> (RFC 5869): \<open>Extract\<close> never fails, \<open>Expand\<close> fails beyond 255 blocks.\<close>

definition hkdf_Extract :: "hashFn \<Rightarrow> bytes \<Rightarrow> bytes \<Rightarrow> bytes" where
  "hkdf_Extract h secret salt = h_hmac h salt secret"

fun hkdf_T :: "hashFn \<Rightarrow> bytes \<Rightarrow> bytes \<Rightarrow> nat \<Rightarrow> bytes" where
  "hkdf_T h prk info 0 = []"
| "hkdf_T h prk info (Suc n) = h_hmac h prk (hkdf_T h prk info n @ info @ [word_of_nat (Suc n)])"

definition hkdf_Expand :: "hashFn \<Rightarrow> bytes \<Rightarrow> bytes \<Rightarrow> nat \<Rightarrow> bytes option" where
  "hkdf_Expand h prk info keyLength =
     (if keyLength > 255 * h_Size h then None
      else Some (take keyLength
        (concat (map (hkdf_T h prk info) [1..<Suc ((keyLength + h_Size h - 1) div h_Size h)]))))"

lemma hkdf_T_length: "hashFn_ok h \<Longrightarrow> 0 < n \<Longrightarrow> length (hkdf_T h prk info n) = h_Size h"
  by (cases n) auto

lemma hkdf_Expand_length:
  assumes "hashFn_ok h" and "hkdf_Expand h prk info n = Some out"
  shows "length out = n"
proof -
  let ?k = "(n + h_Size h - 1) div h_Size h"
  have len: "length (concat (map (hkdf_T h prk info) [1..<Suc k])) = k * h_Size h" for k
    using assms(1) by (induction k) auto
  have "n \<le> ?k * h_Size h"
  proof -
    have "n + h_Size h - 1 < h_Size h * ?k + h_Size h"
      using assms(1) dividend_less_times_div [of "h_Size h" "n + h_Size h - 1"] by simp
    then show ?thesis using assms(1) by (simp add: mult.commute)
  qed
  moreover have "out = take n (concat (map (hkdf_T h prk info) [1..<Suc ?k]))"
    using assms(2) by (simp add: hkdf_Expand_def split: if_splits del: upt_Suc)
  ultimately show ?thesis by (simp only: length_take len min_absorb2)
qed

lemma hkdf_Expand_Some: "n \<le> 255 * h_Size h \<Longrightarrow> \<exists>out. hkdf_Expand h prk info n = Some out"
  by (simp add: hkdf_Expand_def)

section \<open>Nonce wrappers\<close>

abbreviation aeadNonceLength :: nat where "aeadNonceLength \<equiv> 12"
abbreviation noncePrefixLength :: nat where "noncePrefixLength \<equiv> 4"

text \<open>The \<open>aead\<close> values of cipher\_suites.go, with their mutable 12-byte nonce.\<close>

datatype aead =
    prefixNonceAEAD bytes cipherAEAD
  | xorNonceAEAD bytes cipherAEAD

fun aead_Overhead :: "aead \<Rightarrow> nat" where
  "aead_Overhead (prefixNonceAEAD nonce a) = ca_Overhead a"
| "aead_Overhead (xorNonceAEAD nonceMask a) = ca_Overhead a"

fun aead_NonceSize :: "aead \<Rightarrow> nat" where
  "aead_NonceSize (prefixNonceAEAD nonce a) = aeadNonceLength - noncePrefixLength"
| "aead_NonceSize (xorNonceAEAD nonceMask a) = 8"

fun aead_explicitNonceLen :: "aead \<Rightarrow> nat" where
  "aead_explicitNonceLen (prefixNonceAEAD nonce a) = aead_NonceSize (prefixNonceAEAD nonce a)"
| "aead_explicitNonceLen (xorNonceAEAD nonceMask a) = 0"

text \<open>\<open>copy(dst[off:], src)\<close>\<close>

definition copy_at :: "nat \<Rightarrow> bytes \<Rightarrow> bytes \<Rightarrow> bytes" where
  "copy_at off dst src =
     take off dst @ take (length dst - off) src @ drop (off + min (length dst - off) (length src)) dst"

lemma length_copy_at [simp]: "length (copy_at off dst src) = length dst"
  by (simp add: copy_at_def)

text \<open>\<open>for i, b := range nonce { f.nonceMask[4+i] ^= b }\<close>, \<open>None\<close> when an index is out of range.\<close>

fun xorNonce :: "nat \<Rightarrow> bytes \<Rightarrow> bytes \<Rightarrow> bytes option" where
  "xorNonce i [] msk = Some msk"
| "xorNonce i (b # bs) msk =
     (if 4 + i < length msk then xorNonce (Suc i) bs (msk[4 + i := xor (msk ! (4 + i)) b]) else None)"

fun aead_Seal :: "aead \<Rightarrow> bytes \<Rightarrow> bytes \<Rightarrow> bytes \<Rightarrow> (bytes \<times> aead) option" where
  "aead_Seal (prefixNonceAEAD nonce0 a) nonce plaintext additionalData =
     (let nonce1 = copy_at 4 nonce0 nonce
      in Some (ca_Seal a nonce1 plaintext additionalData, prefixNonceAEAD nonce1 a))"
| "aead_Seal (xorNonceAEAD nonceMask a) nonce plaintext additionalData = do {
     nonceMask \<leftarrow> xorNonce 0 nonce nonceMask;
     let result = ca_Seal a nonceMask plaintext additionalData;
     nonceMask \<leftarrow> xorNonce 0 nonce nonceMask;
     Some (result, xorNonceAEAD nonceMask a)
   }"

fun aead_Open :: "aead \<Rightarrow> bytes \<Rightarrow> bytes \<Rightarrow> bytes \<Rightarrow> (bytes option \<times> aead) option" where
  "aead_Open (prefixNonceAEAD nonce0 a) nonce ciphertext additionalData =
     (let nonce1 = copy_at 4 nonce0 nonce
      in Some (ca_Open a nonce1 ciphertext additionalData, prefixNonceAEAD nonce1 a))"
| "aead_Open (xorNonceAEAD nonceMask a) nonce ciphertext additionalData = do {
     nonceMask \<leftarrow> xorNonce 0 nonce nonceMask;
     let result = ca_Open a nonceMask ciphertext additionalData;
     nonceMask \<leftarrow> xorNonce 0 nonce nonceMask;
     Some (result, xorNonceAEAD nonceMask a)
   }"

text \<open>
  The constructors \<open>aeadAESGCM\<close>, \<open>aeadAESGCMTLS13\<close> and \<open>aeadChaCha20Poly1305\<close>, given the
  AEAD that the standard library makes of the key (\<open>None\<close> for its error); they panic on a
  nonce of the wrong length.
\<close>

definition aeadAESGCM :: "(bytes \<Rightarrow> cipherAEAD option) \<Rightarrow> bytes \<Rightarrow> bytes \<Rightarrow> aead option" where
  "aeadAESGCM newGCM key noncePrefix =
     (if length noncePrefix \<noteq> noncePrefixLength then None
      else case newGCM key of None \<Rightarrow> None
        | Some a \<Rightarrow> Some (prefixNonceAEAD (copy_at 0 (replicate aeadNonceLength 0) noncePrefix) a))"

definition aeadAESGCMTLS13 :: "(bytes \<Rightarrow> cipherAEAD option) \<Rightarrow> bytes \<Rightarrow> bytes \<Rightarrow> aead option" where
  "aeadAESGCMTLS13 newGCM key nonceMask =
     (if length nonceMask \<noteq> aeadNonceLength then None
      else case newGCM key of None \<Rightarrow> None
        | Some a \<Rightarrow> Some (xorNonceAEAD (copy_at 0 (replicate aeadNonceLength 0) nonceMask) a))"

definition aeadChaCha20Poly1305 :: "(bytes \<Rightarrow> cipherAEAD option) \<Rightarrow> bytes \<Rightarrow> bytes \<Rightarrow> aead option" where
  "aeadChaCha20Poly1305 newPoly key nonceMask =
     (if length nonceMask \<noteq> aeadNonceLength then None
      else case newPoly key of None \<Rightarrow> None
        | Some a \<Rightarrow> Some (xorNonceAEAD (copy_at 0 (replicate aeadNonceLength 0) nonceMask) a))"

section \<open>Lemmas\<close>

lemma length_XORKeyStream [simp]: "length (fst (XORKeyStream s src)) = length src"
  by (simp add: XORKeyStream_def)

lemma enumerate_map_enumerate:
  "enumerate n (map f (enumerate n xs)) = map (\<lambda>(i, b). (i, f (i, b))) (enumerate n xs)"
  by (induction xs arbitrary: n) auto

lemma XORKeyStream_involution:
  "fst (XORKeyStream s (fst (XORKeyStream s src))) = src"
proof -
  have "(\<lambda>(i, b). xor b (st_keystream s i)) \<circ> (\<lambda>(i, b). (i, xor b (st_keystream s i))) = snd"
    by (auto simp: fun_eq_iff xor.assoc)
  then show ?thesis by (simp add: XORKeyStream_def enumerate_map_enumerate)
qed

lemma XORKeyStream_append:
  "fst (XORKeyStream s (a @ b)) = fst (XORKeyStream s a) @ fst (XORKeyStream (snd (XORKeyStream s a)) b)"
  "snd (XORKeyStream s (a @ b)) = snd (XORKeyStream (snd (XORKeyStream s a)) b)"
  by (simp_all add: XORKeyStream_def enumerate_append_eq)

lemma xorNonce_Some_iff: "4 + i + length nonce \<le> length msk \<Longrightarrow> \<exists>m. xorNonce i nonce msk = Some m"
  by (induction i nonce msk rule: xorNonce.induct) auto

lemma xorNonce_update:
  assumes "xorNonce i nonce msk = Some m"
  shows "length m = length msk \<and>
    (\<forall>k<length msk. m ! k = (if 4 + i \<le> k \<and> k < 4 + i + length nonce then xor (msk ! k) (nonce ! (k - 4 - i)) else msk ! k))"
  using assms
proof (induction i nonce msk arbitrary: m rule: xorNonce.induct)
  case (2 i b bs msk)
  then have len: "4 + i < length msk" by (simp split: if_splits)
  let ?msk = "msk[4 + i := xor (msk ! (4 + i)) b]"
  from 2 len have IH: "length m = length ?msk \<and> (\<forall>k<length ?msk. m ! k =
      (if 4 + Suc i \<le> k \<and> k < 4 + Suc i + length bs then xor (?msk ! k) (bs ! (k - 4 - Suc i)) else ?msk ! k))"
    by simp
  have "m ! k = (if 4 + i \<le> k \<and> k < 4 + i + length (b # bs) then xor (msk ! k) ((b # bs) ! (k - 4 - i)) else msk ! k)"
    if "k < length msk" for k
    using IH that len by (cases "k = 4 + i") (auto simp: nth_Cons' nth_list_update)
  with IH show ?case by simp
qed auto

text \<open>The second XOR of the wrapper takes the first one back.\<close>

lemma xorNonce_restores:
  assumes "xorNonce 0 nonce msk = Some m"
  shows "xorNonce 0 nonce m = Some msk"
proof -
  have bound: "4 + i + length bs \<le> length msk \<or> bs = []" if "xorNonce i bs msk = Some r" for i bs msk r
    using that by (induction i bs msk rule: xorNonce.induct) (auto split: if_splits)
  from xorNonce_update [OF assms] bound [OF assms] obtain m2 where m2: "xorNonce 0 nonce m = Some m2"
    using xorNonce_Some_iff [of 0 nonce m] by auto
  have "m2 = msk"
    using xorNonce_update [OF assms] xorNonce_update [OF m2]
    by (auto intro!: nth_equalityI simp: xor.assoc)
  with m2 show ?thesis by simp
qed

lemma xorNonceAEAD_Seal:
  "aead_Seal (xorNonceAEAD msk a) nonce p ad = Some (c, a') \<Longrightarrow>
     a' = xorNonceAEAD msk a \<and> (\<exists>n. xorNonce 0 nonce msk = Some n \<and> c = ca_Seal a n p ad)"
  by (auto simp: bind_eq_Some_conv dest: xorNonce_restores)

text \<open>
  Two ends of one direction: the same wrapper around the same AEAD. For the prefix wrapper the
  last explicit nonce differs between the ends, only the fixed part has to agree.
\<close>

fun aead_pair :: "aead \<Rightarrow> aead \<Rightarrow> bool" where
  "aead_pair (prefixNonceAEAD n a) (prefixNonceAEAD n' a') \<longleftrightarrow>
     a' = a \<and> cipherAEAD_ok a \<and> length n = aeadNonceLength \<and> length n' = aeadNonceLength \<and>
     take noncePrefixLength n = take noncePrefixLength n'"
| "aead_pair (xorNonceAEAD m a) (xorNonceAEAD m' a') \<longleftrightarrow>
     a' = a \<and> cipherAEAD_ok a \<and> m' = m \<and> length m = aeadNonceLength"
| "aead_pair _ _ \<longleftrightarrow> False"

lemma aead_pair_lens:
  "aead_pair a a' \<Longrightarrow> aead_Overhead a' = aead_Overhead a \<and> aead_explicitNonceLen a' = aead_explicitNonceLen a"
  by (cases a; cases a') auto

lemma copy_at_full:
  "length dst = 12 \<Longrightarrow> length src = 8 \<Longrightarrow> copy_at 4 dst src = take 4 dst @ src"
  by (simp add: copy_at_def)

lemma aead_pair_Open_Seal:
  assumes "aead_pair a a'" and "length nonce = 8"
  obtains c a1 a1' where "aead_Seal a nonce p ad = Some (c, a1)" and "length c = length p + aead_Overhead a"
    and "aead_Open a' nonce c ad = Some (Some p, a1')" and "aead_pair a1 a1'"
proof (cases a)
  case (prefixNonceAEAD n A)
  with assms(1) obtain n' where n': "a' = prefixNonceAEAD n' A" "cipherAEAD_ok A" "length n = 12"
      "length n' = 12" "take 4 n' = take 4 n" by (cases a') auto
  with assms(2) have "copy_at 4 n nonce = take 4 n @ nonce" "copy_at 4 n' nonce = take 4 n @ nonce"
    by (simp_all add: copy_at_full)
  with prefixNonceAEAD n' assms(2) show ?thesis
    by (intro that [of "ca_Seal A (take 4 n @ nonce) p ad" "prefixNonceAEAD (take 4 n @ nonce) A"
          "prefixNonceAEAD (take 4 n @ nonce) A"]) (simp_all add: cipherAEAD_ok_def Let_def)
next
  case (xorNonceAEAD m A)
  with assms(1) have a': "a' = xorNonceAEAD m A" "cipherAEAD_ok A" "length m = 12" by (cases a'; simp)+
  with assms(2) obtain n where n: "xorNonce 0 nonce m = Some n" using xorNonce_Some_iff [of 0 nonce m] by auto
  with xorNonceAEAD a' show ?thesis
    by (intro that [of "ca_Seal A n p ad" a a]) (simp_all add: xorNonce_restores [OF n] cipherAEAD_ok_def)
qed

end
