(* ===== verification/KeySchedule.thy ===== *)
theory KeySchedule
  imports Wire Crypto
begin

text \<open>
  The TLS 1.3 key schedule and key exchanges of key\_schedule.go. Every function that the
  code lets panic (\<open>BytesOrPanic\<close>, a failing \<open>hkdf.Expand\<close>) returns an option. The lemmas
  show that none of the schedule's own calls panics, that every secret has the length of the
  hash, that the label encoding is the HkdfLabel structure of RFC 8446 and separates its
  inputs, and that both ends of a key exchange compute the same secret.
\<close>

section \<open>Labels and secrets\<close>

definition hkdfLabel :: "('b, 'x) cryptobyte_scheme \<Rightarrow> string \<Rightarrow> bytes \<Rightarrow> nat \<Rightarrow> bytes res" where
  "hkdfLabel C label ctx len = Bytes C (block [
     AddUint16 C (word_of_nat len),
     AddUint8LengthPrefixed C (block [AddBytes C (ascii ''tls13 ''), AddBytes C (ascii label)]),
     AddUint8LengthPrefixed C (AddBytes C ctx)] (NewBuilder C))"

definition expandLabel ::
    "('b, 'x) cryptobyte_scheme \<Rightarrow> hashFn \<Rightarrow> bytes \<Rightarrow> string \<Rightarrow> bytes \<Rightarrow> nat \<Rightarrow> bytes option" where
  "expandLabel C h secret label ctx len =
     (case hkdfLabel C label ctx len of
        Inl e \<Rightarrow> None
      | Inr info \<Rightarrow> hkdf_Expand h secret info len)"

definition deriveSecret ::
    "('b, 'x) cryptobyte_scheme \<Rightarrow> hashFn \<Rightarrow> bytes \<Rightarrow> string \<Rightarrow> hashState option \<Rightarrow> bytes option" where
  "deriveSecret C h secret label transcript =
     (let transcriptBytes = (case transcript of Some t \<Rightarrow> hs_Sum t | None \<Rightarrow> hs_Sum (hs_new h))
      in expandLabel C h secret label transcriptBytes (h_Size h))"

definition hkdfExtract :: "hashFn \<Rightarrow> bytes \<Rightarrow> bytes \<Rightarrow> bytes" where
  "hkdfExtract h secret salt = hkdf_Extract h secret salt"

text \<open>
  \<open>EarlySecret\<close>, \<open>HandshakeSecret\<close>, \<open>MasterSecret\<close> and \<open>ExporterMasterSecret\<close> all hold a
  secret and its hash function.
\<close>

record scheduleSecret =
  ss_secret :: bytes
  ss_hash :: hashFn

type_synonym EarlySecret = scheduleSecret
type_synonym HandshakeSecret = scheduleSecret
type_synonym MasterSecret = scheduleSecret
type_synonym ExporterMasterSecret = scheduleSecret

definition NewEarlySecret :: "hashFn \<Rightarrow> bytes option \<Rightarrow> EarlySecret" where
  "NewEarlySecret h psk =
     (let psk = (case psk of None \<Rightarrow> replicate (h_Size h) 0 | Some p \<Rightarrow> p);
          salt = replicate (h_Size h) 0
      in \<lparr>ss_secret = hkdfExtract h psk salt, ss_hash = h\<rparr>)"

definition EarlySecret_ResumptionBinderKey :: "('b, 'x) cryptobyte_scheme \<Rightarrow> EarlySecret \<Rightarrow> bytes option" where
  "EarlySecret_ResumptionBinderKey C s = deriveSecret C (ss_hash s) (ss_secret s) ''res binder'' None"

definition EarlySecret_ClientEarlyTrafficSecret ::
    "('b, 'x) cryptobyte_scheme \<Rightarrow> EarlySecret \<Rightarrow> hashState \<Rightarrow> bytes option" where
  "EarlySecret_ClientEarlyTrafficSecret C s transcript =
     deriveSecret C (ss_hash s) (ss_secret s) ''c e traffic'' (Some transcript)"

definition EarlySecret_EarlyExporterMasterSecret ::
    "('b, 'x) cryptobyte_scheme \<Rightarrow> EarlySecret \<Rightarrow> hashState \<Rightarrow> ExporterMasterSecret option" where
  "EarlySecret_EarlyExporterMasterSecret C s transcript =
     map_option (\<lambda>sec. \<lparr>ss_secret = sec, ss_hash = ss_hash s\<rparr>)
       (deriveSecret C (ss_hash s) (ss_secret s) ''e exp master'' (Some transcript))"

definition EarlySecret_HandshakeSecret ::
    "('b, 'x) cryptobyte_scheme \<Rightarrow> EarlySecret \<Rightarrow> bytes \<Rightarrow> HandshakeSecret option" where
  "EarlySecret_HandshakeSecret C s sharedSecret = do {
     preSecret \<leftarrow> deriveSecret C (ss_hash s) (ss_secret s) ''derived'' None;
     let salt = copy_at 0 (replicate (h_Size (ss_hash s)) 0) preSecret;
     Some \<lparr>ss_secret = hkdfExtract (ss_hash s) sharedSecret salt, ss_hash = ss_hash s\<rparr>
   }"

definition HandshakeSecret_ClientHandshakeTrafficSecret ::
    "('b, 'x) cryptobyte_scheme \<Rightarrow> HandshakeSecret \<Rightarrow> hashState \<Rightarrow> bytes option" where
  "HandshakeSecret_ClientHandshakeTrafficSecret C s transcript =
     deriveSecret C (ss_hash s) (ss_secret s) ''c hs traffic'' (Some transcript)"

definition HandshakeSecret_ServerHandshakeTrafficSecret ::
    "('b, 'x) cryptobyte_scheme \<Rightarrow> HandshakeSecret \<Rightarrow> hashState \<Rightarrow> bytes option" where
  "HandshakeSecret_ServerHandshakeTrafficSecret C s transcript =
     deriveSecret C (ss_hash s) (ss_secret s) ''s hs traffic'' (Some transcript)"

definition HandshakeSecret_MasterSecret ::
    "('b, 'x) cryptobyte_scheme \<Rightarrow> HandshakeSecret \<Rightarrow> MasterSecret option" where
  "HandshakeSecret_MasterSecret C s = do {
     preSecret \<leftarrow> deriveSecret C (ss_hash s) (ss_secret s) ''derived'' None;
     let ikm = replicate (h_Size (ss_hash s)) 0;
     Some \<lparr>ss_secret = hkdfExtract (ss_hash s) ikm preSecret, ss_hash = ss_hash s\<rparr>
   }"

definition MasterSecret_ClientApplicationTrafficSecret ::
    "('b, 'x) cryptobyte_scheme \<Rightarrow> MasterSecret \<Rightarrow> hashState \<Rightarrow> bytes option" where
  "MasterSecret_ClientApplicationTrafficSecret C s transcript =
     deriveSecret C (ss_hash s) (ss_secret s) ''c ap traffic'' (Some transcript)"

definition MasterSecret_ServerApplicationTrafficSecret ::
    "('b, 'x) cryptobyte_scheme \<Rightarrow> MasterSecret \<Rightarrow> hashState \<Rightarrow> bytes option" where
  "MasterSecret_ServerApplicationTrafficSecret C s transcript =
     deriveSecret C (ss_hash s) (ss_secret s) ''s ap traffic'' (Some transcript)"

definition MasterSecret_ResumptionMasterSecret ::
    "('b, 'x) cryptobyte_scheme \<Rightarrow> MasterSecret \<Rightarrow> hashState \<Rightarrow> bytes option" where
  "MasterSecret_ResumptionMasterSecret C s transcript =
     deriveSecret C (ss_hash s) (ss_secret s) ''res master'' (Some transcript)"

definition MasterSecret_ExporterMasterSecret ::
    "('b, 'x) cryptobyte_scheme \<Rightarrow> MasterSecret \<Rightarrow> hashState \<Rightarrow> ExporterMasterSecret option" where
  "MasterSecret_ExporterMasterSecret C s transcript =
     map_option (\<lambda>sec. \<lparr>ss_secret = sec, ss_hash = ss_hash s\<rparr>)
       (deriveSecret C (ss_hash s) (ss_secret s) ''exp master'' (Some transcript))"

definition ExporterMasterSecret_Exporter ::
    "('b, 'x) cryptobyte_scheme \<Rightarrow> ExporterMasterSecret \<Rightarrow> string \<Rightarrow> bytes \<Rightarrow> nat \<Rightarrow> bytes option" where
  "ExporterMasterSecret_Exporter C s label ctx len = do {
     derivedSecret \<leftarrow> deriveSecret C (ss_hash s) (ss_secret s) label None;
     let h = hs_Write (hs_new (ss_hash s)) ctx;
     let contextHash = hs_Sum h;
     expandLabel C (ss_hash s) derivedSecret ''exporter'' contextHash len
   }"

section \<open>Traffic keys and the Finished MAC\<close>

text \<open>\<open>cipherSuiteTLS13\<close> of cipher\_suites.go; \<open>aead\<close> may panic, hence the option.\<close>

record cipherSuiteTLS13 =
  cs13_id :: u16
  cs13_keyLen :: nat
  cs13_aead :: "bytes \<Rightarrow> bytes \<Rightarrow> aead option"
  cs13_hash :: hashFn

definition nextTrafficSecret :: "('b, 'x) cryptobyte_scheme \<Rightarrow> cipherSuiteTLS13 \<Rightarrow> bytes \<Rightarrow> bytes option" where
  "nextTrafficSecret C c trafficSecret =
     expandLabel C (cs13_hash c) trafficSecret ''traffic upd'' [] (h_Size (cs13_hash c))"

definition trafficKey :: "('b, 'x) cryptobyte_scheme \<Rightarrow> cipherSuiteTLS13 \<Rightarrow> bytes \<Rightarrow> (bytes \<times> bytes) option" where
  "trafficKey C c trafficSecret = do {
     key \<leftarrow> expandLabel C (cs13_hash c) trafficSecret ''key'' [] (cs13_keyLen c);
     iv \<leftarrow> expandLabel C (cs13_hash c) trafficSecret ''iv'' [] aeadNonceLength;
     Some (key, iv)
   }"

definition finishedHash13 ::
    "('b, 'x) cryptobyte_scheme \<Rightarrow> cipherSuiteTLS13 \<Rightarrow> bytes \<Rightarrow> hashState \<Rightarrow> bytes option" where
  "finishedHash13 C c baseKey transcript = do {
     finishedKey \<leftarrow> expandLabel C (cs13_hash c) baseKey ''finished'' [] (h_Size (cs13_hash c));
     Some (h_hmac (cs13_hash c) finishedKey (hs_Sum transcript))
   }"

definition exportKeyingMaterial ::
    "('b, 'x) cryptobyte_scheme \<Rightarrow> MasterSecret \<Rightarrow> hashState \<Rightarrow> (string \<Rightarrow> bytes \<Rightarrow> nat \<Rightarrow> bytes option) option" where
  "exportKeyingMaterial C s transcript =
     map_option (\<lambda>expMasterSecret label ctx len. ExporterMasterSecret_Exporter C expMasterSecret label ctx len)
       (MasterSecret_ExporterMasterSecret C s transcript)"

section \<open>Key exchanges\<close>

abbreviation CurveP256 :: u16 where "CurveP256 \<equiv> 23"
abbreviation CurveP384 :: u16 where "CurveP384 \<equiv> 24"
abbreviation CurveP521 :: u16 where "CurveP521 \<equiv> 25"
abbreviation X25519 :: u16 where "X25519 \<equiv> 29"
abbreviation SecP256r1MLKEM768 :: u16 where "SecP256r1MLKEM768 \<equiv> 4587"
abbreviation X25519MLKEM768 :: u16 where "X25519MLKEM768 \<equiv> 4588"
abbreviation SecP384r1MLKEM1024 :: u16 where "SecP384r1MLKEM1024 \<equiv> 4589"

text \<open>
  What the code calls of \<open>crypto/ecdh\<close> and \<open>crypto/mlkem\<close>. A random source is the string
  it will deliver; \<open>GenerateKey\<close> returns the private key and the unread rest.
  \<open>Encapsulate\<close> draws from the system's randomness, which is its last argument.
\<close>

record ecdhCurve =
  ec_GenerateKey :: "bytes \<Rightarrow> (bytes \<times> bytes) res"
  ec_PublicKey :: "bytes \<Rightarrow> bytes"
  ec_NewPublicKey :: "bytes \<Rightarrow> bytes res"
  ec_ECDH :: "bytes \<Rightarrow> bytes \<Rightarrow> bytes res"

record mlkemScheme =
  ml_EncapsulationKeySize :: nat
  ml_CiphertextSize :: nat
  ml_NewDecapsulationKey :: "bytes \<Rightarrow> bytes res"
  ml_EncapsulatorBytes :: "bytes \<Rightarrow> bytes"
  ml_NewEncapsulationKey :: "bytes \<Rightarrow> bytes res"
  ml_Encapsulate :: "bytes \<Rightarrow> bytes \<Rightarrow> bytes \<times> bytes"
  ml_Decapsulate :: "bytes \<Rightarrow> bytes \<Rightarrow> bytes res"

abbreviation mlkem_SeedSize :: nat where "mlkem_SeedSize \<equiv> 64"

record keySharePrivateKeys =
  kp_ecdhe :: bytes
  kp_mlkem :: "bytes option"

record ecdhKeyExchange =
  ke_id :: u16
  ke_curve :: ecdhCurve

record hybridKeyExchange =
  hk_id :: u16
  hk_ecdh :: ecdhKeyExchange
  hk_ecdhElementSize :: nat
  hk_mlkemPublicKeySize :: nat
  hk_mlkemCiphertextSize :: nat
  hk_mlkem :: mlkemScheme

datatype keyExchange = EcdhKE ecdhKeyExchange | HybridKE hybridKeyExchange

definition keyExchangeForCurveID ::
    "(u16 \<Rightarrow> ecdhCurve) \<Rightarrow> mlkemScheme \<Rightarrow> mlkemScheme \<Rightarrow> u16 \<Rightarrow> keyExchange res" where
  "keyExchangeForCurveID curves mlkem768 mlkem1024 i =
     (if i \<in> {X25519, CurveP256, CurveP384, CurveP521} then
        Inr (EcdhKE \<lparr>ke_id = i, ke_curve = curves i\<rparr>)
      else if i = X25519MLKEM768 then
        Inr (HybridKE \<lparr>hk_id = i, hk_ecdh = \<lparr>ke_id = X25519, ke_curve = curves X25519\<rparr>,
          hk_ecdhElementSize = 32, hk_mlkemPublicKeySize = ml_EncapsulationKeySize mlkem768,
          hk_mlkemCiphertextSize = ml_CiphertextSize mlkem768, hk_mlkem = mlkem768\<rparr>)
      else if i = SecP256r1MLKEM768 then
        Inr (HybridKE \<lparr>hk_id = i, hk_ecdh = \<lparr>ke_id = CurveP256, ke_curve = curves CurveP256\<rparr>,
          hk_ecdhElementSize = 65, hk_mlkemPublicKeySize = ml_EncapsulationKeySize mlkem768,
          hk_mlkemCiphertextSize = ml_CiphertextSize mlkem768, hk_mlkem = mlkem768\<rparr>)
      else if i = SecP384r1MLKEM1024 then
        Inr (HybridKE \<lparr>hk_id = i, hk_ecdh = \<lparr>ke_id = CurveP384, ke_curve = curves CurveP384\<rparr>,
          hk_ecdhElementSize = 97, hk_mlkemPublicKeySize = ml_EncapsulationKeySize mlkem1024,
          hk_mlkemCiphertextSize = ml_CiphertextSize mlkem1024, hk_mlkem = mlkem1024\<rparr>)
      else Inl (ErrorsNew ''tls: unsupported key exchange''))"

definition ecdh_keyShares ::
    "ecdhKeyExchange \<Rightarrow> bytes \<Rightarrow> (keySharePrivateKeys \<times> keyShare list \<times> bytes) res" where
  "ecdh_keyShares ke rand =
     (case ec_GenerateKey (ke_curve ke) rand of
        Inl e \<Rightarrow> Inl e
      | Inr (priv, rand) \<Rightarrow> Inr (\<lparr>kp_ecdhe = priv, kp_mlkem = None\<rparr>,
          [\<lparr>ks_group = ke_id ke, ks_data = ec_PublicKey (ke_curve ke) priv\<rparr>], rand))"

definition ecdh_serverSharedSecret ::
    "ecdhKeyExchange \<Rightarrow> bytes \<Rightarrow> bytes \<Rightarrow> (bytes \<times> keyShare \<times> bytes) res" where
  "ecdh_serverSharedSecret ke rand clientKeyShare =
     (case ec_GenerateKey (ke_curve ke) rand of
        Inl e \<Rightarrow> Inl e
      | Inr (key, rand) \<Rightarrow>
     (case ec_NewPublicKey (ke_curve ke) clientKeyShare of
        Inl e \<Rightarrow> Inl e
      | Inr peerKey \<Rightarrow>
     (case ec_ECDH (ke_curve ke) key peerKey of
        Inl e \<Rightarrow> Inl e
      | Inr sharedKey \<Rightarrow>
          Inr (sharedKey, \<lparr>ks_group = ke_id ke, ks_data = ec_PublicKey (ke_curve ke) key\<rparr>, rand))))"

definition ecdh_clientSharedSecret ::
    "ecdhKeyExchange \<Rightarrow> keySharePrivateKeys \<Rightarrow> bytes \<Rightarrow> bytes res" where
  "ecdh_clientSharedSecret ke priv serverKeyShare =
     (case ec_NewPublicKey (ke_curve ke) serverKeyShare of
        Inl e \<Rightarrow> Inl e
      | Inr peerKey \<Rightarrow> ec_ECDH (ke_curve ke) (kp_ecdhe priv) peerKey)"

text \<open>\<open>io.ReadFull(rand, make([]byte, n))\<close>\<close>

definition readFull :: "nat \<Rightarrow> bytes \<Rightarrow> (bytes \<times> bytes) res" where
  "readFull n rand =
     (if length rand < n then Inl (if rand = [] then IoEOF else IoErrUnexpectedEOF)
      else Inr (take n rand, drop n rand))"

definition hybrid_keyShares ::
    "hybridKeyExchange \<Rightarrow> bytes \<Rightarrow> (keySharePrivateKeys \<times> keyShare list \<times> bytes) res" where
  "hybrid_keyShares ke rand =
     (case ecdh_keyShares (hk_ecdh ke) rand of
        Inl e \<Rightarrow> Inl e
      | Inr (priv, ecdhShares, rand) \<Rightarrow>
     (case readFull mlkem_SeedSize rand of
        Inl e \<Rightarrow> Inl e
      | Inr (seed, rand) \<Rightarrow>
     (case ml_NewDecapsulationKey (hk_mlkem ke) seed of
        Inl e \<Rightarrow> Inl e
      | Inr dk \<Rightarrow>
          (let shareData = (if hk_id ke = X25519MLKEM768
                 then ml_EncapsulatorBytes (hk_mlkem ke) dk @ ks_data (ecdhShares ! 0)
                 else ks_data (ecdhShares ! 0) @ ml_EncapsulatorBytes (hk_mlkem ke) dk)
           in Inr (priv\<lparr>kp_mlkem := Some dk\<rparr>,
                [\<lparr>ks_group = hk_id ke, ks_data = shareData\<rparr>, ecdhShares ! 0], rand)))))"

definition hybrid_serverSharedSecret ::
    "hybridKeyExchange \<Rightarrow> bytes \<Rightarrow> bytes \<Rightarrow> bytes \<Rightarrow> (bytes \<times> keyShare \<times> bytes) res" where
  "hybrid_serverSharedSecret ke entropy rand clientKeyShare =
     (if length clientKeyShare \<noteq> hk_ecdhElementSize ke + hk_mlkemPublicKeySize ke
      then Inl (ErrorsNew ''tls: invalid client key share length for hybrid key exchange'')
      else
        let (ecdhShareData, mlkemShareData) =
              (if hk_id ke = X25519MLKEM768
               then (drop (hk_mlkemPublicKeySize ke) clientKeyShare, take (hk_mlkemPublicKeySize ke) clientKeyShare)
               else (take (hk_ecdhElementSize ke) clientKeyShare, drop (hk_ecdhElementSize ke) clientKeyShare))
        in
     (case ecdh_serverSharedSecret (hk_ecdh ke) rand ecdhShareData of
        Inl e \<Rightarrow> Inl e
      | Inr (ecdhSharedSecret, ks, rand) \<Rightarrow>
     (case ml_NewEncapsulationKey (hk_mlkem ke) mlkemShareData of
        Inl e \<Rightarrow> Inl e
      | Inr mlkemPeerKey \<Rightarrow>
          (let (mlkemSharedSecret, mlkemKeyShare) = ml_Encapsulate (hk_mlkem ke) mlkemPeerKey entropy
           in if hk_id ke = X25519MLKEM768
              then Inr (mlkemSharedSecret @ ecdhSharedSecret,
                     \<lparr>ks_group = hk_id ke, ks_data = mlkemKeyShare @ ks_data ks\<rparr>, rand)
              else Inr (ecdhSharedSecret @ mlkemSharedSecret,
                     \<lparr>ks_group = hk_id ke, ks_data = ks_data ks @ mlkemKeyShare\<rparr>, rand)))))"

text \<open>\<open>priv.mlkem\<close> is nil when the keys were made by another exchange: that is \<open>None\<close>, a panic.\<close>

definition hybrid_clientSharedSecret ::
    "hybridKeyExchange \<Rightarrow> keySharePrivateKeys \<Rightarrow> bytes \<Rightarrow> bytes res option" where
  "hybrid_clientSharedSecret ke priv serverKeyShare =
     (if length serverKeyShare \<noteq> hk_ecdhElementSize ke + hk_mlkemCiphertextSize ke
      then Some (Inl (ErrorsNew ''tls: invalid server key share length for hybrid key exchange''))
      else
        let (ecdhShareData, mlkemShareData) =
              (if hk_id ke = X25519MLKEM768
               then (drop (hk_mlkemCiphertextSize ke) serverKeyShare, take (hk_mlkemCiphertextSize ke) serverKeyShare)
               else (take (hk_ecdhElementSize ke) serverKeyShare, drop (hk_ecdhElementSize ke) serverKeyShare))
        in
     (case ecdh_clientSharedSecret (hk_ecdh ke) priv ecdhShareData of
        Inl e \<Rightarrow> Some (Inl e)
      | Inr ecdhSharedSecret \<Rightarrow>
     (case kp_mlkem priv of
        None \<Rightarrow> None
      | Some dk \<Rightarrow>
     (case ml_Decapsulate (hk_mlkem ke) dk mlkemShareData of
        Inl e \<Rightarrow> Some (Inl e)
      | Inr mlkemSharedSecret \<Rightarrow>
          Some (Inr (if hk_id ke = X25519MLKEM768 then mlkemSharedSecret @ ecdhSharedSecret
                     else ecdhSharedSecret @ mlkemSharedSecret))))))"

section \<open>The label encoding\<close>

text \<open>Transcripts of the schedule's own hash, whose output fits in a label context.\<close>

definition schedule_hash :: "hashFn \<Rightarrow> bool" where
  "schedule_hash h \<longleftrightarrow> hashFn_ok h \<and> h_Size h < 256"

lemma ascii_append [simp]: "ascii (a @ b) = ascii a @ ascii b"
  by (simp add: ascii_def)

lemma ascii_inject: "ascii a = ascii b \<longleftrightarrow> a = b"
proof -
  have "inj (\<lambda>c. word_of_nat (of_char c) :: u8)"
  proof (rule injI)
    fix c d assume "(word_of_nat (of_char c) :: u8) = word_of_nat (of_char d)"
    then have "unat (word_of_nat (of_char c) :: u8) = unat (word_of_nat (of_char d) :: u8)" by simp
    then have "(of_char c :: nat) mod 256 = of_char d mod 256" by (simp only: unat_u8_mod)
    then show "c = d" by simp
  qed
  then show ?thesis unfolding ascii_def by (metis inj_map_eq_map)
qed

context cryptobyte_pkg
begin

lemma hkdfLabel_iff:
  "hkdfLabel C label ctx len = Inr info \<longleftrightarrow> length label < 250 \<and> length ctx < 256 \<and>
     info = u16b (word_of_nat len) @ lp8 (ascii ''tls13 '' @ ascii label) @ lp8 ctx"
  by (auto simp: hkdfLabel_def wire_Some [symmetric] wire_iffs)

lemma hkdfLabel_separates:
  assumes "hkdfLabel C label ctx len = Inr info" and "hkdfLabel C label' ctx' len' = Inr info"
    and "len < 65536" and "len' < 65536"
  shows "label = label' \<and> ctx = ctx' \<and> len = len'"
proof -
  let ?s = "lp8 (ascii ''tls13 '' @ ascii label) @ lp8 ctx" and ?s' = "lp8 (ascii ''tls13 '' @ ascii label') @ lp8 ctx'"
  from assms(1,2) have l: "length label < 250" "length label' < 250" "length ctx < 256" "length ctx' < 256"
    and eq: "u16b (word_of_nat len) @ ?s = u16b (word_of_nat len') @ ?s'"
    by (auto simp: hkdfLabel_iff)
  from eq have len: "(word_of_nat len :: u16) = word_of_nat len'" and s: "?s = ?s'"
    by (simp_all add: u16b_inject)
  have "unat (word_of_nat len :: u16) = len" "unat (word_of_nat len' :: u16) = len'"
    using assms(3,4) by (simp_all add: unat_of_nat)
  then have "len = len'" unfolding len by simp
  moreover from s have "ReadUint8LengthPrefixed C ?s = ReadUint8LengthPrefixed C ?s'" by simp
  then have "ascii ''tls13 '' @ ascii label = ascii ''tls13 '' @ ascii label'" "lp8 ctx = lp8 ctx'"
    using l by simp_all
  moreover from this have "label = label'" by (simp add: ascii_inject)
  moreover from \<open>lp8 ctx = lp8 ctx'\<close> have "ReadUint8LengthPrefixed C (lp8 ctx) = ReadUint8LengthPrefixed C (lp8 ctx')"
    by simp
  then have "ctx = ctx'" using l by simp
  ultimately show ?thesis by simp
qed

lemma expandLabel_total:
  assumes "hashFn_ok h" and "length label < 250" and "length ctx < 256" and "len \<le> 255 * h_Size h"
  shows "\<exists>out. expandLabel C h secret label ctx len = Some out \<and> length out = len"
proof -
  obtain info where "hkdfLabel C label ctx len = Inr info" using assms(2,3) by (simp add: hkdfLabel_iff)
  moreover obtain out where "hkdf_Expand h secret info len = Some out"
    using hkdf_Expand_Some [OF assms(4)] by blast
  ultimately show ?thesis using hkdf_Expand_length [OF assms(1)] by (auto simp: expandLabel_def)
qed

lemma deriveSecret_total:
  assumes "schedule_hash h" and "length label < 250" and "\<forall>t. transcript = Some t \<longrightarrow> hs_fn t = h"
  shows "\<exists>out. deriveSecret C h secret label transcript = Some out \<and> length out = h_Size h"
proof -
  have "length (case transcript of Some t \<Rightarrow> hs_Sum t | None \<Rightarrow> hs_Sum (hs_new h)) = h_Size h"
    using assms(1,3) by (auto simp: schedule_hash_def hs_Sum_def hs_new_def split: option.split)
  then show ?thesis using assms(1,2) unfolding deriveSecret_def Let_def
    by (intro expandLabel_total) (auto simp: schedule_hash_def)
qed

text \<open>The whole chain of secrets exists, each as long as the hash.\<close>

lemma schedule_total:
  assumes h: "schedule_hash h" and t: "hs_fn transcript = h"
  obtains hsec msec where
    "EarlySecret_HandshakeSecret C (NewEarlySecret h psk) sharedSecret = Some hsec"
    "HandshakeSecret_MasterSecret C hsec = Some msec"
    "ss_hash hsec = h" "ss_hash msec = h"
    "length (ss_secret hsec) = h_Size h" "length (ss_secret msec) = h_Size h"
proof -
  have ok: "hashFn_ok h" using h by (simp add: schedule_hash_def)
  have e: "ss_hash (NewEarlySecret h psk) = h" by (simp add: NewEarlySecret_def Let_def)
  obtain p1 where p1: "deriveSecret C h (ss_secret (NewEarlySecret h psk)) ''derived'' None = Some p1"
    using deriveSecret_total [OF h, of "''derived''" None] by force
  let ?hs = "\<lparr>ss_secret = hkdfExtract h sharedSecret (copy_at 0 (replicate (h_Size h) 0) p1), ss_hash = h\<rparr>"
  obtain p2 where p2: "deriveSecret C h (ss_secret ?hs) ''derived'' None = Some p2"
    using deriveSecret_total [OF h, of "''derived''" None] by force
  show thesis
  proof (rule that)
    show "EarlySecret_HandshakeSecret C (NewEarlySecret h psk) sharedSecret = Some ?hs"
      by (simp add: EarlySecret_HandshakeSecret_def e p1)
    show "HandshakeSecret_MasterSecret C ?hs =
        Some \<lparr>ss_secret = hkdfExtract h (replicate (h_Size h) 0) p2, ss_hash = h\<rparr>"
      using p2 by (simp add: HandshakeSecret_MasterSecret_def)
  qed (simp_all add: hkdfExtract_def hkdf_Extract_def ok)
qed

lemma traffic_secrets_total:
  assumes "schedule_hash (ss_hash s)" and "hs_fn transcript = ss_hash s"
  shows "\<exists>k. HandshakeSecret_ClientHandshakeTrafficSecret C s transcript = Some k \<and> length k = h_Size (ss_hash s)"
    and "\<exists>k. HandshakeSecret_ServerHandshakeTrafficSecret C s transcript = Some k \<and> length k = h_Size (ss_hash s)"
    and "\<exists>k. MasterSecret_ClientApplicationTrafficSecret C s transcript = Some k \<and> length k = h_Size (ss_hash s)"
    and "\<exists>k. MasterSecret_ServerApplicationTrafficSecret C s transcript = Some k \<and> length k = h_Size (ss_hash s)"
    and "\<exists>k. MasterSecret_ResumptionMasterSecret C s transcript = Some k \<and> length k = h_Size (ss_hash s)"
  unfolding HandshakeSecret_ClientHandshakeTrafficSecret_def HandshakeSecret_ServerHandshakeTrafficSecret_def
    MasterSecret_ClientApplicationTrafficSecret_def MasterSecret_ServerApplicationTrafficSecret_def
    MasterSecret_ResumptionMasterSecret_def
  by (rule deriveSecret_total [OF assms(1)]; use assms(2) in simp)+

lemma trafficKey_total:
  assumes "hashFn_ok (cs13_hash c)" and "cs13_keyLen c \<le> 255" 
  shows "\<exists>key iv. trafficKey C c secret = Some (key, iv) \<and> length key = cs13_keyLen c \<and> length iv = aeadNonceLength"
proof -
  have pos: "0 < h_Size (cs13_hash c)" using assms(1) by simp
  then have "cs13_keyLen c \<le> 255 * h_Size (cs13_hash c)" "aeadNonceLength \<le> 255 * h_Size (cs13_hash c)"
    using assms(2) mult_le_mono2 [of 1 "h_Size (cs13_hash c)" 255] by linarith+
  then obtain key iv where "expandLabel C (cs13_hash c) secret ''key'' [] (cs13_keyLen c) = Some key"
      "length key = cs13_keyLen c" "expandLabel C (cs13_hash c) secret ''iv'' [] aeadNonceLength = Some iv"
      "length iv = aeadNonceLength"
    using expandLabel_total [OF assms(1), of "''key''" "[]" "cs13_keyLen c" secret]
      expandLabel_total [OF assms(1), of "''iv''" "[]" aeadNonceLength secret]
    by auto
  then show ?thesis by (simp add: trafficKey_def)
qed

end

section \<open>Agreement of the key exchanges\<close>

text \<open>
  What the code relies on: Diffie-Hellman commutes on generated keys and their public keys
  parse and have the element size; ML-KEM decapsulation returns what encapsulation made.
\<close>

definition ecdhCurve_ok :: "nat \<Rightarrow> ecdhCurve \<Rightarrow> bool" where
  "ecdhCurve_ok n E \<longleftrightarrow>
     (\<forall>k k' p p'. ec_NewPublicKey E (ec_PublicKey E k) = Inr p \<longrightarrow>
        ec_NewPublicKey E (ec_PublicKey E k') = Inr p' \<longrightarrow> ec_ECDH E k p' = ec_ECDH E k' p) \<and>
     (\<forall>k. \<exists>p. ec_NewPublicKey E (ec_PublicKey E k) = Inr p) \<and>
     (\<forall>k. length (ec_PublicKey E k) = n)"

definition mlkemScheme_ok :: "mlkemScheme \<Rightarrow> bool" where
  "mlkemScheme_ok M \<longleftrightarrow>
     (\<forall>seed dk. ml_NewDecapsulationKey M seed = Inr dk \<longrightarrow>
        length (ml_EncapsulatorBytes M dk) = ml_EncapsulationKeySize M \<and>
        (\<forall>ek entropy ss ct. ml_NewEncapsulationKey M (ml_EncapsulatorBytes M dk) = Inr ek \<longrightarrow>
           ml_Encapsulate M ek entropy = (ss, ct) \<longrightarrow>
           ml_Decapsulate M dk ct = Inr ss \<and> length ct = ml_CiphertextSize M))"

lemma ecdh_agree:
  assumes "ecdh_keyShares ke rand = Inr (priv, shares, r1)"
    and "ecdh_serverSharedSecret ke rand' (ks_data (shares ! 0)) = Inr (secret, ks, r2)"
    and "ecdhCurve_ok n (ke_curve ke)"
  shows "ecdh_clientSharedSecret ke priv (ks_data ks) = Inr secret \<and> ks_group ks = ke_id ke"
proof -
  let ?E = "ke_curve ke"
  from assms(1) obtain k where k: "priv = \<lparr>kp_ecdhe = k, kp_mlkem = None\<rparr>" "ks_data (shares ! 0) = ec_PublicKey ?E k"
    by (auto simp: ecdh_keyShares_def split: sum.splits)
  from assms(2) obtain k' p where k': "ec_NewPublicKey ?E (ec_PublicKey ?E k) = Inr p" "ec_ECDH ?E k' p = Inr secret"
      "ks = \<lparr>ks_group = ke_id ke, ks_data = ec_PublicKey ?E k'\<rparr>"
    by (auto simp: ecdh_serverSharedSecret_def k split: sum.splits)
  obtain p' where p': "ec_NewPublicKey ?E (ec_PublicKey ?E k') = Inr p'"
    using assms(3) unfolding ecdhCurve_ok_def by blast
  with k' assms(3) have "ec_ECDH ?E k p' = Inr secret" unfolding ecdhCurve_ok_def by metis
  with k' p' show ?thesis by (simp add: ecdh_clientSharedSecret_def k)
qed

text \<open>The client's keys of the hybrid exchange carry over to its plain ECDH part.\<close>

lemma hybrid_keyShares_split:
  assumes "hybrid_keyShares ke rand = Inr (priv, shares, r1)"
  obtains epriv eshares er seed dk where "ecdh_keyShares (hk_ecdh ke) rand = Inr (epriv, eshares, er)"
    and "ml_NewDecapsulationKey (hk_mlkem ke) seed = Inr dk" and "priv = epriv\<lparr>kp_mlkem := Some dk\<rparr>"
    and "shares = [\<lparr>ks_group = hk_id ke, ks_data = (if hk_id ke = X25519MLKEM768
        then ml_EncapsulatorBytes (hk_mlkem ke) dk @ ks_data (eshares ! 0)
        else ks_data (eshares ! 0) @ ml_EncapsulatorBytes (hk_mlkem ke) dk)\<rparr>, eshares ! 0]"
  using assms by (auto simp: hybrid_keyShares_def Let_def split: sum.splits)

definition hybrid_sizes :: "hybridKeyExchange \<Rightarrow> bool" where
  "hybrid_sizes ke \<longleftrightarrow> hk_mlkemPublicKeySize ke = ml_EncapsulationKeySize (hk_mlkem ke) \<and>
     hk_mlkemCiphertextSize ke = ml_CiphertextSize (hk_mlkem ke)"

lemma hybrid_agree:
  assumes "hybrid_keyShares ke rand = Inr (priv, shares, r1)"
    and "hybrid_serverSharedSecret ke entropy rand' (ks_data (shares ! 0)) = Inr (secret, ks, r2)"
    and "ecdhCurve_ok (hk_ecdhElementSize ke) (ke_curve (hk_ecdh ke))" and "mlkemScheme_ok (hk_mlkem ke)"
    and "hybrid_sizes ke"
  shows "hybrid_clientSharedSecret ke priv (ks_data ks) = Some (Inr secret) \<and> ks_group ks = hk_id ke"
proof -
  let ?x = "hk_id ke = X25519MLKEM768" and ?M = "hk_mlkem ke"
  obtain epriv eshares er seed dk where e: "ecdh_keyShares (hk_ecdh ke) rand = Inr (epriv, eshares, er)"
    and dk: "ml_NewDecapsulationKey ?M seed = Inr dk" and priv: "priv = epriv\<lparr>kp_mlkem := Some dk\<rparr>"
    and sh: "shares = [\<lparr>ks_group = hk_id ke, ks_data = (if ?x
        then ml_EncapsulatorBytes ?M dk @ ks_data (eshares ! 0)
        else ks_data (eshares ! 0) @ ml_EncapsulatorBytes ?M dk)\<rparr>, eshares ! 0]"
    using hybrid_keyShares_split [OF assms(1)] by metis
  have len: "length (ml_EncapsulatorBytes ?M dk) = hk_mlkemPublicKeySize ke"
      "length (ks_data (eshares ! 0)) = hk_ecdhElementSize ke"
    using dk e assms(3,4,5) by (auto simp: mlkemScheme_ok_def hybrid_sizes_def ecdhCurve_ok_def ecdh_keyShares_def
        split: sum.splits)
  from assms(2) len obtain es eks ek ss ct where
      s: "ecdh_serverSharedSecret (hk_ecdh ke) rand' (ks_data (eshares ! 0)) = Inr (es, eks, r2)"
    and ek: "ml_NewEncapsulationKey ?M (ml_EncapsulatorBytes ?M dk) = Inr ek" "ml_Encapsulate ?M ek entropy = (ss, ct)"
    and ks: "ks = \<lparr>ks_group = hk_id ke, ks_data = (if ?x then ct @ ks_data eks else ks_data eks @ ct)\<rparr>"
    and sec: "secret = (if ?x then ss @ es else es @ ss)"
    by (cases ?x) (auto simp: hybrid_serverSharedSecret_def sh split: sum.splits prod.splits if_splits)
  have c: "ecdh_clientSharedSecret (hk_ecdh ke) epriv (ks_data eks) = Inr es"
    using ecdh_agree [OF e s assms(3)] by simp
  have d: "ml_Decapsulate ?M dk ct = Inr ss" "length ct = hk_mlkemCiphertextSize ke"
    using dk ek assms(4,5) by (auto simp: mlkemScheme_ok_def hybrid_sizes_def)
  have "length (ks_data eks) = hk_ecdhElementSize ke"
    using s assms(3) by (auto simp: ecdh_serverSharedSecret_def ecdhCurve_ok_def split: sum.splits)
  moreover have "ecdh_clientSharedSecret (hk_ecdh ke) priv (ks_data eks) = Inr es"
    using c by (simp add: priv ecdh_clientSharedSecret_def split: sum.splits)
  ultimately show ?thesis using d by (simp add: hybrid_clientSharedSecret_def ks sec priv)
qed

text \<open>Every hybrid exchange that the code constructs takes its sizes from its ML-KEM scheme.\<close>

lemma keyExchangeForCurveID_sizes:
  "keyExchangeForCurveID curves m768 m1024 i = Inr (HybridKE ke) \<Longrightarrow> hybrid_sizes ke \<and> hk_id ke = i"
  by (auto simp: keyExchangeForCurveID_def hybrid_sizes_def split: if_splits)

section \<open>Properties\<close>

text \<open>A hash function of output size 2, on which the properties are instantiated.\<close>

definition hash_sample :: hashFn where
  "hash_sample = \<lparr>h_Size = 2, h_Sum = (\<lambda>w. [word_of_nat (length w), sum_list w]),
     h_hmac = (\<lambda>k w. [sum_list k, sum_list w])\<rparr>"

lemma hash_sample_ok: "schedule_hash hash_sample"
  by (simp add: schedule_hash_def hashFn_ok_def hash_sample_def)

text \<open>
  The TLS 1.3 key schedule never reaches its panics: for a hash with output below 256 bytes,
  any PSK and any shared secret, the early, handshake and master secrets and the five traffic
  and resumption secrets derived from them exist, and each has the length of the hash.
\<close>

lemma key_schedule_total:
  assumes "cryptobyte_pkg C" and "schedule_hash h" and "hs_fn transcript = h"
  shows "\<exists>hs ms c s ca sa rm.
    EarlySecret_HandshakeSecret C (NewEarlySecret h psk) sharedSecret = Some hs \<and>
    HandshakeSecret_MasterSecret C hs = Some ms \<and>
    HandshakeSecret_ClientHandshakeTrafficSecret C hs transcript = Some c \<and> length c = h_Size h \<and>
    HandshakeSecret_ServerHandshakeTrafficSecret C hs transcript = Some s \<and> length s = h_Size h \<and>
    MasterSecret_ClientApplicationTrafficSecret C ms transcript = Some ca \<and> length ca = h_Size h \<and>
    MasterSecret_ServerApplicationTrafficSecret C ms transcript = Some sa \<and> length sa = h_Size h \<and>
    MasterSecret_ResumptionMasterSecret C ms transcript = Some rm \<and> length rm = h_Size h"
proof -
  obtain hs ms where s: "EarlySecret_HandshakeSecret C (NewEarlySecret h psk) sharedSecret = Some hs"
      "HandshakeSecret_MasterSecret C hs = Some ms" "ss_hash hs = h" "ss_hash ms = h"
    using cryptobyte_pkg.schedule_total [OF assms] by metis
  note t = cryptobyte_pkg.traffic_secrets_total [OF assms(1), of hs transcript]
    and u = cryptobyte_pkg.traffic_secrets_total [OF assms(1), of ms transcript]
  show ?thesis using s assms(2,3) t(1,2) u(3,4,5) by fastforce
qed

text \<open>
  Traffic keys: for every suite with a key length of at most 255 bytes, \<open>trafficKey\<close> returns
  a key of the suite's key length and a 12-byte IV, as the AEAD constructors require.
\<close>

lemma traffic_key_lengths:
  assumes "cryptobyte_pkg C" and "hashFn_ok (cs13_hash c)" and "cs13_keyLen c \<le> 255"
  shows "\<exists>key iv. trafficKey C c secret = Some (key, iv) \<and> length key = cs13_keyLen c \<and> length iv = aeadNonceLength"
  by (rule cryptobyte_pkg.trafficKey_total [OF assms])

text \<open>
  Key separation of HKDF-Expand-Label: two calls with the same label encoding have the same
  label, context and output length, so secrets derived under different labels or transcripts
  come from different HKDF inputs.
\<close>

lemma hkdf_label_separates:
  assumes "cryptobyte_pkg C" and "hkdfLabel C label ctx len = Inr info" and "hkdfLabel C label' ctx' len' = Inr info"
    and "len < 65536" and "len' < 65536"
  shows "label = label' \<and> ctx = ctx' \<and> len = len'"
  by (rule cryptobyte_pkg.hkdfLabel_separates [OF assms])

text \<open>
  (C17) Agreement of the hybrid key exchanges: for every post-quantum hybrid that the code knows, the
  secret the client computes from the server's key share is the secret the server computed,
  and the share carries the hybrid's group. The order of the two halves, which differs between
  X25519MLKEM768 and the NIST hybrids, is consistent on both sides in shares and secrets.
\<close>

theorem hybrid_key_exchange_agreement:
  assumes "keyExchangeForCurveID curves mlkem768 mlkem1024 i = Inr (HybridKE ke)"
    and "hybrid_keyShares ke rand = Inr (priv, shares, r1)"
    and "hybrid_serverSharedSecret ke entropy rand' (ks_data (shares ! 0)) = Inr (secret, ks, r2)"
    and "ecdhCurve_ok (hk_ecdhElementSize ke) (ke_curve (hk_ecdh ke))" and "mlkemScheme_ok (hk_mlkem ke)"
  shows "hybrid_clientSharedSecret ke priv (ks_data ks) = Some (Inr secret) \<and> ks_group ks = i"
  using hybrid_agree [OF assms(2-5)] keyExchangeForCurveID_sizes [OF assms(1)] by simp

text \<open>
  A toy group (public keys are the private key padded to the element size, the shared secret is
  the bytewise product of the keys) and a toy KEM whose ciphertext is the secret.
\<close>

definition curve_sample :: ecdhCurve where
  "curve_sample = \<lparr>ec_GenerateKey = (\<lambda>r. case r of [] \<Rightarrow> Inl IoEOF | b # r \<Rightarrow> Inr ([b], r)),
     ec_PublicKey = (\<lambda>k. replicate 32 (case k of [] \<Rightarrow> 0 | b # _ \<Rightarrow> b)),
     ec_NewPublicKey = (\<lambda>w. if w = [] then Inl IoEOF else Inr [hd w]),
     ec_ECDH = (\<lambda>k p. Inr [(case k of [] \<Rightarrow> 0 | b # _ \<Rightarrow> b) * hd p])\<rparr>"

definition mlkem_sample :: mlkemScheme where
  "mlkem_sample = \<lparr>ml_EncapsulationKeySize = 1, ml_CiphertextSize = 1, ml_NewDecapsulationKey = Inr,
     ml_EncapsulatorBytes = (\<lambda>dk. [7]), ml_NewEncapsulationKey = Inr,
     ml_Encapsulate = (\<lambda>ek e. ([4], [4])), ml_Decapsulate = (\<lambda>dk ct. Inr ct)\<rparr>"

lemma curve_sample_ok: "ecdhCurve_ok 32 curve_sample"
  by (auto simp: ecdhCurve_ok_def curve_sample_def mult.commute split: list.splits)

lemma mlkem_sample_ok: "mlkemScheme_ok mlkem_sample"
  by (simp add: mlkemScheme_ok_def mlkem_sample_def)

theorem hybrid_key_exchange_agreement_witness:
  "\<exists>ke priv shares r1 secret ks r2.
     keyExchangeForCurveID (\<lambda>_. curve_sample) mlkem_sample mlkem_sample X25519MLKEM768 = Inr (HybridKE ke) \<and>
     hybrid_keyShares ke (replicate 65 2) = Inr (priv, shares, r1) \<and>
     hybrid_serverSharedSecret ke [] [3] (ks_data (shares ! 0)) = Inr (secret, ks, r2) \<and>
     hybrid_clientSharedSecret ke priv (ks_data ks) = Some (Inr secret) \<and> secret = [4, 6]"
proof -
  obtain ke where ke: "keyExchangeForCurveID (\<lambda>_. curve_sample) mlkem_sample mlkem_sample X25519MLKEM768 = Inr (HybridKE ke)"
      "ke = \<lparr>hk_id = X25519MLKEM768, hk_ecdh = \<lparr>ke_id = X25519, ke_curve = curve_sample\<rparr>, hk_ecdhElementSize = 32,
        hk_mlkemPublicKeySize = 1, hk_mlkemCiphertextSize = 1, hk_mlkem = mlkem_sample\<rparr>"
    by (simp add: keyExchangeForCurveID_def mlkem_sample_def)
  have r: "replicate 65 2 = 2 # replicate 64 (2 :: u8)" by (simp add: numeral_eq_Suc)
  obtain priv shares r1 where sh: "hybrid_keyShares ke (replicate 65 2) = Inr (priv, shares, r1)"
      "ks_data (shares ! 0) = 7 # replicate 32 2"
    unfolding r by (simp add: hybrid_keyShares_def ecdh_keyShares_def readFull_def ke(2) curve_sample_def mlkem_sample_def)
  obtain ks r2 where s: "hybrid_serverSharedSecret ke [] [3] (ks_data (shares ! 0)) = Inr ([4, 6], ks, r2)"
    by (simp add: hybrid_serverSharedSecret_def ecdh_serverSharedSecret_def sh(2) ke(2) curve_sample_def mlkem_sample_def)
  have "hybrid_clientSharedSecret ke priv (ks_data ks) = Some (Inr [4, 6])"
    using hybrid_key_exchange_agreement [OF ke(1) sh(1) s] curve_sample_ok mlkem_sample_ok by (simp add: ke(2))
  with ke(1) sh(1) s show ?thesis by blast
qed

end
