(* ===== verification/HalfConn.thy ===== *)
theory HalfConn
  imports KeySchedule
begin

text \<open>
  One direction of the record layer: the \<open>halfConn\<close> of conn.go with its sequence number,
  cipher and MAC, and the functions that protect and unprotect a record. A result \<open>None\<close> is
  a run-time panic of the code. The lemmas show that the sequence number is a 64-bit counter
  that panics instead of wrapping, that the constant-time padding check is the padding rule
  of RFC 2246, that what one end encrypts the other end decrypts, with both ends staying in
  step, and that a record is only accepted with a matching MAC and valid padding.
\<close>

abbreviation recordTypeChangeCipherSpec :: u8 where "recordTypeChangeCipherSpec \<equiv> 20"
abbreviation recordTypeAlert :: u8 where "recordTypeAlert \<equiv> 21"
abbreviation recordTypeHandshake :: u8 where "recordTypeHandshake \<equiv> 22"
abbreviation recordTypeApplicationData :: u8 where "recordTypeApplicationData \<equiv> 23"

abbreviation maxPlaintext :: nat where "maxPlaintext \<equiv> 16384"
abbreviation maxCiphertext :: nat where "maxCiphertext \<equiv> 16384 + 2048"
abbreviation maxCiphertextTLS13 :: nat where "maxCiphertextTLS13 \<equiv> 16384 + 256"
abbreviation recordHeaderLen :: nat where "recordHeaderLen \<equiv> 5"

abbreviation alertUnexpectedMessage :: u8 where "alertUnexpectedMessage \<equiv> 10"
abbreviation alertBadRecordMAC :: u8 where "alertBadRecordMAC \<equiv> 20"
abbreviation alertRecordOverflow :: u8 where "alertRecordOverflow \<equiv> 22"
abbreviation alertInternalError :: u8 where "alertInternalError \<equiv> 80"

section \<open>State\<close>

datatype QUICEncryptionLevel =
    QUICEncryptionLevelInitial
  | QUICEncryptionLevelEarly
  | QUICEncryptionLevelHandshake
  | QUICEncryptionLevelApplication

datatype recordCipher = Stream cipherStream | Aead aead | CBC cbcMode

record halfConn =
  hc_err :: "goerror option"
  hc_version :: u16
  hc_cipher :: "recordCipher option"
  hc_mac :: "macHash option"
  hc_seq :: bytes
  hc_nextCipher :: "recordCipher option"
  hc_nextMac :: "macHash option"
  hc_level :: QUICEncryptionLevel
  hc_trafficSecret :: bytes

definition halfConn_zero :: halfConn where
  "halfConn_zero = \<lparr>hc_err = None, hc_version = 0, hc_cipher = None, hc_mac = None,
     hc_seq = replicate 8 0, hc_nextCipher = None, hc_nextMac = None,
     hc_level = QUICEncryptionLevelInitial, hc_trafficSecret = []\<rparr>"

text \<open>
  \<open>setErrorLocked\<close>: an error that implements \<open>net.Error\<close> (\<open>net.OpError\<close>, an error of the
  underlying connection) is wrapped, so that \<open>Temporary\<close> reports false from then on.
\<close>

fun is_net_Error :: "goerror \<Rightarrow> bool" where
  "is_net_Error (OpError op a) \<longleftrightarrow> True"
| "is_net_Error (NetError temp) \<longleftrightarrow> True"
| "is_net_Error (PermanentError e) \<longleftrightarrow> True"
| "is_net_Error _ \<longleftrightarrow> False"

fun Temporary :: "goerror \<Rightarrow> bool" where
  "Temporary (NetError temp) \<longleftrightarrow> temp"
| "Temporary _ \<longleftrightarrow> False"

definition hc_setErrorLocked :: "halfConn \<Rightarrow> goerror option \<Rightarrow> goerror option \<times> halfConn" where
  "hc_setErrorLocked hc err =
     (let hc = (case err of
          Some e \<Rightarrow> if is_net_Error e then hc\<lparr>hc_err := Some (PermanentError e)\<rparr> else hc\<lparr>hc_err := Some e\<rparr>
        | None \<Rightarrow> hc\<lparr>hc_err := None\<rparr>)
      in (hc_err hc, hc))"

definition hc_prepareCipherSpec :: "halfConn \<Rightarrow> u16 \<Rightarrow> recordCipher option \<Rightarrow> macHash option \<Rightarrow> halfConn" where
  "hc_prepareCipherSpec hc version cipher mac =
     hc\<lparr>hc_version := version, hc_nextCipher := cipher, hc_nextMac := mac\<rparr>"

definition hc_changeCipherSpec :: "halfConn \<Rightarrow> u8 option \<times> halfConn" where
  "hc_changeCipherSpec hc =
     (if hc_nextCipher hc = None \<or> hc_version hc = VersionTLS13 then (Some alertInternalError, hc)
      else (None, hc\<lparr>hc_cipher := hc_nextCipher hc, hc_mac := hc_nextMac hc,
                     hc_nextCipher := None, hc_nextMac := None, hc_seq := replicate 8 0\<rparr>))"

definition hc_setTrafficSecret ::
    "('b, 'x) cryptobyte_scheme \<Rightarrow> halfConn \<Rightarrow> cipherSuiteTLS13 \<Rightarrow> QUICEncryptionLevel \<Rightarrow> bytes \<Rightarrow> halfConn option" where
  "hc_setTrafficSecret C hc suite level secret = do {
     let hc = hc\<lparr>hc_trafficSecret := secret, hc_level := level\<rparr>;
     (key, iv) \<leftarrow> trafficKey C suite secret;
     a \<leftarrow> cs13_aead suite key iv;
     Some (hc\<lparr>hc_cipher := Some (Aead a), hc_seq := replicate 8 0\<rparr>)
   }"

text \<open>\<open>for i := 7; i >= 0; i-- { hc.seq[i]++; if hc.seq[i] != 0 { return } }\<close>, then the panic.\<close>

fun incSeq_loop :: "nat \<Rightarrow> bytes \<Rightarrow> bytes option" where
  "incSeq_loop 0 sq = None"
| "incSeq_loop (Suc i) sq =
     (let sq = sq[i := sq ! i + 1] in if sq ! i \<noteq> 0 then Some sq else incSeq_loop i sq)"

definition hc_incSeq :: "halfConn \<Rightarrow> halfConn option" where
  "hc_incSeq hc = map_option (\<lambda>sq. hc\<lparr>hc_seq := sq\<rparr>) (incSeq_loop 8 (hc_seq hc))"

definition hc_explicitNonceLen :: "halfConn \<Rightarrow> nat" where
  "hc_explicitNonceLen hc =
     (case hc_cipher hc of
        None \<Rightarrow> 0
      | Some (Stream s) \<Rightarrow> 0
      | Some (Aead a) \<Rightarrow> aead_explicitNonceLen a
      | Some (CBC c) \<Rightarrow> if hc_version hc \<ge> VersionTLS11 then cbc_blockSize c else 0)"

section \<open>Padding\<close>

text \<open>
  \<open>byte(int32(^t) >> 31)\<close>: 255 when the top bit of the low 32 bits of \<open>t\<close> is clear, 0 when
  it is set.
\<close>

definition msbMask :: "u64 \<Rightarrow> u8" where
  "msbMask t = ucast (signed_drop_bit 31 (ucast (not t) :: u32))"

definition extractPadding_step :: "bytes \<Rightarrow> u8 \<Rightarrow> nat \<Rightarrow> u8 \<Rightarrow> u8" where
  "extractPadding_step payload paddingLen i good =
     (let t = (ucast paddingLen :: u64) - word_of_nat i;
          msk = msbMask t;
          b = payload ! (length payload - 1 - i)
      in and good (not (xor (and msk paddingLen) (and msk b))))"

definition extractPadding :: "bytes \<Rightarrow> nat \<times> u8" where
  "extractPadding payload =
     (if length payload < 1 then (0, 0)
      else
        let paddingLen = payload ! (length payload - 1);
            t = word_of_nat (length payload - 1) - (ucast paddingLen :: u64);
            good = msbMask t;
            toCheck = (if 256 > length payload then length payload else 256);
            good = fold (extractPadding_step payload paddingLen) [0..<toCheck] good;
            good = and good (push_bit 4 good);
            good = and good (push_bit 2 good);
            good = and good (push_bit 1 good);
            good = signed_drop_bit 7 good;
            paddingLen = and paddingLen good
        in (unat paddingLen + 1, good))"

definition roundUp :: "nat \<Rightarrow> nat \<Rightarrow> nat" where
  "roundUp a b = a + (b - a mod b) mod b"

section \<open>Unprotecting a record\<close>

text \<open>The two length bytes \<open>byte(n>>8), byte(n)\<close> of an \<open>int\<close>.\<close>

definition lenBytes :: "int \<Rightarrow> bytes" where
  "lenBytes n = [word_of_int (drop_bit 8 n), word_of_int n]"

text \<open>
  The TLS 1.3 scan from the end for the content type: \<open>None\<close> is the alert for a plaintext of
  zeros only. A plaintext of length 0 is left as it is, with the outer type.
\<close>

fun scanContentType :: "nat \<Rightarrow> u8 \<Rightarrow> bytes \<Rightarrow> (bytes \<times> u8) option" where
  "scanContentType 0 typ plaintext = Some (plaintext, typ)"
| "scanContentType (Suc i) typ plaintext =
     (if plaintext ! i \<noteq> 0 then Some (take i plaintext, plaintext ! i)
      else if i = 0 then None
      else scanContentType i typ plaintext)"

text \<open>
  The switch on the cipher: an alert, or the plaintext (only AEADs set it), the payload as the
  in-place decryption leaves it, and the padding length and verdict; beside it the state with
  the advanced cipher.
\<close>

definition hc_openCipher :: "halfConn \<Rightarrow> recordCipher \<Rightarrow> bytes \<Rightarrow> bytes \<Rightarrow>
    ((u8 + (bytes \<times> bytes \<times> nat \<times> u8)) \<times> halfConn) option" where
  "hc_openCipher hc cipher record payload =
     (let explicitNonceLen = hc_explicitNonceLen hc in
      case cipher of
        Stream s \<Rightarrow>
          (let (out, s) = XORKeyStream s payload
           in Some (Inr ([], out, 0, 255), hc\<lparr>hc_cipher := Some (Stream s)\<rparr>))
      | Aead a \<Rightarrow>
          if length payload < explicitNonceLen then Some (Inl alertBadRecordMAC, hc)
          else
            (let nonce = take explicitNonceLen payload;
                 nonce = (if length nonce = 0 then hc_seq hc else nonce);
                 payload = drop explicitNonceLen payload;
                 n = int (length payload) - int (aead_Overhead a);
                 additionalData = (if hc_version hc = VersionTLS13 then take recordHeaderLen record
                   else hc_seq hc @ take 3 record @ lenBytes n)
             in case aead_Open a nonce payload additionalData of
                  None \<Rightarrow> None
                | Some (None, a) \<Rightarrow> Some (Inl alertBadRecordMAC, hc\<lparr>hc_cipher := Some (Aead a)\<rparr>)
                | Some (Some plaintext, a) \<Rightarrow>
                    Some (Inr (plaintext, plaintext @ drop (length plaintext) payload, 0, 255),
                      hc\<lparr>hc_cipher := Some (Aead a)\<rparr>))
      | CBC c \<Rightarrow>
          (case hc_mac hc of
             None \<Rightarrow> None
           | Some mac \<Rightarrow>
               (let blockSize = cbc_blockSize c;
                    minPayload = explicitNonceLen + roundUp (mac_Size mac + 1) blockSize
                in if length payload mod blockSize \<noteq> 0 \<or> length payload < minPayload
                   then Some (Inl alertBadRecordMAC, hc)
                   else do {
                     (c, payload) \<leftarrow> (if explicitNonceLen > 0
                        then map_option (\<lambda>c. (c, drop explicitNonceLen payload))
                               (SetIV c (take explicitNonceLen payload))
                        else Some (c, payload));
                     (payload, c) \<leftarrow> CryptBlocks c payload;
                     let (paddingLen, paddingGood) = extractPadding payload;
                     Some (Inr ([], payload, paddingLen, paddingGood), hc\<lparr>hc_cipher := Some (CBC c)\<rparr>)
                   })))"

text \<open>The TLS 1.3 checks on the opened record.\<close>

definition hc_inner13 :: "u8 \<Rightarrow> bytes \<Rightarrow> u8 + (bytes \<times> u8)" where
  "hc_inner13 typ plaintext =
     (if typ \<noteq> recordTypeApplicationData then Inl alertUnexpectedMessage
      else if length plaintext > maxPlaintext + 1 then Inl alertRecordOverflow
      else case scanContentType (length plaintext) typ plaintext of
          None \<Rightarrow> Inl alertUnexpectedMessage
        | Some r \<Rightarrow> Inr r)"

text \<open>
  The MAC check: the offset of the MAC (\<open>ConstantTimeSelect(int(uint32(n)>>31), 0, n)\<close>), the
  comparison combined with the padding verdict, and the plaintext.
\<close>

definition macOffset :: "nat \<Rightarrow> nat \<Rightarrow> nat \<Rightarrow> nat" where
  "macOffset len macSize paddingLen =
     (let n = int len - int macSize - int paddingLen
      in if drop_bit 31 (word_of_int n :: u32) = 1 then 0 else nat n)"

definition hc_checkMAC :: "macHash \<Rightarrow> bytes \<Rightarrow> bytes \<Rightarrow> bytes \<Rightarrow> nat \<Rightarrow> u8 \<Rightarrow> u8 + bytes" where
  "hc_checkMAC mac sq record payload paddingLen paddingGood =
     (let macSize = mac_Size mac in
      if length payload < macSize then Inl alertBadRecordMAC
      else
        let n = macOffset (length payload) macSize paddingLen;
            header = take 3 record @ lenBytes (int n);
            remoteMAC = take macSize (drop n payload);
            localMAC = tls10MAC mac sq header (take n payload) (drop (n + macSize) payload);
            macAndPaddingGood = and (if localMAC = remoteMAC then 1 else 0) (uint paddingGood)
        in if macAndPaddingGood \<noteq> 1 then Inl alertBadRecordMAC else Inr (take n payload))"

text \<open>The part of \<open>decrypt\<close> up to the MAC: plaintext, type, payload, padding length and verdict.\<close>

definition hc_openRecord :: "halfConn \<Rightarrow> bytes \<Rightarrow>
    ((u8 + (bytes \<times> u8 \<times> bytes \<times> nat \<times> u8)) \<times> halfConn) option" where
  "hc_openRecord hc record =
     (let typ = record ! 0;
          payload = drop recordHeaderLen record
      in case hc_cipher hc of
           None \<Rightarrow> Some (Inr (payload, typ, payload, 0, 255), hc)
         | Some cipher \<Rightarrow>
             (case hc_openCipher hc cipher record payload of
                None \<Rightarrow> None
              | Some (Inl a, hc) \<Rightarrow> Some (Inl a, hc)
              | Some (Inr (plaintext, payload, paddingLen, paddingGood), hc) \<Rightarrow>
                  if hc_version hc = VersionTLS13 then
                    (case hc_inner13 typ plaintext of
                       Inl a \<Rightarrow> Some (Inl a, hc)
                     | Inr (plaintext, typ) \<Rightarrow> Some (Inr (plaintext, typ, payload, paddingLen, paddingGood), hc))
                  else Some (Inr (plaintext, typ, payload, paddingLen, paddingGood), hc)))"

definition hc_decrypt :: "halfConn \<Rightarrow> bytes \<Rightarrow> ((u8 + (bytes \<times> u8)) \<times> halfConn) option" where
  "hc_decrypt hc record =
     (if length record < recordHeaderLen then None
      else if hc_version hc = VersionTLS13 \<and> record ! 0 = recordTypeChangeCipherSpec
      then Some (Inr (drop recordHeaderLen record, record ! 0), hc)
      else
        (case hc_openRecord hc record of
           None \<Rightarrow> None
         | Some (Inl a, hc) \<Rightarrow> Some (Inl a, hc)
         | Some (Inr (plaintext, typ, payload, paddingLen, paddingGood), hc) \<Rightarrow>
             (case (case hc_mac hc of
                      None \<Rightarrow> Inr plaintext
                    | Some mac \<Rightarrow> hc_checkMAC mac (hc_seq hc) record payload paddingLen paddingGood) of
                Inl a \<Rightarrow> Some (Inl a, hc)
              | Inr plaintext \<Rightarrow> map_option (\<lambda>hc. (Inr (plaintext, typ), hc)) (hc_incSeq hc))))"

section \<open>Protecting a record\<close>

text \<open>
  The explicit nonce: nothing, the sequence number for AEADs, or bytes from the random source
  for CBC. The random source is the string it will deliver.
\<close>

definition hc_explicitNonce :: "halfConn \<Rightarrow> bytes \<Rightarrow> (bytes \<times> bytes) res" where
  "hc_explicitNonce hc rand =
     (let explicitNonceLen = hc_explicitNonceLen hc
      in if explicitNonceLen > 0
         then if (case hc_cipher hc of Some (CBC c) \<Rightarrow> False | _ \<Rightarrow> True) \<and> explicitNonceLen < 16
              then Inr (copy_at 0 (replicate explicitNonceLen 0) (hc_seq hc), rand)
              else readFull explicitNonceLen rand
         else Inr ([], rand))"

text \<open>The body behind the header: \<open>record\<close> holds the header, the result replaces it.\<close>

definition hc_sealCipher :: "halfConn \<Rightarrow> recordCipher \<Rightarrow> bytes \<Rightarrow> bytes \<Rightarrow> bytes \<Rightarrow> (bytes \<times> halfConn) option" where
  "hc_sealCipher hc cipher header explicitNonce payload =
     (case cipher of
        Stream s \<Rightarrow>
          (case hc_mac hc of
             None \<Rightarrow> None
           | Some h \<Rightarrow>
               (let mac = tls10MAC h (hc_seq hc) header payload [];
                    (dst1, s) = XORKeyStream s payload;
                    (dst2, s) = XORKeyStream s mac
                in Some (header @ explicitNonce @ dst1 @ dst2, hc\<lparr>hc_cipher := Some (Stream s)\<rparr>)))
      | Aead a \<Rightarrow>
          (let nonce = (if length explicitNonce = 0 then hc_seq hc else explicitNonce) in
           if hc_version hc = VersionTLS13 then do {
             let inner = payload @ [header ! 0];
             let n = length payload + 1 + aead_Overhead a;
             let header = [recordTypeApplicationData, header ! 1, header ! 2] @ lenBytes (int n);
             (sealed, a) \<leftarrow> aead_Seal a nonce (explicitNonce @ inner) header;
             Some (header @ sealed, hc\<lparr>hc_cipher := Some (Aead a)\<rparr>)
           }
           else do {
             let additionalData = hc_seq hc @ header;
             (sealed, a) \<leftarrow> aead_Seal a nonce payload additionalData;
             Some (header @ explicitNonce @ sealed, hc\<lparr>hc_cipher := Some (Aead a)\<rparr>)
           })
      | CBC c \<Rightarrow>
          (case hc_mac hc of
             None \<Rightarrow> None
           | Some h \<Rightarrow> do {
               let mac = tls10MAC h (hc_seq hc) header payload [];
               let blockSize = cbc_blockSize c;
               let plaintextLen = length payload + length mac;
               let paddingLen = blockSize - plaintextLen mod blockSize;
               let dst = payload @ mac @ replicate paddingLen (word_of_nat (paddingLen - 1));
               c \<leftarrow> (if length explicitNonce > 0 then SetIV c explicitNonce else Some c);
               (dst, c) \<leftarrow> CryptBlocks c dst;
               Some (header @ explicitNonce @ dst, hc\<lparr>hc_cipher := Some (CBC c)\<rparr>)
             }))"

definition hc_encrypt :: "halfConn \<Rightarrow> bytes \<Rightarrow> bytes \<Rightarrow> bytes \<Rightarrow> (bytes res \<times> halfConn \<times> bytes) option" where
  "hc_encrypt hc header payload rand =
     (case hc_cipher hc of
        None \<Rightarrow> Some (Inr (header @ payload), hc, rand)
      | Some cipher \<Rightarrow>
          (case hc_explicitNonce hc rand of
             Inl e \<Rightarrow> Some (Inl e, hc, [])
           | Inr (explicitNonce, rand) \<Rightarrow>
               (case hc_sealCipher hc cipher header explicitNonce payload of
                  None \<Rightarrow> None
                | Some (record, hc) \<Rightarrow>
                    (let n = length record - recordHeaderLen;
                         record = take 3 record @ lenBytes (int n) @ drop recordHeaderLen record
                     in case hc_incSeq hc of
                          None \<Rightarrow> None
                        | Some hc \<Rightarrow> Some (Inr record, hc, rand)))))"

section \<open>The sequence number is a 64-bit counter\<close>

lemma u8_plus_1_eq_0: "(b :: u8) + 1 = 0 \<longleftrightarrow> unat b = 255"
proof -
  have "b + 1 = 0 \<longleftrightarrow> b = - 1" by (simp add: eq_neg_iff_add_eq_0)
  also have "\<dots> \<longleftrightarrow> unat b = unat (- 1 :: u8)" by (simp only: word_unat_eq_iff)
  also have "(- 1 :: u8) = 255" by simp
  also have "unat (255 :: u8) = 255" by simp
  finally show ?thesis .
qed

lemma u8_plus_1: "word_of_nat (unat b + 1) = (b :: u8) + 1"
  by simp

lemma incSeq_loop_spec:
  assumes "i \<le> length sq"
  shows "incSeq_loop i sq =
    (if unbe (take i sq) + 1 < 256 ^ i then Some (be i (unbe (take i sq) + 1) @ drop i sq) else None)"
  using assms
proof (induction i arbitrary: sq)
  case 0
  then show ?case by simp
next
  case (Suc i)
  let ?b = "sq ! i" and ?sq = "sq[i := sq ! i + 1]" and ?p = "unbe (take i sq)"
  have i: "i < length sq" using Suc.prems by simp
  have t: "take (Suc i) sq = take i sq @ [?b]" using i by (simp add: take_Suc_conv_app_nth)
  have lt: "?p < 256 ^ i" using unbe_less [of "take i sq"] i by (simp add: min_def)
  have split: "drop i ?sq = (?b + 1) # drop (Suc i) sq" "take i ?sq = take i sq"
    using i by (simp_all add: drop_update_swap Cons_nth_drop_Suc [symmetric])
  show ?case
  proof (cases "?b + 1 = 0")
    case False
    then have b: "unat ?b < 255" using unat_u8_less [of ?b] unfolding u8_plus_1_eq_0 by linarith
    have "?sq = take i sq @ (?b + 1) # drop (Suc i) sq" using i by (simp add: upd_conv_take_nth_drop)
    moreover have "be i ?p = take i sq" using i by (simp add: be_unbe_len)
    moreover have "(?p * 256 + unat ?b + 1) div 256 = ?p" using b by simp
    moreover have "(word_of_nat (?p * 256 + unat ?b + 1) :: u8) = word_of_nat (unat ?b + 1)"
      by (simp only: word_unat_eq_iff unat_u8_mod add.assoc mod_mult_self3)
    then have "(word_of_nat (?p * 256 + unat ?b + 1) :: u8) = ?b + 1" by (simp del: of_nat_add of_nat_mult add: u8_plus_1)
    moreover have "?p * 256 + unat ?b + 1 < 256 ^ Suc i" using lt b by simp
    ultimately show ?thesis using False i
      by (simp add: t Let_def nth_append add.commute del: of_nat_add of_nat_mult)
  next
    case True
    then have b: "unat ?b = 255" by (simp add: u8_plus_1_eq_0)
    have "incSeq_loop (Suc i) sq = incSeq_loop i ?sq" using True i by simp
    also have "\<dots> = (if ?p + 1 < 256 ^ i then Some (be i (?p + 1) @ drop i ?sq) else None)"
      using Suc.IH [of ?sq] i split by simp
    also have "\<dots> = (if unbe (take (Suc i) sq) + 1 < 256 ^ Suc i
        then Some (be (Suc i) (unbe (take (Suc i) sq) + 1) @ drop (Suc i) sq) else None)"
    proof -
      have e: "unbe (take (Suc i) sq) + 1 = (?p + 1) * 256" by (simp add: t b)
      have "(word_of_nat ((?p + 1) * 256) :: u8) = 0"
        by (simp only: word_unat_eq_iff unat_u8_mod) simp
      then show ?thesis unfolding e using True split by (simp del: of_nat_add of_nat_mult)
    qed
    finally show ?thesis .
  qed
qed

lemma unbe_replicate_0: "unbe (replicate n 0) = 0"
  by (induction n) (simp_all add: unbe_def)

lemma unbe_replicate_255: "unbe (replicate n 255) + 1 = 256 ^ n"
proof (induction n)
  case (Suc n)
  then show ?case using unbe_snoc [of "replicate n 255" 255] by (simp add: replicate_append_same)
qed simp

lemma hc_incSeq_spec:
  assumes "length (hc_seq hc) = 8"
  shows "hc_incSeq hc = (if unbe (hc_seq hc) + 1 < 2 ^ 64
    then Some (hc\<lparr>hc_seq := be 8 (unbe (hc_seq hc) + 1)\<rparr>) else None)"
proof -
  have "(256::nat) ^ 8 = 2 ^ 64" by simp
  with incSeq_loop_spec [of 8 "hc_seq hc"] assms show ?thesis
    by (simp add: hc_incSeq_def)
qed

section \<open>The constant-time padding check\<close>

lemma signed_drop_bit_31: "signed_drop_bit 31 (w :: u32) = (if bit w 31 then - 1 else 0)"
  by (rule bit_word_eqI) (auto simp: bit_signed_drop_bit_iff Suc_le_eq)

lemma signed_drop_bit_7: "signed_drop_bit 7 (w :: u8) = (if bit w 7 then - 1 else 0)"
  by (rule bit_word_eqI) (auto simp: bit_signed_drop_bit_iff Suc_le_eq)

lemma msbMask_eq: "msbMask t = (if bit t 31 then 0 else - 1)"
proof -
  have "bit (ucast (not t) :: u32) 31 \<longleftrightarrow> \<not> bit t 31" by (simp add: bit_ucast_iff bit_not_iff)
  moreover have "(ucast (- 1 :: u32) :: u8) = - 1" by (rule bit_word_eqI) (simp add: bit_ucast_iff)
  ultimately show ?thesis by (simp add: msbMask_def signed_drop_bit_31)
qed

lemma bit_31_small:
  assumes "k < 2 ^ 31"
  shows "\<not> bit (word_of_nat k :: u64) 31"
proof -
  have "\<not> bit k 31" using assms by (simp add: bit_iff_odd)
  then show ?thesis by (simp add: bit_of_nat_iff)
qed

lemma msbMask_diff:
  assumes "a < 2 ^ 31" and "b < 2 ^ 31"
  shows "msbMask (word_of_nat a - word_of_nat b) = (if b \<le> a then - 1 else 0)"
proof (cases "b \<le> a")
  case True
  then have "(word_of_nat a - word_of_nat b :: u64) = word_of_nat (a - b)" by (simp add: of_nat_diff)
  then have "\<not> bit (word_of_nat a - word_of_nat b :: u64) 31"
    using bit_31_small [of "a - b"] assms by simp
  with True show ?thesis by (simp add: msbMask_eq)
next
  case False
  then have "(word_of_nat a - word_of_nat b :: u64) = not (word_of_nat (b - a - 1))"
    by (simp add: of_nat_diff not_eq_complement)
  moreover have "\<not> bit (word_of_nat (b - a - 1) :: u64) 31"
    by (rule bit_31_small) (use assms in simp)
  ultimately have "bit (word_of_nat a - word_of_nat b :: u64) 31" by (simp only: bit_not_iff) simp
  with False show ?thesis by (simp add: msbMask_eq)
qed

lemma extractPadding_step_eq:
  assumes "i < 256"
  shows "extractPadding_step payload p i good =
    (if i \<le> unat p then and good (not (xor p (payload ! (length payload - 1 - i)))) else good)"
proof -
  have "(ucast p :: u64) = word_of_nat (unat p)" by simp
  then have "msbMask ((ucast p :: u64) - word_of_nat i) = (if i \<le> unat p then - 1 else 0)"
    using msbMask_diff [of "unat p" i] assms unat_u8_less [of p] by (simp del: unat_u8_less)
  then show ?thesis by (simp add: extractPadding_step_def Let_def)
qed

lemma extractPadding_fold:
  assumes "n \<le> 256"
  shows "fold (extractPadding_step payload p) [0..<n] good = - 1 \<longleftrightarrow>
    good = - 1 \<and> (\<forall>i<n. i \<le> unat p \<longrightarrow> payload ! (length payload - 1 - i) = p)"
  using assms
proof (induction n)
  case (Suc n)
  have x: "xor p b = 0 \<longleftrightarrow> b = p" for b :: u8 by (auto simp: bit_eq_iff bit_xor_iff)
  from Suc show ?case
    by (auto simp: extractPadding_step_eq and_eq_minus_1_iff not_eq_complement x less_Suc_eq)
qed simp

lemma all_less_8: "(\<forall>n<8. P n) \<longleftrightarrow> P 0 \<and> P 1 \<and> P 2 \<and> P 3 \<and> P 4 \<and> P 5 \<and> P 6 \<and> P (7 :: nat)"
  by (simp add: numeral_eq_Suc All_less_Suc) blast

lemma all_ones_collapse:
  "signed_drop_bit 7 (and (and (and g (push_bit 4 g)) (push_bit 2 (and g (push_bit 4 g))))
     (push_bit 1 (and (and g (push_bit 4 g)) (push_bit 2 (and g (push_bit 4 g)))))) =
   (if g = - 1 then - 1 else (0 :: u8))"
proof -
  let ?g = "and (and (and g (push_bit 4 g)) (push_bit 2 (and g (push_bit 4 g))))
     (push_bit 1 (and (and g (push_bit 4 g)) (push_bit 2 (and g (push_bit 4 g)))))"
  have "bit ?g 7 \<longleftrightarrow> bit g 0 \<and> bit g 1 \<and> bit g 2 \<and> bit g 3 \<and> bit g 4 \<and> bit g 5 \<and> bit g 6 \<and> bit g 7"
    by (simp only: bit_and_iff bit_push_bit_iff) auto
  also have "\<dots> \<longleftrightarrow> (\<forall>n<8. bit g n)"
    unfolding all_less_8 by blast
  also have "\<dots> \<longleftrightarrow> g = - 1"
    by (auto simp: bit_eq_iff)
  finally show ?thesis by (simp add: signed_drop_bit_7)
qed

definition validPadding :: "bytes \<Rightarrow> bool" where
  "validPadding payload \<longleftrightarrow> payload \<noteq> [] \<and> unat (last payload) < length payload \<and>
     (\<forall>i\<le>unat (last payload). payload ! (length payload - 1 - i) = last payload)"

lemma extractPadding_spec:
  assumes "length payload < 2 ^ 31"
  shows "extractPadding payload =
    (if payload = [] then (0, 0)
     else if validPadding payload then (unat (last payload) + 1, 255) else (1, 0))"
proof (cases "payload = []")
  case True
  then show ?thesis by (simp add: extractPadding_def)
next
  case False
  let ?p = "last payload" and ?n = "length payload"
  let ?check = "if 256 > ?n then ?n else 256"
  have p: "payload ! (?n - 1) = ?p" using False by (simp add: last_conv_nth)
  have "(ucast ?p :: u64) = word_of_nat (unat ?p)" by simp
  then have g0: "msbMask (word_of_nat (?n - 1) - (ucast ?p :: u64)) = (if unat ?p \<le> ?n - 1 then - 1 else 0)"
    using msbMask_diff [of "?n - 1" "unat ?p"] assms unat_u8_less [of ?p] by (simp del: unat_u8_less)
  have "fold (extractPadding_step payload ?p) [0..<?check] (if unat ?p \<le> ?n - 1 then - 1 else 0) = - 1
      \<longleftrightarrow> validPadding payload"
  proof -
    have le: "unat ?p \<le> ?n - 1 \<longleftrightarrow> unat ?p < ?n" using False by (cases payload) auto
    have chk: "i < ?check" if "i \<le> unat ?p" "unat ?p < ?n" for i
      using that unat_u8_less [of ?p] by (simp del: unat_u8_less split: if_split)
    show ?thesis using False chk
      by (subst extractPadding_fold) (auto simp: validPadding_def le simp del: One_nat_def split: if_splits)
  qed
  then show ?thesis using False
    unfolding extractPadding_def Let_def p g0 all_ones_collapse by simp
qed

section \<open>Both ends of a direction\<close>

text \<open>
  \<open>halfConn_pair out in'\<close>: the sending state of one end and the receiving state of the other
  hold matching ciphers, the same MAC key and, when protection is on, the same sequence number.
\<close>

definition cbc_pair :: "cbcMode \<Rightarrow> cbcMode \<Rightarrow> bool" where
  "cbc_pair e d \<longleftrightarrow> cbc_blockSize d = cbc_blockSize e \<and> 0 < cbc_blockSize e \<and> cbc_blockSize e \<le> 256 \<and>
     cbc_iv d = cbc_iv e \<and>
     (\<forall>iv w. length w mod cbc_blockSize e = 0 \<longrightarrow> length (cbc_crypt e iv w) = length w \<and>
        cbc_crypt d iv (cbc_crypt e iv w) = w \<and> cbc_next d iv (cbc_crypt e iv w) = cbc_next e iv w)"

definition mac_pair :: "macHash option \<Rightarrow> macHash option \<Rightarrow> bool" where
  "mac_pair m m' \<longleftrightarrow> m' = m \<and> (case m of None \<Rightarrow> False | Some h \<Rightarrow> macHash_ok h \<and> mac_Size h < 65536)"

fun cipher_pair :: "u16 \<Rightarrow> recordCipher \<Rightarrow> recordCipher \<Rightarrow> bool" where
  "cipher_pair v (Stream s) (Stream s') \<longleftrightarrow> s' = s \<and> v \<noteq> VersionTLS13"
| "cipher_pair v (Aead a) (Aead a') \<longleftrightarrow> aead_pair a a' \<and> aead_Overhead a < 65536 \<and>
     (v = VersionTLS13 \<longrightarrow> aead_explicitNonceLen a = 0)"
| "cipher_pair v (CBC c) (CBC c') \<longleftrightarrow> cbc_pair c c' \<and> v \<noteq> VersionTLS13"
| "cipher_pair v _ _ \<longleftrightarrow> False"

definition uses_mac :: "recordCipher \<Rightarrow> bool" where
  "uses_mac c \<longleftrightarrow> (case c of Aead a \<Rightarrow> False | _ \<Rightarrow> True)"

definition halfConn_pair :: "halfConn \<Rightarrow> halfConn \<Rightarrow> bool" where
  "halfConn_pair out in' \<longleftrightarrow> hc_version in' = hc_version out \<and> length (hc_seq in') = 8 \<and>
     (case (hc_cipher out, hc_cipher in') of
        (None, None) \<Rightarrow> hc_mac in' = None
      | (Some c, Some c') \<Rightarrow> cipher_pair (hc_version out) c c' \<and> hc_seq in' = hc_seq out \<and>
          (if uses_mac c then mac_pair (hc_mac out) (hc_mac in') else hc_mac in' = None)
      | _ \<Rightarrow> False)"

lemma length_lenBytes [simp]: "length (lenBytes n) = 2"
  by (simp add: lenBytes_def)

lemma macOffset_eq:
  assumes "len = n + macSize + paddingLen" and "len < 2 ^ 31"
  shows "macOffset len macSize paddingLen = n"
proof -
  have n: "n < 2 ^ 31" using assms by simp
  have "drop_bit 31 (word_of_nat n :: u32) = 0"
  proof (rule bit_word_eqI)
    fix k
    have "\<not> bit n (31 + k)"
    proof -
      have "n < 2 ^ (31 + k)" using n by (rule less_le_trans) (simp add: power_add)
      then show ?thesis by (simp add: bit_iff_odd)
    qed
    then show "bit (drop_bit 31 (word_of_nat n :: u32)) k \<longleftrightarrow> bit (0 :: u32) k"
      by (simp add: bit_drop_bit_eq bit_of_nat_iff)
  qed
  then have "drop_bit 31 (word_of_int (int n) :: u32) \<noteq> 1" by simp
  moreover have "int len - int macSize - int paddingLen = int n" using assms(1) by simp
  ultimately show ?thesis by (simp only: macOffset_def Let_def) simp
qed

text \<open>The MAC check accepts a payload that carries the MAC of its data.\<close>

lemma hc_checkMAC_ok:
  assumes "macHash_ok h" and "payload = w @ tls10MAC h sq (take 3 record @ lenBytes (int (length w))) w x @ pad"
    and "length payload < 2 ^ 31"
  shows "hc_checkMAC h sq record payload (length pad) 255 = Inr w"
proof -
  let ?mac = "tls10MAC h sq (take 3 record @ lenBytes (int (length w))) w x"
  have len: "length ?mac = mac_Size h" using assms(1) by (simp add: tls10MAC_def macHash_ok_def)
  then have n: "macOffset (length payload) (mac_Size h) (length pad) = length w"
    using macOffset_eq [of "length payload" "length w" "mac_Size h" "length pad"] assms(2,3) by simp
  have m: "take (mac_Size h) (drop (length w) payload) = ?mac" "take (length w) payload = w"
    "\<not> length payload < mac_Size h" using len by (simp_all add: assms(2))
  have "tls10MAC h sq hd w y = tls10MAC h sq hd w z" for hd y z by (simp add: tls10MAC_def)
  then show ?thesis unfolding hc_checkMAC_def Let_def n m
    using m(3) by simp
qed

text \<open>And conversely: an accepted payload had the MAC of the returned data at the MAC's place, and valid padding.\<close>

lemma hc_checkMAC_sound:
  assumes "hc_checkMAC h sq record payload paddingLen paddingGood = Inr w"
  shows "w = take (macOffset (length payload) (mac_Size h) paddingLen) payload \<and> paddingGood \<noteq> 0 \<and>
    take (mac_Size h) (drop (macOffset (length payload) (mac_Size h) paddingLen) payload) =
      tls10MAC h sq (take 3 record @ lenBytes (int (macOffset (length payload) (mac_Size h) paddingLen))) w []"
  using assms by (auto simp: hc_checkMAC_def Let_def tls10MAC_def split: if_splits)

section \<open>What one end seals, the other end opens\<close>

text \<open>
  \<open>opens_to i rec payload t i1\<close>: unprotecting \<open>rec\<close> at \<open>i\<close> yields the payload and its
  type, and what is left to do is the step of the sequence number from the state \<open>i1\<close>.
\<close>

definition opens_to :: "halfConn \<Rightarrow> bytes \<Rightarrow> bytes \<Rightarrow> u8 \<Rightarrow> halfConn \<Rightarrow> bool" where
  "opens_to i record payload t i1 \<longleftrightarrow>
     hc_decrypt i record = map_option (\<lambda>hc. (Inr (payload, t), hc)) (hc_incSeq i1)"

lemma lenBytes_take3 [simp]:
  "take 3 ([t, v1, v2] @ l) = [t, v1, v2]" "drop 5 ([t, v1, v2] @ lenBytes k @ body) = body"
  "([t, v1, v2] @ l) ! 0 = t"
  by (simp_all add: lenBytes_def)

lemma seal_open_stream:
  assumes "hc_cipher i = Some (Stream s)" and "hc_version i \<noteq> VersionTLS13" and "hc_seq i = hc_seq out"
    and "hc_mac out = Some h" and "hc_mac i = Some h" and "macHash_ok h" and "mac_Size h < 65536"
    and "length payload \<le> maxPlaintext"
    and "hc_sealCipher out (Stream s) ([t, v1, v2] @ lenBytes (int (length payload))) [] payload = Some (r, out1)"
  obtains body s1 where "r = [t, v1, v2] @ lenBytes (int (length payload)) @ body"
    and "out1 = out\<lparr>hc_cipher := Some (Stream s1)\<rparr>"
    and "opens_to i ([t, v1, v2] @ lenBytes (int (length body)) @ body) payload t (i\<lparr>hc_cipher := Some (Stream s1)\<rparr>)"
proof -
  let ?mac = "tls10MAC h (hc_seq out) ([t, v1, v2] @ lenBytes (int (length payload))) payload []"
  let ?body = "fst (XORKeyStream s (payload @ ?mac))" and ?s1 = "snd (XORKeyStream s (payload @ ?mac))"
  have mac: "length ?mac = mac_Size h" using assms(6) by (simp add: tls10MAC_def macHash_ok_def)
  have r: "r = [t, v1, v2] @ lenBytes (int (length payload)) @ ?body" "out1 = out\<lparr>hc_cipher := Some (Stream ?s1)\<rparr>"
    using assms(4,9) by (auto simp: hc_sealCipher_def XORKeyStream_append Let_def split_beta)
  have body: "fst (XORKeyStream s ?body) = payload @ ?mac @ []" "snd (XORKeyStream s ?body) = ?s1"
    by (simp_all only: XORKeyStream_involution append_Nil2) (simp add: XORKeyStream_def)
  have chk: "hc_checkMAC h (hc_seq i) ([t, v1, v2] @ lenBytes k @ ?body) (payload @ ?mac @ []) (length ([] :: bytes)) 255 = Inr payload" for k
    by (rule hc_checkMAC_ok [OF assms(6), where x = "[]"])
      (use assms(3,7,8) mac in \<open>simp_all add: lenBytes_take3(1) [simplified]\<close>)
  have "opens_to i ([t, v1, v2] @ lenBytes (int (length ?body)) @ ?body) payload t (i\<lparr>hc_cipher := Some (Stream ?s1)\<rparr>)"
    unfolding opens_to_def hc_decrypt_def hc_openRecord_def hc_openCipher_def
    using assms(1,2,5) body chk [of "int (length ?body)"]
    by (simp add: split_beta Let_def)
  with r that show ?thesis by blast
qed

lemma scanContentType_snoc: "t \<noteq> 0 \<Longrightarrow> scanContentType (Suc (length w)) u (w @ [t]) = Some (w, t)"
  by simp

lemma hc_inner13_ok:
  assumes "t \<noteq> 0" and "length w \<le> maxPlaintext"
  shows "hc_inner13 recordTypeApplicationData (w @ [t]) = Inr (w, t)"
proof -
  have "scanContentType (length (w @ [t])) u (w @ [t]) = Some (w, t)" for u
    using scanContentType_snoc [OF assms(1)] by simp
  then show ?thesis using assms(2) by (simp add: hc_inner13_def del: scanContentType.simps)
qed

lemma seal_open_aead13:
  assumes "hc_cipher i = Some (Aead a')" and "hc_version i = VersionTLS13" and "hc_version out = VersionTLS13"
    and "hc_seq i = hc_seq out" and "length (hc_seq out) = 8" and "hc_mac i = None"
    and "aead_pair a a'" and "aead_explicitNonceLen a = 0"
    and "length payload \<le> maxPlaintext" and "t \<noteq> 0"
    and "hc_sealCipher out (Aead a) ([t, v1, v2] @ lenBytes (int (length payload))) [] payload = Some (r, out1)"
  obtains body a1 a1' where "r = [recordTypeApplicationData, v1, v2] @ lenBytes (int (length body)) @ body"
    and "out1 = out\<lparr>hc_cipher := Some (Aead a1)\<rparr>" and "aead_pair a1 a1'" 
    and "opens_to i ([recordTypeApplicationData, v1, v2] @ lenBytes (int (length body)) @ body) payload t
      (i\<lparr>hc_cipher := Some (Aead a1')\<rparr>)"
proof -
  let ?n = "length payload + 1 + aead_Overhead a"
  let ?hd = "[recordTypeApplicationData, v1, v2] @ lenBytes (int ?n)"
  obtain c a1 a1' where c: "aead_Seal a (hc_seq out) (payload @ [t]) ?hd = Some (c, a1)" "length c = ?n"
      "aead_Open a' (hc_seq out) c ?hd = Some (Some (payload @ [t]), a1')" "aead_pair a1 a1'"
    using aead_pair_Open_Seal [OF assms(7,5), of "payload @ [t]" ?hd] by auto
  have r: "r = [recordTypeApplicationData, v1, v2] @ lenBytes (int (length c)) @ c"
      "out1 = out\<lparr>hc_cipher := Some (Aead a1)\<rparr>"
    using assms(3,11) c(1,2) by (simp_all add: hc_sealCipher_def Let_def)
  have e: "hc_explicitNonceLen i = 0"
    using assms(1,8) aead_pair_lens [OF assms(7)] by (simp add: hc_explicitNonceLen_def)
  have t5: "take 5 ([recordTypeApplicationData, v1, v2] @ lenBytes k @ w) = [recordTypeApplicationData, v1, v2] @ lenBytes k"
    for k w by (simp add: lenBytes_def)
  have "opens_to i ([recordTypeApplicationData, v1, v2] @ lenBytes (int (length c)) @ c) payload t
      (i\<lparr>hc_cipher := Some (Aead a1')\<rparr>)"
    unfolding opens_to_def hc_decrypt_def hc_openRecord_def hc_openCipher_def
    using assms(1,2,4,6) e c(2,3) hc_inner13_ok [OF assms(10,9)] t5 [of "int (length c)" c]
    by (simp add: Let_def)
  with r c(4) that show ?thesis by blast
qed

lemma seal_open_aead12:
  assumes "hc_cipher i = Some (Aead a')" and "hc_version i \<noteq> VersionTLS13" and "hc_version out \<noteq> VersionTLS13"
    and "hc_seq i = hc_seq out" and "length (hc_seq out) = 8" and "hc_mac i = None"
    and "aead_pair a a'" and "length en = aead_explicitNonceLen a"
    and "length payload \<le> maxPlaintext"
    and "hc_sealCipher out (Aead a) ([t, v1, v2] @ lenBytes (int (length payload))) en payload = Some (r, out1)"
  obtains body a1 a1' where "r = [t, v1, v2] @ lenBytes (int (length payload)) @ body"
    and "out1 = out\<lparr>hc_cipher := Some (Aead a1)\<rparr>" and "aead_pair a1 a1'"
    and "opens_to i ([t, v1, v2] @ lenBytes (int (length body)) @ body) payload t (i\<lparr>hc_cipher := Some (Aead a1')\<rparr>)"
proof -
  let ?nonce = "if length en = 0 then hc_seq out else en"
  let ?ad = "hc_seq out @ [t, v1, v2] @ lenBytes (int (length payload))"
  have "length ?nonce = 8" using assms(5,8) by (cases a) auto
  then obtain c a1 a1' where c: "aead_Seal a ?nonce payload ?ad = Some (c, a1)"
      "length c = length payload + aead_Overhead a"
      "aead_Open a' ?nonce c ?ad = Some (Some payload, a1')" "aead_pair a1 a1'"
    using aead_pair_Open_Seal [OF assms(7), of ?nonce payload ?ad] by auto
  have r: "r = [t, v1, v2] @ lenBytes (int (length payload)) @ en @ c" "out1 = out\<lparr>hc_cipher := Some (Aead a1)\<rparr>"
    using assms(3,10) c(1) by (simp_all add: hc_sealCipher_def Let_def)
  have e: "hc_explicitNonceLen i = length en" and o: "aead_Overhead a' = aead_Overhead a"
    using assms(1,8) aead_pair_lens [OF assms(7)] by (simp_all add: hc_explicitNonceLen_def)
  have n: "int (length c) - int (aead_Overhead a') = int (length payload)" using c(2) o by simp
  have "hc_openCipher i (Aead a') ([t, v1, v2] @ l) (en @ c) =
      Some (Inr (payload, payload @ drop (length payload) c, 0, 255), i\<lparr>hc_cipher := Some (Aead a1')\<rparr>)" for l
    unfolding hc_openCipher_def e Let_def using assms(2,4) c(3) n by (cases "en = []") simp_all
  then have "opens_to i ([t, v1, v2] @ lenBytes (int (length (en @ c))) @ en @ c) payload t
      (i\<lparr>hc_cipher := Some (Aead a1')\<rparr>)"
    unfolding opens_to_def hc_decrypt_def hc_openRecord_def using assms(1,2,6)
    by (simp add: Let_def)
  with r c(4) that [of "en @ c" a1 a1'] show ?thesis by blast
qed

text \<open>The padding that \<open>encrypt\<close> writes is the padding that \<open>extractPadding\<close> finds.\<close>

lemma extractPadding_replicate:
  assumes "0 < k" and "k \<le> 256" and "length w + k < 2 ^ 31"
  shows "extractPadding (w @ replicate k (word_of_nat (k - 1))) = (k, 255)"
proof -
  let ?p = "word_of_nat (k - 1) :: u8" and ?w = "w @ replicate k (word_of_nat (k - 1) :: u8)"
  have p: "unat ?p = k - 1" using assms(1,2) by (simp only: unat_u8_mod) simp
  have last: "last ?w = ?p" using assms(1) by (simp add: last_append)
  have "?w ! (length ?w - 1 - i) = ?p" if "i \<le> k - 1" for i
  proof -
    have "length ?w - 1 - i = length w + (k - 1 - i)" "k - 1 - i < k" using that assms(1) by simp_all
    then show ?thesis by (simp only: nth_append_length_plus nth_replicate)
  qed
  then have "validPadding ?w" using assms(1) by (simp only: validPadding_def last p) simp
  moreover have "?w \<noteq> []" using assms(1) by simp
  moreover have "length ?w < 2 ^ 31" using assms(3) by simp
  ultimately have "extractPadding ?w = (unat ?p + 1, 255)" using extractPadding_spec [of ?w] last by simp
  then show ?thesis using p assms(1) by simp
qed

lemma block_sum: "0 < b \<Longrightarrow> x + (b - x mod b) = b * (x div b) + (b :: nat)"
  using mod_less_divisor [of b x] mult_div_mod_eq [of b x] by linarith

lemma block_sum_mod: "0 < b \<Longrightarrow> (x + (b - x mod b)) mod b = (0 :: nat)"
  unfolding block_sum by simp

lemma roundUp_le:
  assumes "a \<le> m" and "m mod b = 0" and "0 < (b :: nat)"
  shows "roundUp a b \<le> m"
proof -
  obtain q where q: "m = b * q" using assms(2) by auto
  show ?thesis
  proof (cases "a mod b = 0")
    case True
    then show ?thesis using assms(1) by (simp add: roundUp_def)
  next
    case False
    then have "(b - a mod b) mod b = b - a mod b" using assms(3) by simp
    then have r: "roundUp a b = b * (a div b) + b" using block_sum [OF assms(3), of a] by (simp add: roundUp_def)
    have "a < q * b" using assms(1) q False by (metis le_neq_implies_less mod_mult_self1_is_0 mult.commute)
    then have "a div b < q" using assms(3) by (simp add: div_less_iff_less_mult)
    then have "a div b + 1 \<le> q" by simp
    then have "b * (a div b + 1) \<le> b * q" by (rule mult_le_mono2)
    then show ?thesis by (simp add: r q)
  qed
qed

lemma seal_open_cbc:
  assumes "hc_cipher i = Some (CBC c')" and "hc_version i \<noteq> VersionTLS13" and "hc_version i = hc_version out"
    and "hc_cipher out = Some (CBC c)" and "hc_seq i = hc_seq out"
    and "hc_mac out = Some h" and "hc_mac i = Some h" and "macHash_ok h" and "mac_Size h < 65536"
    and "cbc_pair c c'" and "length en = hc_explicitNonceLen out" and "length payload \<le> maxPlaintext"
    and "hc_sealCipher out (CBC c) ([t, v1, v2] @ lenBytes (int (length payload))) en payload = Some (r, out1)"
  obtains body c1 c1' where "r = [t, v1, v2] @ lenBytes (int (length payload)) @ body"
    and "out1 = out\<lparr>hc_cipher := Some (CBC c1)\<rparr>" and "cbc_pair c1 c1'"
    and "opens_to i ([t, v1, v2] @ lenBytes (int (length body)) @ body) payload t (i\<lparr>hc_cipher := Some (CBC c1')\<rparr>)"
proof -
  define bs where "bs = cbc_blockSize c"
  define mac where "mac = tls10MAC h (hc_seq out) ([t, v1, v2] @ lenBytes (int (length payload))) payload []"
  define k where "k = bs - (length payload + length mac) mod bs"
  define pad where "pad = replicate k (word_of_nat (k - 1) :: u8)"
  define dst where "dst = payload @ mac @ pad"
  define iv where "iv = (if en = [] then cbc_iv c else en)"
  let ?ct = "cbc_crypt c iv dst"
  let ?c1 = "c\<lparr>cbc_iv := cbc_next c iv dst\<rparr>" and ?c1' = "c'\<lparr>cbc_iv := cbc_next c iv dst\<rparr>"
  have bs: "0 < bs" "bs \<le> 256" "cbc_blockSize c' = bs" "cbc_iv c' = cbc_iv c"
    using assms(10) by (simp_all add: cbc_pair_def bs_def)
  have mac: "length mac = mac_Size h" using assms(8) by (simp add: mac_def tls10MAC_def macHash_ok_def)
  have k: "0 < k" "k \<le> 256" using bs by (simp_all add: k_def le_diff_conv)
  have dst: "length dst = length payload + length mac + k" by (simp add: dst_def pad_def)
  have m0: "length dst mod bs = 0"
    unfolding dst k_def by (rule block_sum_mod [OF bs(1)])
  have cbc: "length ?ct = length dst" "cbc_crypt c' iv ?ct = dst" "cbc_next c' iv ?ct = cbc_next c iv dst"
    using assms(10) m0 by (simp_all add: cbc_pair_def bs_def)
  have en: "en = [] \<or> length en = bs" "hc_explicitNonceLen i = length en"
    using assms(1,3,4,11) bs(3) by (auto simp: hc_explicitNonceLen_def bs_def split: if_splits)
  have r: "r = [t, v1, v2] @ lenBytes (int (length payload)) @ en @ ?ct" "out1 = out\<lparr>hc_cipher := Some (CBC ?c1)\<rparr>"
  proof -
    have "hc_sealCipher out (CBC c) ([t, v1, v2] @ lenBytes (int (length payload))) en payload = do {
        c \<leftarrow> (if length en > 0 then SetIV c en else Some c);
        (dst, c) \<leftarrow> CryptBlocks c dst;
        Some (([t, v1, v2] @ lenBytes (int (length payload))) @ en @ dst, out\<lparr>hc_cipher := Some (CBC c)\<rparr>) }"
      unfolding dst_def pad_def k_def bs_def mac_def by (simp add: hc_sealCipher_def assms(6) Let_def)
    also have "\<dots> = Some ([t, v1, v2] @ lenBytes (int (length payload)) @ en @ ?ct, out\<lparr>hc_cipher := Some (CBC ?c1)\<rparr>)"
      using m0 en(1) bs(1) by (cases "en = []") (simp_all add: SetIV_def CryptBlocks_def iv_def bs_def)
    finally show "r = [t, v1, v2] @ lenBytes (int (length payload)) @ en @ ?ct"
        "out1 = out\<lparr>hc_cipher := Some (CBC ?c1)\<rparr>" using assms(13) by simp_all
  qed
  have pad: "extractPadding dst = (k, 255)"
    using extractPadding_replicate [OF k, of "payload @ mac"] assms(9,12) mac k(2)
    by (simp add: dst_def pad_def)
  have "mac_Size h + 1 \<le> length dst" using k(1) mac dst by simp
  then have "roundUp (mac_Size h + 1) bs \<le> length dst" using m0 bs(1) by (rule roundUp_le)
  then have len: "\<not> length (en @ ?ct) < length en + roundUp (mac_Size h + 1) bs" "length (en @ ?ct) mod bs = 0"
    using cbc(1) m0 en(1) by auto
  have "hc_openCipher i (CBC c') rec (en @ ?ct) =
      Some (Inr ([], dst, k, 255), i\<lparr>hc_cipher := Some (CBC ?c1')\<rparr>)" for rec
    using len cbc m0 pad en bs assms(7)
    by (cases "en = []") (simp_all add: hc_openCipher_def CryptBlocks_def SetIV_def iv_def)
  moreover have "hc_checkMAC h (hc_seq i) ([t, v1, v2] @ l) dst k 255 = Inr payload" for l
  proof -
    have "hc_checkMAC h (hc_seq i) ([t, v1, v2] @ l) dst (length pad) 255 = Inr payload"
      by (rule hc_checkMAC_ok [OF assms(8), where x = "[]"])
        (use assms(5,9,12) mac k(2) dst in \<open>simp_all add: dst_def mac_def\<close>)
    then show ?thesis by (simp add: pad_def)
  qed
  ultimately have "opens_to i ([t, v1, v2] @ lenBytes (int (length (en @ ?ct))) @ en @ ?ct) payload t
      (i\<lparr>hc_cipher := Some (CBC ?c1')\<rparr>)"
    unfolding opens_to_def hc_decrypt_def hc_openRecord_def using assms(1,2,7) by (simp add: Let_def)
  moreover have "cbc_pair ?c1 ?c1'" using assms(10) by (simp add: cbc_pair_def)
  ultimately show ?thesis using r that [of "en @ ?ct" ?c1 ?c1'] by blast
qed

lemma hc_cipher_update_inject: "hc\<lparr>hc_cipher := x\<rparr> = hc\<lparr>hc_cipher := y\<rparr> \<longleftrightarrow> x = y"
  by (cases hc) auto

lemma hc_sealCipher_aead_kind:
  assumes "hc_sealCipher out (Aead a) header en payload = Some (r, out\<lparr>hc_cipher := Some (Aead a1)\<rparr>)"
  shows "aead_Overhead a1 = aead_Overhead a \<and> aead_explicitNonceLen a1 = aead_explicitNonceLen a"
proof -
  have "aead_Overhead a1 = aead_Overhead a \<and> aead_explicitNonceLen a1 = aead_explicitNonceLen a"
    if "aead_Seal a n p ad = Some (w, a1)" for n p ad w
    using that by (cases a) (auto simp: Let_def bind_eq_Some_conv)
  moreover have "\<exists>n p ad w. aead_Seal a n p ad = Some (w, a1)"
    using assms by (auto simp: hc_sealCipher_def Let_def bind_eq_Some_conv hc_cipher_update_inject split: if_splits)
  ultimately show ?thesis by blast
qed

lemma hc_explicitNonce_length:
  assumes "hc_explicitNonce hc rand = Inr (en, rand')"
  shows "length en = hc_explicitNonceLen hc"
  using assms by (auto simp: hc_explicitNonce_def readFull_def Let_def split: if_splits)

text \<open>
  The step of both ends for one record. The plaintext header has the length of the payload,
  as \<open>writeRecordLocked\<close> writes it; the content type is not 0 in TLS 1.3.
\<close>

lemma encrypt_decrypt_step:
  assumes pair: "halfConn_pair out i" and c: "hc_cipher out = Some c"
    and en: "hc_explicitNonce out rand = Inr (en, rand')"
    and len: "length payload \<le> maxPlaintext" and t: "t \<noteq> 0 \<or> hc_version out \<noteq> VersionTLS13"
    and seal: "hc_sealCipher out c ([t, v1, v2] @ lenBytes (int (length payload))) en payload = Some (r, out1)"
  obtains t' l body c1 c1' where "r = [t', v1, v2] @ lenBytes l @ body"
    and "out1 = out\<lparr>hc_cipher := Some c1\<rparr>" and "cipher_pair (hc_version out) c1 c1'" and "uses_mac c1 = uses_mac c"
    and "opens_to i ([t', v1, v2] @ lenBytes (int (length body)) @ body) payload t (i\<lparr>hc_cipher := Some c1'\<rparr>)"
proof -
  note that0 = that
  from pair c obtain c' where c': "hc_cipher i = Some c'" and cp: "cipher_pair (hc_version out) c c'"
    and v: "hc_version i = hc_version out" and sq: "hc_seq i = hc_seq out" "length (hc_seq out) = 8"
    and m: "if uses_mac c then mac_pair (hc_mac out) (hc_mac i) else hc_mac i = None"
    by (auto simp: halfConn_pair_def split: option.splits)
  have enl: "length en = hc_explicitNonceLen out" using en by (rule hc_explicitNonce_length)
  show ?thesis
  proof (cases c)
    case (Stream s)
    then have "c' = Stream s" "hc_version i \<noteq> VersionTLS13" "en = []"
      using cp v c enl by (cases c'; simp add: hc_explicitNonceLen_def)+
    moreover obtain h where h: "hc_mac out = Some h" "hc_mac i = Some h" "macHash_ok h" "mac_Size h < 65536"
      using m Stream by (auto simp: uses_mac_def mac_pair_def split: option.splits)
    ultimately obtain body s1 where "r = [t, v1, v2] @ lenBytes (int (length payload)) @ body"
        "out1 = out\<lparr>hc_cipher := Some (Stream s1)\<rparr>"
        "opens_to i ([t, v1, v2] @ lenBytes (int (length body)) @ body) payload t (i\<lparr>hc_cipher := Some (Stream s1)\<rparr>)"
      using seal_open_stream [OF _ _ sq(1) h len] c' seal Stream by metis
    moreover have "cipher_pair (hc_version out) (Stream s1) (Stream s1)" using cp Stream by (cases c') auto
    ultimately show ?thesis using that Stream by (metis uses_mac_def recordCipher.simps(10))
  next
    case (Aead a)
    then obtain a' where a': "c' = Aead a'" "aead_pair a a'" "aead_Overhead a < 65536"
        "hc_version out = VersionTLS13 \<longrightarrow> aead_explicitNonceLen a = 0" using cp by (cases c') auto
    have mi: "hc_mac i = None" using m Aead by (simp add: uses_mac_def)
    have ena: "length en = aead_explicitNonceLen a" using enl c Aead by (simp add: hc_explicitNonceLen_def)
    have fin: ?thesis if "r = [t', v1, v2] @ lenBytes l @ body" "out1 = out\<lparr>hc_cipher := Some (Aead a1)\<rparr>"
        "aead_pair a1 a1'" "aead_Overhead a1 = aead_Overhead a" "aead_explicitNonceLen a1 = aead_explicitNonceLen a"
        "opens_to i ([t', v1, v2] @ lenBytes (int (length body)) @ body) payload t (i\<lparr>hc_cipher := Some (Aead a1')\<rparr>)"
      for t' l body a1 a1'
      using that a'(3,4) Aead
      by (intro that0 [of t' l body "Aead a1" "Aead a1'"]) (simp_all add: uses_mac_def)
    show ?thesis
    proof (cases "hc_version out = VersionTLS13")
      case True
      then have "en = []" "t \<noteq> 0" "aead_explicitNonceLen a = 0" using a'(4) ena t by auto
      with True v sq mi a' c' seal Aead len obtain body a1 a1'
        where "r = [recordTypeApplicationData, v1, v2] @ lenBytes (int (length body)) @ body"
          "out1 = out\<lparr>hc_cipher := Some (Aead a1)\<rparr>" "aead_pair a1 a1'"
          "opens_to i ([recordTypeApplicationData, v1, v2] @ lenBytes (int (length body)) @ body) payload t
            (i\<lparr>hc_cipher := Some (Aead a1')\<rparr>)"
        using seal_open_aead13 [of i a' out a payload t v1 v2 r out1] by metis
      with seal Aead show ?thesis using fin [of recordTypeApplicationData] hc_sealCipher_aead_kind by metis
    next
      case False
      with v sq mi a' c' seal Aead len ena obtain body a1 a1'
        where "r = [t, v1, v2] @ lenBytes (int (length payload)) @ body"
          "out1 = out\<lparr>hc_cipher := Some (Aead a1)\<rparr>" "aead_pair a1 a1'"
          "opens_to i ([t, v1, v2] @ lenBytes (int (length body)) @ body) payload t (i\<lparr>hc_cipher := Some (Aead a1')\<rparr>)"
        using seal_open_aead12 [of i a' out a en payload t v1 v2 r out1] by metis
      with seal Aead show ?thesis using fin [of t] hc_sealCipher_aead_kind by metis
    qed
  next
    case (CBC x)
    then obtain x' where x': "c' = CBC x'" "cbc_pair x x'" "hc_version out \<noteq> VersionTLS13"
      using cp by (cases c') auto
    obtain h where h: "hc_mac out = Some h" "hc_mac i = Some h" "macHash_ok h" "mac_Size h < 65536"
      using m CBC by (auto simp: uses_mac_def mac_pair_def split: option.splits)
    obtain body x1 x1' where "r = [t, v1, v2] @ lenBytes (int (length payload)) @ body"
        "out1 = out\<lparr>hc_cipher := Some (CBC x1)\<rparr>" "cbc_pair x1 x1'"
        "opens_to i ([t, v1, v2] @ lenBytes (int (length body)) @ body) payload t (i\<lparr>hc_cipher := Some (CBC x1')\<rparr>)"
      using seal_open_cbc [of i x' out x h en payload t v1 v2 r out1] x' v sq c c' h enl len seal CBC by metis
    then show ?thesis using x'(3) CBC
      by (intro that0 [of t "int (length payload)" body "CBC x1" "CBC x1'"]) (simp_all add: uses_mac_def)
  qed
qed

lemma hc_incSeq_frame:
  "hc_incSeq hc = Some hc' \<Longrightarrow> hc_version hc' = hc_version hc \<and> hc_cipher hc' = hc_cipher hc \<and> hc_mac hc' = hc_mac hc"
  by (auto simp: hc_incSeq_def)

lemma hc_incSeq_cong:
  assumes "hc_incSeq o1 = Some o2" and "hc_seq i1 = hc_seq o1"
  shows "hc_incSeq i1 = Some (i1\<lparr>hc_seq := hc_seq o2\<rparr>)"
  using assms by (auto simp: hc_incSeq_def)

lemma hc_incSeq_length: "hc_incSeq hc = Some hc' \<Longrightarrow> length (hc_seq hc) = 8 \<Longrightarrow> length (hc_seq hc') = 8"
  by (auto simp: hc_incSeq_spec split: if_splits)

lemma encrypt_decrypt_plain:
  assumes "halfConn_pair out i" and "hc_cipher out = None"
    and "unbe (hc_seq i) + 1 < 2 ^ 64"
    and "hc_encrypt out ([t, v1, v2] @ lenBytes (int (length payload))) payload rand = Some (Inr r, out', rand')"
  shows "\<exists>i'. hc_decrypt i r = Some (Inr (payload, t), i') \<and> halfConn_pair out' i'"
proof -
  from assms(1,2) have i: "hc_cipher i = None" "hc_mac i = None" "length (hc_seq i) = 8" "hc_version i = hc_version out"
    by (auto simp: halfConn_pair_def split: option.splits)
  from assms(2,4) have r: "r = [t, v1, v2] @ lenBytes (int (length payload)) @ payload" "out' = out"
    by (auto simp: hc_encrypt_def)
  obtain i1 where i1: "hc_incSeq i = Some i1" using hc_incSeq_spec [OF i(3)] assms(3) by simp
  then have "hc_cipher i1 = None" "hc_mac i1 = None" "hc_version i1 = hc_version out" "length (hc_seq i1) = 8"
    using i hc_incSeq_frame [OF i1] hc_incSeq_length [OF i1] by simp_all
  with i i1 assms(2) show ?thesis
    by (auto simp: r hc_decrypt_def hc_openRecord_def halfConn_pair_def lenBytes_def)
qed

lemma encrypt_decrypt_protected:
  assumes pair: "halfConn_pair out i" and c: "hc_cipher out = Some c"
    and len: "length payload \<le> maxPlaintext" and t: "t \<noteq> 0 \<or> hc_version out \<noteq> VersionTLS13"
    and enc: "hc_encrypt out ([t, v1, v2] @ lenBytes (int (length payload))) payload rand = Some (Inr r, out', rand')"
  shows "\<exists>i'. hc_decrypt i r = Some (Inr (payload, t), i') \<and> halfConn_pair out' i' \<and> hc_cipher out' \<noteq> None \<and>
    hc_version out' = hc_version out"
proof -
  from enc c obtain en r0 out1 where en: "hc_explicitNonce out rand = Inr (en, rand')"
    and seal: "hc_sealCipher out c ([t, v1, v2] @ lenBytes (int (length payload))) en payload = Some (r0, out1)"
    and r: "r = take 3 r0 @ lenBytes (int (length r0 - 5)) @ drop 5 r0" and out': "hc_incSeq out1 = Some out'"
    by (auto simp: hc_encrypt_def Let_def split: sum.splits option.splits)
  obtain t' l body c1 c1' where r0: "r0 = [t', v1, v2] @ lenBytes l @ body"
    and out1: "out1 = out\<lparr>hc_cipher := Some c1\<rparr>" and cp: "cipher_pair (hc_version out) c1 c1'"
    and um: "uses_mac c1 = uses_mac c"
    and op: "opens_to i ([t', v1, v2] @ lenBytes (int (length body)) @ body) payload t (i\<lparr>hc_cipher := Some c1'\<rparr>)"
    using encrypt_decrypt_step [OF pair c en len t seal] by metis
  have r': "r = [t', v1, v2] @ lenBytes (int (length body)) @ body" by (simp add: r r0 lenBytes_def)
  from pair c have i: "hc_version i = hc_version out" "hc_seq i = hc_seq out" "length (hc_seq i) = 8"
      "if uses_mac c then mac_pair (hc_mac out) (hc_mac i) else hc_mac i = None"
    by (auto simp: halfConn_pair_def split: option.splits)
  have inc: "hc_incSeq (i\<lparr>hc_cipher := Some c1'\<rparr>) = Some (i\<lparr>hc_cipher := Some c1', hc_seq := hc_seq out'\<rparr>)"
    using hc_incSeq_cong [OF out', of "i\<lparr>hc_cipher := Some c1'\<rparr>"] i(2) by (simp add: out1)
  have f: "hc_version out' = hc_version out" "hc_cipher out' = Some c1" "hc_mac out' = hc_mac out" "length (hc_seq out') = 8"
    using hc_incSeq_frame [OF out'] hc_incSeq_length [OF out'] i(2,3) by (simp_all add: out1)
  have "hc_decrypt i r = Some (Inr (payload, t), i\<lparr>hc_cipher := Some c1', hc_seq := hc_seq out'\<rparr>)"
    using op inc by (simp add: opens_to_def r')
  moreover have "halfConn_pair out' (i\<lparr>hc_cipher := Some c1', hc_seq := hc_seq out'\<rparr>)"
    using f i cp um by (simp add: halfConn_pair_def)
  ultimately show ?thesis using f by blast
qed

section \<open>A channel of records\<close>

text \<open>
  The contract that a reader of the stream relies on: one step of both ends delivers one
  message and keeps the ends paired. Its consequence, proved once, is that any sequence of
  messages arrives unchanged and in order.
\<close>

fun send_all :: "('o \<Rightarrow> 'm \<Rightarrow> ('r \<times> 'o) option) \<Rightarrow> 'o \<Rightarrow> 'm list \<Rightarrow> ('r list \<times> 'o) option" where
  "send_all snd' out [] = Some ([], out)"
| "send_all snd' out (m # ms) = do {
     (r, out) \<leftarrow> snd' out m;
     (rs, out) \<leftarrow> send_all snd' out ms;
     Some (r # rs, out)
   }"

locale record_channel =
  fixes paired :: "'o \<Rightarrow> 'i \<Rightarrow> bool"
    and send :: "'o \<Rightarrow> 'm \<Rightarrow> ('r \<times> 'o) option"
    and receive :: "'i \<Rightarrow> 'r \<Rightarrow> ('m \<times> 'i) option"
    and valid :: "'m \<Rightarrow> bool"
  assumes delivers: "paired out inn \<Longrightarrow> valid m \<Longrightarrow> send out m = Some (r, out') \<Longrightarrow>
    \<exists>inn'. receive inn r = Some (m, inn') \<and> paired out' inn'"
begin

lemma delivers_all:
  assumes "paired out inn" and "\<forall>m\<in>set ms. valid m" and "send_all send out ms = Some (rs, out')"
  shows "\<exists>inn'. send_all receive inn rs = Some (ms, inn') \<and> paired out' inn'"
  using assms
proof (induction ms arbitrary: out inn rs)
  case Nil
  then show ?case by auto
next
  case (Cons m ms)
  then obtain r o1 rs1 where "send out m = Some (r, o1)" "send_all send o1 ms = Some (rs1, out')" "rs = r # rs1"
    by (auto simp: bind_eq_Some_conv)
  moreover obtain i1 where "receive inn r = Some (m, i1)" "paired o1 i1"
    using delivers [OF Cons.prems(1) _ \<open>send out m = Some (r, o1)\<close>] Cons.prems(2) by auto
  moreover obtain inn' where "send_all receive i1 rs1 = Some (ms, inn')" "paired out' inn'"
    using Cons.IH [OF \<open>paired o1 i1\<close> _ \<open>send_all send o1 ms = Some (rs1, out')\<close>] Cons.prems(2) by auto
  ultimately show ?case by auto
qed

end

text \<open>The record layer with protection on: a message is a content type and a payload.\<close>

definition rl_send :: "u8 \<Rightarrow> u8 \<Rightarrow> halfConn \<times> bytes \<Rightarrow> u8 \<times> bytes \<Rightarrow> (bytes \<times> halfConn \<times> bytes) option" where
  "rl_send v1 v2 = (\<lambda>(hc, rand) (t, payload).
     case hc_encrypt hc ([t, v1, v2] @ lenBytes (int (length payload))) payload rand of
       Some (Inr r, hc, rand) \<Rightarrow> Some (r, hc, rand)
     | _ \<Rightarrow> None)"

definition rl_receive :: "halfConn \<Rightarrow> bytes \<Rightarrow> ((u8 \<times> bytes) \<times> halfConn) option" where
  "rl_receive hc r = (case hc_decrypt hc r of Some (Inr (payload, t), hc) \<Rightarrow> Some ((t, payload), hc) | _ \<Rightarrow> None)"

definition rl_paired :: "halfConn \<times> bytes \<Rightarrow> halfConn \<Rightarrow> bool" where
  "rl_paired = (\<lambda>(out, rand) i. halfConn_pair out i \<and> hc_cipher out \<noteq> None)"

definition rl_valid :: "u8 \<times> bytes \<Rightarrow> bool" where
  "rl_valid = (\<lambda>(t, payload). t \<noteq> 0 \<and> length payload \<le> maxPlaintext)"

interpretation rl: record_channel rl_paired "rl_send v1 v2" rl_receive rl_valid for v1 v2
proof
  fix out :: "halfConn \<times> bytes" and i :: halfConn and m :: "u8 \<times> bytes" and r :: bytes and out' :: "halfConn \<times> bytes"
  assume p: "rl_paired out i" and v: "rl_valid m" and s: "rl_send v1 v2 out m = Some (r, out')"
  obtain hc rand t payload hc' rand' where eq: "out = (hc, rand)" "m = (t, payload)" "out' = (hc', rand')"
    by (metis surj_pair)
  from s eq have enc: "hc_encrypt hc ([t, v1, v2] @ lenBytes (int (length payload))) payload rand = Some (Inr r, hc', rand')"
    by (auto simp: rl_send_def split: option.splits sum.splits)
  from p eq obtain c where "hc_cipher hc = Some c" and hp: "halfConn_pair hc i" by (auto simp: rl_paired_def)
  with v eq show "\<exists>inn'. rl_receive i r = Some (m, inn') \<and> rl_paired out' inn'"
    using encrypt_decrypt_protected [OF hp _ _ _ enc] by (auto simp: rl_valid_def rl_receive_def rl_paired_def)
qed

section \<open>A record is only accepted with its MAC\<close>

lemma hc_openCipher_frame:
  "hc_openCipher hc c r payload = Some (x, hc1) \<Longrightarrow>
     hc_mac hc1 = hc_mac hc \<and> hc_seq hc1 = hc_seq hc \<and> hc_version hc1 = hc_version hc"
  by (auto simp: hc_openCipher_def Let_def bind_eq_Some_conv split_beta split: recordCipher.splits option.splits if_splits)

lemma hc_openRecord_frame:
  assumes "hc_openRecord hc r = Some (x, hc1)"
  shows "hc_mac hc1 = hc_mac hc \<and> hc_seq hc1 = hc_seq hc \<and> hc_version hc1 = hc_version hc"
proof (cases "hc_cipher hc")
  case None
  then show ?thesis using assms by (auto simp: hc_openRecord_def Let_def)
next
  case (Some c)
  with assms obtain y where "hc_openCipher hc c r (drop recordHeaderLen r) = Some (y, hc1)"
    by (auto simp: hc_openRecord_def Let_def split: option.splits sum.splits if_splits)
  then show ?thesis by (rule hc_openCipher_frame)
qed

lemma hc_decrypt_mac:
  assumes "hc_mac hc = Some h" and "hc_version hc \<noteq> VersionTLS13"
    and "hc_decrypt hc r = Some (Inr (plaintext, typ), hc')"
  obtains x payload paddingLen good hc1 where
    "hc_openRecord hc r = Some (Inr (x, typ, payload, paddingLen, good), hc1)"
    and "hc_checkMAC h (hc_seq hc) r payload paddingLen good = Inr plaintext"
    and "hc_incSeq hc1 = Some hc'"
proof -
  from assms(2,3) obtain x payload paddingLen good hc1 where
    opn: "hc_openRecord hc r = Some (Inr (x, typ, payload, paddingLen, good), hc1)"
    and c: "(case hc_mac hc1 of None \<Rightarrow> Inr x
      | Some mac \<Rightarrow> hc_checkMAC mac (hc_seq hc1) r payload paddingLen good) = Inr plaintext"
    and i: "hc_incSeq hc1 = Some hc'"
    by (auto simp: hc_decrypt_def split: option.splits sum.splits if_splits)
  from hc_openRecord_frame [OF opn] c assms(1) have "hc_checkMAC h (hc_seq hc) r payload paddingLen good = Inr plaintext"
    by simp
  with opn i that show ?thesis by blast
qed

lemma hc_openRecord_cipher:
  assumes "hc_cipher hc = Some c" and "hc_version hc \<noteq> VersionTLS13"
    and opn: "hc_openRecord hc r = Some (Inr (x, typ, payload, paddingLen, good), hc1)"
  shows "hc_openCipher hc c r (drop recordHeaderLen r) = Some (Inr (x, payload, paddingLen, good), hc1)"
proof -
  have "hc_version hc1 \<noteq> VersionTLS13" using hc_openRecord_frame [OF opn] assms(2) by simp
  with opn assms(1) show ?thesis
    by (auto simp: hc_openRecord_def Let_def split: option.splits sum.splits if_splits)
qed

lemma hc_openCipher_CBC:
  assumes "hc_openCipher hc (CBC c) r w = Some (Inr (x, payload, paddingLen, good), hc1)"
    and "\<forall>iv w. length (cbc_crypt c iv w) = length w"
  shows "extractPadding payload = (paddingLen, good)" and "length payload \<le> length w"
  using assms
  by (auto simp: hc_openCipher_def Let_def bind_eq_Some_conv split_beta CryptBlocks_def SetIV_def
      split: option.splits if_splits)

section \<open>Properties\<close>

text \<open>
  A toy AEAD (the tag is one zero byte), on which the properties are instantiated, and the two
  ends of a TLS 1.3 direction that use it.
\<close>

definition aead_sample :: cipherAEAD where
  "aead_sample = \<lparr>ca_Overhead = 1, ca_Seal = (\<lambda>nonce p ad. p @ [0]),
     ca_Open = (\<lambda>nonce c ad. if c = [] then None else Some (butlast c))\<rparr>"

definition hc_sample :: halfConn where
  "hc_sample = halfConn_zero\<lparr>hc_version := VersionTLS13,
     hc_cipher := Some (Aead (xorNonceAEAD (replicate 12 3) aead_sample))\<rparr>"

lemma hc_sample_pair: "halfConn_pair hc_sample hc_sample"
  by (simp add: halfConn_pair_def hc_sample_def halfConn_zero_def aead_sample_def cipherAEAD_ok_def uses_mac_def)

lemma hc_sample_encrypt:
  "\<exists>r out'. hc_encrypt hc_sample ([22, 3, 3] @ lenBytes (int (length ([5, 6] :: bytes)))) [5, 6] [] = Some (Inr r, out', [])"
proof -
  have "\<exists>m. xorNonce 0 (replicate 8 0) (replicate 12 3) = Some m"
    by (rule xorNonce_Some_iff) simp
  then obtain m where m: "xorNonce 0 (replicate 8 0) (replicate 12 3) = Some m" by blast
  have "\<exists>hc. hc_incSeq (hc_sample\<lparr>hc_cipher := x\<rparr>) = Some hc" for x
    by (simp add: hc_incSeq_def hc_sample_def halfConn_zero_def numeral_eq_Suc)
  then show ?thesis
    by (simp add: hc_encrypt_def hc_explicitNonce_def hc_explicitNonceLen_def hc_sealCipher_def hc_sample_def
        halfConn_zero_def m xorNonce_restores [OF m] Let_def split: option.splits)
qed

text \<open>A toy CBC mode and MAC, and the receiving end of a TLS 1.0 direction that uses them.\<close>

definition cbc_sample :: cbcMode where
  "cbc_sample = \<lparr>cbc_blockSize = 1, cbc_iv = [0], cbc_crypt = (\<lambda>iv w. w), cbc_next = (\<lambda>iv w. iv)\<rparr>"

definition mac_sample :: macHash where
  "mac_sample = \<lparr>mac_Size = 1, mac_Sum = (\<lambda>w. [7])\<rparr>"

definition cbc_hc_sample :: halfConn where
  "cbc_hc_sample = halfConn_zero\<lparr>hc_version := VersionTLS10, hc_cipher := Some (CBC cbc_sample),
     hc_mac := Some mac_sample\<rparr>"

lemma cbc_sample_decrypt: "\<exists>hc'. hc_decrypt cbc_hc_sample [22, 3, 1, 0, 3, 5, 7, 0] = Some (Inr ([5], 22), hc')"
proof -
  have "extractPadding [5, 7, 0] = (1, 255)"
    using extractPadding_spec [of "[5, 7, 0]"] by (simp add: validPadding_def)
  moreover have "macOffset (Suc (Suc (Suc 0))) (Suc 0) (Suc 0) = Suc 0" by (simp add: macOffset_def drop_bit_eq_div)
  moreover have "\<exists>hc. hc_incSeq (cbc_hc_sample\<lparr>hc_cipher := x\<rparr>) = Some hc" for x
    by (simp add: hc_incSeq_spec cbc_hc_sample_def halfConn_zero_def unbe_replicate_0)
  ultimately show ?thesis
    by (simp add: hc_decrypt_def hc_openRecord_def hc_openCipher_def hc_explicitNonceLen_def cbc_hc_sample_def
        halfConn_zero_def cbc_sample_def mac_sample_def CryptBlocks_def hc_checkMAC_def tls10MAC_def roundUp_def Let_def)
qed

text \<open>
  (C5) Record protection round trip: when the two ends of a direction are paired, a record that
  \<open>encrypt\<close> produces is accepted by \<open>decrypt\<close> at the other end, which returns the same
  payload and content type, and the two ends are paired again. It covers stream ciphers, AEADs
  with explicit and implicit nonces in TLS 1.2 and 1.3, CBC with and without explicit IV, and
  unprotected records; the cipher's own round trip is the only assumption on it.
\<close>

theorem record_protection_roundtrip:
  assumes "halfConn_pair out i" and "length payload \<le> maxPlaintext"
    and "t \<noteq> 0 \<or> hc_version out \<noteq> VersionTLS13" and "unbe (hc_seq i) + 1 < 2 ^ 64"
    and "hc_encrypt out ([t, v1, v2] @ lenBytes (int (length payload))) payload rand = Some (Inr r, out', rand')"
  shows "\<exists>i'. hc_decrypt i r = Some (Inr (payload, t), i') \<and> halfConn_pair out' i'"
proof (cases "hc_cipher out")
  case None
  then show ?thesis using encrypt_decrypt_plain [OF assms(1) _ assms(4,5)] by simp
next
  case (Some c)
  then show ?thesis using encrypt_decrypt_protected [OF assms(1) _ assms(2,3,5)] by blast
qed

theorem record_protection_roundtrip_witness:
  "\<exists>r out' i'. hc_encrypt hc_sample ([22, 3, 3] @ lenBytes (int (length ([5, 6] :: bytes)))) [5, 6] [] = Some (Inr r, out', []) \<and>
     hc_decrypt hc_sample r = Some (Inr ([5, 6], 22), i')"
proof -
  obtain r out' where e: "hc_encrypt hc_sample ([22, 3, 3] @ lenBytes (int (length ([5, 6] :: bytes)))) [5, 6] [] = Some (Inr r, out', [])"
    using hc_sample_encrypt by blast
  have "unbe (hc_seq hc_sample) + 1 < 2 ^ 64" by (simp add: hc_sample_def halfConn_zero_def unbe_replicate_0)
  then show ?thesis using record_protection_roundtrip [OF hc_sample_pair _ _ _ e] e by auto
qed

text \<open>
  In-order delivery: any sequence of records that one end protects one after the other is
  unprotected by the paired other end to the same sequence of content types and payloads.
\<close>

lemma record_stream_delivered:
  assumes "rl_paired (out, rand) i" and "\<forall>m\<in>set ms. rl_valid m"
    and "send_all (rl_send v1 v2) (out, rand) ms = Some (rs, out')"
  shows "\<exists>i'. send_all rl_receive i rs = Some (ms, i')"
  using rl.delivers_all [OF assms] by blast

text \<open>
  (C16) The constant-time padding check computes the padding rule of RFC 2246, Section 6.2.3.2:
  with the last byte \<open>p\<close>, the padding is good when the payload has more than \<open>p\<close> bytes and
  its last \<open>p + 1\<close> bytes all equal \<open>p\<close>; then \<open>p + 1\<close> bytes are removed and the verdict is
  255. Otherwise one byte is removed and the verdict is 0.
\<close>

theorem extractPadding_correct:
  assumes "length payload < 2 ^ 31"
  shows "extractPadding payload =
    (if payload = [] then (0, 0)
     else let p = unat (last payload) in
       if p < length payload \<and> (\<forall>i\<le>p. payload ! (length payload - 1 - i) = last payload)
       then (p + 1, 255) else (1, 0))"
  using extractPadding_spec [OF assms] by (auto simp: validPadding_def Let_def)

lemma all_le_2: "(\<forall>i\<le>2. P i) \<longleftrightarrow> P 0 \<and> P (1::nat) \<and> P 2"
  by (auto simp: numeral_2_eq_2 le_Suc_eq)

theorem extractPadding_correct_witness:
  "extractPadding [9, 2, 2, 2] = (3, 255) \<and> extractPadding [9, 1, 2, 2] = (1, 0)"
  using extractPadding_correct [of "[9, 2, 2, 2]"] extractPadding_correct [of "[9, 1, 2, 2]"]
  by (simp add: Let_def all_le_2)

text \<open>
  The record sequence number counts up by one as a 64-bit big-endian number and never wraps:
  at its last value \<open>incSeq\<close> panics.
\<close>

lemma incSeq_counter:
  assumes "length (hc_seq hc) = 8"
  shows "hc_incSeq hc = (if unbe (hc_seq hc) + 1 < 2 ^ 64
    then Some (hc\<lparr>hc_seq := be 8 (unbe (hc_seq hc) + 1)\<rparr>) else None)"
  by (rule hc_incSeq_spec [OF assms])



end
