(* ===== verification/Suites.thy ===== *)
theory Suites
  imports KeySchedule
begin

text \<open>
  The cipher suites of cipher\_suites.go and their defaults in defaults.go: the tables, the
  preference orders, the look-ups and the selection of a suite. A field that holds one of the
  package's functions (key agreement, cipher, MAC, AEAD constructor) holds the name of that
  function. The lemmas tie the tables to each other and to the priority rules that the code
  documents, and say which suite is selected.
\<close>

section \<open>Cipher suite numbers\<close>

abbreviation TLS_RSA_WITH_RC4_128_SHA :: u16 where "TLS_RSA_WITH_RC4_128_SHA \<equiv> 0x0005"
abbreviation TLS_RSA_WITH_3DES_EDE_CBC_SHA :: u16 where "TLS_RSA_WITH_3DES_EDE_CBC_SHA \<equiv> 0x000a"
abbreviation TLS_RSA_WITH_AES_128_CBC_SHA :: u16 where "TLS_RSA_WITH_AES_128_CBC_SHA \<equiv> 0x002f"
abbreviation TLS_RSA_WITH_AES_256_CBC_SHA :: u16 where "TLS_RSA_WITH_AES_256_CBC_SHA \<equiv> 0x0035"
abbreviation TLS_RSA_WITH_AES_128_CBC_SHA256 :: u16 where "TLS_RSA_WITH_AES_128_CBC_SHA256 \<equiv> 0x003c"
abbreviation TLS_RSA_WITH_AES_128_GCM_SHA256 :: u16 where "TLS_RSA_WITH_AES_128_GCM_SHA256 \<equiv> 0x009c"
abbreviation TLS_RSA_WITH_AES_256_GCM_SHA384 :: u16 where "TLS_RSA_WITH_AES_256_GCM_SHA384 \<equiv> 0x009d"
abbreviation TLS_ECDHE_ECDSA_WITH_RC4_128_SHA :: u16 where "TLS_ECDHE_ECDSA_WITH_RC4_128_SHA \<equiv> 0xc007"
abbreviation TLS_ECDHE_ECDSA_WITH_AES_128_CBC_SHA :: u16 where "TLS_ECDHE_ECDSA_WITH_AES_128_CBC_SHA \<equiv> 0xc009"
abbreviation TLS_ECDHE_ECDSA_WITH_AES_256_CBC_SHA :: u16 where "TLS_ECDHE_ECDSA_WITH_AES_256_CBC_SHA \<equiv> 0xc00a"
abbreviation TLS_ECDHE_RSA_WITH_RC4_128_SHA :: u16 where "TLS_ECDHE_RSA_WITH_RC4_128_SHA \<equiv> 0xc011"
abbreviation TLS_ECDHE_RSA_WITH_3DES_EDE_CBC_SHA :: u16 where "TLS_ECDHE_RSA_WITH_3DES_EDE_CBC_SHA \<equiv> 0xc012"
abbreviation TLS_ECDHE_RSA_WITH_AES_128_CBC_SHA :: u16 where "TLS_ECDHE_RSA_WITH_AES_128_CBC_SHA \<equiv> 0xc013"
abbreviation TLS_ECDHE_RSA_WITH_AES_256_CBC_SHA :: u16 where "TLS_ECDHE_RSA_WITH_AES_256_CBC_SHA \<equiv> 0xc014"
abbreviation TLS_ECDHE_ECDSA_WITH_AES_128_CBC_SHA256 :: u16 where "TLS_ECDHE_ECDSA_WITH_AES_128_CBC_SHA256 \<equiv> 0xc023"
abbreviation TLS_ECDHE_RSA_WITH_AES_128_CBC_SHA256 :: u16 where "TLS_ECDHE_RSA_WITH_AES_128_CBC_SHA256 \<equiv> 0xc027"
abbreviation TLS_ECDHE_RSA_WITH_AES_128_GCM_SHA256 :: u16 where "TLS_ECDHE_RSA_WITH_AES_128_GCM_SHA256 \<equiv> 0xc02f"
abbreviation TLS_ECDHE_ECDSA_WITH_AES_128_GCM_SHA256 :: u16 where "TLS_ECDHE_ECDSA_WITH_AES_128_GCM_SHA256 \<equiv> 0xc02b"
abbreviation TLS_ECDHE_RSA_WITH_AES_256_GCM_SHA384 :: u16 where "TLS_ECDHE_RSA_WITH_AES_256_GCM_SHA384 \<equiv> 0xc030"
abbreviation TLS_ECDHE_ECDSA_WITH_AES_256_GCM_SHA384 :: u16 where "TLS_ECDHE_ECDSA_WITH_AES_256_GCM_SHA384 \<equiv> 0xc02c"
abbreviation TLS_ECDHE_RSA_WITH_CHACHA20_POLY1305_SHA256 :: u16 where "TLS_ECDHE_RSA_WITH_CHACHA20_POLY1305_SHA256 \<equiv> 0xcca8"
abbreviation TLS_ECDHE_ECDSA_WITH_CHACHA20_POLY1305_SHA256 :: u16 where "TLS_ECDHE_ECDSA_WITH_CHACHA20_POLY1305_SHA256 \<equiv> 0xcca9"
abbreviation TLS_AES_128_GCM_SHA256 :: u16 where "TLS_AES_128_GCM_SHA256 \<equiv> 0x1301"
abbreviation TLS_AES_256_GCM_SHA384 :: u16 where "TLS_AES_256_GCM_SHA384 \<equiv> 0x1302"
abbreviation TLS_CHACHA20_POLY1305_SHA256 :: u16 where "TLS_CHACHA20_POLY1305_SHA256 \<equiv> 0x1303"
abbreviation TLS_FALLBACK_SCSV :: u16 where "TLS_FALLBACK_SCSV \<equiv> 0x5600"

section \<open>TLS 1.0 to 1.2 suites\<close>

abbreviation suiteECDHE :: nat where "suiteECDHE \<equiv> 1"
abbreviation suiteECSign :: nat where "suiteECSign \<equiv> 2"
abbreviation suiteTLS12 :: nat where "suiteTLS12 \<equiv> 4"
abbreviation suiteSHA384 :: nat where "suiteSHA384 \<equiv> 8"

datatype kaFn = rsaKA | ecdheECDSAKA | ecdheRSAKA
datatype cipherFn = cipherRC4 | cipher3DES | cipherAES
datatype macFn = macSHA1 | macSHA256
datatype aeadFn = AeadChaCha20Poly1305 | AeadAESGCM

record cipherSuite =
  cs_id :: u16
  cs_keyLen :: nat
  cs_macLen :: nat
  cs_ivLen :: nat
  cs_ka :: kaFn
  cs_flags :: nat
  cs_cipher :: "cipherFn option"
  cs_mac :: "macFn option"
  cs_aead :: "aeadFn option"

text \<open>One row of the table, in the order of the struct's fields.\<close>

definition suite_row :: "u16 \<Rightarrow> nat \<Rightarrow> nat \<Rightarrow> nat \<Rightarrow> kaFn \<Rightarrow> nat \<Rightarrow> cipherFn option \<Rightarrow>
    macFn option \<Rightarrow> aeadFn option \<Rightarrow> cipherSuite" where
  "suite_row i kl ml il ka fl ci ma ae = \<lparr>cs_id = i, cs_keyLen = kl, cs_macLen = ml, cs_ivLen = il,
     cs_ka = ka, cs_flags = fl, cs_cipher = ci, cs_mac = ma, cs_aead = ae\<rparr>"

definition cipherSuites :: "cipherSuite list" where
  "cipherSuites = [
     suite_row TLS_ECDHE_RSA_WITH_CHACHA20_POLY1305_SHA256 32 0 12 ecdheRSAKA (suiteECDHE + suiteTLS12) None None (Some AeadChaCha20Poly1305),
     suite_row TLS_ECDHE_ECDSA_WITH_CHACHA20_POLY1305_SHA256 32 0 12 ecdheECDSAKA (suiteECDHE + suiteECSign + suiteTLS12) None None (Some AeadChaCha20Poly1305),
     suite_row TLS_ECDHE_RSA_WITH_AES_128_GCM_SHA256 16 0 4 ecdheRSAKA (suiteECDHE + suiteTLS12) None None (Some AeadAESGCM),
     suite_row TLS_ECDHE_ECDSA_WITH_AES_128_GCM_SHA256 16 0 4 ecdheECDSAKA (suiteECDHE + suiteECSign + suiteTLS12) None None (Some AeadAESGCM),
     suite_row TLS_ECDHE_RSA_WITH_AES_256_GCM_SHA384 32 0 4 ecdheRSAKA (suiteECDHE + suiteTLS12 + suiteSHA384) None None (Some AeadAESGCM),
     suite_row TLS_ECDHE_ECDSA_WITH_AES_256_GCM_SHA384 32 0 4 ecdheECDSAKA (suiteECDHE + suiteECSign + suiteTLS12 + suiteSHA384) None None (Some AeadAESGCM),
     suite_row TLS_ECDHE_RSA_WITH_AES_128_CBC_SHA256 16 32 16 ecdheRSAKA (suiteECDHE + suiteTLS12) (Some cipherAES) (Some macSHA256) None,
     suite_row TLS_ECDHE_RSA_WITH_AES_128_CBC_SHA 16 20 16 ecdheRSAKA (suiteECDHE) (Some cipherAES) (Some macSHA1) None,
     suite_row TLS_ECDHE_ECDSA_WITH_AES_128_CBC_SHA256 16 32 16 ecdheECDSAKA (suiteECDHE + suiteECSign + suiteTLS12) (Some cipherAES) (Some macSHA256) None,
     suite_row TLS_ECDHE_ECDSA_WITH_AES_128_CBC_SHA 16 20 16 ecdheECDSAKA (suiteECDHE + suiteECSign) (Some cipherAES) (Some macSHA1) None,
     suite_row TLS_ECDHE_RSA_WITH_AES_256_CBC_SHA 32 20 16 ecdheRSAKA (suiteECDHE) (Some cipherAES) (Some macSHA1) None,
     suite_row TLS_ECDHE_ECDSA_WITH_AES_256_CBC_SHA 32 20 16 ecdheECDSAKA (suiteECDHE + suiteECSign) (Some cipherAES) (Some macSHA1) None,
     suite_row TLS_RSA_WITH_AES_128_GCM_SHA256 16 0 4 rsaKA (suiteTLS12) None None (Some AeadAESGCM),
     suite_row TLS_RSA_WITH_AES_256_GCM_SHA384 32 0 4 rsaKA (suiteTLS12 + suiteSHA384) None None (Some AeadAESGCM),
     suite_row TLS_RSA_WITH_AES_128_CBC_SHA256 16 32 16 rsaKA (suiteTLS12) (Some cipherAES) (Some macSHA256) None,
     suite_row TLS_RSA_WITH_AES_128_CBC_SHA 16 20 16 rsaKA (0) (Some cipherAES) (Some macSHA1) None,
     suite_row TLS_RSA_WITH_AES_256_CBC_SHA 32 20 16 rsaKA (0) (Some cipherAES) (Some macSHA1) None,
     suite_row TLS_ECDHE_RSA_WITH_3DES_EDE_CBC_SHA 24 20 8 ecdheRSAKA (suiteECDHE) (Some cipher3DES) (Some macSHA1) None,
     suite_row TLS_RSA_WITH_3DES_EDE_CBC_SHA 24 20 8 rsaKA (0) (Some cipher3DES) (Some macSHA1) None,
     suite_row TLS_RSA_WITH_RC4_128_SHA 16 20 0 rsaKA (0) (Some cipherRC4) (Some macSHA1) None,
     suite_row TLS_ECDHE_RSA_WITH_RC4_128_SHA 16 20 0 ecdheRSAKA (suiteECDHE) (Some cipherRC4) (Some macSHA1) None,
     suite_row TLS_ECDHE_ECDSA_WITH_RC4_128_SHA 16 20 0 ecdheECDSAKA (suiteECDHE + suiteECSign) (Some cipherRC4) (Some macSHA1) None]"

definition cipherSuiteByID :: "u16 \<Rightarrow> cipherSuite option" where
  "cipherSuiteByID i = find (\<lambda>cipherSuite. cs_id cipherSuite = i) cipherSuites"

fun mutualCipherSuite :: "u16 list \<Rightarrow> u16 \<Rightarrow> cipherSuite option" where
  "mutualCipherSuite [] want = None"
| "mutualCipherSuite (i # have) want =
     (if i = want then cipherSuiteByID i else mutualCipherSuite have want)"

fun selectCipherSuite :: "u16 list \<Rightarrow> u16 list \<Rightarrow> (cipherSuite \<Rightarrow> bool) \<Rightarrow> cipherSuite option" where
  "selectCipherSuite [] supportedIDs ok = None"
| "selectCipherSuite (i # ids) supportedIDs ok =
     (case cipherSuiteByID i of
        None \<Rightarrow> selectCipherSuite ids supportedIDs ok
      | Some candidate \<Rightarrow>
          if \<not> ok candidate then selectCipherSuite ids supportedIDs ok
          else if i \<in> set supportedIDs then Some candidate
          else selectCipherSuite ids supportedIDs ok)"

section \<open>TLS 1.3 suites\<close>

text \<open>
  The table is over the two AEAD constructors and the two hash functions that it names, which
  are crypto packages.
\<close>

record suiteParams =
  sp_aeadAESGCMTLS13 :: "bytes \<Rightarrow> bytes \<Rightarrow> aead option"
  sp_aeadChaCha20Poly1305 :: "bytes \<Rightarrow> bytes \<Rightarrow> aead option"
  sp_SHA256 :: hashFn
  sp_SHA384 :: hashFn

definition cipherSuitesTLS13 :: "suiteParams \<Rightarrow> cipherSuiteTLS13 list" where
  "cipherSuitesTLS13 P = [
     \<lparr>cs13_id = TLS_AES_128_GCM_SHA256, cs13_keyLen = 16, cs13_aead = sp_aeadAESGCMTLS13 P, cs13_hash = sp_SHA256 P\<rparr>,
     \<lparr>cs13_id = TLS_CHACHA20_POLY1305_SHA256, cs13_keyLen = 32, cs13_aead = sp_aeadChaCha20Poly1305 P, cs13_hash = sp_SHA256 P\<rparr>,
     \<lparr>cs13_id = TLS_AES_256_GCM_SHA384, cs13_keyLen = 32, cs13_aead = sp_aeadAESGCMTLS13 P, cs13_hash = sp_SHA384 P\<rparr>]"

definition cipherSuiteTLS13ByID :: "suiteParams \<Rightarrow> u16 \<Rightarrow> cipherSuiteTLS13 option" where
  "cipherSuiteTLS13ByID P i = find (\<lambda>cipherSuite. cs13_id cipherSuite = i) (cipherSuitesTLS13 P)"

fun mutualCipherSuiteTLS13 :: "suiteParams \<Rightarrow> u16 list \<Rightarrow> u16 \<Rightarrow> cipherSuiteTLS13 option" where
  "mutualCipherSuiteTLS13 P [] want = None"
| "mutualCipherSuiteTLS13 P (i # have) want =
     (if i = want then cipherSuiteTLS13ByID P i else mutualCipherSuiteTLS13 P have want)"

section \<open>Preference orders and defaults\<close>

definition cipherSuitesPreferenceOrder :: "u16 list" where
  "cipherSuitesPreferenceOrder = [
     TLS_ECDHE_ECDSA_WITH_AES_128_GCM_SHA256,
     TLS_ECDHE_RSA_WITH_AES_128_GCM_SHA256,
     TLS_ECDHE_ECDSA_WITH_AES_256_GCM_SHA384,
     TLS_ECDHE_RSA_WITH_AES_256_GCM_SHA384,
     TLS_ECDHE_ECDSA_WITH_CHACHA20_POLY1305_SHA256,
     TLS_ECDHE_RSA_WITH_CHACHA20_POLY1305_SHA256,
     TLS_ECDHE_ECDSA_WITH_AES_128_CBC_SHA,
     TLS_ECDHE_RSA_WITH_AES_128_CBC_SHA,
     TLS_ECDHE_ECDSA_WITH_AES_256_CBC_SHA,
     TLS_ECDHE_RSA_WITH_AES_256_CBC_SHA,
     TLS_RSA_WITH_AES_128_GCM_SHA256,
     TLS_RSA_WITH_AES_256_GCM_SHA384,
     TLS_RSA_WITH_AES_128_CBC_SHA,
     TLS_RSA_WITH_AES_256_CBC_SHA,
     TLS_ECDHE_RSA_WITH_3DES_EDE_CBC_SHA,
     TLS_RSA_WITH_3DES_EDE_CBC_SHA,
     TLS_ECDHE_ECDSA_WITH_AES_128_CBC_SHA256,
     TLS_ECDHE_RSA_WITH_AES_128_CBC_SHA256,
     TLS_RSA_WITH_AES_128_CBC_SHA256,
     TLS_ECDHE_ECDSA_WITH_RC4_128_SHA,
     TLS_ECDHE_RSA_WITH_RC4_128_SHA,
     TLS_RSA_WITH_RC4_128_SHA]"

definition cipherSuitesPreferenceOrderNoAES :: "u16 list" where
  "cipherSuitesPreferenceOrderNoAES = [
     TLS_ECDHE_ECDSA_WITH_CHACHA20_POLY1305_SHA256,
     TLS_ECDHE_RSA_WITH_CHACHA20_POLY1305_SHA256,
     TLS_ECDHE_ECDSA_WITH_AES_128_GCM_SHA256,
     TLS_ECDHE_RSA_WITH_AES_128_GCM_SHA256,
     TLS_ECDHE_ECDSA_WITH_AES_256_GCM_SHA384,
     TLS_ECDHE_RSA_WITH_AES_256_GCM_SHA384,
     TLS_ECDHE_ECDSA_WITH_AES_128_CBC_SHA,
     TLS_ECDHE_RSA_WITH_AES_128_CBC_SHA,
     TLS_ECDHE_ECDSA_WITH_AES_256_CBC_SHA,
     TLS_ECDHE_RSA_WITH_AES_256_CBC_SHA,
     TLS_RSA_WITH_AES_128_GCM_SHA256,
     TLS_RSA_WITH_AES_256_GCM_SHA384,
     TLS_RSA_WITH_AES_128_CBC_SHA,
     TLS_RSA_WITH_AES_256_CBC_SHA,
     TLS_ECDHE_RSA_WITH_3DES_EDE_CBC_SHA,
     TLS_RSA_WITH_3DES_EDE_CBC_SHA,
     TLS_ECDHE_ECDSA_WITH_AES_128_CBC_SHA256,
     TLS_ECDHE_RSA_WITH_AES_128_CBC_SHA256,
     TLS_RSA_WITH_AES_128_CBC_SHA256,
     TLS_ECDHE_ECDSA_WITH_RC4_128_SHA,
     TLS_ECDHE_RSA_WITH_RC4_128_SHA,
     TLS_RSA_WITH_RC4_128_SHA]"

definition disabledCipherSuites :: "u16 \<Rightarrow> bool" where
  "disabledCipherSuites c \<longleftrightarrow> c \<in> set [
     TLS_ECDHE_ECDSA_WITH_AES_128_CBC_SHA256,
     TLS_ECDHE_RSA_WITH_AES_128_CBC_SHA256,
     TLS_RSA_WITH_AES_128_CBC_SHA256,
     TLS_ECDHE_ECDSA_WITH_RC4_128_SHA,
     TLS_ECDHE_RSA_WITH_RC4_128_SHA,
     TLS_RSA_WITH_RC4_128_SHA]"

definition rsaKexCiphers :: "u16 \<Rightarrow> bool" where
  "rsaKexCiphers c \<longleftrightarrow> c \<in> set [
     TLS_RSA_WITH_RC4_128_SHA,
     TLS_RSA_WITH_3DES_EDE_CBC_SHA,
     TLS_RSA_WITH_AES_128_CBC_SHA,
     TLS_RSA_WITH_AES_256_CBC_SHA,
     TLS_RSA_WITH_AES_128_CBC_SHA256,
     TLS_RSA_WITH_AES_128_GCM_SHA256,
     TLS_RSA_WITH_AES_256_GCM_SHA384]"

definition tdesCiphers :: "u16 \<Rightarrow> bool" where
  "tdesCiphers c \<longleftrightarrow> c \<in> set [
     TLS_ECDHE_RSA_WITH_3DES_EDE_CBC_SHA,
     TLS_RSA_WITH_3DES_EDE_CBC_SHA]"

definition aesgcmCiphers :: "u16 \<Rightarrow> bool" where
  "aesgcmCiphers c \<longleftrightarrow> c \<in> set [
     TLS_ECDHE_RSA_WITH_AES_128_GCM_SHA256,
     TLS_ECDHE_RSA_WITH_AES_256_GCM_SHA384,
     TLS_ECDHE_ECDSA_WITH_AES_128_GCM_SHA256,
     TLS_ECDHE_ECDSA_WITH_AES_256_GCM_SHA384,
     TLS_AES_128_GCM_SHA256,
     TLS_AES_256_GCM_SHA384]"

definition hasAESGCMHardwareSupport :: bool where
  "hasAESGCMHardwareSupport = True"

definition isAESGCMPreferred :: "suiteParams \<Rightarrow> u16 list \<Rightarrow> bool" where
  "isAESGCMPreferred P ciphers =
     (if \<not> hasAESGCMHardwareSupport then False
      else case find (\<lambda>cID. cipherSuiteByID cID \<noteq> None \<or> cipherSuiteTLS13ByID P cID \<noteq> None) ciphers of
             None \<Rightarrow> False
           | Some cID \<Rightarrow> aesgcmCiphers cID)"

definition supportedCipherSuites :: "bool \<Rightarrow> u16 list" where
  "supportedCipherSuites aesGCMPreferred =
     (if aesGCMPreferred then cipherSuitesPreferenceOrder else cipherSuitesPreferenceOrderNoAES)"

definition defaultCipherSuites :: "bool \<Rightarrow> u16 list" where
  "defaultCipherSuites aesGCMPreferred =
     filter (\<lambda>c. \<not> (disabledCipherSuites c \<or> rsaKexCiphers c \<or> tdesCiphers c))
       (supportedCipherSuites aesGCMPreferred)"

definition defaultCipherSuitesTLS13 :: "u16 list" where
  "defaultCipherSuitesTLS13 = [
     TLS_AES_128_GCM_SHA256,
     TLS_AES_256_GCM_SHA384,
     TLS_CHACHA20_POLY1305_SHA256]"

definition defaultCipherSuitesTLS13NoAES :: "u16 list" where
  "defaultCipherSuitesTLS13NoAES = [
     TLS_CHACHA20_POLY1305_SHA256,
     TLS_AES_128_GCM_SHA256,
     TLS_AES_256_GCM_SHA384]"

section \<open>The exported lists\<close>

record CipherSuite =
  CS_ID :: u16
  CS_Name :: string
  CS_SupportedVersions :: "u16 list"
  CS_Insecure :: bool

definition supportedUpToTLS12 :: "u16 list" where
  "supportedUpToTLS12 = [VersionTLS10, VersionTLS11, VersionTLS12]"

definition supportedOnlyTLS12 :: "u16 list" where
  "supportedOnlyTLS12 = [VersionTLS12]"

definition supportedOnlyTLS13 :: "u16 list" where
  "supportedOnlyTLS13 = [VersionTLS13]"

definition export_row :: "u16 \<Rightarrow> string \<Rightarrow> u16 list \<Rightarrow> bool \<Rightarrow> CipherSuite" where
  "export_row i n vs ins = \<lparr>CS_ID = i, CS_Name = n, CS_SupportedVersions = vs, CS_Insecure = ins\<rparr>"

definition CipherSuites :: "CipherSuite list" where
  "CipherSuites = [
     export_row TLS_AES_128_GCM_SHA256 ''TLS_AES_128_GCM_SHA256'' supportedOnlyTLS13 False,
     export_row TLS_AES_256_GCM_SHA384 ''TLS_AES_256_GCM_SHA384'' supportedOnlyTLS13 False,
     export_row TLS_CHACHA20_POLY1305_SHA256 ''TLS_CHACHA20_POLY1305_SHA256'' supportedOnlyTLS13 False,
     export_row TLS_ECDHE_ECDSA_WITH_AES_128_CBC_SHA ''TLS_ECDHE_ECDSA_WITH_AES_128_CBC_SHA'' supportedUpToTLS12 False,
     export_row TLS_ECDHE_ECDSA_WITH_AES_256_CBC_SHA ''TLS_ECDHE_ECDSA_WITH_AES_256_CBC_SHA'' supportedUpToTLS12 False,
     export_row TLS_ECDHE_RSA_WITH_AES_128_CBC_SHA ''TLS_ECDHE_RSA_WITH_AES_128_CBC_SHA'' supportedUpToTLS12 False,
     export_row TLS_ECDHE_RSA_WITH_AES_256_CBC_SHA ''TLS_ECDHE_RSA_WITH_AES_256_CBC_SHA'' supportedUpToTLS12 False,
     export_row TLS_ECDHE_ECDSA_WITH_AES_128_GCM_SHA256 ''TLS_ECDHE_ECDSA_WITH_AES_128_GCM_SHA256'' supportedOnlyTLS12 False,
     export_row TLS_ECDHE_ECDSA_WITH_AES_256_GCM_SHA384 ''TLS_ECDHE_ECDSA_WITH_AES_256_GCM_SHA384'' supportedOnlyTLS12 False,
     export_row TLS_ECDHE_RSA_WITH_AES_128_GCM_SHA256 ''TLS_ECDHE_RSA_WITH_AES_128_GCM_SHA256'' supportedOnlyTLS12 False,
     export_row TLS_ECDHE_RSA_WITH_AES_256_GCM_SHA384 ''TLS_ECDHE_RSA_WITH_AES_256_GCM_SHA384'' supportedOnlyTLS12 False,
     export_row TLS_ECDHE_RSA_WITH_CHACHA20_POLY1305_SHA256 ''TLS_ECDHE_RSA_WITH_CHACHA20_POLY1305_SHA256'' supportedOnlyTLS12 False,
     export_row TLS_ECDHE_ECDSA_WITH_CHACHA20_POLY1305_SHA256 ''TLS_ECDHE_ECDSA_WITH_CHACHA20_POLY1305_SHA256'' supportedOnlyTLS12 False]"

definition InsecureCipherSuites :: "CipherSuite list" where
  "InsecureCipherSuites = [
     export_row TLS_RSA_WITH_RC4_128_SHA ''TLS_RSA_WITH_RC4_128_SHA'' supportedUpToTLS12 True,
     export_row TLS_RSA_WITH_3DES_EDE_CBC_SHA ''TLS_RSA_WITH_3DES_EDE_CBC_SHA'' supportedUpToTLS12 True,
     export_row TLS_RSA_WITH_AES_128_CBC_SHA ''TLS_RSA_WITH_AES_128_CBC_SHA'' supportedUpToTLS12 True,
     export_row TLS_RSA_WITH_AES_256_CBC_SHA ''TLS_RSA_WITH_AES_256_CBC_SHA'' supportedUpToTLS12 True,
     export_row TLS_RSA_WITH_AES_128_CBC_SHA256 ''TLS_RSA_WITH_AES_128_CBC_SHA256'' supportedOnlyTLS12 True,
     export_row TLS_RSA_WITH_AES_128_GCM_SHA256 ''TLS_RSA_WITH_AES_128_GCM_SHA256'' supportedOnlyTLS12 True,
     export_row TLS_RSA_WITH_AES_256_GCM_SHA384 ''TLS_RSA_WITH_AES_256_GCM_SHA384'' supportedOnlyTLS12 True,
     export_row TLS_ECDHE_ECDSA_WITH_RC4_128_SHA ''TLS_ECDHE_ECDSA_WITH_RC4_128_SHA'' supportedUpToTLS12 True,
     export_row TLS_ECDHE_RSA_WITH_RC4_128_SHA ''TLS_ECDHE_RSA_WITH_RC4_128_SHA'' supportedUpToTLS12 True,
     export_row TLS_ECDHE_RSA_WITH_3DES_EDE_CBC_SHA ''TLS_ECDHE_RSA_WITH_3DES_EDE_CBC_SHA'' supportedUpToTLS12 True,
     export_row TLS_ECDHE_ECDSA_WITH_AES_128_CBC_SHA256 ''TLS_ECDHE_ECDSA_WITH_AES_128_CBC_SHA256'' supportedOnlyTLS12 True,
     export_row TLS_ECDHE_RSA_WITH_AES_128_CBC_SHA256 ''TLS_ECDHE_RSA_WITH_AES_128_CBC_SHA256'' supportedOnlyTLS12 True]"

definition hexDigit :: "nat \<Rightarrow> char" where
  "hexDigit n = ''0123456789ABCDEF'' ! n"

text \<open>\<open>fmt.Sprintf("0x%04X", id)\<close>.\<close>

definition hex4 :: "u16 \<Rightarrow> string" where
  "hex4 w = ''0x'' @ map (\<lambda>i. hexDigit (unat w div 16 ^ i mod 16)) [3, 2, 1, 0]"

definition CipherSuiteName :: "u16 \<Rightarrow> string" where
  "CipherSuiteName i =
     (case find (\<lambda>c. CS_ID c = i) CipherSuites of
        Some c \<Rightarrow> CS_Name c
      | None \<Rightarrow> (case find (\<lambda>c. CS_ID c = i) InsecureCipherSuites of
          Some c \<Rightarrow> CS_Name c
        | None \<Rightarrow> hex4 i))"

definition VersionName :: "u16 \<Rightarrow> string" where
  "VersionName version =
     (if version = VersionSSL30 then ''SSLv3''
      else if version = VersionTLS10 then ''TLS 1.0''
      else if version = VersionTLS11 then ''TLS 1.1''
      else if version = VersionTLS12 then ''TLS 1.2''
      else if version = VersionTLS13 then ''TLS 1.3''
      else hex4 version)"

section \<open>The documented priority rules\<close>

text \<open>
  The rules of the comment on \<open>cipherSuitesPreferenceOrder\<close> as one number, the most important
  rule in the highest bit: RC4 last, then CBC\_SHA256, then 3DES; ECDHE first, AEADs before
  CBC, AES before ChaCha20 (or after it, without AES hardware), AES-128 before AES-256, ECDSA
  before RSA.
\<close>

definition rule_bit :: "nat \<Rightarrow> bool \<Rightarrow> nat" where
  "rule_bit n late = (if late then 2 ^ n else 0)"

definition suite_priority :: "bool \<Rightarrow> cipherSuite \<Rightarrow> nat" where
  "suite_priority aesFirst c =
     rule_bit 7 (cs_cipher c = Some cipherRC4) +
     rule_bit 6 (cs_mac c = Some macSHA256) +
     rule_bit 5 (cs_cipher c = Some cipher3DES) +
     rule_bit 4 (cs_ka c = rsaKA) +
     rule_bit 3 (cs_aead c = None) +
     rule_bit 2 (cs_aead c = Some (if aesFirst then AeadChaCha20Poly1305 else AeadAESGCM)) +
     rule_bit 1 (cs_keyLen c = 32) +
     rule_bit 0 (cs_ka c \<noteq> ecdheECDSAKA)"

definition id_priority :: "bool \<Rightarrow> u16 \<Rightarrow> nat option" where
  "id_priority aesFirst i = map_option (suite_priority aesFirst) (cipherSuiteByID i)"

lemma distinct_cipherSuites: "distinct (map cs_id cipherSuites)"
  by (simp add: cipherSuites_def suite_row_def)

lemma cipherSuiteByID_iff: "cipherSuiteByID i = Some c \<longleftrightarrow> c \<in> set cipherSuites \<and> cs_id c = i"
proof -
  have "find (\<lambda>c. cs_id c = i) cs = Some c \<longleftrightarrow> c \<in> set cs \<and> cs_id c = i" if "distinct (map cs_id cs)" for cs
    using that by (induction cs) auto
  then show ?thesis using distinct_cipherSuites by (simp add: cipherSuiteByID_def)
qed

lemma order_AES_sorted: "sorted_wrt (<) (map (\<lambda>i. the (id_priority True i)) cipherSuitesPreferenceOrder)"
  by code_simp

lemma order_NoAES_sorted: "sorted_wrt (<) (map (\<lambda>i. the (id_priority False i)) cipherSuitesPreferenceOrderNoAES)"
  by code_simp

lemma order_AES_complete: "set cipherSuitesPreferenceOrder = cs_id ` set cipherSuites"
  by (simp add: cipherSuitesPreferenceOrder_def cipherSuites_def suite_row_def) blast

lemma order_NoAES_complete: "set cipherSuitesPreferenceOrderNoAES = cs_id ` set cipherSuites"
  by (simp add: cipherSuitesPreferenceOrderNoAES_def cipherSuites_def suite_row_def) blast

section \<open>Defaults and the exported lists\<close>

definition implemented :: "CipherSuite \<Rightarrow> bool" where
  "implemented c =
     (case cipherSuiteByID (CS_ID c) of
        Some s \<Rightarrow> CS_SupportedVersions c =
          (if cs_flags s div suiteTLS12 mod 2 = 1 then supportedOnlyTLS12 else supportedUpToTLS12)
      | None \<Rightarrow> CS_ID c \<in> set defaultCipherSuitesTLS13 \<and> CS_SupportedVersions c = supportedOnlyTLS13)"

lemma exported_implemented: "list_all implemented (CipherSuites @ InsecureCipherSuites)"
  by code_simp

lemma implemented_exported:
  "list_all (\<lambda>i. i \<in> set (map CS_ID (CipherSuites @ InsecureCipherSuites)))
     (map cs_id cipherSuites @ defaultCipherSuitesTLS13)"
  by code_simp

lemma defaults_are_secure:
  "set (defaultCipherSuites a) = CS_ID ` {c \<in> set CipherSuites. VersionTLS12 \<in> set (CS_SupportedVersions c)}"
proof -
  have "set (defaultCipherSuites a) = set (map CS_ID (filter (\<lambda>c. VersionTLS12 \<in> set (CS_SupportedVersions c)) CipherSuites))"
    by (cases a; simp only:; code_simp)
  then show ?thesis by simp
qed

section \<open>Selection\<close>

definition acceptable :: "u16 list \<Rightarrow> (cipherSuite \<Rightarrow> bool) \<Rightarrow> u16 \<Rightarrow> bool" where
  "acceptable supportedIDs ok i \<longleftrightarrow> i \<in> set supportedIDs \<and> (\<exists>c. cipherSuiteByID i = Some c \<and> ok c)"

lemma selectCipherSuite_find:
  "selectCipherSuite ids supportedIDs ok = Option.bind (find (acceptable supportedIDs ok) ids) cipherSuiteByID"
  by (induction ids) (auto simp: acceptable_def split: option.splits)

section \<open>Properties\<close>

text \<open>
  The two preference tables are the documented priority rules: they list every implemented
  TLS 1.0 to 1.2 suite, in strictly increasing order of the rules of the comment (so the rules
  leave no choice of order).
\<close>

lemma preference_orders_follow_rules:
  "sorted_wrt (<) (map (\<lambda>i. the (id_priority True i)) cipherSuitesPreferenceOrder) \<and>
   sorted_wrt (<) (map (\<lambda>i. the (id_priority False i)) cipherSuitesPreferenceOrderNoAES) \<and>
   set cipherSuitesPreferenceOrder = cs_id ` set cipherSuites \<and>
   set cipherSuitesPreferenceOrderNoAES = cs_id ` set cipherSuites"
  using order_AES_sorted order_NoAES_sorted order_AES_complete order_NoAES_complete by blast

text \<open>
  Default suites: with or without AES preference, the suites enabled by default are exactly the
  TLS 1.2 suites of the list \<open>CipherSuites\<close> of suites without security issues, each of them uses
  ECDHE and neither RC4, 3DES nor a CBC\_SHA256 MAC.
\<close>

lemma default_suites_secure:
  "set (defaultCipherSuites a) = CS_ID ` {c \<in> set CipherSuites. VersionTLS12 \<in> set (CS_SupportedVersions c)} \<and>
   list_all (\<lambda>i. case cipherSuiteByID i of None \<Rightarrow> False
     | Some s \<Rightarrow> cs_ka s \<noteq> rsaKA \<and> cs_cipher s \<noteq> Some cipherRC4 \<and> cs_cipher s \<noteq> Some cipher3DES \<and>
         cs_mac s \<noteq> Some macSHA256) (defaultCipherSuites a)"
proof
  show "set (defaultCipherSuites a) = CS_ID ` {c \<in> set CipherSuites. VersionTLS12 \<in> set (CS_SupportedVersions c)}"
    by (rule defaults_are_secure)
  show "list_all (\<lambda>i. case cipherSuiteByID i of None \<Rightarrow> False
     | Some s \<Rightarrow> cs_ka s \<noteq> rsaKA \<and> cs_cipher s \<noteq> Some cipherRC4 \<and> cs_cipher s \<noteq> Some cipher3DES \<and>
         cs_mac s \<noteq> Some macSHA256) (defaultCipherSuites a)"
    by (cases a; simp only:; code_simp)
qed

text \<open>
  Suite selection: \<open>selectCipherSuite\<close> returns the suite of the first identifier that is
  implemented, passes the filter and is supported by the peer, and nothing when there is none.
\<close>

lemma selectCipherSuite_first:
  "selectCipherSuite ids supportedIDs ok = Some c \<longleftrightarrow>
     (\<exists>k<length ids. cipherSuiteByID (ids ! k) = Some c \<and> ok c \<and> ids ! k \<in> set supportedIDs \<and>
        (\<forall>j<k. \<not> acceptable supportedIDs ok (ids ! j)))"
proof -
  have "find (acceptable supportedIDs ok) ids = Some i \<longleftrightarrow>
      (\<exists>k<length ids. acceptable supportedIDs ok (ids ! k) \<and> i = ids ! k \<and>
        (\<forall>j<k. \<not> acceptable supportedIDs ok (ids ! j)))" for i
    by (rule find_Some_iff)
  then show ?thesis
    unfolding selectCipherSuite_find bind_eq_Some_conv by (auto simp: acceptable_def)
qed

end
