(* ===== verification/Prf.thy ===== *)
theory Prf
  imports Suites
begin

text \<open>
  The key derivation of TLS 1.0 to 1.2 (prf.go): the P\_hash expansion and the pseudo-random
  functions on it, the master secret and the connection keys, the Finished hash of the
  handshake messages, and the exporter of RFC 5705. The hash functions are a parameter. The
  lemmas show that the expansion loop ends and computes P\_hash as RFC 5246 defines it, and
  what the derived values are.
\<close>

section \<open>The pseudo-random functions\<close>

text \<open>The \<open>crypto.Hash\<close> values that the package uses; \<open>Hash0\<close> is \<open>crypto.Hash(0)\<close>.\<close>

datatype cryptoHash = Hash0 | MD5SHA1 | SHA1 | SHA256 | SHA384 | SHA512

record prfHashes =
  ph_MD5 :: hashFn
  ph_SHA1 :: hashFn
  ph_SHA256 :: hashFn
  ph_SHA384 :: hashFn

text \<open>\<open>None\<close> is a call that does not return (or panics).\<close>

type_synonym prfFunc = "bytes \<Rightarrow> string \<Rightarrow> bytes \<Rightarrow> nat \<Rightarrow> bytes option"

definition splitPreMasterSecret :: "bytes \<Rightarrow> bytes \<times> bytes" where
  "splitPreMasterSecret secret = (take ((length secret + 1) div 2) secret, drop (length secret div 2) secret)"

partial_function (option) pHash_loop ::
    "hashFn \<Rightarrow> bytes \<Rightarrow> bytes \<Rightarrow> bytes \<Rightarrow> nat \<Rightarrow> bytes \<Rightarrow> bytes option" where
  "pHash_loop h secret seed result j a =
     (if j < length result
      then let b = h_hmac h secret (a @ seed);
               result = copy_at j result b
           in pHash_loop h secret seed result (j + length b) (h_hmac h secret a)
      else Some result)"

definition pHash :: "bytes \<Rightarrow> bytes \<Rightarrow> bytes \<Rightarrow> hashFn \<Rightarrow> bytes option" where
  "pHash result secret seed h = pHash_loop h secret seed result 0 (h_hmac h secret seed)"

definition prf10 :: "prfHashes \<Rightarrow> prfFunc" where
  "prf10 H secret label seed keyLen =
     (let labelAndSeed = ascii label @ seed;
          (s1, s2) = splitPreMasterSecret secret
      in do {
        result \<leftarrow> pHash (replicate keyLen 0) s1 labelAndSeed (ph_MD5 H);
        result2 \<leftarrow> pHash (replicate (length result) 0) s2 labelAndSeed (ph_SHA1 H);
        Some (map2 xor result result2)
      })"

definition prf12 :: "hashFn \<Rightarrow> prfFunc" where
  "prf12 h secret label seed keyLen = pHash (replicate keyLen 0) secret (ascii label @ seed) h"

abbreviation masterSecretLength :: nat where "masterSecretLength \<equiv> 48"
abbreviation finishedVerifyLength :: nat where "finishedVerifyLength \<equiv> 12"
abbreviation masterSecretLabel :: string where "masterSecretLabel \<equiv> ''master secret''"
abbreviation extendedMasterSecretLabel :: string where "extendedMasterSecretLabel \<equiv> ''extended master secret''"
abbreviation keyExpansionLabel :: string where "keyExpansionLabel \<equiv> ''key expansion''"
abbreviation clientFinishedLabel :: string where "clientFinishedLabel \<equiv> ''client finished''"
abbreviation serverFinishedLabel :: string where "serverFinishedLabel \<equiv> ''server finished''"

definition prfAndHashForVersion :: "prfHashes \<Rightarrow> u16 \<Rightarrow> cipherSuite \<Rightarrow> (prfFunc \<times> cryptoHash) option" where
  "prfAndHashForVersion H version suite =
     (if version = VersionTLS10 \<or> version = VersionTLS11 then Some (prf10 H, Hash0)
      else if version = VersionTLS12 then
        if and (cs_flags suite) suiteSHA384 \<noteq> 0 then Some (prf12 (ph_SHA384 H), SHA384)
        else Some (prf12 (ph_SHA256 H), SHA256)
      else None)"

definition prfForVersion :: "prfHashes \<Rightarrow> u16 \<Rightarrow> cipherSuite \<Rightarrow> prfFunc option" where
  "prfForVersion H version suite = map_option fst (prfAndHashForVersion H version suite)"

section \<open>Master secret and connection keys\<close>

definition masterFromPreMasterSecret :: "prfHashes \<Rightarrow> u16 \<Rightarrow> cipherSuite \<Rightarrow> bytes \<Rightarrow> bytes \<Rightarrow> bytes \<Rightarrow> bytes option" where
  "masterFromPreMasterSecret H version suite preMasterSecret clientRandom serverRandom = do {
     let seed = clientRandom @ serverRandom;
     prf \<leftarrow> prfForVersion H version suite;
     prf preMasterSecret masterSecretLabel seed masterSecretLength
   }"

definition extMasterFromPreMasterSecret :: "prfHashes \<Rightarrow> u16 \<Rightarrow> cipherSuite \<Rightarrow> bytes \<Rightarrow> bytes \<Rightarrow> bytes option" where
  "extMasterFromPreMasterSecret H version suite preMasterSecret transcript = do {
     prf \<leftarrow> prfForVersion H version suite;
     prf preMasterSecret extendedMasterSecretLabel transcript masterSecretLength
   }"

record connectionKeys =
  ck_clientMAC :: bytes
  ck_serverMAC :: bytes
  ck_clientKey :: bytes
  ck_serverKey :: bytes
  ck_clientIV :: bytes
  ck_serverIV :: bytes

definition keysFromMasterSecret ::
    "prfHashes \<Rightarrow> u16 \<Rightarrow> cipherSuite \<Rightarrow> bytes \<Rightarrow> bytes \<Rightarrow> bytes \<Rightarrow> nat \<Rightarrow> nat \<Rightarrow> nat \<Rightarrow> connectionKeys option" where
  "keysFromMasterSecret H version suite masterSecret clientRandom serverRandom macLen keyLen ivLen = do {
     let seed = serverRandom @ clientRandom;
     let n = 2 * macLen + 2 * keyLen + 2 * ivLen;
     prf \<leftarrow> prfForVersion H version suite;
     keyMaterial \<leftarrow> prf masterSecret keyExpansionLabel seed n;
     (clientMAC, keyMaterial) \<leftarrow> split_at macLen keyMaterial;
     (serverMAC, keyMaterial) \<leftarrow> split_at macLen keyMaterial;
     (clientKey, keyMaterial) \<leftarrow> split_at keyLen keyMaterial;
     (serverKey, keyMaterial) \<leftarrow> split_at keyLen keyMaterial;
     (clientIV, keyMaterial) \<leftarrow> split_at ivLen keyMaterial;
     (serverIV, keyMaterial) \<leftarrow> split_at ivLen keyMaterial;
     Some \<lparr>ck_clientMAC = clientMAC, ck_serverMAC = serverMAC, ck_clientKey = clientKey,
       ck_serverKey = serverKey, ck_clientIV = clientIV, ck_serverIV = serverIV\<rparr>
   }"

section \<open>The Finished hash\<close>

record finishedHash =
  fh_client :: hashState
  fh_server :: hashState
  fh_clientMD5 :: "hashState option"
  fh_serverMD5 :: "hashState option"
  fh_buffer :: "bytes option"
  fh_version :: u16
  fh_prf :: prfFunc

text \<open>\<open>hash.New()\<close> of the two hashes that \<open>prfAndHashForVersion\<close> returns.\<close>

definition cryptoHash_New :: "prfHashes \<Rightarrow> cryptoHash \<Rightarrow> hashState" where
  "cryptoHash_New H h = hs_new (if h = SHA384 then ph_SHA384 H else ph_SHA256 H)"

definition newFinishedHash :: "prfHashes \<Rightarrow> u16 \<Rightarrow> cipherSuite \<Rightarrow> finishedHash option" where
  "newFinishedHash H version suite = do {
     let buffer = (if version \<ge> VersionTLS12 then Some [] else None);
     (prf, hash) \<leftarrow> prfAndHashForVersion H version suite;
     Some (if hash \<noteq> Hash0
       then \<lparr>fh_client = cryptoHash_New H hash, fh_server = cryptoHash_New H hash, fh_clientMD5 = None,
              fh_serverMD5 = None, fh_buffer = buffer, fh_version = version, fh_prf = prf\<rparr>
       else \<lparr>fh_client = hs_new (ph_SHA1 H), fh_server = hs_new (ph_SHA1 H), fh_clientMD5 = Some (hs_new (ph_MD5 H)),
              fh_serverMD5 = Some (hs_new (ph_MD5 H)), fh_buffer = buffer, fh_version = version, fh_prf = prf\<rparr>)
   }"

text \<open>\<open>None\<close> is the nil dereference of a missing MD5 hash.\<close>

definition fh_Write :: "finishedHash \<Rightarrow> bytes \<Rightarrow> finishedHash option" where
  "fh_Write h msg = do {
     let h = h\<lparr>fh_client := hs_Write (fh_client h) msg, fh_server := hs_Write (fh_server h) msg\<rparr>;
     h \<leftarrow> (if fh_version h < VersionTLS12
            then case (fh_clientMD5 h, fh_serverMD5 h) of
                   (Some c, Some s) \<Rightarrow> Some (h\<lparr>fh_clientMD5 := Some (hs_Write c msg), fh_serverMD5 := Some (hs_Write s msg)\<rparr>)
                 | _ \<Rightarrow> None
            else Some h);
     Some (h\<lparr>fh_buffer := map_option (\<lambda>b. b @ msg) (fh_buffer h)\<rparr>)
   }"

definition fh_Sum :: "finishedHash \<Rightarrow> bytes option" where
  "fh_Sum h =
     (if fh_version h \<ge> VersionTLS12 then Some (hs_Sum (fh_client h))
      else map_option (\<lambda>md5. hs_Sum md5 @ hs_Sum (fh_client h)) (fh_clientMD5 h))"

definition fh_clientSum :: "finishedHash \<Rightarrow> bytes \<Rightarrow> bytes option" where
  "fh_clientSum h masterSecret = do {
     sum \<leftarrow> fh_Sum h;
     fh_prf h masterSecret clientFinishedLabel sum finishedVerifyLength
   }"

definition fh_serverSum :: "finishedHash \<Rightarrow> bytes \<Rightarrow> bytes option" where
  "fh_serverSum h masterSecret = do {
     sum \<leftarrow> fh_Sum h;
     fh_prf h masterSecret serverFinishedLabel sum finishedVerifyLength
   }"

abbreviation signaturePKCS1v15 :: u8 where "signaturePKCS1v15 \<equiv> 225"
abbreviation signatureRSAPSS :: u8 where "signatureRSAPSS \<equiv> 226"
abbreviation signatureECDSA :: u8 where "signatureECDSA \<equiv> 227"
abbreviation signatureEd25519 :: u8 where "signatureEd25519 \<equiv> 228"

definition fh_hashForClientCertificate :: "finishedHash \<Rightarrow> u8 \<Rightarrow> bytes option" where
  "fh_hashForClientCertificate h sigType =
     (if sigType = signatureECDSA then Some (hs_Sum (fh_server h)) else fh_Sum h)"

definition fh_discardHandshakeBuffer :: "finishedHash \<Rightarrow> finishedHash" where
  "fh_discardHandshakeBuffer h = h\<lparr>fh_buffer := None\<rparr>"

section \<open>Exported keying material\<close>

definition noEKMBecauseRenegotiation :: "string \<Rightarrow> bytes option \<Rightarrow> nat \<Rightarrow> bytes res option" where
  "noEKMBecauseRenegotiation label ctx len =
     Some (Inl (ErrorsNew ''crypto/tls: ExportKeyingMaterial is unavailable when renegotiation is enabled''))"

definition noEKMBecauseNoEMS :: "string \<Rightarrow> bytes option \<Rightarrow> nat \<Rightarrow> bytes res option" where
  "noEKMBecauseNoEMS label ctx len =
     Some (Inl (ErrorsNew ''crypto/tls: ExportKeyingMaterial is unavailable when neither TLS 1.3 nor Extended Master Secret are negotiated; override with GODEBUG=tlsunsafeekm=1''))"

text \<open>The seed: both randoms, and the context behind its length when there is one.\<close>

definition ekm_seed :: "bytes \<Rightarrow> bytes \<Rightarrow> bytes option \<Rightarrow> bytes" where
  "ekm_seed clientRandom serverRandom ctx =
     clientRandom @ serverRandom @
     (case ctx of None \<Rightarrow> []
      | Some context \<Rightarrow> [word_of_nat (length context div 256), word_of_nat (length context)] @ context)"

definition ekmFromMasterSecret ::
    "prfHashes \<Rightarrow> u16 \<Rightarrow> cipherSuite \<Rightarrow> bytes \<Rightarrow> bytes \<Rightarrow> bytes \<Rightarrow> string \<Rightarrow> bytes option \<Rightarrow> nat \<Rightarrow> bytes res option" where
  "ekmFromMasterSecret H version suite masterSecret clientRandom serverRandom label ctx len =
     (if label \<in> {''client finished'', ''server finished'', ''master secret'', ''key expansion''}
      then Some (Inl (ErrorsNew (''crypto/tls: reserved ExportKeyingMaterial label: '' @ label)))
      else if (case ctx of None \<Rightarrow> False | Some context \<Rightarrow> length context \<ge> 2 ^ 16)
      then Some (Inl (ErrorsNew ''crypto/tls: ExportKeyingMaterial context too long''))
      else do {
        prf \<leftarrow> prfForVersion H version suite;
        out \<leftarrow> prf masterSecret label (ekm_seed clientRandom serverRandom ctx) len;
        Some (Inr out)
      })"

section \<open>The expansion loop computes P\_hash\<close>

text \<open>\<open>A(i)\<close> and the blocks of \<open>P_hash\<close> as RFC 5246, Section 5 defines them.\<close>

fun P_hash_A :: "hashFn \<Rightarrow> bytes \<Rightarrow> bytes \<Rightarrow> nat \<Rightarrow> bytes" where
  "P_hash_A h secret seed 0 = seed"
| "P_hash_A h secret seed (Suc i) = h_hmac h secret (P_hash_A h secret seed i)"

definition P_hash_block :: "hashFn \<Rightarrow> bytes \<Rightarrow> bytes \<Rightarrow> nat \<Rightarrow> bytes" where
  "P_hash_block h secret seed i = h_hmac h secret (P_hash_A h secret seed (Suc i) @ seed)"

text \<open>The first \<open>n\<close> bytes; \<open>n\<close> blocks are enough, as no block is empty.\<close>

definition P_hash :: "hashFn \<Rightarrow> bytes \<Rightarrow> bytes \<Rightarrow> nat \<Rightarrow> bytes" where
  "P_hash h secret seed n = take n (concat (map (P_hash_block h secret seed) [0..<n]))"

lemma length_concat_ge:
  "(\<And>i. 0 < length (B i)) \<Longrightarrow> k \<le> length (concat (map B [a..<a + k]))"
proof (induction k)
  case (Suc k)
  then have "k \<le> length (concat (map B [a..<a + k]))" by blast
  moreover have "0 < length (B (a + k))" by (rule Suc.prems)
  ultimately show ?case by (simp del: length_greater_0_conv)
qed simp

lemma take_concat_enough:
  assumes "\<And>i. 0 < length (B i)" and "n \<le> k"
  shows "take n (concat (map B [a..<a + k])) = take n (concat (map B [a..<a + n]))"
proof -
  from assms(2) have "[a..<a + k] = [a..<a + n] @ [a + n..<a + k]"
    by (metis le_add1 le_add_diff_inverse add_le_cancel_left upt_add_eq_append add.assoc)
  moreover have "n \<le> length (concat (map B [a..<a + n]))" by (rule length_concat_ge [OF assms(1)])
  ultimately show ?thesis by simp
qed

lemma take_copy_at:
  "j < length r \<Longrightarrow> take (j + length b) (copy_at j r b) = take j r @ take (length r - j) b"
  by (auto simp: copy_at_def min_def)

lemma pHash_loop_spec:
  fixes h secret seed
  defines "B \<equiv> P_hash_block h secret seed"
  assumes ok: "hashFn_ok h"
  shows "pHash_loop h secret seed r j (P_hash_A h secret seed (Suc i)) =
    Some (take j r @ take (length r - j) (concat (map B [i..<i + (length r - j)])))"
proof (induction "length r - j" arbitrary: r j i rule: less_induct)
  case less
  have pos: "0 < length (B k)" for k using ok by (simp add: B_def P_hash_block_def)
  show ?case
  proof (cases "j < length r")
    case False
    then show ?thesis by (simp add: pHash_loop.simps)
  next
    case True
    let ?n = "length r - j" and ?S = "length (B i)"
    have "pHash_loop h secret seed r j (P_hash_A h secret seed (Suc i)) =
        pHash_loop h secret seed (copy_at j r (B i)) (j + ?S) (P_hash_A h secret seed (Suc (Suc i)))"
      using True by (subst pHash_loop.simps) (simp add: B_def P_hash_block_def Let_def)
    also have "\<dots> = Some (take (j + ?S) (copy_at j r (B i)) @
        take (?n - ?S) (concat (map B [Suc i..<Suc i + (?n - ?S)])))"
    proof -
      have eq: "length (copy_at j r (B i)) - (j + ?S) = ?n - ?S" by simp
      have "length (copy_at j r (B i)) - (j + ?S) < ?n" using True pos [of i] by (simp del: length_greater_0_conv)
      from less [OF this, of "Suc i"] show ?thesis unfolding eq .
    qed
    also have "take (?n - ?S) (concat (map B [Suc i..<Suc i + (?n - ?S)])) =
        take (?n - ?S) (concat (map B [Suc i..<Suc i + (?n - 1)]))"
    proof (rule take_concat_enough [symmetric, OF pos])
      show "?n - ?S \<le> ?n - 1" using pos [of i] by linarith
    qed
    also have "take (j + ?S) (copy_at j r (B i)) = take j r @ take ?n (B i)"
      by (rule take_copy_at [OF True])
    finally have loop: "pHash_loop h secret seed r j (P_hash_A h secret seed (Suc i)) =
        Some ((take j r @ take ?n (B i)) @ take (?n - ?S) (concat (map B [Suc i..<Suc i + (?n - 1)])))" .
    have eq: "Suc i + (?n - 1) = i + ?n" and le: "i < i + ?n" using True by simp_all
    show ?thesis unfolding loop eq upt_conv_Cons [OF le] by simp
  qed
qed

lemma pHash_spec: "hashFn_ok h \<Longrightarrow> pHash r secret seed h = Some (P_hash h secret seed (length r))"
  using pHash_loop_spec [of h secret seed r 0 0] by (simp add: pHash_def P_hash_def)

lemma length_P_hash: "hashFn_ok h \<Longrightarrow> length (P_hash h secret seed n) = n"
  using length_concat_ge [of "P_hash_block h secret seed" n 0] by (simp add: P_hash_def P_hash_block_def)

definition prfHashes_ok :: "prfHashes \<Rightarrow> bool" where
  "prfHashes_ok H \<longleftrightarrow> hashFn_ok (ph_MD5 H) \<and> hashFn_ok (ph_SHA1 H) \<and> hashFn_ok (ph_SHA256 H) \<and> hashFn_ok (ph_SHA384 H)"

text \<open>The pseudo-random function of each version, as the RFCs define it.\<close>

definition PRF :: "prfHashes \<Rightarrow> u16 \<Rightarrow> cipherSuite \<Rightarrow> bytes \<Rightarrow> string \<Rightarrow> bytes \<Rightarrow> nat \<Rightarrow> bytes" where
  "PRF H version suite secret label seed n =
     (if version = VersionTLS12
      then P_hash (if and (cs_flags suite) suiteSHA384 \<noteq> 0 then ph_SHA384 H else ph_SHA256 H) secret (ascii label @ seed) n
      else let L = length secret; half = (L + 1) div 2
           in map2 xor (P_hash (ph_MD5 H) (take half secret) (ascii label @ seed) n)
                (P_hash (ph_SHA1 H) (drop (L - half) secret) (ascii label @ seed) n))"

abbreviation pre13 :: "u16 \<Rightarrow> bool" where
  "pre13 version \<equiv> version \<in> {VersionTLS10, VersionTLS11, VersionTLS12}"

lemma length_PRF: "prfHashes_ok H \<Longrightarrow> length (PRF H version suite secret label seed n) = n"
  by (simp add: PRF_def prfHashes_ok_def length_P_hash Let_def)

lemma prf10_spec:
  assumes "prfHashes_ok H" and "version \<noteq> VersionTLS12"
  shows "prf10 H secret label seed n = Some (PRF H version suite secret label seed n)"
proof -
  have "length secret - (length secret + 1) div 2 = length secret div 2" by arith
  with assms show ?thesis
    by (simp add: prf10_def PRF_def splitPreMasterSecret_def pHash_spec prfHashes_ok_def length_P_hash Let_def)
qed

lemma prfForVersion_spec:
  assumes "prfHashes_ok H" and "pre13 version"
  shows "\<exists>prf. prfForVersion H version suite = Some prf \<and>
    (\<forall>secret label seed n. prf secret label seed n = Some (PRF H version suite secret label seed n))"
  using assms
  by (auto simp: prfForVersion_def prfAndHashForVersion_def prf10_spec prf12_def pHash_spec prfHashes_ok_def)
    (simp_all add: PRF_def)

lemma append_of_length:
  assumes "length w = a + b"
  obtains x y where "w = x @ y" and "length x = a" and "length y = b"
  using that [of "take a w" "drop a w"] assms by simp

lemma keysFromMasterSecret_spec:
  assumes "prfHashes_ok H" and "pre13 version"
  shows "\<exists>k. keysFromMasterSecret H version suite ms cr sr macLen keyLen ivLen = Some k \<and>
    length (ck_clientMAC k) = macLen \<and> length (ck_serverMAC k) = macLen \<and>
    length (ck_clientKey k) = keyLen \<and> length (ck_serverKey k) = keyLen \<and>
    length (ck_clientIV k) = ivLen \<and> length (ck_serverIV k) = ivLen \<and>
    ck_clientMAC k @ ck_serverMAC k @ ck_clientKey k @ ck_serverKey k @ ck_clientIV k @ ck_serverIV k =
      PRF H version suite ms keyExpansionLabel (sr @ cr) (2 * macLen + 2 * keyLen + 2 * ivLen)"
proof -
  let ?n = "2 * macLen + 2 * keyLen + 2 * ivLen"
  define m where "m = PRF H version suite ms keyExpansionLabel (sr @ cr) ?n"
  have len: "length m = ?n" using length_PRF [OF assms(1)] by (simp add: m_def)
  obtain f where "prfForVersion H version suite = Some f" "f ms keyExpansionLabel (sr @ cr) ?n = Some m"
    using prfForVersion_spec [OF assms, of suite] unfolding m_def by blast
  moreover obtain cm sm ck sk ci si where "m = cm @ sm @ ck @ sk @ ci @ si"
    "length cm = macLen" "length sm = macLen" "length ck = keyLen" "length sk = keyLen" "length ci = ivLen" "length si = ivLen"
    using len unfolding mult_2 add.assoc by (elim append_of_length) blast
  ultimately show ?thesis
    unfolding m_def [symmetric] by (auto simp: keysFromMasterSecret_def Let_def split_at_def)
qed

section \<open>The Finished hash is the hash of the messages\<close>

text \<open>Writing a list of messages one after the other.\<close>

fun fh_WriteAll :: "finishedHash \<Rightarrow> bytes list \<Rightarrow> finishedHash option" where
  "fh_WriteAll h [] = Some h"
| "fh_WriteAll h (msg # msgs) = Option.bind (fh_Write h msg) (\<lambda>h. fh_WriteAll h msgs)"

text \<open>What \<open>finishedHash\<close> holds when the messages written to it are \<open>w\<close> in a row.\<close>

definition fh_holds :: "prfHashes \<Rightarrow> u16 \<Rightarrow> cipherSuite \<Rightarrow> bytes \<Rightarrow> finishedHash \<Rightarrow> bool" where
  "fh_holds H version suite w h \<longleftrightarrow>
     (let hash = (if version \<noteq> VersionTLS12 then ph_SHA1 H
          else if and (cs_flags suite) suiteSHA384 \<noteq> 0 then ph_SHA384 H else ph_SHA256 H);
          md5 = (if version = VersionTLS12 then None else Some \<lparr>hs_fn = ph_MD5 H, hs_written = w\<rparr>)
      in h = \<lparr>fh_client = \<lparr>hs_fn = hash, hs_written = w\<rparr>, fh_server = \<lparr>hs_fn = hash, hs_written = w\<rparr>,
           fh_clientMD5 = md5, fh_serverMD5 = md5,
           fh_buffer = (if version = VersionTLS12 then Some w else None),
           fh_version = version, fh_prf = the (prfForVersion H version suite)\<rparr>)"

lemma newFinishedHash_holds:
  "pre13 version \<Longrightarrow> \<exists>h. newFinishedHash H version suite = Some h \<and> fh_holds H version suite [] h"
  by (auto simp: newFinishedHash_def prfAndHashForVersion_def fh_holds_def cryptoHash_New_def hs_new_def
      prfForVersion_def)

lemma fh_Write_holds:
  assumes "pre13 version" and "fh_holds H version suite w h"
  shows "\<exists>h'. fh_Write h msg = Some h' \<and> fh_holds H version suite (w @ msg) h'"
  using assms by (auto simp: fh_Write_def fh_holds_def hs_Write_def Let_def)

lemma fh_WriteAll_holds:
  assumes "pre13 version"
  shows "fh_holds H version suite w h \<Longrightarrow>
    \<exists>h'. fh_WriteAll h msgs = Some h' \<and> fh_holds H version suite (w @ concat msgs) h'"
proof (induction msgs arbitrary: w h)
  case (Cons msg msgs)
  obtain h1 where "fh_Write h msg = Some h1" "fh_holds H version suite (w @ msg) h1"
    using fh_Write_holds [OF assms Cons.prems] by blast
  with Cons.IH [of "w @ msg" h1] show ?case by simp
qed simp

lemma fh_Sum_holds:
  assumes "pre13 version" and "fh_holds H version suite w h"
  shows "fh_Sum h = Some (if version \<noteq> VersionTLS12 then h_Sum (ph_MD5 H) w @ h_Sum (ph_SHA1 H) w
     else h_Sum (if and (cs_flags suite) suiteSHA384 \<noteq> 0 then ph_SHA384 H else ph_SHA256 H) w)"
  using assms by (auto simp: fh_Sum_def fh_holds_def hs_Sum_def Let_def)

section \<open>The exporter's seed\<close>

lemma ekm_seed_inj:
  assumes "ekm_seed cr sr ctx = ekm_seed cr sr ctx'"
  shows "ctx = ctx'"
  using assms by (auto simp: ekm_seed_def split: option.splits)

section \<open>Properties\<close>

lemma hash_sample_hashFn: "hashFn_ok hash_sample"
  using hash_sample_ok by (simp add: schedule_hash_def)

text \<open>
  The expansion loop \<open>pHash\<close> ends and fills its buffer with the first bytes of P\_hash as
  RFC 5246, Section 5 defines it, for every hash function of positive output length.
\<close>

lemma pHash_computes_P_hash:
  assumes "hashFn_ok h"
  shows "pHash result secret seed h = Some (P_hash h secret seed (length result)) \<and>
    length (P_hash h secret seed (length result)) = length result"
  using pHash_spec [OF assms] length_P_hash [OF assms] by blast

text \<open>
  (C22) Connection keys of TLS 1.0 to 1.2: for every version and suite \<open>keysFromMasterSecret\<close> returns
  six keys of the lengths asked for that are, in order and with nothing left over, the key block
  PRF(master secret, "key expansion", server random + client random).
\<close>

theorem connection_keys_partition:
  assumes "prfHashes_ok H" and "pre13 version"
  shows "\<exists>k. keysFromMasterSecret H version suite ms cr sr macLen keyLen ivLen = Some k \<and>
    length (ck_clientMAC k) = macLen \<and> length (ck_serverMAC k) = macLen \<and>
    length (ck_clientKey k) = keyLen \<and> length (ck_serverKey k) = keyLen \<and>
    length (ck_clientIV k) = ivLen \<and> length (ck_serverIV k) = ivLen \<and>
    ck_clientMAC k @ ck_serverMAC k @ ck_clientKey k @ ck_serverKey k @ ck_clientIV k @ ck_serverIV k =
      PRF H version suite ms keyExpansionLabel (sr @ cr) (2 * macLen + 2 * keyLen + 2 * ivLen)"
  by (rule keysFromMasterSecret_spec [OF assms])

definition prfHashes_sample :: prfHashes where
  "prfHashes_sample = \<lparr>ph_MD5 = hash_sample, ph_SHA1 = hash_sample, ph_SHA256 = hash_sample, ph_SHA384 = hash_sample\<rparr>"

theorem connection_keys_partition_witness:
  "\<exists>k. keysFromMasterSecret prfHashes_sample VersionTLS11 (cipherSuites ! 7) [1, 2] [3] [4] 20 16 16 = Some k \<and>
     length (ck_clientMAC k) = 20 \<and> length (ck_serverIV k) = 16"
  using connection_keys_partition [of prfHashes_sample VersionTLS11 "cipherSuites ! 7" "[1, 2]" "[3]" "[4]" 20 16 16]
  by (auto simp: prfHashes_sample_def prfHashes_ok_def hash_sample_hashFn)

text \<open>
  Finished: after any sequence of handshake messages the Finished values of client and server
  are the PRF of the master secret under their own label over the hash of all the messages in a
  row (MD5 and SHA-1 before TLS 1.2), and TLS 1.2 has buffered exactly those messages.
\<close>

lemma finished_hash_of_transcript:
  assumes "prfHashes_ok H" and "pre13 version" and "newFinishedHash H version suite = Some h0"
    and "fh_WriteAll h0 msgs = Some h"
    and "d = (if version \<noteq> VersionTLS12 then h_Sum (ph_MD5 H) (concat msgs) @ h_Sum (ph_SHA1 H) (concat msgs)
       else h_Sum (if and (cs_flags suite) suiteSHA384 \<noteq> 0 then ph_SHA384 H else ph_SHA256 H) (concat msgs))"
  shows "fh_clientSum h ms = Some (PRF H version suite ms clientFinishedLabel d 12) \<and>
    fh_serverSum h ms = Some (PRF H version suite ms serverFinishedLabel d 12) \<and>
    fh_buffer h = (if version = VersionTLS12 then Some (concat msgs) else None)"
proof -
  have "fh_holds H version suite [] h0" using newFinishedHash_holds [OF assms(2), of H suite] assms(3) by simp
  with fh_WriteAll_holds [OF assms(2) this, of msgs] assms(4) have holds: "fh_holds H version suite (concat msgs) h" by simp
  have "fh_Sum h = Some d" unfolding assms(5) by (rule fh_Sum_holds [OF assms(2) holds])
  moreover have "fh_prf h secret label seed n = Some (PRF H version suite secret label seed n)" for secret label seed n
    using prfForVersion_spec [OF assms(1,2), of suite] holds by (auto simp: fh_holds_def Let_def)
  ultimately show ?thesis using holds by (simp add: fh_clientSum_def fh_serverSum_def fh_holds_def Let_def)
qed

text \<open>
  The exporter of TLS 1.0 to 1.2: the four labels of the handshake itself and contexts of 64 KiB
  or more are refused; otherwise the result is the PRF of the master secret over a seed that
  determines the context, an absent context being different from an empty one.
\<close>

lemma exporter_separates_contexts:
  assumes "prfHashes_ok H" and "pre13 version"
  shows "ekmFromMasterSecret H version suite ms cr sr label ctx n =
      (if label \<in> {''client finished'', ''server finished'', ''master secret'', ''key expansion''}
       then Some (Inl (ErrorsNew (''crypto/tls: reserved ExportKeyingMaterial label: '' @ label)))
       else if \<exists>c. ctx = Some c \<and> 2 ^ 16 \<le> length c
       then Some (Inl (ErrorsNew ''crypto/tls: ExportKeyingMaterial context too long''))
       else Some (Inr (PRF H version suite ms label (ekm_seed cr sr ctx) n))) \<and>
    (ekm_seed cr sr ctx = ekm_seed cr sr ctx' \<longleftrightarrow> ctx = ctx')"
proof -
  obtain f where "prfForVersion H version suite = Some f"
    "\<And>secret label seed n. f secret label seed n = Some (PRF H version suite secret label seed n)"
    using prfForVersion_spec [OF assms, of suite] by blast
  then show ?thesis
    using ekm_seed_inj [of cr sr ctx ctx'] by (auto simp: ekmFromMasterSecret_def split: option.splits)
qed

end
