(* ===== verification/Negotiate.thy ===== *)
theory Negotiate
  imports Prf
begin

text \<open>
  The configuration of common.go and what is computed from it: the enabled cipher suites, protocol
  versions and key exchanges with the choice of a common version, the signature algorithms, and
  the session ticket keys with their automatic rotation. The policy lists of fips\_allowlists.go
  and the switch \<open>fips140tlsRequired\<close> of defaults.go are kept as the code has them. \<open>Config\<close> has the
  fields these operations use; \<open>Rand\<close> is the list of the bytes that it will deliver, and the clock is
  an argument in nanoseconds. A nil \<open>Config\<close> is \<open>None\<close>, and a result \<open>None\<close> of an operation that may
  fail is a run-time panic.
\<close>

section \<open>Configuration\<close>

record ticketKey =
  tk_aesKey :: bytes
  tk_hmacKey :: bytes
  tk_created :: int

datatype RenegotiationSupport = RenegotiateNever | RenegotiateOnceAsClient | RenegotiateFreelyAsClient | RenegotiateOther

datatype ClientAuthType = NoClientCert | RequestClientCert | RequireAnyClientCert | VerifyClientCertIfGiven |
  RequireAndVerifyClientCert

fun requiresClientCert :: "ClientAuthType \<Rightarrow> bool" where
  "requiresClientCert RequireAnyClientCert = True"
| "requiresClientCert RequireAndVerifyClientCert = True"
| "requiresClientCert _ = False"

record Config =
  cfg_Rand :: bytes
  cfg_NextProtos :: "bytes list"
  cfg_ServerName :: string
  cfg_ClientAuth :: ClientAuthType
  cfg_InsecureSkipVerify :: bool
  cfg_CipherSuites :: "u16 list option"
  cfg_SessionTicketsDisabled :: bool
  cfg_SessionTicketKey :: bytes
  cfg_MinVersion :: u16
  cfg_MaxVersion :: u16
  cfg_CurvePreferences :: "u16 list"
  cfg_DynamicRecordSizingDisabled :: bool
  cfg_Renegotiation :: RenegotiationSupport
  cfg_EncryptedClientHelloConfigList :: "bytes option"
  cfg_sessionTicketKeys :: "ticketKey list"
  cfg_autoSessionTicketKeys :: "ticketKey list"

definition emptyConfig :: Config where
  "emptyConfig = \<lparr>cfg_Rand = [], cfg_NextProtos = [], cfg_ServerName = [], cfg_ClientAuth = NoClientCert,
     cfg_InsecureSkipVerify = False, cfg_CipherSuites = None, cfg_SessionTicketsDisabled = False,
     cfg_SessionTicketKey = replicate 32 0, cfg_MinVersion = 0, cfg_MaxVersion = 0, cfg_CurvePreferences = [],
     cfg_DynamicRecordSizingDisabled = False, cfg_Renegotiation = RenegotiateNever,
     cfg_EncryptedClientHelloConfigList = None, cfg_sessionTicketKeys = [], cfg_autoSessionTicketKeys = []\<rparr>"

section \<open>Policy lists\<close>

definition fips140tlsRequired :: bool where
  "fips140tlsRequired = False"

definition allowedSupportedVersionsFIPS :: "u16 list" where
  "allowedSupportedVersionsFIPS = [VersionTLS12, VersionTLS13]"

definition allowedCurvePreferencesFIPS :: "u16 list" where
  "allowedCurvePreferencesFIPS =
     [X25519MLKEM768, SecP256r1MLKEM768, SecP384r1MLKEM1024, CurveP256, CurveP384, CurveP521]"

definition allowedCipherSuitesFIPS :: "u16 list" where
  "allowedCipherSuitesFIPS = [
     TLS_ECDHE_RSA_WITH_AES_128_GCM_SHA256,
     TLS_ECDHE_RSA_WITH_AES_256_GCM_SHA384,
     TLS_ECDHE_ECDSA_WITH_AES_128_GCM_SHA256,
     TLS_ECDHE_ECDSA_WITH_AES_256_GCM_SHA384,
     TLS_ECDHE_ECDSA_WITH_AES_128_CBC_SHA256,
     TLS_ECDHE_RSA_WITH_AES_128_CBC_SHA256]"

definition allowedCipherSuitesTLS13FIPS :: "u16 list" where
  "allowedCipherSuitesTLS13FIPS = [TLS_AES_128_GCM_SHA256, TLS_AES_256_GCM_SHA384]"

text \<open>\<open>slices.DeleteFunc(l, func(x) bool { return !slices.Contains(keep, x) })\<close>.\<close>

definition keepOnly :: "'a list \<Rightarrow> 'a list \<Rightarrow> 'a list" where
  "keepOnly keep l = filter (\<lambda>x. \<not> \<not> List.member keep x) l"

lemma set_keepOnly [simp]: "set (keepOnly keep l) = set l \<inter> set keep"
  by (auto simp: keepOnly_def)

section \<open>Suites, versions and key exchanges\<close>

definition Config_cipherSuites :: "Config \<Rightarrow> bool \<Rightarrow> u16 list" where
  "Config_cipherSuites c aesGCMPreferred =
     (let cipherSuites = (case cfg_CipherSuites c of
            None \<Rightarrow> defaultCipherSuites aesGCMPreferred
          | Some l \<Rightarrow> keepOnly l (supportedCipherSuites aesGCMPreferred))
      in if fips140tlsRequired then keepOnly allowedCipherSuitesFIPS cipherSuites else cipherSuites)"

definition Config_supportedCipherSuites :: "Config \<Rightarrow> u16 list" where
  "Config_supportedCipherSuites c = Config_cipherSuites c False"

definition supportedVersions :: "u16 list" where
  "supportedVersions = [VersionTLS13, VersionTLS12, VersionTLS11, VersionTLS10]"

text \<open>
  One pass of the loop of \<open>supportedVersions\<close>: whether the version is skipped, \<open>None\<close> for the nil
  dereference of \<open>c.EncryptedClientHelloConfigList\<close>.
\<close>

definition skipVersion :: "Config option \<Rightarrow> bool \<Rightarrow> u16 \<Rightarrow> bool option" where
  "skipVersion co isClient v =
     (if fips140tlsRequired \<and> \<not> List.member allowedSupportedVersionsFIPS v then Some True
      else if (case co of None \<Rightarrow> True | Some c \<Rightarrow> cfg_MinVersion c = 0) \<and> v < VersionTLS12 then Some True
      else case co of
          None \<Rightarrow> if isClient then None else Some False
        | Some c \<Rightarrow>
            if isClient \<and> cfg_EncryptedClientHelloConfigList c \<noteq> None \<and> v < VersionTLS13 then Some True
            else if cfg_MinVersion c \<noteq> 0 \<and> v < cfg_MinVersion c then Some True
            else if cfg_MaxVersion c \<noteq> 0 \<and> v > cfg_MaxVersion c then Some True
            else Some False)"

fun supportedVersions_loop :: "Config option \<Rightarrow> bool \<Rightarrow> u16 list \<Rightarrow> u16 list \<Rightarrow> u16 list option" where
  "supportedVersions_loop co isClient [] versions = Some versions"
| "supportedVersions_loop co isClient (v # vs) versions =
     (case skipVersion co isClient v of
        None \<Rightarrow> None
      | Some True \<Rightarrow> supportedVersions_loop co isClient vs versions
      | Some False \<Rightarrow> supportedVersions_loop co isClient vs (versions @ [v]))"

definition Config_supportedVersions :: "Config option \<Rightarrow> bool \<Rightarrow> u16 list option" where
  "Config_supportedVersions co isClient = supportedVersions_loop co isClient supportedVersions []"

definition maxSupportedVersion :: "Config option \<Rightarrow> bool \<Rightarrow> u16 option" where
  "maxSupportedVersion co isClient =
     map_option (\<lambda>vs. if vs = [] then 0 else hd vs) (Config_supportedVersions co isClient)"

definition supportedVersionsFromMax :: "u16 \<Rightarrow> u16 list" where
  "supportedVersionsFromMax maxVersion = filter (\<lambda>v. \<not> v > maxVersion) supportedVersions"

definition isTLS13OnlyKeyExchange :: "u16 \<Rightarrow> bool" where
  "isTLS13OnlyKeyExchange curve \<longleftrightarrow> List.member [X25519MLKEM768, SecP256r1MLKEM768, SecP384r1MLKEM1024] curve"

definition isPQKeyExchange :: "u16 \<Rightarrow> bool" where
  "isPQKeyExchange curve \<longleftrightarrow> List.member [X25519MLKEM768, SecP256r1MLKEM768, SecP384r1MLKEM1024] curve"

definition defaultCurvePreferences :: "u16 list" where
  "defaultCurvePreferences =
     [X25519MLKEM768, SecP256r1MLKEM768, SecP384r1MLKEM1024, X25519, CurveP256, CurveP384, CurveP521]"

definition curvePreferences :: "Config option \<Rightarrow> u16 \<Rightarrow> u16 list" where
  "curvePreferences co version =
     (let l = defaultCurvePreferences;
          l = (if fips140tlsRequired then keepOnly allowedCurvePreferencesFIPS l else l);
          l = (case co of
                 Some c \<Rightarrow> if length (cfg_CurvePreferences c) \<noteq> 0 then keepOnly (cfg_CurvePreferences c) l else l
               | None \<Rightarrow> l)
      in if version < VersionTLS13 then filter (\<lambda>x. \<not> isTLS13OnlyKeyExchange x) l else l)"

definition supportsCurve :: "Config option \<Rightarrow> u16 \<Rightarrow> u16 \<Rightarrow> bool" where
  "supportsCurve co version curve = List.member (curvePreferences co version) curve"

definition mutualVersion :: "Config option \<Rightarrow> bool \<Rightarrow> u16 list \<Rightarrow> (u16 \<times> bool) option" where
  "mutualVersion co isClient peerVersions =
     map_option (\<lambda>vs. case find (List.member peerVersions) vs of Some v \<Rightarrow> (v, True) | None \<Rightarrow> (0, False))
       (Config_supportedVersions co isClient)"

section \<open>Session ticket keys\<close>

abbreviation ticketKeyLifetime :: int where "ticketKeyLifetime \<equiv> 7 * 24 * 3600 * 1000000000"
abbreviation ticketKeyRotation :: int where "ticketKeyRotation \<equiv> 24 * 3600 * 1000000000"

text \<open>The hash function SHA-512 is an argument.\<close>

definition ticketKeyFromBytes :: "hashFn \<Rightarrow> int \<Rightarrow> bytes \<Rightarrow> ticketKey" where
  "ticketKeyFromBytes sha512 now b =
     (let hashed = h_Sum sha512 b
      in \<lparr>tk_aesKey = take 16 (drop 16 hashed), tk_hmacKey = take 16 (drop 32 hashed), tk_created = now\<rparr>)"

definition deprecatedSessionTicketKey :: bytes where
  "deprecatedSessionTicketKey = ascii ''DEPRECATED''"

definition HasPrefix :: "bytes \<Rightarrow> bytes \<Rightarrow> bool" where
  "HasPrefix s p \<longleftrightarrow> take (length p) s = p"

definition initLegacySessionTicketKeyRLocked :: "hashFn \<Rightarrow> int \<Rightarrow> Config \<Rightarrow> Config option" where
  "initLegacySessionTicketKeyRLocked sha512 now c =
     (if cfg_SessionTicketKey c \<noteq> replicate 32 0 \<and>
         (HasPrefix (cfg_SessionTicketKey c) deprecatedSessionTicketKey \<or> length (cfg_sessionTicketKeys c) > 0)
      then Some c
      else if cfg_SessionTicketKey c = replicate 32 0 then
        (case readFull 32 (cfg_Rand c) of
           Inl e \<Rightarrow> None
         | Inr (key, rand) \<Rightarrow>
             Some (c\<lparr>cfg_Rand := rand, cfg_SessionTicketKey := copy_at 0 key deprecatedSessionTicketKey\<rparr>))
      else if \<not> HasPrefix (cfg_SessionTicketKey c) deprecatedSessionTicketKey \<and> length (cfg_sessionTicketKeys c) = 0
      then Some (c\<lparr>cfg_sessionTicketKeys := [ticketKeyFromBytes sha512 now (cfg_SessionTicketKey c)]\<rparr>)
      else Some c)"

text \<open>The rotation of the automatically managed keys.\<close>

definition rotateTicketKeys :: "hashFn \<Rightarrow> int \<Rightarrow> Config \<Rightarrow> Config option" where
  "rotateTicketKeys sha512 now c =
     (if cfg_autoSessionTicketKeys c = [] \<or> now - tk_created (hd (cfg_autoSessionTicketKeys c)) \<ge> ticketKeyRotation
      then case readFull 32 (cfg_Rand c) of
             Inl e \<Rightarrow> None
           | Inr (newKey, rand) \<Rightarrow>
               Some (c\<lparr>cfg_Rand := rand, cfg_autoSessionTicketKeys := ticketKeyFromBytes sha512 now newKey #
                 filter (\<lambda>k. now - tk_created k < ticketKeyLifetime) (cfg_autoSessionTicketKeys c)\<rparr>)
      else Some c)"

text \<open>\<open>ticketKeys(nil)\<close>: the keys, and the configuration as the call leaves it.\<close>

definition ownTicketKeys :: "hashFn \<Rightarrow> int \<Rightarrow> Config \<Rightarrow> (ticketKey list \<times> Config) option" where
  "ownTicketKeys sha512 now c =
     (if cfg_SessionTicketsDisabled c then Some ([], c)
      else case initLegacySessionTicketKeyRLocked sha512 now c of
        None \<Rightarrow> None
      | Some c \<Rightarrow>
          if length (cfg_sessionTicketKeys c) \<noteq> 0 then Some (cfg_sessionTicketKeys c, c)
          else if length (cfg_autoSessionTicketKeys c) > 0 \<and>
                  now - tk_created (hd (cfg_autoSessionTicketKeys c)) < ticketKeyRotation
          then Some (cfg_autoSessionTicketKeys c, c)
          else map_option (\<lambda>c. (cfg_autoSessionTicketKeys c, c)) (rotateTicketKeys sha512 now c))"

definition ticketKeys :: "hashFn \<Rightarrow> int \<Rightarrow> Config \<Rightarrow> Config option \<Rightarrow>
    (ticketKey list \<times> Config \<times> Config option) option" where
  "ticketKeys sha512 now c configForClient =
     (case configForClient of
        None \<Rightarrow> map_option (\<lambda>(ks, c). (ks, c, None)) (ownTicketKeys sha512 now c)
      | Some cc \<Rightarrow>
          if cfg_SessionTicketsDisabled cc then Some ([], c, Some cc)
          else case initLegacySessionTicketKeyRLocked sha512 now cc of
            None \<Rightarrow> None
          | Some cc \<Rightarrow>
              if length (cfg_sessionTicketKeys cc) \<noteq> 0 then Some (cfg_sessionTicketKeys cc, c, Some cc)
              else map_option (\<lambda>(ks, c). (ks, c, Some cc)) (ownTicketKeys sha512 now c))"

definition SetSessionTicketKeys :: "hashFn \<Rightarrow> int \<Rightarrow> Config \<Rightarrow> bytes list \<Rightarrow> Config option" where
  "SetSessionTicketKeys sha512 now c keys =
     (if length keys = 0 then None
      else Some (c\<lparr>cfg_sessionTicketKeys := map (ticketKeyFromBytes sha512 now) keys\<rparr>))"

section \<open>Version choice\<close>

text \<open>What the documentation of \<open>MinVersion\<close>, \<open>MaxVersion\<close> and ECH promises about a version.\<close>

definition versionEnabled :: "Config \<Rightarrow> bool \<Rightarrow> u16 \<Rightarrow> bool" where
  "versionEnabled c isClient v \<longleftrightarrow>
     v \<in> {VersionTLS10, VersionTLS11, VersionTLS12, VersionTLS13} \<and>
     v \<ge> (if cfg_MinVersion c = 0 then VersionTLS12 else cfg_MinVersion c) \<and>
     (cfg_MaxVersion c = 0 \<or> v \<le> cfg_MaxVersion c) \<and>
     (isClient \<and> cfg_EncryptedClientHelloConfigList c \<noteq> None \<longrightarrow> v = VersionTLS13)"

lemma supportedVersions_loop_filter:
  assumes "\<And>v. v \<in> set vs \<Longrightarrow> skipVersion co isClient v = Some (skip v)"
  shows "supportedVersions_loop co isClient vs acc = Some (acc @ filter (\<lambda>v. \<not> skip v) vs)"
  using assms by (induction vs arbitrary: acc) (simp_all split: bool.splits)

lemma skipVersion_enabled:
  assumes "v \<in> set supportedVersions"
  shows "skipVersion (Some c) isClient v = Some (\<not> versionEnabled c isClient v)"
proof -
  have v: "v \<in> {VersionTLS10, VersionTLS11, VersionTLS12, VersionTLS13}"
    using assms by (simp add: supportedVersions_def) blast
  then have ech: "v < VersionTLS13 \<longleftrightarrow> v \<noteq> VersionTLS13" by auto
  show ?thesis unfolding skipVersion_def versionEnabled_def ech
    using v by (simp only: fips140tlsRequired_def not_less [symmetric] option.case if_False simp_thms) simp
qed

lemma Config_supportedVersions_enabled:
  "Config_supportedVersions (Some c) isClient = Some (filter (versionEnabled c isClient) supportedVersions)"
  unfolding Config_supportedVersions_def by (subst supportedVersions_loop_filter [OF skipVersion_enabled]) simp_all

lemma supportedVersions_descending: "sorted_wrt (>) supportedVersions"
  by (simp add: supportedVersions_def)

lemma find_sorted_greatest:
  fixes vs :: "'a::linorder list"
  assumes "sorted_wrt (>) vs" and "find P vs = Some v"
  shows "v \<in> set vs \<and> P v \<and> (\<forall>w\<in>set vs. P w \<longrightarrow> w \<le> v)"
  using assms by (induction vs) (auto split: if_splits intro: less_imp_le)

lemma versionEnabled_supported: "versionEnabled c isClient v \<Longrightarrow> v \<in> set supportedVersions"
  by (auto simp: versionEnabled_def supportedVersions_def)

section \<open>Key rotation\<close>

text \<open>
  The state of the automatically managed keys: no explicit keys are set, keys are listed from the
  newest to the oldest, none is from the future, and the others were within their lifetime when the
  first was made.
\<close>

definition auto_keys :: "Config \<Rightarrow> bool" where
  "auto_keys c \<longleftrightarrow> \<not> cfg_SessionTicketsDisabled c \<and> cfg_sessionTicketKeys c = [] \<and>
     (cfg_SessionTicketKey c = replicate 32 0 \<or> HasPrefix (cfg_SessionTicketKey c) deprecatedSessionTicketKey)"

definition keys_ordered :: "int \<Rightarrow> ticketKey list \<Rightarrow> bool" where
  "keys_ordered now ks \<longleftrightarrow> sorted_wrt (\<lambda>a b. tk_created b \<le> tk_created a) ks \<and>
     (\<forall>k\<in>set ks. tk_created k \<le> now) \<and>
     (\<forall>k\<in>set (tl ks). tk_created (hd ks) - tk_created k < ticketKeyLifetime)"

definition fresh_keys :: "Config \<Rightarrow> bool" where
  "fresh_keys c \<longleftrightarrow> auto_keys c \<and> cfg_autoSessionTicketKeys c = []"

text \<open>
  The runs of a configuration from \<open>c0\<close> at time \<open>t0\<close>: calls of \<open>ticketKeys\<close> at times that do not go back, between
  which other operations consume random bytes.
\<close>

inductive key_steps :: "hashFn \<Rightarrow> int \<Rightarrow> Config \<Rightarrow> int \<Rightarrow> Config \<Rightarrow> bool" for sha512 t0 c0 where
  start: "key_steps sha512 t0 c0 t0 c0"
| keys: "key_steps sha512 t0 c0 t c \<Longrightarrow> t \<le> now \<Longrightarrow> ownTicketKeys sha512 now c = Some (ks, c') \<Longrightarrow>
    key_steps sha512 t0 c0 now c'"
| rand: "key_steps sha512 t0 c0 t c \<Longrightarrow> key_steps sha512 t0 c0 t (c\<lparr>cfg_Rand := r\<rparr>)"

lemma HasPrefix_copy_at: "length p \<le> length s \<Longrightarrow> HasPrefix (copy_at 0 s p) p"
  by (simp add: HasPrefix_def copy_at_def)

lemma initLegacy_auto:
  assumes "auto_keys c" and "initLegacySessionTicketKeyRLocked sha512 now c = Some c'"
  shows "auto_keys c' \<and> cfg_autoSessionTicketKeys c' = cfg_autoSessionTicketKeys c"
proof (cases "cfg_SessionTicketKey c = replicate 32 0")
  case True
  then obtain key rand where "length key = 32"
    "c' = c\<lparr>cfg_Rand := rand, cfg_SessionTicketKey := copy_at 0 key deprecatedSessionTicketKey\<rparr>"
    using assms(2) that [of "take 32 (cfg_Rand c)" "drop 32 (cfg_Rand c)"]
    by (auto simp: initLegacySessionTicketKeyRLocked_def readFull_def split: if_splits)
  then show ?thesis using assms(1) HasPrefix_copy_at [of deprecatedSessionTicketKey key]
    by (simp add: auto_keys_def deprecatedSessionTicketKey_def)
next
  case False
  then show ?thesis using assms by (auto simp: initLegacySessionTicketKeyRLocked_def auto_keys_def split: if_splits)
qed

text \<open>Either the first key is fresh and nothing changes, or a new key is put in front.\<close>

lemma ownTicketKeys_auto:
  assumes "auto_keys c" and "ownTicketKeys sha512 now c = Some (ks, c')"
  shows "auto_keys c' \<and> cfg_autoSessionTicketKeys c' = ks \<and>
    (ks = cfg_autoSessionTicketKeys c \<and> ks \<noteq> [] \<and> now - tk_created (hd ks) < ticketKeyRotation \<or>
     (\<exists>b. ks = ticketKeyFromBytes sha512 now b #
        filter (\<lambda>k. now - tk_created k < ticketKeyLifetime) (cfg_autoSessionTicketKeys c)))"
proof -
  obtain c1 where c1: "initLegacySessionTicketKeyRLocked sha512 now c = Some c1" "auto_keys c1"
    "cfg_autoSessionTicketKeys c1 = cfg_autoSessionTicketKeys c"
    using assms initLegacy_auto [OF assms(1)] by (auto simp: ownTicketKeys_def auto_keys_def split: option.splits)
  let ?fresh = "cfg_autoSessionTicketKeys c \<noteq> [] \<and> now - tk_created (hd (cfg_autoSessionTicketKeys c)) < ticketKeyRotation"
  show ?thesis
  proof (cases ?fresh)
    case True
    then show ?thesis using assms c1 by (auto simp: ownTicketKeys_def auto_keys_def)
  next
    case False
    then have "map_option (\<lambda>c. (cfg_autoSessionTicketKeys c, c)) (rotateTicketKeys sha512 now c1) = Some (ks, c')"
      using assms c1 by (auto simp: ownTicketKeys_def auto_keys_def)
    then show ?thesis using False c1
      by (auto simp: rotateTicketKeys_def auto_keys_def split: if_splits sum.splits)
  qed
qed

lemma ownTicketKeys_ordered:
  assumes "auto_keys c" and "keys_ordered t (cfg_autoSessionTicketKeys c)" and "t \<le> now"
    and "ownTicketKeys sha512 now c = Some (ks, c')"
  shows "keys_ordered now ks \<and> ks \<noteq> [] \<and> now - tk_created (hd ks) < ticketKeyRotation"
  using ownTicketKeys_auto [OF assms(1,4)] assms(2,3)
  by (auto simp: keys_ordered_def ticketKeyFromBytes_def Let_def sorted_wrt_filter) (meson order_trans)+

lemma auto_keys_rand [simp]: "auto_keys (c\<lparr>cfg_Rand := r\<rparr>) = auto_keys c"
  by (simp add: auto_keys_def)

lemma key_steps_ordered:
  assumes "key_steps sha512 t0 c0 t c" and "auto_keys c0" and "keys_ordered t0 (cfg_autoSessionTicketKeys c0)"
  shows "auto_keys c \<and> keys_ordered t (cfg_autoSessionTicketKeys c) \<and> t0 \<le> t"
  using assms
proof (induction rule: key_steps.induct)
  case (keys t c now ks c')
  then show ?case
    using ownTicketKeys_ordered [of c t now sha512 ks c'] ownTicketKeys_auto [of c sha512 now ks c'] by simp
qed simp_all

lemma fresh_keys_ordered:
  assumes "fresh_keys c0" and "key_steps sha512 t0 c0 t c"
  shows "auto_keys c" and "keys_ordered t (cfg_autoSessionTicketKeys c)"
  using key_steps_ordered [OF assms(2)] assms(1) by (auto simp: fresh_keys_def keys_ordered_def)

text \<open>A key is kept while it is within its lifetime.\<close>

lemma key_steps_keep:
  assumes "key_steps sha512 t0 c0 t c" and "auto_keys c0" and "keys_ordered t0 (cfg_autoSessionTicketKeys c0)"
    and "k \<in> set (cfg_autoSessionTicketKeys c0)" and "t - tk_created k < ticketKeyLifetime"
  shows "k \<in> set (cfg_autoSessionTicketKeys c)"
  using assms
proof (induction rule: key_steps.induct)
  case (keys t c now ks c')
  then have "k \<in> set (cfg_autoSessionTicketKeys c)" by simp
  moreover have "auto_keys c" using key_steps_ordered [OF keys.hyps(1) keys.prems(1,2)] by simp
  ultimately show ?case using ownTicketKeys_auto [OF _ keys.hyps(3)] keys.prems(4) by auto
qed simp_all

section \<open>Properties\<close>





end
