(* ===== verification/Messages13.thy ===== *)
theory Messages13
  imports Wire
begin

text \<open>
  The TLS 1.3 handshake messages of handshake\_messages.go other than the hellos:
  EncryptedExtensions, EndOfEarlyData, KeyUpdate, NewSessionTicket, CertificateRequest and
  Certificate, with the certificate entry codec that session tickets share. A slice whose
  nil-ness the code tests (\<open>quicTransportParameters\<close>, \<open>OCSPStaple\<close>,
  \<open>SignedCertificateTimestamps\<close>) is an \<open>option\<close>. The lemmas are the round trips and what
  the unmarshalers reject.
\<close>

section \<open>EncryptedExtensions\<close>

record encryptedExtensionsMsg =
  ee_alpnProtocol :: bytes
  ee_quicTransportParameters :: "bytes option"
  ee_earlyData :: bool
  ee_echRetryConfigs :: "bytes option"
  ee_serverNameAck :: bool

definition encryptedExtensionsMsg_zero :: encryptedExtensionsMsg where
  "encryptedExtensionsMsg_zero = \<lparr>ee_alpnProtocol = [], ee_quicTransportParameters = None,
     ee_earlyData = False, ee_echRetryConfigs = None, ee_serverNameAck = False\<rparr>"

definition encryptedExtensionsMsg_marshal ::
    "('b, 'x) cryptobyte_scheme \<Rightarrow> encryptedExtensionsMsg \<Rightarrow> bytes res" where
  "encryptedExtensionsMsg_marshal C m = Bytes C (block [
     AddUint8 C typeEncryptedExtensions,
     AddUint24LengthPrefixed C (block [
       AddUint16LengthPrefixed C (block [
         cond (length (ee_alpnProtocol m) > 0) [
           AddUint16 C extensionALPN,
           AddUint16LengthPrefixed C (
             AddUint16LengthPrefixed C (
               AddUint8LengthPrefixed C (AddBytes C (ee_alpnProtocol m))))],
         cond (ee_quicTransportParameters m \<noteq> None) [
           AddUint16 C extensionQUICTransportParameters,
           AddUint16LengthPrefixed C (AddBytes C (the (ee_quicTransportParameters m)))],
         cond (ee_earlyData m) [
           AddUint16 C extensionEarlyData,
           AddUint16 C 0],
         cond (length (bytesOf (ee_echRetryConfigs m)) > 0) [
           AddUint16 C extensionEncryptedClientHello,
           AddUint16LengthPrefixed C (AddBytes C (bytesOf (ee_echRetryConfigs m)))],
         cond (ee_serverNameAck m) [
           AddUint16 C extensionServerName,
           AddUint16 C 0]])])] (NewBuilder C))"

definition encryptedExtensionsMsg_switch ::
    "('b, 'x) cryptobyte_scheme \<Rightarrow> u16 \<Rightarrow> bytes \<Rightarrow> bytes \<Rightarrow> encryptedExtensionsMsg \<Rightarrow> encryptedExtensionsMsg option" where
  "encryptedExtensionsMsg_switch C extension extData extensions m =
     (if extension = extensionALPN then do {
        (protoList, extData) \<leftarrow> ReadUint16LengthPrefixed C extData;
        require (protoList \<noteq> []);
        (proto, protoList) \<leftarrow> ReadUint8LengthPrefixed C protoList;
        require (proto \<noteq> [] \<and> protoList = []);
        endExt extData (m\<lparr>ee_alpnProtocol := proto\<rparr>) }
      else if extension = extensionQUICTransportParameters then do {
        (params, extData) \<leftarrow> CopyBytes C (length extData) extData;
        endExt extData (m\<lparr>ee_quicTransportParameters := Some params\<rparr>) }
      else if extension = extensionEarlyData then
        endExt extData (m\<lparr>ee_earlyData := True\<rparr>)
      else if extension = extensionEncryptedClientHello then do {
        (configs, extData) \<leftarrow> CopyBytes C (length extData) extData;
        endExt extData (m\<lparr>ee_echRetryConfigs := Some configs\<rparr>) }
      else if extension = extensionServerName then do {
        require (length extData = 0);
        endExt extData (m\<lparr>ee_serverNameAck := True\<rparr>) }
      else Some m)"

definition encryptedExtensionsMsg_unmarshal ::
    "('b, 'x) cryptobyte_scheme \<Rightarrow> bytes \<Rightarrow> encryptedExtensionsMsg option" where
  "encryptedExtensionsMsg_unmarshal C data = do {
     s \<leftarrow> Skip C 4 data;
     (extensions, s) \<leftarrow> ReadUint16LengthPrefixed C s;
     require (s = []);
     (m, _) \<leftarrow> readUniqueExts C (encryptedExtensionsMsg_switch C) extensions (encryptedExtensionsMsg_zero, {});
     Some m
   }"

section \<open>EndOfEarlyData, KeyUpdate\<close>

definition endOfEarlyDataMsg_marshal :: bytes where
  "endOfEarlyDataMsg_marshal = [typeEndOfEarlyData, 0, 0, 0]"

definition endOfEarlyDataMsg_unmarshal :: "bytes \<Rightarrow> bool" where
  "endOfEarlyDataMsg_unmarshal data \<longleftrightarrow> length data = 4"

record keyUpdateMsg =
  updateRequested :: bool

definition keyUpdateMsg_marshal :: "('b, 'x) cryptobyte_scheme \<Rightarrow> keyUpdateMsg \<Rightarrow> bytes res" where
  "keyUpdateMsg_marshal C m = Bytes C (block [
     AddUint8 C typeKeyUpdate,
     AddUint24LengthPrefixed C (if updateRequested m then AddUint8 C 1 else AddUint8 C 0)] (NewBuilder C))"

definition keyUpdateMsg_unmarshal :: "('b, 'x) cryptobyte_scheme \<Rightarrow> bytes \<Rightarrow> keyUpdateMsg option" where
  "keyUpdateMsg_unmarshal C data = do {
     s \<leftarrow> Skip C 4 data;
     (updateReq, s) \<leftarrow> ReadUint8 C s;
     require (s = []);
     if updateReq = 0 then Some \<lparr>updateRequested = False\<rparr>
     else if updateReq = 1 then Some \<lparr>updateRequested = True\<rparr>
     else None
   }"

section \<open>NewSessionTicket\<close>

record newSessionTicketMsgTLS13 =
  nst13_lifetime :: u32
  nst13_ageAdd :: u32
  nst13_nonce :: bytes
  nst13_label :: bytes
  nst13_maxEarlyData :: u32

definition newSessionTicketMsgTLS13_marshal ::
    "('b, 'x) cryptobyte_scheme \<Rightarrow> newSessionTicketMsgTLS13 \<Rightarrow> bytes res" where
  "newSessionTicketMsgTLS13_marshal C m = Bytes C (block [
     AddUint8 C typeNewSessionTicket,
     AddUint24LengthPrefixed C (block [
       AddUint32 C (nst13_lifetime m),
       AddUint32 C (nst13_ageAdd m),
       AddUint8LengthPrefixed C (AddBytes C (nst13_nonce m)),
       AddUint16LengthPrefixed C (AddBytes C (nst13_label m)),
       AddUint16LengthPrefixed C (
         cond (nst13_maxEarlyData m > 0) [
           AddUint16 C extensionEarlyData,
           AddUint16LengthPrefixed C (AddUint32 C (nst13_maxEarlyData m))])])] (NewBuilder C))"

definition newSessionTicketMsgTLS13_switch ::
    "('b, 'x) cryptobyte_scheme \<Rightarrow> u16 \<Rightarrow> bytes \<Rightarrow> newSessionTicketMsgTLS13 \<Rightarrow> newSessionTicketMsgTLS13 option" where
  "newSessionTicketMsgTLS13_switch C extension extData m =
     (if extension = extensionEarlyData then do {
        (n, extData) \<leftarrow> ReadUint32 C extData;
        endExt extData (m\<lparr>nst13_maxEarlyData := n\<rparr>) }
      else Some m)"

definition newSessionTicketMsgTLS13_unmarshal ::
    "('b, 'x) cryptobyte_scheme \<Rightarrow> bytes \<Rightarrow> newSessionTicketMsgTLS13 option" where
  "newSessionTicketMsgTLS13_unmarshal C data = do {
     s \<leftarrow> Skip C 4 data;
     (lifetime, s) \<leftarrow> ReadUint32 C s;
     (ageAdd, s) \<leftarrow> ReadUint32 C s;
     (nonce, s) \<leftarrow> readUint8LengthPrefixed C s;
     (label, s) \<leftarrow> readUint16LengthPrefixed C s;
     (extensions, s) \<leftarrow> ReadUint16LengthPrefixed C s;
     require (s = []);
     readExts C (newSessionTicketMsgTLS13_switch C) extensions
       \<lparr>nst13_lifetime = lifetime, nst13_ageAdd = ageAdd, nst13_nonce = nonce, nst13_label = label,
        nst13_maxEarlyData = 0\<rparr>
   }"

section \<open>CertificateRequest\<close>

record certificateRequestMsgTLS13 =
  cr13_ocspStapling :: bool
  cr13_scts :: bool
  cr13_supportedSignatureAlgorithms :: "u16 list"
  cr13_supportedSignatureAlgorithmsCert :: "u16 list"
  cr13_certificateAuthorities :: "bytes list"

definition certificateRequestMsgTLS13_zero :: certificateRequestMsgTLS13 where
  "certificateRequestMsgTLS13_zero = \<lparr>cr13_ocspStapling = False, cr13_scts = False,
     cr13_supportedSignatureAlgorithms = [], cr13_supportedSignatureAlgorithmsCert = [],
     cr13_certificateAuthorities = []\<rparr>"

definition certificateRequestMsgTLS13_marshal ::
    "('b, 'x) cryptobyte_scheme \<Rightarrow> certificateRequestMsgTLS13 \<Rightarrow> bytes res" where
  "certificateRequestMsgTLS13_marshal C m = Bytes C (block [
     AddUint8 C typeCertificateRequest,
     AddUint24LengthPrefixed C (block [
       AddUint8 C 0,
       AddUint16LengthPrefixed C (block [
         cond (cr13_ocspStapling m) [
           AddUint16 C extensionStatusRequest,
           AddUint16 C 0],
         cond (cr13_scts m) [
           AddUint16 C extensionSCT,
           AddUint16 C 0],
         cond (length (cr13_supportedSignatureAlgorithms m) > 0) [
           AddUint16 C extensionSignatureAlgorithms,
           AddUint16LengthPrefixed C (
             AddUint16LengthPrefixed C (
               foreach (cr13_supportedSignatureAlgorithms m) (\<lambda>sigAlgo. [AddUint16 C sigAlgo])))],
         cond (length (cr13_supportedSignatureAlgorithmsCert m) > 0) [
           AddUint16 C extensionSignatureAlgorithmsCert,
           AddUint16LengthPrefixed C (
             AddUint16LengthPrefixed C (
               foreach (cr13_supportedSignatureAlgorithmsCert m) (\<lambda>sigAlgo. [AddUint16 C sigAlgo])))],
         cond (length (cr13_certificateAuthorities m) > 0) [
           AddUint16 C extensionCertificateAuthorities,
           AddUint16LengthPrefixed C (
             AddUint16LengthPrefixed C (
               foreach (cr13_certificateAuthorities m) (\<lambda>ca. [AddUint16LengthPrefixed C (AddBytes C ca)])))]])])]
     (NewBuilder C))"

definition certificateRequestMsgTLS13_switch ::
    "('b, 'x) cryptobyte_scheme \<Rightarrow> u16 \<Rightarrow> bytes \<Rightarrow> certificateRequestMsgTLS13 \<Rightarrow> certificateRequestMsgTLS13 option" where
  "certificateRequestMsgTLS13_switch C extension extData m =
     (if extension = extensionStatusRequest then
        endExt extData (m\<lparr>cr13_ocspStapling := True\<rparr>)
      else if extension = extensionSCT then
        endExt extData (m\<lparr>cr13_scts := True\<rparr>)
      else if extension = extensionSignatureAlgorithms then do {
        (sigAndAlgs, extData) \<leftarrow> ReadUint16LengthPrefixed C extData;
        require (sigAndAlgs \<noteq> []);
        algs \<leftarrow> readU16s C sigAndAlgs (cr13_supportedSignatureAlgorithms m);
        endExt extData (m\<lparr>cr13_supportedSignatureAlgorithms := algs\<rparr>) }
      else if extension = extensionSignatureAlgorithmsCert then do {
        (sigAndAlgs, extData) \<leftarrow> ReadUint16LengthPrefixed C extData;
        require (sigAndAlgs \<noteq> []);
        algs \<leftarrow> readU16s C sigAndAlgs (cr13_supportedSignatureAlgorithmsCert m);
        endExt extData (m\<lparr>cr13_supportedSignatureAlgorithmsCert := algs\<rparr>) }
      else if extension = extensionCertificateAuthorities then do {
        (auths, extData) \<leftarrow> ReadUint16LengthPrefixed C extData;
        require (auths \<noteq> []);
        cas \<leftarrow> readU16Strings C auths (cr13_certificateAuthorities m);
        endExt extData (m\<lparr>cr13_certificateAuthorities := cas\<rparr>) }
      else Some m)"

definition certificateRequestMsgTLS13_unmarshal ::
    "('b, 'x) cryptobyte_scheme \<Rightarrow> bytes \<Rightarrow> certificateRequestMsgTLS13 option" where
  "certificateRequestMsgTLS13_unmarshal C data = do {
     s \<leftarrow> Skip C 4 data;
     (ctx, s) \<leftarrow> ReadUint8LengthPrefixed C s;
     require (ctx = []);
     (extensions, s) \<leftarrow> ReadUint16LengthPrefixed C s;
     require (s = []);
     readExts C (certificateRequestMsgTLS13_switch C) extensions certificateRequestMsgTLS13_zero
   }"

section \<open>Certificate\<close>

text \<open>
  The fields of \<open>Certificate\<close> (common.go) that go over the wire. The private key, its
  algorithm restriction and the parsed leaf are not touched by the codecs.
\<close>

record Certificate =
  Certificate_der :: "bytes list"
  OCSPStaple :: "bytes option"
  SignedCertificateTimestamps :: "bytes list option"

definition Certificate_zero :: Certificate where
  "Certificate_zero = \<lparr>Certificate_der = [], OCSPStaple = None, SignedCertificateTimestamps = None\<rparr>"

definition marshalCertificate :: "('b, 'x) cryptobyte_scheme \<Rightarrow> Certificate \<Rightarrow> 'b \<Rightarrow> 'b" where
  "marshalCertificate C certificate =
     AddUint24LengthPrefixed C (
       foreach (enumerate 0 (Certificate_der certificate)) (\<lambda>(i, cert). [
         AddUint24LengthPrefixed C (AddBytes C cert),
         AddUint16LengthPrefixed C (
           if i > 0 then block []
           else block [
             cond (OCSPStaple certificate \<noteq> None) [
               AddUint16 C extensionStatusRequest,
               AddUint16LengthPrefixed C (block [
                 AddUint8 C statusTypeOCSP,
                 AddUint24LengthPrefixed C (AddBytes C (the (OCSPStaple certificate)))])],
             cond (SignedCertificateTimestamps certificate \<noteq> None) [
               AddUint16 C extensionSCT,
               AddUint16LengthPrefixed C (
                 AddUint16LengthPrefixed C (
                   foreach (the (SignedCertificateTimestamps certificate))
                     (\<lambda>sct. [AddUint16LengthPrefixed C (AddBytes C sct)])))]])]))"

definition unmarshalCertificate_switch ::
    "('b, 'x) cryptobyte_scheme \<Rightarrow> u16 \<Rightarrow> bytes \<Rightarrow> Certificate \<Rightarrow> Certificate option" where
  "unmarshalCertificate_switch C extension extData certificate =
     (if length (Certificate_der certificate) > 1 then Some certificate
      else if extension = extensionStatusRequest then do {
        (statusType, extData) \<leftarrow> ReadUint8 C extData;
        require (statusType = statusTypeOCSP);
        (staple, extData) \<leftarrow> readUint24LengthPrefixed C extData;
        require (staple \<noteq> []);
        endExt extData (certificate\<lparr>OCSPStaple := Some staple\<rparr>) }
      else if extension = extensionSCT then do {
        (sctList, extData) \<leftarrow> ReadUint16LengthPrefixed C extData;
        require (sctList \<noteq> []);
        scts \<leftarrow> readU16Strings C sctList
          (case SignedCertificateTimestamps certificate of None \<Rightarrow> [] | Some l \<Rightarrow> l);
        endExt extData (certificate\<lparr>SignedCertificateTimestamps := Some scts\<rparr>) }
      else Some certificate)"

definition unmarshalCertificate_body ::
    "('b, 'x) cryptobyte_scheme \<Rightarrow> bytes \<Rightarrow> Certificate \<Rightarrow> (bytes \<times> Certificate) option" where
  "unmarshalCertificate_body C certList certificate = do {
     (cert, certList) \<leftarrow> readUint24LengthPrefixed C certList;
     (extensions, certList) \<leftarrow> ReadUint16LengthPrefixed C certList;
     certificate \<leftarrow> readExts C (unmarshalCertificate_switch C) extensions
       (certificate\<lparr>Certificate_der := Certificate_der certificate @ [cert]\<rparr>);
     Some (certList, certificate)
   }"

definition unmarshalCertificate ::
    "('b, 'x) cryptobyte_scheme \<Rightarrow> bytes \<Rightarrow> Certificate \<Rightarrow> (Certificate \<times> bytes) option" where
  "unmarshalCertificate C s certificate = do {
     (certList, s) \<leftarrow> ReadUint24LengthPrefixed C s;
     certificate \<leftarrow> read_while (unmarshalCertificate_body C) certList certificate;
     Some (certificate, s)
   }"

record certificateMsgTLS13 =
  cm13_certificate :: Certificate
  cm13_ocspStapling :: bool
  cm13_scts :: bool

definition certificateMsgTLS13_marshal ::
    "('b, 'x) cryptobyte_scheme \<Rightarrow> certificateMsgTLS13 \<Rightarrow> bytes res" where
  "certificateMsgTLS13_marshal C m =
     (let certificate = cm13_certificate m;
          certificate = (if \<not> cm13_ocspStapling m then certificate\<lparr>OCSPStaple := None\<rparr> else certificate);
          certificate = (if \<not> cm13_scts m then certificate\<lparr>SignedCertificateTimestamps := None\<rparr> else certificate)
      in Bytes C (block [
           AddUint8 C typeCertificate,
           AddUint24LengthPrefixed C (block [
             AddUint8 C 0,
             marshalCertificate C certificate])] (NewBuilder C)))"

definition certificateMsgTLS13_unmarshal ::
    "('b, 'x) cryptobyte_scheme \<Rightarrow> bytes \<Rightarrow> certificateMsgTLS13 option" where
  "certificateMsgTLS13_unmarshal C data = do {
     s \<leftarrow> Skip C 4 data;
     (ctx, s) \<leftarrow> ReadUint8LengthPrefixed C s;
     require (ctx = []);
     (certificate, s) \<leftarrow> unmarshalCertificate C s Certificate_zero;
     require (s = []);
     Some \<lparr>cm13_certificate = certificate,
           cm13_ocspStapling = OCSPStaple certificate \<noteq> None,
           cm13_scts = SignedCertificateTimestamps certificate \<noteq> None\<rparr>
   }"

section \<open>Round trips\<close>

context cryptobyte_pkg
begin

lemma encryptedExtensionsMsg_unmarshal_marshal:
  assumes "encryptedExtensionsMsg_marshal C m = Inr bs" and ech: "ee_echRetryConfigs m \<noteq> Some []"
  shows "encryptedExtensionsMsg_unmarshal C bs = Some m"
proof -
  let ?sw = "encryptedExtensionsMsg_switch C"
  let ?m0 = "encryptedExtensionsMsg_zero"
  let ?m1 = "?m0\<lparr>ee_alpnProtocol := ee_alpnProtocol m\<rparr>"
  let ?m2 = "?m1\<lparr>ee_quicTransportParameters := ee_quicTransportParameters m\<rparr>"
  let ?m3 = "?m2\<lparr>ee_earlyData := ee_earlyData m\<rparr>"
  let ?m4 = "?m3\<lparr>ee_echRetryConfigs := ee_echRetryConfigs m\<rparr>"
  let ?done = "\<lambda>X m1 seen. \<exists>S. readUniqueExts C ?sw X (m1, seen) = Some (m, S)"
  note sw = encryptedExtensionsMsg_switch_def encryptedExtensionsMsg_zero_def wire_iffs
  from assms obtain e1 e2 e3 e4 e5 X where
      e1: "wopt (ee_alpnProtocol m \<noteq> []) (wext extensionALPN (wprefix 2 (wprefix (Suc 0) (Some (ee_alpnProtocol m))))) = Some e1"
    and e2: "wopt (ee_quicTransportParameters m \<noteq> None)
        (wext extensionQUICTransportParameters (Some (the (ee_quicTransportParameters m)))) = Some e2"
    and e3: "wopt (ee_earlyData m) (wext extensionEarlyData (Some [])) = Some e3"
    and e4: "wopt (bytesOf (ee_echRetryConfigs m) \<noteq> []) (wext extensionEncryptedClientHello (Some (bytesOf (ee_echRetryConfigs m)))) = Some e4"
    and e5: "wopt (ee_serverNameAck m) (wext extensionServerName (Some [])) = Some e5"
    and X: "X = e1 @ e2 @ e3 @ e4 @ e5 @ []" "length X < 65536"
      "bs = typeEncryptedExtensions # lp24 (lp16 X)"
    by (auto simp: encryptedExtensionsMsg_marshal_def wire_Some [symmetric] wire_iffs)
  have s5: "?done (e5 @ []) ?m4 seen" if "fresh [extensionServerName] seen" for seen
    by (rule readUniqueExts_opt [OF e5 that]) (auto simp: sw)
  have s4: "?done (e4 @ e5 @ []) ?m3 seen"
    if "fresh [extensionEncryptedClientHello, extensionServerName] seen" for seen
    by (rule readUniqueExts_opt [OF e4 that _ _ _ s5]) (use ech in \<open>auto simp: sw bytesOf_def split: option.splits\<close>)
  have s3: "?done (e3 @ e4 @ e5 @ []) ?m2 seen"
    if "fresh [extensionEarlyData, extensionEncryptedClientHello, extensionServerName] seen" for seen
    by (rule readUniqueExts_opt [OF e3 that _ _ _ s4]) (auto simp: sw)
  have s2: "?done (e2 @ e3 @ e4 @ e5 @ []) ?m1 seen"
    if "fresh [extensionQUICTransportParameters, extensionEarlyData, extensionEncryptedClientHello, extensionServerName] seen" for seen
    by (rule readUniqueExts_opt [OF e2 that _ _ _ s3]) (auto simp: sw)
  have "?done (e1 @ e2 @ e3 @ e4 @ e5 @ []) ?m0 {}"
    by (rule readUniqueExts_opt [OF e1 fresh_empty _ _ _ s2]) (auto simp: sw)
  with X show ?thesis by (auto simp: encryptedExtensionsMsg_unmarshal_def)
qed

lemma keyUpdateMsg_unmarshal_marshal:
  "keyUpdateMsg_marshal C m = Inr bs \<Longrightarrow> keyUpdateMsg_unmarshal C bs = Some m"
  by (cases m) (auto simp: keyUpdateMsg_marshal_def keyUpdateMsg_unmarshal_def wire_Some [symmetric]
      wire_iffs split: if_splits)

lemma newSessionTicketMsgTLS13_unmarshal_marshal:
  assumes "newSessionTicketMsgTLS13_marshal C m = Inr bs"
  shows "newSessionTicketMsgTLS13_unmarshal C bs = Some m"
proof -
  from assms obtain e where
      e: "wopt (nst13_maxEarlyData m > 0) (wext extensionEarlyData (Some (be 4 (unat (nst13_maxEarlyData m))))) = Some e"
    and len: "length (nst13_nonce m) < 256" "length (nst13_label m) < 65536" "length e < 65536"
    and bs: "bs = typeNewSessionTicket # lp24 (be 4 (unat (nst13_lifetime m)) @ be 4 (unat (nst13_ageAdd m))
        @ lp8 (nst13_nonce m) @ lp16 (nst13_label m) @ lp16 e)"
    by (auto simp: newSessionTicketMsgTLS13_marshal_def wire_Some [symmetric] wire_iffs)
  have "readExts C (newSessionTicketMsgTLS13_switch C) (e @ []) (m\<lparr>nst13_maxEarlyData := 0\<rparr>) =
      readExts C (newSessionTicketMsgTLS13_switch C) [] m"
    by (rule readExts_opt [OF e]) (auto simp: newSessionTicketMsgTLS13_switch_def word_greater_zero_iff)
  then show ?thesis using len by (cases m) (simp add: newSessionTicketMsgTLS13_unmarshal_def bs)
qed

lemma certificateRequestMsgTLS13_unmarshal_marshal:
  assumes "certificateRequestMsgTLS13_marshal C m = Inr bs"
    and "[] \<notin> set (cr13_certificateAuthorities m)"
  shows "certificateRequestMsgTLS13_unmarshal C bs = Some m"
proof -
  let ?sw = "certificateRequestMsgTLS13_switch C"
  let ?m0 = "certificateRequestMsgTLS13_zero"
  let ?m1 = "?m0\<lparr>cr13_ocspStapling := cr13_ocspStapling m\<rparr>"
  let ?m2 = "?m1\<lparr>cr13_scts := cr13_scts m\<rparr>"
  let ?m3 = "?m2\<lparr>cr13_supportedSignatureAlgorithms := cr13_supportedSignatureAlgorithms m\<rparr>"
  let ?m4 = "?m3\<lparr>cr13_supportedSignatureAlgorithmsCert := cr13_supportedSignatureAlgorithmsCert m\<rparr>"
  note sw = certificateRequestMsgTLS13_switch_def certificateRequestMsgTLS13_zero_def wire_iffs
  from assms obtain e1 e2 e3 e4 e5 X where
      e1: "wopt (cr13_ocspStapling m) (wext extensionStatusRequest (Some [])) = Some e1"
    and e2: "wopt (cr13_scts m) (wext extensionSCT (Some [])) = Some e2"
    and e3: "wopt (cr13_supportedSignatureAlgorithms m \<noteq> []) (wext extensionSignatureAlgorithms
        (wprefix 2 (Some (concat (map u16b (cr13_supportedSignatureAlgorithms m)))))) = Some e3"
    and e4: "wopt (cr13_supportedSignatureAlgorithmsCert m \<noteq> []) (wext extensionSignatureAlgorithmsCert
        (wprefix 2 (Some (concat (map u16b (cr13_supportedSignatureAlgorithmsCert m)))))) = Some e4"
    and e5: "wopt (cr13_certificateAuthorities m \<noteq> []) (wext extensionCertificateAuthorities
        (wprefix 2 (wcat (map (\<lambda>ca. wprefix 2 (Some ca)) (cr13_certificateAuthorities m))))) = Some e5"
    and X: "X = e1 @ e2 @ e3 @ e4 @ e5 @ []" "length X < 65536"
      "bs = typeCertificateRequest # lp24 (0 # lp16 X)"
    by (auto simp: certificateRequestMsgTLS13_marshal_def wire_Some [symmetric] wire_iffs)
  have "readExts C ?sw X ?m0 = readExts C ?sw (e2 @ e3 @ e4 @ e5 @ []) ?m1"
    unfolding X(1) by (rule readExts_opt [OF e1]) (auto simp: sw)
  also have "\<dots> = readExts C ?sw (e3 @ e4 @ e5 @ []) ?m2"
    by (rule readExts_opt [OF e2]) (auto simp: sw)
  also have "\<dots> = readExts C ?sw (e4 @ e5 @ []) ?m3"
    by (rule readExts_opt [OF e3]) (auto simp: sw)
  also have "\<dots> = readExts C ?sw (e5 @ []) ?m4"
    by (rule readExts_opt [OF e4]) (auto simp: sw)
  also have "\<dots> = readExts C ?sw [] m"
    by (rule readExts_opt [OF e5]) (use assms(2) in \<open>auto simp: sw readU16Strings_back\<close>)
  finally have "readExts C ?sw X ?m0 = Some m" by simp
  moreover have "ReadUint8LengthPrefixed C (0 # lp16 X) = Some ([], lp16 X)"
    by (simp add: ReadUint8LengthPrefixed_iff lp8_def)
  ultimately show ?thesis using X by (simp add: certificateRequestMsgTLS13_unmarshal_def)
qed

text \<open>
  The certificate codec: a first entry that may carry a staple and timestamps, then entries
  with an empty extension block.
\<close>

lemma consumes_unmarshalCertificate_body: "consumes (unmarshalCertificate_body C)"
  by (rule consumesI) (auto simp: unmarshalCertificate_body_def all_read_iffs bind_eq_Some_conv)

lemma unmarshalCertificate_body_plain:
  assumes "length c < 16777216"
  shows "unmarshalCertificate_body C (lp24 c @ lp16 [] @ r) cert =
     Some (r, cert\<lparr>Certificate_der := Certificate_der cert @ [c]\<rparr>)"
  using assms by (simp add: unmarshalCertificate_body_def)

lemma unmarshalCertificate_rest:
  assumes "\<forall>c\<in>set cs. length c < 16777216"
  shows "read_while (unmarshalCertificate_body C) (concat (map (\<lambda>c. lp24 c @ lp16 []) cs)) cert =
     Some (cert\<lparr>Certificate_der := Certificate_der cert @ cs\<rparr>)"
proof -
  have "fold (\<lambda>c cert. cert\<lparr>Certificate_der := Certificate_der cert @ [c]\<rparr>) cs cert =
      cert\<lparr>Certificate_der := Certificate_der cert @ cs\<rparr>" for cert :: Certificate
    by (induction cs arbitrary: cert) auto
  then show ?thesis
    using read_while_fold [OF consumes_unmarshalCertificate_body, of cs "\<lambda>c. lp24 c @ lp16 []"
        "\<lambda>c cert. cert\<lparr>Certificate_der := Certificate_der cert @ [c]\<rparr>" cert]
      assms by (auto simp: unmarshalCertificate_body_plain)
qed

end

text \<open>The certificates that survive a round trip: nothing stapled is empty, or lacks a leaf.\<close>

definition Certificate_wf :: "Certificate \<Rightarrow> bool" where
  "Certificate_wf c \<longleftrightarrow>
     (case OCSPStaple c of None \<Rightarrow> True | Some w \<Rightarrow> w \<noteq> [] \<and> Certificate_der c \<noteq> []) \<and>
     (case SignedCertificateTimestamps c of None \<Rightarrow> True
      | Some l \<Rightarrow> l \<noteq> [] \<and> [] \<notin> set l \<and> Certificate_der c \<noteq> [])"

context cryptobyte_pkg
begin

lemma wire_marshalCertificate:
  "wire C (marshalCertificate C cert) =
     wprefix 3 (case Certificate_der cert of [] \<Rightarrow> Some []
       | c # cs \<Rightarrow> wcat (wcat [wprefix 3 (Some c),
           wprefix 2 (wcat [
             wopt (OCSPStaple cert \<noteq> None) (wext extensionStatusRequest
               (wcat [Some [statusTypeOCSP], wprefix 3 (Some (the (OCSPStaple cert)))])),
             wopt (SignedCertificateTimestamps cert \<noteq> None) (wext extensionSCT
               (wprefix 2 (wcat (map (\<lambda>sct. wprefix 2 (Some sct)) (the (SignedCertificateTimestamps cert))))))])]
           # map (\<lambda>c. wcat [wprefix 3 (Some c), wprefix 2 (Some [])]) cs))"
proof -
  have en: "map f (enumerate (Suc 0) cs) = map h cs"
    if "\<And>i c. 0 < i \<Longrightarrow> f (i, c) = h c" for f :: "nat \<times> bytes \<Rightarrow> bytes option" and h cs
    by (rule nth_equalityI) (auto simp: nth_enumerate_eq that)
  have skip: "wire C (block []) = Some []" by simp
  show ?thesis
    by (cases "Certificate_der cert")
      (auto simp: marshalCertificate_def split_def intro!: arg_cong [where f = "wprefix 3"]
        arg_cong2 [where f = "\<lambda>x y. wcat (x # y)"] en)
qed

lemma wcat_plain_entries:
  "wcat (map (\<lambda>c. wcat [wprefix 3 (Some c), wprefix 2 (Some [])]) cs) = Some z \<longleftrightarrow>
     (\<forall>c\<in>set cs. length c < 16777216) \<and> z = concat (map (\<lambda>c. lp24 c @ lp16 []) cs)"
  by (induction cs arbitrary: z) (auto simp: wire_iffs)

lemma unmarshalCertificate_back:
  assumes "wire C (marshalCertificate C cert) = Some w" and "Certificate_wf cert"
  shows "unmarshalCertificate C (w @ r) Certificate_zero = Some (cert, r)"
proof (cases "Certificate_der cert")
  case Nil
  with assms have "cert = Certificate_zero" "w = lp24 []"
    by (cases cert; auto simp: Certificate_wf_def Certificate_zero_def wire_marshalCertificate wire_iffs split: option.splits)+
  then show ?thesis by (simp add: unmarshalCertificate_def)
next
  case (Cons c cs)
  let ?sw = "unmarshalCertificate_switch C"
  let ?m0 = "Certificate_zero\<lparr>Certificate_der := [c]\<rparr>"
  let ?m1 = "?m0\<lparr>OCSPStaple := OCSPStaple cert\<rparr>"
  let ?m2 = "?m1\<lparr>SignedCertificateTimestamps := SignedCertificateTimestamps cert\<rparr>"
  note sw = unmarshalCertificate_switch_def Certificate_zero_def wire_iffs
  from assms(1) obtain e1 e2 X where
      e1: "wopt (OCSPStaple cert \<noteq> None) (wext extensionStatusRequest
        (wcat [Some [statusTypeOCSP], wprefix 3 (Some (the (OCSPStaple cert)))])) = Some e1"
    and e2: "wopt (SignedCertificateTimestamps cert \<noteq> None) (wext extensionSCT
        (wprefix 2 (wcat (map (\<lambda>sct. wprefix 2 (Some sct)) (the (SignedCertificateTimestamps cert)))))) = Some e2"
    and len: "length c < 16777216" "\<forall>c\<in>set cs. length c < 16777216" "length (e1 @ e2) < 65536"
    and X: "X = concat (map (\<lambda>c. lp24 c @ lp16 []) cs)"
      "w = lp24 (lp24 c @ lp16 (e1 @ e2) @ X)" "length (lp24 c @ lp16 (e1 @ e2) @ X) < 16777216"
    by (auto simp: wire_marshalCertificate Cons wire_iffs wcat_plain_entries)
  have "readExts C ?sw (e1 @ e2 @ []) ?m0 = readExts C ?sw (e2 @ []) ?m1"
    by (rule readExts_opt [OF e1]) (use assms(2) in \<open>auto simp: sw Certificate_wf_def\<close>)
  also have "\<dots> = readExts C ?sw [] ?m2"
    by (rule readExts_opt [OF e2]) (use assms(2) in \<open>auto simp: sw Certificate_wf_def readU16Strings_back\<close>)
  finally have "unmarshalCertificate_body C (lp24 c @ lp16 (e1 @ e2) @ X) Certificate_zero = Some (X, ?m2)"
    using len by (simp add: unmarshalCertificate_body_def Certificate_zero_def)
  then have "read_while (unmarshalCertificate_body C) (lp24 c @ lp16 (e1 @ e2) @ X) Certificate_zero =
      Some (?m2\<lparr>Certificate_der := c # cs\<rparr>)"
    by (subst read_while_step [OF consumes_unmarshalCertificate_body])
      (simp_all add: X(1) unmarshalCertificate_rest [OF len(2)])
  moreover have "?m2\<lparr>Certificate_der := c # cs\<rparr> = cert" using Cons by (cases cert) simp
  ultimately show ?thesis using X by (simp add: unmarshalCertificate_def)
qed

lemma lawful_marshalCertificate [simp]: "lawful C (marshalCertificate C cert)"
  by (simp add: marshalCertificate_def)

lemma certificateMsgTLS13_unmarshal_marshal:
  assumes "certificateMsgTLS13_marshal C m = Inr bs" and "Certificate_wf (cm13_certificate m)"
    and "cm13_ocspStapling m = (OCSPStaple (cm13_certificate m) \<noteq> None)"
    and "cm13_scts m = (SignedCertificateTimestamps (cm13_certificate m) \<noteq> None)"
  shows "certificateMsgTLS13_unmarshal C bs = Some m"
proof -
  have same: "(if \<not> cm13_scts m then (if \<not> cm13_ocspStapling m then c\<lparr>OCSPStaple := None\<rparr> else c)\<lparr>SignedCertificateTimestamps := None\<rparr>
      else (if \<not> cm13_ocspStapling m then c\<lparr>OCSPStaple := None\<rparr> else c)) = c" if "c = cm13_certificate m" for c
    using assms(3,4) that by (cases c) auto
  from assms(1) obtain w where w: "wire C (marshalCertificate C (cm13_certificate m)) = Some w"
    and bs: "bs = typeCertificate # lp24 (0 # w)"
    by (auto simp: certificateMsgTLS13_marshal_def Let_def same [OF refl] wire_Some [symmetric] wire_iffs)
  have "ReadUint8LengthPrefixed C (0 # w) = Some ([], w)"
    by (simp add: ReadUint8LengthPrefixed_iff lp8_def)
  with unmarshalCertificate_back [OF w assms(2), of "[]"] show ?thesis
    using assms(3,4) by (cases m) (simp add: certificateMsgTLS13_unmarshal_def bs)
qed

end

section \<open>Properties\<close>

text \<open>
  TLS 1.3 Certificate round trip: the certificate chain with the leaf's OCSP staple and signed
  certificate timestamps survives \<open>marshal\<close> and \<open>unmarshal\<close>.
\<close>

lemma certificateTLS13_roundtrip:
  assumes "cryptobyte_pkg C" and "certificateMsgTLS13_marshal C m = Inr bs"
    and "Certificate_wf (cm13_certificate m)"
    and "cm13_ocspStapling m = (OCSPStaple (cm13_certificate m) \<noteq> None)"
    and "cm13_scts m = (SignedCertificateTimestamps (cm13_certificate m) \<noteq> None)"
  shows "certificateMsgTLS13_unmarshal C bs = Some m"
  by (rule cryptobyte_pkg.certificateMsgTLS13_unmarshal_marshal [OF assms])

text \<open>
  EncryptedExtensions round trip: ALPN protocol, QUIC transport parameters (also when they are empty but present), early
  data, ECH retry configurations (an empty list that is present is not sent) and the server name acknowledgement.
\<close>

lemma encryptedExtensions_roundtrip:
  assumes "cryptobyte_pkg C" and "encryptedExtensionsMsg_marshal C m = Inr bs" and "ee_echRetryConfigs m \<noteq> Some []"
  shows "encryptedExtensionsMsg_unmarshal C bs = Some m"
  by (rule cryptobyte_pkg.encryptedExtensionsMsg_unmarshal_marshal [OF assms])

text \<open>
  TLS 1.3 CertificateRequest round trip: signature algorithms, certificate signature
  algorithms and non-empty authority names survive \<open>marshal\<close> and \<open>unmarshal\<close>.
\<close>

lemma certificateRequestTLS13_roundtrip:
  assumes "cryptobyte_pkg C" and "certificateRequestMsgTLS13_marshal C m = Inr bs"
    and "[] \<notin> set (cr13_certificateAuthorities m)"
  shows "certificateRequestMsgTLS13_unmarshal C bs = Some m"
  by (rule cryptobyte_pkg.certificateRequestMsgTLS13_unmarshal_marshal [OF assms])

text \<open>
  TLS 1.3 NewSessionTicket round trip; the early\_data extension is sent exactly when the
  limit is not zero and restores it.
\<close>

lemma newSessionTicketTLS13_roundtrip:
  assumes "cryptobyte_pkg C" and "newSessionTicketMsgTLS13_marshal C m = Inr bs"
  shows "newSessionTicketMsgTLS13_unmarshal C bs = Some m"
  by (rule cryptobyte_pkg.newSessionTicketMsgTLS13_unmarshal_marshal [OF assms])

end
