(* ===== verification/Auth.thy ===== *)
theory Auth
  imports Negotiate Messages13
begin

text \<open>
  Signatures: auth.go, the signature algorithm policy of common.go and defaults.go, and the
  certificate policy of fips\_allowlists.go. The signature primitives are crypto packages: the
  record \<open>sigPkgs\<close> of their verification functions and hashes is an argument. A public key is
  what the code inspects of it: the RSA modulus, the curve, and the key material as bytes.
\<close>

section \<open>Keys and certificates\<close>

datatype ellipticCurve = P256 | P384 | P521 | OtherCurve string

datatype publicKey = RSAPublicKey nat nat | ECDSAPublicKey ellipticCurve bytes | Ed25519PublicKey bytes
  | OtherPublicKey string

text \<open>The bit length and the size in bytes of an RSA modulus.\<close>

fun bitLen :: "nat \<Rightarrow> nat" where
  "bitLen n = (if n = 0 then 0 else Suc (bitLen (n div 2)))"

declare bitLen.simps [simp del]

definition rsa_Size :: "nat \<Rightarrow> nat" where
  "rsa_Size N = (bitLen N + 7) div 8"

text \<open>
  The dynamic value in \<open>Certificate.PrivateKey\<close>: a \<open>crypto.Signer\<close> with its type name and public key,
  the two struct values that are not signers, a pointer to an Ed25519 key (which is a signer), or
  another value.
\<close>

datatype privateKey = SignerKey string publicKey | RSAPrivateKeyValue | ECDSAPrivateKeyValue
  | Ed25519PrivateKeyPointer bytes | OtherPrivateKey string

definition asSigner :: "privateKey \<Rightarrow> publicKey option" where
  "asSigner k = (case k of SignerKey _ p \<Rightarrow> Some p | Ed25519PrivateKeyPointer b \<Rightarrow> Some (Ed25519PublicKey b) | _ \<Rightarrow> None)"

record x509Certificate =
  crt_Raw :: bytes
  crt_PublicKey :: publicKey
  crt_NotBefore :: int
  crt_NotAfter :: int
  crt_RawIssuer :: bytes
  crt_CommonName :: string
  crt_DNSNames :: "string list"

text \<open>
  The fields of \<open>Certificate\<close> that are not sent: the private key, the restriction of its algorithms and the parsed leaf.
\<close>

record localCertificate = Certificate +
  PrivateKey :: privateKey
  SupportedSignatureAlgorithms :: "u16 list option"
  Leaf :: "x509Certificate option"

section \<open>Signature schemes\<close>

abbreviation PKCS1WithSHA256 :: u16 where "PKCS1WithSHA256 \<equiv> 0x0401"
abbreviation PKCS1WithSHA384 :: u16 where "PKCS1WithSHA384 \<equiv> 0x0501"
abbreviation PKCS1WithSHA512 :: u16 where "PKCS1WithSHA512 \<equiv> 0x0601"
abbreviation PSSWithSHA256 :: u16 where "PSSWithSHA256 \<equiv> 0x0804"
abbreviation PSSWithSHA384 :: u16 where "PSSWithSHA384 \<equiv> 0x0805"
abbreviation PSSWithSHA512 :: u16 where "PSSWithSHA512 \<equiv> 0x0806"
abbreviation ECDSAWithP256AndSHA256 :: u16 where "ECDSAWithP256AndSHA256 \<equiv> 0x0403"
abbreviation ECDSAWithP384AndSHA384 :: u16 where "ECDSAWithP384AndSHA384 \<equiv> 0x0503"
abbreviation ECDSAWithP521AndSHA512 :: u16 where "ECDSAWithP521AndSHA512 \<equiv> 0x0603"
abbreviation Ed25519 :: u16 where "Ed25519 \<equiv> 0x0807"
abbreviation PKCS1WithSHA1 :: u16 where "PKCS1WithSHA1 \<equiv> 0x0201"
abbreviation ECDSAWithSHA1 :: u16 where "ECDSAWithSHA1 \<equiv> 0x0203"

text \<open>\<open>directSigning\<close> is the zero \<open>crypto.Hash\<close>.\<close>

abbreviation directSigning :: cryptoHash where "directSigning \<equiv> Hash0"

fun hash_Size :: "cryptoHash \<Rightarrow> nat" where
  "hash_Size Hash0 = 0"
| "hash_Size MD5SHA1 = 36"
| "hash_Size SHA1 = 20"
| "hash_Size SHA256 = 32"
| "hash_Size SHA384 = 48"
| "hash_Size SHA512 = 64"

definition typeAndHashFromSignatureScheme :: "u16 \<Rightarrow> (u8 \<times> cryptoHash) res" where
  "typeAndHashFromSignatureScheme s =
     (let unsupported = Inl (Errorf ''unsupported signature algorithm: %v'' [unat s]);
          sigType =
            (if s \<in> {PKCS1WithSHA1, PKCS1WithSHA256, PKCS1WithSHA384, PKCS1WithSHA512} then Some signaturePKCS1v15
             else if s \<in> {PSSWithSHA256, PSSWithSHA384, PSSWithSHA512} then Some signatureRSAPSS
             else if s \<in> {ECDSAWithSHA1, ECDSAWithP256AndSHA256, ECDSAWithP384AndSHA384, ECDSAWithP521AndSHA512}
             then Some signatureECDSA
             else if s = Ed25519 then Some signatureEd25519
             else None);
          hash =
            (if s \<in> {PKCS1WithSHA1, ECDSAWithSHA1} then Some SHA1
             else if s \<in> {PKCS1WithSHA256, PSSWithSHA256, ECDSAWithP256AndSHA256} then Some SHA256
             else if s \<in> {PKCS1WithSHA384, PSSWithSHA384, ECDSAWithP384AndSHA384} then Some SHA384
             else if s \<in> {PKCS1WithSHA512, PSSWithSHA512, ECDSAWithP521AndSHA512} then Some SHA512
             else if s = Ed25519 then Some directSigning
             else None)
      in case sigType of
           None \<Rightarrow> unsupported
         | Some t \<Rightarrow> (case hash of None \<Rightarrow> unsupported | Some h \<Rightarrow> Inr (t, h)))"

text \<open>The two results as the callers read them when they ignore the error.\<close>

definition schemeType :: "u16 \<Rightarrow> u8" where
  "schemeType s = (case typeAndHashFromSignatureScheme s of Inl _ \<Rightarrow> 0 | Inr (t, _) \<Rightarrow> t)"

definition schemeHash :: "u16 \<Rightarrow> cryptoHash" where
  "schemeHash s = (case typeAndHashFromSignatureScheme s of Inl _ \<Rightarrow> Hash0 | Inr (_, h) \<Rightarrow> h)"

definition legacyTypeAndHashFromPublicKey :: "publicKey \<Rightarrow> (u8 \<times> cryptoHash) res" where
  "legacyTypeAndHashFromPublicKey pub = (case pub of
     RSAPublicKey _ _ \<Rightarrow> Inr (signaturePKCS1v15, MD5SHA1)
   | ECDSAPublicKey _ _ \<Rightarrow> Inr (signatureECDSA, SHA1)
   | Ed25519PublicKey _ \<Rightarrow> Inl (ErrorsNew ''tls: Ed25519 public keys are not supported before TLS 1.2'')
   | OtherPublicKey t \<Rightarrow> Inl (ErrorsNew (''tls: unsupported public key: '' @ t)))"

definition rsaSignatureSchemes :: "(u16 \<times> nat) list" where
  "rsaSignatureSchemes = [
     (PSSWithSHA256, hash_Size SHA256 * 2 + 2),
     (PSSWithSHA384, hash_Size SHA384 * 2 + 2),
     (PSSWithSHA512, hash_Size SHA512 * 2 + 2),
     (PKCS1WithSHA256, 19 + hash_Size SHA256 + 11),
     (PKCS1WithSHA384, 19 + hash_Size SHA384 + 11),
     (PKCS1WithSHA512, 19 + hash_Size SHA512 + 11),
     (PKCS1WithSHA1, 15 + hash_Size SHA1 + 11)]"

definition signatureSchemesForPublicKey :: "u16 \<Rightarrow> publicKey \<Rightarrow> u16 list" where
  "signatureSchemesForPublicKey version pub = (case pub of
     ECDSAPublicKey curve _ \<Rightarrow>
       if version < VersionTLS13
       then [ECDSAWithP256AndSHA256, ECDSAWithP384AndSHA384, ECDSAWithP521AndSHA512, ECDSAWithSHA1]
       else (case curve of
               P256 \<Rightarrow> [ECDSAWithP256AndSHA256]
             | P384 \<Rightarrow> [ECDSAWithP384AndSHA384]
             | P521 \<Rightarrow> [ECDSAWithP521AndSHA512]
             | OtherCurve _ \<Rightarrow> [])
   | RSAPublicKey N _ \<Rightarrow>
       (let size = rsa_Size N in map fst (filter (\<lambda>(scheme, minModulusBytes). size \<ge> minModulusBytes) rsaSignatureSchemes))
   | Ed25519PublicKey _ \<Rightarrow> [Ed25519]
   | OtherPublicKey _ \<Rightarrow> [])"

definition allowedSignatureAlgorithmsFIPS :: "u16 list" where
  "allowedSignatureAlgorithmsFIPS = [
     PSSWithSHA256, ECDSAWithP256AndSHA256, Ed25519, PSSWithSHA384, PSSWithSHA512, PKCS1WithSHA256,
     PKCS1WithSHA384, PKCS1WithSHA512, ECDSAWithP384AndSHA384, ECDSAWithP521AndSHA512]"

definition defaultSupportedSignatureAlgorithms :: "u16 list" where
  "defaultSupportedSignatureAlgorithms = [
     PSSWithSHA256, ECDSAWithP256AndSHA256, Ed25519, PSSWithSHA384, PSSWithSHA512, PKCS1WithSHA256,
     PKCS1WithSHA384, PKCS1WithSHA512, ECDSAWithP384AndSHA384, ECDSAWithP521AndSHA512, PKCS1WithSHA1, ECDSAWithSHA1]"

definition testingOnlySupportedSignatureAlgorithms :: "u16 list option" where
  "testingOnlySupportedSignatureAlgorithms = None"

definition isDisabledSignatureAlgorithm :: "u16 \<Rightarrow> u16 \<Rightarrow> bool \<Rightarrow> bool" where
  "isDisabledSignatureAlgorithm version s isCert =
     (if fips140tlsRequired \<and> \<not> List.member allowedSignatureAlgorithmsFIPS s then True
      else if isCert then False
      else if version > VersionTLS12
      then (if schemeType s = signaturePKCS1v15 \<or> schemeHash s = SHA1 then True else False)
      else (if schemeHash s = SHA1 then True else False))"

definition supportedSignatureAlgorithms :: "u16 \<Rightarrow> u16 list" where
  "supportedSignatureAlgorithms minVers =
     (let sigAlgs = (case testingOnlySupportedSignatureAlgorithms of
            None \<Rightarrow> defaultSupportedSignatureAlgorithms | Some l \<Rightarrow> l)
      in filter (\<lambda>s. \<not> isDisabledSignatureAlgorithm minVers s False) sigAlgs)"

definition supportedSignatureAlgorithmsCert :: "u16 list" where
  "supportedSignatureAlgorithmsCert =
     filter (\<lambda>s. \<not> isDisabledSignatureAlgorithm 0 s True) defaultSupportedSignatureAlgorithms"

definition isSupportedSignatureAlgorithm :: "u16 \<Rightarrow> u16 list \<Rightarrow> bool" where
  "isSupportedSignatureAlgorithm sigAlg l = List.member l sigAlg"

section \<open>Choosing a signature scheme\<close>

text \<open>The dynamic type names \<open>%T\<close> prints.\<close>

definition publicKeyType :: "publicKey \<Rightarrow> string" where
  "publicKeyType pub = (case pub of
     RSAPublicKey _ _ \<Rightarrow> ''*rsa.PublicKey'' | ECDSAPublicKey _ _ \<Rightarrow> ''*ecdsa.PublicKey''
   | Ed25519PublicKey _ \<Rightarrow> ''ed25519.PublicKey'' | OtherPublicKey t \<Rightarrow> t)"

definition privateKeyType :: "privateKey \<Rightarrow> string" where
  "privateKeyType k = (case k of
     SignerKey t _ \<Rightarrow> t | RSAPrivateKeyValue \<Rightarrow> ''rsa.PrivateKey'' | ECDSAPrivateKeyValue \<Rightarrow> ''ecdsa.PrivateKey''
   | Ed25519PrivateKeyPointer _ \<Rightarrow> ''*ed25519.PrivateKey'' | OtherPrivateKey t \<Rightarrow> t)"

definition unsupportedCertificateError :: "localCertificate \<Rightarrow> goerror" where
  "unsupportedCertificateError cert =
     (let T = privateKeyType (PrivateKey cert);
          custom = (if SupportedSignatureAlgorithms cert \<noteq> None
            then ErrorsNew ''tls: peer doesn't support the certificate custom signature algorithms''
            else ErrorsNew (''tls: internal error: unsupported key ('' @ T @ '')''))
      in case PrivateKey cert of
           RSAPrivateKeyValue \<Rightarrow> ErrorsNew (''tls: unsupported certificate: private key is '' @ T @ '', expected *'' @ T)
         | ECDSAPrivateKeyValue \<Rightarrow> ErrorsNew (''tls: unsupported certificate: private key is '' @ T @ '', expected *'' @ T)
         | Ed25519PrivateKeyPointer _ \<Rightarrow>
             ErrorsNew ''tls: unsupported certificate: private key is *ed25519.PrivateKey, expected ed25519.PrivateKey''
         | OtherPrivateKey _ \<Rightarrow> ErrorsNew (''tls: certificate private key ('' @ T @ '') does not implement crypto.Signer'')
         | SignerKey _ pub \<Rightarrow>
             (case pub of
                ECDSAPublicKey (OtherCurve name) _ \<Rightarrow> ErrorsNew (''tls: unsupported certificate curve ('' @ name @ '')'')
              | ECDSAPublicKey _ _ \<Rightarrow> custom
              | RSAPublicKey _ _ \<Rightarrow> ErrorsNew ''tls: certificate RSA key size too small for supported signature algorithms''
              | Ed25519PublicKey _ \<Rightarrow> custom
              | OtherPublicKey t \<Rightarrow> ErrorsNew (''tls: unsupported certificate key ('' @ t @ '')'')))"

text \<open>The algorithms that the certificate can sign with under the version.\<close>

definition certificateAlgs :: "u16 \<Rightarrow> localCertificate \<Rightarrow> publicKey \<Rightarrow> u16 list" where
  "certificateAlgs vers c pub =
     (let supportedAlgs = signatureSchemesForPublicKey vers pub;
          supportedAlgs = (case SupportedSignatureAlgorithms c of
              None \<Rightarrow> supportedAlgs
            | Some l \<Rightarrow> filter (\<lambda>sigAlg. \<not> \<not> isSupportedSignatureAlgorithm sigAlg l) supportedAlgs)
      in filter (\<lambda>sigAlg. \<not> isDisabledSignatureAlgorithm vers sigAlg False) supportedAlgs)"

definition selectSignatureScheme :: "u16 \<Rightarrow> localCertificate \<Rightarrow> u16 list \<Rightarrow> u16 res" where
  "selectSignatureScheme vers c peerAlgs =
     (case asSigner (PrivateKey c) of
        None \<Rightarrow> Inl (unsupportedCertificateError c)
      | Some pub \<Rightarrow>
          (let supportedAlgs = certificateAlgs vers c pub in
           if length supportedAlgs = 0 then Inl (unsupportedCertificateError c)
           else if length peerAlgs = 0 \<and> vers = VersionTLS12
           then Inl (ErrorsNew ''tls: missing signature_algorithms from TLS 1.2 peer'')
           else case find (\<lambda>preferredAlg. isSupportedSignatureAlgorithm preferredAlg supportedAlgs) peerAlgs of
                  Some preferredAlg \<Rightarrow> Inr preferredAlg
                | None \<Rightarrow> Inl (ErrorsNew ''tls: peer doesn't support any of the certificate's signature algorithms'')))"

section \<open>Verifying signatures\<close>

record sigPkgs =
  sp_New :: "cryptoHash \<Rightarrow> hashFn option"
  ecdsa_VerifyASN1 :: "publicKey \<Rightarrow> bytes \<Rightarrow> bytes \<Rightarrow> bool"
  ed25519_Verify :: "publicKey \<Rightarrow> bytes \<Rightarrow> bytes \<Rightarrow> bool"
  rsa_VerifyPKCS1v15 :: "publicKey \<Rightarrow> cryptoHash \<Rightarrow> bytes \<Rightarrow> bytes \<Rightarrow> goerror option"
  rsa_VerifyPSS :: "publicKey \<Rightarrow> cryptoHash \<Rightarrow> bytes \<Rightarrow> bytes \<Rightarrow> goerror option"

definition expectedKey :: "string \<Rightarrow> publicKey \<Rightarrow> goerror option" where
  "expectedKey kind pubkey = Some (ErrorsNew (''expected an '' @ kind @ '' public key, got '' @ publicKeyType pubkey))"

text \<open>The \<open>switch sigType\<close> on a digest (or, for Ed25519, on the message itself).\<close>

definition verifyDigest :: "sigPkgs \<Rightarrow> u8 \<Rightarrow> publicKey \<Rightarrow> cryptoHash \<Rightarrow> bytes \<Rightarrow> bytes \<Rightarrow> goerror option" where
  "verifyDigest S sigType pubkey hashFunc msg sig =
     (if sigType = signatureECDSA then
        (case pubkey of
           ECDSAPublicKey _ _ \<Rightarrow> if \<not> ecdsa_VerifyASN1 S pubkey msg sig
             then Some (ErrorsNew ''ECDSA verification failure'') else None
         | _ \<Rightarrow> expectedKey ''ECDSA'' pubkey)
      else if sigType = signatureEd25519 then
        (case pubkey of
           Ed25519PublicKey _ \<Rightarrow> if \<not> ed25519_Verify S pubkey msg sig
             then Some (ErrorsNew ''Ed25519 verification failure'') else None
         | _ \<Rightarrow> expectedKey ''Ed25519'' pubkey)
      else if sigType = signaturePKCS1v15 then
        (case pubkey of
           RSAPublicKey _ _ \<Rightarrow> rsa_VerifyPKCS1v15 S pubkey hashFunc msg sig
         | _ \<Rightarrow> expectedKey ''RSA'' pubkey)
      else if sigType = signatureRSAPSS then
        (case pubkey of
           RSAPublicKey _ _ \<Rightarrow> rsa_VerifyPSS S pubkey hashFunc msg sig
         | _ \<Rightarrow> expectedKey ''RSA'' pubkey)
      else Some (ErrorsNew ''internal error: unknown signature type''))"

text \<open>The outer option is the panic of \<open>hashFunc.New\<close> on a hash that is not linked in.\<close>

definition verifyHandshakeSignature ::
    "sigPkgs \<Rightarrow> u8 \<Rightarrow> publicKey \<Rightarrow> cryptoHash \<Rightarrow> bytes \<Rightarrow> bytes \<Rightarrow> goerror option option" where
  "verifyHandshakeSignature S sigType pubkey hashFunc msg sig =
     (if hashFunc \<noteq> directSigning
      then case sp_New S hashFunc of
             None \<Rightarrow> None
           | Some h \<Rightarrow> Some (verifyDigest S sigType pubkey hashFunc (hs_Sum (hs_Write (hs_new h) msg)) sig)
      else Some (verifyDigest S sigType pubkey hashFunc msg sig))"

definition verifyLegacyHandshakeSignature ::
    "sigPkgs \<Rightarrow> u8 \<Rightarrow> publicKey \<Rightarrow> cryptoHash \<Rightarrow> bytes \<Rightarrow> bytes \<Rightarrow> goerror option" where
  "verifyLegacyHandshakeSignature S sigType pubkey hashFunc hashed sig =
     (if sigType = signatureECDSA \<or> sigType = signaturePKCS1v15
      then verifyDigest S sigType pubkey hashFunc hashed sig
      else Some (ErrorsNew ''internal error: unknown signature type''))"

definition serverSignatureContext :: bytes where
  "serverSignatureContext = ascii ''TLS 1.3, server CertificateVerify'' @ [0]"

definition clientSignatureContext :: bytes where
  "clientSignatureContext = ascii ''TLS 1.3, client CertificateVerify'' @ [0]"

definition signaturePadding :: bytes where
  "signaturePadding = replicate 64 0x20"

definition signedMessage :: "bytes \<Rightarrow> hashState \<Rightarrow> bytes" where
  "signedMessage ctx transcript = signaturePadding @ ctx @ hs_Sum transcript"

section \<open>Certificate policy\<close>

definition isCertificateAllowedFIPS :: "x509Certificate \<Rightarrow> bool" where
  "isCertificateAllowedFIPS c = (case crt_PublicKey c of
     RSAPublicKey N _ \<Rightarrow> bitLen N \<ge> 2048
   | ECDSAPublicKey curve _ \<Rightarrow> curve = P256 \<or> curve = P384 \<or> curve = P521
   | Ed25519PublicKey _ \<Rightarrow> True
   | OtherPublicKey _ \<Rightarrow> False)"

definition fipsAllowChain :: "x509Certificate list \<Rightarrow> bool" where
  "fipsAllowChain chain = (if length chain = 0 then False else list_all isCertificateAllowedFIPS chain)"

definition fipsAllowedChains :: "x509Certificate list list \<Rightarrow> x509Certificate list list res" where
  "fipsAllowedChains certChains =
     (if \<not> fips140tlsRequired then Inr certChains
      else let permittedChains = filter fipsAllowChain certChains
           in if length permittedChains = 0
              then Inl (ErrorsNew ''tls: no FIPS compatible certificate chains found'')
              else Inr permittedChains)"

text \<open>
  \<open>anyValidVerifiedChain\<close>: \<open>fullVerify\<close> is the platform test of \<open>runtime.GOOS\<close>, and \<open>verify cert
  intermediates\<close> is \<open>cert.Verify(opts)\<close> with these intermediates (\<open>None\<close> for those of \<open>opts\<close>) returning no error.
\<close>

definition anyValidVerifiedChain ::
    "bool \<Rightarrow> (x509Certificate \<Rightarrow> x509Certificate list option \<Rightarrow> bool) \<Rightarrow> int \<Rightarrow> x509Certificate list list \<Rightarrow> bool" where
  "anyValidVerifiedChain fullVerify verify currentTime verifiedChains =
     list_ex (\<lambda>chain.
       if length chain = 0 then False
       else if list_ex (\<lambda>cert. currentTime < crt_NotBefore cert \<or> currentTime > crt_NotAfter cert) chain then False
       else if fullVerify then verify (hd chain) (Some (drop 1 (take (max 1 (length chain - 1)) chain)))
       else verify (last chain) None) verifiedChains"

section \<open>What a chosen scheme satisfies\<close>

text \<open>
  A scheme fits a key under a version: its signature type is one the key can produce, RSA
  encodings fit the modulus (RFC 8017: PSS needs \<open>2 hLen + 2\<close> bytes, PKCS #1 v1.5 its prefix, the digest
  and 11 more), and TLS 1.3 ties ECDSA schemes to curves.
\<close>

definition scheme_fits :: "u16 \<Rightarrow> publicKey \<Rightarrow> u16 \<Rightarrow> bool" where
  "scheme_fits vers pub s = (case typeAndHashFromSignatureScheme s of
     Inl _ \<Rightarrow> False
   | Inr (t, h) \<Rightarrow> (case pub of
       RSAPublicKey N _ \<Rightarrow>
         t = signatureRSAPSS \<and> rsa_Size N \<ge> 2 * hash_Size h + 2 \<or>
         t = signaturePKCS1v15 \<and> rsa_Size N \<ge> (if h = SHA1 then 15 else 19) + hash_Size h + 11
     | ECDSAPublicKey curve _ \<Rightarrow> t = signatureECDSA \<and>
         (vers \<ge> VersionTLS13 \<longrightarrow> (curve, h) \<in> {(P256, SHA256), (P384, SHA384), (P521, SHA512)})
     | Ed25519PublicKey _ \<Rightarrow> t = signatureEd25519
     | OtherPublicKey _ \<Rightarrow> False))"

lemma rsa_schemes_fit:
  "(s, m) \<in> set rsaSignatureSchemes \<Longrightarrow> rsa_Size N \<ge> m \<Longrightarrow> scheme_fits vers (RSAPublicKey N e) s"
  by (auto simp: scheme_fits_def rsaSignatureSchemes_def typeAndHashFromSignatureScheme_def)

lemma schemes_fit:
  assumes "s \<in> set (signatureSchemesForPublicKey vers pub)"
  shows "scheme_fits vers pub s"
proof (cases pub)
  case (RSAPublicKey N e)
  then show ?thesis using assms rsa_schemes_fit by (auto simp: signatureSchemesForPublicKey_def)
qed (use assms in \<open>auto simp: signatureSchemesForPublicKey_def scheme_fits_def typeAndHashFromSignatureScheme_def
      not_less split: ellipticCurve.splits if_splits\<close>)

lemma certificateAlgs_set:
  "s \<in> set (certificateAlgs vers c pub) \<longleftrightarrow> s \<in> set (signatureSchemesForPublicKey vers pub) \<and>
     (case SupportedSignatureAlgorithms c of None \<Rightarrow> True | Some l \<Rightarrow> s \<in> set l) \<and>
     \<not> isDisabledSignatureAlgorithm vers s False"
  by (auto simp: certificateAlgs_def isSupportedSignatureAlgorithm_def split: option.splits)

lemma not_disabled:
  "\<not> isDisabledSignatureAlgorithm vers s False \<longleftrightarrow>
     schemeHash s \<noteq> SHA1 \<and> (vers > VersionTLS12 \<longrightarrow> schemeType s \<noteq> signaturePKCS1v15)"
  by (auto simp: isDisabledSignatureAlgorithm_def fips140tlsRequired_def)

section \<open>Properties\<close>

text \<open>
  The signature scheme of a handshake: \<open>selectSignatureScheme\<close> returns the first scheme of the peer's
  list that the certificate's key can sign with under the version and under the certificate's own
  restriction. It never uses SHA-1, nor PKCS #1 v1.5 in TLS 1.3, and an RSA modulus is large
  enough for the encoding.
\<close>

lemma signature_scheme_selected:
  assumes "selectSignatureScheme vers c peerAlgs = Inr s"
  shows "\<exists>pub before after. asSigner (PrivateKey c) = Some pub \<and> peerAlgs = before @ s # after \<and>
    set before \<inter> set (certificateAlgs vers c pub) = {} \<and> scheme_fits vers pub s \<and> schemeHash s \<noteq> SHA1 \<and>
    (vers > VersionTLS12 \<longrightarrow> schemeType s \<noteq> signaturePKCS1v15) \<and>
    (\<forall>l. SupportedSignatureAlgorithms c = Some l \<longrightarrow> s \<in> set l)"
proof -
  obtain pub where pub: "asSigner (PrivateKey c) = Some pub"
    "find (\<lambda>a. isSupportedSignatureAlgorithm a (certificateAlgs vers c pub)) peerAlgs = Some s"
    using assms by (auto simp: selectSignatureScheme_def Let_def split: option.splits if_splits)
  from pub(2) obtain i where i: "i < length peerAlgs" "s = peerAlgs ! i" "s \<in> set (certificateAlgs vers c pub)"
    "\<forall>j<i. peerAlgs ! j \<notin> set (certificateAlgs vers c pub)"
    by (auto simp: find_Some_iff isSupportedSignatureAlgorithm_def)
  have "peerAlgs = take i peerAlgs @ s # drop (Suc i) peerAlgs" using i(1,2) by (simp add: id_take_nth_drop)
  moreover have "set (take i peerAlgs) \<inter> set (certificateAlgs vers c pub) = {}"
    using i(1,4) by (auto simp: in_set_conv_nth)
  moreover have "scheme_fits vers pub s" using i(3) by (simp add: certificateAlgs_set schemes_fit)
  moreover have "schemeHash s \<noteq> SHA1 \<and> (vers > VersionTLS12 \<longrightarrow> schemeType s \<noteq> signaturePKCS1v15) \<and>
      (\<forall>l. SupportedSignatureAlgorithms c = Some l \<longrightarrow> s \<in> set l)"
    using i(3) by (auto simp: certificateAlgs_set not_disabled)
  ultimately show ?thesis using pub(1) by blast
qed

definition ecCertificate :: localCertificate where
  "ecCertificate = \<lparr>Certificate_der = [[1]], OCSPStaple = None, SignedCertificateTimestamps = None,
     PrivateKey = SignerKey ''*ecdsa.PrivateKey'' (ECDSAPublicKey P384 [2]), SupportedSignatureAlgorithms = None, Leaf = None\<rparr>"

text \<open>
  Signatures of TLS 1.3 are bound to their role: the messages that a server and a client sign differ
  whatever the transcripts are, and for one role equal messages have equal transcript hashes.
\<close>

lemma signed_message_separates:
  assumes "ctx \<in> {serverSignatureContext, clientSignatureContext}"
    and "ctx' \<in> {serverSignatureContext, clientSignatureContext}"
    and "signedMessage ctx t = signedMessage ctx' t'"
  shows "ctx = ctx' \<and> hs_Sum t = hs_Sum t'"
proof -
  have "length ctx = 34" "length ctx' = 34"
    using assms(1,2) by (auto simp: serverSignatureContext_def clientSignatureContext_def)
  then show ?thesis using assms(3) by (simp add: signedMessage_def)
qed

end
