(* ===== verification/Ticket.thy ===== *)
theory Ticket
  imports Auth
begin

text \<open>
  Session states and session tickets: ticket.go. \<open>newCert\<close> (the certificate cache in front of
  \<open>x509.ParseCertificate\<close>) is an argument, as are AES-CTR and the hash functions that seal a ticket.
  The lemmas show that a session survives \<open>Bytes\<close> and \<open>ParseSessionState\<close>, that \<open>decryptTicket\<close> opens only
  what carries the MAC of one of the keys, and that a ticket is opened as long as its key is kept.
\<close>

section \<open>Session states\<close>

record SessionState =
  sn_Extra :: "bytes list"
  sn_EarlyData :: bool
  sn_version :: u16
  sn_isClient :: bool
  sn_cipherSuite :: u16
  sn_createdAt :: u64
  sn_secret :: bytes
  sn_extMasterSecret :: bool
  sn_peerCertificates :: "x509Certificate list"
  sn_ocspResponse :: "bytes option"
  sn_scts :: "bytes list option"
  sn_verifiedChains :: "x509Certificate list list"
  sn_alpnProtocol :: bytes
  sn_useBy :: u64
  sn_ageAdd :: u32
  sn_ticket :: bytes
  sn_curveID :: u16

definition certificatesToBytesSlice :: "x509Certificate list \<Rightarrow> bytes list" where
  "certificatesToBytesSlice certs = map crt_Raw certs"

definition sessionCertificate :: "SessionState \<Rightarrow> Certificate" where
  "sessionCertificate s = \<lparr>Certificate_der = certificatesToBytesSlice (sn_peerCertificates s),
     OCSPStaple = sn_ocspResponse s, SignedCertificateTimestamps = sn_scts s\<rparr>"

definition addFlag :: "('b, 'x) cryptobyte_scheme \<Rightarrow> bool \<Rightarrow> 'b \<Rightarrow> 'b" where
  "addFlag C b = (if b then AddUint8 C 1 else AddUint8 C 0)"

definition addChain :: "('b, 'x) cryptobyte_scheme \<Rightarrow> x509Certificate list \<Rightarrow> 'b \<Rightarrow> 'b" where
  "addChain C chain =
     (if length chain = 0 then SetError C (ErrorsNew ''tls: internal error: empty verified chain'')
      else foreach (drop 1 chain) (\<lambda>cert. [AddUint24LengthPrefixed C (AddBytes C (crt_Raw cert))]))"

definition SessionState_Bytes :: "('b, 'x) cryptobyte_scheme \<Rightarrow> SessionState \<Rightarrow> bytes res" where
  "SessionState_Bytes C s = Bytes C (block [
     AddUint16 C (sn_version s),
     (if sn_isClient s then AddUint8 C 2 else AddUint8 C 1),
     AddUint16 C (sn_cipherSuite s),
     addUint64 C (sn_createdAt s),
     AddUint8LengthPrefixed C (AddBytes C (sn_secret s)),
     AddUint24LengthPrefixed C (foreach (sn_Extra s) (\<lambda>extra. [AddUint24LengthPrefixed C (AddBytes C extra)])),
     addFlag C (sn_extMasterSecret s),
     addFlag C (sn_EarlyData s),
     marshalCertificate C (sessionCertificate s),
     AddUint24LengthPrefixed C (foreach (sn_verifiedChains s) (\<lambda>chain. [AddUint24LengthPrefixed C (addChain C chain)])),
     cond (sn_EarlyData s) [AddUint8LengthPrefixed C (AddBytes C (sn_alpnProtocol s))],
     (if sn_version s \<ge> VersionTLS13
      then cond (sn_isClient s) [addUint64 C (sn_useBy s), AddUint32 C (sn_ageAdd s)]
      else AddUint16 C (sn_curveID s))] (NewBuilder C))"

text \<open>
  A loop over a string whose body may return an error: the error empties the string, which ends the loop.
\<close>

definition tryRead :: "(bytes \<Rightarrow> 'a \<Rightarrow> (bytes \<times> 'a) res) \<Rightarrow> bytes \<Rightarrow> 'a res \<Rightarrow> (bytes \<times> 'a res) option" where
  "tryRead body s a = (case a of
     Inl e \<Rightarrow> Some ([], Inl e)
   | Inr x \<Rightarrow> (case body s x of Inl e \<Rightarrow> Some ([], Inl e) | Inr (s', x') \<Rightarrow> Some (s', Inr x')))"

definition read_res :: "(bytes \<Rightarrow> 'a \<Rightarrow> (bytes \<times> 'a) res) \<Rightarrow> bytes \<Rightarrow> 'a \<Rightarrow> 'a res" where
  "read_res body s x = (case read_while (tryRead body) s (Inr x) of Some r \<Rightarrow> r | None \<Rightarrow> Inl IoErrUnexpectedEOF)"

abbreviation sessionErr :: goerror where "sessionErr \<equiv> ErrorsNew ''tls: invalid session encoding''"

type_synonym certParser = "bytes \<Rightarrow> x509Certificate res"

definition sessionHead :: "('b, 'x) cryptobyte_scheme \<Rightarrow> bytes \<Rightarrow>
    (SessionState \<times> u8 \<times> bytes \<times> u8 \<times> u8 \<times> Certificate \<times> bytes) option" where
  "sessionHead C s = do {
     (version, s) \<leftarrow> ReadUint16 C s;
     (typ', s) \<leftarrow> ReadUint8 C s;
     (cipherSuite, s) \<leftarrow> ReadUint16 C s;
     (createdAt, s) \<leftarrow> readUint64 C s;
     (secret, s) \<leftarrow> readUint8LengthPrefixed C s;
     (extra, s) \<leftarrow> ReadUint24LengthPrefixed C s;
     (extMasterSecret, s) \<leftarrow> ReadUint8 C s;
     (earlyData, s) \<leftarrow> ReadUint8 C s;
     require (length secret \<noteq> 0);
     (cert, s) \<leftarrow> unmarshalCertificate C s Certificate_zero;
     Some (\<lparr>sn_Extra = [], sn_EarlyData = False, sn_version = version, sn_isClient = False, sn_cipherSuite = cipherSuite,
       sn_createdAt = createdAt, sn_secret = secret, sn_extMasterSecret = False, sn_peerCertificates = [],
       sn_ocspResponse = None, sn_scts = None, sn_verifiedChains = [], sn_alpnProtocol = [], sn_useBy = 0,
       sn_ageAdd = 0, sn_ticket = [], sn_curveID = 0\<rparr>, typ', extra, extMasterSecret, earlyData, cert, s)
   }"

definition readExtras :: "('b, 'x) cryptobyte_scheme \<Rightarrow> bytes \<Rightarrow> bytes list option" where
  "readExtras C extra = read_while (\<lambda>s acc. do { (e, s) \<leftarrow> readUint24LengthPrefixed C s; Some (s, acc @ [e]) }) extra []"

fun newCerts :: "certParser \<Rightarrow> bytes list \<Rightarrow> x509Certificate list \<Rightarrow> x509Certificate list res" where
  "newCerts newCert [] certs = Inr certs"
| "newCerts newCert (der # ders) certs =
     (case newCert der of Inl e \<Rightarrow> Inl e | Inr c \<Rightarrow> newCerts newCert ders (certs @ [c]))"

definition chainCert :: "('b, 'x) cryptobyte_scheme \<Rightarrow> certParser \<Rightarrow> bytes \<Rightarrow> x509Certificate list \<Rightarrow>
    (bytes \<times> x509Certificate list) res" where
  "chainCert C newCert certList chain = (case readUint24LengthPrefixed C certList of
     None \<Rightarrow> Inl sessionErr
   | Some (cert, certList) \<Rightarrow> (case newCert cert of Inl e \<Rightarrow> Inl e | Inr c \<Rightarrow> Inr (certList, chain @ [c])))"

definition chainBody :: "('b, 'x) cryptobyte_scheme \<Rightarrow> certParser \<Rightarrow> x509Certificate list \<Rightarrow> bytes \<Rightarrow>
    x509Certificate list list \<Rightarrow> (bytes \<times> x509Certificate list list) res" where
  "chainBody C newCert peerCertificates chainList verifiedChains =
     (case ReadUint24LengthPrefixed C chainList of
        None \<Rightarrow> Inl sessionErr
      | Some (certList, chainList) \<Rightarrow>
          if length peerCertificates = 0 then Inl sessionErr
          else case read_res (chainCert C newCert) certList [hd peerCertificates] of
                 Inl e \<Rightarrow> Inl e
               | Inr chain \<Rightarrow> Inr (chainList, verifiedChains @ [chain]))"

text \<open>The fields behind the chains.\<close>

definition sessionTail :: "('b, 'x) cryptobyte_scheme \<Rightarrow> SessionState \<Rightarrow> bytes \<Rightarrow> SessionState option" where
  "sessionTail C ss s = do {
     (ss, s) \<leftarrow> (if sn_EarlyData ss
       then do { (alpn, s) \<leftarrow> readUint8LengthPrefixed C s; Some (ss\<lparr>sn_alpnProtocol := alpn\<rparr>, s) }
       else Some (ss, s));
     if sn_version ss \<ge> VersionTLS13
     then if sn_isClient ss
          then do {
            (useBy, s) \<leftarrow> ReadUint64 C s;
            (ageAdd, s) \<leftarrow> ReadUint32 C s;
            Some (ss\<lparr>sn_useBy := useBy, sn_ageAdd := ageAdd\<rparr>)
          }
          else Some ss
     else do { (curveID, s) \<leftarrow> ReadUint16 C s; Some (ss\<lparr>sn_curveID := curveID\<rparr>) }
   }"

text \<open>From the parsed certificates on.\<close>

definition sessionChains :: "('b, 'x) cryptobyte_scheme \<Rightarrow> certParser \<Rightarrow> SessionState \<Rightarrow> Certificate \<Rightarrow> bytes \<Rightarrow>
    SessionState res" where
  "sessionChains C newCert ss cert s =
     (case newCerts newCert (Certificate_der cert) [] of
        Inl e \<Rightarrow> Inl e
      | Inr peerCertificates \<Rightarrow>
          if sn_isClient ss \<and> length peerCertificates = 0
          then Inl (ErrorsNew ''tls: no server certificates in client session'')
          else let ss = ss\<lparr>sn_peerCertificates := peerCertificates, sn_ocspResponse := OCSPStaple cert,
                 sn_scts := SignedCertificateTimestamps cert\<rparr>
          in case ReadUint24LengthPrefixed C s of
               None \<Rightarrow> Inl sessionErr
             | Some (chainList, s) \<Rightarrow>
                 (case read_res (chainBody C newCert peerCertificates) chainList [] of
                    Inl e \<Rightarrow> Inl e
                  | Inr verifiedChains \<Rightarrow>
                      (case sessionTail C (ss\<lparr>sn_verifiedChains := verifiedChains\<rparr>) s of
                         None \<Rightarrow> Inl sessionErr
                       | Some ss \<Rightarrow> Inr ss)))"

definition ParseSessionState :: "('b, 'x) cryptobyte_scheme \<Rightarrow> certParser \<Rightarrow> bytes \<Rightarrow> SessionState res" where
  "ParseSessionState C newCert data =
     (case sessionHead C data of
        None \<Rightarrow> Inl sessionErr
      | Some (ss, typ', extra, extMasterSecret, earlyData, cert, s) \<Rightarrow>
          (case readExtras C extra of
             None \<Rightarrow> Inl sessionErr
           | Some Extra \<Rightarrow>
               if typ' \<noteq> 1 \<and> typ' \<noteq> 2 then Inl (ErrorsNew ''tls: unknown session encoding'')
               else if extMasterSecret \<noteq> 0 \<and> extMasterSecret \<noteq> 1 then Inl sessionErr
               else if earlyData \<noteq> 0 \<and> earlyData \<noteq> 1 then Inl sessionErr
               else sessionChains C newCert (ss\<lparr>sn_Extra := Extra, sn_isClient := (typ' = 2),
                      sn_extMasterSecret := (extMasterSecret = 1), sn_EarlyData := (earlyData = 1)\<rparr>) cert s))"

section \<open>Tickets\<close>

record ticketPkgs =
  tp_sha256 :: hashFn
  tp_sha512 :: hashFn
  tp_aesCTR :: "bytes \<Rightarrow> (bytes \<Rightarrow> cipherStream) res"

abbreviation aes_BlockSize :: nat where "aes_BlockSize \<equiv> 16"
abbreviation sha256_Size :: nat where "sha256_Size \<equiv> 32"

text \<open>The result and what is left of the random bytes.\<close>

definition encryptTicket :: "ticketPkgs \<Rightarrow> bytes \<Rightarrow> ticketKey list \<Rightarrow> bytes \<Rightarrow> bytes res \<times> bytes" where
  "encryptTicket T state keys rand =
     (if length keys = 0 then (Inl (ErrorsNew ''tls: internal error: session ticket keys unavailable''), rand)
      else case readFull aes_BlockSize rand of
        Inl e \<Rightarrow> (Inl e, [])
      | Inr (iv, rand) \<Rightarrow>
          (let key = hd keys in
           case tp_aesCTR T (tk_aesKey key) of
             Inl e \<Rightarrow> (Inl (ErrorsNew ''tls: failed to create cipher while encrypting ticket''), rand)
           | Inr ctr \<Rightarrow>
               (let ciphertext = fst (XORKeyStream (ctr iv) state);
                    authenticated = iv @ ciphertext;
                    macBytes = h_hmac (tp_sha256 T) (tk_hmacKey key) authenticated
                in (Inr (authenticated @ macBytes), rand))))"

fun decryptTicket_loop :: "ticketPkgs \<Rightarrow> bytes \<Rightarrow> bytes \<Rightarrow> bytes \<Rightarrow> ticketKey list \<Rightarrow> bytes option" where
  "decryptTicket_loop T iv ciphertext macBytes [] = None"
| "decryptTicket_loop T iv ciphertext macBytes (key # keys) =
     (let expected = h_hmac (tp_sha256 T) (tk_hmacKey key) (iv @ ciphertext)
      in if macBytes \<noteq> expected then decryptTicket_loop T iv ciphertext macBytes keys
         else case tp_aesCTR T (tk_aesKey key) of
                Inl e \<Rightarrow> None
              | Inr ctr \<Rightarrow> Some (fst (XORKeyStream (ctr iv) ciphertext)))"

definition decryptTicket :: "ticketPkgs \<Rightarrow> bytes \<Rightarrow> ticketKey list \<Rightarrow> bytes option" where
  "decryptTicket T encrypted keys =
     (if length encrypted < aes_BlockSize + sha256_Size then None
      else decryptTicket_loop T (take aes_BlockSize encrypted)
             (drop aes_BlockSize (take (length encrypted - sha256_Size) encrypted))
             (drop (length encrypted - sha256_Size) encrypted) keys)"

text \<open>The outer option is the panic of \<open>ticketKeys\<close> when no random bytes are left.\<close>

definition EncryptTicket :: "('b, 'x) cryptobyte_scheme \<Rightarrow> ticketPkgs \<Rightarrow> int \<Rightarrow> Config \<Rightarrow> SessionState \<Rightarrow>
    (bytes res \<times> Config) option" where
  "EncryptTicket C T now c ss =
     (case ownTicketKeys (tp_sha512 T) now c of
        None \<Rightarrow> None
      | Some (keys, c) \<Rightarrow>
          (case SessionState_Bytes C ss of
             Inl e \<Rightarrow> Some (Inl e, c)
           | Inr stateBytes \<Rightarrow>
               (let (r, rand) = encryptTicket T stateBytes keys (cfg_Rand c) in Some (r, c\<lparr>cfg_Rand := rand\<rparr>))))"

definition DecryptTicket :: "('b, 'x) cryptobyte_scheme \<Rightarrow> certParser \<Rightarrow> ticketPkgs \<Rightarrow> int \<Rightarrow> Config \<Rightarrow> bytes \<Rightarrow>
    (SessionState option \<times> Config) option" where
  "DecryptTicket C newCert T now c identity =
     (case ownTicketKeys (tp_sha512 T) now c of
        None \<Rightarrow> None
      | Some (keys, c) \<Rightarrow>
          (case decryptTicket T identity keys of
             None \<Rightarrow> Some (None, c)
           | Some stateBytes \<Rightarrow>
               (case ParseSessionState C newCert stateBytes of
                  Inl e \<Rightarrow> Some (None, c)
                | Inr s \<Rightarrow> Some (Some s, c))))"

text \<open>\<open>ClientSessionState\<close> is a session that may be nil.\<close>

type_synonym ClientSessionState = "SessionState option"

definition ResumptionState :: "ClientSessionState option \<Rightarrow> bytes \<times> SessionState option" where
  "ResumptionState cs = (case cs of
     Some (Some session) \<Rightarrow> (sn_ticket session, Some session)
   | _ \<Rightarrow> ([], None))"

definition NewResumptionState :: "bytes \<Rightarrow> SessionState \<Rightarrow> ClientSessionState" where
  "NewResumptionState ticket state = Some (state\<lparr>sn_ticket := ticket\<rparr>)"

section \<open>Reading a session back\<close>

lemma be_append: "be (m + n) v = be m (v div 256 ^ n) @ be n v"
  by (induction n arbitrary: v) (simp_all add: div_mult2_eq)

lemma be_mod: "be n (v mod 256 ^ n) = be n v"
  using be_unbe_len [of "be n v" n] by (simp add: unbe_be)

lemma be_8_halves:
  "be 8 (unat (v :: u64)) = be 4 (unat (ucast (drop_bit 32 v) :: u32)) @ be 4 (unat (ucast v :: u32))"
proof -
  have "be 8 (unat v) = be 4 (unat v div 2 ^ 32) @ be 4 (unat v)" using be_append [of 4 4 "unat v"] by simp
  moreover have "unat (ucast v :: u32) = unat v mod 256 ^ 4" by (simp add: unsigned_ucast_eq take_bit_eq_mod)
  moreover have "unat (ucast (drop_bit 32 v) :: u32) = unat v div 2 ^ 32 mod 256 ^ 4"
    unfolding unsigned_ucast_eq unat_drop_bit_eq by (simp add: take_bit_eq_mod drop_bit_eq_div)
  ultimately show ?thesis using be_mod [of 4 "unat v"] be_mod [of 4 "unat v div 2 ^ 32"] by simp
qed

lemma consumes_tryRead:
  assumes "\<And>s x s' x'. s \<noteq> [] \<Longrightarrow> body s x = Inr (s', x') \<Longrightarrow> length s' < length s"
  shows "consumes (tryRead body)"
  by (rule consumesI) (use assms in \<open>auto simp: tryRead_def split: sum.splits\<close>)

lemma read_res_append:
  assumes "\<And>s x s' x'. s \<noteq> [] \<Longrightarrow> body s x = Inr (s', x') \<Longrightarrow> length s' < length s"
    and "\<And>x r a. x \<in> set xs \<Longrightarrow> enc x \<noteq> [] \<and> body (enc x @ r) a = Inr (r, a @ [x])"
  shows "read_res body (concat (map enc xs)) a = Inr (a @ xs)"
proof -
  let ?upd = "\<lambda>x a. map_sum (\<lambda>e. e) (\<lambda>l. l @ [x]) a"
  have "read_while (tryRead body) (concat (map enc xs)) (Inr a) = Some (fold ?upd xs (Inr a))"
    using assms(2)
  proof (induction xs arbitrary: a)
    case (Cons x xs)
    have "tryRead body (enc x @ concat (map enc xs)) (Inr a) = Some (concat (map enc xs), Inr (a @ [x]))"
      using Cons.prems by (simp add: tryRead_def)
    then show ?case using Cons by (simp add: read_while_step [OF consumes_tryRead [OF assms(1)]])
  qed simp
  moreover have "fold ?upd xs (Inr a) = Inr (a @ xs)" by (induction xs arbitrary: a) simp_all
  ultimately show ?thesis by (simp add: read_res_def)
qed

lemma newCerts_back:
  "(\<forall>c\<in>set cs. newCert (crt_Raw c) = Inr c) \<Longrightarrow> newCerts newCert (map crt_Raw cs) acc = Inr (acc @ cs)"
  by (induction cs arbitrary: acc) simp_all

text \<open>
  The sessions that survive: a secret, a certificate message that survives, verified chains that start
  with the leaf, and nothing in the fields that the version, role or early data leave out. \<open>newCert\<close> parses
  the certificates of the session to themselves.
\<close>

definition session_wf :: "certParser \<Rightarrow> SessionState \<Rightarrow> bool" where
  "session_wf newCert s \<longleftrightarrow> sn_secret s \<noteq> [] \<and> Certificate_wf (sessionCertificate s) \<and>
     (sn_isClient s \<longrightarrow> sn_peerCertificates s \<noteq> []) \<and>
     (\<forall>c\<in>set (sn_peerCertificates s). newCert (crt_Raw c) = Inr c) \<and>
     (\<forall>ch\<in>set (sn_verifiedChains s). sn_peerCertificates s \<noteq> [] \<and> ch \<noteq> [] \<and> hd ch = hd (sn_peerCertificates s) \<and>
        (\<forall>c\<in>set (tl ch). newCert (crt_Raw c) = Inr c)) \<and>
     (\<not> sn_EarlyData s \<longrightarrow> sn_alpnProtocol s = []) \<and>
     (\<not> (sn_version s \<ge> VersionTLS13 \<and> sn_isClient s) \<longrightarrow> sn_useBy s = 0 \<and> sn_ageAdd s = 0) \<and>
     (sn_version s \<ge> VersionTLS13 \<longrightarrow> sn_curveID s = 0) \<and> sn_ticket s = []"

text \<open>The wire form of a session, part by part.\<close>

abbreviation chainEnc :: "x509Certificate list \<Rightarrow> bytes" where
  "chainEnc ch \<equiv> lp24 (concat (map (\<lambda>c. lp24 (crt_Raw c)) (tl ch)))"

definition sessionTailWire :: "SessionState \<Rightarrow> bytes option" where
  "sessionTailWire s = wcat [wopt (sn_EarlyData s) (wprefix 1 (Some (sn_alpnProtocol s))),
     (if sn_version s \<ge> VersionTLS13
      then wopt (sn_isClient s) (Some (be 8 (unat (sn_useBy s)) @ be 4 (unat (sn_ageAdd s))))
      else Some (u16b (sn_curveID s)))]"

context cryptobyte_pkg
begin

lemma lawful_addFlag [simp]: "lawful C (addFlag C b)"
  by (simp add: addFlag_def)

lemma wire_addFlag [simp]: "wire C (addFlag C b) = Some [if b then 1 else 0]"
  by (simp add: addFlag_def)

lemma lawful_addChain [simp]: "lawful C (addChain C ch)"
  by (simp add: addChain_def)

lemma wire_addChain: "wire C (addChain C ch) =
    (if ch = [] then None else wcat (map (\<lambda>c. wprefix 3 (Some (crt_Raw c))) (tl ch)))"
  by (simp add: addChain_def drop_Suc)

lemma wcat_chains:
  "wcat (map (\<lambda>ch. wprefix 3 (wire C (addChain C ch))) chs) = Some z \<longleftrightarrow>
     (\<forall>ch\<in>set chs. ch \<noteq> [] \<and> (\<forall>c\<in>set (tl ch). length (crt_Raw c) < 16777216) \<and>
        length (concat (map (\<lambda>c. lp24 (crt_Raw c)) (tl ch))) < 16777216) \<and> z = concat (map chainEnc chs)"
  by (induction chs arbitrary: z) (auto simp: wire_addChain wcat_Cons_Some wprefix_lp wcat_map_wprefix)

lemma chainCert_back:
  assumes "\<forall>c\<in>set cs. newCert (crt_Raw c) = Inr c \<and> length (crt_Raw c) < 16777216"
  shows "read_res (chainCert C newCert) (concat (map (\<lambda>c. lp24 (crt_Raw c)) cs)) a = Inr (a @ cs)"
proof (rule read_res_append)
  show "length s' < length s" if "chainCert C newCert s x = Inr (s', x')" for s x s' x'
    using that by (auto simp: chainCert_def all_read_iffs split: option.splits sum.splits)
  show "lp24 (crt_Raw c) \<noteq> [] \<and> chainCert C newCert (lp24 (crt_Raw c) @ r) a = Inr (r, a @ [c])"
    if "c \<in> set cs" for c r a
    using assms that by (simp add: chainCert_def)
qed

lemma chains_back:
  assumes "\<forall>ch\<in>set chs. pc \<noteq> [] \<and> ch \<noteq> [] \<and> hd ch = hd pc \<and>
      (\<forall>c\<in>set (tl ch). newCert (crt_Raw c) = Inr c \<and> length (crt_Raw c) < 16777216) \<and>
      length (concat (map (\<lambda>c. lp24 (crt_Raw c)) (tl ch))) < 16777216"
  shows "read_res (chainBody C newCert pc) (concat (map chainEnc chs)) a = Inr (a @ chs)"
proof (rule read_res_append)
  show "length s' < length s" if "chainBody C newCert pc s x = Inr (s', x')" for s x s' x'
    using that by (auto simp: chainBody_def all_read_iffs split: option.splits sum.splits if_splits)
  show "chainEnc ch \<noteq> [] \<and> chainBody C newCert pc (chainEnc ch @ r) a = Inr (r, a @ [ch])" if "ch \<in> set chs" for ch r a
  proof -
    have "hd pc # tl ch = ch" using assms that by (cases ch) auto
    then show ?thesis using assms that chainCert_back [of "tl ch" newCert "[hd pc]"] by (simp add: chainBody_def)
  qed
qed

lemma consumes_readExtras: "consumes (\<lambda>s acc. do { (e, s) \<leftarrow> readUint24LengthPrefixed C s; Some (s, acc @ [e]) })"
  by (rule consumesI) (auto simp: all_read_iffs bind_eq_Some_conv)

lemma readExtras_back: "\<forall>x\<in>set xs. length x < 16777216 \<Longrightarrow> readExtras C (concat (map lp24 xs)) = Some xs"
  unfolding readExtras_def using read_while_append [OF consumes_readExtras, of xs lp24 "[]"] by simp

lemma session_wire:
  assumes "SessionState_Bytes C s = Inr bs"
  obtains ce tl where "wire C (marshalCertificate C (sessionCertificate s)) = Some ce" and "sessionTailWire s = Some tl"
    and "length (sn_secret s) < 256" and "\<forall>x\<in>set (sn_Extra s). length x < 16777216"
    and "length (concat (map lp24 (sn_Extra s))) < 16777216"
    and "wcat (map (\<lambda>ch. wprefix 3 (wire C (addChain C ch))) (sn_verifiedChains s)) = Some (concat (map chainEnc (sn_verifiedChains s)))"
    and "length (concat (map chainEnc (sn_verifiedChains s))) < 16777216"
    and "bs = u16b (sn_version s) @ (if sn_isClient s then 2 else 1) # u16b (sn_cipherSuite s) @
      be 8 (unat (sn_createdAt s)) @ lp8 (sn_secret s) @ lp24 (concat (map lp24 (sn_Extra s))) @
      (if sn_extMasterSecret s then 1 else 0) # (if sn_EarlyData s then 1 else 0) # ce @
      lp24 (concat (map chainEnc (sn_verifiedChains s))) @ tl"
proof -
  have ty: "wire C (if b then AddUint8 C 2 else AddUint8 C 1) = Some [if b then 2 else 1]"
    "lawful C (if b then AddUint8 C 2 else AddUint8 C 1)" for b by simp_all
  have last: "lawful C (if sn_version s \<ge> VersionTLS13
      then cond (sn_isClient s) [addUint64 C (sn_useBy s), AddUint32 C (sn_ageAdd s)] else AddUint16 C (sn_curveID s))"
    "wire C (if sn_version s \<ge> VersionTLS13
      then cond (sn_isClient s) [addUint64 C (sn_useBy s), AddUint32 C (sn_ageAdd s)] else AddUint16 C (sn_curveID s)) =
     (if sn_version s \<ge> VersionTLS13
      then wopt (sn_isClient s) (Some (be 8 (unat (sn_useBy s)) @ be 4 (unat (sn_ageAdd s))))
      else Some (u16b (sn_curveID s)))"
    by (simp_all add: be_8_halves wcat.simps)
  from assms obtain ce tl where
    p: "wire C (marshalCertificate C (sessionCertificate s)) = Some ce" "sessionTailWire s = Some tl"
    "length (sn_secret s) < 256" "\<forall>x\<in>set (sn_Extra s). length x < 16777216"
    "length (concat (map lp24 (sn_Extra s))) < 16777216"
    "wcat (map (\<lambda>ch. wprefix 3 (wire C (addChain C ch))) (sn_verifiedChains s)) = Some (concat (map chainEnc (sn_verifiedChains s)))"
    "length (concat (map chainEnc (sn_verifiedChains s))) < 16777216"
    "bs = u16b (sn_version s) @ [if sn_isClient s then 2 else 1] @ u16b (sn_cipherSuite s) @
      be 8 (unat (sn_createdAt s)) @ lp8 (sn_secret s) @ lp24 (concat (map lp24 (sn_Extra s))) @
      [if sn_extMasterSecret s then 1 else 0] @ [if sn_EarlyData s then 1 else 0] @ ce @
      lp24 (concat (map chainEnc (sn_verifiedChains s))) @ tl"
    unfolding SessionState_Bytes_def wire_Some [symmetric] sessionTailWire_def
    by (auto simp del: if_image_distrib simp: ty last wire_iffs wcat_chains be_8_halves)
  then show ?thesis using that by simp
qed

lemma sessionTail_back:
  assumes "sessionTailWire s = Some w" and "session_wf newCert s"
  shows "sessionTail C (s\<lparr>sn_alpnProtocol := [], sn_useBy := 0, sn_ageAdd := 0, sn_curveID := 0\<rparr>) w = Some s"
proof -
  define t where "t = (if sn_version s \<ge> VersionTLS13
      then (if sn_isClient s then be 8 (unat (sn_useBy s)) @ be 4 (unat (sn_ageAdd s)) else [])
      else u16b (sn_curveID s))"
  let ?s0 = "s\<lparr>sn_alpnProtocol := [], sn_useBy := 0, sn_ageAdd := 0, sn_curveID := 0\<rparr>"
  let ?s1 = "s\<lparr>sn_useBy := 0, sn_ageAdd := 0, sn_curveID := 0\<rparr>"
  have w: "w = (if sn_EarlyData s then lp8 (sn_alpnProtocol s) else []) @ t" "sn_EarlyData s \<Longrightarrow> length (sn_alpnProtocol s) < 256"
    using assms(1) by (auto simp: sessionTailWire_def t_def wire_iffs wopt_def split: if_splits)
  have "(if sn_EarlyData ?s0 then do { (alpn, s) \<leftarrow> readUint8LengthPrefixed C w; Some (?s0\<lparr>sn_alpnProtocol := alpn\<rparr>, s) }
      else Some (?s0, w)) = Some (?s1, t)"
    using w assms(2) by (cases s) (simp add: session_wf_def)
  then have "sessionTail C ?s0 w = (if sn_version s \<ge> VersionTLS13
     then if sn_isClient s
          then do { (useBy, s) \<leftarrow> ReadUint64 C t; (ageAdd, s) \<leftarrow> ReadUint32 C s; Some (?s1\<lparr>sn_useBy := useBy, sn_ageAdd := ageAdd\<rparr>) }
          else Some ?s1
     else do { (curveID, s) \<leftarrow> ReadUint16 C t; Some (?s1\<lparr>sn_curveID := curveID\<rparr>) })"
    unfolding sessionTail_def by simp
  also have "\<dots> = Some s" using assms(2) by (cases s) (simp add: t_def session_wf_def)
  finally show ?thesis .
qed

lemma session_roundtrip:
  assumes "SessionState_Bytes C s = Inr bs" and wf: "session_wf newCert s"
  shows "ParseSessionState C newCert bs = Inr s"
proof -
  obtain ce w where ce: "wire C (marshalCertificate C (sessionCertificate s)) = Some ce" and w: "sessionTailWire s = Some w"
    and len: "length (sn_secret s) < 256" "\<forall>x\<in>set (sn_Extra s). length x < 16777216"
      "length (concat (map lp24 (sn_Extra s))) < 16777216"
    and chs: "wcat (map (\<lambda>ch. wprefix 3 (wire C (addChain C ch))) (sn_verifiedChains s)) = Some (concat (map chainEnc (sn_verifiedChains s)))"
      "length (concat (map chainEnc (sn_verifiedChains s))) < 16777216"
    and bs: "bs = u16b (sn_version s) @ (if sn_isClient s then 2 else 1) # u16b (sn_cipherSuite s) @
      be 8 (unat (sn_createdAt s)) @ lp8 (sn_secret s) @ lp24 (concat (map lp24 (sn_Extra s))) @
      (if sn_extMasterSecret s then 1 else 0) # (if sn_EarlyData s then 1 else 0) # ce @
      lp24 (concat (map chainEnc (sn_verifiedChains s))) @ w"
    by (rule session_wire [OF assms(1)])
  let ?rest = "lp24 (concat (map chainEnc (sn_verifiedChains s))) @ w"
  let ?s0 = "s\<lparr>sn_Extra := [], sn_EarlyData := False, sn_isClient := False, sn_extMasterSecret := False,
    sn_peerCertificates := [], sn_ocspResponse := None, sn_scts := None, sn_verifiedChains := [], sn_alpnProtocol := [],
    sn_useBy := 0, sn_ageAdd := 0, sn_ticket := [], sn_curveID := 0\<rparr>"
  have "unmarshalCertificate C (ce @ ?rest) Certificate_zero = Some (sessionCertificate s, ?rest)"
    by (rule unmarshalCertificate_back [OF ce]) (use wf in \<open>simp add: session_wf_def\<close>)
  then have head: "sessionHead C bs = Some (?s0, if sn_isClient s then 2 else 1, concat (map lp24 (sn_Extra s)),
      if sn_extMasterSecret s then 1 else 0, if sn_EarlyData s then 1 else 0, sessionCertificate s, ?rest)"
    using len wf by (cases s) (simp add: sessionHead_def bs be_8_halves session_wf_def)
  let ?s1 = "?s0\<lparr>sn_Extra := sn_Extra s, sn_isClient := sn_isClient s, sn_extMasterSecret := sn_extMasterSecret s,
    sn_EarlyData := sn_EarlyData s\<rparr>"
  have parse: "ParseSessionState C newCert bs = sessionChains C newCert ?s1 (sessionCertificate s) ?rest"
    unfolding ParseSessionState_def head using readExtras_back [OF len(2)]
    by (cases "sn_isClient s"; cases "sn_extMasterSecret s"; cases "sn_EarlyData s"; cases s; simp)
  have certs: "newCerts newCert (Certificate_der (sessionCertificate s)) [] = Inr (sn_peerCertificates s)"
    using wf newCerts_back [of "sn_peerCertificates s" newCert "[]"]
    by (simp add: session_wf_def sessionCertificate_def certificatesToBytesSlice_def)
  have chains: "read_res (chainBody C newCert (sn_peerCertificates s)) (concat (map chainEnc (sn_verifiedChains s))) [] =
      Inr (sn_verifiedChains s)"
    using chains_back [of "sn_verifiedChains s" "sn_peerCertificates s" newCert "[]"] wf chs(1)
    by (simp add: session_wf_def wcat_chains)
  have "s\<lparr>sn_alpnProtocol := [], sn_useBy := 0, sn_ageAdd := 0, sn_curveID := 0\<rparr> =
      ?s1\<lparr>sn_peerCertificates := sn_peerCertificates s, sn_ocspResponse := sn_ocspResponse s, sn_scts := sn_scts s,
        sn_verifiedChains := sn_verifiedChains s\<rparr>"
    using wf by (cases s) (simp add: session_wf_def)
  then have "sessionTail C (?s1\<lparr>sn_peerCertificates := sn_peerCertificates s, sn_ocspResponse := sn_ocspResponse s,
      sn_scts := sn_scts s, sn_verifiedChains := sn_verifiedChains s\<rparr>) w = Some s"
    using sessionTail_back [OF w wf] by simp
  then show ?thesis
    unfolding parse sessionChains_def certs using wf chs(2) chains
    by (simp add: session_wf_def sessionCertificate_def)
qed

end

section \<open>Opening tickets\<close>

definition ticketPkgs_ok :: "ticketPkgs \<Rightarrow> bool" where
  "ticketPkgs_ok T \<longleftrightarrow> hashFn_ok (tp_sha256 T) \<and> h_Size (tp_sha256 T) = sha256_Size"

lemma decryptTicket_parts:
  assumes "length iv = aes_BlockSize" and "length mac = sha256_Size"
  shows "decryptTicket T (iv @ ct @ mac) keys = decryptTicket_loop T iv ct mac keys"
  using assms by (simp add: decryptTicket_def)

lemma decryptTicket_loop_skip:
  assumes "\<forall>k\<in>set ks. h_hmac (tp_sha256 T) (tk_hmacKey k) (iv @ ct) \<noteq> mac"
  shows "decryptTicket_loop T iv ct mac (ks @ keys) = decryptTicket_loop T iv ct mac keys"
  using assms by (induction ks) auto

lemma decryptTicket_loop_Some:
  assumes "decryptTicket_loop T iv ct mac keys = Some p"
  shows "\<exists>k ctr. k \<in> set keys \<and> mac = h_hmac (tp_sha256 T) (tk_hmacKey k) (iv @ ct) \<and>
    tp_aesCTR T (tk_aesKey k) = Inr ctr \<and> p = fst (XORKeyStream (ctr iv) ct)"
  using assms by (induction keys) (auto simp: Let_def split: if_splits sum.splits)

text \<open>No key in front of \<open>k\<close> has the ticket's MAC.\<close>

definition no_collision :: "ticketPkgs \<Rightarrow> ticketKey list \<Rightarrow> ticketKey \<Rightarrow> bytes \<Rightarrow> bool" where
  "no_collision T keys k ticket \<longleftrightarrow>
     (\<forall>k'\<in>set (takeWhile (\<lambda>k'. k' \<noteq> k) keys). \<forall>auth mac. ticket = auth @ mac \<and> length mac = sha256_Size \<longrightarrow>
        h_hmac (tp_sha256 T) (tk_hmacKey k') auth \<noteq> mac)"

lemma ticket_opens:
  assumes T: "ticketPkgs_ok T" and enc: "encryptTicket T state keys rand = (Inr ticket, rand')"
    and k: "hd keys \<in> set keys'" and nc: "no_collision T keys' (hd keys) ticket"
  shows "decryptTicket T ticket keys' = Some state"
proof -
  obtain iv ctr where iv: "length iv = aes_BlockSize" "tp_aesCTR T (tk_aesKey (hd keys)) = Inr ctr"
    and t: "ticket = iv @ fst (XORKeyStream (ctr iv) state) @
      h_hmac (tp_sha256 T) (tk_hmacKey (hd keys)) (iv @ fst (XORKeyStream (ctr iv) state))"
    using enc that [of "take 16 rand"] by (auto simp: encryptTicket_def readFull_def Let_def split: if_splits sum.splits)
  let ?ct = "fst (XORKeyStream (ctr iv) state)"
  let ?mac = "h_hmac (tp_sha256 T) (tk_hmacKey (hd keys)) (iv @ ?ct)"
  have mac: "length ?mac = sha256_Size" using T by (simp add: ticketPkgs_ok_def)
  obtain before after where split: "keys' = before @ hd keys # after" "hd keys \<notin> set before"
    using split_list_first [OF k] by blast
  then have first: "takeWhile (\<lambda>k'. k' \<noteq> hd keys) keys' = before"
    by (simp add: takeWhile_append takeWhile_eq_all_conv [THEN iffD2])
  have "\<forall>k'\<in>set before. h_hmac (tp_sha256 T) (tk_hmacKey k') (iv @ ?ct) \<noteq> ?mac"
    using nc mac unfolding no_collision_def first t by fastforce
  then have "decryptTicket_loop T iv ?ct ?mac keys' = Some state"
    unfolding split(1) using decryptTicket_loop_skip [of before T iv ?ct ?mac] iv(2) XORKeyStream_involution by simp
  then show ?thesis unfolding t using decryptTicket_parts [OF iv(1) mac] by simp
qed

section \<open>Properties\<close>

definition cert_sample :: x509Certificate where
  "cert_sample = \<lparr>crt_Raw = [9, 9], crt_PublicKey = Ed25519PublicKey [1], crt_NotBefore = 0, crt_NotAfter = 5,
     crt_RawIssuer = [], crt_CommonName = [], crt_DNSNames = []\<rparr>"

definition session_sample :: SessionState where
  "session_sample = \<lparr>sn_Extra = [[5]], sn_EarlyData = True, sn_version = VersionTLS13, sn_isClient = True,
     sn_cipherSuite = TLS_AES_128_GCM_SHA256, sn_createdAt = 7, sn_secret = [1, 2, 3], sn_extMasterSecret = False,
     sn_peerCertificates = [cert_sample], sn_ocspResponse = None, sn_scts = None,
     sn_verifiedChains = [[cert_sample, cert_sample]], sn_alpnProtocol = [104, 50], sn_useBy = 90, sn_ageAdd = 4,
     sn_ticket = [], sn_curveID = 0\<rparr>"

definition newCert_sample :: certParser where
  "newCert_sample der = (if der = [9, 9] then Inr cert_sample else Inl (ErrorsNew ''x509: malformed certificate''))"

lemma session_sample_wf: "session_wf newCert_sample session_sample"
  by (simp add: session_wf_def session_sample_def newCert_sample_def cert_sample_def Certificate_wf_def
      sessionCertificate_def certificatesToBytesSlice_def)

lemma session_sample_bytes: "\<exists>bs. SessionState_Bytes cb_ref session_sample = Inr bs"
  by (simp add: SessionState_Bytes_def wire_Some [symmetric] session_sample_def cert_sample_def cbr.wire_addChain)
    (simp add: sessionCertificate_def certificatesToBytesSlice_def cbr.wire_marshalCertificate wcat.simps wprefix_def)

text \<open>
  (C25) Session states round trip: what \<open>SessionState.Bytes\<close> encodes, \<open>ParseSessionState\<close> decodes to the same
  session, for server and client sessions of every version, with extras, stapled data, verified
  chains and early data.
\<close>

theorem session_state_roundtrip:
  assumes "cryptobyte_pkg C" and "SessionState_Bytes C s = Inr bs" and "session_wf newCert s"
  shows "ParseSessionState C newCert bs = Inr s"
  by (rule cryptobyte_pkg.session_roundtrip [OF assms])

theorem session_state_roundtrip_witness:
  "\<exists>bs. SessionState_Bytes cb_ref session_sample = Inr bs \<and> ParseSessionState cb_ref newCert_sample bs = Inr session_sample"
  using session_sample_bytes session_state_roundtrip [OF cbr.cryptobyte_pkg_axioms _ session_sample_wf] by blast

text \<open>
  (C15) Tickets are authenticated: \<open>decryptTicket\<close> returns a plaintext only for an initialisation vector,
  a ciphertext and the HMAC of both under one of the given keys, and the plaintext is the ciphertext
  decrypted with that key.
\<close>

theorem ticket_authenticated:
  assumes "decryptTicket T ticket keys = Some p"
  shows "\<exists>k ctr iv ct. k \<in> set keys \<and> length iv = aes_BlockSize \<and>
    ticket = iv @ ct @ h_hmac (tp_sha256 T) (tk_hmacKey k) (iv @ ct) \<and>
    tp_aesCTR T (tk_aesKey k) = Inr ctr \<and> p = fst (XORKeyStream (ctr iv) ct)"
proof -
  define iv ct mac where parts: "iv = take 16 ticket" "ct = drop 16 (take (length ticket - 32) ticket)"
    "mac = drop (length ticket - 32) ticket"
  have len: "\<not> length ticket < 48" and loop: "decryptTicket_loop T iv ct mac keys = Some p"
    using assms by (auto simp: decryptTicket_def parts split: if_splits)
  then have "16 \<le> length ticket - 32" by simp
  then have "take 16 (take (length ticket - 32) ticket) = iv" by (simp add: parts min_def)
  then have "take (length ticket - 32) ticket = iv @ ct"
    using append_take_drop_id [of 16 "take (length ticket - 32) ticket"] parts(2) by simp
  then have "ticket = (iv @ ct) @ mac"
    using append_take_drop_id [of "length ticket - 32" ticket] parts(3) by simp
  moreover have "length iv = 16" using len by (simp add: parts)
  moreover obtain k ctr where "k \<in> set keys" "mac = h_hmac (tp_sha256 T) (tk_hmacKey k) (iv @ ct)"
    "tp_aesCTR T (tk_aesKey k) = Inr ctr" "p = fst (XORKeyStream (ctr iv) ct)"
    using decryptTicket_loop_Some [OF loop] by blast
  ultimately show ?thesis by auto
qed

definition ticketPkgs_sample :: ticketPkgs where
  "ticketPkgs_sample = \<lparr>tp_sha256 = \<lparr>h_Size = 32, h_Sum = (\<lambda>w. replicate 32 (sum_list w)),
       h_hmac = (\<lambda>k w. replicate 32 (sum_list k + 3 * sum_list w))\<rparr>, tp_sha512 = hash_sample,
     tp_aesCTR = (\<lambda>key. Inr (\<lambda>iv. \<lparr>st_keystream = (\<lambda>n. of_nat n + sum_list key), st_pos = 0\<rparr>))\<rparr>"

definition key_sample :: ticketKey where
  "key_sample = \<lparr>tk_aesKey = [1], tk_hmacKey = [2], tk_created = 0\<rparr>"

theorem ticket_authenticated_witness:
  "\<exists>ticket k iv ct. decryptTicket ticketPkgs_sample ticket [key_sample] = Some [1, 2, 3] \<and> k \<in> set [key_sample] \<and>
     ticket = iv @ ct @ h_hmac (tp_sha256 ticketPkgs_sample) (tk_hmacKey k) (iv @ ct)"
proof -
  let ?t = "encryptTicket ticketPkgs_sample [1, 2, 3] [key_sample] (replicate 16 1)"
  have "case ?t of (Inl _, _) \<Rightarrow> False | (Inr ticket, _) \<Rightarrow>
    decryptTicket ticketPkgs_sample ticket [key_sample] = Some [1, 2, 3]" by code_simp
  then obtain ticket where d: "decryptTicket ticketPkgs_sample ticket [key_sample] = Some [1, 2, 3]"
    by (auto split: prod.splits sum.splits)
  from ticket_authenticated [OF d] d show ?thesis by blast
qed

text \<open>
  Tickets stay valid: a session ticket that \<open>EncryptTicket\<close> made with automatically managed keys is opened
  by \<open>DecryptTicket\<close> to the same session for six days, through any further rotations of the keys, as
  long as the ticket does not carry a valid MAC of a newer key.
\<close>

lemma ticket_stays_valid:
  assumes "cryptobyte_pkg C" and T: "ticketPkgs_ok T" and wf: "session_wf newCert ss"
    and run: "fresh_keys c0" "key_steps (tp_sha512 T) t0 c0 t c" and "t \<le> now"
    and enc: "EncryptTicket C T now c ss = Some (Inr ticket, c1)"
    and later: "key_steps (tp_sha512 T) now c1 t2 c2" "t2 \<le> now2" "now2 - now \<le> ticketKeyLifetime - ticketKeyRotation"
    and keys: "ownTicketKeys (tp_sha512 T) now2 c2 = Some (keys, c3)"
    and "no_collision T keys (hd (cfg_autoSessionTicketKeys c1)) ticket"
  shows "DecryptTicket C newCert T now2 c2 ticket = Some (Some ss, c3)"
proof -
  obtain ks c' bs rand where own: "ownTicketKeys (tp_sha512 T) now c = Some (ks, c')"
    and bs: "SessionState_Bytes C ss = Inr bs" and e: "encryptTicket T bs ks (cfg_Rand c') = (Inr ticket, rand)"
    and c1: "c1 = c'\<lparr>cfg_Rand := rand\<rparr>"
    using enc by (auto simp: EncryptTicket_def split: option.splits sum.splits prod.splits)
  note c = fresh_keys_ordered [OF run]
  have ks: "keys_ordered now ks" "ks \<noteq> []" "now - tk_created (hd ks) < ticketKeyRotation"
    using ownTicketKeys_ordered [OF c \<open>t \<le> now\<close> own] by auto
  have auto1: "auto_keys c1" "cfg_autoSessionTicketKeys c1 = ks"
    using ownTicketKeys_auto [OF c(1) own] by (simp_all add: c1)
  have "t2 - tk_created (hd ks) < ticketKeyLifetime" "now2 - tk_created (hd ks) < ticketKeyLifetime"
    using later(2,3) ks(3) by simp_all
  then have "hd ks \<in> set (cfg_autoSessionTicketKeys c2)" "now2 - tk_created (hd ks) < ticketKeyLifetime"
    using key_steps_keep [OF later(1) auto1(1)] auto1(2) ks(1,2) by auto
  moreover have "auto_keys c2" using key_steps_ordered [OF later(1) auto1(1)] auto1(2) ks(1) by simp
  ultimately have "hd ks \<in> set keys" using ownTicketKeys_auto [OF _ keys] by auto
  then have "decryptTicket T ticket keys = Some bs" using ticket_opens [OF T e] assms(12) auto1(2) by simp
  then show ?thesis using keys cryptobyte_pkg.session_roundtrip [OF assms(1) bs wf] by (simp add: DecryptTicket_def)
qed

end
