(* ===== verification/SessionCache.thy ===== *)
theory SessionCache
  imports Prelude
begin

text \<open>
  The client session cache (\<open>lruSessionCache\<close> of common.go). The cache holds a map from session
  keys to elements of a doubly linked list (\<open>container/list\<close>) and updates the entries in place,
  so elements are addresses into a store: \<open>m\<close> and \<open>q\<close> share them. A \<open>*ClientSessionState\<close> that may
  be nil is an option. The operations refine a list of entries in order of use, and the locale
  \<open>session_cache\<close> is the contract of the interface \<open>ClientSessionCache\<close>.
\<close>

section \<open>The cache\<close>

record 's lruSessionCacheEntry =
  le_sessionKey :: string
  le_state :: "'s option"

record 's lruSessionCache =
  lru_m :: "string \<rightharpoonup> nat"
  lru_q :: "nat list"
  lru_elems :: "nat \<rightharpoonup> 's lruSessionCacheEntry"
  lru_next :: nat
  lru_capacity :: int

definition NewLRUClientSessionCache :: "int \<Rightarrow> 's lruSessionCache" where
  "NewLRUClientSessionCache capacity =
     \<lparr>lru_m = Map.empty, lru_q = [], lru_elems = Map.empty, lru_next = 0,
      lru_capacity = (if capacity < 1 then 64 else capacity)\<rparr>"

text \<open>The operations of \<open>container/list\<close> on the order of the elements.\<close>

definition list_Remove :: "nat \<Rightarrow> nat list \<Rightarrow> nat list" where
  "list_Remove e q = remove1 e q"

definition list_MoveToFront :: "nat \<Rightarrow> nat list \<Rightarrow> nat list" where
  "list_MoveToFront e q = e # remove1 e q"

text \<open>
  \<open>None\<close> is a nil dereference: an element without an entry, or \<open>Back\<close> of an empty list. The three
  cases of \<open>Put\<close> in the order of the code: the key is present, there is room, or the entry at
  the back is reused.
\<close>

definition lru_Put :: "'s lruSessionCache \<Rightarrow> string \<Rightarrow> 's option \<Rightarrow> 's lruSessionCache option" where
  "lru_Put c sessionKey cs =
     (case lru_m c sessionKey of
        Some elem \<Rightarrow>
          (case cs of
             None \<Rightarrow> Some (c\<lparr>lru_q := list_Remove elem (lru_q c), lru_m := (lru_m c)(sessionKey := None)\<rparr>)
           | Some s \<Rightarrow> do {
               entry \<leftarrow> lru_elems c elem;
               Some (c\<lparr>lru_elems := (lru_elems c)(elem \<mapsto> entry\<lparr>le_state := Some s\<rparr>),
                 lru_q := list_MoveToFront elem (lru_q c)\<rparr>) })
      | None \<Rightarrow>
          if int (length (lru_q c)) < lru_capacity c
          then let elem = lru_next c;
                   entry = \<lparr>le_sessionKey = sessionKey, le_state = cs\<rparr>
               in Some (c\<lparr>lru_elems := (lru_elems c)(elem \<mapsto> entry), lru_q := elem # lru_q c,
                    lru_next := Suc elem, lru_m := (lru_m c)(sessionKey \<mapsto> elem)\<rparr>)
          else if lru_q c = [] then None
          else do {
            let elem = last (lru_q c);
            entry \<leftarrow> lru_elems c elem;
            let m = (lru_m c)(le_sessionKey entry := None);
            Some (c\<lparr>lru_elems := (lru_elems c)(elem \<mapsto> entry\<lparr>le_sessionKey := sessionKey, le_state := cs\<rparr>),
              lru_q := list_MoveToFront elem (lru_q c), lru_m := m(sessionKey \<mapsto> elem)\<rparr>)
          })"

definition lru_Get :: "'s lruSessionCache \<Rightarrow> string \<Rightarrow> (('s option \<times> bool) \<times> 's lruSessionCache) option" where
  "lru_Get c sessionKey =
     (case lru_m c sessionKey of
        Some elem \<Rightarrow> do {
          let c = c\<lparr>lru_q := list_MoveToFront elem (lru_q c)\<rparr>;
          entry \<leftarrow> lru_elems c elem;
          Some ((le_state entry, True), c) }
      | None \<Rightarrow> Some ((None, False), c))"

section \<open>The map and the list agree\<close>

definition lru_key :: "'s lruSessionCache \<Rightarrow> nat \<Rightarrow> string" where
  "lru_key c e = le_sessionKey (the (lru_elems c e))"

definition lru_val :: "'s lruSessionCache \<Rightarrow> nat \<Rightarrow> 's option" where
  "lru_val c e = le_state (the (lru_elems c e))"

definition lru_inv :: "'s lruSessionCache \<Rightarrow> bool" where
  "lru_inv c \<longleftrightarrow>
     1 \<le> lru_capacity c \<and> int (length (lru_q c)) \<le> lru_capacity c \<and>
     (\<forall>e\<in>set (lru_q c). e < lru_next c \<and> lru_elems c e \<noteq> None) \<and>
     distinct (map (lru_key c) (lru_q c)) \<and>
     lru_m c = map_of (map (\<lambda>e. (lru_key c e, e)) (lru_q c))"

text \<open>The abstract cache: keys and states in order of use, the most recent first.\<close>

type_synonym 's uses = "(string \<times> 's option) list"

definition lru_abs :: "'s lruSessionCache \<Rightarrow> 's uses" where
  "lru_abs c = map (\<lambda>e. (lru_key c e, lru_val c e)) (lru_q c)"

definition without :: "string \<Rightarrow> 's uses \<Rightarrow> 's uses" where
  "without k l = filter (\<lambda>(k', s). k' \<noteq> k) l"

text \<open>
  The abstract operations. A nil state removes the entry of its key; for a key that is not there
  the code stores the nil state.
\<close>

definition spec_put :: "nat \<Rightarrow> 's uses \<Rightarrow> string \<Rightarrow> 's option \<Rightarrow> 's uses" where
  "spec_put cap l k v =
     (if v = None \<and> k \<in> fst ` set l then without k l else take cap ((k, v) # without k l))"

definition spec_get :: "'s uses \<Rightarrow> string \<Rightarrow> ('s option \<times> bool) \<times> 's uses" where
  "spec_get l k = (case map_of l k of
     Some v \<Rightarrow> ((v, True), (k, v) # without k l)
   | None \<Rightarrow> ((None, False), l))"

lemma lru_inv_New: "lru_inv (NewLRUClientSessionCache capacity)"
  by (simp add: lru_inv_def NewLRUClientSessionCache_def)

lemma remove1_by_key:
  "distinct (map f q) \<Longrightarrow> e \<in> set q \<Longrightarrow> remove1 e q = filter (\<lambda>x. f x \<noteq> f e) q"
  by (induction q) (auto intro!: filter_True [symmetric] simp: image_iff)

lemma map_of_filter_keys:
  "map_of (map (\<lambda>e. (f e, g e)) (filter (\<lambda>x. f x \<noteq> k) q)) = (map_of (map (\<lambda>e. (f e, g e)) q))(k := None)"
  by (induction q) auto

lemma without_map: "without k (map (\<lambda>e. (f e, g e)) q) = map (\<lambda>e. (f e, g e)) (filter (\<lambda>x. f x \<noteq> k) q)"
  by (simp add: without_def filter_map comp_def)

lemma map_of_keys_Some: "map_of (map (\<lambda>e. (f e, e)) q) k = Some e \<Longrightarrow> e \<in> set q \<and> f e = k"
  by (induction q) (auto split: if_splits)

lemma map_of_keys_None: "map_of (map (\<lambda>e. (f e, g e)) q) k = None \<longleftrightarrow> k \<notin> f ` set q"
  by (auto simp: map_of_eq_None_iff image_iff)

text \<open>The cache after an update that puts element \<open>e\<close> to the front with a new entry.\<close>

lemma lru_front:
  assumes inv: "lru_inv c" and keys: "\<forall>x\<in>set q. lru_key c x \<noteq> k" and sub: "set q \<subseteq> set (lru_q c)"
    and dist: "distinct (map (lru_key c) q)" and fresh: "e \<notin> set q"
    and c': "c' = c\<lparr>lru_elems := (lru_elems c)(e \<mapsto> \<lparr>le_sessionKey = k, le_state = v\<rparr>), lru_q := e # q,
      lru_next := n, lru_m := (map_of (map (\<lambda>x. (lru_key c x, x)) q))(k \<mapsto> e)\<rparr>"
    and n: "e < n" "lru_next c \<le> n" and len: "int (length q) < lru_capacity c"
  shows "lru_inv c'" and "lru_abs c' = (k, v) # map (\<lambda>x. (lru_key c x, lru_val c x)) q"
proof -
  have k': "lru_key c' e = k" "lru_val c' e = v" by (simp_all add: c' lru_key_def lru_val_def)
  have old: "lru_key c' x = lru_key c x" "lru_val c' x = lru_val c x" "lru_elems c' x = lru_elems c x" if "x \<in> set q" for x
    using that fresh by (auto simp: c' lru_key_def lru_val_def)
  have same: "map (lru_key c') q = map (lru_key c) q"
    "map (\<lambda>x. (lru_key c' x, x)) q = map (\<lambda>x. (lru_key c x, x)) q"
    "map (\<lambda>x. (lru_key c' x, lru_val c' x)) q = map (\<lambda>x. (lru_key c x, lru_val c x)) q"
    by (simp_all add: old)
  have q': "lru_q c' = e # q" "lru_next c' = n" "lru_capacity c' = lru_capacity c" "lru_elems c' e \<noteq> None"
    and m': "lru_m c' = (map_of (map (\<lambda>x. (lru_key c x, x)) q))(k \<mapsto> e)" by (simp_all add: c')
  have m: "lru_m c' = map_of (map (\<lambda>x. (lru_key c' x, x)) (lru_q c'))"
    unfolding q'(1) m' list.map map_of.simps same(2) k' by simp
  have el: "\<forall>x\<in>set (lru_q c'). x < lru_next c' \<and> lru_elems c' x \<noteq> None"
    using inv sub n old q' by (force simp: lru_inv_def subset_iff)
  have d: "distinct (map (lru_key c') (lru_q c'))"
    unfolding q'(1) list.map same(1) k' using dist keys by auto
  show "lru_inv c'" unfolding lru_inv_def using m el d inv len q' by (auto simp: lru_inv_def)
  show "lru_abs c' = (k, v) # map (\<lambda>x. (lru_key c x, lru_val c x)) q"
    unfolding lru_abs_def q'(1) list.map same(3) k' ..
qed

lemma lru_inv_parts:
  assumes "lru_inv c"
  shows "distinct (map (lru_key c) (lru_q c))" and "distinct (lru_q c)"
    and "e \<in> set (lru_q c) \<Longrightarrow> lru_elems c e = Some \<lparr>le_sessionKey = lru_key c e, le_state = lru_val c e\<rparr>"
    and "lru_m c = map_of (map (\<lambda>e. (lru_key c e, e)) (lru_q c))"
    and "e \<in> set (lru_q c) \<Longrightarrow> e < lru_next c"
  using assms by (auto simp: lru_inv_def lru_key_def lru_val_def dest: distinct_map [THEN iffD1])

lemma lru_m_Some:
  assumes "lru_inv c" and "lru_m c k = Some e"
  shows "e \<in> set (lru_q c)" and "lru_key c e = k"
    and "remove1 e (lru_q c) = filter (\<lambda>x. lru_key c x \<noteq> k) (lru_q c)"
    and "map_of (lru_abs c) k = Some (lru_val c e)"
proof -
  from assms show e: "e \<in> set (lru_q c)" "lru_key c e = k"
    using map_of_keys_Some [of "lru_key c" "lru_q c" k e] by (simp_all add: lru_inv_parts(4))
  show "remove1 e (lru_q c) = filter (\<lambda>x. lru_key c x \<noteq> k) (lru_q c)"
    using remove1_by_key [OF lru_inv_parts(1) [OF assms(1)] e(1)] e(2) by simp
  have "distinct (map fst (lru_abs c))" using lru_inv_parts(1) [OF assms(1)] by (simp add: lru_abs_def comp_def)
  moreover have "(k, lru_val c e) \<in> set (lru_abs c)" using e by (auto simp: lru_abs_def)
  ultimately show "map_of (lru_abs c) k = Some (lru_val c e)" by (rule map_of_is_SomeI)
qed

lemma lru_m_None:
  assumes "lru_inv c" and "lru_m c k = None"
  shows "k \<notin> lru_key c ` set (lru_q c)" and "map_of (lru_abs c) k = None" and "without k (lru_abs c) = lru_abs c"
    and "k \<notin> fst ` set (lru_abs c)"
  using assms
  by (auto simp: lru_inv_parts(4) map_of_keys_None lru_abs_def without_def image_iff map_of_eq_None_iff intro!: filter_True)

section \<open>The operations refine the list of uses\<close>

lemma lru_Put_present:
  assumes inv: "lru_inv c" and m: "lru_m c k = Some e"
  shows "\<exists>c'. lru_Put c k v = Some c' \<and> lru_inv c' \<and> lru_capacity c' = lru_capacity c \<and>
    lru_abs c' = (if v = None then without k (lru_abs c) else (k, v) # without k (lru_abs c))"
proof -
  note e = lru_m_Some [OF inv m]
  let ?q = "filter (\<lambda>x. lru_key c x \<noteq> k) (lru_q c)"
  have rest: "without k (lru_abs c) = map (\<lambda>x. (lru_key c x, lru_val c x)) ?q"
    by (simp add: lru_abs_def without_map)
  have m': "map_of (map (\<lambda>x. (lru_key c x, x)) ?q) = (lru_m c)(k := None)"
    using map_of_filter_keys [of "lru_key c" "\<lambda>x. x"] lru_inv_parts(4) [OF inv] by simp
  have dist: "distinct (map (lru_key c) ?q)" using lru_inv_parts(1) [OF inv] by (simp add: distinct_map_filter)
  have len: "length ?q < length (lru_q c)" using e(1,2) by (intro length_filter_less) auto
  show ?thesis
  proof (cases v)
    case None
    define c' where "c' = c\<lparr>lru_q := ?q, lru_m := (lru_m c)(k := None)\<rparr>"
    have put: "lru_Put c k v = Some c'" using None m e(3) by (simp add: lru_Put_def list_Remove_def c'_def)
    have same: "lru_key c' = lru_key c" "lru_val c' = lru_val c"
      by (simp_all add: fun_eq_iff lru_key_def lru_val_def c'_def)
    have "lru_inv c'" unfolding lru_inv_def same using inv dist m' len by (auto simp: lru_inv_def c'_def)
    moreover have "lru_abs c' = without k (lru_abs c)" using rest by (simp add: lru_abs_def same) (simp add: c'_def)
    ultimately show ?thesis using put None by (auto simp: c'_def)
  next
    case (Some s)
    define c' where "c' = c\<lparr>lru_elems := (lru_elems c)(e \<mapsto> \<lparr>le_sessionKey = k, le_state = v\<rparr>),
      lru_q := e # ?q, lru_next := lru_next c, lru_m := (map_of (map (\<lambda>x. (lru_key c x, x)) ?q))(k \<mapsto> e)\<rparr>"
    have "(lru_m c)(k \<mapsto> e) = lru_m c" using m by (simp add: fun_upd_idem)
    then have put: "lru_Put c k v = Some c'"
      using Some m e(2,3) lru_inv_parts(3) [OF inv e(1)]
      by (simp add: lru_Put_def list_MoveToFront_def c'_def m')
    have "int (length ?q) < lru_capacity c" using len inv by (simp add: lru_inv_def)
    then have "lru_inv c'" "lru_abs c' = (k, v) # without k (lru_abs c)"
      using lru_front [OF inv _ _ dist _ c'_def lru_inv_parts(5) [OF inv e(1)] order_refl] e(2) rest by auto
    then show ?thesis using put Some by (auto simp: c'_def)
  qed
qed

lemma lru_Put_absent:
  assumes inv: "lru_inv c" and m: "lru_m c k = None"
  shows "\<exists>c'. lru_Put c k v = Some c' \<and> lru_inv c' \<and> lru_capacity c' = lru_capacity c \<and>
    lru_abs c' = take (nat (lru_capacity c)) ((k, v) # lru_abs c)"
proof (cases "int (length (lru_q c)) < lru_capacity c")
  case True
  define c' where "c' = c\<lparr>lru_elems := (lru_elems c)(lru_next c \<mapsto> \<lparr>le_sessionKey = k, le_state = v\<rparr>),
    lru_q := lru_next c # lru_q c, lru_next := Suc (lru_next c),
    lru_m := (map_of (map (\<lambda>x. (lru_key c x, x)) (lru_q c)))(k \<mapsto> lru_next c)\<rparr>"
  have put: "lru_Put c k v = Some c'"
    using True m lru_inv_parts(4) [OF inv] by (simp add: lru_Put_def c'_def Let_def)
  have "lru_next c \<notin> set (lru_q c)" using lru_inv_parts(5) [OF inv] by blast
  then have "lru_inv c'" "lru_abs c' = (k, v) # lru_abs c"
    using lru_front [OF inv _ order_refl lru_inv_parts(1) [OF inv] _ c'_def _ _ True] lru_m_None(1) [OF inv m]
    by (auto simp: lru_abs_def)
  moreover have "take (nat (lru_capacity c)) ((k, v) # lru_abs c) = (k, v) # lru_abs c"
    using True by (simp add: lru_abs_def)
  ultimately show ?thesis using put by (auto simp: c'_def)
next
  case False
  then have full: "int (length (lru_q c)) = lru_capacity c" and ne: "lru_q c \<noteq> []" using inv by (auto simp: lru_inv_def)
  let ?e = "last (lru_q c)" and ?q = "butlast (lru_q c)"
  have q: "lru_q c = ?q @ [?e]" using ne by simp
  have dist: "distinct (map (lru_key c) ?q)" "?e \<notin> set ?q" "lru_key c ?e \<notin> lru_key c ` set ?q"
  proof -
    have "distinct (map (lru_key c) (?q @ [?e]))" unfolding q [symmetric] by (rule lru_inv_parts(1) [OF inv])
    then show "distinct (map (lru_key c) ?q)" "?e \<notin> set ?q" "lru_key c ?e \<notin> lru_key c ` set ?q" by auto
  qed
  define c' where "c' = c\<lparr>lru_elems := (lru_elems c)(?e \<mapsto> \<lparr>le_sessionKey = k, le_state = v\<rparr>), lru_q := ?e # ?q,
    lru_next := lru_next c, lru_m := (map_of (map (\<lambda>x. (lru_key c x, x)) ?q))(k \<mapsto> ?e)\<rparr>"
  have "remove1 ?e (lru_q c) = ?q" using dist(2) by (subst q) (simp add: remove1_append)
  moreover have "(lru_m c)(lru_key c ?e := None) = map_of (map (\<lambda>x. (lru_key c x, x)) ?q)"
  proof -
    have "filter (\<lambda>x. lru_key c x \<noteq> lru_key c ?e) (lru_q c) = ?q"
      using dist(3) by (subst q) (auto simp: image_iff intro!: filter_True)
    then show ?thesis
      using map_of_filter_keys [of "lru_key c" "\<lambda>x. x" "lru_key c ?e" "lru_q c"] lru_inv_parts(4) [OF inv] by simp
  qed
  ultimately have put: "lru_Put c k v = Some c'"
    using False m ne lru_inv_parts(3) [OF inv, of ?e] by (simp add: lru_Put_def list_MoveToFront_def c'_def Let_def)
  have "0 < length (lru_q c)" using ne by simp
  then have len: "int (length ?q) < lru_capacity c" unfolding length_butlast using full by linarith
  have keys: "\<forall>x\<in>set ?q. lru_key c x \<noteq> k" using lru_m_None(1) [OF inv m] by (auto dest: in_set_butlastD)
  have "lru_inv c'" "lru_abs c' = (k, v) # map (\<lambda>x. (lru_key c x, lru_val c x)) ?q"
    using lru_front [OF inv keys _ dist(1,2) c'_def lru_inv_parts(5) [OF inv] order_refl len] ne
    by (auto dest: in_set_butlastD)
  moreover have "map (\<lambda>x. (lru_key c x, lru_val c x)) ?q = take (nat (lru_capacity c) - 1) (lru_abs c)"
    using full by (simp add: lru_abs_def butlast_conv_take take_map) (metis nat_int)
  moreover have "0 < nat (lru_capacity c)" using inv by (simp add: lru_inv_def)
  ultimately show ?thesis using put by (auto simp: c'_def take_Cons')
qed

lemma length_without: "k \<in> fst ` set l \<Longrightarrow> length (without k l) < length l"
  by (auto simp: without_def intro!: length_filter_less)

lemma lru_Put_refines:
  assumes inv: "lru_inv c"
  shows "\<exists>c'. lru_Put c k v = Some c' \<and> lru_inv c' \<and> lru_capacity c' = lru_capacity c \<and>
    lru_abs c' = spec_put (nat (lru_capacity c)) (lru_abs c) k v"
proof (cases "lru_m c k")
  case None
  then show ?thesis
    using lru_Put_absent [OF inv None, of v] lru_m_None [OF inv None] by (simp add: spec_put_def)
next
  case (Some e)
  have k: "k \<in> fst ` set (lru_abs c)" using lru_m_Some(1,2) [OF inv Some] by (force simp: lru_abs_def)
  have "length (lru_abs c) \<le> nat (lru_capacity c)" using inv by (auto simp: lru_inv_def lru_abs_def)
  with length_without [OF k] show ?thesis
    using lru_Put_present [OF inv Some, of v] k by (cases v) (simp_all add: spec_put_def)
qed

lemma lru_Get_refines:
  assumes inv: "lru_inv c"
  shows "\<exists>c'. lru_Get c k = Some (fst (spec_get (lru_abs c) k), c') \<and> lru_inv c' \<and>
    lru_capacity c' = lru_capacity c \<and> lru_abs c' = snd (spec_get (lru_abs c) k)"
proof (cases "lru_m c k")
  case None
  then show ?thesis using inv lru_m_None(2) [OF inv None] by (simp add: lru_Get_def spec_get_def)
next
  case (Some e)
  note e = lru_m_Some [OF inv Some]
  have entry: "lru_elems c e = Some \<lparr>le_sessionKey = k, le_state = lru_val c e\<rparr>"
    using lru_inv_parts(3) [OF inv e(1)] e(2) by simp
  let ?q = "filter (\<lambda>x. lru_key c x \<noteq> k) (lru_q c)"
  define c' where "c' = c\<lparr>lru_elems := (lru_elems c)(e \<mapsto> \<lparr>le_sessionKey = k, le_state = lru_val c e\<rparr>),
    lru_q := e # ?q, lru_next := lru_next c, lru_m := (map_of (map (\<lambda>x. (lru_key c x, x)) ?q))(k \<mapsto> e)\<rparr>"
  have "map_of (map (\<lambda>x. (lru_key c x, x)) ?q) = (lru_m c)(k := None)"
    using map_of_filter_keys [of "lru_key c" "\<lambda>x. x"] lru_inv_parts(4) [OF inv] by simp
  then have "c' = c\<lparr>lru_q := e # ?q\<rparr>" using entry Some by (simp add: c'_def fun_upd_idem)
  then have get: "lru_Get c k = Some ((lru_val c e, True), c')"
    using Some e(3) entry by (simp add: lru_Get_def list_MoveToFront_def)
  have "distinct (map (lru_key c) ?q)" using lru_inv_parts(1) [OF inv] by (simp add: distinct_map_filter)
  moreover have "length ?q < length (lru_q c)" using e(1,2) by (intro length_filter_less) auto
  then have "int (length ?q) < lru_capacity c" using inv by (simp add: lru_inv_def)
  ultimately have "lru_inv c'" "lru_abs c' = (k, lru_val c e) # without k (lru_abs c)"
    using lru_front [OF inv _ _ _ _ c'_def lru_inv_parts(5) [OF inv e(1)] order_refl] e(2)
    by (auto simp: lru_abs_def without_map)
  then show ?thesis using get e(4) by (auto simp: spec_get_def c'_def)
qed

section \<open>The contract of a session cache\<close>

text \<open>
  What the handshake relies on of a \<open>ClientSessionCache\<close>: a look-up after \<open>Put\<close> finds the value
  (or nothing, for a nil value), other keys keep their value or are dropped, and \<open>Get\<close> returns what
  is there and changes no binding.
\<close>

locale session_cache =
  fixes inv :: "'c \<Rightarrow> bool"
    and binding :: "'c \<Rightarrow> string \<Rightarrow> 's option option"
    and Put :: "'c \<Rightarrow> string \<Rightarrow> 's option \<Rightarrow> 'c option"
    and Get :: "'c \<Rightarrow> string \<Rightarrow> (('s option \<times> bool) \<times> 'c) option"
  assumes Put_returns: "inv c \<Longrightarrow> \<exists>c'. Put c k v = Some c' \<and> inv c'"
    and Put_same: "inv c \<Longrightarrow> Put c k v = Some c' \<Longrightarrow> binding c' k = Some v \<or> v = None \<and> binding c' k = None"
    and Put_other: "inv c \<Longrightarrow> Put c k v = Some c' \<Longrightarrow> k' \<noteq> k \<Longrightarrow> binding c' k' = binding c k' \<or> binding c' k' = None"
    and Get_returns: "inv c \<Longrightarrow> \<exists>c'. Get c k =
      Some (case binding c k of Some v \<Rightarrow> (v, True) | None \<Rightarrow> (None, False), c') \<and> inv c' \<and> binding c' = binding c"

datatype 's cacheOp = OpPut string "'s option" | OpGet string

fun cache_run :: "('c \<Rightarrow> string \<Rightarrow> 's option \<Rightarrow> 'c option) \<Rightarrow>
    ('c \<Rightarrow> string \<Rightarrow> (('s option \<times> bool) \<times> 'c) option) \<Rightarrow> 'c \<Rightarrow> 's cacheOp list \<Rightarrow> 'c option" where
  "cache_run Put Get c [] = Some c"
| "cache_run Put Get c (OpPut k v # ops) = Option.bind (Put c k v) (\<lambda>c. cache_run Put Get c ops)"
| "cache_run Put Get c (OpGet k # ops) = Option.bind (Get c k) (\<lambda>(r, c). cache_run Put Get c ops)"

text \<open>The value of the last \<open>Put\<close> for each key.\<close>

fun puts :: "(string \<rightharpoonup> 's option) \<Rightarrow> 's cacheOp list \<Rightarrow> (string \<rightharpoonup> 's option)" where
  "puts m [] = m"
| "puts m (OpPut k v # ops) = puts (m(k \<mapsto> v)) ops"
| "puts m (OpGet k # ops) = puts m ops"

context session_cache
begin

lemma run_puts:
  "inv c \<Longrightarrow> (\<And>k v. binding c k = Some v \<Longrightarrow> m k = Some v) \<Longrightarrow>
     \<exists>c'. cache_run Put Get c ops = Some c' \<and> inv c' \<and> (\<forall>k v. binding c' k = Some v \<longrightarrow> puts m ops k = Some v)"
proof (induction ops arbitrary: c m)
  case Nil
  then show ?case by simp
next
  case (Cons op ops)
  show ?case
  proof (cases op)
    case (OpPut k v)
    obtain c1 where c1: "Put c k v = Some c1" "inv c1" using Put_returns [OF Cons.prems(1)] by blast
    have "(m(k \<mapsto> v)) k' = Some v'" if "binding c1 k' = Some v'" for k' v'
      using that Put_same [OF Cons.prems(1) c1(1)] Put_other [OF Cons.prems(1) c1(1), of k'] Cons.prems(2) [of k' v']
      by (cases "k' = k") auto
    then show ?thesis using Cons.IH [OF c1(2)] OpPut c1(1) by simp
  next
    case (OpGet k)
    obtain r c1 where "Get c k = Some (r, c1)" "inv c1" "binding c1 = binding c"
      using Get_returns [OF Cons.prems(1)] by blast
    then show ?thesis using Cons.IH [of c1 m] Cons.prems OpGet by simp
  qed
qed

lemma Get_fresh:
  assumes "inv c" and "\<forall>k. binding c k = None"
  shows "\<exists>c' r c''. cache_run Put Get c ops = Some c' \<and> Get c' k = Some (r, c'') \<and>
    (snd r \<longrightarrow> puts Map.empty ops k = Some (fst r))"
proof -
  obtain c' where c': "cache_run Put Get c ops = Some c'" "inv c'"
    "\<forall>k v. binding c' k = Some v \<longrightarrow> puts Map.empty ops k = Some v"
    using run_puts [OF assms(1), of Map.empty ops] assms(2) by auto
  moreover obtain c'' where "Get c' k = Some (case binding c' k of Some v \<Rightarrow> (v, True) | None \<Rightarrow> (None, False), c'')"
    using Get_returns [OF c'(2)] by blast
  ultimately show ?thesis by (auto split: option.splits)
qed

end

lemma map_of_without: "map_of (without k l) k' = (if k' = k then None else map_of l k')"
  by (induction l) (auto simp: without_def)

lemma map_of_take: "map_of (take n l) k = Some v \<Longrightarrow> map_of l k = Some v"
  by (metis append_take_drop_id map_of_append map_add_SomeD map_add_find_right map_add_Some_iff)

lemma spec_put_same: "0 < cap \<Longrightarrow> map_of (spec_put cap l k v) k = Some v \<or> v = None \<and> map_of (spec_put cap l k v) k = None"
  by (cases cap) (auto simp: spec_put_def map_of_without)

lemma spec_put_other:
  "k' \<noteq> k \<Longrightarrow> map_of (spec_put cap l k v) k' = map_of l k' \<or> map_of (spec_put cap l k v) k' = None"
proof (cases "map_of (take cap ((k, v) # without k l)) k'")
  case (Some w)
  assume "k' \<noteq> k"
  with map_of_take [OF Some] Some show ?thesis by (simp add: spec_put_def map_of_without)
qed (simp add: spec_put_def map_of_without)

interpretation lru: session_cache lru_inv "\<lambda>c. map_of (lru_abs c)" lru_Put lru_Get
proof
  fix c :: "'s lruSessionCache" and k v
  assume inv: "lru_inv c"
  show "\<exists>c'. lru_Put c k v = Some c' \<and> lru_inv c'" using lru_Put_refines [OF inv] by blast
  show "\<exists>c'. lru_Get c k = Some (case map_of (lru_abs c) k of Some v \<Rightarrow> (v, True) | None \<Rightarrow> (None, False), c') \<and>
      lru_inv c' \<and> map_of (lru_abs c') = map_of (lru_abs c)"
    using lru_Get_refines [OF inv, of k]
    by (auto simp: spec_get_def fun_eq_iff map_of_without split: option.splits)
next
  fix c c' :: "'s lruSessionCache" and k v
  assume inv: "lru_inv c" and put: "lru_Put c k v = Some c'"
  then have abs: "lru_abs c' = spec_put (nat (lru_capacity c)) (lru_abs c) k v"
    using lru_Put_refines [OF inv, of k v] by simp
  have "0 < nat (lru_capacity c)" using inv by (simp add: lru_inv_def)
  then show "map_of (lru_abs c') k = Some v \<or> v = None \<and> map_of (lru_abs c') k = None"
    unfolding abs by (rule spec_put_same)
  show "map_of (lru_abs c') k' = map_of (lru_abs c) k' \<or> map_of (lru_abs c') k' = None" if "k' \<noteq> k" for k'
    unfolding abs by (rule spec_put_other [OF that])
qed

section \<open>Properties\<close>



text \<open>
  A cached session is never stale: after any sequence of \<open>Put\<close> and \<open>Get\<close> calls on a new cache,
  a session that \<open>Get\<close> finds under a key is the one of the last \<open>Put\<close> for that key.
\<close>

lemma session_cache_never_stale:
  "\<exists>c r c'. cache_run lru_Put lru_Get (NewLRUClientSessionCache capacity) ops = Some c \<and>
     lru_Get c k = Some (r, c') \<and> (snd r \<longrightarrow> puts Map.empty ops k = Some (fst r))"
  using lru.Get_fresh [OF lru_inv_New, of capacity ops k] by (simp add: lru_abs_def NewLRUClientSessionCache_def)

text \<open>
  \<open>Put\<close> of a nil state for a key that is not in the cache does not leave the cache as it was:
  the key is bound to the nil state, \<open>Get\<close> finds it (with \<open>ok\<close> true), and in a full cache the least
  recently used session is lost. The documentation says that a nil state removes the entry.
\<close>

lemma put_nil_stores_nil:
  assumes "lru_inv c" and "lru_m c k = None"
  shows "\<exists>c' c''. lru_Put c k None = Some c' \<and> lru_Get c' k = Some ((None, True), c'') \<and>
    lru_abs c' = take (nat (lru_capacity c)) ((k, None) # lru_abs c)"
proof -
  obtain c' where c': "lru_Put c k None = Some c'" "lru_inv c'" "lru_capacity c' = lru_capacity c"
    "lru_abs c' = take (nat (lru_capacity c)) ((k, None) # lru_abs c)"
    using lru_Put_absent [OF assms, of None] by blast
  moreover have "0 < nat (lru_capacity c)" using assms(1) by (simp add: lru_inv_def)
  then have "map_of (lru_abs c') k = Some None" unfolding c'(4) by (cases "nat (lru_capacity c)") simp_all
  ultimately show ?thesis using lru_Get_refines [OF c'(2), of k] by (auto simp: spec_get_def)
qed

end
