(* ===== verification/Conn.thy ===== *)
theory Conn
  imports HalfConn Ticket SessionCache
begin

text \<open>
  The connection of conn.go, its state and its writing side: the limits on record sizes, the
  buffered writer, the loop that cuts data into protected records, alerts and the ChangeCipherSpec
  record, with the QUIC variant of these operations. The underlying \<open>net.Conn\<close> is the script of its
  replies to \<open>Read\<close> and \<open>Write\<close> with what was written to it; \<open>None\<close> is a run-time panic or a loop
  that does not end. Mutexes are not modelled: each operation runs to its end.
\<close>

section \<open>The underlying connection\<close>

record netConn =
  nc_reads :: "(bytes \<times> goerror option) list"
  nc_writes :: "(nat \<times> goerror option) list"
  nc_sent :: bytes
  nc_closed :: bool
  nc_closeErr :: "goerror option"
  nc_RemoteAddr :: string

text \<open>\<open>Read\<close> delivers the next chunk, end of file behind the script.\<close>

definition nc_Read :: "netConn \<Rightarrow> (bytes \<times> goerror option) \<times> netConn" where
  "nc_Read nc = (case nc_reads nc of
     [] \<Rightarrow> (([], Some IoEOF), nc)
   | r # rs \<Rightarrow> (r, nc\<lparr>nc_reads := rs\<rparr>))"

text \<open>\<open>Write\<close> takes as many bytes as its reply says, all of them behind the script.\<close>

definition nc_Write :: "netConn \<Rightarrow> bytes \<Rightarrow> (nat \<times> goerror option) \<times> netConn" where
  "nc_Write nc data = (case nc_writes nc of
     [] \<Rightarrow> ((length data, None), nc\<lparr>nc_sent := nc_sent nc @ data\<rparr>)
   | (n, err) # ws \<Rightarrow> (let n = min n (length data)
       in ((n, err), nc\<lparr>nc_sent := nc_sent nc @ take n data, nc_writes := ws\<rparr>)))"

section \<open>Connection state\<close>

datatype QUICEventKind = QUICNoEvent | QUICSetReadSecret | QUICSetWriteSecret | QUICWriteData |
  QUICTransportParameters | QUICTransportParametersRequired | QUICRejectedEarlyData | QUICHandshakeDone |
  QUICResumeSession | QUICStoreSession | QUICErrorEvent

record QUICEvent =
  qe_Kind :: QUICEventKind
  qe_Level :: QUICEncryptionLevel
  qe_Data :: bytes
  qe_Suite :: u16
  qe_SessionState :: "SessionState option"
  qe_Err :: "goerror option"

definition QUICEvent_zero :: QUICEvent where
  "QUICEvent_zero = \<lparr>qe_Kind = QUICNoEvent, qe_Level = QUICEncryptionLevelInitial, qe_Data = [], qe_Suite = 0,
     qe_SessionState = None, qe_Err = None\<rparr>"

text \<open>
  \<open>quicState\<close>, with the signals that the handshake goroutine will receive while it is blocked in
  \<open>quicWaitForSignal\<close>: the data that \<open>HandleData\<close> left in \<open>readbuf\<close>, the transport parameters that
  \<open>SetTransportParameters\<close> set, an event queue that \<open>NextEvent\<close> found drained, or a cancelled context.
\<close>

datatype quicSignal = QSData bytes | QSTransportParameters bytes | QSDrained | QSCanceled

record quicState =
  qs_events :: "QUICEvent list"
  qs_nextEvent :: nat
  qs_started :: bool
  qs_waitingForDrain :: bool
  qs_errorReturned :: bool
  qs_transportParams :: "bytes option"
  qs_enableSessionEvents :: bool
  qs_signals :: "quicSignal list"

text \<open>
  \<open>Conn\<close> without its locks and closures. \<open>c_conn\<close> is nil exactly for QUIC connections, which never touch it.
  The session cache of the configuration is the LRU cache of common.go.
\<close>

record Conn =
  c_conn :: netConn
  c_isClient :: bool
  c_quic :: "quicState option"
  c_isHandshakeComplete :: bool
  c_handshakeErr :: "goerror option"
  c_vers :: u16
  c_haveVers :: bool
  c_config :: Config
  c_ClientSessionCache :: "ClientSessionState lruSessionCache option"
  c_handshakes :: nat
  c_extMasterSecret :: bool
  c_didResume :: bool
  c_didHRR :: bool
  c_cipherSuite :: u16
  c_curveID :: u16
  c_peerSigAlg :: u16
  c_ocspResponse :: "bytes option"
  c_scts :: "bytes list option"
  c_peerCertificates :: "x509Certificate list"
  c_verifiedChains :: "x509Certificate list list"
  c_serverName :: string
  c_secureRenegotiation :: bool
  c_resumptionSecret :: "bytes option"
  c_echAccepted :: bool
  c_ticketKeys :: "ticketKey list"
  c_clientFinishedIsFirst :: bool
  c_closeNotifyErr :: "goerror option"
  c_closeNotifySent :: bool
  c_clientFinished :: bytes
  c_serverFinished :: bytes
  c_clientProtocol :: bytes
  c_in :: halfConn
  c_out :: halfConn
  c_rawInput :: bytes
  c_input :: bytes
  c_hand :: bytes
  c_buffering :: bool
  c_sendBuf :: bytes
  c_bytesSent :: int
  c_packetsSent :: int
  c_retryCount :: nat
  c_activeCall :: int

abbreviation c_rand :: "Conn \<Rightarrow> bytes" where "c_rand c \<equiv> cfg_Rand (c_config c)"

abbreviation set_rand :: "bytes \<Rightarrow> Conn \<Rightarrow> Conn" where
  "set_rand rand c \<equiv> c\<lparr>c_config := (c_config c)\<lparr>cfg_Rand := rand\<rparr>\<rparr>"

section \<open>Record sizes\<close>

abbreviation tcpMSSEstimate :: int where "tcpMSSEstimate \<equiv> 1208"
abbreviation recordSizeBoostThreshold :: int where "recordSizeBoostThreshold \<equiv> 131072"

text \<open>The payload that fits one TCP segment; \<open>None\<close> is the nil dereference of a missing MAC.\<close>

definition segmentPayload :: "Conn \<Rightarrow> int option" where
  "segmentPayload c = do {
     let payloadBytes = tcpMSSEstimate - int recordHeaderLen - int (hc_explicitNonceLen (c_out c));
     payloadBytes \<leftarrow> (case hc_cipher (c_out c) of
         None \<Rightarrow> Some payloadBytes
       | Some (Stream s) \<Rightarrow> map_option (\<lambda>h. payloadBytes - int (mac_Size h)) (hc_mac (c_out c))
       | Some (Aead a) \<Rightarrow> Some (payloadBytes - int (aead_Overhead a))
       | Some (CBC cb) \<Rightarrow> map_option
           (\<lambda>h. and payloadBytes (not (int (cbc_blockSize cb) - 1)) - 1 - int (mac_Size h)) (hc_mac (c_out c)));
     Some (if c_vers c = VersionTLS13 then payloadBytes - 1 else payloadBytes)
   }"

definition maxPayloadSizeForWrite :: "Conn \<Rightarrow> u8 \<Rightarrow> (int \<times> Conn) option" where
  "maxPayloadSizeForWrite c typ =
     (if cfg_DynamicRecordSizingDisabled (c_config c) \<or> typ \<noteq> recordTypeApplicationData then Some (int maxPlaintext, c)
      else if c_bytesSent c \<ge> recordSizeBoostThreshold then Some (int maxPlaintext, c)
      else do {
        payloadBytes \<leftarrow> segmentPayload c;
        let pkt = c_packetsSent c;
        let c = c\<lparr>c_packetsSent := pkt + 1\<rparr>;
        if pkt > 1000 then Some (int maxPlaintext, c)
        else let n = payloadBytes * (pkt + 1)
             in Some (if n > int maxPlaintext then int maxPlaintext else n, c)
      })"

section \<open>Writing\<close>

definition conn_write :: "Conn \<Rightarrow> bytes \<Rightarrow> (nat \<times> goerror option) \<times> Conn" where
  "conn_write c data =
     (if c_buffering c then ((length data, None), c\<lparr>c_sendBuf := c_sendBuf c @ data\<rparr>)
      else let ((n, err), nc) = nc_Write (c_conn c) data
           in ((n, err), c\<lparr>c_conn := nc, c_bytesSent := c_bytesSent c + int n\<rparr>))"

definition conn_flush :: "Conn \<Rightarrow> (nat \<times> goerror option) \<times> Conn" where
  "conn_flush c =
     (if c_sendBuf c = [] then ((0, None), c)
      else let ((n, err), nc) = nc_Write (c_conn c) (c_sendBuf c)
           in ((n, err), c\<lparr>c_conn := nc, c_bytesSent := c_bytesSent c + int n, c_sendBuf := [], c_buffering := False\<rparr>))"

definition quicWriteCryptoData :: "quicState \<Rightarrow> QUICEncryptionLevel \<Rightarrow> bytes \<Rightarrow> quicState" where
  "quicWriteCryptoData q level data =
     (let events = qs_events q;
          events = (if events = [] \<or> qe_Kind (last events) \<noteq> QUICWriteData \<or> qe_Level (last events) \<noteq> level
                    then events @ [QUICEvent_zero\<lparr>qe_Kind := QUICWriteData, qe_Level := level\<rparr>]
                    else events);
          l = last events
      in q\<lparr>qs_events := butlast events @ [l\<lparr>qe_Data := qe_Data l @ data\<rparr>]\<rparr>)"

definition recordHeader :: "Conn \<Rightarrow> u8 \<Rightarrow> int \<Rightarrow> bytes" where
  "recordHeader c typ m =
     (let vers = (if c_vers c = 0 then VersionTLS10
                  else if c_vers c = VersionTLS13 then VersionTLS12 else c_vers c)
      in [typ, ucast (drop_bit 8 vers), ucast vers] @ lenBytes m)"

partial_function (option) writeRecords ::
    "Conn \<Rightarrow> u8 \<Rightarrow> bytes \<Rightarrow> nat \<Rightarrow> ((nat \<times> goerror option) \<times> Conn) option" where
  "writeRecords c typ data n =
     (if data = [] then Some ((n, None), c)
      else case maxPayloadSizeForWrite c typ of
        None \<Rightarrow> None
      | Some (maxPayload, c) \<Rightarrow>
          (let m = (if int (length data) > maxPayload then maxPayload else int (length data)) in
           if m < 0 then None
           else case hc_encrypt (c_out c) (recordHeader c typ m) (take (nat m) data) (c_rand c) of
             None \<Rightarrow> None
           | Some (Inl e, out, rand) \<Rightarrow> Some ((n, Some e), set_rand rand (c\<lparr>c_out := out\<rparr>))
           | Some (Inr outBuf, out, rand) \<Rightarrow>
               (case conn_write (set_rand rand (c\<lparr>c_out := out\<rparr>)) outBuf of
                  ((_, Some e), c) \<Rightarrow> Some ((n, Some e), c)
                | ((_, None), c) \<Rightarrow> writeRecords c typ (drop (nat m) data) (n + nat m))))"

text \<open>\<open>writeRecordLocked\<close> up to the ChangeCipherSpec step, which no alert takes.\<close>

definition writeRecordBody :: "Conn \<Rightarrow> u8 \<Rightarrow> bytes \<Rightarrow> ((nat \<times> goerror option) \<times> Conn) option" where
  "writeRecordBody c typ data =
     (case c_quic c of
        Some q \<Rightarrow>
          if typ \<noteq> recordTypeHandshake
          then Some ((0, Some (ErrorsNew ''tls: internal error: sending non-handshake message to QUIC transport'')), c)
          else
            (let c = c\<lparr>c_quic := Some (quicWriteCryptoData q (hc_level (c_out c)) data)\<rparr>
             in if \<not> c_buffering c
                then case conn_flush c of
                       ((_, Some e), c) \<Rightarrow> Some ((0, Some e), c)
                     | ((_, None), c) \<Rightarrow> Some ((length data, None), c)
                else Some ((length data, None), c))
      | None \<Rightarrow> writeRecords c typ data 0)"

abbreviation alertCloseNotify :: u8 where "alertCloseNotify \<equiv> 0"
abbreviation alertDecodeError :: u8 where "alertDecodeError \<equiv> 50"
abbreviation alertProtocolVersion :: u8 where "alertProtocolVersion \<equiv> 70"
abbreviation alertUserCanceled :: u8 where "alertUserCanceled \<equiv> 90"
abbreviation alertNoRenegotiation :: u8 where "alertNoRenegotiation \<equiv> 100"
abbreviation alertLevelWarning :: u8 where "alertLevelWarning \<equiv> 1"
abbreviation alertLevelError :: u8 where "alertLevelError \<equiv> 2"

definition out_setError :: "Conn \<Rightarrow> goerror option \<Rightarrow> goerror option \<times> Conn" where
  "out_setError c err = (let (e, hc) = hc_setErrorLocked (c_out c) err in (e, c\<lparr>c_out := hc\<rparr>))"

definition in_setError :: "Conn \<Rightarrow> goerror option \<Rightarrow> goerror option \<times> Conn" where
  "in_setError c err = (let (e, hc) = hc_setErrorLocked (c_in c) err in (e, c\<lparr>c_in := hc\<rparr>))"

definition alertLevel :: "u8 \<Rightarrow> u8" where
  "alertLevel err = (if err = alertNoRenegotiation \<or> err = alertCloseNotify then alertLevelWarning else alertLevelError)"

definition sendAlertLocked :: "Conn \<Rightarrow> u8 \<Rightarrow> (goerror option \<times> Conn) option" where
  "sendAlertLocked c err =
     (if c_quic c \<noteq> None then Some (out_setError c (Some (OpError ''local error'' err)))
      else case writeRecordBody c recordTypeAlert [alertLevel err, err] of
          None \<Rightarrow> None
        | Some ((_, writeErr), c) \<Rightarrow>
            if err = alertCloseNotify then Some (writeErr, c)
            else Some (out_setError c (Some (OpError ''local error'' err))))"

text \<open>\<open>sendAlert\<close> takes the lock of the outgoing half around \<open>sendAlertLocked\<close>.\<close>

definition sendAlert :: "Conn \<Rightarrow> u8 \<Rightarrow> (goerror option \<times> Conn) option" where
  "sendAlert c err = sendAlertLocked c err"

definition writeRecordLocked :: "Conn \<Rightarrow> u8 \<Rightarrow> bytes \<Rightarrow> ((nat \<times> goerror option) \<times> Conn) option" where
  "writeRecordLocked c typ data =
     (if c_quic c \<noteq> None then writeRecordBody c typ data
      else case writeRecordBody c typ data of
        None \<Rightarrow> None
      | Some ((n, Some e), c) \<Rightarrow> Some ((n, Some e), c)
      | Some ((n, None), c) \<Rightarrow>
          if typ = recordTypeChangeCipherSpec \<and> c_vers c \<noteq> VersionTLS13
          then case hc_changeCipherSpec (c_out c) of
                 (Some a, out) \<Rightarrow> map_option (\<lambda>(e, c). ((n, e), c)) (sendAlertLocked (c\<lparr>c_out := out\<rparr>) a)
               | (None, out) \<Rightarrow> Some ((n, None), c\<lparr>c_out := out\<rparr>)
          else Some ((n, None), c))"

definition writeChangeCipherRecord :: "Conn \<Rightarrow> (goerror option \<times> Conn) option" where
  "writeChangeCipherRecord c =
     map_option (\<lambda>((n, err), c). (err, c)) (writeRecordLocked c recordTypeChangeCipherSpec [1])"

section \<open>Application data, close notify\<close>

text \<open>
  \<open>Write\<close> behind the interlock with \<open>Close\<close> and the handshake: the TLS 1.0 record split against
  predictable IVs, then the rest.
\<close>

definition is_BlockMode :: "recordCipher option \<Rightarrow> bool" where
  "is_BlockMode cipher = (case cipher of Some (CBC cb) \<Rightarrow> True | _ \<Rightarrow> False)"

definition writeAppData :: "Conn \<Rightarrow> bytes \<Rightarrow> ((nat \<times> goerror option) \<times> Conn) option" where
  "writeAppData c b =
     (case hc_err (c_out c) of
        Some err \<Rightarrow> Some ((0, Some err), c)
      | None \<Rightarrow>
          if \<not> c_isHandshakeComplete c then Some ((0, Some (AlertErr alertInternalError)), c)
          else if c_closeNotifySent c then Some ((0, Some (ErrorsNew ''tls: protocol is shutdown'')), c)
          else
            (let split = length b > 1 \<and> c_vers c = VersionTLS10 \<and> is_BlockMode (hc_cipher (c_out c)) in
             case (if split then writeRecordLocked c recordTypeApplicationData (take 1 b)
                   else Some ((0, None), c)) of
               None \<Rightarrow> None
             | Some ((n, Some err), c) \<Rightarrow> (let (e, c) = out_setError c (Some err) in Some ((n, e), c))
             | Some ((m, None), c) \<Rightarrow>
                 (let m = (if split then 1 else 0); b = drop m b in
                  case writeRecordLocked c recordTypeApplicationData b of
                    None \<Rightarrow> None
                  | Some ((n, err), c) \<Rightarrow> (let (e, c) = out_setError c err in Some ((n + m, e), c)))))"

definition closeNotify :: "Conn \<Rightarrow> (goerror option \<times> Conn) option" where
  "closeNotify c =
     (if \<not> c_closeNotifySent c
      then map_option (\<lambda>(e, c). (e, c\<lparr>c_closeNotifyErr := e, c_closeNotifySent := True\<rparr>))
             (sendAlertLocked c alertCloseNotify)
      else Some (c_closeNotifyErr c, c))"

definition CloseWrite :: "Conn \<Rightarrow> (goerror option \<times> Conn) option" where
  "CloseWrite c =
     (if \<not> c_isHandshakeComplete c
      then Some (Some (ErrorsNew ''tls: CloseWrite called before handshake complete''), c)
      else closeNotify c)"

section \<open>Cutting data into records\<close>

text \<open>An AEAD in good shape, as one end of a direction.\<close>

definition aead_wf :: "aead \<Rightarrow> bool" where
  "aead_wf a \<longleftrightarrow> aead_pair a a"

lemma aead_wf_Seal:
  assumes "aead_wf a" and "length nonce = 8"
  obtains ct a1 where "aead_Seal a nonce p ad = Some (ct, a1)" and "aead_wf a1"
    and "aead_Overhead a1 = aead_Overhead a" and "aead_explicitNonceLen a1 = aead_explicitNonceLen a"
proof (cases a)
  case (prefixNonceAEAD n x)
  then show ?thesis using assms that [of "ca_Seal x (copy_at 4 n nonce) p ad" "prefixNonceAEAD (copy_at 4 n nonce) x"]
    by (simp add: aead_wf_def Let_def)
next
  case (xorNonceAEAD m x)
  moreover from this assms obtain n where n: "xorNonce 0 nonce m = Some n"
    using xorNonce_Some_iff [of 0 nonce m] by (auto simp: aead_wf_def)
  ultimately show ?thesis using assms that [of "ca_Seal x n p ad" a] xorNonce_restores [OF n] by simp
qed

lemma hc_explicitNonce_aead:
  assumes "hc_cipher hc = Some (Aead a)" and "length (hc_seq hc) = 8"
  shows "\<exists>en. hc_explicitNonce hc rand = Inr (en, rand) \<and> (en = [] \<or> length en = 8)"
proof (cases a)
  case (prefixNonceAEAD n x)
  then show ?thesis using assms by (simp add: hc_explicitNonce_def hc_explicitNonceLen_def)
next
  case (xorNonceAEAD m x)
  then show ?thesis using assms by (simp add: hc_explicitNonce_def hc_explicitNonceLen_def)
qed

text \<open>Protection with an AEAD succeeds until the sequence number is used up.\<close>

lemma hc_encrypt_aead:
  assumes c: "hc_cipher hc = Some (Aead a)" and wf: "aead_wf a" and sq: "length (hc_seq hc) = 8"
    and room: "unbe (hc_seq hc) + 1 < 2 ^ 64"
  obtains r hc' a1 where "hc_encrypt hc header p rand = Some (Inr r, hc', rand)" and "hc_cipher hc' = Some (Aead a1)"
    and "aead_wf a1" and "aead_Overhead a1 = aead_Overhead a" and "aead_explicitNonceLen a1 = aead_explicitNonceLen a"
    and "hc_seq hc' = be 8 (unbe (hc_seq hc) + 1)"
proof -
  obtain en where en: "hc_explicitNonce hc rand = Inr (en, rand)" "en = [] \<or> length en = 8"
    using hc_explicitNonce_aead [OF c sq] by blast
  define nonce where "nonce = (if length en = 0 then hc_seq hc else en)"
  have "length nonce = 8" using en(2) sq by (auto simp: nonce_def)
  note seal = aead_wf_Seal [OF wf this]
  obtain w a1 where w: "hc_sealCipher hc (Aead a) header en p = Some (w, hc\<lparr>hc_cipher := Some (Aead a1)\<rparr>)"
    "aead_wf a1" "aead_Overhead a1 = aead_Overhead a" "aead_explicitNonceLen a1 = aead_explicitNonceLen a"
  proof (cases "hc_version hc = VersionTLS13")
    case True
    let ?hd = "[recordTypeApplicationData, header ! 1, header ! 2] @ lenBytes (int (length p + 1 + aead_Overhead a))"
    obtain ct a1 where "aead_Seal a nonce (en @ p @ [header ! 0]) ?hd = Some (ct, a1)" "aead_wf a1"
      "aead_Overhead a1 = aead_Overhead a" "aead_explicitNonceLen a1 = aead_explicitNonceLen a"
      by (rule seal)
    then show ?thesis using True that [of "?hd @ ct" a1] by (simp add: hc_sealCipher_def nonce_def Let_def)
  next
    case False
    obtain ct a1 where "aead_Seal a nonce p (hc_seq hc @ header) = Some (ct, a1)" "aead_wf a1"
      "aead_Overhead a1 = aead_Overhead a" "aead_explicitNonceLen a1 = aead_explicitNonceLen a"
      by (rule seal)
    then show ?thesis using False that [of "header @ en @ ct" a1] by (simp add: hc_sealCipher_def nonce_def Let_def)
  qed
  define hc1 where "hc1 = hc\<lparr>hc_cipher := Some (Aead a1)\<rparr>"
  have "hc_incSeq hc1 = Some (hc1\<lparr>hc_seq := be 8 (unbe (hc_seq hc) + 1)\<rparr>)"
    using hc_incSeq_spec [of hc1] sq room by (simp add: hc1_def)
  then show ?thesis
    using that [OF _ _ w(2,3,4)] c en(1) w(1) by (simp add: hc_encrypt_def hc1_def [symmetric] Let_def) (simp add: hc1_def)
qed

text \<open>
  A connection that can write: the network takes what it is given, the outgoing cipher is an AEAD
  of moderate overhead and \<open>k\<close> records are left before the sequence number is used up.
\<close>

definition can_write :: "nat \<Rightarrow> Conn \<Rightarrow> bool" where
  "can_write k c \<longleftrightarrow> nc_writes (c_conn c) = [] \<and> 0 \<le> c_packetsSent c \<and> length (hc_seq (c_out c)) = 8 \<and>
     unbe (hc_seq (c_out c)) + k < 2 ^ 64 \<and>
     (\<exists>a. hc_cipher (c_out c) = Some (Aead a) \<and> aead_wf a \<and> aead_Overhead a \<le> 1000)"

lemma aead_explicitNonceLen_le: "aead_explicitNonceLen a \<le> 8"
  by (cases a) simp_all

lemma maxPayload_can_write:
  assumes "can_write k c"
  obtains p n where "maxPayloadSizeForWrite c typ = Some (p, c\<lparr>c_packetsSent := n\<rparr>)" and "1 \<le> p"
    and "p \<le> int maxPlaintext" and "0 \<le> n"
proof -
  obtain a where a: "hc_cipher (c_out c) = Some (Aead a)" "aead_Overhead a \<le> 1000" and pkt: "0 \<le> c_packetsSent c"
    using assms by (auto simp: can_write_def)
  obtain s where s: "segmentPayload c = Some s" "1 \<le> s"
    using a aead_explicitNonceLen_le [of a] by (auto simp: segmentPayload_def hc_explicitNonceLen_def Let_def)
  have "1 * 1 \<le> s * (c_packetsSent c + 1)" by (rule mult_mono) (use s pkt in auto)
  then have pos: "1 \<le> s * (c_packetsSent c + 1)" by simp
  show ?thesis
  proof (cases "cfg_DynamicRecordSizingDisabled (c_config c) \<or> typ \<noteq> recordTypeApplicationData \<or> c_bytesSent c \<ge> recordSizeBoostThreshold")
    case True
    then show ?thesis using pkt that [of "int maxPlaintext" "c_packetsSent c"] by (auto simp: maxPayloadSizeForWrite_def)
  next
    case False
    define p where "p = (if 1000 < c_packetsSent c \<or> int maxPlaintext < s * (c_packetsSent c + 1)
      then int maxPlaintext else s * (c_packetsSent c + 1))"
    have "maxPayloadSizeForWrite c typ = Some (p, c\<lparr>c_packetsSent := c_packetsSent c + 1\<rparr>)"
      using False s(1) by (simp add: maxPayloadSizeForWrite_def Let_def p_def)
    moreover have "1 \<le> p" "p \<le> int maxPlaintext" using pos by (auto simp: p_def)
    moreover have "0 \<le> c_packetsSent c + 1" using pkt by simp
    ultimately show ?thesis by (rule that)
  qed
qed

text \<open>What a write of wire bytes does when the network takes all of them.\<close>

definition wrote :: "bytes \<Rightarrow> Conn \<Rightarrow> Conn \<Rightarrow> bool" where
  "wrote w c c' \<longleftrightarrow> c_vers c' = c_vers c \<and> c_in c' = c_in c \<and> c_buffering c' = c_buffering c \<and> c_quic c' = c_quic c \<and>
     c_hand c' = c_hand c \<and> c_cipherSuite c' = c_cipherSuite c \<and>
     (if c_buffering c then c_sendBuf c' = c_sendBuf c @ w \<and> c_conn c' = c_conn c
      else nc_sent (c_conn c') = nc_sent (c_conn c) @ w \<and> c_sendBuf c' = c_sendBuf c)"

lemma wrote_trans: "wrote w c c1 \<Longrightarrow> wrote w' c1 c2 \<Longrightarrow> wrote (w @ w') c c2"
  by (auto simp: wrote_def)

lemma conn_write_ok:
  assumes "nc_writes (c_conn c) = []"
  shows "\<exists>n c'. conn_write c w = ((n, None), c') \<and> wrote w c c' \<and> c_out c' = c_out c \<and> c_rand c' = c_rand c \<and>
    c_packetsSent c' = c_packetsSent c \<and> nc_writes (c_conn c') = []"
  using assms by (auto simp: conn_write_def nc_Write_def wrote_def)

definition recordVers :: "Conn \<Rightarrow> u16" where
  "recordVers c = (if c_vers c = 0 then VersionTLS10 else if c_vers c = VersionTLS13 then VersionTLS12 else c_vers c)"

abbreviation wire_send :: "Conn \<Rightarrow> halfConn \<times> bytes \<Rightarrow> u8 \<times> bytes \<Rightarrow> (bytes \<times> halfConn \<times> bytes) option" where
  "wire_send c \<equiv> rl_send (ucast (drop_bit 8 (recordVers c))) (ucast (recordVers c))"

lemma recordHeader_eq:
  "recordHeader c typ m = [typ, ucast (drop_bit 8 (recordVers c)), ucast (recordVers c)] @ lenBytes m"
  by (simp add: recordHeader_def recordVers_def Let_def)

lemma writeRecords_ok:
  assumes "can_write (length data) c"
  shows "\<exists>frags rs c'. writeRecords c typ data n = Some ((n + length data, None), c') \<and> concat frags = data \<and>
    (\<forall>f\<in>set frags. f \<noteq> [] \<and> length f \<le> maxPlaintext) \<and>
    send_all (wire_send c) (c_out c, c_rand c) (map (Pair typ) frags) = Some (rs, c_out c', c_rand c') \<and>
    wrote (concat rs) c c'"
  using assms
proof (induction "length data" arbitrary: data c n rule: less_induct)
  case less
  show ?case
  proof (cases "data = []")
    case True
    then show ?thesis
      by (intro exI [of _ "[]"] exI [of _ c]) (simp add: writeRecords.simps wrote_def)
  next
    case False
    obtain p k where p: "maxPayloadSizeForWrite c typ = Some (p, c\<lparr>c_packetsSent := k\<rparr>)" "1 \<le> p" "p \<le> int maxPlaintext" "0 \<le> k"
      by (rule maxPayload_can_write [OF less.prems])
    define m where "m = min (nat p) (length data)"
    have m: "(if int (length data) > p then p else int (length data)) = int m" "0 < m" "m \<le> length data" "m \<le> maxPlaintext"
      using p False by (auto simp: m_def)
    let ?c = "c\<lparr>c_packetsSent := k\<rparr>" and ?f = "take m data"
    obtain a where a: "hc_cipher (c_out c) = Some (Aead a)" "aead_wf a" "aead_Overhead a \<le> 1000"
      and sq: "length (hc_seq (c_out c)) = 8" "unbe (hc_seq (c_out c)) + length data < 2 ^ 64"
      and net: "nc_writes (c_conn c) = []"
      using less.prems by (auto simp: can_write_def)
    have room: "unbe (hc_seq (c_out c)) + 1 < 2 ^ 64" using sq(2) False by (cases data) auto
    obtain r out a1 where r: "hc_encrypt (c_out c) (recordHeader ?c typ (int m)) ?f (c_rand c) = Some (Inr r, out, c_rand c)"
      "hc_cipher out = Some (Aead a1)" "aead_wf a1" "aead_Overhead a1 = aead_Overhead a"
      "hc_seq out = be 8 (unbe (hc_seq (c_out c)) + 1)"
      by (rule hc_encrypt_aead [OF a(1,2) sq(1) room])
    obtain j c1 where c1: "conn_write (set_rand (c_rand c) (?c\<lparr>c_out := out\<rparr>)) r = ((j, None), c1)"
      "wrote r (set_rand (c_rand c) (?c\<lparr>c_out := out\<rparr>)) c1" "c_out c1 = out" "c_rand c1 = c_rand c" "c_packetsSent c1 = k"
      "nc_writes (c_conn c1) = []"
      using conn_write_ok [of "set_rand (c_rand c) (?c\<lparr>c_out := out\<rparr>)" r] net by auto
    have w1: "wrote r c c1" using c1(2) by (simp add: wrote_def)
    have vers: "recordVers c1 = recordVers c" using w1 by (simp add: wrote_def recordVers_def)
    have step: "writeRecords c typ data n = writeRecords c1 typ (drop m data) (n + m)"
      using False p(1) r(1) c1(1) by (subst writeRecords.simps) (simp add: m(1))
    have "unbe (hc_seq out) = unbe (hc_seq (c_out c)) + 1" unfolding r(5) by (rule unbe_be_small) (use room in simp)
    then have "can_write (length (drop m data)) c1"
      using c1(3,5,6) p(4) r(2-4) a(3) sq(2) m(2,3) r(5) by (auto simp: can_write_def)
    moreover have "length (drop m data) < length data" using m(2,3) by simp
    ultimately obtain frags rs c' where IH:
      "writeRecords c1 typ (drop m data) (n + m) = Some ((n + m + length (drop m data), None), c')"
      "concat frags = drop m data" "\<forall>f\<in>set frags. f \<noteq> [] \<and> length f \<le> maxPlaintext"
      "send_all (wire_send c1) (c_out c1, c_rand c1) (map (Pair typ) frags) = Some (rs, c_out c', c_rand c')"
      "wrote (concat rs) c1 c'"
      using less.hyps by blast
    have "recordVers ?c = recordVers c" by (simp add: recordVers_def)
    then have "wire_send c (c_out c, c_rand c) (typ, ?f) = Some (r, out, c_rand c)"
      using r(1) m(3) by (simp add: rl_send_def recordHeader_eq)
    then have "send_all (wire_send c) (c_out c, c_rand c) (map (Pair typ) (?f # frags)) = Some (r # rs, c_out c', c_rand c')"
      using IH(4) c1(3,4) vers by simp
    moreover have "\<forall>f\<in>set (?f # frags). f \<noteq> [] \<and> length f \<le> maxPlaintext" using IH(3) m(2-4) False by auto
    moreover have "concat (?f # frags) = data" using IH(2) by simp
    moreover have "wrote (concat (r # rs)) c c'" using wrote_trans [OF w1 IH(5)] by simp
    moreover have "writeRecords c typ data n = Some ((n + length data, None), c')" using step IH(1) m(3) by simp
    ultimately show ?thesis by blast
  qed
qed

lemma out_setError_None:
  "out_setError c None = (None, c\<lparr>c_out := (c_out c)\<lparr>hc_err := None\<rparr>\<rparr>)"
  by (simp add: out_setError_def hc_setErrorLocked_def)

lemma out_setError_OpError:
  "out_setError c (Some (OpError s a)) =
     (Some (PermanentError (OpError s a)), c\<lparr>c_out := (c_out c)\<lparr>hc_err := Some (PermanentError (OpError s a))\<rparr>\<rparr>)"
  by (simp add: out_setError_def hc_setErrorLocked_def)

lemma writeAppData_ok:
  assumes "c_quic c = None" and "hc_err (c_out c) = None" and "c_isHandshakeComplete c" and "\<not> c_closeNotifySent c"
    and cw: "can_write (length b) c"
  obtains frags rs c' out where "writeAppData c b = Some ((length b, None), c')" and "concat frags = b"
    and "\<forall>f\<in>set frags. f \<noteq> [] \<and> length f \<le> maxPlaintext"
    and "send_all (wire_send c) (c_out c, c_rand c) (map (Pair recordTypeApplicationData) frags) = Some (rs, out)"
    and "wrote (concat rs) c c'"
proof -
  obtain frags rs c1 where w: "writeRecords c recordTypeApplicationData b 0 = Some ((0 + length b, None), c1)"
    "concat frags = b" "\<forall>f\<in>set frags. f \<noteq> [] \<and> length f \<le> maxPlaintext"
    "send_all (wire_send c) (c_out c, c_rand c) (map (Pair recordTypeApplicationData) frags) = Some (rs, c_out c1, c_rand c1)"
    "wrote (concat rs) c c1"
    using writeRecords_ok [OF cw] by blast
  have "\<not> is_BlockMode (hc_cipher (c_out c))" using cw by (auto simp: can_write_def is_BlockMode_def)
  then have "writeAppData c b = Some ((length b, None), c1\<lparr>c_out := (c_out c1)\<lparr>hc_err := None\<rparr>\<rparr>)"
    using assms(1-4) w(1) by (simp add: writeAppData_def writeRecordLocked_def writeRecordBody_def out_setError_None)
  moreover have "wrote (concat rs) c (c1\<lparr>c_out := (c_out c1)\<lparr>hc_err := None\<rparr>\<rparr>)" using w(5) by (simp add: wrote_def)
  ultimately show ?thesis using that w(2-4) by blast
qed

section \<open>Properties\<close>

definition conn_sample :: Conn where
  "conn_sample = \<lparr>c_conn = \<lparr>nc_reads = [], nc_writes = [], nc_sent = [], nc_closed = False, nc_closeErr = None,
       nc_RemoteAddr = ''192.0.2.1:443''\<rparr>,
     c_isClient = True, c_quic = None, c_isHandshakeComplete = True, c_handshakeErr = None, c_vers = VersionTLS13,
     c_haveVers = True, c_config = emptyConfig, c_ClientSessionCache = None, c_handshakes = 1, c_extMasterSecret = False,
     c_didResume = False, c_didHRR = False, c_cipherSuite = TLS_AES_128_GCM_SHA256, c_curveID = X25519, c_peerSigAlg = 0,
     c_ocspResponse = None, c_scts = None, c_peerCertificates = [], c_verifiedChains = [], c_serverName = [],
     c_secureRenegotiation = False, c_resumptionSecret = None, c_echAccepted = False, c_ticketKeys = [],
     c_clientFinishedIsFirst = False, c_closeNotifyErr = None, c_closeNotifySent = False,
     c_clientFinished = replicate 12 0, c_serverFinished = replicate 12 0, c_clientProtocol = [],
     c_in = hc_sample, c_out = hc_sample, c_rawInput = [], c_input = [], c_hand = [], c_buffering = False,
     c_sendBuf = [], c_bytesSent = 0, c_packetsSent = 0, c_retryCount = 0, c_activeCall = 0\<rparr>"

lemma conn_sample_can_write: "k < 1000 \<Longrightarrow> can_write k conn_sample"
  by (auto simp: can_write_def conn_sample_def hc_sample_def halfConn_zero_def unbe_replicate_0 aead_wf_def
      aead_sample_def cipherAEAD_ok_def)



end
