(* ===== verification/Alert.thy ===== *)
theory Alert
  imports Conn
begin

text \<open>
  The alerts of alert.go with their texts, and the number formatting of \<open>strconv\<close> and \<open>fmt\<close> that
  the error messages use.
\<close>

section \<open>Numbers as text\<close>

text \<open>Digits of a number in a base up to 16, as \<open>strconv.Itoa\<close> (10) and the verb \<open>%x\<close> (16) write it.\<close>

function digits :: "nat \<Rightarrow> nat \<Rightarrow> string" where
  "digits b n = (if b < 2 \<or> n < b then [''0123456789abcdef'' ! n] else digits b (n div b) @ [''0123456789abcdef'' ! (n mod b)])"
  by pat_completeness auto
termination by (relation "measure snd") auto

declare digits.simps [simp del]

definition itoa :: "nat \<Rightarrow> string" where
  "itoa n = digits 10 n"

definition hex :: "nat \<Rightarrow> string" where
  "hex n = digits 16 n"

section \<open>Alerts\<close>

abbreviation alertDecryptionFailed :: u8 where "alertDecryptionFailed \<equiv> 21"
abbreviation alertDecompressionFailure :: u8 where "alertDecompressionFailure \<equiv> 30"
abbreviation alertHandshakeFailure :: u8 where "alertHandshakeFailure \<equiv> 40"
abbreviation alertBadCertificate :: u8 where "alertBadCertificate \<equiv> 42"
abbreviation alertUnsupportedCertificate :: u8 where "alertUnsupportedCertificate \<equiv> 43"
abbreviation alertCertificateRevoked :: u8 where "alertCertificateRevoked \<equiv> 44"
abbreviation alertCertificateExpired :: u8 where "alertCertificateExpired \<equiv> 45"
abbreviation alertCertificateUnknown :: u8 where "alertCertificateUnknown \<equiv> 46"
abbreviation alertIllegalParameter :: u8 where "alertIllegalParameter \<equiv> 47"
abbreviation alertUnknownCA :: u8 where "alertUnknownCA \<equiv> 48"
abbreviation alertAccessDenied :: u8 where "alertAccessDenied \<equiv> 49"
abbreviation alertDecryptError :: u8 where "alertDecryptError \<equiv> 51"
abbreviation alertExportRestriction :: u8 where "alertExportRestriction \<equiv> 60"
abbreviation alertInsufficientSecurity :: u8 where "alertInsufficientSecurity \<equiv> 71"
abbreviation alertInappropriateFallback :: u8 where "alertInappropriateFallback \<equiv> 86"
abbreviation alertMissingExtension :: u8 where "alertMissingExtension \<equiv> 109"
abbreviation alertUnsupportedExtension :: u8 where "alertUnsupportedExtension \<equiv> 110"
abbreviation alertCertificateUnobtainable :: u8 where "alertCertificateUnobtainable \<equiv> 111"
abbreviation alertUnrecognizedName :: u8 where "alertUnrecognizedName \<equiv> 112"
abbreviation alertBadCertificateStatusResponse :: u8 where "alertBadCertificateStatusResponse \<equiv> 113"
abbreviation alertBadCertificateHashValue :: u8 where "alertBadCertificateHashValue \<equiv> 114"
abbreviation alertUnknownPSKIdentity :: u8 where "alertUnknownPSKIdentity \<equiv> 115"
abbreviation alertCertificateRequired :: u8 where "alertCertificateRequired \<equiv> 116"
abbreviation alertNoApplicationProtocol :: u8 where "alertNoApplicationProtocol \<equiv> 120"
abbreviation alertECHRequired :: u8 where "alertECHRequired \<equiv> 121"

definition alertText :: "(u8 \<times> string) list" where
  "alertText = [
     (alertCloseNotify, ''close notify''),
     (alertUnexpectedMessage, ''unexpected message''),
     (alertBadRecordMAC, ''bad record MAC''),
     (alertDecryptionFailed, ''decryption failed''),
     (alertRecordOverflow, ''record overflow''),
     (alertDecompressionFailure, ''decompression failure''),
     (alertHandshakeFailure, ''handshake failure''),
     (alertBadCertificate, ''bad certificate''),
     (alertUnsupportedCertificate, ''unsupported certificate''),
     (alertCertificateRevoked, ''revoked certificate''),
     (alertCertificateExpired, ''expired certificate''),
     (alertCertificateUnknown, ''unknown certificate''),
     (alertIllegalParameter, ''illegal parameter''),
     (alertUnknownCA, ''unknown certificate authority''),
     (alertAccessDenied, ''access denied''),
     (alertDecodeError, ''error decoding message''),
     (alertDecryptError, ''error decrypting message''),
     (alertExportRestriction, ''export restriction''),
     (alertProtocolVersion, ''protocol version not supported''),
     (alertInsufficientSecurity, ''insufficient security level''),
     (alertInternalError, ''internal error''),
     (alertInappropriateFallback, ''inappropriate fallback''),
     (alertUserCanceled, ''user canceled''),
     (alertNoRenegotiation, ''no renegotiation''),
     (alertMissingExtension, ''missing extension''),
     (alertUnsupportedExtension, ''unsupported extension''),
     (alertCertificateUnobtainable, ''certificate unobtainable''),
     (alertUnrecognizedName, ''unrecognized name''),
     (alertBadCertificateStatusResponse, ''bad certificate status response''),
     (alertBadCertificateHashValue, ''bad certificate hash value''),
     (alertUnknownPSKIdentity, ''unknown PSK identity''),
     (alertCertificateRequired, ''certificate required''),
     (alertNoApplicationProtocol, ''no application protocol''),
     (alertECHRequired, ''encrypted client hello required'')]"

definition alert_String :: "u8 \<Rightarrow> string" where
  "alert_String e = (case map_of alertText e of
     Some s \<Rightarrow> ''tls: '' @ s
   | None \<Rightarrow> ''tls: alert('' @ itoa (unat e) @ '')'')"

text \<open>\<open>AlertError.Error\<close> and \<open>alert.Error\<close> are the text of the alert.\<close>

definition AlertError_Error :: "u8 \<Rightarrow> string" where
  "AlertError_Error e = alert_String e"

section \<open>Texts tell alerts apart\<close>

lemma nth_hex_digit: "i < 16 \<Longrightarrow> j < 16 \<Longrightarrow> ''0123456789abcdef'' ! i = ''0123456789abcdef'' ! j \<longleftrightarrow> i = j"
  by (rule nth_eq_iff_index_eq) simp_all

lemma digits_10_inj: "digits 10 m = digits 10 n \<Longrightarrow> m = n"
proof (induction "10::nat" m arbitrary: n rule: digits.induct)
  case (1 m)
  have m: "digits 10 m = (if m < 10 then [''0123456789abcdef'' ! m] else digits 10 (m div 10) @ [''0123456789abcdef'' ! (m mod 10)])"
    and n: "digits 10 n = (if n < 10 then [''0123456789abcdef'' ! n] else digits 10 (n div 10) @ [''0123456789abcdef'' ! (n mod 10)])"
    by (subst digits.simps, simp)+
  have ne: "digits 10 k \<noteq> []" for k by (subst digits.simps) simp
  from 1 have eq: "digits 10 m = digits 10 n" by simp
  show ?case
  proof (cases "m < 10 \<or> n < 10")
    case True
    then show ?thesis using eq m n ne not_sym [OF ne] nth_hex_digit [of m n] by (auto split: if_splits)
  next
    case False
    then have "digits 10 (m div 10) = digits 10 (n div 10)"
      and "''0123456789abcdef'' ! (m mod 10) = ''0123456789abcdef'' ! (n mod 10)"
      using eq m n by simp_all
    then have "m div 10 = n div 10" "m mod 10 = n mod 10"
      using 1(1) False nth_hex_digit [of "m mod 10" "n mod 10"] by simp_all
    then show ?thesis by (metis div_mult_mod_eq)
  qed
qed

lemma alertText_distinct: "distinct (map fst alertText)" "distinct (map snd alertText)"
  by code_simp+

lemma alertText_letters: "list_all (\<lambda>(e, s). take 6 s \<noteq> ''alert('') alertText"
  by code_simp

lemma alert_String_inj:
  assumes "alert_String a = alert_String b"
  shows "a = b"
proof -
  have known: "take 6 s \<noteq> ''alert(''" if "map_of alertText e = Some s" for e s
    using alertText_letters map_of_SomeD [OF that] by (auto simp: list_all_iff)
  have same: "e = e'" if "map_of alertText e = Some s" "map_of alertText e' = Some s" for e e' s
    using inj_onD [of snd "set alertText" "(e, s)" "(e', s)"] map_of_SomeD [OF that(1)] map_of_SomeD [OF that(2)]
      alertText_distinct(2) by (simp add: distinct_map)
  have "unat a = unat b \<Longrightarrow> a = b" by (simp add: word_unat_eq_iff)
  with assms known [of a] known [of b] same [of a _ b] show ?thesis
    by (auto simp: alert_String_def itoa_def dest: digits_10_inj split: option.splits)
qed

end
