(* ===== verification/ConnRead.thy ===== *)
theory ConnRead
  imports Alert
begin

text \<open>
  The reading side of conn.go: filling the raw input from the network, reading one record
  (\<open>readRecordOrCCS\<close> with its retry), and the handshake bytes collected from records or, for
  QUIC, from the signals of the transport. The recursion through \<open>retryReadRecord\<close> ends because
  the retry count is limited; \<open>None\<close> is a panic, or a QUIC handshake that stays blocked.
\<close>

section \<open>Raw input\<close>

text \<open>
  \<open>rawInput.ReadFrom\<close> on an \<open>atLeastReader\<close> that still needs \<open>needs\<close> bytes: the buffer and the error,
  and the replies of the network that are left. An end of file before that many bytes is
  unexpected; an error that comes with the last bytes is returned.
\<close>

fun readFrom :: "(bytes \<times> goerror option) list \<Rightarrow> int \<Rightarrow> bytes \<Rightarrow>
    goerror option \<times> bytes \<times> (bytes \<times> goerror option) list" where
  "readFrom [] needs buf = (if needs \<le> 0 then (None, buf, []) else (Some IoErrUnexpectedEOF, buf, []))"
| "readFrom ((d, err) # rs) needs buf =
     (if needs \<le> 0 then (None, buf, (d, err) # rs)
      else let needs = needs - int (length d); buf = buf @ d
           in case err of
                None \<Rightarrow> if needs \<le> 0 then (None, buf, rs) else readFrom rs needs buf
              | Some e \<Rightarrow>
                  if e = IoEOF then if needs > 0 then (Some IoErrUnexpectedEOF, buf, rs) else (None, buf, rs)
                  else (Some e, buf, rs))"

definition readFromUntil :: "Conn \<Rightarrow> nat \<Rightarrow> goerror option \<times> Conn" where
  "readFromUntil c n =
     (if length (c_rawInput c) \<ge> n then (None, c)
      else let needs = int n - int (length (c_rawInput c));
               (err, buf, rs) = readFrom (nc_reads (c_conn c)) needs (c_rawInput c)
           in (err, c\<lparr>c_rawInput := buf, c_conn := (c_conn c)\<lparr>nc_reads := rs\<rparr>\<rparr>))"

section \<open>Reading a record\<close>

text \<open>How one pass of \<open>readRecordOrCCS\<close> ends: with its result, or in \<open>retryReadRecord\<close>.\<close>

datatype rrOutcome = RRDone "goerror option" | RRRetry

text \<open>\<open>return c.in.setErrorLocked(err)\<close> and \<open>return c.in.setErrorLocked(c.sendAlert(a))\<close>.\<close>

definition failWith :: "Conn \<Rightarrow> goerror \<Rightarrow> (rrOutcome \<times> Conn) option" where
  "failWith c err = (let (e, c) = in_setError c (Some err) in Some (RRDone e, c))"

definition failAlert :: "Conn \<Rightarrow> u8 \<Rightarrow> (rrOutcome \<times> Conn) option" where
  "failAlert c a = (case sendAlert c a of
     None \<Rightarrow> None
   | Some (e, c) \<Rightarrow> (let (e, c) = in_setError c e in Some (RRDone e, c)))"

text \<open>\<open>c.sendAlert(a)\<close> followed by \<open>return c.in.setErrorLocked(err)\<close>.\<close>

definition alertThenFail :: "Conn \<Rightarrow> u8 \<Rightarrow> goerror \<Rightarrow> (rrOutcome \<times> Conn) option" where
  "alertThenFail c a err = (case sendAlert c a of None \<Rightarrow> None | Some (_, c) \<Rightarrow> failWith c err)"

definition newRecordHeaderError :: "Conn \<Rightarrow> bool \<Rightarrow> string \<Rightarrow> goerror" where
  "newRecordHeaderError c conn msg = RecordHeaderError msg (copy_at 0 (replicate 5 0) (c_rawInput c)) conn"

text \<open>A read error: temporary errors of the network are not latched.\<close>

definition failRead :: "Conn \<Rightarrow> goerror \<Rightarrow> (rrOutcome \<times> Conn) option" where
  "failRead c err =
     (let c = (if \<not> is_net_Error err \<or> \<not> Temporary err then snd (in_setError c (Some err)) else c)
      in Some (RRDone (Some err), c))"

definition readRecord_alert :: "Conn \<Rightarrow> bytes \<Rightarrow> (rrOutcome \<times> Conn) option" where
  "readRecord_alert c data =
     (if c_quic c \<noteq> None then failAlert c alertUnexpectedMessage
      else if length data \<noteq> 2 then failAlert c alertUnexpectedMessage
      else if data ! 1 = alertCloseNotify then failWith c IoEOF
      else if c_vers c = VersionTLS13 then
        if data ! 1 = alertUserCanceled then Some (RRRetry, c)
        else failWith c (OpError ''remote error'' (data ! 1))
      else if data ! 0 = alertLevelWarning then Some (RRRetry, c)
      else if data ! 0 = alertLevelError then failWith c (OpError ''remote error'' (data ! 1))
      else failAlert c alertUnexpectedMessage)"

definition readRecord_ccs :: "Conn \<Rightarrow> bytes \<Rightarrow> bool \<Rightarrow> (rrOutcome \<times> Conn) option" where
  "readRecord_ccs c data expectChangeCipherSpec =
     (if length data \<noteq> 1 \<or> data ! 0 \<noteq> 1 then failAlert c alertDecodeError
      else if length (c_hand c) > 0 then failAlert c alertUnexpectedMessage
      else if c_vers c = VersionTLS13 then Some (RRRetry, c)
      else if \<not> expectChangeCipherSpec then failAlert c alertUnexpectedMessage
      else case hc_changeCipherSpec (c_in c) of
          (Some a, hin) \<Rightarrow> failAlert (c\<lparr>c_in := hin\<rparr>) a
        | (None, hin) \<Rightarrow> Some (RRDone None, c\<lparr>c_in := hin\<rparr>))"

definition readRecord_appData :: "Conn \<Rightarrow> bytes \<Rightarrow> bool \<Rightarrow> bool \<Rightarrow> (rrOutcome \<times> Conn) option" where
  "readRecord_appData c data expectChangeCipherSpec handshakeComplete =
     (if \<not> handshakeComplete \<or> expectChangeCipherSpec then failAlert c alertUnexpectedMessage
      else if length data = 0 then Some (RRRetry, c)
      else Some (RRDone None, c\<lparr>c_input := data\<rparr>))"

definition readRecord_handshake :: "Conn \<Rightarrow> bytes \<Rightarrow> bool \<Rightarrow> (rrOutcome \<times> Conn) option" where
  "readRecord_handshake c data expectChangeCipherSpec =
     (if length data = 0 \<or> expectChangeCipherSpec then failAlert c alertUnexpectedMessage
      else Some (RRDone None, c\<lparr>c_hand := c_hand c @ data\<rparr>))"

definition readRecord_switch :: "Conn \<Rightarrow> u8 \<Rightarrow> bytes \<Rightarrow> bool \<Rightarrow> bool \<Rightarrow> (rrOutcome \<times> Conn) option" where
  "readRecord_switch c typ data expectChangeCipherSpec handshakeComplete =
     (if typ = recordTypeAlert then readRecord_alert c data
      else if typ = recordTypeChangeCipherSpec then readRecord_ccs c data expectChangeCipherSpec
      else if typ = recordTypeApplicationData then readRecord_appData c data expectChangeCipherSpec handshakeComplete
      else if typ = recordTypeHandshake then readRecord_handshake c data expectChangeCipherSpec
      else failAlert c alertUnexpectedMessage)"

text \<open>A state-advancing record resets the retry count.\<close>

definition resetRetry :: "Conn \<Rightarrow> u8 \<Rightarrow> bytes \<Rightarrow> Conn" where
  "resetRetry c typ data =
     (if typ \<noteq> recordTypeAlert \<and> typ \<noteq> recordTypeChangeCipherSpec \<and> length data > 0
      then c\<lparr>c_retryCount := 0\<rparr> else c)"

text \<open>From the complete record in the raw input on.\<close>

definition readRecord_process :: "Conn \<Rightarrow> nat \<Rightarrow> bool \<Rightarrow> bool \<Rightarrow> (rrOutcome \<times> Conn) option" where
  "readRecord_process c n expectChangeCipherSpec handshakeComplete =
     (let record = take (recordHeaderLen + n) (c_rawInput c);
          c = c\<lparr>c_rawInput := drop (recordHeaderLen + n) (c_rawInput c)\<rparr>
      in case hc_decrypt (c_in c) record of
           None \<Rightarrow> None
         | Some (Inl a, hin) \<Rightarrow> failAlert (c\<lparr>c_in := hin\<rparr>) a
         | Some (Inr (data, typ), hin) \<Rightarrow>
             (let c = c\<lparr>c_in := hin\<rparr> in
              if length data > maxPlaintext then failAlert c alertRecordOverflow
              else if hc_cipher (c_in c) = None \<and> typ = recordTypeApplicationData then failAlert c alertUnexpectedMessage
              else
                let c = resetRetry c typ data
                in if c_vers c = VersionTLS13 \<and> typ \<noteq> recordTypeHandshake \<and> length (c_hand c) > 0
                   then failAlert c alertUnexpectedMessage
                   else readRecord_switch c typ data expectChangeCipherSpec handshakeComplete))"

text \<open>From the record header in the raw input on.\<close>

definition readRecord_header :: "Conn \<Rightarrow> bool \<Rightarrow> bool \<Rightarrow> (rrOutcome \<times> Conn) option" where
  "readRecord_header c expectChangeCipherSpec handshakeComplete =
     (let hdr = take recordHeaderLen (c_rawInput c);
          typ = hdr ! 0;
          vers = uint16 (hdr ! 1) (hdr ! 2);
          expectedVers = (if c_vers c = VersionTLS13 then VersionTLS12 else c_vers c);
          n = unat (hdr ! 3) * 256 + unat (hdr ! 4)
      in if \<not> handshakeComplete \<and> typ = 0x80
         then alertThenFail c alertProtocolVersion (newRecordHeaderError c False ''unsupported SSLv2 handshake received'')
         else if c_haveVers c \<and> vers \<noteq> expectedVers
         then alertThenFail c alertProtocolVersion (newRecordHeaderError c False
                (''received record with version '' @ hex (unat vers) @ '' when expecting version '' @ hex (unat expectedVers)))
         else if \<not> c_haveVers c \<and> ((typ \<noteq> recordTypeAlert \<and> typ \<noteq> recordTypeHandshake) \<or> vers \<ge> 0x1000)
         then failWith c (newRecordHeaderError c True ''first record does not look like a TLS handshake'')
         else if c_vers c = VersionTLS13 \<and> n > maxCiphertextTLS13 \<or> n > maxCiphertext
         then alertThenFail c alertRecordOverflow (newRecordHeaderError c False
                (''oversized record received with length '' @ itoa n))
         else case readFromUntil c (recordHeaderLen + n) of
             (Some err, c) \<Rightarrow> failRead c err
           | (None, c) \<Rightarrow> readRecord_process c n expectChangeCipherSpec handshakeComplete)"

definition readRecordStep :: "Conn \<Rightarrow> bool \<Rightarrow> (rrOutcome \<times> Conn) option" where
  "readRecordStep c expectChangeCipherSpec =
     (case hc_err (c_in c) of
        Some err \<Rightarrow> Some (RRDone (Some err), c)
      | None \<Rightarrow>
          if length (c_input c) \<noteq> 0
          then failWith c (ErrorsNew ''tls: internal error: attempted to read record with pending application data'')
          else if c_quic c \<noteq> None
          then failWith c (ErrorsNew ''tls: internal error: attempted to read record with QUIC transport'')
          else case readFromUntil c recordHeaderLen of
              (Some err, c) \<Rightarrow>
                failRead c (if err = IoErrUnexpectedEOF \<and> length (c_rawInput c) = 0 then IoEOF else err)
            | (None, c) \<Rightarrow> readRecord_header c expectChangeCipherSpec (c_isHandshakeComplete c))"

abbreviation maxUselessRecords :: nat where "maxUselessRecords \<equiv> 16"

text \<open>A pass that ends in a retry has not touched the retry count.\<close>

lemma failWith_no_retry: "failWith c e \<noteq> Some (RRRetry, c')"
  by (simp add: failWith_def split_beta)

lemma failAlert_no_retry: "failAlert c a \<noteq> Some (RRRetry, c')"
  by (simp add: failAlert_def split_beta split: option.splits)

lemma alertThenFail_no_retry: "alertThenFail c a e \<noteq> Some (RRRetry, c')"
  by (simp add: alertThenFail_def failWith_no_retry split: option.splits)

lemma failRead_no_retry: "failRead c e \<noteq> Some (RRRetry, c')"
  by (simp add: failRead_def)

lemmas no_retry = failWith_no_retry failAlert_no_retry alertThenFail_no_retry failRead_no_retry

text \<open>What a retry leaves alone.\<close>

definition same_retry :: "Conn \<Rightarrow> Conn \<Rightarrow> bool" where
  "same_retry c c' \<longleftrightarrow> c_retryCount c' = c_retryCount c \<and> c_hand c' = c_hand c \<and> c_input c' = c_input c \<and>
     c_vers c' = c_vers c \<and> c_quic c' = c_quic c \<and> c_isHandshakeComplete c' = c_isHandshakeComplete c"

lemma same_retry_refl: "same_retry c c"
  by (simp add: same_retry_def)

lemma readFromUntil_same: "readFromUntil c n = (e, c') \<Longrightarrow> same_retry c c'"
  by (auto simp: readFromUntil_def same_retry_def Let_def split_beta split: if_splits)

lemma readRecord_switch_retry:
  assumes "readRecord_switch c typ data ex hc = Some (RRRetry, c')"
  shows "c' = c \<and> (typ = recordTypeAlert \<or> typ = recordTypeChangeCipherSpec \<or> data = [])"
  using assms
  by (auto simp: readRecord_switch_def readRecord_alert_def readRecord_ccs_def readRecord_appData_def
      readRecord_handshake_def no_retry split: if_splits prod.splits option.splits)

lemma readRecord_process_retry:
  assumes "readRecord_process c n ex hc = Some (RRRetry, c')"
  shows "same_retry c c'"
proof -
  from assms obtain data t hin where d:
    "readRecord_switch (resetRetry (c\<lparr>c_rawInput := drop (recordHeaderLen + n) (c_rawInput c), c_in := hin\<rparr>) t data)
       t data ex hc = Some (RRRetry, c')"
    by (auto simp: readRecord_process_def Let_def no_retry split: option.splits sum.splits if_splits)
  from readRecord_switch_retry [OF d] show ?thesis by (auto simp: same_retry_def resetRetry_def)
qed

lemma readRecordStep_retry:
  assumes "readRecordStep c ex = Some (RRRetry, c')"
  shows "same_retry c c'"
proof -
  from assms obtain c1 where c1: "readFromUntil c recordHeaderLen = (None, c1)"
    and "readRecord_header c1 ex (c_isHandshakeComplete c1) = Some (RRRetry, c')"
    by (auto simp: readRecordStep_def no_retry split: option.splits if_splits prod.splits)
  then obtain n c2 where c2: "readFromUntil c1 (recordHeaderLen + n) = (None, c2)"
    and "readRecord_process c2 n ex (c_isHandshakeComplete c1) = Some (RRRetry, c')"
    by (auto simp: readRecord_header_def Let_def no_retry split: option.splits if_splits prod.splits)
  then show ?thesis
    using readFromUntil_same [OF c1] readFromUntil_same [OF c2] readRecord_process_retry
    by (fastforce simp: same_retry_def)
qed

function readRecordOrCCS :: "Conn \<Rightarrow> bool \<Rightarrow> (goerror option \<times> Conn) option" where
  "readRecordOrCCS c expectChangeCipherSpec =
     (case readRecordStep c expectChangeCipherSpec of
        None \<Rightarrow> None
      | Some (RRDone e, c) \<Rightarrow> Some (e, c)
      | Some (RRRetry, c) \<Rightarrow>
          (let c = c\<lparr>c_retryCount := c_retryCount c + 1\<rparr> in
           if c_retryCount c > maxUselessRecords
           then case sendAlert c alertUnexpectedMessage of
                  None \<Rightarrow> None
                | Some (_, c) \<Rightarrow> Some (in_setError c (Some (ErrorsNew ''tls: too many ignored records'')))
           else readRecordOrCCS c expectChangeCipherSpec))"
  by pat_completeness auto
termination
  by (relation "measure (\<lambda>(c, ex). 17 - c_retryCount c)") (auto dest!: readRecordStep_retry simp: same_retry_def)

declare readRecordOrCCS.simps [simp del]

definition readRecord :: "Conn \<Rightarrow> (goerror option \<times> Conn) option" where
  "readRecord c = readRecordOrCCS c False"

definition readChangeCipherSpec :: "Conn \<Rightarrow> (goerror option \<times> Conn) option" where
  "readChangeCipherSpec c = readRecordOrCCS c True"

section \<open>What a record read does\<close>

lemma sendAlert_error:
  assumes "sendAlert c a = Some (e, c')" and "a \<noteq> alertCloseNotify"
  shows "e = Some (PermanentError (OpError ''local error'' a))" and "hc_err (c_out c') = e"
proof -
  from assms obtain c0 where "out_setError c0 (Some (OpError ''local error'' a)) = (e, c')"
    by (auto simp: sendAlert_def sendAlertLocked_def split: if_splits option.splits)
  then show "e = Some (PermanentError (OpError ''local error'' a))" "hc_err (c_out c') = e"
    by (auto simp: out_setError_OpError)
qed

lemma in_setError_Some:
  "fst (in_setError c (Some e)) \<noteq> None" "hc_err (c_in (snd (in_setError c (Some e)))) \<noteq> None"
  by (auto simp: in_setError_def hc_setErrorLocked_def split_beta)

lemma failWith_latched: "failWith c e = Some (RRDone e', c') \<Longrightarrow> e' \<noteq> None \<and> hc_err (c_in c') \<noteq> None"
  using in_setError_Some [of c e] by (cases "in_setError c (Some e)") (simp add: failWith_def)

lemma failAlert_latched:
  assumes "failAlert c a = Some (RRDone e, c')" and "a \<noteq> alertCloseNotify"
  shows "e \<noteq> None \<and> hc_err (c_in c') \<noteq> None"
proof -
  from assms(1) obtain e1 c1 where s: "sendAlert c a = Some (e1, c1)" and i: "in_setError c1 e1 = (e, c')"
    by (auto simp: failAlert_def split: option.splits prod.splits)
  from i sendAlert_error(1) [OF s assms(2)] show ?thesis
    using in_setError_Some [of c1 "PermanentError (OpError ''local error'' a)"] by simp
qed

lemma alertThenFail_latched: "alertThenFail c a e = Some (RRDone e', c') \<Longrightarrow> e' \<noteq> None \<and> hc_err (c_in c') \<noteq> None"
  by (auto simp: alertThenFail_def dest: failWith_latched split: option.splits)

lemma failRead_latched:
  "failRead c e = Some (RRDone e', c') \<Longrightarrow> e' = Some e \<and> (hc_err (c_in c') \<noteq> None \<or> is_net_Error e \<and> Temporary e)"
  using in_setError_Some [of c e] by (auto simp: failRead_def split: if_splits)

lemmas latched = failWith_latched failAlert_latched alertThenFail_latched failRead_latched

lemma hc_decrypt_alert: "hc_decrypt hc r = Some (Inl a, hc') \<Longrightarrow> a \<noteq> alertCloseNotify"
  by (auto simp: hc_decrypt_def hc_openRecord_def hc_openCipher_def hc_inner13_def hc_checkMAC_def Let_def split_beta
      bind_eq_Some_conv split: if_splits option.splits sum.splits recordCipher.splits)

text \<open>
  The three things a successful read can do: handshake data grows, the pending read cipher is
  installed, or application data is set.
\<close>

definition hand_grew :: "bool \<Rightarrow> Conn \<Rightarrow> Conn \<Rightarrow> bool" where
  "hand_grew ex c c' \<longleftrightarrow> \<not> ex \<and> (\<exists>d. d \<noteq> [] \<and> length d \<le> maxPlaintext \<and> c_hand c' = c_hand c @ d) \<and> c_input c' = []"

definition ccs_read :: "bool \<Rightarrow> Conn \<Rightarrow> Conn \<Rightarrow> bool" where
  "ccs_read ex c c' \<longleftrightarrow> ex \<and> c_vers c \<noteq> VersionTLS13 \<and> c_hand c = [] \<and> c_hand c' = [] \<and> c_input c' = [] \<and>
     (\<exists>hin. hc_changeCipherSpec hin = (None, c_in c'))"

definition input_set :: "bool \<Rightarrow> Conn \<Rightarrow> Conn \<Rightarrow> bool" where
  "input_set ex c c' \<longleftrightarrow> \<not> ex \<and> c_isHandshakeComplete c \<and> c_hand c' = c_hand c \<and>
     (c_vers c = VersionTLS13 \<longrightarrow> c_hand c = []) \<and>
     c_input c' \<noteq> [] \<and> length (c_input c') \<le> maxPlaintext \<and> hc_cipher (c_in c') \<noteq> None"

definition read_effect :: "bool \<Rightarrow> Conn \<Rightarrow> Conn \<Rightarrow> bool" where
  "read_effect ex c c' \<longleftrightarrow> c_input c = [] \<and> (hand_grew ex c c' \<or> ccs_read ex c c' \<or> input_set ex c c')"

definition read_result :: "bool \<Rightarrow> Conn \<Rightarrow> goerror option \<Rightarrow> Conn \<Rightarrow> bool" where
  "read_result ex c e c' \<longleftrightarrow> (if e = None then read_effect ex c c'
     else hc_err (c_in c') \<noteq> None \<or> (\<exists>err. e = Some err \<and> is_net_Error err \<and> Temporary err))"

lemma read_result_failed:
  "failWith c0 err = Some (RRDone e, c') \<Longrightarrow> read_result ex c e c'"
  "failAlert c0 a = Some (RRDone e, c') \<Longrightarrow> a \<noteq> alertCloseNotify \<Longrightarrow> read_result ex c e c'"
  "alertThenFail c0 a err = Some (RRDone e, c') \<Longrightarrow> read_result ex c e c'"
  "failRead c0 err = Some (RRDone e, c') \<Longrightarrow> read_result ex c e c'"
  using failWith_latched [of c0 err e c'] failAlert_latched [of c0 a e c'] alertThenFail_latched [of c0 a err e c']
    failRead_latched [of c0 err e c']
  by (auto simp: read_result_def)

lemma read_result_effect:
  "c_input c = [] \<Longrightarrow> hand_grew ex c c' \<or> ccs_read ex c c' \<or> input_set ex c c' \<Longrightarrow> read_result ex c None c'"
  by (simp add: read_result_def read_effect_def)

lemma readRecord_alert_done: "readRecord_alert c data = Some (RRDone e, c') \<Longrightarrow> read_result ex c e c'"
  unfolding readRecord_alert_def
  by (auto split: if_split_asm intro: read_result_failed(1) read_result_failed(2))

lemma readRecord_ccs_done:
  assumes "readRecord_ccs c data ex = Some (RRDone e, c')" and "c_input c = []"
  shows "read_result ex c e c'"
proof -
  obtain ao hin where h: "hc_changeCipherSpec (c_in c) = (ao, hin)" by (cases "hc_changeCipherSpec (c_in c)")
  then have ao: "ao = Some a \<Longrightarrow> a \<noteq> alertCloseNotify" for a by (auto simp: hc_changeCipherSpec_def split: if_splits)
  show ?thesis
  proof (cases ao)
    case (Some a)
    then show ?thesis using assms(1) h ao
      unfolding readRecord_ccs_def by (auto split: if_split_asm intro: read_result_failed(2))
  next
    case None
    then have "hc_changeCipherSpec (c_in c) = (None, hin)" using h by simp
    then show ?thesis using assms unfolding readRecord_ccs_def
      by (auto split: if_split_asm intro: read_result_failed(2) intro!: read_result_effect simp: ccs_read_def)
  qed
qed

lemma readRecord_appData_done:
  assumes "readRecord_appData c data ex (c_isHandshakeComplete c) = Some (RRDone e, c')" and "length data \<le> maxPlaintext"
    and "c_input c = []" and "hc_cipher (c_in c) \<noteq> None" and "c_vers c = VersionTLS13 \<longrightarrow> c_hand c = []"
  shows "read_result ex c e c'"
  using assms unfolding readRecord_appData_def
  by (auto split: if_split_asm intro: read_result_failed(2) intro!: read_result_effect simp: input_set_def)

lemma readRecord_handshake_done:
  assumes "readRecord_handshake c data ex = Some (RRDone e, c')" and "length data \<le> maxPlaintext" and "c_input c = []"
  shows "read_result ex c e c'"
  using assms unfolding readRecord_handshake_def
  by (auto split: if_split_asm intro: read_result_failed(2) intro!: read_result_effect simp: hand_grew_def)

lemma readRecord_switch_done:
  assumes "readRecord_switch c t data ex (c_isHandshakeComplete c) = Some (RRDone e, c')"
    and len: "length data \<le> maxPlaintext" and inp: "c_input c = []"
    and ciph: "t = recordTypeApplicationData \<longrightarrow> hc_cipher (c_in c) \<noteq> None"
    and hand: "t \<noteq> recordTypeHandshake \<longrightarrow> c_vers c = VersionTLS13 \<longrightarrow> c_hand c = []"
  shows "read_result ex c e c'"
  using assms(1) unfolding readRecord_switch_def
proof (simp split: if_split_asm)
  assume "readRecord_alert c data = Some (RRDone e, c')"
  then show ?thesis by (rule readRecord_alert_done)
next
  assume "readRecord_ccs c data ex = Some (RRDone e, c')"
  then show ?thesis using inp by (rule readRecord_ccs_done)
next
  assume "t = recordTypeApplicationData" "readRecord_appData c data ex (c_isHandshakeComplete c) = Some (RRDone e, c')"
  then show ?thesis using readRecord_appData_done len inp ciph hand by simp
next
  assume "readRecord_handshake c data ex = Some (RRDone e, c')"
  then show ?thesis using len inp by (rule readRecord_handshake_done)
next
  assume "failAlert c alertUnexpectedMessage = Some (RRDone e, c')"
  then show ?thesis by (rule read_result_failed(2)) simp
qed

lemma readRecord_process_done:
  assumes pr: "readRecord_process c n ex (c_isHandshakeComplete c) = Some (RRDone e, c')" and "c_input c = []"
  shows "read_result ex c e c'"
proof -
  let ?c = "c\<lparr>c_rawInput := drop (recordHeaderLen + n) (c_rawInput c)\<rparr>" and ?r = "take (recordHeaderLen + n) (c_rawInput c)"
  obtain x hin where d: "hc_decrypt (c_in c) ?r = Some (x, hin)"
    using pr by (cases "hc_decrypt (c_in c) ?r") (auto simp: readRecord_process_def)
  show ?thesis
  proof (cases x)
    case (Inl a)
    then have "failAlert (?c\<lparr>c_in := hin\<rparr>) a = Some (RRDone e, c')" using pr d by (simp add: readRecord_process_def)
    then show ?thesis by (rule read_result_failed(2)) (use hc_decrypt_alert d Inl in blast)
  next
    case (Inr y)
    obtain data t where y: "y = (data, t)" by (cases y)
    define c1 where "c1 = resetRetry (?c\<lparr>c_in := hin\<rparr>) t data"
    have c1: "c_input c1 = []" "c_isHandshakeComplete c1 = c_isHandshakeComplete c" "c_in c1 = hin"
      "c_hand c1 = c_hand c" "c_vers c1 = c_vers c"
      using assms(2) by (simp_all add: c1_def resetRetry_def)
    have same: "read_result ex c = read_result ex c1"
      using assms(2) c1 by (simp add: fun_eq_iff read_result_def read_effect_def hand_grew_def ccs_read_def input_set_def)
    show ?thesis
    proof (cases "length data > maxPlaintext \<or> hc_cipher hin = None \<and> t = recordTypeApplicationData \<or>
        c_vers c1 = VersionTLS13 \<and> t \<noteq> recordTypeHandshake \<and> length (c_hand c1) > 0")
      case True
      then obtain c0 a where "failAlert c0 a = Some (RRDone e, c')" "a \<noteq> alertCloseNotify"
        using pr d Inr y by (auto simp: readRecord_process_def Let_def c1_def [symmetric] split: if_split_asm)
      then show ?thesis by (rule read_result_failed(2))
    next
      case False
      then have "readRecord_switch c1 t data ex (c_isHandshakeComplete c1) = Some (RRDone e, c')"
        using pr d Inr y c1(2) by (simp add: readRecord_process_def Let_def c1_def [symmetric] split: if_split_asm)
      then show ?thesis unfolding same
        by (rule readRecord_switch_done) (use False c1 in auto)
    qed
  qed
qed

lemma readFromUntil_in: "readFromUntil c n = (e, c') \<Longrightarrow> c_in c' = c_in c"
  by (auto simp: readFromUntil_def Let_def split_beta split: if_splits)

text \<open>A result does not depend on what the raw input and the retry count were.\<close>

lemma read_result_same: "same_retry c c1 \<Longrightarrow> read_result ex c1 e c' \<Longrightarrow> read_result ex c e c'"
  by (auto simp: same_retry_def read_result_def read_effect_def hand_grew_def ccs_read_def input_set_def)

lemma readRecord_header_done:
  assumes "readRecord_header c ex (c_isHandshakeComplete c) = Some (RRDone e, c')" and "c_input c = []"
  shows "read_result ex c e c'"
proof -
  define n where "n = unat (take recordHeaderLen (c_rawInput c) ! 3) * 256 + unat (take recordHeaderLen (c_rawInput c) ! 4)"
  obtain err c2 where r: "readFromUntil c (recordHeaderLen + n) = (err, c2)" by fastforce
  consider (fail) c0 a e0 where "alertThenFail c0 a e0 = Some (RRDone e, c')" | (fw) c0 e0 where "failWith c0 e0 = Some (RRDone e, c')"
    | (fr) c0 e0 where "failRead c0 e0 = Some (RRDone e, c')"
    | (ok) "err = None" "readRecord_process c2 n ex (c_isHandshakeComplete c) = Some (RRDone e, c')"
    using assms(1) r unfolding readRecord_header_def Let_def n_def [symmetric]
    by (auto split: if_split_asm option.splits)
  then show ?thesis
  proof cases
    case ok
    have s: "same_retry c c2" by (rule readFromUntil_same [OF r])
    then have "readRecord_process c2 n ex (c_isHandshakeComplete c2) = Some (RRDone e, c')" "c_input c2 = []"
      using ok(2) assms(2) by (simp_all add: same_retry_def)
    then show ?thesis by (intro read_result_same [OF s] readRecord_process_done)
  qed (erule read_result_failed)+
qed

lemma readRecordStep_done:
  assumes "readRecordStep c ex = Some (RRDone e, c')"
  shows "read_result ex c e c'"
proof (cases "hc_err (c_in c) = None \<and> c_input c = [] \<and> c_quic c = None")
  case False
  then show ?thesis using assms
    by (auto simp: readRecordStep_def read_result_def split: option.splits if_splits dest: failWith_latched)
next
  case True
  obtain err c1 where r: "readFromUntil c recordHeaderLen = (err, c1)" by fastforce
  have s: "same_retry c c1" by (rule readFromUntil_same [OF r])
  show ?thesis
  proof (cases err)
    case None
    then have "readRecord_header c1 ex (c_isHandshakeComplete c1) = Some (RRDone e, c')"
      using assms True r by (simp add: readRecordStep_def)
    then show ?thesis using s True by (intro read_result_same [OF s] readRecord_header_done) (auto simp: same_retry_def)
  next
    case (Some x)
    then obtain e0 where "failRead c1 e0 = Some (RRDone e, c')"
      using assms True r by (simp add: readRecordStep_def split: if_splits)
    then show ?thesis by (rule read_result_failed)
  qed
qed

lemma readRecordOrCCS_result: "readRecordOrCCS c ex = Some (e, c') \<Longrightarrow> read_result ex c e c'"
proof (induction c ex rule: readRecordOrCCS.induct)
  case (1 c ex)
  show ?case
  proof (cases "readRecordStep c ex")
    case None
    then show ?thesis using "1.prems" by (simp add: readRecordOrCCS.simps)
  next
    case (Some p)
    obtain x c1 where p: "p = (x, c1)" by (cases p)
    let ?c = "c1\<lparr>c_retryCount := c_retryCount c1 + 1\<rparr>"
    show ?thesis
    proof (cases x)
      case (RRDone e1)
      then show ?thesis using "1.prems" Some p readRecordStep_done by (simp add: readRecordOrCCS.simps)
    next
      case RRRetry
      have s: "same_retry c c1" using readRecordStep_retry Some p RRRetry by blast
      show ?thesis
      proof (cases "c_retryCount ?c > maxUselessRecords")
        case True
        then obtain c2 where "in_setError c2 (Some (ErrorsNew ''tls: too many ignored records'')) = (e, c')"
          using "1.prems" Some p RRRetry by (auto simp: readRecordOrCCS.simps split: option.splits)
        then show ?thesis using in_setError_Some [of c2] by (metis fst_conv snd_conv read_result_def)
      next
        case False
        then have "readRecordOrCCS ?c ex = Some (e, c')"
          using "1.prems" Some p RRRetry by (simp add: readRecordOrCCS.simps [of c])
        then have "read_result ex ?c e c'" by (rule "1.IH" [OF Some p [symmetric] RRRetry refl False])
        then show ?thesis using s
          by (auto simp: same_retry_def read_result_def read_effect_def hand_grew_def ccs_read_def input_set_def)
      qed
    qed
  qed
qed

section \<open>Properties\<close>

definition conn_plain :: Conn where
  "conn_plain = conn_sample\<lparr>c_isHandshakeComplete := False, c_vers := 0, c_haveVers := False, c_in := halfConn_zero,
     c_out := halfConn_zero, c_conn := (c_conn conn_sample)\<lparr>nc_reads := [([22, 3, 1], None), ([0, 2, 9, 8, 21, 3, 1], None)]\<rparr>\<rparr>"



text \<open>
  (C19) Read errors are final: after a read that failed with anything but a temporary error of the network,
  the incoming half holds an error and every further read returns it without touching the connection.
\<close>

theorem readRecord_error_latched:
  assumes "readRecordOrCCS c ex = Some (Some err, c')" and "\<not> (is_net_Error err \<and> Temporary err)"
  shows "\<exists>e. hc_err (c_in c') = Some e \<and> readRecordOrCCS c' ex' = Some (Some e, c')"
proof -
  obtain e where e: "hc_err (c_in c') = Some e"
    using readRecordOrCCS_result [OF assms(1)] assms(2) by (auto simp: read_result_def)
  then have "readRecordOrCCS c' ex' = Some (Some e, c')" by (simp add: readRecordOrCCS.simps readRecordStep_def)
  then show ?thesis using e by blast
qed

text \<open>The same connection when the peer has sent a fatal alert.\<close>

theorem readRecord_error_latched_witness:
  "\<exists>e c'. readRecordOrCCS (conn_plain\<lparr>c_rawInput := [21, 3, 1, 0, 2, 2, 40]\<rparr>) False = Some (Some e, c') \<and>
    readRecordOrCCS c' True = Some (hc_err (c_in c'), c')"
proof -
  let ?c = "conn_plain\<lparr>c_rawInput := [21, 3, 1, 0, 2, 2, 40]\<rparr>"
  have "case readRecordOrCCS ?c False of Some (Some err, c') \<Rightarrow> \<not> (is_net_Error err \<and> Temporary err) | _ \<Rightarrow> False"
    by code_simp
  then obtain err c' where c': "readRecordOrCCS ?c False = Some (Some err, c')" "\<not> (is_net_Error err \<and> Temporary err)"
    by (auto split: option.splits)
  from readRecord_error_latched [OF c', of True] c'(1) show ?thesis by auto
qed

end
