(* ===== verification/Messages12.thy ===== *)
theory Messages12
  imports Wire
begin

text \<open>
  The handshake messages of TLS 1.2 and earlier (handshake\_messages.go): Certificate,
  ServerKeyExchange, CertificateStatus, ServerHelloDone, ClientKeyExchange, Finished,
  CertificateRequest, CertificateVerify, NewSessionTicket and HelloRequest. Most of them are
  encoded and decoded by hand, with explicit shifts and slice bounds; a slice or index
  expression that could be out of range is an outer \<open>None\<close> (a run-time panic), and the
  lemmas show that it never is. For each codec: decoding an encoding gives the message back,
  and (for the hand-written decoders) every accepted string is the encoding of its result.
\<close>

section \<open>Certificate\<close>

record certificateMsg =
  cm_certificates :: "bytes list"

definition certificateMsg_marshal :: "certificateMsg \<Rightarrow> bytes" where
  "certificateMsg_marshal m =
     (let i = sum_list (map length (cm_certificates m));
          len = 3 + 3 * length (cm_certificates m) + i;
          certificateOctets = len - 3
      in [typeCertificate, word_of_nat (drop_bit 16 len), word_of_nat (drop_bit 8 len), word_of_nat len]
         @ [word_of_nat (drop_bit 16 certificateOctets), word_of_nat (drop_bit 8 certificateOctets),
            word_of_nat certificateOctets]
         @ concat (map (\<lambda>slice. [word_of_nat (drop_bit 16 (length slice)),
              word_of_nat (drop_bit 8 (length slice)), word_of_nat (length slice)] @ slice) (cm_certificates m)))"

text \<open>
  The first loop of \<open>unmarshal\<close> walks over the entries and counts them; \<open>certsLen\<close> is the
  32-bit counter of octets still to come. \<open>None\<close> is \<open>return false\<close>.
\<close>

function certificateMsg_count :: "bytes \<Rightarrow> u32 \<Rightarrow> nat \<Rightarrow> nat option" where
  "certificateMsg_count d certsLen numCerts =
     (if certsLen > 0
      then if length d < 4 then None
           else let certLen = uint24 (d ! 0) (d ! 1) (d ! 2)
                in if (word_of_nat (length d) :: u32) < 3 + certLen then None
                   else certificateMsg_count (drop (unat (3 + certLen)) d) (certsLen - (3 + certLen)) (numCerts + 1)
      else Some numCerts)"
  by pat_completeness auto

termination
  by (relation "measure (\<lambda>(d, certsLen, numCerts). length d)") (auto simp: uint24_add3)

text \<open>The second loop slices the entries out; \<open>None\<close> is an index or slice out of range.\<close>

fun certificateMsg_split :: "nat \<Rightarrow> bytes \<Rightarrow> bytes list option" where
  "certificateMsg_split 0 d = Some []"
| "certificateMsg_split (Suc n) d =
     (case d of
        d0 # d1 # d2 # _ \<Rightarrow>
          (let certLen = uint24 d0 d1 d2
           in if length d < unat (3 + certLen) then None
              else map_option (\<lambda>cs. take (unat certLen) (drop 3 d) # cs)
                     (certificateMsg_split n (drop (unat (3 + certLen)) d)))
      | _ \<Rightarrow> None)"

definition certificateMsg_unmarshal :: "bytes \<Rightarrow> certificateMsg option option" where
  "certificateMsg_unmarshal data =
     (if length data < 7 then Some None
      else let certsLen = uint24 (data ! 4) (data ! 5) (data ! 6)
           in if (word_of_nat (length data) :: u32) \<noteq> certsLen + 7 then Some None
              else case certificateMsg_count (drop 7 data) certsLen 0 of
                  None \<Rightarrow> Some None
                | Some numCerts \<Rightarrow>
                    (case certificateMsg_split numCerts (drop 7 data) of
                       None \<Rightarrow> None
                     | Some cs \<Rightarrow> Some (Some \<lparr>cm_certificates = cs\<rparr>)))"

section \<open>ServerKeyExchange, ClientKeyExchange\<close>

record serverKeyExchangeMsg =
  skx_key :: bytes

definition serverKeyExchangeMsg_marshal :: "serverKeyExchangeMsg \<Rightarrow> bytes" where
  "serverKeyExchangeMsg_marshal m =
     (let len = length (skx_key m)
      in [typeServerKeyExchange, word_of_nat (drop_bit 16 len), word_of_nat (drop_bit 8 len), word_of_nat len]
         @ skx_key m)"

definition serverKeyExchangeMsg_unmarshal :: "bytes \<Rightarrow> serverKeyExchangeMsg option" where
  "serverKeyExchangeMsg_unmarshal data =
     (if length data < 4 then None else Some \<lparr>skx_key = drop 4 data\<rparr>)"

record clientKeyExchangeMsg =
  cke_ciphertext :: bytes

definition clientKeyExchangeMsg_marshal :: "clientKeyExchangeMsg \<Rightarrow> bytes" where
  "clientKeyExchangeMsg_marshal m =
     (let len = length (cke_ciphertext m)
      in [typeClientKeyExchange, word_of_nat (drop_bit 16 len), word_of_nat (drop_bit 8 len), word_of_nat len]
         @ cke_ciphertext m)"

definition clientKeyExchangeMsg_unmarshal :: "bytes \<Rightarrow> clientKeyExchangeMsg option" where
  "clientKeyExchangeMsg_unmarshal data =
     (if length data < 4 then None
      else let l = int24 (data ! 1) (data ! 2) (data ! 3)
           in if l \<noteq> length data - 4 then None else Some \<lparr>cke_ciphertext = drop 4 data\<rparr>)"

section \<open>CertificateStatus, Finished, CertificateVerify\<close>

record certificateStatusMsg =
  cs_response :: bytes

definition certificateStatusMsg_marshal ::
    "('b, 'x) cryptobyte_scheme \<Rightarrow> certificateStatusMsg \<Rightarrow> bytes res" where
  "certificateStatusMsg_marshal C m = Bytes C (block [
     AddUint8 C typeCertificateStatus,
     AddUint24LengthPrefixed C (block [
       AddUint8 C statusTypeOCSP,
       AddUint24LengthPrefixed C (AddBytes C (cs_response m))])] (NewBuilder C))"

definition certificateStatusMsg_unmarshal ::
    "('b, 'x) cryptobyte_scheme \<Rightarrow> bytes \<Rightarrow> certificateStatusMsg option" where
  "certificateStatusMsg_unmarshal C data = do {
     s \<leftarrow> Skip C 4 data;
     (statusType, s) \<leftarrow> ReadUint8 C s;
     require (statusType = statusTypeOCSP);
     (resp, s) \<leftarrow> readUint24LengthPrefixed C s;
     require (resp \<noteq> []);
     require (s = []);
     Some \<lparr>cs_response = resp\<rparr>
   }"

record finishedMsg =
  fin_verifyData :: bytes

definition finishedMsg_marshal :: "('b, 'x) cryptobyte_scheme \<Rightarrow> finishedMsg \<Rightarrow> bytes res" where
  "finishedMsg_marshal C m = Bytes C (block [
     AddUint8 C typeFinished,
     AddUint24LengthPrefixed C (AddBytes C (fin_verifyData m))] (NewBuilder C))"

definition finishedMsg_unmarshal :: "('b, 'x) cryptobyte_scheme \<Rightarrow> bytes \<Rightarrow> finishedMsg option" where
  "finishedMsg_unmarshal C data = do {
     s \<leftarrow> Skip C 1 data;
     (v, s) \<leftarrow> readUint24LengthPrefixed C s;
     require (s = []);
     Some \<lparr>fin_verifyData = v\<rparr>
   }"

record certificateVerifyMsg =
  cv_hasSignatureAlgorithm :: bool
  cv_signatureAlgorithm :: u16
  cv_signature :: bytes

definition certificateVerifyMsg_marshal ::
    "('b, 'x) cryptobyte_scheme \<Rightarrow> certificateVerifyMsg \<Rightarrow> bytes res" where
  "certificateVerifyMsg_marshal C m = Bytes C (block [
     AddUint8 C typeCertificateVerify,
     AddUint24LengthPrefixed C (block [
       cond (cv_hasSignatureAlgorithm m) [AddUint16 C (cv_signatureAlgorithm m)],
       AddUint16LengthPrefixed C (AddBytes C (cv_signature m))])] (NewBuilder C))"

text \<open>\<open>unmarshal\<close> reads the \<open>hasSignatureAlgorithm\<close> field that the caller has set.\<close>

definition certificateVerifyMsg_unmarshal ::
    "('b, 'x) cryptobyte_scheme \<Rightarrow> certificateVerifyMsg \<Rightarrow> bytes \<Rightarrow> certificateVerifyMsg option" where
  "certificateVerifyMsg_unmarshal C m data = do {
     s \<leftarrow> Skip C 4 data;
     (m, s) \<leftarrow> (if cv_hasSignatureAlgorithm m
                 then do { (alg, s) \<leftarrow> ReadUint16 C s; Some (m\<lparr>cv_signatureAlgorithm := alg\<rparr>, s) }
                 else Some (m, s));
     (sig, s) \<leftarrow> readUint16LengthPrefixed C s;
     require (s = []);
     Some (m\<lparr>cv_signature := sig\<rparr>)
   }"

section \<open>CertificateRequest\<close>

record certificateRequestMsg =
  cr_hasSignatureAlgorithm :: bool
  cr_certificateTypes :: bytes
  cr_supportedSignatureAlgorithms :: "u16 list"
  cr_certificateAuthorities :: "bytes list"

definition certificateRequestMsg_marshal :: "certificateRequestMsg \<Rightarrow> bytes" where
  "certificateRequestMsg_marshal m =
     (let casLength = sum_list (map (\<lambda>ca. 2 + length ca) (cr_certificateAuthorities m));
          len = 1 + length (cr_certificateTypes m) + 2 + casLength
            + (if cr_hasSignatureAlgorithm m then 2 + 2 * length (cr_supportedSignatureAlgorithms m) else 0);
          n = length (cr_supportedSignatureAlgorithms m) * 2
      in [typeCertificateRequest, word_of_nat (drop_bit 16 len), word_of_nat (drop_bit 8 len), word_of_nat len]
         @ [word_of_nat (length (cr_certificateTypes m))] @ cr_certificateTypes m
         @ (if cr_hasSignatureAlgorithm m
            then [word_of_nat (drop_bit 8 n), word_of_nat n]
                 @ concat (map (\<lambda>sigAlgo. [ucast (drop_bit 8 sigAlgo), ucast sigAlgo])
                     (cr_supportedSignatureAlgorithms m))
            else [])
         @ [word_of_nat (drop_bit 8 casLength), word_of_nat casLength]
         @ concat (map (\<lambda>ca. [word_of_nat (drop_bit 8 (length ca)), word_of_nat (length ca)] @ ca)
             (cr_certificateAuthorities m)))"

text \<open>\<open>for i := range ... { ... data[0]<<8 | data[1]; data = data[2:] }\<close>; \<open>None\<close> is a panic.\<close>

fun certificateRequestMsg_sigAlgs :: "nat \<Rightarrow> bytes \<Rightarrow> (u16 list \<times> bytes) option" where
  "certificateRequestMsg_sigAlgs 0 data = Some ([], data)"
| "certificateRequestMsg_sigAlgs (Suc n) data =
     (case data of
        d0 # d1 # data' \<Rightarrow>
          map_option (\<lambda>(l, r). (uint16 d0 d1 # l, r)) (certificateRequestMsg_sigAlgs n data')
      | _ \<Rightarrow> None)"

text \<open>The loop over the authorities; \<open>None\<close> is \<open>return false\<close>.\<close>

fun certificateRequestMsg_cas :: "bytes \<Rightarrow> bytes list \<Rightarrow> bytes list option" where
  "certificateRequestMsg_cas [] acc = Some acc"
| "certificateRequestMsg_cas [_] acc = None"
| "certificateRequestMsg_cas (c0 # c1 # cas) acc =
     (let caLen = unat (uint16 c0 c1)
      in if length cas < caLen then None
         else certificateRequestMsg_cas (drop caLen cas) (acc @ [take caLen cas]))"

text \<open>The part of \<open>unmarshal\<close> behind the certificate types and cv_signature algorithms.\<close>

definition certificateRequestMsg_tail ::
    "certificateRequestMsg \<Rightarrow> bytes \<Rightarrow> certificateRequestMsg option" where
  "certificateRequestMsg_tail m data =
     (case data of
        d0 # d1 # data \<Rightarrow>
          (let casLength = unat (uint16 d0 d1)
           in if length data < casLength then None
              else case certificateRequestMsg_cas (take casLength data) [] of
                  None \<Rightarrow> None
                | Some cas \<Rightarrow>
                    if length (drop casLength data) = 0
                    then Some (m\<lparr>cr_certificateAuthorities := cas\<rparr>) else None)
      | _ \<Rightarrow> None)"

definition certificateRequestMsg_unmarshal ::
    "certificateRequestMsg \<Rightarrow> bytes \<Rightarrow> certificateRequestMsg option option" where
  "certificateRequestMsg_unmarshal m data =
     (if length data < 5 then Some None
      else if (word_of_nat (length data) :: u32) - 4 \<noteq> uint24 (data ! 1) (data ! 2) (data ! 3) then Some None
      else let numCertTypes = unat (data ! 4); data = drop 5 data
      in if numCertTypes = 0 \<or> length data \<le> numCertTypes then Some None
      else let m = m\<lparr>cr_certificateTypes := take numCertTypes data\<rparr>; data = drop numCertTypes data
      in if cr_hasSignatureAlgorithm m
         then (case data of
             d0 # d1 # data \<Rightarrow>
               (let sigAndHashLen = uint16 d0 d1
                in if and sigAndHashLen 1 \<noteq> 0 \<or> sigAndHashLen = 0 then Some None
                   else if length data < unat sigAndHashLen then Some None
                   else case certificateRequestMsg_sigAlgs (unat (sigAndHashLen div 2)) data of
                       None \<Rightarrow> None
                     | Some (algs, data) \<Rightarrow>
                         Some (certificateRequestMsg_tail (m\<lparr>cr_supportedSignatureAlgorithms := algs\<rparr>) data))
           | _ \<Rightarrow> Some None)
         else Some (certificateRequestMsg_tail m data))"

section \<open>NewSessionTicket, ServerHelloDone, HelloRequest\<close>

record newSessionTicketMsg =
  nst_ticket :: bytes

definition newSessionTicketMsg_marshal :: "newSessionTicketMsg \<Rightarrow> bytes" where
  "newSessionTicketMsg_marshal m =
     (let ticketLen = length (nst_ticket m); len = 2 + 4 + ticketLen
      in [typeNewSessionTicket, word_of_nat (drop_bit 16 len), word_of_nat (drop_bit 8 len), word_of_nat len]
         @ [0, 0, 0, 0] @ [word_of_nat (drop_bit 8 ticketLen), word_of_nat ticketLen] @ nst_ticket m)"

definition newSessionTicketMsg_unmarshal :: "bytes \<Rightarrow> newSessionTicketMsg option" where
  "newSessionTicketMsg_unmarshal data =
     (if length data < 10 then None
      else if (word_of_nat (length data) :: u32) - 4 \<noteq> uint24 (data ! 1) (data ! 2) (data ! 3) then None
      else let ticketLen = push_bit 8 (unat (data ! 8)) + unat (data ! 9)
           in if length data - 10 \<noteq> ticketLen then None else Some \<lparr>nst_ticket = drop 10 data\<rparr>)"

definition serverHelloDoneMsg_marshal :: bytes where
  "serverHelloDoneMsg_marshal = [typeServerHelloDone, 0, 0, 0]"

definition serverHelloDoneMsg_unmarshal :: "bytes \<Rightarrow> bool" where
  "serverHelloDoneMsg_unmarshal data \<longleftrightarrow> length data = 4"

definition helloRequestMsg_marshal :: bytes where
  "helloRequestMsg_marshal = [typeHelloRequest, 0, 0, 0]"

definition helloRequestMsg_unmarshal :: "bytes \<Rightarrow> bool" where
  "helloRequestMsg_unmarshal data \<longleftrightarrow> length data = 4"

section \<open>Lemmas on the hand-written codecs\<close>

declare certificateMsg_count.simps [simp del]

text \<open>One entry of the certificate list on the wire.\<close>

abbreviation cert_entry :: "bytes \<Rightarrow> bytes" where
  "cert_entry c \<equiv> be 3 (length c) @ c"

lemma header_bytes:
  "[t, word_of_nat (drop_bit 16 n), word_of_nat (drop_bit 8 n), word_of_nat n] @ r = t # be 3 n @ r"
  by (simp add: be_3)

lemma length_cert_entries:
  "length (concat (map cert_entry cs)) = 3 * length cs + sum_list (map length cs)"
  by (induction cs) auto

lemma certificateMsg_marshal_eq:
  "certificateMsg_marshal m =
     (let d = concat (map cert_entry (cm_certificates m))
      in typeCertificate # be 3 (3 + length d) @ be 3 (length d) @ d)"
  unfolding certificateMsg_marshal_def Let_def length_cert_entries
  by (simp only: be_3 add.assoc add_diff_cancel_left' append.simps)

lemma be_3_nth:
  assumes "be 3 n @ r = d"
  shows "unbe [d ! 0, d ! 1, d ! 2] = n mod 256 ^ 3"
  using unbe_be [of 3 n] by (auto simp: assms [symmetric] be_3)

lemma take_3_nth: "3 \<le> length d \<Longrightarrow> take 3 d = [d ! 0, d ! 1, d ! 2]"
  by (cases d; cases "tl d"; cases "tl (tl d)") auto

lemma unat_u32_len: "n < 4294967296 \<Longrightarrow> unat (word_of_nat n :: u32) = n"
  by (simp add: unat_of_nat)

lemma certificateMsg_count_Some:
  "certificateMsg_count d certsLen k = Some n \<longleftrightarrow>
     (if certsLen > 0
      then 4 \<le> length d \<and> \<not> (word_of_nat (length d) :: u32) < 3 + uint24 (d ! 0) (d ! 1) (d ! 2) \<and>
        certificateMsg_count (drop (unat (3 + uint24 (d ! 0) (d ! 1) (d ! 2))) d)
          (certsLen - (3 + uint24 (d ! 0) (d ! 1) (d ! 2))) (k + 1) = Some n
      else k = n)"
  by (subst certificateMsg_count.simps) (auto simp: Let_def)

lemma drop_3_Cons: "drop 3 (a # b # c # r) = r" "drop (3 + n) (a # b # c # r) = drop n r"
  by (simp_all add: numeral_3_eq_3)

text \<open>
  One round of the counting loop, on a string whose first entry is complete: the entry is
  dropped and the counter decreases by its size, without wrapping around.
\<close>

lemma certificateMsg_count_entry:
  assumes "length c < 256 ^ 3" and "length (cert_entry c @ r) < 4294967296"
    and "c \<noteq> [] \<or> r \<noteq> []"
  shows "certificateMsg_count (cert_entry c @ r) (word_of_nat (length (cert_entry c @ r))) k =
         certificateMsg_count r (word_of_nat (length r)) (k + 1)"
proof -
  let ?d = "cert_entry c @ r"
  have cl: "unbe [?d ! 0, ?d ! 1, ?d ! 2] = length c"
    using be_3_nth [of "length c" "c @ r" ?d] assms(1) by simp
  then have sz: "unat (3 + uint24 (?d ! 0) (?d ! 1) (?d ! 2)) = 3 + length c"
    by (simp add: uint24_add3)
  have len: "unat (word_of_nat (length ?d) :: u32) = 3 + length c + length r"
    using unat_u32_len [OF assms(2)] by (simp only: length_append length_be)
  have sub: "(word_of_nat (length ?d) :: u32) - (3 + uint24 (?d ! 0) (?d ! 1) (?d ! 2)) = word_of_nat (length r)"
  proof -
    have "3 + uint24 (?d ! 0) (?d ! 1) (?d ! 2) = (word_of_nat (3 + length c) :: u32)"
      by (metis sz word_of_nat_unat_same)
    then show ?thesis by simp
  qed
  have c1: "\<not> length ?d < 4" using assms(3) by (cases c; cases r) auto
  have c2: "(word_of_nat (length ?d) :: u32) > 0" using len by (simp add: word_less_nat_alt)
  have c3: "\<not> (word_of_nat (length ?d) :: u32) < 3 + uint24 (?d ! 0) (?d ! 1) (?d ! 2)"
    using len sz by (simp add: word_less_nat_alt)
  have dr: "drop (3 + length c) ?d = r" by simp
  show ?thesis
    by (subst certificateMsg_count.simps) (simp only: Let_def sz sub c1 c2 c3 dr if_True if_False)
qed

lemma certificateMsg_count_entries:
  assumes "\<forall>c\<in>set cs. length c < 256 ^ 3" and "cs = [] \<or> last cs \<noteq> []"
    and "length (concat (map cert_entry cs)) < 4294967296"
  shows "certificateMsg_count (concat (map cert_entry cs))
     (word_of_nat (length (concat (map cert_entry cs)))) k = Some (k + length cs)"
  using assms
proof (induction cs arbitrary: k)
  case Nil
  then show ?case by (simp add: certificateMsg_count.simps)
next
  case (Cons c cs)
  let ?r = "concat (map cert_entry cs)"
  have "c \<noteq> [] \<or> ?r \<noteq> []" using Cons.prems(2) by (cases cs) auto
  then have "certificateMsg_count (cert_entry c @ ?r) (word_of_nat (length (cert_entry c @ ?r))) k =
      certificateMsg_count ?r (word_of_nat (length ?r)) (k + 1)"
    using Cons.prems by (intro certificateMsg_count_entry) auto
  moreover have "cs = [] \<or> last cs \<noteq> []" using Cons.prems(2) by (cases cs) auto
  ultimately show ?case using Cons.IH [of "k + 1"] Cons.prems by (simp add: add.assoc)
qed

lemma certificateMsg_split_entries:
  "\<forall>c\<in>set cs. length c < 256 ^ 3 \<Longrightarrow>
     certificateMsg_split (length cs) (concat (map cert_entry cs) @ r) = Some cs"
proof (induction cs)
  case (Cons c cs)
  have "unbe [word_of_nat (drop_bit 16 (length c)), word_of_nat (drop_bit 8 (length c)), word_of_nat (length c)] = length c"
    using Cons.prems unbe_be_small [of "length c" 3] by (simp add: be_3)
  then show ?case using Cons by (simp add: be_3 uint24_add3 uint24_unbe drop_3_Cons)
qed simp

text \<open>
  Whatever the counting loop accepts, the slicing loop can cut: the indices and slice bounds
  of the second loop are in range. Nothing is assumed of the length of the input.
\<close>

lemma certificateMsg_split_total:
  "certificateMsg_count d certsLen k = Some n \<Longrightarrow> k \<le> n \<and> certificateMsg_split (n - k) d \<noteq> None"
proof (induction d certsLen k rule: certificateMsg_count.induct)
  case (1 d certsLen k)
  let ?sz = "3 + uint24 (d ! 0) (d ! 1) (d ! 2)"
  show ?case
  proof (cases "certsLen > 0")
    case False
    with 1 show ?thesis by (subst (asm) certificateMsg_count.simps) auto
  next
    case True
    with "1.prems" have len: "4 \<le> length d" and le: "\<not> (word_of_nat (length d) :: u32) < ?sz"
      and rec: "certificateMsg_count (drop (unat ?sz) d) (certsLen - ?sz) (k + 1) = Some n"
      by (simp_all add: certificateMsg_count_Some [of d])
    have ih: "k + 1 \<le> n \<and> certificateMsg_split (n - (k + 1)) (drop (unat ?sz) d) \<noteq> None"
      using "1.IH" [OF True _ refl _ rec] len le by simp
    have bound: "unat ?sz \<le> length d"
      using le unat_of_nat [of "length d", where 'a = 32] mod_less_eq_dividend [of "length d" "2 ^ 32"]
      by (auto simp: word_less_nat_alt not_less)
    obtain d0 d1 d2 r where d: "d = d0 # d1 # d2 # r"
      using len by (cases d; cases "tl d"; cases "tl (tl d)") auto
    obtain j where j: "n - k = Suc j" "n - (k + 1) = j" using ih by (cases "n - k") auto
    show ?thesis using ih bound j by (auto simp: d Let_def)
  qed
qed

lemma certificateMsg_count_canonical:
  assumes "certificateMsg_count d (word_of_nat (length d)) k = Some n" and "length d < 4294967296"
  shows "\<exists>cs. d = concat (map cert_entry cs) \<and> n = k + length cs \<and> (\<forall>c\<in>set cs. length c < 256 ^ 3)"
  using assms
proof (induction "length d" arbitrary: d k rule: less_induct)
  case less
  let ?sz = "3 + uint24 (d ! 0) (d ! 1) (d ! 2)"
  have ld: "unat (word_of_nat (length d) :: u32) = length d" by (rule unat_u32_len [OF less.prems(2)])
  show ?case
  proof (cases "(word_of_nat (length d) :: u32) > 0")
    case False
    then have "d = []" using ld by (simp add: word_less_nat_alt)
    with less.prems(1) show ?thesis by (intro exI [of _ "[]"]) (simp add: certificateMsg_count_Some [of "[]"])
  next
    case True
    with less.prems(1) have len: "4 \<le> length d" and le: "\<not> (word_of_nat (length d) :: u32) < ?sz"
      and rec: "certificateMsg_count (drop (unat ?sz) d) (word_of_nat (length d) - ?sz) (k + 1) = Some n"
      by (simp_all add: certificateMsg_count_Some [of d])
    have usz: "unat ?sz = 3 + unbe (take 3 d)" using len by (simp add: uint24_add3 take_3_nth)
    have le': "unat ?sz \<le> length d" using le ld by (simp add: word_less_nat_alt not_less)
    then have "(word_of_nat (length d) :: u32) - ?sz = word_of_nat (length (drop (unat ?sz) d))"
      by (simp add: of_nat_diff)
    with rec have "certificateMsg_count (drop (unat ?sz) d) (word_of_nat (length (drop (unat ?sz) d))) (k + 1) = Some n"
      by simp
    moreover have "length (drop (unat ?sz) d) < length d" using len usz by simp
    ultimately obtain cs where cs: "drop (unat ?sz) d = concat (map cert_entry cs)"
        "n = k + 1 + length cs" "\<forall>c\<in>set cs. length c < 256 ^ 3"
      using less.hyps less.prems(2) by fastforce
    define c where "c = take (unbe (take 3 d)) (drop 3 d)"
    have lc: "length c = unbe (take 3 d)" using le' usz by (simp add: c_def)
    moreover have "be 3 (unbe (take 3 d)) = take 3 d" using len by (intro be_unbe_len) simp
    moreover have "drop (unat ?sz) d = drop (unbe (take 3 d)) (drop 3 d)" by (simp only: usz drop_drop add.commute)
    ultimately have "d = cert_entry c @ drop (unat ?sz) d" by (simp only: c_def append_assoc append_take_drop_id)
    moreover have "length c < 256 ^ 3" using lc unbe_less [of "take 3 d"] len by simp
    ultimately show ?thesis using cs by (intro exI [of _ "c # cs"]) auto
  qed
qed

lemma certificateMsg_unmarshal_not_panic: "certificateMsg_unmarshal data \<noteq> None"
  by (auto simp: certificateMsg_unmarshal_def Let_def split: option.splits
      dest!: certificateMsg_split_total)

lemma certificateMsg_unmarshal_marshal:
  assumes "length (certificateMsg_marshal m) < 2 ^ 24"
    and "cm_certificates m = [] \<or> last (cm_certificates m) \<noteq> []"
  shows "certificateMsg_unmarshal (certificateMsg_marshal m) = Some (Some m)"
proof -
  define d where "d = concat (map cert_entry (cm_certificates m))"
  have eq: "certificateMsg_marshal m = typeCertificate # be 3 (3 + length d) @ be 3 (length d) @ d"
    by (simp add: certificateMsg_marshal_eq d_def Let_def)
  have ld: "length d < 256 ^ 3" using assms(1) by (simp add: eq)
  have small: "\<forall>c\<in>set (cm_certificates m). length c < 256 ^ 3"
  proof
    fix c assume "c \<in> set (cm_certificates m)"
    then have "length c \<in> set (map length (cm_certificates m))" by simp
    then have "length c \<le> length d"
      using member_le_sum_list [of "length c" "map length (cm_certificates m)"]
      by (simp add: d_def length_cert_entries)
    with ld show "length c < 256 ^ 3" by simp
  qed
  have nth: "certificateMsg_marshal m ! 4 = word_of_nat (drop_bit 16 (length d))"
      "certificateMsg_marshal m ! 5 = word_of_nat (drop_bit 8 (length d))"
      "certificateMsg_marshal m ! 6 = word_of_nat (length d)"
      "drop 7 (certificateMsg_marshal m) = d"
    unfolding eq be_3 by (simp_all del: of_nat_add)
  have u: "unat (uint24 (certificateMsg_marshal m ! 4) (certificateMsg_marshal m ! 5) (certificateMsg_marshal m ! 6)) = length d"
    unfolding uint24_unbe nth using unbe_be_small [OF ld] by (simp add: be_3)
  then have cl: "uint24 (certificateMsg_marshal m ! 4) (certificateMsg_marshal m ! 5) (certificateMsg_marshal m ! 6) =
      word_of_nat (length d)"
    by (metis word_of_nat_unat_same)
  have "(word_of_nat (length (certificateMsg_marshal m)) :: u32) = word_of_nat (length d) + 7"
    by (simp add: eq)
  moreover have "certificateMsg_count d (word_of_nat (length d)) 0 = Some (0 + length (cm_certificates m))"
    unfolding d_def by (rule certificateMsg_count_entries [OF small assms(2)]) (use ld d_def in simp)
  moreover have "certificateMsg_split (length (cm_certificates m)) d = Some (cm_certificates m)"
    using certificateMsg_split_entries [OF small, of "[]"] by (simp add: d_def)
  moreover have "\<not> length (certificateMsg_marshal m) < 7" by (simp add: eq)
  ultimately show ?thesis by (simp add: certificateMsg_unmarshal_def cl nth(4))
qed

lemma certificateMsg_canonical:
  assumes "certificateMsg_unmarshal data = Some (Some m)" and "length data < 4294967296"
  shows "drop 4 data = drop 4 (certificateMsg_marshal m)"
proof -
  let ?u = "uint24 (data ! 4) (data ! 5) (data ! 6)"
  from assms(1) have len: "7 \<le> length data" and u: "(word_of_nat (length data) :: u32) = ?u + 7"
    and ex: "\<exists>n. certificateMsg_count (drop 7 data) ?u 0 = Some n \<and>
      certificateMsg_split n (drop 7 data) = Some (cm_certificates m)"
    by (auto simp: certificateMsg_unmarshal_def Let_def split: if_splits option.splits)
  have "?u = (word_of_nat (length data) :: u32) - 7" by (simp add: u)
  then have u': "?u = word_of_nat (length (drop 7 data))" using len by (simp add: of_nat_diff)
  from ex obtain n where n: "certificateMsg_count (drop 7 data) (word_of_nat (length (drop 7 data))) 0 = Some n"
      "certificateMsg_split n (drop 7 data) = Some (cm_certificates m)"
    unfolding u' by blast
  then obtain cs where cs: "drop 7 data = concat (map cert_entry cs)" "n = length cs" "\<forall>c\<in>set cs. length c < 256 ^ 3"
    using certificateMsg_count_canonical assms(2) by fastforce
  then have "cm_certificates m = cs" using n(2) certificateMsg_split_entries [of cs "[]"] by simp
  then have "drop 4 (certificateMsg_marshal m) = be 3 (length (drop 7 data)) @ drop 7 data"
    by (simp add: certificateMsg_marshal_eq cs(1) Let_def be_3 del: of_nat_add)
  moreover have "unat ?u = length (drop 7 data)" using assms(2) by (simp add: u' unat_of_nat)
  then have "length (drop 7 data) = unbe (take 3 (drop 4 data))"
    using len by (simp add: uint24_unbe take_3_nth)
  then have "be 3 (length (drop 7 data)) = take 3 (drop 4 data)"
    using len by (simp only:) (rule be_unbe_len, simp)
  moreover have "take 3 (drop 4 data) @ drop 7 data = drop 4 data"
    using append_take_drop_id [of 3 "drop 4 data"] by simp
  ultimately show ?thesis by simp
qed

text \<open>ClientKeyExchange: the declared length is the length of the body.\<close>

lemma clientKeyExchangeMsg_unmarshal_iff:
  "clientKeyExchangeMsg_unmarshal data = Some m \<longleftrightarrow>
     (\<exists>t. length (cke_ciphertext m) < 2 ^ 24 \<and> data = t # be 3 (length (cke_ciphertext m)) @ cke_ciphertext m)"
    (is "?lhs \<longleftrightarrow> ?rhs")
proof
  assume ?lhs
  then have len: "4 \<le> length data" and l: "unbe [data ! 1, data ! 2, data ! 3] = length data - 4"
    and m: "cke_ciphertext m = drop 4 data"
    by (auto simp: clientKeyExchangeMsg_unmarshal_def Let_def int24_unbe split: if_splits)
  obtain t a b c r where data: "data = t # a # b # c # r"
    using len by (cases data; cases "tl data"; cases "tl (tl data)"; cases "tl (tl (tl data))") auto
  have "be 3 (unbe [a, b, c]) = [a, b, c]" by (rule be_unbe_len) simp
  moreover have "unbe [a, b, c] = length r" using l by (simp add: data)
  moreover have "length r < 2 ^ 24" using unbe_less [of "[a, b, c]"] calculation(2) by simp
  ultimately show ?rhs using m by (simp add: data)
next
  assume ?rhs
  then obtain t where t: "length (cke_ciphertext m) < 256 ^ 3"
    "data = t # be 3 (length (cke_ciphertext m)) @ cke_ciphertext m" by auto
  then show ?lhs
    using unbe_be_small [OF t(1)]
    by (simp add: clientKeyExchangeMsg_unmarshal_def Let_def int24_unbe be_3 del: of_nat_add)
qed

lemma newSessionTicketMsg_unmarshal_marshal:
  assumes "length (nst_ticket m) < 2 ^ 16"
  shows "newSessionTicketMsg_unmarshal (newSessionTicketMsg_marshal m) = Some m"
proof -
  let ?n = "length (nst_ticket m)"
  have eq: "newSessionTicketMsg_marshal m = typeNewSessionTicket # be 3 (6 + ?n) @ [0, 0, 0, 0] @ be 2 ?n @ nst_ticket m"
    by (simp add: newSessionTicketMsg_marshal_def Let_def be_3 be_2)
  have u: "uint24 (newSessionTicketMsg_marshal m ! 1) (newSessionTicketMsg_marshal m ! 2) (newSessionTicketMsg_marshal m ! 3)
      = word_of_nat (6 + ?n)"
  proof -
    have "unbe (be 3 (6 + ?n)) = 6 + ?n" using assms by (intro unbe_be_small) simp
    then have "unat (uint24 (newSessionTicketMsg_marshal m ! 1) (newSessionTicketMsg_marshal m ! 2)
        (newSessionTicketMsg_marshal m ! 3)) = 6 + ?n"
      unfolding eq uint24_unbe be_3 by (simp del: of_nat_add)
    then show ?thesis by (metis word_of_nat_unat_same)
  qed
  have "unbe (be 2 ?n) = ?n" using assms by (intro unbe_be_small) simp
  then have t: "push_bit 8 (unat (newSessionTicketMsg_marshal m ! 8)) + unat (newSessionTicketMsg_marshal m ! 9) = ?n"
    unfolding eq be_3 be_2 by (simp add: unbe_2 push_bit_eq_mult)
  have l: "length (newSessionTicketMsg_marshal m) = 10 + ?n" by (simp add: eq)
  have dr: "drop 10 (newSessionTicketMsg_marshal m) = nst_ticket m"
    unfolding eq be_3 be_2 by (simp del: of_nat_add)
  show ?thesis unfolding newSessionTicketMsg_unmarshal_def Let_def u t l dr by simp
qed

section \<open>CertificateRequest\<close>

lemma certificateRequestMsg_sigAlgs_total:
  "2 * n \<le> length d \<Longrightarrow> certificateRequestMsg_sigAlgs n d \<noteq> None"
proof (induction n arbitrary: d)
  case (Suc n)
  then obtain a b r where d: "d = a # b # r" by (cases d; cases "tl d") auto
  with Suc show ?case by auto
qed simp

lemma certificateRequestMsg_unmarshal_not_panic: "certificateRequestMsg_unmarshal m d \<noteq> None"
proof -
  have half: "2 * unat (x div 2) \<le> unat x" for x :: u16 by (simp add: unat_div)
  have none: "length d' < unat x" if "certificateRequestMsg_sigAlgs (unat (x div 2)) d' = None" for x :: u16 and d'
    using half [of x] that certificateRequestMsg_sigAlgs_total [of "unat (x div 2)" d'] by linarith
  show ?thesis
    by (auto simp: certificateRequestMsg_unmarshal_def Let_def not_less split: list.splits option.splits dest!: none)
qed

lemma u16_bytes: "[ucast (drop_bit 8 v), ucast v] = be 2 (unat (v :: u16))"
proof -
  have "ucast (drop_bit 8 v) = (word_of_nat (drop_bit 8 (unat v)) :: u8)"
    by (rule bit_word_eqI) (simp add: bit_ucast_iff bit_of_nat_iff bit_drop_bit_eq bit_unsigned_iff)
  then show ?thesis by (simp add: be_2)
qed

lemma uint16_be: "v < 65536 \<Longrightarrow> be 2 v = [a, b] \<Longrightarrow> unat (uint16 a b) = v"
  using unbe_be_small [of v 2] by (simp add: uint16_unbe)

lemma be_2_Cons: "\<exists>a b. be 2 v = [a, b]"
  by (simp add: be_2)

lemma certificateRequestMsg_sigAlgs_back:
  "certificateRequestMsg_sigAlgs (length vs) (concat (map (\<lambda>v. be 2 (unat v)) vs) @ r) = Some (vs, r)"
proof (induction vs)
  case (Cons v vs)
  obtain a b where ab: "be 2 (unat v) = [a, b]" using be_2_Cons by blast
  then have "uint16 a b = v" using uint16_be [OF _ ab] by (simp add: word_unat_eq_iff)
  with Cons ab show ?case by simp
qed simp

lemma certificateRequestMsg_cas_back:
  "\<forall>ca\<in>set cas. length ca < 65536 \<Longrightarrow>
     certificateRequestMsg_cas (concat (map (\<lambda>ca. be 2 (length ca) @ ca) cas)) acc = Some (acc @ cas)"
proof (induction cas arbitrary: acc)
  case (Cons ca cas)
  obtain a b where ab: "be 2 (length ca) = [a, b]" using be_2_Cons by blast
  then have "unat (uint16 a b) = length ca" using Cons.prems by (intro uint16_be) simp_all
  with Cons ab show ?case by (simp add: Let_def)
qed simp

lemma certificateRequestMsg_tail_back:
  assumes "\<forall>ca\<in>set cas. length ca < 65536"
    and "length (concat (map (\<lambda>ca. be 2 (length ca) @ ca) cas)) < 65536"
  shows "certificateRequestMsg_tail m
     (be 2 (length (concat (map (\<lambda>ca. be 2 (length ca) @ ca) cas))) @ concat (map (\<lambda>ca. be 2 (length ca) @ ca) cas))
     = Some (m\<lparr>cr_certificateAuthorities := cas\<rparr>)"
proof -
  let ?w = "concat (map (\<lambda>ca. be 2 (length ca) @ ca) cas)"
  obtain a b where ab: "be 2 (length ?w) = [a, b]" using be_2_Cons by blast
  then have "unat (uint16 a b) = length ?w" using assms(2) by (intro uint16_be) simp_all
  with ab certificateRequestMsg_cas_back [OF assms(1)] show ?thesis
    by (simp add: certificateRequestMsg_tail_def Let_def del: length_concat)
qed

text \<open>The messages that \<open>marshal\<close> can encode and \<open>unmarshal\<close> accepts.\<close>

definition certificateRequestMsg_wf :: "certificateRequestMsg \<Rightarrow> bool" where
  "certificateRequestMsg_wf m \<longleftrightarrow>
     cr_certificateTypes m \<noteq> [] \<and> length (cr_certificateTypes m) < 2 ^ 8 \<and>
     sum_list (map (\<lambda>ca. 2 + length ca) (cr_certificateAuthorities m)) < 2 ^ 16 \<and>
     (if cr_hasSignatureAlgorithm m
      then cr_supportedSignatureAlgorithms m \<noteq> [] \<and> 2 * length (cr_supportedSignatureAlgorithms m) < 2 ^ 16
      else cr_supportedSignatureAlgorithms m = [])"

lemma certificateRequestMsg_marshal_eq:
  "certificateRequestMsg_marshal m =
     (let cas = concat (map (\<lambda>ca. be 2 (length ca) @ ca) (cr_certificateAuthorities m));
          algs = concat (map (\<lambda>v. be 2 (unat v)) (cr_supportedSignatureAlgorithms m));
          body = (if cr_hasSignatureAlgorithm m then be 2 (length algs) @ algs else []) @ be 2 (length cas) @ cas;
          rest = word_of_nat (length (cr_certificateTypes m)) # cr_certificateTypes m @ body
      in typeCertificateRequest # be 3 (length rest) @ rest)"
proof -
  have cas: "length (concat (map (\<lambda>ca. word_of_nat (drop_bit 8 (length ca)) # word_of_nat (length ca) # ca) l)) =
      sum_list (map (\<lambda>ca. 2 + length ca) l)" for l :: "bytes list"
    by (induction l) auto
  have algs: "length (concat (map (\<lambda>v. [word_of_nat (drop_bit 8 (unat v)), word_of_nat (unat v)]) l)) = length l * 2" for l :: "u16 list"
    by (induction l) auto
  show ?thesis
    unfolding certificateRequestMsg_marshal_def Let_def u16_bytes be_2 be_3 cas algs
    by (simp add: cas algs add.assoc add.commute add.left_commute mult.commute del: of_nat_add of_nat_mult of_nat_Suc of_nat_unat)
qed

lemma certificateRequestMsg_unmarshal_marshal:
  assumes "certificateRequestMsg_wf m"
    and "m0 = \<lparr>cr_hasSignatureAlgorithm = cr_hasSignatureAlgorithm m, cr_certificateTypes = [],
      cr_supportedSignatureAlgorithms = [], cr_certificateAuthorities = []\<rparr>"
  shows "certificateRequestMsg_unmarshal m0 (certificateRequestMsg_marshal m) = Some (Some m)"
proof -
  define cas where "cas = concat (map (\<lambda>ca. be 2 (length ca) @ ca) (cr_certificateAuthorities m))"
  define algs where "algs = concat (map (\<lambda>v. be 2 (unat v)) (cr_supportedSignatureAlgorithms m))"
  define body where "body = (if cr_hasSignatureAlgorithm m then be 2 (length algs) @ algs else []) @ be 2 (length cas) @ cas"
  define types where "types = cr_certificateTypes m"
  define rest where "rest = word_of_nat (length types) # types @ body"
  have eq: "certificateRequestMsg_marshal m = typeCertificateRequest # be 3 (length rest) @ rest"
    by (simp add: certificateRequestMsg_marshal_eq Let_def cas_def algs_def body_def rest_def types_def)
  have lcas: "length cas = sum_list (map (\<lambda>ca. 2 + length ca) (cr_certificateAuthorities m))"
    unfolding cas_def by (induction "cr_certificateAuthorities m" rule: list.induct) (auto simp: length_concat comp_def)
  have lalgs: "length algs = 2 * length (cr_supportedSignatureAlgorithms m)"
    unfolding algs_def by (simp add: length_concat comp_def sum_list_triv)
  have types: "types \<noteq> []" "length types < 256" and cas: "length cas < 65536"
    and sigs: "cr_hasSignatureAlgorithm m \<Longrightarrow> algs \<noteq> [] \<and> length algs < 65536"
      "\<not> cr_hasSignatureAlgorithm m \<Longrightarrow> cr_supportedSignatureAlgorithms m = []"
    using assms(1) lalgs by (auto simp: certificateRequestMsg_wf_def types_def lcas split: if_splits)
  have small: "\<forall>ca\<in>set (cr_certificateAuthorities m). length ca < 65536"
  proof
    fix ca assume "ca \<in> set (cr_certificateAuthorities m)"
    then have "2 + length ca \<in> set (map (\<lambda>ca. 2 + length ca) (cr_certificateAuthorities m))" by simp
    from member_le_sum_list [OF this] cas show "length ca < 65536" by (simp add: lcas)
  qed
  have lrest: "length rest < 256 ^ 3"
    using types cas sigs by (auto simp: rest_def body_def)
  obtain a b c where abc: "be 3 (length rest) = [a, b, c]" by (simp add: be_3)
  have hdr: "(word_of_nat (length (certificateRequestMsg_marshal m)) :: u32) - 4 = uint24 a b c"
  proof -
    have "unat (uint24 a b c) = length rest"
      using unbe_be_small [OF lrest] by (simp add: uint24_unbe abc)
    then have "uint24 a b c = word_of_nat (length rest)" by (metis word_of_nat_unat_same)
    then show ?thesis by (simp add: eq)
  qed
  have tail: "certificateRequestMsg_tail m1 (be 2 (length cas) @ cas) = Some (m1\<lparr>cr_certificateAuthorities := cr_certificateAuthorities m\<rparr>)" for m1
    using certificateRequestMsg_tail_back [OF small] cas by (simp add: cas_def)
  have msg: "certificateRequestMsg_marshal m = typeCertificateRequest # a # b # c # word_of_nat (length types) # types @ body"
    unfolding eq abc by (simp add: rest_def)
  have nt: "unat (word_of_nat (length types) :: u8) = length types" using types(2) by (simp add: unat_u8_mod)
  have blen: "\<not> length (types @ body) \<le> length types" by (simp add: body_def)
  show ?thesis
  proof (cases "cr_hasSignatureAlgorithm m")
    case False
    then show ?thesis
      using hdr tail nt blen types sigs(2)
      by (simp add: certificateRequestMsg_unmarshal_def Let_def msg assms(2) body_def types_def)
  next
    case True
    obtain e f where ef: "be 2 (length algs) = [e, f]" using be_2_Cons by blast
    have lu: "unat (uint16 e f) = length algs" using sigs(1) [OF True] ef by (intro uint16_be) simp_all
    have "unat (uint16 e f mod 2) = 0" unfolding unat_mod lu lalgs by simp
    then have "and (uint16 e f) 1 = 0" unfolding and_one_eq by (simp only: unat_eq_zero)
    moreover have "uint16 e f \<noteq> 0" using lu sigs(1) [OF True] by auto
    moreover have "unat (uint16 e f div 2) = length (cr_supportedSignatureAlgorithms m)"
      by (simp add: unat_div lu lalgs)
    moreover have "certificateRequestMsg_sigAlgs (length (cr_supportedSignatureAlgorithms m)) (algs @ be 2 (length cas) @ cas)
        = Some (cr_supportedSignatureAlgorithms m, be 2 (length cas) @ cas)"
      unfolding algs_def by (rule certificateRequestMsg_sigAlgs_back)
    ultimately show ?thesis
      using hdr tail nt blen types True lu
      by (simp add: certificateRequestMsg_unmarshal_def Let_def msg assms(2) body_def types_def ef)
  qed
qed

section \<open>The messages built with cryptobyte\<close>

context cryptobyte_pkg
begin

lemma Skip_one [simp]: "Skip C 1 (t # r) = Some r" "Skip C (Suc 0) (t # r) = Some r"
  by (simp_all add: Skip_split split_at_def)

lemma finishedMsg_marshal_iff:
  "finishedMsg_marshal C m = Inr bs \<longleftrightarrow>
     length (fin_verifyData m) < 2 ^ 24 \<and> bs = typeFinished # lp24 (fin_verifyData m)"
  by (auto simp: finishedMsg_marshal_def wire_Some [symmetric] wire_iffs)

lemma finishedMsg_unmarshal_iff:
  "finishedMsg_unmarshal C bs = Some m \<longleftrightarrow>
     (\<exists>t. length (fin_verifyData m) < 2 ^ 24 \<and> bs = t # lp24 (fin_verifyData m))"
  by (cases bs; cases m) (auto simp: finishedMsg_unmarshal_def all_read_iffs bind_eq_Some_conv length_Suc_conv)

lemma certificateStatusMsg_unmarshal_marshal:
  assumes "certificateStatusMsg_marshal C m = Inr bs" and "cs_response m \<noteq> []"
  shows "certificateStatusMsg_unmarshal C bs = Some m"
  using assms
  by (auto simp: certificateStatusMsg_marshal_def certificateStatusMsg_unmarshal_def wire_Some [symmetric]
      wire_iffs)

lemma certificateVerifyMsg_unmarshal_marshal:
  assumes "certificateVerifyMsg_marshal C m = Inr bs"
    and "m0 = \<lparr>cv_hasSignatureAlgorithm = cv_hasSignatureAlgorithm m, cv_signatureAlgorithm = 0, cv_signature = []\<rparr>"
    and "\<not> cv_hasSignatureAlgorithm m \<Longrightarrow> cv_signatureAlgorithm m = 0"
  shows "certificateVerifyMsg_unmarshal C m0 bs = Some m"
  using assms
  by (auto simp: certificateVerifyMsg_marshal_def certificateVerifyMsg_unmarshal_def wire_Some [symmetric]
      wire_iffs split: if_splits)

end

section \<open>Properties\<close>

text \<open>
  The hand-written TLS 1.2 Certificate parser never indexes out of range: for every input it
  returns (accepting or rejecting), although it slices the message by attacker-chosen lengths.
\<close>

lemma certificate12_never_panics: "certificateMsg_unmarshal data \<noteq> None"
  by (rule certificateMsg_unmarshal_not_panic)

text \<open>
  The TLS 1.2 Certificate parser is injective on message bodies: two accepted messages with
  the same certificates have the same bytes after the handshake header.
\<close>

lemma certificate12_canonical:
  assumes "certificateMsg_unmarshal data = Some (Some m)" and "certificateMsg_unmarshal data' = Some (Some m)"
    and "length data < 4294967296" and "length data' < 4294967296"
  shows "drop 4 data = drop 4 data'"
  using certificateMsg_canonical [OF assms(1,3)] certificateMsg_canonical [OF assms(2,4)] by simp

text \<open>
  TLS 1.2 Certificate round trip, for a chain whose last certificate is not empty (a trailing
  empty certificate is the one list that \<open>marshal\<close> writes and \<open>unmarshal\<close> rejects).
\<close>

lemma certificate12_roundtrip:
  assumes "length (certificateMsg_marshal m) < 2 ^ 24"
    and "cm_certificates m = [] \<or> last (cm_certificates m) \<noteq> []"
  shows "certificateMsg_unmarshal (certificateMsg_marshal m) = Some (Some m)"
  by (rule certificateMsg_unmarshal_marshal [OF assms])

text \<open>
  The TLS 1.2 CertificateRequest parser never indexes out of range, with or without the
  signature algorithms of TLS 1.2.
\<close>

lemma certificateRequest12_never_panics: "certificateRequestMsg_unmarshal m d \<noteq> None"
  by (rule certificateRequestMsg_unmarshal_not_panic)

text \<open>
  TLS 1.2 ClientKeyExchange: exactly the strings of a type byte, the 24-bit length and that
  many bytes are accepted, and the key exchange value is what follows the header.
\<close>

lemma clientKeyExchange_accepts:
  "clientKeyExchangeMsg_unmarshal data = Some m \<longleftrightarrow>
     (\<exists>t. length (cke_ciphertext m) < 2 ^ 24 \<and> data = t # be 3 (length (cke_ciphertext m)) @ cke_ciphertext m)"
  by (rule clientKeyExchangeMsg_unmarshal_iff)

end
