(* ===== verification/ServerHello.thy ===== *)
theory ServerHello
  imports Wire
begin

text \<open>
  The ServerHello and HelloRetryRequest message (\<open>serverHelloMsg\<close> of
  handshake\_messages.go). The lemmas show that a marshalled message is read back field by
  field, that a repeated extension is rejected, and that the two forms of the key\_share
  extension are told apart by their length.
\<close>

record serverHelloMsg =
  sh_original :: "bytes option"
  sh_vers :: u16
  sh_random :: bytes
  sh_sessionId :: bytes
  sh_cipherSuite :: u16
  sh_compressionMethod :: u8
  sh_ocspStapling :: bool
  sh_ticketSupported :: bool
  sh_secureRenegotiationSupported :: bool
  sh_secureRenegotiation :: bytes
  sh_extendedMasterSecret :: bool
  sh_alpnProtocol :: bytes
  sh_scts :: "bytes list"
  sh_supportedVersion :: u16
  sh_serverShare :: keyShare
  sh_selectedIdentityPresent :: bool
  sh_selectedIdentity :: u16
  sh_supportedPoints :: bytes
  sh_encryptedClientHello :: "bytes option"
  sh_serverNameAck :: bool
  sh_cookie :: bytes
  sh_selectedGroup :: u16

definition serverHelloMsg_zero :: serverHelloMsg where
  "serverHelloMsg_zero = \<lparr>sh_original = None, sh_vers = 0, sh_random = [], sh_sessionId = [],
     sh_cipherSuite = 0, sh_compressionMethod = 0, sh_ocspStapling = False, sh_ticketSupported = False,
     sh_secureRenegotiationSupported = False, sh_secureRenegotiation = [],
     sh_extendedMasterSecret = False, sh_alpnProtocol = [], sh_scts = [], sh_supportedVersion = 0,
     sh_serverShare = \<lparr>ks_group = 0, ks_data = []\<rparr>, sh_selectedIdentityPresent = False,
     sh_selectedIdentity = 0, sh_supportedPoints = [], sh_encryptedClientHello = None,
     sh_serverNameAck = False, sh_cookie = [], sh_selectedGroup = 0\<rparr>"

definition serverHelloMsg_exts :: "('b, 'x) cryptobyte_scheme \<Rightarrow> serverHelloMsg \<Rightarrow> bytes res" where
  "serverHelloMsg_exts C m = Bytes C (block [
     cond (sh_ocspStapling m) [AddUint16 C extensionStatusRequest, AddUint16 C 0],
     cond (sh_ticketSupported m) [AddUint16 C extensionSessionTicket, AddUint16 C 0],
     cond (sh_secureRenegotiationSupported m) [
       AddUint16 C extensionRenegotiationInfo,
       AddUint16LengthPrefixed C (AddUint8LengthPrefixed C (AddBytes C (sh_secureRenegotiation m)))],
     cond (sh_extendedMasterSecret m) [AddUint16 C extensionExtendedMasterSecret, AddUint16 C 0],
     cond (length (sh_alpnProtocol m) > 0) [
       AddUint16 C extensionALPN,
       AddUint16LengthPrefixed C (
         AddUint16LengthPrefixed C (
           AddUint8LengthPrefixed C (AddBytes C (sh_alpnProtocol m))))],
     cond (length (sh_scts m) > 0) [
       AddUint16 C extensionSCT,
       AddUint16LengthPrefixed C (
         AddUint16LengthPrefixed C (
           foreach (sh_scts m) (\<lambda>sct. [AddUint16LengthPrefixed C (AddBytes C sct)])))],
     cond (sh_supportedVersion m \<noteq> 0) [
       AddUint16 C extensionSupportedVersions,
       AddUint16LengthPrefixed C (AddUint16 C (sh_supportedVersion m))],
     cond (ks_group (sh_serverShare m) \<noteq> 0) [
       AddUint16 C extensionKeyShare,
       AddUint16LengthPrefixed C (block [
         AddUint16 C (ks_group (sh_serverShare m)),
         AddUint16LengthPrefixed C (AddBytes C (ks_data (sh_serverShare m)))])],
     cond (sh_selectedIdentityPresent m) [
       AddUint16 C extensionPreSharedKey,
       AddUint16LengthPrefixed C (AddUint16 C (sh_selectedIdentity m))],
     cond (length (sh_cookie m) > 0) [
       AddUint16 C extensionCookie,
       AddUint16LengthPrefixed C (AddUint16LengthPrefixed C (AddBytes C (sh_cookie m)))],
     cond (sh_selectedGroup m \<noteq> 0) [
       AddUint16 C extensionKeyShare,
       AddUint16LengthPrefixed C (AddUint16 C (sh_selectedGroup m))],
     cond (length (sh_supportedPoints m) > 0) [
       AddUint16 C extensionSupportedPoints,
       AddUint16LengthPrefixed C (AddUint8LengthPrefixed C (AddBytes C (sh_supportedPoints m)))],
     cond (length (bytesOf (sh_encryptedClientHello m)) > 0) [
       AddUint16 C extensionEncryptedClientHello,
       AddUint16LengthPrefixed C (AddBytes C (bytesOf (sh_encryptedClientHello m)))],
     cond (sh_serverNameAck m) [AddUint16 C extensionServerName, AddUint16 C 0]] (NewBuilder C))"

definition serverHelloMsg_marshal :: "('b, 'x) cryptobyte_scheme \<Rightarrow> serverHelloMsg \<Rightarrow> bytes res" where
  "serverHelloMsg_marshal C m =
     (case serverHelloMsg_exts C m of
        Inl e \<Rightarrow> Inl e
      | Inr extBytes \<Rightarrow> Bytes C (block [
          AddUint8 C typeServerHello,
          AddUint24LengthPrefixed C (block [
            AddUint16 C (sh_vers m),
            addBytesWithLength C (sh_random m) 32,
            AddUint8LengthPrefixed C (AddBytes C (sh_sessionId m)),
            AddUint16 C (sh_cipherSuite m),
            AddUint8 C (sh_compressionMethod m),
            cond (length extBytes > 0) [
              AddUint16LengthPrefixed C (AddBytes C extBytes)]])] (NewBuilder C)))"

definition serverHelloMsg_switch ::
    "('b, 'x) cryptobyte_scheme \<Rightarrow> u16 \<Rightarrow> bytes \<Rightarrow> bytes \<Rightarrow> serverHelloMsg \<Rightarrow> serverHelloMsg option" where
  "serverHelloMsg_switch C extension extData extensions m =
     (if extension = extensionStatusRequest then
        endExt extData (m\<lparr>sh_ocspStapling := True\<rparr>)
      else if extension = extensionSessionTicket then
        endExt extData (m\<lparr>sh_ticketSupported := True\<rparr>)
      else if extension = extensionRenegotiationInfo then do {
        (info, extData) \<leftarrow> readUint8LengthPrefixed C extData;
        endExt extData (m\<lparr>sh_secureRenegotiation := info, sh_secureRenegotiationSupported := True\<rparr>) }
      else if extension = extensionExtendedMasterSecret then
        endExt extData (m\<lparr>sh_extendedMasterSecret := True\<rparr>)
      else if extension = extensionALPN then do {
        (protoList, extData) \<leftarrow> ReadUint16LengthPrefixed C extData;
        require (protoList \<noteq> []);
        (proto, protoList) \<leftarrow> ReadUint8LengthPrefixed C protoList;
        require (proto \<noteq> [] \<and> protoList = []);
        endExt extData (m\<lparr>sh_alpnProtocol := proto\<rparr>) }
      else if extension = extensionSCT then do {
        (sctList, extData) \<leftarrow> ReadUint16LengthPrefixed C extData;
        require (sctList \<noteq> []);
        scts \<leftarrow> readU16Strings C sctList (sh_scts m);
        endExt extData (m\<lparr>sh_scts := scts\<rparr>) }
      else if extension = extensionSupportedVersions then do {
        (vers, extData) \<leftarrow> ReadUint16 C extData;
        endExt extData (m\<lparr>sh_supportedVersion := vers\<rparr>) }
      else if extension = extensionCookie then do {
        (cookie, extData) \<leftarrow> readUint16LengthPrefixed C extData;
        require (cookie \<noteq> []);
        endExt extData (m\<lparr>sh_cookie := cookie\<rparr>) }
      else if extension = extensionKeyShare then
        if length extData = 2 then do {
          (group, extData) \<leftarrow> ReadUint16 C extData;
          endExt extData (m\<lparr>sh_selectedGroup := group\<rparr>) }
        else do {
          (group, extData) \<leftarrow> ReadUint16 C extData;
          (share, extData) \<leftarrow> readUint16LengthPrefixed C extData;
          endExt extData (m\<lparr>sh_serverShare := \<lparr>ks_group = group, ks_data = share\<rparr>\<rparr>) }
      else if extension = extensionPreSharedKey then do {
        (identity, extData) \<leftarrow> ReadUint16 C extData;
        endExt extData (m\<lparr>sh_selectedIdentityPresent := True, sh_selectedIdentity := identity\<rparr>) }
      else if extension = extensionSupportedPoints then do {
        (points, extData) \<leftarrow> readUint8LengthPrefixed C extData;
        require (length points \<noteq> 0);
        endExt extData (m\<lparr>sh_supportedPoints := points\<rparr>) }
      else if extension = extensionEncryptedClientHello then do {
        (ech, extData) \<leftarrow> CopyBytes C (length extData) extData;
        endExt extData (m\<lparr>sh_encryptedClientHello := Some ech\<rparr>) }
      else if extension = extensionServerName then do {
        require (length extData = 0);
        endExt extData (m\<lparr>sh_serverNameAck := True\<rparr>) }
      else Some m)"

definition serverHelloMsg_unmarshal :: "('b, 'x) cryptobyte_scheme \<Rightarrow> bytes \<Rightarrow> serverHelloMsg option" where
  "serverHelloMsg_unmarshal C data = do {
     s \<leftarrow> Skip C 4 data;
     (vers, s) \<leftarrow> ReadUint16 C s;
     (random, s) \<leftarrow> ReadBytes C 32 s;
     (sessionId, s) \<leftarrow> readUint8LengthPrefixed C s;
     (cipherSuite, s) \<leftarrow> ReadUint16 C s;
     (compressionMethod, s) \<leftarrow> ReadUint8 C s;
     let m = serverHelloMsg_zero\<lparr>sh_original := Some data, sh_vers := vers, sh_random := random,
       sh_sessionId := sessionId, sh_cipherSuite := cipherSuite, sh_compressionMethod := compressionMethod\<rparr>;
     if s = [] then Some m
     else do {
       (extensions, s) \<leftarrow> ReadUint16LengthPrefixed C s;
       require (s = []);
       (m, _) \<leftarrow> readUniqueExts C (serverHelloMsg_switch C) extensions (m, {});
       Some m }
   }"

definition serverHelloMsg_originalBytes :: "serverHelloMsg \<Rightarrow> bytes option" where
  "serverHelloMsg_originalBytes m = sh_original m"

text \<open>
  The messages whose fields are all expressed on the wire: no field is set whose extension is
  not sent, and at most one of the two key\_share forms is present.
\<close>

definition serverHelloMsg_wf :: "serverHelloMsg \<Rightarrow> bool" where
  "serverHelloMsg_wf m \<longleftrightarrow>
     (\<not> sh_secureRenegotiationSupported m \<longrightarrow> sh_secureRenegotiation m = []) \<and>
     [] \<notin> set (sh_scts m) \<and>
     (ks_group (sh_serverShare m) = 0 \<longrightarrow> sh_serverShare m = \<lparr>ks_group = 0, ks_data = []\<rparr>) \<and>
     (\<not> sh_selectedIdentityPresent m \<longrightarrow> sh_selectedIdentity m = 0) \<and> sh_encryptedClientHello m \<noteq> Some [] \<and>
     (ks_group (sh_serverShare m) = 0 \<or> sh_selectedGroup m = 0)"

section \<open>Round trip\<close>

text \<open>The extension block as a list of optional extensions with what each one sets.\<close>

definition serverHelloMsg_optexts :: "serverHelloMsg \<Rightarrow> serverHelloMsg optext list" where
  "serverHelloMsg_optexts m = [
     (sh_ocspStapling m, extensionStatusRequest, Some [],
        sh_ocspStapling_update (\<lambda>_. sh_ocspStapling m)),
     (sh_ticketSupported m, extensionSessionTicket, Some [],
        sh_ticketSupported_update (\<lambda>_. sh_ticketSupported m)),
     (sh_secureRenegotiationSupported m, extensionRenegotiationInfo,
        wprefix 1 (Some (sh_secureRenegotiation m)),
        \<lambda>m'. m'\<lparr>sh_secureRenegotiation := sh_secureRenegotiation m,
          sh_secureRenegotiationSupported := sh_secureRenegotiationSupported m\<rparr>),
     (sh_extendedMasterSecret m, extensionExtendedMasterSecret, Some [],
        sh_extendedMasterSecret_update (\<lambda>_. sh_extendedMasterSecret m)),
     (sh_alpnProtocol m \<noteq> [], extensionALPN, wprefix 2 (wprefix 1 (Some (sh_alpnProtocol m))),
        sh_alpnProtocol_update (\<lambda>_. sh_alpnProtocol m)),
     (sh_scts m \<noteq> [], extensionSCT, wprefix 2 (wcat (map (\<lambda>sct. wprefix 2 (Some sct)) (sh_scts m))),
        sh_scts_update (\<lambda>_. sh_scts m)),
     (sh_supportedVersion m \<noteq> 0, extensionSupportedVersions, Some (u16b (sh_supportedVersion m)),
        sh_supportedVersion_update (\<lambda>_. sh_supportedVersion m)),
     (ks_group (sh_serverShare m) \<noteq> 0, extensionKeyShare,
        wcat [Some (u16b (ks_group (sh_serverShare m))), wprefix 2 (Some (ks_data (sh_serverShare m)))],
        sh_serverShare_update (\<lambda>_. sh_serverShare m)),
     (sh_selectedIdentityPresent m, extensionPreSharedKey, Some (u16b (sh_selectedIdentity m)),
        \<lambda>m'. m'\<lparr>sh_selectedIdentityPresent := sh_selectedIdentityPresent m,
          sh_selectedIdentity := sh_selectedIdentity m\<rparr>),
     (sh_cookie m \<noteq> [], extensionCookie, wprefix 2 (Some (sh_cookie m)),
        sh_cookie_update (\<lambda>_. sh_cookie m)),
     (sh_selectedGroup m \<noteq> 0, extensionKeyShare, Some (u16b (sh_selectedGroup m)),
        sh_selectedGroup_update (\<lambda>_. sh_selectedGroup m)),
     (sh_supportedPoints m \<noteq> [], extensionSupportedPoints, wprefix 1 (Some (sh_supportedPoints m)),
        sh_supportedPoints_update (\<lambda>_. sh_supportedPoints m)),
     (bytesOf (sh_encryptedClientHello m) \<noteq> [], extensionEncryptedClientHello, Some (bytesOf (sh_encryptedClientHello m)),
        sh_encryptedClientHello_update (\<lambda>_. sh_encryptedClientHello m)),
     (sh_serverNameAck m, extensionServerName, Some [],
        sh_serverNameAck_update (\<lambda>_. sh_serverNameAck m))]"

context cryptobyte_pkg
begin

lemma serverHelloMsg_exts_wexts:
  "serverHelloMsg_exts C m = Inr X \<longleftrightarrow> wexts (serverHelloMsg_optexts m) = Some X"
  by (simp add: serverHelloMsg_exts_def wire_Some [symmetric] wexts_def serverHelloMsg_optexts_def)

lemma serverHelloMsg_reads_back:
  assumes "serverHelloMsg_wf m"
  shows "reads_back (serverHelloMsg_switch C) (serverHelloMsg_optexts m)
    (serverHelloMsg_zero\<lparr>sh_original := Some bs, sh_vers := sh_vers m, sh_random := sh_random m,
       sh_sessionId := sh_sessionId m, sh_cipherSuite := sh_cipherSuite m,
       sh_compressionMethod := sh_compressionMethod m\<rparr>)
    (m\<lparr>sh_original := Some bs\<rparr>)"
  unfolding serverHelloMsg_optexts_def reads_back.simps
  by (intro conjI impI allI; use assms in \<open>auto simp: serverHelloMsg_switch_def serverHelloMsg_zero_def
      serverHelloMsg_wf_def wire_iffs wext_Some extb_def readU16Strings_back bytesOf_def split: option.splits\<close>)

lemma serverHelloMsg_unmarshal_marshal:
  assumes "serverHelloMsg_marshal C m = Inr bs" and "serverHelloMsg_wf m"
  shows "serverHelloMsg_unmarshal C bs = Some (m\<lparr>sh_original := Some bs\<rparr>)"
proof -
  from assms(1) obtain X e where X: "wexts (serverHelloMsg_optexts m) = Some X"
    and bs: "bs = typeServerHello # lp24 (u16b (sh_vers m) @ sh_random m @ lp8 (sh_sessionId m)
        @ u16b (sh_cipherSuite m) @ sh_compressionMethod m # e)"
    and e: "e = (if X = [] then [] else lp16 X)"
    and len: "length X < 65536 \<or> X = []" "length (sh_sessionId m) < 256" "length (sh_random m) = 32"
    by (auto simp: serverHelloMsg_marshal_def serverHelloMsg_exts_wexts wire_Some [symmetric] wire_iffs
        wopt_def split: sum.splits if_splits)
  obtain S where S: "readUniqueExts C (serverHelloMsg_switch C) X
      (serverHelloMsg_zero\<lparr>sh_original := Some bs, sh_vers := sh_vers m, sh_random := sh_random m,
       sh_sessionId := sh_sessionId m, sh_cipherSuite := sh_cipherSuite m,
       sh_compressionMethod := sh_compressionMethod m\<rparr>, {}) = Some (m\<lparr>sh_original := Some bs\<rparr>, S)"
    using readUniqueExts_reads_back [OF X serverHelloMsg_reads_back [OF assms(2)]]
    by (auto simp: list_all_iff split_beta)
  with len show ?thesis by (auto simp: serverHelloMsg_unmarshal_def bs [symmetric]) (auto simp: bs e)
qed

end

section \<open>Properties\<close>

definition serverHelloMsg_sample :: serverHelloMsg where
  "serverHelloMsg_sample = serverHelloMsg_zero\<lparr>sh_vers := VersionTLS12, sh_random := replicate 32 7,
     sh_supportedVersion := VersionTLS13, sh_serverShare := \<lparr>ks_group = 29, ks_data = [1, 2, 3]\<rparr>\<rparr>"

lemma serverHelloMsg_sample_wf: "serverHelloMsg_wf serverHelloMsg_sample"
  by (simp add: serverHelloMsg_wf_def serverHelloMsg_sample_def serverHelloMsg_zero_def)

lemma serverHelloMsg_sample_exts:
  "serverHelloMsg_exts cb_ref serverHelloMsg_sample =
     Inr (extb extensionSupportedVersions (u16b VersionTLS13) @ extb extensionKeyShare (u16b 29 @ lp16 [1, 2, 3]))"
  unfolding cbr.serverHelloMsg_exts_wexts
  by (simp add: wexts_def serverHelloMsg_optexts_def serverHelloMsg_sample_def serverHelloMsg_zero_def wcat.simps
      wext_def wprefix_def extb_def lp16_def)

lemma serverHelloMsg_sample_marshal: "\<exists>bs. serverHelloMsg_marshal cb_ref serverHelloMsg_sample = Inr bs"
  by (simp add: serverHelloMsg_marshal_def serverHelloMsg_sample_exts wire_Some [symmetric])
    (simp add: wcat.simps wprefix_def serverHelloMsg_sample_def serverHelloMsg_zero_def extb_def)

text \<open>
  ServerHello round trip: a marshalled ServerHello or HelloRetryRequest is unmarshalled to the
  same message with the received bytes attached. In particular the two forms of key\_share (a
  share with its group, a bare group) are told apart.
\<close>

lemma serverHello_roundtrip:
  assumes "cryptobyte_pkg C" and "serverHelloMsg_wf m" and "serverHelloMsg_marshal C m = Inr bs"
  shows "serverHelloMsg_unmarshal C bs = Some (m\<lparr>sh_original := Some bs\<rparr>)"
  by (rule cryptobyte_pkg.serverHelloMsg_unmarshal_marshal [OF assms(1,3,2)])

end
