(* ===== verification/ClientHello.thy ===== *)
theory ClientHello
  imports Wire
begin

text \<open>
  The ClientHello message (\<open>clientHelloMsg\<close> of handshake\_messages.go): the encoder with its
  Encrypted ClientHello inner form, the binder helpers, the decoder and the copy. Go strings
  are byte strings here, \<open>original\<close> and \<open>quicTransportParameters\<close>, whose nil-ness the code
  tests, are options. The lemmas show the round trip, what an accepted message satisfies
  (distinct extensions, pre\_shared\_key last, non-empty items), that the string hashed for
  the binders does not depend on the binders, and what the inner form leaves out.
\<close>

record clientHelloMsg =
  ch_original :: "bytes option"
  ch_vers :: u16
  ch_random :: bytes
  ch_sessionId :: bytes
  ch_cipherSuites :: "u16 list"
  ch_compressionMethods :: bytes
  ch_serverName :: bytes
  ch_ocspStapling :: bool
  ch_supportedCurves :: "u16 list"
  ch_supportedPoints :: bytes
  ch_ticketSupported :: bool
  ch_sessionTicket :: bytes
  ch_supportedSignatureAlgorithms :: "u16 list"
  ch_supportedSignatureAlgorithmsCert :: "u16 list"
  ch_secureRenegotiationSupported :: bool
  ch_secureRenegotiation :: bytes
  ch_extendedMasterSecret :: bool
  ch_alpnProtocols :: "bytes list"
  ch_scts :: bool
  ch_supportedVersions :: "u16 list"
  ch_cookie :: bytes
  ch_keyShares :: "keyShare list"
  ch_earlyData :: bool
  ch_pskModes :: bytes
  ch_pskIdentities :: "pskIdentity list"
  ch_pskBinders :: "bytes list"
  ch_quicTransportParameters :: "bytes option"
  ch_encryptedClientHello :: bytes
  ch_extensions :: "u16 list"

definition clientHelloMsg_zero :: clientHelloMsg where
  "clientHelloMsg_zero = \<lparr>ch_original = None, ch_vers = 0, ch_random = [], ch_sessionId = [],
     ch_cipherSuites = [], ch_compressionMethods = [], ch_serverName = [], ch_ocspStapling = False,
     ch_supportedCurves = [], ch_supportedPoints = [], ch_ticketSupported = False, ch_sessionTicket = [],
     ch_supportedSignatureAlgorithms = [], ch_supportedSignatureAlgorithmsCert = [],
     ch_secureRenegotiationSupported = False, ch_secureRenegotiation = [],
     ch_extendedMasterSecret = False, ch_alpnProtocols = [], ch_scts = False,
     ch_supportedVersions = [], ch_cookie = [], ch_keyShares = [], ch_earlyData = False,
     ch_pskModes = [], ch_pskIdentities = [], ch_pskBinders = [], ch_quicTransportParameters = None,
     ch_encryptedClientHello = [], ch_extensions = []\<rparr>"

abbreviation innerECHExt :: u8 where "innerECHExt \<equiv> 1"

section \<open>Marshalling\<close>

text \<open>
  The builder statements of \<open>marshalMsg\<close> in their order: the extensions that are never
  compressed, the contiguous block that is compressed in the inner form (sent itself, or
  named in \<open>echOuterExts\<close>), and pre\_shared\_key.
\<close>

definition clientHelloMsg_plainExts :: "('b, 'x) cryptobyte_scheme \<Rightarrow> bool \<Rightarrow> clientHelloMsg \<Rightarrow> ('b \<Rightarrow> 'b) list" where
  "clientHelloMsg_plainExts C echInner m = [
     cond (length (ch_serverName m) > 0) [
       AddUint16 C extensionServerName,
       AddUint16LengthPrefixed C (
         AddUint16LengthPrefixed C (block [
           AddUint8 C 0,
           AddUint16LengthPrefixed C (AddBytes C (ch_serverName m))]))],
     cond (length (ch_supportedPoints m) > 0 \<and> \<not> echInner) [
       AddUint16 C extensionSupportedPoints,
       AddUint16LengthPrefixed C (AddUint8LengthPrefixed C (AddBytes C (ch_supportedPoints m)))],
     cond (ch_ticketSupported m \<and> \<not> echInner) [
       AddUint16 C extensionSessionTicket,
       AddUint16LengthPrefixed C (AddBytes C (ch_sessionTicket m))],
     cond (ch_secureRenegotiationSupported m \<and> \<not> echInner) [
       AddUint16 C extensionRenegotiationInfo,
       AddUint16LengthPrefixed C (AddUint8LengthPrefixed C (AddBytes C (ch_secureRenegotiation m)))],
     cond (ch_extendedMasterSecret m \<and> \<not> echInner) [
       AddUint16 C extensionExtendedMasterSecret,
       AddUint16 C 0],
     cond (ch_scts m) [
       AddUint16 C extensionSCT,
       AddUint16 C 0],
     cond (ch_earlyData m) [
       AddUint16 C extensionEarlyData,
       AddUint16 C 0],
     cond (ch_quicTransportParameters m \<noteq> None) [
       AddUint16 C extensionQUICTransportParameters,
       AddUint16LengthPrefixed C (AddBytes C (the (ch_quicTransportParameters m)))],
     cond (length (ch_encryptedClientHello m) > 0) [
       AddUint16 C extensionEncryptedClientHello,
       AddUint16LengthPrefixed C (AddBytes C (ch_encryptedClientHello m))]]"

definition clientHelloMsg_echOuterExts :: "bool \<Rightarrow> clientHelloMsg \<Rightarrow> u16 list" where
  "clientHelloMsg_echOuterExts echInner m =
     (if \<not> echInner then [] else
        (if ch_ocspStapling m then [extensionStatusRequest] else []) @
        (if length (ch_supportedCurves m) > 0 then [extensionSupportedCurves] else []) @
        (if length (ch_supportedSignatureAlgorithms m) > 0 then [extensionSignatureAlgorithms] else []) @
        (if length (ch_supportedSignatureAlgorithmsCert m) > 0 then [extensionSignatureAlgorithmsCert] else []) @
        (if length (ch_alpnProtocols m) > 0 then [extensionALPN] else []) @
        (if length (ch_supportedVersions m) > 0 then [extensionSupportedVersions] else []) @
        (if length (ch_cookie m) > 0 then [extensionCookie] else []) @
        (if length (ch_keyShares m) > 0 then [extensionKeyShare] else []) @
        (if length (ch_pskModes m) > 0 then [extensionPSKModes] else []))"

definition clientHelloMsg_compressibleExts :: "('b, 'x) cryptobyte_scheme \<Rightarrow> bool \<Rightarrow> clientHelloMsg \<Rightarrow> ('b \<Rightarrow> 'b) list" where
  "clientHelloMsg_compressibleExts C echInner m = [
     cond (ch_ocspStapling m \<and> \<not> echInner) [
       AddUint16 C extensionStatusRequest,
       AddUint16LengthPrefixed C (block [AddUint8 C 1, AddUint16 C 0, AddUint16 C 0])],
     cond (length (ch_supportedCurves m) > 0 \<and> \<not> echInner) [
       AddUint16 C extensionSupportedCurves,
       AddUint16LengthPrefixed C (
         AddUint16LengthPrefixed C (foreach (ch_supportedCurves m) (\<lambda>curve. [AddUint16 C curve])))],
     cond (length (ch_supportedSignatureAlgorithms m) > 0 \<and> \<not> echInner) [
       AddUint16 C extensionSignatureAlgorithms,
       AddUint16LengthPrefixed C (
         AddUint16LengthPrefixed C (
           foreach (ch_supportedSignatureAlgorithms m) (\<lambda>sigAlgo. [AddUint16 C sigAlgo])))],
     cond (length (ch_supportedSignatureAlgorithmsCert m) > 0 \<and> \<not> echInner) [
       AddUint16 C extensionSignatureAlgorithmsCert,
       AddUint16LengthPrefixed C (
         AddUint16LengthPrefixed C (
           foreach (ch_supportedSignatureAlgorithmsCert m) (\<lambda>sigAlgo. [AddUint16 C sigAlgo])))],
     cond (length (ch_alpnProtocols m) > 0 \<and> \<not> echInner) [
       AddUint16 C extensionALPN,
       AddUint16LengthPrefixed C (
         AddUint16LengthPrefixed C (
           foreach (ch_alpnProtocols m) (\<lambda>proto. [AddUint8LengthPrefixed C (AddBytes C proto)])))],
     cond (length (ch_supportedVersions m) > 0 \<and> \<not> echInner) [
       AddUint16 C extensionSupportedVersions,
       AddUint16LengthPrefixed C (
         AddUint8LengthPrefixed C (foreach (ch_supportedVersions m) (\<lambda>vers. [AddUint16 C vers])))],
     cond (length (ch_cookie m) > 0 \<and> \<not> echInner) [
       AddUint16 C extensionCookie,
       AddUint16LengthPrefixed C (AddUint16LengthPrefixed C (AddBytes C (ch_cookie m)))],
     cond (length (ch_keyShares m) > 0 \<and> \<not> echInner) [
       AddUint16 C extensionKeyShare,
       AddUint16LengthPrefixed C (
         AddUint16LengthPrefixed C (
           foreach (ch_keyShares m) (\<lambda>ks. [
             AddUint16 C (ks_group ks),
             AddUint16LengthPrefixed C (AddBytes C (ks_data ks))])))],
     cond (length (ch_pskModes m) > 0 \<and> \<not> echInner) [
       AddUint16 C extensionPSKModes,
       AddUint16LengthPrefixed C (AddUint8LengthPrefixed C (AddBytes C (ch_pskModes m)))],
     cond (length (clientHelloMsg_echOuterExts echInner m) > 0 \<and> echInner) [
       AddUint16 C extensionECHOuterExtensions,
       AddUint16LengthPrefixed C (
         AddUint8LengthPrefixed C (
           foreach (clientHelloMsg_echOuterExts echInner m) (\<lambda>e. [AddUint16 C e])))]]"

definition clientHelloMsg_sendsPSK :: "bool \<Rightarrow> clientHelloMsg \<Rightarrow> bool" where
  "clientHelloMsg_sendsPSK echInner m \<longleftrightarrow>
     length (ch_pskIdentities m) > 0 \<and>
     (echInner \<or> length (ch_encryptedClientHello m) = 0 \<or> ch_encryptedClientHello m = [innerECHExt])"

definition clientHelloMsg_pskExt :: "('b, 'x) cryptobyte_scheme \<Rightarrow> bool \<Rightarrow> clientHelloMsg \<Rightarrow> ('b \<Rightarrow> 'b) list" where
  "clientHelloMsg_pskExt C echInner m = [
     cond (clientHelloMsg_sendsPSK echInner m) [
       AddUint16 C extensionPreSharedKey,
       AddUint16LengthPrefixed C (block [
         AddUint16LengthPrefixed C (
           foreach (ch_pskIdentities m) (\<lambda>psk. [
             AddUint16LengthPrefixed C (AddBytes C (psk_label psk)),
             AddUint32 C (psk_obfuscatedTicketAge psk)])),
         AddUint16LengthPrefixed C (
           foreach (ch_pskBinders m) (\<lambda>binder. [AddUint8LengthPrefixed C (AddBytes C binder)]))])]]"

definition clientHelloMsg_marshalMsg ::
    "('b, 'x) cryptobyte_scheme \<Rightarrow> bool \<Rightarrow> clientHelloMsg \<Rightarrow> bytes res" where
  "clientHelloMsg_marshalMsg C echInner m =
     (case Bytes C (block (clientHelloMsg_plainExts C echInner m @ clientHelloMsg_compressibleExts C echInner m @
              clientHelloMsg_pskExt C echInner m) (NewBuilder C)) of
        Inl e \<Rightarrow> Inl e
      | Inr extBytes \<Rightarrow> Bytes C (block [
          AddUint8 C typeClientHello,
          AddUint24LengthPrefixed C (block [
            AddUint16 C (ch_vers m),
            addBytesWithLength C (ch_random m) 32,
            AddUint8LengthPrefixed C (cond (\<not> echInner) [AddBytes C (ch_sessionId m)]),
            AddUint16LengthPrefixed C (foreach (ch_cipherSuites m) (\<lambda>suite. [AddUint16 C suite])),
            AddUint8LengthPrefixed C (AddBytes C (ch_compressionMethods m)),
            cond (length extBytes > 0) [
              AddUint16LengthPrefixed C (AddBytes C extBytes)]])] (NewBuilder C)))"

definition clientHelloMsg_marshal :: "('b, 'x) cryptobyte_scheme \<Rightarrow> clientHelloMsg \<Rightarrow> bytes res" where
  "clientHelloMsg_marshal C m = clientHelloMsg_marshalMsg C False m"

text \<open>
  \<open>fullMessage[:len(fullMessage)-bindersLen]\<close>: \<open>None\<close> is the run-time panic of the slice
  expression when the message is shorter than its binders.
\<close>

definition clientHelloMsg_bindersLen :: "bytes list \<Rightarrow> nat" where
  "clientHelloMsg_bindersLen pskBinders = fold (\<lambda>binder n. n + 1 + length binder) pskBinders 2"

definition clientHelloMsg_marshalWithoutBinders ::
    "('b, 'x) cryptobyte_scheme \<Rightarrow> clientHelloMsg \<Rightarrow> bytes res option" where
  "clientHelloMsg_marshalWithoutBinders C m =
     (let bindersLen = clientHelloMsg_bindersLen (ch_pskBinders m) in
      case (case ch_original m of Some orig \<Rightarrow> Inr orig | None \<Rightarrow> clientHelloMsg_marshal C m) of
        Inl e \<Rightarrow> Some (Inl e)
      | Inr fullMessage \<Rightarrow>
          if length fullMessage < bindersLen then None
          else Some (Inr (take (length fullMessage - bindersLen) fullMessage)))"

definition clientHelloMsg_updateBinders :: "clientHelloMsg \<Rightarrow> bytes list \<Rightarrow> clientHelloMsg res" where
  "clientHelloMsg_updateBinders m pskBinders =
     (if length pskBinders \<noteq> length (ch_pskBinders m)
      then Inl (ErrorsNew ''tls: internal error: pskBinders length mismatch'')
      else if list_ex (\<lambda>i. length (pskBinders ! i) \<noteq> length (ch_pskBinders m ! i)) [0..<length (ch_pskBinders m)]
      then Inl (ErrorsNew ''tls: internal error: pskBinders length mismatch'')
      else Inr (m\<lparr>ch_pskBinders := pskBinders\<rparr>))"

section \<open>Unmarshalling\<close>

text \<open>The loop over the cipher suites, which notes the renegotiation signalling value.\<close>

definition clientHelloMsg_suitesBody ::
    "('b, 'x) cryptobyte_scheme \<Rightarrow> bytes \<Rightarrow> clientHelloMsg \<Rightarrow> (bytes \<times> clientHelloMsg) option" where
  "clientHelloMsg_suitesBody C cipherSuites m = do {
     (suite, cipherSuites) \<leftarrow> ReadUint16 C cipherSuites;
     let m = (if suite = scsvRenegotiation then m\<lparr>ch_secureRenegotiationSupported := True\<rparr> else m);
     Some (cipherSuites, m\<lparr>ch_cipherSuites := ch_cipherSuites m @ [suite]\<rparr>)
   }"

text \<open>The server\_name list: one host name, not empty and without a trailing dot.\<close>

definition clientHelloMsg_nameBody ::
    "('b, 'x) cryptobyte_scheme \<Rightarrow> bytes \<Rightarrow> clientHelloMsg \<Rightarrow> (bytes \<times> clientHelloMsg) option" where
  "clientHelloMsg_nameBody C nameList m = do {
     (nameType, nameList) \<leftarrow> ReadUint8 C nameList;
     (serverName, nameList) \<leftarrow> ReadUint16LengthPrefixed C nameList;
     require (serverName \<noteq> []);
     if nameType \<noteq> 0 then Some (nameList, m)
     else do {
       require (length (ch_serverName m) = 0);
       require (\<not> (serverName \<noteq> [] \<and> last serverName = 46));
       Some (nameList, m\<lparr>ch_serverName := serverName\<rparr>) }
   }"

definition clientHelloMsg_shareBody ::
    "('b, 'x) cryptobyte_scheme \<Rightarrow> bytes \<Rightarrow> keyShare list \<Rightarrow> (bytes \<times> keyShare list) option" where
  "clientHelloMsg_shareBody C clientShares acc = do {
     (group, clientShares) \<leftarrow> ReadUint16 C clientShares;
     (data, clientShares) \<leftarrow> readUint16LengthPrefixed C clientShares;
     require (length data \<noteq> 0);
     Some (clientShares, acc @ [\<lparr>ks_group = group, ks_data = data\<rparr>])
   }"

definition clientHelloMsg_identityBody ::
    "('b, 'x) cryptobyte_scheme \<Rightarrow> bytes \<Rightarrow> pskIdentity list \<Rightarrow> (bytes \<times> pskIdentity list) option" where
  "clientHelloMsg_identityBody C identities acc = do {
     (label, identities) \<leftarrow> readUint16LengthPrefixed C identities;
     (age, identities) \<leftarrow> ReadUint32 C identities;
     require (length label \<noteq> 0);
     Some (identities, acc @ [\<lparr>psk_label = label, psk_obfuscatedTicketAge = age\<rparr>])
   }"

text \<open>The pre\_shared\_key case of the switch, which must find no extension behind it.\<close>

definition clientHelloMsg_pskCase ::
    "('b, 'x) cryptobyte_scheme \<Rightarrow> bytes \<Rightarrow> bytes \<Rightarrow> clientHelloMsg \<Rightarrow> clientHelloMsg option" where
  "clientHelloMsg_pskCase C extData extensions m = do {
     require (extensions = []);
     (identities, extData) \<leftarrow> ReadUint16LengthPrefixed C extData;
     require (identities \<noteq> []);
     pskIdentities \<leftarrow> read_while (clientHelloMsg_identityBody C) identities (ch_pskIdentities m);
     (binders, extData) \<leftarrow> ReadUint16LengthPrefixed C extData;
     require (binders \<noteq> []);
     pskBinders \<leftarrow> read_while (\<lambda>binders acc. do {
         (binder, binders) \<leftarrow> readUint8LengthPrefixed C binders;
         require (length binder \<noteq> 0);
         Some (binders, acc @ [binder]) }) binders (ch_pskBinders m);
     endExt extData (m\<lparr>ch_pskIdentities := pskIdentities, ch_pskBinders := pskBinders\<rparr>)
   }"

text \<open>The three list-valued cases that read 16-bit numbers behind a 16-bit length.\<close>

definition clientHelloMsg_u16List ::
    "('b, 'x) cryptobyte_scheme \<Rightarrow> bytes \<Rightarrow> u16 list \<Rightarrow> (u16 list \<Rightarrow> clientHelloMsg) \<Rightarrow> clientHelloMsg option" where
  "clientHelloMsg_u16List C extData acc setter = do {
     (l, extData) \<leftarrow> ReadUint16LengthPrefixed C extData;
     require (l \<noteq> []);
     vs \<leftarrow> readU16s C l acc;
     endExt extData (setter vs)
   }"

definition clientHelloMsg_switch ::
    "('b, 'x) cryptobyte_scheme \<Rightarrow> u16 \<Rightarrow> bytes \<Rightarrow> bytes \<Rightarrow> clientHelloMsg \<Rightarrow> clientHelloMsg option" where
  "clientHelloMsg_switch C extension extData extensions m =
     (if extension = extensionServerName then do {
        (nameList, extData) \<leftarrow> ReadUint16LengthPrefixed C extData;
        require (nameList \<noteq> []);
        m \<leftarrow> read_while (clientHelloMsg_nameBody C) nameList m;
        endExt extData m }
      else if extension = extensionStatusRequest then do {
        (statusType, extData) \<leftarrow> ReadUint8 C extData;
        (ignored, extData) \<leftarrow> ReadUint16LengthPrefixed C extData;
        (ignored, extData) \<leftarrow> ReadUint16LengthPrefixed C extData;
        endExt extData (m\<lparr>ch_ocspStapling := statusType = statusTypeOCSP\<rparr>) }
      else if extension = extensionSupportedCurves then
        clientHelloMsg_u16List C extData (ch_supportedCurves m) (\<lambda>vs. m\<lparr>ch_supportedCurves := vs\<rparr>)
      else if extension = extensionSupportedPoints then do {
        (points, extData) \<leftarrow> readUint8LengthPrefixed C extData;
        require (length points \<noteq> 0);
        endExt extData (m\<lparr>ch_supportedPoints := points\<rparr>) }
      else if extension = extensionSessionTicket then
        (case ReadBytes C (length extData) extData of
           Some (ticket, extData) \<Rightarrow> endExt extData (m\<lparr>ch_ticketSupported := True, ch_sessionTicket := ticket\<rparr>)
         | None \<Rightarrow> endExt extData (m\<lparr>ch_ticketSupported := True\<rparr>))
      else if extension = extensionSignatureAlgorithms then
        clientHelloMsg_u16List C extData (ch_supportedSignatureAlgorithms m)
          (\<lambda>vs. m\<lparr>ch_supportedSignatureAlgorithms := vs\<rparr>)
      else if extension = extensionSignatureAlgorithmsCert then
        clientHelloMsg_u16List C extData (ch_supportedSignatureAlgorithmsCert m)
          (\<lambda>vs. m\<lparr>ch_supportedSignatureAlgorithmsCert := vs\<rparr>)
      else if extension = extensionRenegotiationInfo then do {
        (info, extData) \<leftarrow> readUint8LengthPrefixed C extData;
        endExt extData (m\<lparr>ch_secureRenegotiation := info, ch_secureRenegotiationSupported := True\<rparr>) }
      else if extension = extensionExtendedMasterSecret then
        endExt extData (m\<lparr>ch_extendedMasterSecret := True\<rparr>)
      else if extension = extensionALPN then do {
        (protoList, extData) \<leftarrow> ReadUint16LengthPrefixed C extData;
        require (protoList \<noteq> []);
        protos \<leftarrow> readU8Strings C protoList (ch_alpnProtocols m);
        endExt extData (m\<lparr>ch_alpnProtocols := protos\<rparr>) }
      else if extension = extensionSCT then
        endExt extData (m\<lparr>ch_scts := True\<rparr>)
      else if extension = extensionSupportedVersions then do {
        (versList, extData) \<leftarrow> ReadUint8LengthPrefixed C extData;
        require (versList \<noteq> []);
        vs \<leftarrow> readU16s C versList (ch_supportedVersions m);
        endExt extData (m\<lparr>ch_supportedVersions := vs\<rparr>) }
      else if extension = extensionCookie then do {
        (cookie, extData) \<leftarrow> readUint16LengthPrefixed C extData;
        require (length cookie \<noteq> 0);
        endExt extData (m\<lparr>ch_cookie := cookie\<rparr>) }
      else if extension = extensionKeyShare then do {
        (clientShares, extData) \<leftarrow> ReadUint16LengthPrefixed C extData;
        shares \<leftarrow> read_while (clientHelloMsg_shareBody C) clientShares (ch_keyShares m);
        endExt extData (m\<lparr>ch_keyShares := shares\<rparr>) }
      else if extension = extensionEarlyData then
        endExt extData (m\<lparr>ch_earlyData := True\<rparr>)
      else if extension = extensionPSKModes then do {
        (modes, extData) \<leftarrow> readUint8LengthPrefixed C extData;
        endExt extData (m\<lparr>ch_pskModes := modes\<rparr>) }
      else if extension = extensionQUICTransportParameters then do {
        (params, extData) \<leftarrow> CopyBytes C (length extData) extData;
        endExt extData (m\<lparr>ch_quicTransportParameters := Some params\<rparr>) }
      else if extension = extensionPreSharedKey then
        clientHelloMsg_pskCase C extData extensions m
      else if extension = extensionEncryptedClientHello then do {
        (ech, extData) \<leftarrow> ReadBytes C (length extData) extData;
        endExt extData (m\<lparr>ch_encryptedClientHello := ech\<rparr>) }
      else Some m)"

text \<open>\<open>m.extensions = append(m.extensions, extension)\<close>, then the switch.\<close>

definition clientHelloMsg_ext ::
    "('b, 'x) cryptobyte_scheme \<Rightarrow> u16 \<Rightarrow> bytes \<Rightarrow> bytes \<Rightarrow> clientHelloMsg \<Rightarrow> clientHelloMsg option" where
  "clientHelloMsg_ext C extension extData extensions m =
     clientHelloMsg_switch C extension extData extensions
       (m\<lparr>ch_extensions := ch_extensions m @ [extension]\<rparr>)"

definition clientHelloMsg_unmarshal :: "('b, 'x) cryptobyte_scheme \<Rightarrow> bytes \<Rightarrow> clientHelloMsg option" where
  "clientHelloMsg_unmarshal C data = do {
     s \<leftarrow> Skip C 4 data;
     (vers, s) \<leftarrow> ReadUint16 C s;
     (random, s) \<leftarrow> ReadBytes C 32 s;
     (sessionId, s) \<leftarrow> readUint8LengthPrefixed C s;
     (cipherSuites, s) \<leftarrow> ReadUint16LengthPrefixed C s;
     m \<leftarrow> read_while (clientHelloMsg_suitesBody C) cipherSuites
       (clientHelloMsg_zero\<lparr>ch_original := Some data, ch_vers := vers, ch_random := random,
          ch_sessionId := sessionId\<rparr>);
     (compressionMethods, s) \<leftarrow> readUint8LengthPrefixed C s;
     let m = m\<lparr>ch_compressionMethods := compressionMethods\<rparr>;
     if s = [] then Some m
     else do {
       (extensions, s) \<leftarrow> ReadUint16LengthPrefixed C s;
       require (s = []);
       (m, _) \<leftarrow> readUniqueExts C (clientHelloMsg_ext C) extensions (m, {});
       Some m }
   }"

definition clientHelloMsg_originalBytes :: "clientHelloMsg \<Rightarrow> bytes option" where
  "clientHelloMsg_originalBytes m = ch_original m"

text \<open>The deep copy, which lists every field but \<open>extensions\<close>.\<close>

definition clientHelloMsg_clone :: "clientHelloMsg \<Rightarrow> clientHelloMsg" where
  "clientHelloMsg_clone m = \<lparr>ch_original = ch_original m, ch_vers = ch_vers m, ch_random = ch_random m,
     ch_sessionId = ch_sessionId m, ch_cipherSuites = ch_cipherSuites m,
     ch_compressionMethods = ch_compressionMethods m, ch_serverName = ch_serverName m,
     ch_ocspStapling = ch_ocspStapling m, ch_supportedCurves = ch_supportedCurves m,
     ch_supportedPoints = ch_supportedPoints m, ch_ticketSupported = ch_ticketSupported m,
     ch_sessionTicket = ch_sessionTicket m,
     ch_supportedSignatureAlgorithms = ch_supportedSignatureAlgorithms m,
     ch_supportedSignatureAlgorithmsCert = ch_supportedSignatureAlgorithmsCert m,
     ch_secureRenegotiationSupported = ch_secureRenegotiationSupported m,
     ch_secureRenegotiation = ch_secureRenegotiation m,
     ch_extendedMasterSecret = ch_extendedMasterSecret m, ch_alpnProtocols = ch_alpnProtocols m,
     ch_scts = ch_scts m, ch_supportedVersions = ch_supportedVersions m, ch_cookie = ch_cookie m,
     ch_keyShares = ch_keyShares m, ch_earlyData = ch_earlyData m, ch_pskModes = ch_pskModes m,
     ch_pskIdentities = ch_pskIdentities m, ch_pskBinders = ch_pskBinders m,
     ch_quicTransportParameters = ch_quicTransportParameters m,
     ch_encryptedClientHello = ch_encryptedClientHello m, ch_extensions = []\<rparr>"

section \<open>Round trip\<close>

text \<open>
  The messages that unmarshalling can reproduce: items that are not empty, a host name without
  a trailing dot, no field set whose extension is not sent, and no pre-shared keys beside an
  outer encrypted\_client\_hello (\<open>marshalMsg\<close> leaves pre\_shared\_key out there).
\<close>

definition clientHelloMsg_wf :: "clientHelloMsg \<Rightarrow> bool" where
  "clientHelloMsg_wf m \<longleftrightarrow>
     (scsvRenegotiation \<in> set (ch_cipherSuites m) \<longrightarrow> ch_secureRenegotiationSupported m) \<and>
     (ch_serverName m \<noteq> [] \<longrightarrow> last (ch_serverName m) \<noteq> 46) \<and>
     (\<not> ch_ticketSupported m \<longrightarrow> ch_sessionTicket m = []) \<and>
     (\<not> ch_secureRenegotiationSupported m \<longrightarrow> ch_secureRenegotiation m = []) \<and>
     [] \<notin> set (ch_alpnProtocols m) \<and>
     [] \<notin> set (map ks_data (ch_keyShares m)) \<and>
     [] \<notin> set (map psk_label (ch_pskIdentities m)) \<and>
     [] \<notin> set (ch_pskBinders m) \<and>
     (ch_pskIdentities m = [] \<longleftrightarrow> ch_pskBinders m = []) \<and>
     (ch_pskIdentities m \<noteq> [] \<longrightarrow> ch_encryptedClientHello m \<in> {[], [innerECHExt]})"

definition sent :: "bool \<Rightarrow> u16 \<Rightarrow> u16 list" where
  "sent c t = (if c then [t] else [])"

lemma sent_simps [simp]: "sent True t = [t]" "sent False t = []"
  by (simp_all add: sent_def)

definition withExt :: "bool \<Rightarrow> u16 \<Rightarrow> bytes option \<Rightarrow> (clientHelloMsg \<Rightarrow> clientHelloMsg) \<Rightarrow> clientHelloMsg optext" where
  "withExt c t r f = (c, t, r, \<lambda>m. f (ch_extensions_update (\<lambda>es. es @ sent c t) m))"

definition clientHelloMsg_optexts :: "clientHelloMsg \<Rightarrow> clientHelloMsg optext list" where
  "clientHelloMsg_optexts m = [
     withExt (ch_serverName m \<noteq> []) extensionServerName
       (wprefix 2 (wcat [Some [0], wprefix 2 (Some (ch_serverName m))]))
       (ch_serverName_update (\<lambda>_. ch_serverName m)),
     withExt (ch_supportedPoints m \<noteq> []) extensionSupportedPoints
       (wprefix 1 (Some (ch_supportedPoints m))) (ch_supportedPoints_update (\<lambda>_. ch_supportedPoints m)),
     withExt (ch_ticketSupported m) extensionSessionTicket (Some (ch_sessionTicket m))
       (\<lambda>m'. m'\<lparr>ch_ticketSupported := ch_ticketSupported m, ch_sessionTicket := ch_sessionTicket m\<rparr>),
     withExt (ch_secureRenegotiationSupported m) extensionRenegotiationInfo
       (wprefix 1 (Some (ch_secureRenegotiation m)))
       (\<lambda>m'. m'\<lparr>ch_secureRenegotiation := ch_secureRenegotiation m,
         ch_secureRenegotiationSupported := ch_secureRenegotiationSupported m\<rparr>),
     withExt (ch_extendedMasterSecret m) extensionExtendedMasterSecret (Some [])
       (ch_extendedMasterSecret_update (\<lambda>_. ch_extendedMasterSecret m)),
     withExt (ch_scts m) extensionSCT (Some []) (ch_scts_update (\<lambda>_. ch_scts m)),
     withExt (ch_earlyData m) extensionEarlyData (Some []) (ch_earlyData_update (\<lambda>_. ch_earlyData m)),
     withExt (ch_quicTransportParameters m \<noteq> None) extensionQUICTransportParameters
       (Some (the (ch_quicTransportParameters m)))
       (ch_quicTransportParameters_update (\<lambda>_. ch_quicTransportParameters m)),
     withExt (ch_encryptedClientHello m \<noteq> []) extensionEncryptedClientHello
       (Some (ch_encryptedClientHello m)) (ch_encryptedClientHello_update (\<lambda>_. ch_encryptedClientHello m)),
     withExt (ch_ocspStapling m) extensionStatusRequest (wcat [Some [1], Some (u16b 0), Some (u16b 0)])
       (ch_ocspStapling_update (\<lambda>_. ch_ocspStapling m)),
     withExt (ch_supportedCurves m \<noteq> []) extensionSupportedCurves
       (wprefix 2 (Some (concat (map u16b (ch_supportedCurves m)))))
       (ch_supportedCurves_update (\<lambda>_. ch_supportedCurves m)),
     withExt (ch_supportedSignatureAlgorithms m \<noteq> []) extensionSignatureAlgorithms
       (wprefix 2 (Some (concat (map u16b (ch_supportedSignatureAlgorithms m)))))
       (ch_supportedSignatureAlgorithms_update (\<lambda>_. ch_supportedSignatureAlgorithms m)),
     withExt (ch_supportedSignatureAlgorithmsCert m \<noteq> []) extensionSignatureAlgorithmsCert
       (wprefix 2 (Some (concat (map u16b (ch_supportedSignatureAlgorithmsCert m)))))
       (ch_supportedSignatureAlgorithmsCert_update (\<lambda>_. ch_supportedSignatureAlgorithmsCert m)),
     withExt (ch_alpnProtocols m \<noteq> []) extensionALPN
       (wprefix 2 (wcat (map (\<lambda>proto. wprefix (Suc 0) (Some proto)) (ch_alpnProtocols m))))
       (ch_alpnProtocols_update (\<lambda>_. ch_alpnProtocols m)),
     withExt (ch_supportedVersions m \<noteq> []) extensionSupportedVersions
       (wprefix 1 (Some (concat (map u16b (ch_supportedVersions m)))))
       (ch_supportedVersions_update (\<lambda>_. ch_supportedVersions m)),
     withExt (ch_cookie m \<noteq> []) extensionCookie (wprefix 2 (Some (ch_cookie m)))
       (ch_cookie_update (\<lambda>_. ch_cookie m)),
     withExt (ch_keyShares m \<noteq> []) extensionKeyShare
       (wprefix 2 (wcat (map (\<lambda>ks. wext (ks_group ks) (Some (ks_data ks))) (ch_keyShares m))))
       (ch_keyShares_update (\<lambda>_. ch_keyShares m)),
     withExt (ch_pskModes m \<noteq> []) extensionPSKModes (wprefix 1 (Some (ch_pskModes m)))
       (ch_pskModes_update (\<lambda>_. ch_pskModes m)),
     withExt False extensionECHOuterExtensions (Some []) (\<lambda>m'. m'),
     withExt (clientHelloMsg_sendsPSK False m) extensionPreSharedKey
       (wcat [wprefix 2 (wcat (map (\<lambda>psk. wcat [wprefix 2 (Some (psk_label psk)),
            Some (be 4 (unat (psk_obfuscatedTicketAge psk)))]) (ch_pskIdentities m))),
          wprefix 2 (wcat (map (\<lambda>binder. wprefix (Suc 0) (Some binder)) (ch_pskBinders m)))])
       (\<lambda>m'. m'\<lparr>ch_pskIdentities := ch_pskIdentities m, ch_pskBinders := ch_pskBinders m\<rparr>)]"

definition clientHelloMsg_sentExts :: "clientHelloMsg \<Rightarrow> u16 list" where
  "clientHelloMsg_sentExts m = concat (map (\<lambda>(c, t, _, _). sent c t) (clientHelloMsg_optexts m))"

definition clientHelloMsg_body :: "clientHelloMsg \<Rightarrow> bytes \<Rightarrow> bytes" where
  "clientHelloMsg_body m e = u16b (ch_vers m) @ ch_random m @ lp8 (ch_sessionId m) @
     lp16 (concat (map u16b (ch_cipherSuites m))) @ lp8 (ch_compressionMethods m) @ e"

context cryptobyte_pkg
begin

lemma clientHelloMsg_exts_wexts:
  "Bytes C (block (clientHelloMsg_plainExts C False m @ clientHelloMsg_compressibleExts C False m @
      clientHelloMsg_pskExt C False m) (NewBuilder C)) = Inr X \<longleftrightarrow>
   wexts (clientHelloMsg_optexts m) = Some X"
  by (simp add: wire_Some [symmetric] wexts_def clientHelloMsg_optexts_def withExt_def
      clientHelloMsg_plainExts_def clientHelloMsg_compressibleExts_def clientHelloMsg_pskExt_def
      clientHelloMsg_echOuterExts_def wcat_map_Some wcat_Some_Nil)

lemma consumes_bodies:
  "consumes (clientHelloMsg_suitesBody C)" "consumes (clientHelloMsg_nameBody C)"
  "consumes (clientHelloMsg_shareBody C)" "consumes (clientHelloMsg_identityBody C)"
  by (rule consumesI; auto simp: clientHelloMsg_suitesBody_def clientHelloMsg_nameBody_def
      clientHelloMsg_shareBody_def clientHelloMsg_identityBody_def all_read_iffs bind_eq_Some_conv Let_def
      split: if_splits)+

lemma clientHelloMsg_suites_back:
  "read_while (clientHelloMsg_suitesBody C) (concat (map u16b suites)) m =
     Some (m\<lparr>ch_cipherSuites := ch_cipherSuites m @ suites,
             ch_secureRenegotiationSupported :=
               ch_secureRenegotiationSupported m \<or> scsvRenegotiation \<in> set suites\<rparr>)"
proof (induction suites arbitrary: m)
  case Nil
  then show ?case by simp
next
  case (Cons v vs)
  have "clientHelloMsg_suitesBody C (u16b v @ concat (map u16b vs)) m =
      Some (concat (map u16b vs), m\<lparr>ch_cipherSuites := ch_cipherSuites m @ [v], ch_secureRenegotiationSupported :=
        ch_secureRenegotiationSupported m \<or> v = scsvRenegotiation\<rparr>)"
    by (simp add: clientHelloMsg_suitesBody_def Let_def)
  with Cons show ?case by (auto simp: read_while_step [OF consumes_bodies(1)])
qed

lemma clientHelloMsg_shares_back:
  assumes "wcat (map (\<lambda>ks. wext (ks_group ks) (Some (ks_data ks))) shares) = Some w"
    and "[] \<notin> set (map ks_data shares)"
  shows "read_while (clientHelloMsg_shareBody C) w acc = Some (acc @ shares)"
proof -
  from assms(1) have "w = concat (map (\<lambda>ks. extb (ks_group ks) (ks_data ks)) shares)"
    and "\<forall>ks\<in>set shares. length (ks_data ks) < 65536"
    by (induction shares arbitrary: w) (auto simp: wcat_Cons_Some wext_Some)
  then show ?thesis using assms(2)
    by (force intro!: read_while_append [OF consumes_bodies(3)] simp: clientHelloMsg_shareBody_def extb_def)
qed

lemma clientHelloMsg_identities_back:
  assumes "wcat (map (\<lambda>psk. wcat [wprefix 2 (Some (psk_label psk)),
      Some (be 4 (unat (psk_obfuscatedTicketAge psk)))]) ids) = Some w"
    and "[] \<notin> set (map psk_label ids)"
  shows "read_while (clientHelloMsg_identityBody C) w acc = Some (acc @ ids)"
proof -
  let ?enc = "\<lambda>psk. lp16 (psk_label psk) @ be 4 (unat (psk_obfuscatedTicketAge psk))"
  from assms(1) have w: "w = concat (map ?enc ids)"
    and "\<forall>psk\<in>set ids. length (psk_label psk) < 65536"
    by (induction ids arbitrary: w) (auto simp: wire_iffs)
  with assms(2) have "x \<in> set ids \<Longrightarrow> ?enc x \<noteq> [] \<and>
      clientHelloMsg_identityBody C (?enc x @ r) a = Some (r, a @ [x])" for x r a
    by (force simp: clientHelloMsg_identityBody_def)
  then show ?thesis unfolding w by (rule read_while_append [OF consumes_bodies(4)])
qed

lemma clientHelloMsg_name_back:
  assumes "n \<noteq> []" and "last n \<noteq> 46" and "length n < 65536" and "ch_serverName m = []"
  shows "read_while (clientHelloMsg_nameBody C) (0 # lp16 n) m = Some (m\<lparr>ch_serverName := n\<rparr>)"
  using assms by (simp add: read_while_step [OF consumes_bodies(2)] clientHelloMsg_nameBody_def)

lemma clientHelloMsg_binders_back:
  assumes "[] \<notin> set ws" and "\<forall>w\<in>set ws. length w < 256"
  shows "read_while (\<lambda>binders acc. do {
      (binder, binders) \<leftarrow> readUint8LengthPrefixed C binders;
      require (binder \<noteq> []);
      Some (binders, acc @ [binder]) }) (concat (map lp8 ws)) acc = Some (acc @ ws)"
  using readU8Strings_back [OF assms, of acc] by (simp add: readU8Strings_def readUint8LengthPrefixed_def)

lemma clientHelloMsg_identities_neq_Nil:
  "wcat (map (\<lambda>psk. wcat [wprefix 2 (Some (psk_label psk)),
      Some (be 4 (unat (psk_obfuscatedTicketAge psk)))]) ids) = Some w \<Longrightarrow> ids \<noteq> [] \<Longrightarrow> w \<noteq> []"
  by (cases ids) (auto simp: wire_iffs)

lemma clientHelloMsg_status_wire:
  "wcat [Some [1], Some (u16b 0), Some (u16b 0)] = Some (1 # lp16 [] @ lp16 [])"
  by (simp add: wcat.simps lp16_def u16b_0)

lemma clientHelloMsg_reads_back:
  assumes "clientHelloMsg_wf m"
  shows "reads_back (clientHelloMsg_ext C) (clientHelloMsg_optexts m)
    (clientHelloMsg_zero\<lparr>ch_original := Some bs, ch_vers := ch_vers m, ch_random := ch_random m,
       ch_sessionId := ch_sessionId m, ch_cipherSuites := ch_cipherSuites m,
       ch_secureRenegotiationSupported := scsvRenegotiation \<in> set (ch_cipherSuites m),
       ch_compressionMethods := ch_compressionMethods m\<rparr>)
    (m\<lparr>ch_original := Some bs, ch_extensions := clientHelloMsg_sentExts m\<rparr>)"
  unfolding clientHelloMsg_sentExts_def clientHelloMsg_optexts_def withExt_def reads_back.simps
    clientHelloMsg_status_wire
  by (intro conjI impI allI; use assms in \<open>clarsimp simp: clientHelloMsg_ext_def clientHelloMsg_switch_def
      clientHelloMsg_zero_def clientHelloMsg_wf_def clientHelloMsg_u16List_def clientHelloMsg_pskCase_def
      clientHelloMsg_name_back clientHelloMsg_shares_back clientHelloMsg_identities_back clientHelloMsg_identities_neq_Nil
      clientHelloMsg_binders_back clientHelloMsg_sendsPSK_def wire_iffs readU8Strings_back\<close>)
    (auto simp: sent_def)

lemma clientHelloMsg_marshal_iff:
  "clientHelloMsg_marshal C m = Inr bs \<longleftrightarrow>
     (\<exists>X e. wexts (clientHelloMsg_optexts m) = Some X \<and>
        wopt (X \<noteq> []) (wprefix 2 (Some X)) = Some e \<and>
        length (ch_random m) = 32 \<and> length (ch_sessionId m) < 256 \<and>
        length (concat (map u16b (ch_cipherSuites m))) < 65536 \<and> length (ch_compressionMethods m) < 256 \<and>
        length (clientHelloMsg_body m e) < 16777216 \<and> bs = typeClientHello # lp24 (clientHelloMsg_body m e))"
proof (cases "Bytes C (block (clientHelloMsg_plainExts C False m @ clientHelloMsg_compressibleExts C False m @
      clientHelloMsg_pskExt C False m) (NewBuilder C))")
  case (Inl err)
  moreover from Inl have "wexts (clientHelloMsg_optexts m) \<noteq> Some X" for X
    unfolding clientHelloMsg_exts_wexts [symmetric] by simp
  ultimately show ?thesis by (simp add: clientHelloMsg_marshal_def clientHelloMsg_marshalMsg_def)
next
  case (Inr X)
  then have "wexts (clientHelloMsg_optexts m) = Some X" unfolding clientHelloMsg_exts_wexts .
  then show ?thesis
    unfolding clientHelloMsg_marshal_def clientHelloMsg_marshalMsg_def Inr sum.case clientHelloMsg_body_def
    by (auto simp: wire_Some [symmetric] wire_iffs split: if_splits)
qed

lemma clientHelloMsg_unmarshal_marshal:
  assumes "clientHelloMsg_marshal C m = Inr bs" and "clientHelloMsg_wf m"
  shows "clientHelloMsg_unmarshal C bs =
    Some (m\<lparr>ch_original := Some bs, ch_extensions := clientHelloMsg_sentExts m\<rparr>)"
proof -
  let ?m0 = "clientHelloMsg_zero\<lparr>ch_original := Some bs, ch_vers := ch_vers m, ch_random := ch_random m,
       ch_sessionId := ch_sessionId m, ch_cipherSuites := ch_cipherSuites m,
       ch_secureRenegotiationSupported := scsvRenegotiation \<in> set (ch_cipherSuites m),
       ch_compressionMethods := ch_compressionMethods m\<rparr>"
  let ?mF = "m\<lparr>ch_original := Some bs, ch_extensions := clientHelloMsg_sentExts m\<rparr>"
  from assms(1) obtain X e where X: "wexts (clientHelloMsg_optexts m) = Some X"
    and e: "wopt (X \<noteq> []) (wprefix 2 (Some X)) = Some e"
    and len: "length (ch_random m) = 32" "length (ch_sessionId m) < 256"
      "length (concat (map u16b (ch_cipherSuites m))) < 65536" "length (ch_compressionMethods m) < 256"
    and bs: "bs = typeClientHello # lp24 (clientHelloMsg_body m e)"
    unfolding clientHelloMsg_marshal_iff by blast
  obtain S where S: "readUniqueExts C (clientHelloMsg_ext C) X (?m0, {}) = Some (?mF, S)"
    using readUniqueExts_reads_back [OF X clientHelloMsg_reads_back [OF assms(2)]]
    by (auto simp: list_all_iff split_beta)
  have u: "clientHelloMsg_unmarshal C bs = (if e = [] then Some ?m0 else do {
       (extensions, s) \<leftarrow> ReadUint16LengthPrefixed C e;
       require (s = []);
       (m, _) \<leftarrow> readUniqueExts C (clientHelloMsg_ext C) extensions (?m0, {});
       Some m })"
    using len unfolding clientHelloMsg_unmarshal_def
    by (simp add: bs clientHelloMsg_body_def clientHelloMsg_suites_back clientHelloMsg_zero_def)
  show ?thesis
  proof (cases "X = []")
    case True
    with e S show ?thesis by (simp add: u)
  next
    case False
    with e S show ?thesis by (auto simp: u wire_iffs)
  qed
qed

end

section \<open>What an accepted ClientHello satisfies\<close>

text \<open>
  Two parts: the items of the lists are never empty (and the host name never ends in a dot),
  and the extension numbers are distinct with pre\_shared\_key at the end.
\<close>

definition dotless :: "bytes \<Rightarrow> bool" where
  "dotless name \<longleftrightarrow> (name \<noteq> [] \<longrightarrow> last name \<noteq> 46)"

definition scsv_noted :: "u16 list \<Rightarrow> bool \<Rightarrow> bool" where
  "scsv_noted suites b \<longleftrightarrow> (scsvRenegotiation \<in> set suites \<longrightarrow> b)"

definition all_nonempty :: "('a \<Rightarrow> bytes) \<Rightarrow> 'a list \<Rightarrow> bool" where
  "all_nonempty f l \<longleftrightarrow> (\<forall>x\<in>set l. f x \<noteq> [])"

definition clientHelloMsg_items_ok :: "clientHelloMsg \<Rightarrow> bool" where
  "clientHelloMsg_items_ok m \<longleftrightarrow>
     dotless (ch_serverName m) \<and> all_nonempty (\<lambda>proto. proto) (ch_alpnProtocols m) \<and>
     all_nonempty ks_data (ch_keyShares m) \<and> all_nonempty psk_label (ch_pskIdentities m) \<and>
     all_nonempty (\<lambda>binder. binder) (ch_pskBinders m) \<and>
     scsv_noted (ch_cipherSuites m) (ch_secureRenegotiationSupported m) \<and> length (ch_random m) = 32"

lemma items_simps [simp]:
  "dotless []" "all_nonempty f []" "scsv_noted [] b" "scsv_noted suites True"
  "scsv_noted suites b \<Longrightarrow> scsv_noted (suites @ [v]) (b \<or> v = scsvRenegotiation)"
  by (auto simp: dotless_def all_nonempty_def scsv_noted_def)

definition clientHelloMsg_exts_ok :: "bytes \<Rightarrow> clientHelloMsg \<times> u16 set \<Rightarrow> bool" where
  "clientHelloMsg_exts_ok s = (\<lambda>(m, seen).
     distinct (ch_extensions m) \<and> set (ch_extensions m) = seen \<and>
     (extensionPreSharedKey \<in> seen \<longrightarrow> s = [] \<and> last (ch_extensions m) = extensionPreSharedKey))"

context cryptobyte_pkg
begin

lemma clientHelloMsg_name_loop:
  assumes "read_while (clientHelloMsg_nameBody C) l m = Some m'" and "clientHelloMsg_items_ok m"
  shows "clientHelloMsg_items_ok m' \<and> ch_extensions m' = ch_extensions m"
  by (rule read_while_invariant [OF _ _ assms(1),
        of "\<lambda>m'. clientHelloMsg_items_ok m' \<and> ch_extensions m' = ch_extensions m"])
    (use assms(2) in \<open>auto simp: clientHelloMsg_nameBody_def clientHelloMsg_items_ok_def dotless_def
      bind_eq_Some_conv split: if_splits\<close>)

lemma clientHelloMsg_list_loops:
  "read_while (clientHelloMsg_shareBody C) s l = Some l' \<Longrightarrow> all_nonempty ks_data l \<Longrightarrow> all_nonempty ks_data l'"
  "read_while (clientHelloMsg_identityBody C) s ids = Some ids' \<Longrightarrow>
     all_nonempty psk_label ids \<Longrightarrow> all_nonempty psk_label ids'"
  "readU8Strings C s ws = Some ws' \<Longrightarrow> all_nonempty (\<lambda>w. w) ws \<Longrightarrow> all_nonempty (\<lambda>w. w) ws'"
  "read_while (\<lambda>binders acc. do {
      (binder, binders) \<leftarrow> readUint8LengthPrefixed C binders;
      require (binder \<noteq> []);
      Some (binders, acc @ [binder]) }) s ws = Some ws' \<Longrightarrow> all_nonempty (\<lambda>w. w) ws \<Longrightarrow> all_nonempty (\<lambda>w. w) ws'"
  unfolding readU8Strings_def all_nonempty_def
  by (erule read_while_all; auto simp: clientHelloMsg_shareBody_def clientHelloMsg_identityBody_def
      bind_eq_Some_conv)+

lemma clientHelloMsg_switch_ok:
  assumes "clientHelloMsg_switch C t d R m = Some m'" and "clientHelloMsg_items_ok m"
  shows "ch_extensions m' = ch_extensions m \<and> (t = extensionPreSharedKey \<longrightarrow> R = []) \<and>
    clientHelloMsg_items_ok m'"
proof (cases "t = extensionServerName")
  case True
  with assms show ?thesis
    by (auto simp: clientHelloMsg_switch_def bind_eq_Some_conv dest: clientHelloMsg_name_loop)
next
  case False
  with assms show ?thesis
    by (auto simp: clientHelloMsg_switch_def clientHelloMsg_pskCase_def clientHelloMsg_u16List_def
        clientHelloMsg_items_ok_def bind_eq_Some_conv
        dest: clientHelloMsg_list_loops split: if_splits option.splits)
qed

lemma clientHelloMsg_ext_invariant:
  assumes "clientHelloMsg_exts_ok s a \<and> clientHelloMsg_items_ok (fst a)"
    and "uniqueExtBody C (clientHelloMsg_ext C) s a = Some (s', a')"
  shows "clientHelloMsg_exts_ok s' a' \<and> clientHelloMsg_items_ok (fst a')"
proof -
  obtain m seen where a: "a = (m, seen)" by (cases a)
  from assms(2) obtain t d m' where t: "t \<notin> seen" "s \<noteq> []"
    and sw: "clientHelloMsg_switch C t d s' (m\<lparr>ch_extensions := ch_extensions m @ [t]\<rparr>) = Some m'"
    and a': "a' = (m', insert t seen)"
    by (auto simp: a uniqueExtBody_def clientHelloMsg_ext_def bind_eq_Some_conv all_read_iffs)
  from clientHelloMsg_switch_ok [OF sw] assms(1) t show ?thesis
    by (auto simp: a a' clientHelloMsg_exts_ok_def clientHelloMsg_items_ok_def)
qed

lemma clientHelloMsg_suitesBody_ok:
  assumes "clientHelloMsg_suitesBody C s m = Some (s', m')" and "clientHelloMsg_items_ok m"
  shows "clientHelloMsg_items_ok m' \<and> ch_extensions m' = ch_extensions m \<and> ch_original m' = ch_original m"
proof -
  from assms(1) obtain v where v: "ReadUint16 C s = Some (v, s')"
    by (auto simp: clientHelloMsg_suitesBody_def bind_eq_Some_conv Let_def)
  with assms(1) have "m' = m\<lparr>ch_cipherSuites := ch_cipherSuites m @ [v],
      ch_secureRenegotiationSupported := ch_secureRenegotiationSupported m \<or> v = scsvRenegotiation\<rparr>"
    by (cases "v = scsvRenegotiation") (auto simp: clientHelloMsg_suitesBody_def Let_def)
  with assms(2) show ?thesis by (simp add: clientHelloMsg_items_ok_def)
qed

lemma clientHelloMsg_suites_invariant:
  assumes "read_while (clientHelloMsg_suitesBody C) s m = Some m'" and "clientHelloMsg_items_ok m"
  shows "clientHelloMsg_items_ok m' \<and> ch_extensions m' = ch_extensions m"
  by (rule read_while_invariant [OF _ _ assms(1),
        of "\<lambda>m'. clientHelloMsg_items_ok m' \<and> ch_extensions m' = ch_extensions m"])
    (use assms(2) clientHelloMsg_suitesBody_ok in auto)

lemma clientHelloMsg_unmarshal_accepted:
  assumes "clientHelloMsg_unmarshal C bs = Some m"
  shows "clientHelloMsg_items_ok m \<and> distinct (ch_extensions m) \<and>
    (extensionPreSharedKey \<in> set (ch_extensions m) \<longrightarrow> last (ch_extensions m) = extensionPreSharedKey)"
proof -
  from assms obtain s m0 suites vers random sessionId where
      r: "read_while (clientHelloMsg_suitesBody C) suites (clientHelloMsg_zero\<lparr>ch_original := Some bs,
        ch_vers := vers, ch_random := random, ch_sessionId := sessionId\<rparr>) = Some m0" "length random = 32"
    and m: "\<exists>c. m = m0\<lparr>ch_compressionMethods := c\<rparr> \<or>
      (\<exists>S. readUniqueExts C (clientHelloMsg_ext C) s (m0\<lparr>ch_compressionMethods := c\<rparr>, {}) = Some (m, S))"
    by (auto simp: clientHelloMsg_unmarshal_def bind_eq_Some_conv all_read_iffs Let_def split: if_splits) blast+
  have "clientHelloMsg_items_ok m0 \<and> ch_extensions m0 = []"
    using clientHelloMsg_suites_invariant [OF r(1)] r(2)
    by (simp add: clientHelloMsg_items_ok_def clientHelloMsg_zero_def)
  then have ok: "clientHelloMsg_items_ok (m0\<lparr>ch_compressionMethods := c\<rparr>)"
      "clientHelloMsg_exts_ok s (m0\<lparr>ch_compressionMethods := c\<rparr>, {})" for c
    by (auto simp: clientHelloMsg_items_ok_def clientHelloMsg_exts_ok_def)
  have "clientHelloMsg_exts_ok [] (m, S) \<and> clientHelloMsg_items_ok m"
    if "readUniqueExts C (clientHelloMsg_ext C) s (m0\<lparr>ch_compressionMethods := c\<rparr>, {}) = Some (m, S)" for c S
    using read_while_input_invariant [where P = "\<lambda>s a. clientHelloMsg_exts_ok s a \<and> clientHelloMsg_items_ok (fst a)",
      OF clientHelloMsg_ext_invariant _ that [unfolded readUniqueExts_def]] ok
    by simp
  with m ok show ?thesis by (auto simp: clientHelloMsg_exts_ok_def)
qed

end

section \<open>The binders\<close>

lemma clientHelloMsg_bindersLen_eq:
  "clientHelloMsg_bindersLen pskBinders = length (lp16 (concat (map lp8 pskBinders)))"
proof -
  have "fold (\<lambda>binder n. n + 1 + length binder) pskBinders n = n + length (concat (map lp8 pskBinders))" for n
    by (induction pskBinders arbitrary: n) auto
  then show ?thesis by (simp add: clientHelloMsg_bindersLen_def)
qed

lemma clientHelloMsg_updateBinders_iff:
  "clientHelloMsg_updateBinders m pskBinders = Inr m' \<longleftrightarrow>
     map length pskBinders = map length (ch_pskBinders m) \<and> m' = m\<lparr>ch_pskBinders := pskBinders\<rparr>"
proof -
  let ?bad = "list_ex (\<lambda>i. length (pskBinders ! i) \<noteq> length (ch_pskBinders m ! i)) [0..<length (ch_pskBinders m)]"
  have ex: "?bad \<longleftrightarrow> \<not> (\<forall>i<length (ch_pskBinders m). length (pskBinders ! i) = length (ch_pskBinders m ! i))"
    by (auto simp: list_ex_iff)
  have "map length pskBinders = map length (ch_pskBinders m) \<longleftrightarrow> length pskBinders = length (ch_pskBinders m) \<and> \<not> ?bad"
    unfolding list_eq_iff_nth_eq [of "map length pskBinders"] ex by (auto simp only: length_map nth_map)
  moreover have "Inr (m\<lparr>ch_pskBinders := pskBinders\<rparr>) = (Inr m' :: clientHelloMsg res) \<longleftrightarrow>
      m' = m\<lparr>ch_pskBinders := pskBinders\<rparr>" by (simp only: sum.inject) blast
  ultimately show ?thesis unfolding clientHelloMsg_updateBinders_def
    by (simp only: sum.distinct simp_thms split: if_split) blast
qed

lemma length_concat_lp8: "map length bs = map length bs' \<Longrightarrow> length (concat (map lp8 bs)) = length (concat (map lp8 bs'))"
proof (induction bs arbitrary: bs')
  case (Cons b bs)
  from Cons.prems obtain b' bs'' where bs': "bs' = b' # bs''" "length b = length b'"
    and len: "map length bs = map length bs''" by (cases bs') simp_all
  from Cons.IH [OF len] bs' show ?case by simp
qed simp

definition clientHelloMsg_pskEntry :: "clientHelloMsg \<Rightarrow> bytes list \<Rightarrow> clientHelloMsg optext" where
  "clientHelloMsg_pskEntry m B =
     withExt (clientHelloMsg_sendsPSK False m) extensionPreSharedKey
       (wcat [wprefix 2 (wcat (map (\<lambda>psk. wcat [wprefix 2 (Some (psk_label psk)),
            Some (be 4 (unat (psk_obfuscatedTicketAge psk)))]) (ch_pskIdentities m))),
          wprefix 2 (wcat (map (\<lambda>binder. wprefix (Suc 0) (Some binder)) B))])
       (\<lambda>m'. m'\<lparr>ch_pskIdentities := ch_pskIdentities m, ch_pskBinders := B\<rparr>)"

lemma clientHelloMsg_optexts_psk:
  "clientHelloMsg_optexts (m\<lparr>ch_pskBinders := B\<rparr>) = butlast (clientHelloMsg_optexts m) @ [clientHelloMsg_pskEntry m B]"
  by (simp add: clientHelloMsg_optexts_def clientHelloMsg_pskEntry_def clientHelloMsg_sendsPSK_def)

context cryptobyte_pkg
begin

text \<open>
  The message with any binders of the same lengths is the same string up to the binder list,
  and \<open>marshalWithoutBinders\<close> returns that common prefix.
\<close>

lemma clientHelloMsg_binders_suffix:
  assumes "clientHelloMsg_marshal C m = Inr bs" and "clientHelloMsg_sendsPSK False m"
  obtains p where "\<And>B. map length B = map length (ch_pskBinders m) \<Longrightarrow>
    clientHelloMsg_marshal C (m\<lparr>ch_pskBinders := B\<rparr>) = Inr (p @ lp16 (concat (map lp8 B)))"
proof -
  let ?L = "butlast (clientHelloMsg_optexts m)"
  from assms(1) obtain X e where X: "wexts (clientHelloMsg_optexts (m\<lparr>ch_pskBinders := ch_pskBinders m\<rparr>)) = Some X"
    and e: "wopt (X \<noteq> []) (wprefix 2 (Some X)) = Some e"
    and len: "length (ch_random m) = 32" "length (ch_sessionId m) < 256"
      "length (concat (map u16b (ch_cipherSuites m))) < 65536" "length (ch_compressionMethods m) < 256"
      "length (clientHelloMsg_body m e) < 16777216"
    unfolding clientHelloMsg_marshal_iff by auto
  from X assms(2) obtain Y i where Y: "wexts ?L = Some Y"
    and i: "wprefix 2 (wcat (map (\<lambda>psk. wcat [wprefix 2 (Some (psk_label psk)),
            Some (be 4 (unat (psk_obfuscatedTicketAge psk)))]) (ch_pskIdentities m))) = Some i"
    and b: "\<forall>w\<in>set (ch_pskBinders m). length w < 256" "length (concat (map lp8 (ch_pskBinders m))) < 65536"
      "length (i @ lp16 (concat (map lp8 (ch_pskBinders m)))) < 65536"
    and XY: "X = Y @ extb extensionPreSharedKey (i @ lp16 (concat (map lp8 (ch_pskBinders m))))"
    unfolding clientHelloMsg_optexts_psk clientHelloMsg_pskEntry_def withExt_def wexts_snoc_Some
    by (auto simp: wext_Some wcat_Cons_Some wcat_map_wprefix wprefix_lp(2))
  let ?bl = "\<lambda>B. lp16 (concat (map lp8 B))"
  let ?X = "\<lambda>B. Y @ extb extensionPreSharedKey (i @ ?bl B)"
  let ?h = "u16b (ch_vers m) @ ch_random m @ lp8 (ch_sessionId m) @
     lp16 (concat (map u16b (ch_cipherSuites m))) @ lp8 (ch_compressionMethods m)"
  let ?p = "typeClientHello # be 3 (length (clientHelloMsg_body m e)) @ ?h @ be 2 (length X) @ Y @
     u16b extensionPreSharedKey @ be 2 (length (i @ ?bl (ch_pskBinders m))) @ i"
  have e': "e = lp16 X" "length X < 65536" using e XY by (auto simp: wire_iffs)
  show thesis
  proof (rule that [of ?p])
    fix B :: "bytes list" assume B: "map length B = map length (ch_pskBinders m)"
    have lenB: "length (concat (map lp8 B)) = length (concat (map lp8 (ch_pskBinders m)))"
      using B by (rule length_concat_lp8)
    have "\<forall>w\<in>set B. length w < 256"
      using b(1) B by (metis (no_types, lifting) image_iff list.set_map)
    with Y i b lenB assms(2)
    have XB: "wexts (clientHelloMsg_optexts (m\<lparr>ch_pskBinders := B\<rparr>)) = Some (?X B)"
      unfolding clientHelloMsg_optexts_psk clientHelloMsg_pskEntry_def withExt_def wexts_snoc_Some
      by (auto simp: wext_Some wcat_Cons_Some wcat_map_wprefix wprefix_lp(2))
    have lX: "length (?X B) = length X" using lenB by (simp add: XY extb_def)
    have "lp16 (?X B) = be 2 (length X) @ Y @ u16b extensionPreSharedKey @
        be 2 (length (i @ ?bl (ch_pskBinders m))) @ i @ ?bl B"
      unfolding lp16_def [of "?X B"] lX by (simp add: extb_def lp16_def [of "i @ _"] lenB)
    moreover have "clientHelloMsg_marshal C (m\<lparr>ch_pskBinders := B\<rparr>) =
        Inr (typeClientHello # lp24 (clientHelloMsg_body m (lp16 (?X B))))"
      unfolding clientHelloMsg_marshal_iff XB using lX len e' by (auto simp: wire_iffs clientHelloMsg_body_def)
    moreover have "length (clientHelloMsg_body m (lp16 (?X B))) = length (clientHelloMsg_body m e)"
      using lX e' by (simp add: clientHelloMsg_body_def)
    ultimately show "clientHelloMsg_marshal C (m\<lparr>ch_pskBinders := B\<rparr>) = Inr (?p @ ?bl B)"
      by (simp only: lp24_def append_assoc append_Cons) (simp only: clientHelloMsg_body_def append_assoc)
  qed
qed

lemma clientHelloMsg_marshalWithoutBinders_prefix:
  assumes "clientHelloMsg_marshal C m = Inr bs" and "clientHelloMsg_sendsPSK False m"
    and "ch_original m = None" and "clientHelloMsg_updateBinders m pskBinders = Inr m'"
  shows "\<exists>p. clientHelloMsg_marshalWithoutBinders C m = Some (Inr p) \<and>
    clientHelloMsg_marshalWithoutBinders C m' = Some (Inr p) \<and>
    bs = p @ lp16 (concat (map lp8 (ch_pskBinders m))) \<and>
    clientHelloMsg_marshal C m' = Inr (p @ lp16 (concat (map lp8 pskBinders)))"
proof -
  from assms(4) have B: "map length pskBinders = map length (ch_pskBinders m)"
    and m': "m' = m\<lparr>ch_pskBinders := pskBinders\<rparr>" by (simp_all add: clientHelloMsg_updateBinders_iff)
  obtain p where p: "\<And>B. map length B = map length (ch_pskBinders m) \<Longrightarrow>
      clientHelloMsg_marshal C (m\<lparr>ch_pskBinders := B\<rparr>) = Inr (p @ lp16 (concat (map lp8 B)))"
    using clientHelloMsg_binders_suffix [OF assms(1,2)] by blast
  from p [OF refl] assms(1) have bs: "bs = p @ lp16 (concat (map lp8 (ch_pskBinders m)))" by simp
  have wo: "clientHelloMsg_marshalWithoutBinders C m = Some (Inr p)"
    using assms(1,3) by (simp add: clientHelloMsg_marshalWithoutBinders_def clientHelloMsg_bindersLen_eq bs)
  have "clientHelloMsg_marshalWithoutBinders C m' = Some (Inr p)"
    using p [OF B] assms(3) by (simp add: m' clientHelloMsg_marshalWithoutBinders_def clientHelloMsg_bindersLen_eq)
  with wo bs p [OF B] show ?thesis by (simp add: m')
qed

end

section \<open>Properties\<close>

text \<open>A message with pre-shared keys, on which the properties are instantiated.\<close>

definition clientHelloMsg_sample :: clientHelloMsg where
  "clientHelloMsg_sample = clientHelloMsg_zero\<lparr>ch_vers := VersionTLS12, ch_random := replicate 32 7,
     ch_sessionId := [1, 2], ch_cipherSuites := [0x1301], ch_compressionMethods := [0],
     ch_serverName := [101, 120], ch_supportedVersions := [VersionTLS13],
     ch_keyShares := [\<lparr>ks_group = 29, ks_data = [5, 6]\<rparr>], ch_pskModes := [1],
     ch_pskIdentities := [\<lparr>psk_label = [9], psk_obfuscatedTicketAge = 3\<rparr>], ch_pskBinders := [[8, 8]]\<rparr>"

lemma clientHelloMsg_sample_wf: "clientHelloMsg_wf clientHelloMsg_sample"
  by (simp add: clientHelloMsg_wf_def clientHelloMsg_sample_def clientHelloMsg_zero_def)

lemma clientHelloMsg_sample_wexts:
  "wexts (clientHelloMsg_optexts clientHelloMsg_sample) =
     Some (extb extensionServerName (lp16 (0 # lp16 [101, 120])) @
       extb extensionSupportedVersions (lp8 (u16b VersionTLS13)) @
       extb extensionKeyShare (lp16 (extb 29 [5, 6])) @ extb extensionPSKModes (lp8 [1]) @
       extb extensionPreSharedKey (lp16 (lp16 [9] @ be 4 3) @ lp16 (lp8 [8, 8])))"
  by (simp add: wexts_def clientHelloMsg_optexts_def withExt_def clientHelloMsg_sample_def
      clientHelloMsg_zero_def clientHelloMsg_sendsPSK_def wcat.simps wext_def wprefix_def lp8_def lp16_def extb_def)

lemma clientHelloMsg_sample_marshal: "\<exists>bs. clientHelloMsg_marshal cb_ref clientHelloMsg_sample = Inr bs"
  unfolding cbr.clientHelloMsg_marshal_iff clientHelloMsg_sample_wexts
  by (simp add: clientHelloMsg_body_def wprefix_def extb_def) (simp add: clientHelloMsg_sample_def clientHelloMsg_zero_def)

text \<open>
  (C12) ClientHello round trip: whatever \<open>marshal\<close> makes of a well-formed message,
  \<open>unmarshal\<close> reads back with every field unchanged; it only adds the received bytes and the
  list of the extensions that were present, in the order in which they are sent.
\<close>

theorem clientHello_roundtrip:
  assumes "cryptobyte_pkg C" and "clientHelloMsg_wf m" and "clientHelloMsg_marshal C m = Inr bs"
  shows "clientHelloMsg_unmarshal C bs =
    Some (m\<lparr>ch_original := Some bs, ch_extensions := clientHelloMsg_sentExts m\<rparr>)"
  by (rule cryptobyte_pkg.clientHelloMsg_unmarshal_marshal [OF assms(1,3,2)])

theorem clientHello_roundtrip_witness:
  "\<exists>bs. clientHelloMsg_marshal cb_ref clientHelloMsg_sample = Inr bs \<and>
     clientHelloMsg_unmarshal cb_ref bs = Some (clientHelloMsg_sample\<lparr>ch_original := Some bs,
       ch_extensions := clientHelloMsg_sentExts clientHelloMsg_sample\<rparr>)"
proof -
  obtain bs where bs: "clientHelloMsg_marshal cb_ref clientHelloMsg_sample = Inr bs"
    using clientHelloMsg_sample_marshal by blast
  then show ?thesis
    using clientHello_roundtrip [OF cbr.cryptobyte_pkg_axioms clientHelloMsg_sample_wf] by blast
qed

text \<open>
  (C13) What an accepted ClientHello satisfies, for every input string: no extension number occurs
  twice, pre\_shared\_key is the last extension when it is present, the random is 32 bytes
  long, the host name does not end in a dot, no protocol name, key share, PSK label or binder
  is empty, and the renegotiation signalling cipher suite sets the secure renegotiation flag.
\<close>

theorem clientHello_accepted:
  assumes "cryptobyte_pkg C" and "clientHelloMsg_unmarshal C bs = Some m"
  shows "distinct (ch_extensions m) \<and>
    (extensionPreSharedKey \<in> set (ch_extensions m) \<longrightarrow> last (ch_extensions m) = extensionPreSharedKey) \<and>
    length (ch_random m) = 32 \<and>
    (ch_serverName m \<noteq> [] \<longrightarrow> last (ch_serverName m) \<noteq> 46) \<and>
    [] \<notin> set (ch_alpnProtocols m) \<and> (\<forall>ks\<in>set (ch_keyShares m). ks_data ks \<noteq> []) \<and>
    (\<forall>psk\<in>set (ch_pskIdentities m). psk_label psk \<noteq> []) \<and> [] \<notin> set (ch_pskBinders m) \<and>
    (scsvRenegotiation \<in> set (ch_cipherSuites m) \<longrightarrow> ch_secureRenegotiationSupported m)"
  using cryptobyte_pkg.clientHelloMsg_unmarshal_accepted [OF assms]
  by (auto simp: clientHelloMsg_items_ok_def dotless_def all_nonempty_def scsv_noted_def)

theorem clientHello_accepted_witness:
  "\<exists>bs m. clientHelloMsg_unmarshal cb_ref bs = Some m \<and> distinct (ch_extensions m) \<and> length (ch_random m) = 32"
proof -
  obtain bs where "clientHelloMsg_marshal cb_ref clientHelloMsg_sample = Inr bs"
    using clientHelloMsg_sample_marshal by blast
  then have "clientHelloMsg_unmarshal cb_ref bs = Some (clientHelloMsg_sample\<lparr>ch_original := Some bs,
      ch_extensions := clientHelloMsg_sentExts clientHelloMsg_sample\<rparr>)"
    by (rule cbr.clientHelloMsg_unmarshal_marshal [OF _ clientHelloMsg_sample_wf])
  then show ?thesis using clientHello_accepted [OF cbr.cryptobyte_pkg_axioms] by blast
qed

text \<open>
  The string that the PSK binders are computed over does not depend on the binders:
  \<open>marshalWithoutBinders\<close> returns the same prefix before and after \<open>updateBinders\<close>, and the
  full message is that prefix followed by the encoded binder list.
\<close>

lemma clientHello_binders_prefix:
  assumes "cryptobyte_pkg C" and "clientHelloMsg_marshal C m = Inr bs" and "clientHelloMsg_sendsPSK False m"
    and "ch_original m = None" and "clientHelloMsg_updateBinders m pskBinders = Inr m'"
  shows "\<exists>p. clientHelloMsg_marshalWithoutBinders C m = Some (Inr p) \<and>
    clientHelloMsg_marshalWithoutBinders C m' = Some (Inr p) \<and>
    bs = p @ lp16 (concat (map lp8 (ch_pskBinders m))) \<and>
    clientHelloMsg_marshal C m' = Inr (p @ lp16 (concat (map lp8 pskBinders)))"
  by (rule cryptobyte_pkg.clientHelloMsg_marshalWithoutBinders_prefix [OF assms])

end
