(* ===== verification/HandshakeIO.thy ===== *)
theory HandshakeIO
  imports ConnRead Messages12 ServerHello ClientHello
begin

text \<open>
  Handshake messages on a connection: the rest of conn.go with the QUIC side of it in quic.go.
  Messages are collected from records or from the QUIC transport, parsed by their type and version, and
  written; after the handshake, session tickets, key updates and renegotiation requests are
  handled inside \<open>Read\<close>. A transcript is the string of what was written to it: \<open>finishedHash\<close> and
  \<open>hash.Hash\<close> are functions of that string. The handshake functions themselves are an argument.
  A result \<open>None\<close> is a panic, a loop that does not end, or a QUIC handshake that stays blocked.
\<close>

section \<open>Messages\<close>

datatype handshakeMessage =
    HelloRequestM
  | ClientHelloM clientHelloMsg
  | ServerHelloM serverHelloMsg
  | NewSessionTicketM newSessionTicketMsg
  | NewSessionTicketTLS13M newSessionTicketMsgTLS13
  | CertificateM certificateMsg
  | CertificateTLS13M certificateMsgTLS13
  | CertificateRequestM certificateRequestMsg
  | CertificateRequestTLS13M certificateRequestMsgTLS13
  | CertificateStatusM certificateStatusMsg
  | ServerKeyExchangeM serverKeyExchangeMsg
  | ServerHelloDoneM
  | ClientKeyExchangeM clientKeyExchangeMsg
  | CertificateVerifyM certificateVerifyMsg
  | FinishedM finishedMsg
  | EncryptedExtensionsM encryptedExtensionsMsg
  | EndOfEarlyDataM
  | KeyUpdateM keyUpdateMsg

fun messageType :: "handshakeMessage \<Rightarrow> string" where
  "messageType HelloRequestM = ''*tls.helloRequestMsg''"
| "messageType (ClientHelloM _) = ''*tls.clientHelloMsg''"
| "messageType (ServerHelloM _) = ''*tls.serverHelloMsg''"
| "messageType (NewSessionTicketM _) = ''*tls.newSessionTicketMsg''"
| "messageType (NewSessionTicketTLS13M _) = ''*tls.newSessionTicketMsgTLS13''"
| "messageType (CertificateM _) = ''*tls.certificateMsg''"
| "messageType (CertificateTLS13M _) = ''*tls.certificateMsgTLS13''"
| "messageType (CertificateRequestM _) = ''*tls.certificateRequestMsg''"
| "messageType (CertificateRequestTLS13M _) = ''*tls.certificateRequestMsgTLS13''"
| "messageType (CertificateStatusM _) = ''*tls.certificateStatusMsg''"
| "messageType (ServerKeyExchangeM _) = ''*tls.serverKeyExchangeMsg''"
| "messageType ServerHelloDoneM = ''*tls.serverHelloDoneMsg''"
| "messageType (ClientKeyExchangeM _) = ''*tls.clientKeyExchangeMsg''"
| "messageType (CertificateVerifyM _) = ''*tls.certificateVerifyMsg''"
| "messageType (FinishedM _) = ''*tls.finishedMsg''"
| "messageType (EncryptedExtensionsM _) = ''*tls.encryptedExtensionsMsg''"
| "messageType EndOfEarlyDataM = ''*tls.endOfEarlyDataMsg''"
| "messageType (KeyUpdateM _) = ''*tls.keyUpdateMsg''"

definition unexpectedMessageError :: "string \<Rightarrow> handshakeMessage \<Rightarrow> goerror" where
  "unexpectedMessageError wanted got =
     ErrorsNew (''tls: received unexpected handshake message of type '' @ messageType got @ '' when waiting for '' @ wanted)"

fun marshalMessage :: "('b, 'x) cryptobyte_scheme \<Rightarrow> handshakeMessage \<Rightarrow> bytes res" where
  "marshalMessage C HelloRequestM = Inr helloRequestMsg_marshal"
| "marshalMessage C (ClientHelloM m) = clientHelloMsg_marshal C m"
| "marshalMessage C (ServerHelloM m) = serverHelloMsg_marshal C m"
| "marshalMessage C (NewSessionTicketM m) = Inr (newSessionTicketMsg_marshal m)"
| "marshalMessage C (NewSessionTicketTLS13M m) = newSessionTicketMsgTLS13_marshal C m"
| "marshalMessage C (CertificateM m) = Inr (certificateMsg_marshal m)"
| "marshalMessage C (CertificateTLS13M m) = certificateMsgTLS13_marshal C m"
| "marshalMessage C (CertificateRequestM m) = Inr (certificateRequestMsg_marshal m)"
| "marshalMessage C (CertificateRequestTLS13M m) = certificateRequestMsgTLS13_marshal C m"
| "marshalMessage C (CertificateStatusM m) = certificateStatusMsg_marshal C m"
| "marshalMessage C (ServerKeyExchangeM m) = Inr (serverKeyExchangeMsg_marshal m)"
| "marshalMessage C ServerHelloDoneM = Inr serverHelloDoneMsg_marshal"
| "marshalMessage C (ClientKeyExchangeM m) = Inr (clientKeyExchangeMsg_marshal m)"
| "marshalMessage C (CertificateVerifyM m) = certificateVerifyMsg_marshal C m"
| "marshalMessage C (FinishedM m) = finishedMsg_marshal C m"
| "marshalMessage C (EncryptedExtensionsM m) = encryptedExtensionsMsg_marshal C m"
| "marshalMessage C EndOfEarlyDataM = Inr endOfEarlyDataMsg_marshal"
| "marshalMessage C (KeyUpdateM m) = keyUpdateMsg_marshal C m"

text \<open>
  The \<open>switch\<close> of \<open>unmarshalHandshakeMessage\<close> with the \<open>unmarshal\<close> call behind it: an unknown type, a message that does
  not parse, a panic of its parser, or the message.
\<close>

datatype parsed = UnknownMsg | BadMsg | PanicMsg | GoodMsg handshakeMessage

definition parsedOf :: "('m \<Rightarrow> handshakeMessage) \<Rightarrow> 'm option \<Rightarrow> parsed" where
  "parsedOf f r = (case r of None \<Rightarrow> BadMsg | Some m \<Rightarrow> GoodMsg (f m))"

definition parsedPanic :: "('m \<Rightarrow> handshakeMessage) \<Rightarrow> 'm option option \<Rightarrow> parsed" where
  "parsedPanic f r = (case r of None \<Rightarrow> PanicMsg | Some r \<Rightarrow> parsedOf f r)"

definition parsedBool :: "handshakeMessage \<Rightarrow> bool \<Rightarrow> parsed" where
  "parsedBool m ok = (if ok then GoodMsg m else BadMsg)"

definition parseMessage :: "('b, 'x) cryptobyte_scheme \<Rightarrow> u16 \<Rightarrow> bytes \<Rightarrow> parsed" where
  "parseMessage C vers data =
     (let t = data ! 0 in
      if t = typeHelloRequest then parsedBool HelloRequestM (helloRequestMsg_unmarshal data)
      else if t = typeClientHello then parsedOf ClientHelloM (clientHelloMsg_unmarshal C data)
      else if t = typeServerHello then parsedOf ServerHelloM (serverHelloMsg_unmarshal C data)
      else if t = typeNewSessionTicket then
        if vers = VersionTLS13 then parsedOf NewSessionTicketTLS13M (newSessionTicketMsgTLS13_unmarshal C data)
        else parsedOf NewSessionTicketM (newSessionTicketMsg_unmarshal data)
      else if t = typeCertificate then
        if vers = VersionTLS13 then parsedOf CertificateTLS13M (certificateMsgTLS13_unmarshal C data)
        else parsedPanic CertificateM (certificateMsg_unmarshal data)
      else if t = typeCertificateRequest then
        if vers = VersionTLS13 then parsedOf CertificateRequestTLS13M (certificateRequestMsgTLS13_unmarshal C data)
        else parsedPanic CertificateRequestM (certificateRequestMsg_unmarshal
               \<lparr>cr_hasSignatureAlgorithm = (vers \<ge> VersionTLS12), cr_certificateTypes = [],
                 cr_supportedSignatureAlgorithms = [], cr_certificateAuthorities = []\<rparr> data)
      else if t = typeCertificateStatus then parsedOf CertificateStatusM (certificateStatusMsg_unmarshal C data)
      else if t = typeServerKeyExchange then parsedOf ServerKeyExchangeM (serverKeyExchangeMsg_unmarshal data)
      else if t = typeServerHelloDone then parsedBool ServerHelloDoneM (serverHelloDoneMsg_unmarshal data)
      else if t = typeClientKeyExchange then parsedOf ClientKeyExchangeM (clientKeyExchangeMsg_unmarshal data)
      else if t = typeCertificateVerify then parsedOf CertificateVerifyM (certificateVerifyMsg_unmarshal C
               \<lparr>cv_hasSignatureAlgorithm = (vers \<ge> VersionTLS12), cv_signatureAlgorithm = 0, cv_signature = []\<rparr> data)
      else if t = typeFinished then parsedOf FinishedM (finishedMsg_unmarshal C data)
      else if t = typeEncryptedExtensions then parsedOf EncryptedExtensionsM (encryptedExtensionsMsg_unmarshal C data)
      else if t = typeEndOfEarlyData then parsedBool EndOfEarlyDataM (endOfEarlyDataMsg_unmarshal data)
      else if t = typeKeyUpdate then parsedOf KeyUpdateM (keyUpdateMsg_unmarshal C data)
      else UnknownMsg)"

section \<open>Transcripts\<close>

type_synonym transcript = "bytes option"

definition transcript_Write :: "transcript \<Rightarrow> bytes \<Rightarrow> transcript" where
  "transcript_Write t data = map_option (\<lambda>w. w @ data) t"

definition transcriptMsg :: "('b, 'x) cryptobyte_scheme \<Rightarrow> handshakeMessage \<Rightarrow> bytes \<Rightarrow> bytes res" where
  "transcriptMsg C msg h =
     (let orig = (case msg of
            ClientHelloM m \<Rightarrow> clientHelloMsg_originalBytes m
          | ServerHelloM m \<Rightarrow> serverHelloMsg_originalBytes m
          | _ \<Rightarrow> None)
      in case orig of
           Some w \<Rightarrow> Inr (h @ w)
         | None \<Rightarrow> (case marshalMessage C msg of Inl e \<Rightarrow> Inl e | Inr data \<Rightarrow> Inr (h @ data)))"

section \<open>Reading and writing messages\<close>

abbreviation maxHandshake :: nat where "maxHandshake \<equiv> 65536"
abbreviation maxHandshakeCertificateMsg :: nat where "maxHandshakeCertificateMsg \<equiv> 262144"

definition writeHandshakeRecord :: "('b, 'x) cryptobyte_scheme \<Rightarrow> Conn \<Rightarrow> handshakeMessage \<Rightarrow> transcript \<Rightarrow>
    ((nat \<times> goerror option) \<times> Conn \<times> transcript) option" where
  "writeHandshakeRecord C c msg transcript =
     (case marshalMessage C msg of
        Inl e \<Rightarrow> Some ((0, Some e), c, transcript)
      | Inr data \<Rightarrow>
          map_option (\<lambda>(r, c). (r, c, transcript_Write transcript data)) (writeRecordLocked c recordTypeHandshake data))"

text \<open>The handshake goroutine wakes up with the next signal.\<close>

definition quicWaitForSignal :: "Conn \<Rightarrow> (goerror option \<times> Conn) option" where
  "quicWaitForSignal c = (case c_quic c of
     None \<Rightarrow> None
   | Some q \<Rightarrow>
       (case qs_signals q of
          [] \<Rightarrow> None
        | s # signals \<Rightarrow>
            (let q = q\<lparr>qs_signals := signals\<rparr> in
             case s of
               QSCanceled \<Rightarrow> sendAlertLocked (c\<lparr>c_quic := Some q\<rparr>) alertCloseNotify
             | QSData d \<Rightarrow> Some (None, c\<lparr>c_quic := Some q, c_hand := c_hand c @ d\<rparr>)
             | QSTransportParameters p \<Rightarrow> Some (None, c\<lparr>c_quic := Some (q\<lparr>qs_transportParams := Some p\<rparr>)\<rparr>)
             | QSDrained \<Rightarrow> Some (None, c\<lparr>c_quic := Some (q\<lparr>qs_waitingForDrain := False\<rparr>)\<rparr>))))"

abbreviation signals :: "Conn \<Rightarrow> quicSignal list" where
  "signals c \<equiv> (case c_quic c of None \<Rightarrow> [] | Some q \<Rightarrow> qs_signals q)"

lemma quicWaitForSignal_signals:
  assumes "quicWaitForSignal c = Some (None, c')"
  shows "c_quic c' \<noteq> None \<and> length (signals c') < length (signals c)"
proof -
  have "sendAlertLocked c1 a = Some (None, c2) \<Longrightarrow> c_quic c1 = None" for c1 a c2
    by (auto simp: sendAlertLocked_def out_setError_OpError split: if_splits)
  then show ?thesis using assms
    by (auto simp: quicWaitForSignal_def Let_def split: option.splits list.splits quicSignal.splits) fastforce+
qed

function quicReadHandshakeBytes :: "Conn \<Rightarrow> nat \<Rightarrow> (goerror option \<times> Conn) option" where
  "quicReadHandshakeBytes c n =
     (if length (c_hand c) < n
      then case quicWaitForSignal c of
             None \<Rightarrow> None
           | Some (Some e, c) \<Rightarrow> Some (Some e, c)
           | Some (None, c) \<Rightarrow> quicReadHandshakeBytes c n
      else Some (None, c))"
  by pat_completeness auto
termination
  by (relation "measure (\<lambda>(c, n). length (signals c))") (auto dest: quicWaitForSignal_signals)

declare quicReadHandshakeBytes.simps [simp del]

function readHandshakeRecords :: "Conn \<Rightarrow> nat \<Rightarrow> (goerror option \<times> Conn) option" where
  "readHandshakeRecords c n =
     (if length (c_hand c) < n
      then case readRecord c of
             None \<Rightarrow> None
           | Some (Some e, c) \<Rightarrow> Some (Some e, c)
           | Some (None, c) \<Rightarrow> readHandshakeRecords c n
      else Some (None, c))"
  by pat_completeness auto
termination
proof (relation "measure (\<lambda>(c, n). 2 * (n - length (c_hand c)) + (if c_input c = [] then 1 else 0))", goal_cases)
  case (2 c n r x c')
  then have "read_result False c None c'" unfolding readRecord_def by (metis readRecordOrCCS_result)
  then have "c_input c = []" "length (c_hand c) < length (c_hand c') \<or> c_hand c' = c_hand c \<and> c_input c' \<noteq> []"
    by (auto simp: read_result_def read_effect_def hand_grew_def ccs_read_def input_set_def)
  then show ?case using 2(1) by auto
qed simp

declare readHandshakeRecords.simps [simp del]

definition readHandshakeBytes :: "Conn \<Rightarrow> nat \<Rightarrow> (goerror option \<times> Conn) option" where
  "readHandshakeBytes c n =
     (if c_quic c \<noteq> None then quicReadHandshakeBytes c n else readHandshakeRecords c n)"

text \<open>The error of a read that failed for the peer's fault: an alert, latched on the incoming half.\<close>

definition latchAlert :: "Conn \<Rightarrow> u8 \<Rightarrow> (goerror option \<times> Conn) option" where
  "latchAlert c a = map_option (\<lambda>(e, c). in_setError c e) (sendAlert c a)"

definition unmarshalHandshakeMessage :: "('b, 'x) cryptobyte_scheme \<Rightarrow> Conn \<Rightarrow> bytes \<Rightarrow> transcript \<Rightarrow>
    ((goerror option + handshakeMessage) \<times> Conn \<times> transcript) option" where
  "unmarshalHandshakeMessage C c data transcript =
     (case parseMessage C (c_vers c) data of
        UnknownMsg \<Rightarrow> map_option (\<lambda>(e, c). (Inl e, c, transcript)) (latchAlert c alertUnexpectedMessage)
      | BadMsg \<Rightarrow> map_option (\<lambda>(e, c). (Inl e, c, transcript)) (latchAlert c alertDecodeError)
      | PanicMsg \<Rightarrow> None
      | GoodMsg m \<Rightarrow> Some (Inr m, c, transcript_Write transcript data))"

definition readHandshake :: "('b, 'x) cryptobyte_scheme \<Rightarrow> Conn \<Rightarrow> transcript \<Rightarrow>
    ((goerror option + handshakeMessage) \<times> Conn \<times> transcript) option" where
  "readHandshake C c transcript =
     (case readHandshakeBytes c 4 of
        None \<Rightarrow> None
      | Some (Some e, c) \<Rightarrow> Some (Inl (Some e), c, transcript)
      | Some (None, c) \<Rightarrow>
          (let data = c_hand c;
               maxHandshakeSize = (if c_haveVers c \<and> data ! 0 = typeCertificate then maxHandshakeCertificateMsg else maxHandshake);
               n = int24 (data ! 1) (data ! 2) (data ! 3)
           in if n > maxHandshakeSize
              then case sendAlertLocked c alertInternalError of
                     None \<Rightarrow> None
                   | Some (_, c) \<Rightarrow>
                       (let (e, c) = in_setError c (Some (Errorf
                            ''tls: handshake message of length %d bytes exceeds maximum of %d bytes'' [n, maxHandshakeSize]))
                        in Some (Inl e, c, transcript))
              else case readHandshakeBytes c (4 + n) of
                     None \<Rightarrow> None
                   | Some (Some e, c) \<Rightarrow> Some (Inl (Some e), c, transcript)
                   | Some (None, c) \<Rightarrow>
                       unmarshalHandshakeMessage C (c\<lparr>c_hand := drop (4 + n) (c_hand c)\<rparr>) (take (4 + n) (c_hand c)) transcript))"

section \<open>Traffic secrets\<close>

definition setReadTrafficSecret :: "('b, 'x) cryptobyte_scheme \<Rightarrow> Conn \<Rightarrow> cipherSuiteTLS13 \<Rightarrow> QUICEncryptionLevel \<Rightarrow>
    bytes \<Rightarrow> bool \<Rightarrow> (goerror option \<times> Conn) option" where
  "setReadTrafficSecret C c suite level secret locked =
     (if length (c_hand c) \<noteq> 0
      then map_option (\<lambda>(_, c). (Some (ErrorsNew ''tls: handshake buffer not empty before setting read traffic secret''), c))
             (if locked then sendAlertLocked c alertUnexpectedMessage else sendAlert c alertUnexpectedMessage)
      else map_option (\<lambda>hin. (None, c\<lparr>c_in := hin\<rparr>)) (hc_setTrafficSecret C (c_in c) suite level secret))"

definition setWriteTrafficSecret :: "('b, 'x) cryptobyte_scheme \<Rightarrow> Conn \<Rightarrow> cipherSuiteTLS13 \<Rightarrow> QUICEncryptionLevel \<Rightarrow>
    bytes \<Rightarrow> Conn option" where
  "setWriteTrafficSecret C c suite level secret =
     map_option (\<lambda>out. c\<lparr>c_out := out\<rparr>) (hc_setTrafficSecret C (c_out c) suite level secret)"

definition quicAddEvent :: "QUICEvent \<Rightarrow> quicState \<Rightarrow> quicState" where
  "quicAddEvent e q = q\<lparr>qs_events := qs_events q @ [e]\<rparr>"

definition quicSetReadSecret :: "Conn \<Rightarrow> QUICEncryptionLevel \<Rightarrow> u16 \<Rightarrow> bytes \<Rightarrow> (goerror option \<times> Conn) option" where
  "quicSetReadSecret c level suite secret =
     (if length (c_hand c) \<noteq> 0
      then map_option (\<lambda>(_, c). (Some (ErrorsNew ''tls: handshake buffer not empty before setting read traffic secret''), c))
             (sendAlert c alertUnexpectedMessage)
      else Some (None, c\<lparr>c_quic := map_option (quicAddEvent (QUICEvent_zero\<lparr>qe_Kind := QUICSetReadSecret, qe_Level := level,
             qe_Suite := suite, qe_Data := secret\<rparr>)) (c_quic c)\<rparr>))"

definition quicSetWriteSecret :: "Conn \<Rightarrow> QUICEncryptionLevel \<Rightarrow> u16 \<Rightarrow> bytes \<Rightarrow> Conn" where
  "quicSetWriteSecret c level suite secret =
     c\<lparr>c_quic := map_option (quicAddEvent (QUICEvent_zero\<lparr>qe_Kind := QUICSetWriteSecret, qe_Level := level,
        qe_Suite := suite, qe_Data := secret\<rparr>)) (c_quic c)\<rparr>"

definition quicStoreSession :: "Conn \<Rightarrow> SessionState \<Rightarrow> Conn" where
  "quicStoreSession c session =
     c\<lparr>c_quic := map_option (quicAddEvent (QUICEvent_zero\<lparr>qe_Kind := QUICStoreSession,
        qe_SessionState := Some session\<rparr>)) (c_quic c)\<rparr>"

definition quicHandshakeComplete :: "Conn \<Rightarrow> Conn" where
  "quicHandshakeComplete c =
     c\<lparr>c_quic := map_option (quicAddEvent (QUICEvent_zero\<lparr>qe_Kind := QUICHandshakeDone\<rparr>)) (c_quic c)\<rparr>"

section \<open>Messages after the handshake\<close>

text \<open>\<open>Unix\<close> of a time in nanoseconds, as an unsigned 64-bit number of seconds.\<close>

definition unixSeconds :: "int \<Rightarrow> u64" where
  "unixSeconds t = word_of_int (t div 1000000000)"

definition conn_sessionState :: "int \<Rightarrow> Conn \<Rightarrow> SessionState" where
  "conn_sessionState now c = \<lparr>sn_Extra = [], sn_EarlyData = False, sn_version = c_vers c, sn_isClient = c_isClient c,
     sn_cipherSuite = c_cipherSuite c, sn_createdAt = unixSeconds now, sn_secret = [],
     sn_extMasterSecret = c_extMasterSecret c, sn_peerCertificates = c_peerCertificates c,
     sn_ocspResponse = c_ocspResponse c, sn_scts = c_scts c, sn_verifiedChains = c_verifiedChains c,
     sn_alpnProtocol = c_clientProtocol c, sn_useBy = 0, sn_ageAdd = 0, sn_ticket = [], sn_curveID = c_curveID c\<rparr>"

definition clientSessionCacheKey :: "Conn \<Rightarrow> string" where
  "clientSessionCacheKey c =
     (if length (cfg_ServerName (c_config c)) > 0 then cfg_ServerName (c_config c)
      else if c_quic c = None then nc_RemoteAddr (c_conn c)
      else [])"

abbreviation maxSessionTicketLifetime :: int where "maxSessionTicketLifetime \<equiv> 7 * 24 * 3600 * 1000000000"

definition refuseTicket :: "Conn \<Rightarrow> u8 \<Rightarrow> string \<Rightarrow> (goerror option \<times> Conn) option" where
  "refuseTicket c a text = map_option (\<lambda>(_, c). (Some (ErrorsNew text), c)) (sendAlert c a)"

definition handleNewSessionTicket :: "('b, 'x) cryptobyte_scheme \<Rightarrow> suiteParams \<Rightarrow> int \<Rightarrow> Conn \<Rightarrow>
    newSessionTicketMsgTLS13 \<Rightarrow> (goerror option \<times> Conn) option" where
  "handleNewSessionTicket C P now c msg =
     (if \<not> c_isClient c
      then refuseTicket c alertUnexpectedMessage ''tls: received new session ticket from a client''
      else if cfg_SessionTicketsDisabled (c_config c) \<or> c_ClientSessionCache c = None then Some (None, c)
      else if nst13_lifetime msg = 0 then Some (None, c)
      else let lifetime = int (unat (nst13_lifetime msg)) * 1000000000 in
      if lifetime > maxSessionTicketLifetime
      then refuseTicket c alertIllegalParameter ''tls: received a session ticket with invalid lifetime''
      else if length (nst13_label msg) = 0
      then refuseTicket c alertDecodeError ''tls: received a session ticket with empty opaque ticket label''
      else if c_quic c \<noteq> None \<and> nst13_maxEarlyData msg \<noteq> 0 \<and> nst13_maxEarlyData msg \<noteq> 0xffffffff
      then refuseTicket c alertIllegalParameter ''tls: invalid early data for QUIC connection''
      else case (cipherSuiteTLS13ByID P (c_cipherSuite c), c_resumptionSecret c) of
             (Some suite, Some resumptionSecret) \<Rightarrow>
               (case expandLabel C (cs13_hash suite) resumptionSecret ''resumption'' (nst13_nonce msg) (h_Size (cs13_hash suite)) of
                  None \<Rightarrow> None
                | Some psk \<Rightarrow>
                    (let session = (conn_sessionState now c)\<lparr>sn_secret := psk, sn_useBy := unixSeconds (now + lifetime),
                           sn_ageAdd := nst13_ageAdd msg,
                           sn_EarlyData := (c_quic c \<noteq> None \<and> nst13_maxEarlyData msg = 0xffffffff),
                           sn_ticket := nst13_label msg\<rparr>
                     in if (case c_quic c of Some q \<Rightarrow> qs_enableSessionEvents q | None \<Rightarrow> False)
                        then Some (None, quicStoreSession c session)
                        else let cacheKey = clientSessionCacheKey c
                             in if cacheKey \<noteq> []
                                then map_option (\<lambda>cache. (None, c\<lparr>c_ClientSessionCache := Some cache\<rparr>))
                                       (lru_Put (the (c_ClientSessionCache c)) cacheKey (Some (Some session)))
                                else Some (None, c)))
           | _ \<Rightarrow> sendAlert c alertInternalError)"

definition handleKeyUpdate :: "('b, 'x) cryptobyte_scheme \<Rightarrow> suiteParams \<Rightarrow> Conn \<Rightarrow> keyUpdateMsg \<Rightarrow>
    (goerror option \<times> Conn) option" where
  "handleKeyUpdate C P c keyUpdate =
     (if c_quic c \<noteq> None
      then map_option (\<lambda>(_, c). in_setError c (Some (ErrorsNew ''tls: received unexpected key update message'')))
             (sendAlert c alertUnexpectedMessage)
      else case cipherSuiteTLS13ByID P (c_cipherSuite c) of
        None \<Rightarrow> latchAlert c alertInternalError
      | Some suite \<Rightarrow>
          (let readKeys = (\<lambda>c. case nextTrafficSecret C suite (hc_trafficSecret (c_in c)) of
                 None \<Rightarrow> None
               | Some newSecret \<Rightarrow>
                   setReadTrafficSecret C c suite QUICEncryptionLevelInitial newSecret (updateRequested keyUpdate))
           in if updateRequested keyUpdate
              then case keyUpdateMsg_marshal C \<lparr>updateRequested = False\<rparr> of
                     Inl e \<Rightarrow> Some (Some e, c)
                   | Inr msgBytes \<Rightarrow>
                       (case writeRecordLocked c recordTypeHandshake msgBytes of
                          None \<Rightarrow> None
                        | Some ((_, Some e), c) \<Rightarrow> Some (None, snd (out_setError c (Some e)))
                        | Some ((_, None), c) \<Rightarrow>
                            (case nextTrafficSecret C suite (hc_trafficSecret (c_out c)) of
                               None \<Rightarrow> None
                             | Some newSecret \<Rightarrow>
                                 (case setWriteTrafficSecret C c suite QUICEncryptionLevelInitial newSecret of
                                    None \<Rightarrow> None
                                  | Some c \<Rightarrow> readKeys c)))
              else readKeys c))"

type_synonym handshakeFn = "Conn \<Rightarrow> (goerror option \<times> Conn) option"

definition handleRenegotiation :: "('b, 'x) cryptobyte_scheme \<Rightarrow> handshakeFn \<Rightarrow> Conn \<Rightarrow> (goerror option \<times> Conn) option" where
  "handleRenegotiation C clientHandshake c =
     (if c_vers c = VersionTLS13 then Some (Some (ErrorsNew ''tls: internal error: unexpected renegotiation''), c)
      else case readHandshake C c None of
        None \<Rightarrow> None
      | Some (Inl e, c, _) \<Rightarrow> Some (e, c)
      | Some (Inr msg, c, _) \<Rightarrow>
          if msg \<noteq> HelloRequestM
          then map_option (\<lambda>(_, c). (Some (unexpectedMessageError ''*tls.helloRequestMsg'' msg), c)) (sendAlert c alertUnexpectedMessage)
          else if \<not> c_isClient c then sendAlert c alertNoRenegotiation
          else let renegotiate = (case clientHandshake (c\<lparr>c_isHandshakeComplete := False\<rparr>) of
                     None \<Rightarrow> None
                   | Some (e, c) \<Rightarrow>
                       Some (e, c\<lparr>c_handshakeErr := e, c_handshakes := (if e = None then c_handshakes c + 1 else c_handshakes c)\<rparr>))
          in case cfg_Renegotiation (c_config c) of
               RenegotiateNever \<Rightarrow> sendAlert c alertNoRenegotiation
             | RenegotiateOnceAsClient \<Rightarrow> if c_handshakes c > 1 then sendAlert c alertNoRenegotiation else renegotiate
             | RenegotiateFreelyAsClient \<Rightarrow> renegotiate
             | RenegotiateOther \<Rightarrow>
                 map_option (\<lambda>(_, c). (Some (ErrorsNew ''tls: unknown Renegotiation value''), c)) (sendAlert c alertInternalError))"

definition handlePostHandshakeMessage :: "('b, 'x) cryptobyte_scheme \<Rightarrow> suiteParams \<Rightarrow> int \<Rightarrow> handshakeFn \<Rightarrow> Conn \<Rightarrow>
    (goerror option \<times> Conn) option" where
  "handlePostHandshakeMessage C P now clientHandshake c =
     (if c_vers c \<noteq> VersionTLS13 then handleRenegotiation C clientHandshake c
      else case readHandshake C c None of
        None \<Rightarrow> None
      | Some (Inl e, c, _) \<Rightarrow> Some (e, c)
      | Some (Inr msg, c, _) \<Rightarrow>
          (let c = c\<lparr>c_retryCount := c_retryCount c + 1\<rparr> in
           if c_retryCount c > maxUselessRecords
           then map_option (\<lambda>(_, c). in_setError c (Some (ErrorsNew ''tls: too many non-advancing records'')))
                  (sendAlert c alertUnexpectedMessage)
           else case msg of
                  NewSessionTicketTLS13M m \<Rightarrow> handleNewSessionTicket C P now c m
                | KeyUpdateM m \<Rightarrow> handleKeyUpdate C P c m
                | _ \<Rightarrow> map_option (\<lambda>(_, c). (Some (ErrorsNew
                     (''tls: received unexpected handshake message of type '' @ messageType msg)), c))
                     (sendAlert c alertUnexpectedMessage)))"

section \<open>Handshake, Read, Write and Close\<close>

text \<open>The alert in the chain of an error, \<open>errors.AsType[alert]\<close>.\<close>

fun asAlert :: "goerror \<Rightarrow> u8 option" where
  "asAlert (AlertErr a) = Some a"
| "asAlert (OpError _ a) = Some a"
| "asAlert (PermanentError e) = asAlert e"
| "asAlert (WrapError _ e) = asAlert e"
| "asAlert (WithAlertError e _) = asAlert e"
| "asAlert (CertificateVerificationError _ e) = asAlert e"
| "asAlert _ = None"

definition handshakeContext :: "handshakeFn \<Rightarrow> Conn \<Rightarrow> (goerror option \<times> Conn) option" where
  "handshakeContext fn c =
     (if c_isHandshakeComplete c then Some (None, c)
      else case c_handshakeErr c of
        Some err \<Rightarrow> Some (Some err, c)
      | None \<Rightarrow>
          (case fn c of
             None \<Rightarrow> None
           | Some (e, c) \<Rightarrow>
               (let c = (if e = None then c\<lparr>c_handshakes := c_handshakes c + 1\<rparr> else snd (conn_flush c));
                    e = (if e = None \<and> \<not> c_isHandshakeComplete c
                         then Some (ErrorsNew ''tls: internal error: handshake should have had a result'') else e);
                    c = c\<lparr>c_handshakeErr := e\<rparr>
                in if e \<noteq> None \<and> c_isHandshakeComplete c then None
                   else case c_quic c of
                     None \<Rightarrow> Some (e, c)
                   | Some q \<Rightarrow>
                       (case e of
                          None \<Rightarrow>
                            (case quicSetReadSecret (quicHandshakeComplete c) QUICEncryptionLevelApplication (c_cipherSuite c)
                                    (hc_trafficSecret (c_in c)) of
                               None \<Rightarrow> None
                             | Some (Some err, c) \<Rightarrow> Some (Some err, c)
                             | Some (None, c) \<Rightarrow> Some (None, c))
                        | Some err \<Rightarrow>
                            (let a = (case hc_err (c_out c) of
                                   None \<Rightarrow> alertInternalError
                                 | Some oe \<Rightarrow> (case asAlert oe of Some a \<Rightarrow> a | None \<Rightarrow> alertInternalError));
                                 err = WithAlertError err a
                             in Some (Some err, c\<lparr>c_handshakeErr := Some err\<rparr>))))))"

definition netErrClosed :: goerror where
  "netErrClosed = ErrorsNew ''use of closed network connection''"

definition Conn_Write :: "handshakeFn \<Rightarrow> Conn \<Rightarrow> bytes \<Rightarrow> ((nat \<times> goerror option) \<times> Conn) option" where
  "Conn_Write fn c b =
     (let x = c_activeCall c in
      if and x 1 \<noteq> 0 then Some ((0, Some netErrClosed), c)
      else map_option (\<lambda>(r, c). (r, c\<lparr>c_activeCall := c_activeCall c - 2\<rparr>))
        (case handshakeContext fn (c\<lparr>c_activeCall := x + 2\<rparr>) of
           None \<Rightarrow> None
         | Some (Some err, c) \<Rightarrow> Some ((0, Some err), c)
         | Some (None, c) \<Rightarrow> writeAppData c b))"

definition conn_Close :: "Conn \<Rightarrow> goerror option \<times> Conn" where
  "conn_Close c = (nc_closeErr (c_conn c), c\<lparr>c_conn := (c_conn c)\<lparr>nc_closed := True\<rparr>\<rparr>)"

definition Conn_Close :: "Conn \<Rightarrow> (goerror option \<times> Conn) option" where
  "Conn_Close c =
     (let x = c_activeCall c in
      if and x 1 \<noteq> 0 then Some (Some netErrClosed, c)
      else let c = c\<lparr>c_activeCall := or x 1\<rparr> in
      if x \<noteq> 0 then Some (conn_Close c)
      else case (if c_isHandshakeComplete c then closeNotify c else Some (None, c)) of
             None \<Rightarrow> None
           | Some (err, c) \<Rightarrow>
               (let alertErr = map_option (WrapError ''tls: failed to send closeNotify alert (but connection was closed anyway)'') err
                in case conn_Close c of
                     (Some e, c) \<Rightarrow> Some (Some e, c)
                   | (None, c) \<Rightarrow> Some (alertErr, c)))"

partial_function (option) postHandshakeLoop :: "('b, 'x) cryptobyte_scheme \<Rightarrow> suiteParams \<Rightarrow> int \<Rightarrow> handshakeFn \<Rightarrow> Conn \<Rightarrow>
    (goerror option \<times> Conn) option" where
  "postHandshakeLoop C P now fn c =
     (if length (c_hand c) > 0
      then case handlePostHandshakeMessage C P now fn c of
             None \<Rightarrow> None
           | Some (e, c) \<Rightarrow> (case e of Some err \<Rightarrow> Some (Some err, c) | None \<Rightarrow> postHandshakeLoop C P now fn c)
      else Some (None, c))"

partial_function (option) readLoop :: "('b, 'x) cryptobyte_scheme \<Rightarrow> suiteParams \<Rightarrow> int \<Rightarrow> handshakeFn \<Rightarrow> Conn \<Rightarrow>
    (goerror option \<times> Conn) option" where
  "readLoop C P now fn c =
     (if length (c_input c) = 0
      then case readRecord c of
             None \<Rightarrow> None
           | Some (e, c) \<Rightarrow> (case e of
                 Some err \<Rightarrow> Some (Some err, c)
               | None \<Rightarrow>
                   (case postHandshakeLoop C P now fn c of
                      None \<Rightarrow> None
                    | Some (e, c) \<Rightarrow> (case e of Some err \<Rightarrow> Some (Some err, c) | None \<Rightarrow> readLoop C P now fn c)))
      else Some (None, c))"

text \<open>\<open>Read\<close> into a buffer of \<open>n\<close> bytes: what it fills in, its error, and the connection.\<close>

definition Conn_Read :: "('b, 'x) cryptobyte_scheme \<Rightarrow> suiteParams \<Rightarrow> int \<Rightarrow> handshakeFn \<Rightarrow> Conn \<Rightarrow> nat \<Rightarrow>
    ((bytes \<times> goerror option) \<times> Conn) option" where
  "Conn_Read C P now fn c n =
     (case handshakeContext fn c of
        None \<Rightarrow> None
      | Some (Some err, c) \<Rightarrow> Some (([], Some err), c)
      | Some (None, c) \<Rightarrow>
          if n = 0 then Some (([], None), c)
          else (case readLoop C P now fn c of
             None \<Rightarrow> None
           | Some (Some err, c) \<Rightarrow> Some (([], Some err), c)
           | Some (None, c) \<Rightarrow>
               (let b = take n (c_input c); c = c\<lparr>c_input := drop n (c_input c)\<rparr>
                in if length b \<noteq> 0 \<and> length (c_input c) = 0 \<and> length (c_rawInput c) > 0 \<and>
                      c_rawInput c ! 0 = recordTypeAlert
                   then map_option (\<lambda>(err, c). ((b, err), c)) (readRecord c)
                   else Some ((b, None), c))))"

end
