(* ===== verification/Delivery.thy ===== *)
theory Delivery
  imports HandshakeIO
begin

text \<open>
  Both directions of a connection put together: what \<open>writeHandshakeRecord\<close> sends, \<open>readHandshake\<close> at the
  paired other end returns, and both ends write the same string to their transcripts.
\<close>

section \<open>The shape of a protected record\<close>

definition framed :: "u16 \<Rightarrow> bytes \<Rightarrow> bool" where
  "framed vers r \<longleftrightarrow> (\<exists>t body. t \<noteq> 0x80 \<and> t \<noteq> recordTypeAlert \<and> length body \<le> maxCiphertextTLS13 \<and>
     r = [t, ucast (drop_bit 8 vers), ucast vers] @ lenBytes (int (length body)) @ body)"

text \<open>An outgoing half with an AEAD whose records fit the limit of TLS 1.3.\<close>

definition aead_ready :: "halfConn \<Rightarrow> bool" where
  "aead_ready hc \<longleftrightarrow> length (hc_seq hc) = 8 \<and>
     (\<exists>a. hc_cipher hc = Some (Aead a) \<and> aead_wf a \<and> aead_Overhead a \<le> 200)"

lemma aead_Seal_length:
  assumes "aead_wf a" and "aead_Seal a nonce p ad = Some (ct, a1)"
  shows "length ct = length p + aead_Overhead a"
  using assms by (cases a) (auto simp: aead_wf_def cipherAEAD_ok_def Let_def bind_eq_Some_conv)

lemma hc_sealCipher_framed:
  assumes wf: "aead_wf a" "aead_Overhead a \<le> 200" and sq: "length (hc_seq hc) = 8"
    and en: "en = [] \<or> length en = 8" and p: "length p \<le> maxPlaintext"
    and seal: "hc_sealCipher hc (Aead a) ([t, b1, b2] @ lenBytes m) en p = Some (r, hc1)"
  obtains t' l body a1 where "r = [t', b1, b2] @ lenBytes l @ body" and "t' \<in> {t, recordTypeApplicationData}"
    and "length body \<le> maxCiphertextTLS13" and "hc1 = hc\<lparr>hc_cipher := Some (Aead a1)\<rparr>" and "aead_wf a1"
    and "aead_Overhead a1 = aead_Overhead a"
proof -
  define nonce where "nonce = (if length en = 0 then hc_seq hc else en)"
  have "length nonce = 8" using en sq by (auto simp: nonce_def)
  note ok = aead_wf_Seal [OF wf(1) this]
  show ?thesis
  proof (cases "hc_version hc = VersionTLS13")
    case True
    let ?hd = "[recordTypeApplicationData, b1, b2] @ lenBytes (int (length p + 1 + aead_Overhead a))"
    obtain ct a1 where s: "aead_Seal a nonce (en @ p @ [t]) ?hd = Some (ct, a1)" "aead_wf a1"
      "aead_Overhead a1 = aead_Overhead a" by (rule ok)
    then have "r = ?hd @ ct" "hc1 = hc\<lparr>hc_cipher := Some (Aead a1)\<rparr>"
      using True seal by (auto simp: hc_sealCipher_def nonce_def Let_def)
    then show ?thesis using that [of recordTypeApplicationData _ ct a1] s aead_Seal_length [OF wf(1) s(1)] wf(2) en p
      by auto
  next
    case False
    obtain ct a1 where s: "aead_Seal a nonce p (hc_seq hc @ [t, b1, b2] @ lenBytes m) = Some (ct, a1)" "aead_wf a1"
      "aead_Overhead a1 = aead_Overhead a" by (rule ok)
    then have "r = [t, b1, b2] @ lenBytes m @ en @ ct" "hc1 = hc\<lparr>hc_cipher := Some (Aead a1)\<rparr>"
      using False seal by (auto simp: hc_sealCipher_def nonce_def Let_def)
    then show ?thesis using that [of t m "en @ ct" a1] s aead_Seal_length [OF wf(1) s(1)] wf(2) en p
      by auto
  qed
qed

lemma hc_encrypt_framed:
  assumes "aead_ready hc" and p: "length p \<le> maxPlaintext" and t: "t \<noteq> 0x80" "t \<noteq> recordTypeAlert"
    and enc: "hc_encrypt hc ([t, ucast (drop_bit 8 vers), ucast vers] @ lenBytes m) p rand = Some (Inr r, hc', rand')"
  shows "framed vers r \<and> aead_ready hc'"
proof -
  obtain a where a: "hc_cipher hc = Some (Aead a)" "aead_wf a" "aead_Overhead a \<le> 200" and sq: "length (hc_seq hc) = 8"
    using assms(1) by (auto simp: aead_ready_def)
  obtain en where en: "hc_explicitNonce hc rand = Inr (en, rand)" "en = [] \<or> length en = 8"
    using hc_explicitNonce_aead [OF a(1) sq] by blast
  from enc a en obtain r0 hc1 where
    seal: "hc_sealCipher hc (Aead a) ([t, ucast (drop_bit 8 vers), ucast vers] @ lenBytes m) en p = Some (r0, hc1)"
    and r: "r = take 3 r0 @ lenBytes (int (length r0 - 5)) @ drop 5 r0" and hc': "hc_incSeq hc1 = Some hc'"
    by (auto simp: hc_encrypt_def Let_def split: option.splits)
  obtain t' l body a1 where s: "r0 = [t', ucast (drop_bit 8 vers), ucast vers] @ lenBytes l @ body"
    "t' \<in> {t, recordTypeApplicationData}" "length body \<le> maxCiphertextTLS13" "hc1 = hc\<lparr>hc_cipher := Some (Aead a1)\<rparr>"
    "aead_wf a1" "aead_Overhead a1 = aead_Overhead a"
    by (rule hc_sealCipher_framed [OF a(2,3) sq en(2) p seal])
  have "framed vers r" unfolding framed_def r s(1) using s(2,3) t
    by (intro exI [of _ t'] exI [of _ body]) (auto simp: lenBytes_def)
  moreover have "aead_ready hc'"
    using hc_incSeq_frame [OF hc'] hc_incSeq_length [OF hc'] s(4-6) sq a(3) by (simp add: aead_ready_def)
  ultimately show ?thesis by blast
qed

lemma send_all_framed:
  assumes "aead_ready hc" and "\<forall>f\<in>set frags. length f \<le> maxPlaintext" and "t \<noteq> 0x80" and "t \<noteq> recordTypeAlert"
    and "send_all (rl_send (ucast (drop_bit 8 vers)) (ucast vers)) (hc, rand) (map (Pair t) frags) = Some (rs, out)"
  shows "\<forall>r\<in>set rs. framed vers r"
  using assms
proof (induction frags arbitrary: hc rand rs)
  case (Cons f frags)
  then obtain r hc1 rand1 rs1 where
    enc: "hc_encrypt hc ([t, ucast (drop_bit 8 vers), ucast vers] @ lenBytes (int (length f))) f rand = Some (Inr r, hc1, rand1)"
    and rest: "send_all (rl_send (ucast (drop_bit 8 vers)) (ucast vers)) (hc1, rand1) (map (Pair t) frags) = Some (rs1, out)"
    and rs: "rs = r # rs1"
    by (auto simp: bind_eq_Some_conv rl_send_def split: option.splits sum.splits)
  have "framed vers r \<and> aead_ready hc1"
    by (rule hc_encrypt_framed [OF Cons.prems(1) _ Cons.prems(3,4) enc]) (use Cons.prems(2) in simp)
  then show ?case using Cons.IH [OF _ _ Cons.prems(3,4) rest] Cons.prems(2) rs by simp
qed simp

section \<open>Reading one record\<close>

lemma hc_openCipher_err:
  "hc_openCipher hc c r payload = Some (x, hc1) \<Longrightarrow> hc_err hc1 = hc_err hc \<and> hc_trafficSecret hc1 = hc_trafficSecret hc \<and> (hc_cipher hc \<noteq> None \<longrightarrow> hc_cipher hc1 \<noteq> None)"
  by (auto simp: hc_openCipher_def Let_def bind_eq_Some_conv split_beta split: recordCipher.splits option.splits if_splits)

lemma hc_openRecord_err:
  assumes "hc_openRecord hc r = Some (x, hc1)"
  shows "hc_err hc1 = hc_err hc \<and> hc_trafficSecret hc1 = hc_trafficSecret hc \<and> (hc_cipher hc \<noteq> None \<longrightarrow> hc_cipher hc1 \<noteq> None)"
proof (cases "hc_cipher hc")
  case None
  then show ?thesis using assms by (auto simp: hc_openRecord_def Let_def)
next
  case (Some c)
  with assms obtain y where "hc_openCipher hc c r (drop recordHeaderLen r) = Some (y, hc1)"
    by (auto simp: hc_openRecord_def Let_def split: option.splits sum.splits if_splits)
  then show ?thesis by (rule hc_openCipher_err)
qed

lemma hc_decrypt_err:
  assumes "hc_decrypt hc r = Some (Inr (d, t), hc')"
  shows "hc_err hc' = hc_err hc \<and> hc_trafficSecret hc' = hc_trafficSecret hc \<and> (hc_cipher hc \<noteq> None \<longrightarrow> hc_cipher hc' \<noteq> None)"
proof (cases "hc_version hc = VersionTLS13 \<and> r ! 0 = recordTypeChangeCipherSpec")
  case True
  then show ?thesis using assms by (auto simp: hc_decrypt_def split: if_splits)
next
  case False
  with assms obtain y hc1 where "hc_openRecord hc r = Some (y, hc1)" "hc_incSeq hc1 = Some hc'"
    by (auto simp: hc_decrypt_def split: if_splits option.splits sum.splits)
  then show ?thesis using hc_openRecord_err [of hc r y hc1] by (auto simp: hc_incSeq_def)
qed

lemma lenBytes_value:
  assumes "n < 65536"
  shows "unat (word_of_int (drop_bit 8 (int n)) :: u8) * 256 + unat (word_of_int (int n) :: u8) = n"
proof -
  have "drop_bit 8 (int n) = int (drop_bit 8 n)" by (simp add: drop_bit_of_nat)
  then have "lenBytes (int n) = be 2 n" by (simp add: lenBytes_def be_2)
  moreover have "unbe (be 2 n) = n" by (rule unbe_be_small) (use assms in simp)
  ultimately have "unbe (lenBytes (int n)) = n" by simp
  then show ?thesis by (simp only: lenBytes_def unbe_2)
qed

lemma uint16_bytes: "uint16 (ucast (drop_bit 8 v)) (ucast v) = v"
  by (rule bit_word_eqI) (auto simp: uint16_def bit_simps)

text \<open>The end that reads: a TLS connection after version negotiation, without an error or pending data.\<close>

definition receiving :: "Conn \<Rightarrow> bool" where
  "receiving c \<longleftrightarrow> c_quic c = None \<and> c_haveVers c \<and> c_vers c \<noteq> 0 \<and> hc_err (c_in c) = None \<and> c_input c = []"

lemma readRecordStep_framed:
  assumes rc: "receiving c" and raw: "c_rawInput c = r @ rest" and fr: "framed (recordVers c) r"
  shows "readRecordStep c ex = readRecord_process c (length r - 5) ex (c_isHandshakeComplete c)"
proof -
  obtain t body where t: "t \<noteq> 0x80" and len: "length body \<le> maxCiphertextTLS13"
    and r: "r = [t, ucast (drop_bit 8 (recordVers c)), ucast (recordVers c)] @ lenBytes (int (length body)) @ body"
    using fr by (auto simp: framed_def)
  have n: "length r = 5 + length body" by (simp add: r)
  have v: "(if c_vers c = VersionTLS13 then VersionTLS12 else c_vers c) = recordVers c"
    using rc by (simp add: recordVers_def receiving_def)
  have raw5: "take 5 (c_rawInput c) = [t, ucast (drop_bit 8 (recordVers c)), ucast (recordVers c),
      word_of_int (drop_bit 8 (int (length body))), word_of_int (int (length body))]"
    by (simp add: raw r lenBytes_def)
  have "readFromUntil c (recordHeaderLen + length body) = (None, c)" using n raw by (simp add: readFromUntil_def)
  then have "readRecord_header c ex (c_isHandshakeComplete c) =
      readRecord_process c (length body) ex (c_isHandshakeComplete c)"
    using rc t len lenBytes_value [of "length body"] unfolding readRecord_header_def raw5 Let_def v
    by (simp add: receiving_def uint16_bytes)
  moreover have "readFromUntil c recordHeaderLen = (None, c)" using n raw by (simp add: readFromUntil_def)
  ultimately show ?thesis using rc n by (simp add: readRecordStep_def receiving_def)
qed

text \<open>What the record of a handshake fragment or of application data does.\<close>

definition read_into :: "Conn \<Rightarrow> u8 \<Rightarrow> bytes \<Rightarrow> Conn" where
  "read_into c t f = (if t = recordTypeHandshake then c\<lparr>c_hand := c_hand c @ f\<rparr> else c\<lparr>c_input := f\<rparr>)"

text \<open>Application data needs a protected record behind the handshake and no half-read message.\<close>

definition accepts :: "u8 \<Rightarrow> Conn \<Rightarrow> bool" where
  "accepts t c \<longleftrightarrow> t = recordTypeHandshake \<or>
     t = recordTypeApplicationData \<and> c_isHandshakeComplete c \<and> c_hand c = [] \<and> hc_cipher (c_in c) \<noteq> None"

lemma readRecord_framed:
  assumes rc: "receiving c" and raw: "c_rawInput c = r @ rest" and fr: "framed (recordVers c) r" and acc: "accepts t c"
    and dec: "rl_receive (c_in c) r = Some ((t, f), hin)" and f: "f \<noteq> []" "length f \<le> maxPlaintext"
  shows "readRecord c = Some (None, read_into (c\<lparr>c_rawInput := rest, c_in := hin, c_retryCount := 0\<rparr>) t f)"
proof -
  have d: "hc_decrypt (c_in c) r = Some (Inr (f, t), hin)"
    using dec by (auto simp: rl_receive_def split: option.splits sum.splits)
  have n: "5 + (length r - 5) = length r" using fr by (auto simp: framed_def)
  have "readRecordStep c False = Some (RRDone None, read_into (c\<lparr>c_rawInput := rest, c_in := hin, c_retryCount := 0\<rparr>) t f)"
    unfolding readRecordStep_framed [OF rc raw fr] using d f raw acc hc_decrypt_err [OF d]
    by (auto simp: readRecord_process_def n Let_def resetRetry_def readRecord_switch_def readRecord_handshake_def
        readRecord_appData_def accepts_def read_into_def)
  then show ?thesis by (simp add: readRecord_def readRecordOrCCS.simps)
qed

section \<open>Collecting the bytes of a message\<close>

text \<open>
  The raw input of \<open>c\<close> starts with records that its incoming half unprotects to the fragments \<open>frags\<close> of type \<open>t\<close>, leaving it in state \<open>i\<close>, behind which \<open>rest\<close> follows.
\<close>

definition inflight :: "u8 \<Rightarrow> Conn \<Rightarrow> bytes list \<Rightarrow> bytes \<Rightarrow> halfConn \<Rightarrow> bool" where
  "inflight t c frags rest i \<longleftrightarrow> receiving c \<and> (\<forall>f\<in>set frags. f \<noteq> [] \<and> length f \<le> maxPlaintext) \<and>
     (\<exists>rs. c_rawInput c = concat rs @ rest \<and> (\<forall>r\<in>set rs. framed (recordVers c) r) \<and>
       send_all rl_receive (c_in c) rs = Some (map (Pair t) frags, i))"

lemma inflight_hand [simp]: "inflight t (c\<lparr>c_hand := h\<rparr>) frags rest i = inflight t c frags rest i"
  by (simp add: inflight_def receiving_def recordVers_def)

text \<open>The reads change nothing else that a caller looks at.\<close>

definition same_session :: "Conn \<Rightarrow> Conn \<Rightarrow> bool" where
  "same_session c c' \<longleftrightarrow> c_vers c' = c_vers c \<and> c_haveVers c' = c_haveVers c \<and> c_quic c' = c_quic c \<and>
     c_isHandshakeComplete c' = c_isHandshakeComplete c \<and> c_conn c' = c_conn c \<and> c_out c' = c_out c \<and>
     c_cipherSuite c' = c_cipherSuite c"

lemma inflight_Cons:
  assumes "inflight t c (f # frags) rest i" and acc: "accepts t c"
  obtains c1 hin where "readRecord c = Some (None, read_into c1 t f)" and "inflight t c1 frags rest i" and "c_hand c1 = c_hand c"
    and "same_session c c1" and "accepts t c1"
proof -
  obtain r rs hin where rc: "receiving c" and f: "\<forall>f\<in>set (f # frags). f \<noteq> [] \<and> length f \<le> maxPlaintext"
    and raw: "c_rawInput c = r @ concat rs @ rest" and fr: "framed (recordVers c) r" "\<forall>r\<in>set rs. framed (recordVers c) r"
    and dec: "rl_receive (c_in c) r = Some ((t, f), hin)"
    and rest: "send_all rl_receive hin rs = Some (map (Pair t) frags, i)"
  proof -
    from assms obtain rs0 where a: "receiving c" "\<forall>f\<in>set (f # frags). f \<noteq> [] \<and> length f \<le> maxPlaintext"
      "c_rawInput c = concat rs0 @ rest" "\<forall>r\<in>set rs0. framed (recordVers c) r"
      "send_all rl_receive (c_in c) rs0 = Some (map (Pair t) (f # frags), i)"
      by (auto simp: inflight_def)
    then obtain r rs where "rs0 = r # rs" by (cases rs0) auto
    then show ?thesis using a that [of r rs] by (auto simp: bind_eq_Some_conv)
  qed
  let ?c = "c\<lparr>c_rawInput := concat rs @ rest, c_in := hin, c_retryCount := 0\<rparr>"
  have read: "readRecord c = Some (None, read_into ?c t f)"
    by (rule readRecord_framed [OF rc raw fr(1) acc dec]) (use f in simp_all)
  have hin: "hc_err hin = None" "hc_cipher (c_in c) \<noteq> None \<longrightarrow> hc_cipher hin \<noteq> None"
    using dec rc hc_decrypt_err [of "c_in c" r f t hin]
    by (auto simp: rl_receive_def receiving_def split: option.splits sum.splits)
  moreover have "recordVers ?c = recordVers c" by (simp add: recordVers_def)
  ultimately have "inflight t ?c frags rest i" using rc f fr(2) rest unfolding inflight_def
    by (intro conjI exI [of _ rs]) (simp_all add: receiving_def)
  then show ?thesis using read hin(2) acc by (intro that [of ?c]) (auto simp: same_session_def accepts_def)
qed

lemma readHandshakeRecords_inflight:
  assumes "inflight recordTypeHandshake c frags rest i" and "n \<le> length (c_hand c @ concat frags)"
  shows "\<exists>c' frags'. readHandshakeRecords c n = Some (None, c') \<and> inflight recordTypeHandshake c' frags' rest i \<and> n \<le> length (c_hand c') \<and>
    c_hand c' @ concat frags' = c_hand c @ concat frags \<and> same_session c c'"
  using assms
proof (induction frags arbitrary: c)
  case Nil
  then show ?case by (intro exI [of _ c] exI [of _ "[]"]) (simp add: readHandshakeRecords.simps same_session_def)
next
  case (Cons f frags)
  show ?case
  proof (cases "n \<le> length (c_hand c)")
    case True
    then show ?thesis using Cons.prems
      by (intro exI [of _ c] exI [of _ "f # frags"]) (simp add: readHandshakeRecords.simps same_session_def)
  next
    case False
    obtain c0 where c0: "readRecord c = Some (None, read_into c0 recordTypeHandshake f)"
      "inflight recordTypeHandshake c0 frags rest i" "c_hand c0 = c_hand c" "same_session c c0"
      by (rule inflight_Cons [OF Cons.prems(1)]) (simp add: accepts_def)
    define c1 where "c1 = c0\<lparr>c_hand := c_hand c @ f\<rparr>"
    have c1: "readRecord c = Some (None, c1)" "inflight recordTypeHandshake c1 frags rest i" "c_hand c1 = c_hand c @ f"
      "same_session c c1"
      using c0 by (simp_all add: c1_def read_into_def same_session_def)
    obtain c' frags' where "readHandshakeRecords c1 n = Some (None, c')" "inflight recordTypeHandshake c' frags' rest i" "n \<le> length (c_hand c')"
      "c_hand c' @ concat frags' = c_hand c1 @ concat frags" "same_session c1 c'"
      using Cons.IH [OF c1(2)] Cons.prems(2) c1(3) by auto
    then show ?thesis using c1 False
      by (intro exI [of _ c'] exI [of _ frags']) (simp add: readHandshakeRecords.simps [of c] same_session_def)
  qed
qed

lemma inflight_none: "inflight t c frags rest i \<Longrightarrow> concat frags = [] \<Longrightarrow> frags = [] \<and> c_rawInput c = rest \<and> c_in c = i"
proof -
  assume i: "inflight t c frags rest i" and "concat frags = []"
  then have "frags = []" by (cases frags) (auto simp: inflight_def)
  moreover from this i obtain rs where "c_rawInput c = concat rs @ rest" "send_all rl_receive (c_in c) rs = Some ([], i)"
    by (auto simp: inflight_def)
  then have "c_rawInput c = rest \<and> c_in c = i" by (cases rs) (auto simp: bind_eq_Some_conv)
  ultimately show ?thesis by simp
qed

text \<open>A handshake message on the wire.\<close>

definition msg_frame :: "bytes \<Rightarrow> bool" where
  "msg_frame data \<longleftrightarrow> (\<exists>t body. data = t # lp24 body \<and> length body < 2 ^ 24)"

abbreviation sizeLimit :: "bytes \<Rightarrow> nat" where
  "sizeLimit data \<equiv> (if data ! 0 = typeCertificate then maxHandshakeCertificateMsg else maxHandshake)"

lemma readHandshake_inflight:
  assumes fl: "inflight recordTypeHandshake c frags rest i" and hand: "c_hand c = []" and data: "concat frags = data" "msg_frame data"
    and size: "length data \<le> 4 + sizeLimit data"
  shows "\<exists>c'. readHandshake C c tr = unmarshalHandshakeMessage C c' data tr \<and> c_hand c' = [] \<and> c_rawInput c' = rest \<and>
    receiving c' \<and> c_in c' = i \<and> same_session c c'"
proof -
  obtain t body where b: "data = t # lp24 body" "length body < 2 ^ 24" using data(2) by (auto simp: msg_frame_def)
  have q: "c_quic c = None" "c_haveVers c" using fl by (auto simp: inflight_def receiving_def)
  obtain c1 frags1 where c1: "readHandshakeRecords c 4 = Some (None, c1)" "inflight recordTypeHandshake c1 frags1 rest i" "4 \<le> length (c_hand c1)"
    "c_hand c1 @ concat frags1 = data" "same_session c c1"
    using readHandshakeRecords_inflight [OF fl, of 4] hand data(1) b(1) by auto
  have hd4: "take 4 (c_hand c1) = t # be 3 (length body)"
  proof -
    have "take 4 (c_hand c1) = take 4 data" using c1(3) by (simp add: c1(4) [symmetric])
    then show ?thesis by (simp add: b(1) lp24_def)
  qed
  have nth: "c_hand c1 ! i = (t # be 3 (length body)) ! i" if "i < 4" for i
    using that hd4 by (metis nth_take)
  have n: "int24 (c_hand c1 ! 1) (c_hand c1 ! 2) (c_hand c1 ! 3) = length body"
  proof -
    have "unbe (be 3 (length body)) = length body" by (rule unbe_be_small) (use b(2) in simp)
    then show ?thesis by (simp add: int24_unbe nth be_3)
  qed
  have t: "c_hand c1 ! 0 = data ! 0" by (simp add: nth b(1))
  have q1: "c_quic c1 = None" "c_haveVers c1" using q c1(5) by (simp_all add: same_session_def)
  obtain c2 frags2 where c2: "readHandshakeRecords c1 (4 + length body) = Some (None, c2)" "inflight recordTypeHandshake c2 frags2 rest i"
    "4 + length body \<le> length (c_hand c2)" "c_hand c2 @ concat frags2 = data" "same_session c1 c2"
    using readHandshakeRecords_inflight [OF c1(2), of "4 + length body"] c1(4) b(1) by auto
  have len: "length data = 4 + length body" by (simp add: b(1))
  then have "concat frags2 = []" "c_hand c2 = data"
    using c2(3,4) by (metis add_le_same_cancel1 le_zero_eq length_0_conv length_append, metis append_eq_conv_conj append_take_drop_id take_all c2(3,4) len)
  then have rest: "c_rawInput c2 = rest" "c_in c2 = i" using inflight_none [OF c2(2)] by simp_all
  have "readHandshake C c tr = unmarshalHandshakeMessage C (c2\<lparr>c_hand := []\<rparr>) data tr"
    using q q1 c1(1) c2(1) size len \<open>c_hand c2 = data\<close>
    by (simp add: readHandshake_def readHandshakeBytes_def Let_def n [simplified] t)
  moreover have "receiving (c2\<lparr>c_hand := []\<rparr>)" using c2(2) by (simp add: inflight_def receiving_def)
  moreover have "same_session c (c2\<lparr>c_hand := []\<rparr>)" using c1(5) c2(5) by (simp add: same_session_def)
  ultimately show ?thesis using rest by (intro exI [of _ "c2\<lparr>c_hand := []\<rparr>"]) simp
qed

text \<open>Neither direction touches the traffic secret, nor does sending change the version.\<close>

lemma rl_receive_secret: "rl_receive i r = Some (m, i') \<Longrightarrow> hc_trafficSecret i' = hc_trafficSecret i"
  using hc_decrypt_err [of i r] by (auto simp: rl_receive_def split: option.splits sum.splits)

lemma send_all_receive_secret:
  "send_all rl_receive i rs = Some (ms, i') \<Longrightarrow> hc_trafficSecret i' = hc_trafficSecret i"
proof (induction rs arbitrary: i ms)
  case (Cons r rs)
  then obtain m i1 ms1 where "rl_receive i r = Some (m, i1)" "send_all rl_receive i1 rs = Some (ms1, i')"
    by (auto simp: bind_eq_Some_conv)
  then show ?case using Cons.IH rl_receive_secret by metis
qed simp

lemma hc_sealCipher_secret: "hc_sealCipher hc c header en p = Some (r, hc1) \<Longrightarrow>
    hc_trafficSecret hc1 = hc_trafficSecret hc \<and> hc_version hc1 = hc_version hc"
  by (auto simp: hc_sealCipher_def Let_def bind_eq_Some_conv split_beta split: recordCipher.splits option.splits if_splits)

lemma hc_encrypt_secret:
  assumes "hc_encrypt hc header p rand = Some (Inr r, hc', rand')"
  shows "hc_trafficSecret hc' = hc_trafficSecret hc \<and> hc_version hc' = hc_version hc"
proof (cases "hc_cipher hc")
  case None
  then show ?thesis using assms by (simp add: hc_encrypt_def)
next
  case (Some c)
  with assms obtain en r0 hc1 where "hc_sealCipher hc c header en p = Some (r0, hc1)" "hc_incSeq hc1 = Some hc'"
    by (auto simp: hc_encrypt_def Let_def split: sum.splits option.splits)
  then show ?thesis using hc_sealCipher_secret by (fastforce simp: hc_incSeq_def)
qed

lemma send_all_send_secret:
  "send_all (rl_send v1 v2) (hc, rand) ms = Some (rs, hc', rand') \<Longrightarrow>
    hc_trafficSecret hc' = hc_trafficSecret hc \<and> hc_version hc' = hc_version hc"
proof (induction ms arbitrary: hc rand rs)
  case (Cons m ms)
  obtain t f where m: "m = (t, f)" by (cases m)
  from Cons.prems obtain r hc1 rand1 rs1 where "send_all (rl_send v1 v2) (hc1, rand1) ms = Some (rs1, hc', rand')"
    "hc_encrypt hc ([t, v1, v2] @ lenBytes (int (length f))) f rand = Some (Inr r, hc1, rand1)"
    by (auto simp: m bind_eq_Some_conv rl_send_def split: option.splits sum.splits)
  then show ?case using Cons.IH hc_encrypt_secret by metis
qed simp

section \<open>Messages survive the wire\<close>

fun msgType :: "handshakeMessage \<Rightarrow> u8" where
  "msgType HelloRequestM = typeHelloRequest"
| "msgType (ClientHelloM _) = typeClientHello"
| "msgType (ServerHelloM _) = typeServerHello"
| "msgType (NewSessionTicketM _) = typeNewSessionTicket"
| "msgType (NewSessionTicketTLS13M _) = typeNewSessionTicket"
| "msgType (CertificateM _) = typeCertificate"
| "msgType (CertificateTLS13M _) = typeCertificate"
| "msgType (CertificateRequestM _) = typeCertificateRequest"
| "msgType (CertificateRequestTLS13M _) = typeCertificateRequest"
| "msgType (CertificateStatusM _) = typeCertificateStatus"
| "msgType (ServerKeyExchangeM _) = typeServerKeyExchange"
| "msgType ServerHelloDoneM = typeServerHelloDone"
| "msgType (ClientKeyExchangeM _) = typeClientKeyExchange"
| "msgType (CertificateVerifyM _) = typeCertificateVerify"
| "msgType (FinishedM _) = typeFinished"
| "msgType (EncryptedExtensionsM _) = typeEncryptedExtensions"
| "msgType EndOfEarlyDataM = typeEndOfEarlyData"
| "msgType (KeyUpdateM _) = typeKeyUpdate"

text \<open>A message in good shape for the version of the connection.\<close>

fun message_wf :: "u16 \<Rightarrow> handshakeMessage \<Rightarrow> bool" where
  "message_wf vers (ClientHelloM m) = clientHelloMsg_wf m"
| "message_wf vers (ServerHelloM m) = serverHelloMsg_wf m"
| "message_wf vers (NewSessionTicketM m) = (vers \<noteq> VersionTLS13 \<and> length (nst_ticket m) < 2 ^ 16)"
| "message_wf vers (NewSessionTicketTLS13M m) = (vers = VersionTLS13)"
| "message_wf vers (CertificateM m) = (vers \<noteq> VersionTLS13 \<and> length (certificateMsg_marshal m) < 2 ^ 24 \<and>
     (cm_certificates m = [] \<or> last (cm_certificates m) \<noteq> []))"
| "message_wf vers (CertificateTLS13M m) = (vers = VersionTLS13 \<and> Certificate_wf (cm13_certificate m) \<and>
     cm13_ocspStapling m = (OCSPStaple (cm13_certificate m) \<noteq> None) \<and>
     cm13_scts m = (SignedCertificateTimestamps (cm13_certificate m) \<noteq> None))"
| "message_wf vers (CertificateRequestM m) = (vers \<noteq> VersionTLS13 \<and> certificateRequestMsg_wf m \<and>
     length (certificateRequestMsg_marshal m) < 2 ^ 24 \<and> cr_hasSignatureAlgorithm m = (vers \<ge> VersionTLS12))"
| "message_wf vers (CertificateRequestTLS13M m) = (vers = VersionTLS13 \<and> [] \<notin> set (cr13_certificateAuthorities m))"
| "message_wf vers (CertificateStatusM m) = (cs_response m \<noteq> [])"
| "message_wf vers (ServerKeyExchangeM m) = (length (skx_key m) < 2 ^ 24)"
| "message_wf vers (ClientKeyExchangeM m) = (length (cke_ciphertext m) < 2 ^ 24)"
| "message_wf vers (CertificateVerifyM m) = (cv_hasSignatureAlgorithm m = (vers \<ge> VersionTLS12) \<and>
     (cv_hasSignatureAlgorithm m \<or> cv_signatureAlgorithm m = 0))"
| "message_wf vers (EncryptedExtensionsM m) = (ee_echRetryConfigs m \<noteq> Some [])"
| "message_wf vers _ = True"

text \<open>What the receiver makes of it: hello messages also keep their bytes and their extension numbers.\<close>

fun received :: "handshakeMessage \<Rightarrow> bytes \<Rightarrow> handshakeMessage" where
  "received (ClientHelloM m) data = ClientHelloM (m\<lparr>ch_original := Some data, ch_extensions := clientHelloMsg_sentExts m\<rparr>)"
| "received (ServerHelloM m) data = ServerHelloM (m\<lparr>sh_original := Some data\<rparr>)"
| "received m data = m"

lemmas marshal_defs = newSessionTicketMsgTLS13_marshal_def certificateMsgTLS13_marshal_def
  certificateRequestMsgTLS13_marshal_def certificateStatusMsg_marshal_def certificateVerifyMsg_marshal_def
  finishedMsg_marshal_def encryptedExtensionsMsg_marshal_def keyUpdateMsg_marshal_def serverHelloMsg_marshal_def
  helloRequestMsg_marshal_def serverHelloDoneMsg_marshal_def endOfEarlyDataMsg_marshal_def
  newSessionTicketMsg_marshal_def serverKeyExchangeMsg_marshal_def clientKeyExchangeMsg_marshal_def

context cryptobyte_pkg
begin

lemma certificateMsg_framed:
  assumes "length (certificateMsg_marshal m) < 2 ^ 24"
  shows "\<exists>body. certificateMsg_marshal m = typeCertificate # lp24 body \<and> length body < 2 ^ 24"
proof -
  define d where "d = concat (map cert_entry (cm_certificates m))"
  have "certificateMsg_marshal m = typeCertificate # lp24 (be 3 (length d) @ d)"
    by (simp add: certificateMsg_marshal_eq d_def Let_def lp24_def)
  then show ?thesis using assms by (intro exI [of _ "be 3 (length d) @ d"]) simp
qed

lemma certificateRequestMsg_framed:
  assumes "length (certificateRequestMsg_marshal m) < 2 ^ 24"
  shows "\<exists>body. certificateRequestMsg_marshal m = typeCertificateRequest # lp24 body \<and> length body < 2 ^ 24"
proof -
  obtain body where eq: "certificateRequestMsg_marshal m = typeCertificateRequest # lp24 body"
    unfolding certificateRequestMsg_marshal_eq Let_def lp24_def by (auto simp: length_concat comp_def sum_list_triv)
  then show ?thesis using assms by (intro exI [of _ body]) simp
qed

lemma marshalMessage_framed:
  assumes "marshalMessage C m = Inr data" and "message_wf vers m"
  shows "\<exists>body. data = msgType m # lp24 body \<and> length body < 2 ^ 24"
proof (cases m)
  case (ClientHelloM x)
  then show ?thesis using assms by (auto simp: clientHelloMsg_marshal_iff)
next
  case (CertificateM x)
  then show ?thesis using assms certificateMsg_framed by auto
next
  case (CertificateRequestM x)
  then show ?thesis using assms certificateRequestMsg_framed by auto
next
  case HelloRequestM
  then show ?thesis using assms by (intro exI [of _ "[]"]) (auto simp: marshal_defs lp24_def be_3)
next
  case ServerHelloDoneM
  then show ?thesis using assms by (intro exI [of _ "[]"]) (auto simp: marshal_defs lp24_def be_3)
next
  case EndOfEarlyDataM
  then show ?thesis using assms by (intro exI [of _ "[]"]) (auto simp: marshal_defs lp24_def be_3)
next
  case (NewSessionTicketM x)
  let ?n = "length (nst_ticket x)"
  have len: "length ([0, 0, 0, 0] @ be 2 ?n @ nst_ticket x) = 6 + ?n" by simp
  have "newSessionTicketMsg_marshal x = typeNewSessionTicket # lp24 ([0, 0, 0, 0] @ be 2 ?n @ nst_ticket x)"
    unfolding lp24_def len by (simp add: newSessionTicketMsg_marshal_def Let_def be_3 be_2)
  then show ?thesis using assms NewSessionTicketM
    by (intro exI [of _ "[0, 0, 0, 0] @ be 2 ?n @ nst_ticket x"]) auto
next
  case (ServerKeyExchangeM x)
  then show ?thesis using assms by (auto simp: marshal_defs lp24_def be_3 Let_def)
next
  case (ClientKeyExchangeM x)
  then show ?thesis using assms by (auto simp: marshal_defs lp24_def be_3 Let_def)
qed (use assms in \<open>auto simp: marshal_defs Let_def wire_Some [symmetric] wire_iffs split: sum.splits\<close>)

lemma parse_marshalMessage:
  assumes m: "marshalMessage C m = Inr data" "message_wf vers m"
  shows "parseMessage C vers data = GoodMsg (received m data)"
proof -
  have t: "data ! 0 = msgType m" using marshalMessage_framed [OF m] by auto
  note p = parseMessage_def Let_def t parsedOf_def parsedPanic_def parsedBool_def
  show ?thesis
  proof (cases m)
    case HelloRequestM
    then show ?thesis using m by (auto simp: p helloRequestMsg_unmarshal_def helloRequestMsg_marshal_def)
  next
    case (ClientHelloM x)
    then show ?thesis using m clientHelloMsg_unmarshal_marshal by (simp add: p)
  next
    case (ServerHelloM x)
    then show ?thesis using m serverHelloMsg_unmarshal_marshal by (simp add: p)
  next
    case (NewSessionTicketM x)
    then show ?thesis using m newSessionTicketMsg_unmarshal_marshal [of x] by (auto simp: p)
  next
    case (NewSessionTicketTLS13M x)
    then show ?thesis using m newSessionTicketMsgTLS13_unmarshal_marshal by (simp add: p)
  next
    case (CertificateM x)
    then show ?thesis using m certificateMsg_unmarshal_marshal [of x] by (auto simp: p)
  next
    case (CertificateTLS13M x)
    then show ?thesis using m certificateMsgTLS13_unmarshal_marshal by (simp add: p)
  next
    case (CertificateRequestM x)
    then show ?thesis using m certificateRequestMsg_unmarshal_marshal [of x, OF _ refl] by (auto simp: p)
  next
    case (CertificateRequestTLS13M x)
    then show ?thesis using m certificateRequestMsgTLS13_unmarshal_marshal by (simp add: p)
  next
    case (CertificateStatusM x)
    then show ?thesis using m certificateStatusMsg_unmarshal_marshal by (simp add: p)
  next
    case (ServerKeyExchangeM x)
    then show ?thesis using m
      by (cases x) (auto simp: p serverKeyExchangeMsg_unmarshal_def serverKeyExchangeMsg_marshal_def)
  next
    case ServerHelloDoneM
    then show ?thesis using m by (auto simp: p serverHelloDoneMsg_unmarshal_def serverHelloDoneMsg_marshal_def)
  next
    case (ClientKeyExchangeM x)
    then have "clientKeyExchangeMsg_unmarshal data = Some x"
      using m by (auto simp: clientKeyExchangeMsg_unmarshal_iff clientKeyExchangeMsg_marshal_def Let_def lp24_def be_3)
    with ClientKeyExchangeM show ?thesis by (simp add: p)
  next
    case (CertificateVerifyM x)
    then show ?thesis using m certificateVerifyMsg_unmarshal_marshal [of x data, OF _ refl] by (auto simp: p)
  next
    case (FinishedM x)
    then have "finishedMsg_unmarshal C data = Some x" using m by (simp add: finishedMsg_marshal_iff finishedMsg_unmarshal_iff)
    with FinishedM show ?thesis by (simp add: p)
  next
    case (EncryptedExtensionsM x)
    then show ?thesis using m encryptedExtensionsMsg_unmarshal_marshal by (simp add: p)
  next
    case EndOfEarlyDataM
    then show ?thesis using m by (auto simp: p endOfEarlyDataMsg_unmarshal_def endOfEarlyDataMsg_marshal_def)
  next
    case (KeyUpdateM x)
    then show ?thesis using m keyUpdateMsg_unmarshal_marshal by (simp add: p)
  qed
qed

end

lemma handshake_message_delivered:
  assumes pkg: "cryptobyte_pkg C" and m: "marshalMessage C m = Inr data" "message_wf (c_vers s) m"
    and size: "length data \<le> 4 + sizeLimit data"
    and s: "c_quic s = None" "can_write (length data) s" "aead_ready (c_out s)"
    and c: "receiving c" "c_vers c = c_vers s" "c_hand c = []" and pair: "rl_paired (c_out s, c_rand s) (c_in c)"
  shows "\<exists>w s'. writeHandshakeRecord C s m ts = Some ((length data, None), s', transcript_Write ts data) \<and> wrote w s s' \<and>
    (\<exists>c'. readHandshake C (c\<lparr>c_rawInput := w @ rest\<rparr>) tc = Some (Inr (received m data), c', transcript_Write tc data) \<and>
      c_hand c' = [] \<and> c_rawInput c' = rest \<and> receiving c' \<and> same_session c c' \<and> rl_paired (c_out s', c_rand s') (c_in c') \<and>
      hc_trafficSecret (c_out s') = hc_trafficSecret (c_out s) \<and> hc_version (c_out s') = hc_version (c_out s) \<and>
      hc_trafficSecret (c_in c') = hc_trafficSecret (c_in c))"
proof -
  obtain body where body: "data = msgType m # lp24 body" "length body < 2 ^ 24"
    using cryptobyte_pkg.marshalMessage_framed [OF pkg m] by blast
  obtain frags rs s' where w: "writeRecords s recordTypeHandshake data 0 = Some ((length data, None), s')"
    "concat frags = data" "\<forall>f\<in>set frags. f \<noteq> [] \<and> length f \<le> maxPlaintext"
    "send_all (wire_send s) (c_out s, c_rand s) (map (Pair recordTypeHandshake) frags) = Some (rs, c_out s', c_rand s')"
    "wrote (concat rs) s s'"
    using writeRecords_ok [OF s(2), of recordTypeHandshake 0] by auto
  have wr: "writeHandshakeRecord C s m ts = Some ((length data, None), s', transcript_Write ts data)"
    using m(1) w(1) s(1) by (simp add: writeHandshakeRecord_def writeRecordLocked_def writeRecordBody_def)
  have "\<forall>x\<in>set (map (Pair recordTypeHandshake) frags). rl_valid x" using w(3) by (auto simp: rl_valid_def)
  then obtain i where i: "send_all rl_receive (c_in c) rs = Some (map (Pair recordTypeHandshake) frags, i)"
    "rl_paired (c_out s', c_rand s') i"
    using rl.delivers_all [OF pair _ w(4)] by blast
  let ?c = "c\<lparr>c_rawInput := concat rs @ rest\<rparr>"
  have "\<forall>r\<in>set rs. framed (recordVers s) r" using send_all_framed [OF s(3) _ _ _ w(4)] w(3) by simp
  moreover have "recordVers ?c = recordVers s" using c(2) by (simp add: recordVers_def)
  ultimately have "inflight recordTypeHandshake ?c frags rest i" unfolding inflight_def
    using c(1) w(3) i(1) by (intro conjI exI [of _ rs]) (simp_all add: receiving_def)
  moreover have "msg_frame data" unfolding msg_frame_def using body by blast
  ultimately obtain c' where c': "readHandshake C ?c tc = unmarshalHandshakeMessage C c' data tc" "c_hand c' = []"
    "c_rawInput c' = rest" "receiving c'" "c_in c' = i" "same_session ?c c'"
    using readHandshake_inflight [where c = ?c and frags = frags and rest = rest and i = i and data = data and C = C and tr = tc] c(3) w(2) size by auto
  have "parseMessage C (c_vers c') data = GoodMsg (received m data)"
    using cryptobyte_pkg.parse_marshalMessage [OF pkg m] c'(6) c(2) by (simp add: same_session_def)
  then have "readHandshake C ?c tc = Some (Inr (received m data), c', transcript_Write tc data)"
    by (simp add: c'(1) unmarshalHandshakeMessage_def)
  moreover have "same_session c c'" using c'(6) by (simp add: same_session_def)
  ultimately show ?thesis
    using wr w(5) c'(2-5) i(2) send_all_send_secret [OF w(4)] send_all_receive_secret [OF i(1)] by blast
qed

section \<open>Properties\<close>



end
