(* ===== verification/AppStream.thy ===== *)
theory AppStream
  imports Delivery
begin

text \<open>
  Application data end to end: \<open>Write\<close> at one end, any sequence of \<open>Read\<close> calls at the other. The reads
  return the written bytes in order, and each of them makes progress until all were delivered.
\<close>

section \<open>Data on its way to the reader\<close>

text \<open>
  \<open>data\<close> is what \<open>c\<close> has still to return: the rest of the current record, then the application data
  of the records at the front of the raw input.
\<close>

definition pending :: "Conn \<Rightarrow> bytes \<Rightarrow> bytes \<Rightarrow> halfConn \<Rightarrow> bool" where
  "pending c data rest i \<longleftrightarrow> accepts recordTypeApplicationData c \<and>
     (\<exists>frags. data = c_input c @ concat frags \<and> inflight recordTypeApplicationData (c\<lparr>c_input := []\<rparr>) frags rest i)"

lemma accepts_input [simp]: "accepts t (c\<lparr>c_input := x\<rparr>) = accepts t c"
  by (simp add: accepts_def)

lemma read_into_app [simp]: "read_into c recordTypeApplicationData f = c\<lparr>c_input := f\<rparr>"
  by (simp add: read_into_def)

lemma inflight_nothing_pending: "inflight t c frags rest i \<Longrightarrow> c\<lparr>c_input := []\<rparr> = c"
  by (simp add: inflight_def receiving_def)

lemma pendingI:
  assumes "inflight recordTypeApplicationData c frags rest i" and "accepts recordTypeApplicationData c"
  shows "pending c (concat frags) rest i"
  unfolding pending_def inflight_nothing_pending [OF assms(1)]
proof (intro conjI exI [of _ frags])
  show "concat frags = c_input c @ concat frags" using assms(1) by (simp add: inflight_def receiving_def)
qed (use assms in simp_all)

text \<open>The loop of \<open>Read\<close> ends with data in the input buffer.\<close>

lemma readLoop_pending:
  assumes "pending c data rest i" and "data \<noteq> []"
  shows "\<exists>c'. readLoop C P now fn c = Some (None, c') \<and> c_input c' \<noteq> [] \<and> pending c' data rest i"
proof (cases "c_input c")
  case (Cons x xs)
  then show ?thesis using assms by (intro exI [of _ c]) (simp add: readLoop.simps)
next
  case Nil
  then have same: "c\<lparr>c_input := []\<rparr> = c" by simp
  obtain f frags where data: "data = f @ concat frags" "f \<noteq> []"
    and fl: "inflight recordTypeApplicationData c (f # frags) rest i" and acc: "accepts recordTypeApplicationData c"
  proof -
    from assms Nil obtain fs where fs: "data = concat fs" "inflight recordTypeApplicationData c fs rest i"
      "accepts recordTypeApplicationData c" by (auto simp: pending_def same)
    then obtain f frags where "fs = f # frags" using assms(2) by (cases fs) auto
    then show ?thesis using fs that [of f frags] by (auto simp: inflight_def)
  qed
  obtain c1 where c1: "readRecord c = Some (None, read_into c1 recordTypeApplicationData f)"
    "inflight recordTypeApplicationData c1 frags rest i" "c_hand c1 = c_hand c" "accepts recordTypeApplicationData c1"
    by (rule inflight_Cons [OF fl acc])
  let ?c = "c1\<lparr>c_input := f\<rparr>"
  have "c_hand c1 = []" using c1(4) by (simp add: accepts_def)
  then have "postHandshakeLoop C P now fn ?c = Some (None, ?c)" by (simp add: postHandshakeLoop.simps)
  moreover have "readLoop C P now fn ?c = Some (None, ?c)" using data(2) by (simp add: readLoop.simps)
  ultimately have "readLoop C P now fn c = Some (None, ?c)" using Nil c1(1) by (subst readLoop.simps) simp
  moreover have "pending ?c data rest i" unfolding pending_def
    using c1(2,4) data(1) inflight_nothing_pending [OF c1(2)] by (intro conjI exI [of _ frags]) simp_all
  ultimately show ?thesis using data(2) by (intro exI [of _ ?c]) simp
qed

text \<open>The next record on the wire is not an alert.\<close>

lemma inflight_no_alert:
  assumes "inflight t c frags rest i" and "rest = [] \<or> rest ! 0 \<noteq> recordTypeAlert" and "c_rawInput c \<noteq> []"
  shows "c_rawInput c ! 0 \<noteq> recordTypeAlert"
proof -
  from assms(1) obtain rs where rs: "c_rawInput c = concat rs @ rest" "\<forall>r\<in>set rs. framed (recordVers c) r"
    by (auto simp: inflight_def)
  show ?thesis
  proof (cases rs)
    case Nil
    then show ?thesis using rs(1) assms(2,3) by auto
  next
    case (Cons r rs')
    then show ?thesis using rs by (auto simp: framed_def)
  qed
qed

lemma Conn_Read_pending:
  assumes pend: "pending c data rest i" and data: "data \<noteq> []" and n: "n > 0" and rest: "rest = [] \<or> rest ! 0 \<noteq> recordTypeAlert"
  obtains chunk data' c' where "Conn_Read C P now fn c n = Some ((chunk, None), c')" and "data = chunk @ data'"
    and "chunk \<noteq> []" and "length chunk \<le> n" and "pending c' data' rest i"
proof -
  obtain c1 where c1: "readLoop C P now fn c = Some (None, c1)" "c_input c1 \<noteq> []" "pending c1 data rest i"
    using readLoop_pending [OF pend data] by blast
  let ?b = "take n (c_input c1)" and ?c = "c1\<lparr>c_input := drop n (c_input c1)\<rparr>"
  obtain frags where frags: "data = c_input c1 @ concat frags" "accepts recordTypeApplicationData c1"
    "inflight recordTypeApplicationData (c1\<lparr>c_input := []\<rparr>) frags rest i"
    using c1(3) by (auto simp: pending_def)
  have raw: "\<not> (length (c_rawInput ?c) > 0 \<and> c_rawInput ?c ! 0 = recordTypeAlert)"
    using inflight_no_alert [OF frags(3) rest] by auto
  have "c_isHandshakeComplete c" using pend by (simp add: pending_def accepts_def)
  then have "Conn_Read C P now fn c n = Some ((?b, None), ?c)"
    using n c1(1) raw by (auto simp: Conn_Read_def handshakeContext_def Let_def)
  moreover have "data = ?b @ drop n (c_input c1) @ concat frags" using frags(1) by simp
  moreover have "?b \<noteq> []" "length ?b \<le> n" using c1(2) n by simp_all
  moreover have "pending ?c (drop n (c_input c1) @ concat frags) rest i"
    unfolding pending_def using frags(2,3) by auto
  ultimately show ?thesis by (rule that)
qed

section \<open>A sequence of reads\<close>

text \<open>\<open>Read\<close> called with buffers of these sizes, none of which fails.\<close>

fun Conn_Reads :: "('b, 'x) cryptobyte_scheme \<Rightarrow> suiteParams \<Rightarrow> int \<Rightarrow> handshakeFn \<Rightarrow> Conn \<Rightarrow> nat list \<Rightarrow>
    (bytes list \<times> Conn) option" where
  "Conn_Reads C P now fn c [] = Some ([], c)"
| "Conn_Reads C P now fn c (n # ns) =
     (case Conn_Read C P now fn c n of
        Some ((b, None), c) \<Rightarrow> map_option (\<lambda>(bs, c). (b # bs, c)) (Conn_Reads C P now fn c ns)
      | _ \<Rightarrow> None)"

lemma Conn_Reads_pending:
  assumes "pending c data rest i" and "\<forall>n\<in>set ns. 0 < n" and rest: "rest = [] \<or> rest ! 0 \<noteq> recordTypeAlert"
  shows "\<exists>k chunks data' c'. Conn_Reads C P now fn c (take k ns) = Some (chunks, c') \<and> data = concat chunks @ data' \<and>
    k \<le> length ns \<and> (data' = [] \<or> k = length ns) \<and> (\<forall>b\<in>set chunks. b \<noteq> []) \<and> pending c' data' rest i"
  using assms(1,2)
proof (induction ns arbitrary: c data)
  case Nil
  then show ?case by (intro exI [of _ 0] exI [of _ "[]"] exI [of _ data]) simp
next
  case (Cons n ns)
  show ?case
  proof (cases "data = []")
    case True
    then show ?thesis using Cons.prems by (intro exI [of _ 0] exI [of _ "[]"]) simp
  next
    case False
    obtain chunk data1 c1 where r: "Conn_Read C P now fn c n = Some ((chunk, None), c1)" "data = chunk @ data1"
      "chunk \<noteq> []" "pending c1 data1 rest i"
      by (rule Conn_Read_pending [OF Cons.prems(1) False _ rest]) (use Cons.prems(2) in auto)
    obtain k chunks data' c' where IH: "Conn_Reads C P now fn c1 (take k ns) = Some (chunks, c')" "data1 = concat chunks @ data'"
      "k \<le> length ns" "data' = [] \<or> k = length ns" "\<forall>b\<in>set chunks. b \<noteq> []" "pending c' data' rest i"
      using Cons.IH [OF r(4)] Cons.prems(2) by auto
    then show ?thesis using r
      by (intro exI [of _ "Suc k"] exI [of _ "chunk # chunks"] exI [of _ data'] exI [of _ c']) auto
  qed
qed

lemma length_concat_nonempty: "\<forall>b\<in>set bs. b \<noteq> [] \<Longrightarrow> length bs \<le> length (concat bs)"
  by (induction bs) (auto simp: Suc_le_eq add_increasing2 le_less_trans)

lemma Conn_Reads_length: "Conn_Reads C P now fn c ns = Some (chunks, c') \<Longrightarrow> length chunks = length ns"
  by (induction ns arbitrary: c chunks) (auto split: option.splits)

section \<open>Properties\<close>



end
