(* ===== verification/KeyAgreement.thy ===== *)
theory KeyAgreement
  imports Auth Messages12 ServerHello ClientHello
begin

text \<open>
  The key agreements of TLS 1.0 to 1.2: key\_agreement.go, with the constructors of cipher\_suites.go. The
  receiver of an operation is passed and returned, also when the operation fails; a random source is the
  string it will deliver and a result holds the unread rest. The crypto packages (curves, signing, RSA
  encryption) are the record \<open>kaPkgs\<close>. The lemmas show that the two sides derive the same
  pre-master secret and what a client has checked when it accepts a ServerKeyExchange message.
\<close>

section \<open>Crypto packages\<close>

text \<open>\<open>crypto.SignerOpts\<close>: a hash, or PSS options with a salt as long as the hash.\<close>

datatype signerOpts = SignHash cryptoHash | SignPSS cryptoHash

text \<open>
  \<open>ka_SignMessage\<close> is \<open>crypto.SignMessage\<close>, \<open>ka_Sign\<close> the method \<open>Sign\<close> of a \<open>crypto.Signer\<close>, \<open>ka_Decrypter\<close> the
  type assertion to \<open>crypto.Decrypter\<close> with its public key, \<open>ka_Decrypt\<close> its method \<open>Decrypt\<close> with a session
  key length of 48, and \<open>ka_EncryptPKCS1v15\<close> is \<open>rsa.EncryptPKCS1v15\<close>.
\<close>

record kaPkgs =
  ka_curves :: "u16 \<Rightarrow> ecdhCurve"
  ka_sig :: sigPkgs
  ka_MD5 :: hashFn
  ka_SHA1 :: hashFn
  ka_SignMessage :: "privateKey \<Rightarrow> bytes \<Rightarrow> bytes \<Rightarrow> signerOpts \<Rightarrow> (bytes \<times> bytes) res"
  ka_Sign :: "privateKey \<Rightarrow> bytes \<Rightarrow> bytes \<Rightarrow> cryptoHash \<Rightarrow> (bytes \<times> bytes) res"
  ka_Decrypter :: "privateKey \<Rightarrow> publicKey option"
  ka_Decrypt :: "privateKey \<Rightarrow> bytes \<Rightarrow> bytes \<Rightarrow> (bytes \<times> bytes) res"
  ka_EncryptPKCS1v15 :: "bytes \<Rightarrow> publicKey \<Rightarrow> bytes \<Rightarrow> (bytes \<times> bytes) res"

definition errClientKeyExchange :: goerror where
  "errClientKeyExchange = ErrorsNew ''tls: invalid ClientKeyExchange message''"

definition errServerKeyExchange :: goerror where
  "errServerKeyExchange = ErrorsNew ''tls: invalid ServerKeyExchange message''"

text \<open>The two bytes of a 16-bit number, \<open>byte(x >> 8), byte(x)\<close>, and of a length.\<close>

definition hi_lo :: "u16 \<Rightarrow> bytes" where
  "hi_lo x = [ucast (drop_bit 8 x), ucast x]"

definition lenHiLo :: "nat \<Rightarrow> bytes" where
  "lenHiLo n = [word_of_nat (drop_bit 8 n), word_of_nat n]"

definition lenAt :: "u8 \<Rightarrow> u8 \<Rightarrow> nat" where
  "lenAt a b = or (push_bit 8 (unat a)) (unat b)"

section \<open>RSA\<close>

definition rsaKeyAgreement_generateServerKeyExchange :: "(serverKeyExchangeMsg option) res" where
  "rsaKeyAgreement_generateServerKeyExchange = Inr None"

definition rsaKeyAgreement_processClientKeyExchange ::
    "kaPkgs \<Rightarrow> bytes \<Rightarrow> localCertificate \<Rightarrow> clientKeyExchangeMsg \<Rightarrow> (bytes \<times> bytes) res" where
  "rsaKeyAgreement_processClientKeyExchange K rand cert ckx =
     (let w = cke_ciphertext ckx in
      if length w < 2 then Inl errClientKeyExchange
      else if int (lenAt (w ! 0) (w ! 1)) \<noteq> int (length w) - 2 then Inl errClientKeyExchange
      else case ka_Decrypter K (PrivateKey cert) of
             None \<Rightarrow> Inl (ErrorsNew ''tls: certificate private key does not implement crypto.Decrypter'')
           | Some _ \<Rightarrow> ka_Decrypt K (PrivateKey cert) rand (drop 2 w))"

definition rsaKeyAgreement_processServerKeyExchange :: "goerror option" where
  "rsaKeyAgreement_processServerKeyExchange = Some (ErrorsNew ''tls: unexpected ServerKeyExchange'')"

definition rsaKeyAgreement_generateClientKeyExchange ::
    "kaPkgs \<Rightarrow> bytes \<Rightarrow> clientHelloMsg \<Rightarrow> x509Certificate \<Rightarrow> (bytes \<times> clientKeyExchangeMsg \<times> bytes) res" where
  "rsaKeyAgreement_generateClientKeyExchange K rand clientHello cert =
     (case readFull 46 rand of
        Inl e \<Rightarrow> Inl e
      | Inr (w, rand) \<Rightarrow>
          (let preMasterSecret = hi_lo (ch_vers clientHello) @ w in
           case crt_PublicKey cert of
             RSAPublicKey _ _ \<Rightarrow>
               (case ka_EncryptPKCS1v15 K rand (crt_PublicKey cert) preMasterSecret of
                  Inl e \<Rightarrow> Inl e
                | Inr (encrypted, rand) \<Rightarrow>
                    Inr (preMasterSecret, \<lparr>cke_ciphertext = lenHiLo (length encrypted) @ encrypted\<rparr>, rand))
           | _ \<Rightarrow> Inl (ErrorsNew ''tls: server certificate contains incorrect key type for selected ciphersuite'')))"

section \<open>The hash of a ServerKeyExchange\<close>

definition sha1Hash :: "kaPkgs \<Rightarrow> bytes list \<Rightarrow> bytes" where
  "sha1Hash K slices = hs_Sum (foldl hs_Write (hs_new (ka_SHA1 K)) slices)"

definition md5SHA1Hash :: "kaPkgs \<Rightarrow> bytes list \<Rightarrow> bytes" where
  "md5SHA1Hash K slices =
     (let md5sha1 = replicate (16 + 20) 0;
          hmd5 = foldl hs_Write (hs_new (ka_MD5 K)) slices;
          md5sha1 = copy_at 0 md5sha1 (hs_Sum hmd5)
      in copy_at 16 md5sha1 (sha1Hash K slices))"

definition hashForServerKeyExchange :: "kaPkgs \<Rightarrow> u8 \<Rightarrow> bytes list \<Rightarrow> bytes" where
  "hashForServerKeyExchange K sigType slices =
     (if sigType = signatureECDSA then sha1Hash K slices else md5SHA1Hash K slices)"

section \<open>ECDHE\<close>

text \<open>An \<open>*ecdh.PrivateKey\<close>: the curve it belongs to and the key.\<close>

record ecdhPrivateKey =
  pk_Curve :: ecdhCurve
  pk_key :: bytes

record ecdheKeyAgreement =
  ek_version :: u16
  ek_isRSA :: bool
  ek_ckx :: "clientKeyExchangeMsg option"
  ek_preMasterSecret :: bytes
  ek_curveID :: u16
  ek_signatureAlgorithm :: u16
  ek_key :: "ecdhPrivateKey option"

definition curveForCurveID :: "kaPkgs \<Rightarrow> u16 \<Rightarrow> ecdhCurve option" where
  "curveForCurveID K i =
     (if i = X25519 then Some (ka_curves K X25519)
      else if i = CurveP256 then Some (ka_curves K CurveP256)
      else if i = CurveP384 then Some (ka_curves K CurveP384)
      else if i = CurveP521 then Some (ka_curves K CurveP521)
      else None)"

definition generateECDHEKey :: "kaPkgs \<Rightarrow> bytes \<Rightarrow> u16 \<Rightarrow> (ecdhPrivateKey \<times> bytes) res" where
  "generateECDHEKey K rand curveID =
     (case curveForCurveID K curveID of
        None \<Rightarrow> Inl (ErrorsNew ''tls: internal error: unsupported curve'')
      | Some curve \<Rightarrow>
          (case ec_GenerateKey curve rand of
             Inl e \<Rightarrow> Inl e
           | Inr (k, rand) \<Rightarrow> Inr (\<lparr>pk_Curve = curve, pk_key = k\<rparr>, rand)))"

definition pk_PublicKey :: "ecdhPrivateKey \<Rightarrow> bytes" where
  "pk_PublicKey k = ec_PublicKey (pk_Curve k) (pk_key k)"

definition serverECDHEParams :: "u16 \<Rightarrow> bytes \<Rightarrow> bytes" where
  "serverECDHEParams curveID ecdhePublic = [3] @ hi_lo curveID @ [word_of_nat (length ecdhePublic)] @ ecdhePublic"

definition isRSASig :: "u8 \<Rightarrow> bool" where
  "isRSASig sigType \<longleftrightarrow> sigType = signaturePKCS1v15 \<or> sigType = signatureRSAPSS"

abbreviation wrongCertificate :: goerror where
  "wrongCertificate \<equiv> ErrorsNew ''tls: certificate cannot be used with the selected cipher suite''"

text \<open>The signature over the parameters, with what the receiver remembers of it.\<close>

definition signServerParams :: "kaPkgs \<Rightarrow> bytes \<Rightarrow> localCertificate \<Rightarrow> clientHelloMsg \<Rightarrow> serverHelloMsg \<Rightarrow> bytes \<Rightarrow>
    publicKey \<Rightarrow> ecdheKeyAgreement \<Rightarrow> ecdheKeyAgreement \<times> (bytes \<times> bytes) res" where
  "signServerParams K rand cert clientHello hello params pub ka =
     (if ek_version ka \<ge> VersionTLS12 then
        (case selectSignatureScheme (ek_version ka) cert (ch_supportedSignatureAlgorithms clientHello) of
           Inl e \<Rightarrow> (ka\<lparr>ek_signatureAlgorithm := 0\<rparr>, Inl e)
         | Inr alg \<Rightarrow>
             (let ka = ka\<lparr>ek_signatureAlgorithm := alg\<rparr> in
              (ka, case typeAndHashFromSignatureScheme alg of
                 Inl e \<Rightarrow> Inl e
               | Inr (sigType, sigHash) \<Rightarrow>
                   (let msg = ch_random clientHello @ sh_random hello @ params in
                    if isRSASig sigType \<noteq> ek_isRSA ka then Inl wrongCertificate
                    else let signOpts = (if sigType = signatureRSAPSS then SignPSS sigHash else SignHash sigHash)
                    in case ka_SignMessage K (PrivateKey cert) rand msg signOpts of
                         Inl e \<Rightarrow> Inl (TextError ''tls: failed to sign ECDHE parameters: '' e)
                       | Inr r \<Rightarrow> Inr r))))
      else
        (ka, case legacyTypeAndHashFromPublicKey pub of
           Inl e \<Rightarrow> Inl e
         | Inr (sigType, sigHash) \<Rightarrow>
             (let digest = hashForServerKeyExchange K sigType [ch_random clientHello, sh_random hello, params] in
              if (sigType = signaturePKCS1v15) \<noteq> ek_isRSA ka then Inl wrongCertificate
              else case ka_Sign K (PrivateKey cert) rand digest sigHash of
                     Inl e \<Rightarrow> Inl (TextError ''tls: failed to sign ECDHE parameters: '' e)
                   | Inr r \<Rightarrow> Inr r)))"

definition ecdhe_generateServerKeyExchange :: "kaPkgs \<Rightarrow> Config \<Rightarrow> bytes \<Rightarrow> localCertificate \<Rightarrow> clientHelloMsg \<Rightarrow>
    serverHelloMsg \<Rightarrow> ecdheKeyAgreement \<Rightarrow> ecdheKeyAgreement \<times> (serverKeyExchangeMsg \<times> bytes) res" where
  "ecdhe_generateServerKeyExchange K config rand cert clientHello hello ka =
     (let ka = (case find (supportsCurve (Some config) (ek_version ka)) (ch_supportedCurves clientHello) of
            Some c \<Rightarrow> ka\<lparr>ek_curveID := c\<rparr> | None \<Rightarrow> ka) in
      if ek_curveID ka = 0 then (ka, Inl (ErrorsNew ''tls: no supported elliptic curves offered''))
      else if curveForCurveID K (ek_curveID ka) = None
      then (ka, Inl (ErrorsNew ''tls: CurvePreferences includes unsupported curve''))
      else case generateECDHEKey K rand (ek_curveID ka) of
        Inl e \<Rightarrow> (ka, Inl e)
      | Inr (key, rand) \<Rightarrow>
          (let ka = ka\<lparr>ek_key := Some key\<rparr>;
               params = serverECDHEParams (ek_curveID ka) (pk_PublicKey key)
           in case asSigner (PrivateKey cert) of
                None \<Rightarrow> (ka, Inl (ErrorsNew (''tls: certificate private key of type '' @ privateKeyType (PrivateKey cert) @
                               '' does not implement crypto.Signer'')))
              | Some pub \<Rightarrow>
                  (case signServerParams K rand cert clientHello hello params pub ka of
                     (ka, Inl e) \<Rightarrow> (ka, Inl e)
                   | (ka, Inr (sig, rand)) \<Rightarrow>
                       (ka, Inr (\<lparr>skx_key = params @
                          (if ek_version ka \<ge> VersionTLS12 then hi_lo (ek_signatureAlgorithm ka) else []) @
                          lenHiLo (length sig) @ sig\<rparr>, rand)))))"

text \<open>The outer option is the nil dereference of a key that was never generated.\<close>

definition ecdhe_processClientKeyExchange :: "clientKeyExchangeMsg \<Rightarrow> ecdheKeyAgreement \<Rightarrow> bytes res option" where
  "ecdhe_processClientKeyExchange ckx ka =
     (let w = cke_ciphertext ckx in
      if length w = 0 \<or> unat (w ! 0) \<noteq> length w - 1 then Some (Inl errClientKeyExchange)
      else case ek_key ka of
             None \<Rightarrow> None
           | Some key \<Rightarrow>
               Some (case ec_NewPublicKey (pk_Curve key) (drop 1 w) of
                  Inl _ \<Rightarrow> Inl errClientKeyExchange
                | Inr peerKey \<Rightarrow>
                    (case ec_ECDH (pk_Curve key) (pk_key key) peerKey of
                       Inl _ \<Rightarrow> Inl errClientKeyExchange
                     | Inr preMasterSecret \<Rightarrow> Inr preMasterSecret)))"

text \<open>
  The fields of a ServerKeyExchange message: the receiver with the curve (and, from TLS 1.2 on, the signature
  algorithm) that were read, and the parameters, the public key and the signature.
\<close>

definition readServerKeyExchange :: "bytes \<Rightarrow> ecdheKeyAgreement \<Rightarrow> ecdheKeyAgreement \<times> (bytes \<times> bytes \<times> bytes) res" where
  "readServerKeyExchange w ka =
     (if length w < 4 then (ka, Inl errServerKeyExchange)
      else if w ! 0 \<noteq> 3 then (ka, Inl (ErrorsNew ''tls: server selected unsupported curve''))
      else let ka = ka\<lparr>ek_curveID := uint16 (w ! 1) (w ! 2)\<rparr>;
               publicLen = unat (w ! 3)
      in if publicLen + 4 > length w then (ka, Inl errServerKeyExchange)
         else let params = take (4 + publicLen) w;
                  publicKey = drop 4 params;
                  sig = drop (4 + publicLen) w
         in if length sig < 2 then (ka, Inl errServerKeyExchange)
            else let (ka, sig) = (if ek_version ka \<ge> VersionTLS12
                     then (ka\<lparr>ek_signatureAlgorithm := uint16 (sig ! 0) (sig ! 1)\<rparr>, drop 2 sig) else (ka, sig))
            in if length sig < 2 then (ka, Inl errServerKeyExchange)
               else if lenAt (sig ! 0) (sig ! 1) + 2 \<noteq> length sig then (ka, Inl errServerKeyExchange)
               else (ka, Inr (params, publicKey, drop 2 sig)))"

text \<open>The check of the signature over the parameters; \<open>None\<close> is the panic of a hash that is not linked in.\<close>

definition verifyServerParams :: "kaPkgs \<Rightarrow> clientHelloMsg \<Rightarrow> serverHelloMsg \<Rightarrow> publicKey \<Rightarrow> bytes \<Rightarrow> bytes \<Rightarrow>
    ecdheKeyAgreement \<Rightarrow> goerror option option" where
  "verifyServerParams K clientHello serverHello pub params sig ka =
     (if ek_version ka \<ge> VersionTLS12 then
        if \<not> isSupportedSignatureAlgorithm (ek_signatureAlgorithm ka) (ch_supportedSignatureAlgorithms clientHello)
        then Some (Some (ErrorsNew ''tls: certificate used with invalid signature algorithm''))
        else case typeAndHashFromSignatureScheme (ek_signatureAlgorithm ka) of
          Inl e \<Rightarrow> Some (Some e)
        | Inr (sigType, sigHash) \<Rightarrow>
            if isRSASig sigType \<noteq> ek_isRSA ka then Some (Some errServerKeyExchange)
            else let msg = ch_random clientHello @ sh_random serverHello @ params
            in map_option (map_option (TextError ''tls: invalid signature by the server certificate: ''))
                 (verifyHandshakeSignature (ka_sig K) sigType pub sigHash msg sig)
      else
        case legacyTypeAndHashFromPublicKey pub of
          Inl e \<Rightarrow> Some (Some e)
        | Inr (sigType, sigHash) \<Rightarrow>
            if (sigType = signaturePKCS1v15) \<noteq> ek_isRSA ka then Some (Some errServerKeyExchange)
            else let digest = hashForServerKeyExchange K sigType [ch_random clientHello, sh_random serverHello, params]
            in Some (map_option (TextError ''tls: invalid signature by the server certificate: '')
                 (verifyLegacyHandshakeSignature (ka_sig K) sigType pub sigHash digest sig)))"

definition ecdhe_processServerKeyExchange :: "kaPkgs \<Rightarrow> bytes \<Rightarrow> clientHelloMsg \<Rightarrow> serverHelloMsg \<Rightarrow> x509Certificate \<Rightarrow>
    serverKeyExchangeMsg \<Rightarrow> ecdheKeyAgreement \<Rightarrow> (ecdheKeyAgreement \<times> bytes res) option" where
  "ecdhe_processServerKeyExchange K rand clientHello serverHello cert skx ka =
     (case readServerKeyExchange (skx_key skx) ka of
        (ka, Inl e) \<Rightarrow> Some (ka, Inl e)
      | (ka, Inr (params, publicKey, sig)) \<Rightarrow>
          if \<not> List.member (ch_supportedCurves clientHello) (ek_curveID ka)
          then Some (ka, Inl (ErrorsNew ''tls: server selected unoffered curve''))
          else if curveForCurveID K (ek_curveID ka) = None
          then Some (ka, Inl (ErrorsNew ''tls: server selected unsupported curve''))
          else case generateECDHEKey K rand (ek_curveID ka) of
            Inl e \<Rightarrow> Some (ka, Inl e)
          | Inr (key, rand) \<Rightarrow>
              (let ka = ka\<lparr>ek_key := Some key\<rparr> in
               case ec_NewPublicKey (pk_Curve key) publicKey of
                 Inl _ \<Rightarrow> Some (ka, Inl errServerKeyExchange)
               | Inr peerKey \<Rightarrow>
                   (case ec_ECDH (pk_Curve key) (pk_key key) peerKey of
                      Inl _ \<Rightarrow> Some (ka\<lparr>ek_preMasterSecret := []\<rparr>, Inl errServerKeyExchange)
                    | Inr preMasterSecret \<Rightarrow>
                        (let ourPublicKey = pk_PublicKey key;
                             ka = ka\<lparr>ek_preMasterSecret := preMasterSecret,
                               ek_ckx := Some \<lparr>cke_ciphertext = [word_of_nat (length ourPublicKey)] @ ourPublicKey\<rparr>\<rparr>
                         in case verifyServerParams K clientHello serverHello (crt_PublicKey cert) params sig ka of
                              None \<Rightarrow> None
                            | Some (Some e) \<Rightarrow> Some (ka, Inl e)
                            | Some None \<Rightarrow> Some (ka, Inr rand)))))"

definition ecdhe_generateClientKeyExchange :: "ecdheKeyAgreement \<Rightarrow> (bytes \<times> clientKeyExchangeMsg) res" where
  "ecdhe_generateClientKeyExchange ka = (case ek_ckx ka of
     None \<Rightarrow> Inl (ErrorsNew ''tls: missing ServerKeyExchange message'')
   | Some ckx \<Rightarrow> Inr (ek_preMasterSecret ka, ckx))"

section \<open>The interface\<close>

text \<open>A value of the interface \<open>keyAgreement\<close>, and the constructors that a cipher suite names.\<close>

datatype keyAgreement = RsaKeyAgreement | EcdheKeyAgreement ecdheKeyAgreement

fun newKeyAgreement :: "kaFn \<Rightarrow> u16 \<Rightarrow> keyAgreement" where
  "newKeyAgreement rsaKA version = RsaKeyAgreement"
| "newKeyAgreement ecdheECDSAKA version = EcdheKeyAgreement \<lparr>ek_version = version, ek_isRSA = False, ek_ckx = None,
     ek_preMasterSecret = [], ek_curveID = 0, ek_signatureAlgorithm = 0, ek_key = None\<rparr>"
| "newKeyAgreement ecdheRSAKA version = EcdheKeyAgreement \<lparr>ek_version = version, ek_isRSA = True, ek_ckx = None,
     ek_preMasterSecret = [], ek_curveID = 0, ek_signatureAlgorithm = 0, ek_key = None\<rparr>"

fun generateServerKeyExchange :: "kaPkgs \<Rightarrow> Config \<Rightarrow> bytes \<Rightarrow> localCertificate \<Rightarrow> clientHelloMsg \<Rightarrow> serverHelloMsg \<Rightarrow>
    keyAgreement \<Rightarrow> keyAgreement \<times> (serverKeyExchangeMsg option \<times> bytes) res" where
  "generateServerKeyExchange K config rand cert ch sh RsaKeyAgreement =
     (RsaKeyAgreement, map_sum id (\<lambda>m. (m, rand)) rsaKeyAgreement_generateServerKeyExchange)"
| "generateServerKeyExchange K config rand cert ch sh (EcdheKeyAgreement ka) =
     map_prod EcdheKeyAgreement (map_sum id (map_prod Some id)) (ecdhe_generateServerKeyExchange K config rand cert ch sh ka)"

fun processClientKeyExchange :: "kaPkgs \<Rightarrow> bytes \<Rightarrow> localCertificate \<Rightarrow> clientKeyExchangeMsg \<Rightarrow> keyAgreement \<Rightarrow>
    (bytes \<times> bytes) res option" where
  "processClientKeyExchange K rand cert ckx RsaKeyAgreement = Some (rsaKeyAgreement_processClientKeyExchange K rand cert ckx)"
| "processClientKeyExchange K rand cert ckx (EcdheKeyAgreement ka) =
     map_option (map_sum id (\<lambda>s. (s, rand))) (ecdhe_processClientKeyExchange ckx ka)"

fun processServerKeyExchange :: "kaPkgs \<Rightarrow> bytes \<Rightarrow> clientHelloMsg \<Rightarrow> serverHelloMsg \<Rightarrow> x509Certificate \<Rightarrow>
    serverKeyExchangeMsg \<Rightarrow> keyAgreement \<Rightarrow> (keyAgreement \<times> bytes res) option" where
  "processServerKeyExchange K rand ch sh cert skx RsaKeyAgreement =
     Some (RsaKeyAgreement, case rsaKeyAgreement_processServerKeyExchange of Some e \<Rightarrow> Inl e | None \<Rightarrow> Inr rand)"
| "processServerKeyExchange K rand ch sh cert skx (EcdheKeyAgreement ka) =
     map_option (map_prod EcdheKeyAgreement id) (ecdhe_processServerKeyExchange K rand ch sh cert skx ka)"

fun generateClientKeyExchange :: "kaPkgs \<Rightarrow> bytes \<Rightarrow> clientHelloMsg \<Rightarrow> x509Certificate \<Rightarrow> keyAgreement \<Rightarrow>
    (bytes \<times> clientKeyExchangeMsg \<times> bytes) res" where
  "generateClientKeyExchange K rand ch cert RsaKeyAgreement = rsaKeyAgreement_generateClientKeyExchange K rand ch cert"
| "generateClientKeyExchange K rand ch cert (EcdheKeyAgreement ka) =
     map_sum id (\<lambda>(s, m). (s, m, rand)) (ecdhe_generateClientKeyExchange ka)"

section \<open>Reading what was written\<close>

lemma hi_lo_be: "hi_lo x = be 2 (unat x)"
proof -
  have "unat (ucast (drop_bit 8 x) :: u8) = unat (word_of_nat (drop_bit 8 (unat x)) :: u8)"
    by (simp add: unsigned_ucast_eq unat_drop_bit_eq unat_of_nat take_bit_eq_mod)
  moreover have "unat (ucast x :: u8) = unat (word_of_nat (unat x) :: u8)"
    by (simp add: unsigned_ucast_eq unat_of_nat take_bit_eq_mod)
  ultimately show ?thesis by (simp add: hi_lo_def be_2 word_unat_eq_iff)
qed

lemma lenHiLo_be: "lenHiLo n = be 2 n"
  by (simp add: lenHiLo_def be_2)

lemma length_two_bytes [simp]: "length (hi_lo x) = 2" "length (lenHiLo n) = 2"
  by (simp_all add: hi_lo_def lenHiLo_def)

lemma lenAt_unbe: "lenAt a b = unbe [a, b]"
  using or_push_bit_8 [of "unat a" b] by (simp add: lenAt_def unbe_def)

lemma two_bytes: obtains a b where "be 2 v = [a, b]"
  by (simp add: be_2)

lemma lenAt_lenHiLo: "n < 65536 \<Longrightarrow> lenAt (lenHiLo n ! 0) (lenHiLo n ! 1) = n"
  by (rule two_bytes [of n]) (use unbe_be_small [of n 2] in \<open>simp add: lenHiLo_be lenAt_unbe\<close>)

lemma uint16_hi_lo: "uint16 (hi_lo x ! 0) (hi_lo x ! 1) = x"
  by (rule two_bytes [of "unat x"]) (use unbe_be_word(2) [of x] in \<open>simp add: hi_lo_be word_unat_eq_iff uint16_unbe\<close>)

lemma hi_lo_uint16: "hi_lo (uint16 a b) = [a, b]"
  using be_unbe_len [of "[a, b]" 2] by (simp add: hi_lo_be uint16_unbe)

lemma lenHiLo_lenAt: "lenHiLo (lenAt a b) = [a, b]"
  using be_unbe_len [of "[a, b]" 2] by (simp add: lenHiLo_be lenAt_unbe)

lemma take_drop_prefix:
  "length xs = k \<Longrightarrow> take (k + n) (xs @ ys) = xs @ take n ys \<and> drop (k + n) (xs @ ys) = drop n ys"
  by simp

text \<open>The message as a string, and its two directions through \<open>readServerKeyExchange\<close>.\<close>

definition serverKeyExchangeWire :: "u16 \<Rightarrow> u16 \<Rightarrow> bytes \<Rightarrow> u16 \<Rightarrow> bytes \<Rightarrow> bytes" where
  "serverKeyExchangeWire version curveID pub alg sig =
     serverECDHEParams curveID pub @ (if version \<ge> VersionTLS12 then hi_lo alg else []) @ lenHiLo (length sig) @ sig"

lemma readServerKeyExchange_wire:
  assumes "length pub < 256" and "length sig < 65536"
  shows "readServerKeyExchange (serverKeyExchangeWire (ek_version ka) curveID pub alg sig) ka =
     (ka\<lparr>ek_curveID := curveID, ek_signatureAlgorithm := (if ek_version ka \<ge> VersionTLS12 then alg else ek_signatureAlgorithm ka)\<rparr>,
      Inr (serverECDHEParams curveID pub, pub, sig))"
proof -
  let ?params = "serverECDHEParams curveID pub"
  define rest where "rest = (if ek_version ka \<ge> VersionTLS12 then hi_lo alg else []) @ lenHiLo (length sig) @ sig"
  define w where "w = serverKeyExchangeWire (ek_version ka) curveID pub alg sig"
  have w: "w = ?params @ rest" by (simp add: w_def rest_def serverKeyExchangeWire_def)
  have p: "?params = [3, hi_lo curveID ! 0, hi_lo curveID ! 1, word_of_nat (length pub)] @ pub"
    by (simp add: serverECDHEParams_def hi_lo_def)
  have parts: "\<not> length w < 4" "w ! 0 = 3" "uint16 (w ! 1) (w ! 2) = curveID" "unat (w ! 3) = length pub"
      "\<not> length pub + 4 > length w" "drop 4 ?params = pub"
    using assms(1) uint16_hi_lo [of curveID] by (simp_all add: w p unat_of_nat)
  have cut: "take (4 + length pub) w = ?params" "drop (4 + length pub) w = rest"
    using take_drop_prefix [of "[3, hi_lo curveID ! 0, hi_lo curveID ! 1, word_of_nat (length pub)]" 4 "length pub" "pub @ rest"]
    by (simp_all add: w p)
  have sig: "\<not> length rest < 2" "\<not> length (lenHiLo (length sig) @ sig) < 2"
      "lenAt ((lenHiLo (length sig) @ sig) ! 0) ((lenHiLo (length sig) @ sig) ! 1) + 2 = length (lenHiLo (length sig) @ sig)"
      "drop 2 (lenHiLo (length sig) @ sig) = sig"
    using lenAt_lenHiLo [OF assms(2)] by (simp_all add: rest_def nth_append)
  have alg: "uint16 (rest ! 0) (rest ! 1) = alg \<and> drop 2 rest = lenHiLo (length sig) @ sig" if "ek_version ka \<ge> VersionTLS12"
    using that uint16_hi_lo [of alg] by (simp add: rest_def nth_append)
  have noalg: "rest = lenHiLo (length sig) @ sig" if "\<not> ek_version ka \<ge> VersionTLS12" using that by (simp add: rest_def)
  show ?thesis
  proof (cases "ek_version ka \<ge> VersionTLS12")
    case True
    with alg sig parts show ?thesis
      unfolding w_def [symmetric] readServerKeyExchange_def Let_def by (simp only: if_False if_True parts cut) simp
  next
    case False
    with noalg sig parts show ?thesis
      unfolding w_def [symmetric] readServerKeyExchange_def Let_def by (simp only: if_False if_True parts cut) simp
  qed
qed

lemma readServerKeyExchange_Inr:
  assumes "readServerKeyExchange w ka = (ka', Inr (params, pub, sig))"
  shows "w = serverKeyExchangeWire (ek_version ka) (ek_curveID ka') pub (ek_signatureAlgorithm ka') sig"
    and "params = serverECDHEParams (ek_curveID ka') pub" and "length pub < 256" and "length sig < 65536"
    and "ek_version ka' = ek_version ka" and "ek_isRSA ka' = ek_isRSA ka"
proof -
  let ?tls12 = "ek_version ka \<ge> VersionTLS12"
  obtain b c n v where w: "w = [3, b, c, n] @ v" and n: "unat n \<le> length v"
    using assms by (cases w; cases "tl w"; cases "tl (tl w)"; cases "tl (tl (tl w))")
      (auto simp: readServerKeyExchange_def Let_def split: if_splits prod.splits)
  define r where "r = drop (unat n) v"
  define r' where "r' = (if ?tls12 then drop 2 r else r)"
  have cut: "take (4 + unat n) w = [3, b, c, n] @ take (unat n) v" "drop (4 + unat n) w = r"
    using take_drop_prefix [of "[3, b, c, n]" 4 "unat n" v] by (simp_all add: w r_def)
  have at: "w ! 0 = 3" "w ! 1 = b" "w ! Suc 0 = b" "w ! 2 = c" "w ! 3 = n" "length w = 4 + length v" by (simp_all add: w)
  have res: "params = [3, b, c, n] @ take (unat n) v \<and> pub = take (unat n) v \<and> \<not> length r < 2 \<and> \<not> length r' < 2 \<and>
      lenAt (r' ! 0) (r' ! 1) + 2 = length r' \<and> sig = drop 2 r' \<and>
      ka' = ka\<lparr>ek_curveID := uint16 b c, ek_signatureAlgorithm := (if ?tls12 then uint16 (r ! 0) (r ! 1) else ek_signatureAlgorithm ka)\<rparr>"
    using assms unfolding readServerKeyExchange_def Let_def r'_def
    by (simp add: cut at split: if_splits) auto
  show "length pub < 256" "length sig < 65536" "ek_version ka' = ek_version ka" "ek_isRSA ka' = ek_isRSA ka"
    using res unat_u8_less [of n] unbe_less [of "[r' ! 0, r' ! 1]"] by (auto simp: lenAt_unbe min_less_iff_disj)
  have lp: "word_of_nat (length pub) = n" using res n by simp
  show pr: "params = serverECDHEParams (ek_curveID ka') pub"
    using res lp by (simp add: serverECDHEParams_def hi_lo_uint16)
  have two: "x = [x ! 0, x ! 1] @ drop 2 x" if "\<not> length x < 2" for x :: bytes
    using that by (cases x; cases "tl x") auto
  have "length sig = length r' - 2" "length r' = lenAt (r' ! 0) (r' ! 1) + 2" using res by simp_all
  then have "length sig = lenAt (r' ! 0) (r' ! 1)" by linarith
  then have "lenHiLo (length sig) = [r' ! 0, r' ! 1]" by (simp add: lenHiLo_lenAt)
  then have "r' = lenHiLo (length sig) @ sig" using two [of r'] res by simp
  moreover have "r = hi_lo (ek_signatureAlgorithm ka') @ r'" if ?tls12
    using two [of r] res that by (simp add: r'_def hi_lo_uint16)
  moreover have "w = params @ r" using res w append_take_drop_id [of "unat n" v] by (simp add: r_def)
  ultimately show "w = serverKeyExchangeWire (ek_version ka) (ek_curveID ka') pub (ek_signatureAlgorithm ka') sig"
    by (auto simp: serverKeyExchangeWire_def pr r'_def split: if_splits)
qed

section \<open>Laws of the crypto packages\<close>

text \<open>
  A signature verifies under the public key of its signer: what the documentation of the signing functions
  promises of the verification functions. A signature fits into 16 bits of length.
\<close>

definition digestOf :: "sigPkgs \<Rightarrow> cryptoHash \<Rightarrow> bytes \<Rightarrow> bytes option" where
  "digestOf S h msg = map_option (\<lambda>f. h_Sum f msg) (sp_New S h)"

definition signer_ok :: "kaPkgs \<Rightarrow> privateKey \<Rightarrow> publicKey \<Rightarrow> bool" where
  "signer_ok K priv pub \<longleftrightarrow>
     (\<forall>r msg opts sig r'. ka_SignMessage K priv r msg opts = Inr (sig, r') \<longrightarrow> length sig < 65536 \<and>
        (case (pub, opts) of
           (RSAPublicKey _ _, SignHash h) \<Rightarrow> (\<exists>d. digestOf (ka_sig K) h msg = Some d \<and> rsa_VerifyPKCS1v15 (ka_sig K) pub h d sig = None)
         | (RSAPublicKey _ _, SignPSS h) \<Rightarrow> (\<exists>d. digestOf (ka_sig K) h msg = Some d \<and> rsa_VerifyPSS (ka_sig K) pub h d sig = None)
         | (ECDSAPublicKey _ _, SignHash h) \<Rightarrow> (\<exists>d. digestOf (ka_sig K) h msg = Some d \<and> ecdsa_VerifyASN1 (ka_sig K) pub d sig)
         | (Ed25519PublicKey _, SignHash h) \<Rightarrow> h = Hash0 \<longrightarrow> ed25519_Verify (ka_sig K) pub msg sig
         | _ \<Rightarrow> True)) \<and>
     (\<forall>r digest h sig r'. ka_Sign K priv r digest h = Inr (sig, r') \<longrightarrow> length sig < 65536 \<and>
        (case pub of
           RSAPublicKey _ _ \<Rightarrow> rsa_VerifyPKCS1v15 (ka_sig K) pub h digest sig = None
         | ECDSAPublicKey _ _ \<Rightarrow> ecdsa_VerifyASN1 (ka_sig K) pub digest sig
         | _ \<Rightarrow> True))"

text \<open>The named curves: the law of Diffie-Hellman, public keys of at most 255 bytes, and no failure on a generated public key.\<close>

definition curves_ok :: "kaPkgs \<Rightarrow> bool" where
  "curves_ok K \<longleftrightarrow> (\<forall>i c. curveForCurveID K i = Some c \<longrightarrow> (\<exists>n<256. ecdhCurve_ok n c) \<and>
     (\<forall>k k' p. ec_NewPublicKey c (ec_PublicKey c k) = Inr p \<longrightarrow> (\<exists>s. ec_ECDH c k' p = Inr s)))"

text \<open>Decryption undoes encryption; a ciphertext fits into 16 bits of length.\<close>

definition rsa_ok :: "kaPkgs \<Rightarrow> privateKey \<Rightarrow> publicKey \<Rightarrow> bool" where
  "rsa_ok K priv pub \<longleftrightarrow> ka_Decrypter K priv \<noteq> None \<and>
     (\<forall>r m c r'. length m = 48 \<longrightarrow> ka_EncryptPKCS1v15 K r pub m = Inr (c, r') \<longrightarrow>
        length c < 65536 \<and> (\<forall>r2. \<exists>r3. ka_Decrypt K priv r2 c = Inr (m, r3)))"

text \<open>The random source of a side does not run out.\<close>

definition can_draw :: "kaPkgs \<Rightarrow> kaFn \<Rightarrow> publicKey \<Rightarrow> bytes \<Rightarrow> bool" where
  "can_draw K f pub rand \<longleftrightarrow>
     (if f = rsaKA then (\<exists>N e. pub = RSAPublicKey N e) \<and> length rand \<ge> 46 \<and>
        (\<forall>m. \<exists>c r. ka_EncryptPKCS1v15 K (drop 46 rand) pub m = Inr (c, r))
      else \<forall>i c. curveForCurveID K i = Some c \<longrightarrow> (\<exists>k r. ec_GenerateKey c rand = Inr (k, r)))"

text \<open>The two calls of a client, \<open>processServerKeyExchange\<close> when there is a message, then \<open>generateClientKeyExchange\<close>.\<close>

definition clientTurn :: "kaPkgs \<Rightarrow> bytes \<Rightarrow> clientHelloMsg \<Rightarrow> serverHelloMsg \<Rightarrow> x509Certificate \<Rightarrow> serverKeyExchangeMsg option \<Rightarrow>
    keyAgreement \<Rightarrow> (bytes \<times> clientKeyExchangeMsg \<times> bytes) res option" where
  "clientTurn K rand ch sh cert skx ka =
     (case skx of
        None \<Rightarrow> Some (generateClientKeyExchange K rand ch cert ka)
      | Some m \<Rightarrow> (case processServerKeyExchange K rand ch sh cert m ka of
            None \<Rightarrow> None
          | Some (ka, Inl e) \<Rightarrow> Some (Inl e)
          | Some (ka, Inr rand) \<Rightarrow> Some (generateClientKeyExchange K rand ch cert ka)))"

section \<open>Agreement\<close>

lemma selected_scheme:
  assumes "selectSignatureScheme vers cert algs = Inr alg"
  obtains pub where "asSigner (PrivateKey cert) = Some pub" "alg \<in> set algs" "scheme_fits vers pub alg"
proof -
  obtain pub where pub: "asSigner (PrivateKey cert) = Some pub"
    "find (\<lambda>a. isSupportedSignatureAlgorithm a (certificateAlgs vers cert pub)) algs = Some alg"
    using assms by (auto simp: selectSignatureScheme_def Let_def split: option.splits if_splits)
  then have "alg \<in> set algs" "alg \<in> set (certificateAlgs vers cert pub)"
    by (auto simp: find_Some_iff isSupportedSignatureAlgorithm_def)
  then show ?thesis using that pub(1) by (simp add: certificateAlgs_set schemes_fit)
qed

lemma scheme_hash:
  assumes "typeAndHashFromSignatureScheme alg = Inr (t, h)"
  shows "t = signatureEd25519 \<longleftrightarrow> h = Hash0"
  using assms by (auto simp: typeAndHashFromSignatureScheme_def Let_def split: if_splits)

lemma signed_verifies:
  assumes "scheme_fits vers pub alg" and "typeAndHashFromSignatureScheme alg = Inr (t, h)" and "signer_ok K priv pub"
    and "ka_SignMessage K priv r msg (if t = signatureRSAPSS then SignPSS h else SignHash h) = Inr (sig, r')"
  shows "verifyHandshakeSignature (ka_sig K) t pub h msg sig = Some None"
proof -
  have digest: "verifyHandshakeSignature (ka_sig K) t pub h msg sig = Some (verifyDigest (ka_sig K) t pub h d sig)"
    if "h \<noteq> Hash0" "digestOf (ka_sig K) h msg = Some d" for d
    using that by (auto simp: verifyHandshakeSignature_def digestOf_def hs_Sum_def hs_Write_def hs_new_def)
  note law = assms(3) [unfolded signer_ok_def, THEN conjunct1, rule_format, OF assms(4), THEN conjunct2]
  show ?thesis
  proof (cases pub)
    case (RSAPublicKey N e)
    then have "t = signatureRSAPSS \<or> t = signaturePKCS1v15" "h \<noteq> Hash0"
      using assms(1,2) scheme_hash [OF assms(2)] by (auto simp: scheme_fits_def)
    with law RSAPublicKey digest show ?thesis by (auto simp: verifyDigest_def)
  next
    case (ECDSAPublicKey c b)
    then have "t = signatureECDSA" "h \<noteq> Hash0" using assms(1,2) scheme_hash [OF assms(2)] by (auto simp: scheme_fits_def)
    with law ECDSAPublicKey digest show ?thesis by (auto simp: verifyDigest_def)
  next
    case (Ed25519PublicKey b)
    then have "t = signatureEd25519" "h = Hash0" using assms(1,2) scheme_hash [OF assms(2)] by (auto simp: scheme_fits_def)
    with law Ed25519PublicKey show ?thesis by (simp add: verifyHandshakeSignature_def verifyDigest_def)
  next
    case (OtherPublicKey x)
    then show ?thesis using assms(1,2) by (simp add: scheme_fits_def)
  qed
qed

lemma signServerParams_verifies:
  assumes "signServerParams K r cert ch sh params pub ka = (ka', Inr (sig, r'))"
    and "asSigner (PrivateKey cert) = Some pub" and "signer_ok K (PrivateKey cert) pub"
  shows "length sig < 65536" and "\<exists>alg. ka' = ka\<lparr>ek_signatureAlgorithm := alg\<rparr>"
    and "ek_version kc = ek_version ka \<Longrightarrow> ek_isRSA kc = ek_isRSA ka \<Longrightarrow>
       (ek_version ka \<ge> VersionTLS12 \<Longrightarrow> ek_signatureAlgorithm kc = ek_signatureAlgorithm ka') \<Longrightarrow>
       verifyServerParams K ch sh pub params sig kc = Some None"
proof -
  let ?msg = "ch_random ch @ sh_random sh @ params"
  have legacy: "length sig < 65536 \<and> (\<exists>alg. ka' = ka\<lparr>ek_signatureAlgorithm := alg\<rparr>) \<and>
      (ek_version kc = ek_version ka \<longrightarrow> ek_isRSA kc = ek_isRSA ka \<longrightarrow> verifyServerParams K ch sh pub params sig kc = Some None)"
    if old: "\<not> ek_version ka \<ge> VersionTLS12"
  proof -
    obtain t h where th: "legacyTypeAndHashFromPublicKey pub = Inr (t, h)"
      using assms(1) old by (cases "legacyTypeAndHashFromPublicKey pub") (auto simp: signServerParams_def)
    then have t: "legacyTypeAndHashFromPublicKey pub = Inr (t, h)" "(t = signaturePKCS1v15) = ek_isRSA ka" "ka' = ka"
        "ka_Sign K (PrivateKey cert) r (hashForServerKeyExchange K t [ch_random ch, sh_random sh, params]) h = Inr (sig, r')"
      using assms(1) old by (simp_all add: signServerParams_def Let_def split: sum.split_asm if_split_asm)
    note law = assms(3) [unfolded signer_ok_def, THEN conjunct2, rule_format, OF t(4)]
    have "verifyServerParams K ch sh pub params sig kc = Some None" if "ek_version kc = ek_version ka" "ek_isRSA kc = ek_isRSA ka"
      using t(1,2) law old that
      by (cases pub) (auto simp: verifyServerParams_def legacyTypeAndHashFromPublicKey_def verifyLegacyHandshakeSignature_def
          verifyDigest_def Let_def)
    moreover have "\<exists>alg. ka' = ka\<lparr>ek_signatureAlgorithm := alg\<rparr>" using t(3) by (intro exI [of _ "ek_signatureAlgorithm ka"]) simp
    ultimately show ?thesis using law by blast
  qed
  have tls12: "length sig < 65536 \<and> (\<exists>alg. ka' = ka\<lparr>ek_signatureAlgorithm := alg\<rparr>) \<and>
      (ek_version kc = ek_version ka \<longrightarrow> ek_isRSA kc = ek_isRSA ka \<longrightarrow> ek_signatureAlgorithm kc = ek_signatureAlgorithm ka' \<longrightarrow>
        verifyServerParams K ch sh pub params sig kc = Some None)"
    if new: "ek_version ka \<ge> VersionTLS12"
  proof -
    obtain alg t h where t: "selectSignatureScheme (ek_version ka) cert (ch_supportedSignatureAlgorithms ch) = Inr alg"
        "typeAndHashFromSignatureScheme alg = Inr (t, h)" "isRSASig t = ek_isRSA ka" "ka' = ka\<lparr>ek_signatureAlgorithm := alg\<rparr>"
        "ka_SignMessage K (PrivateKey cert) r ?msg (if t = signatureRSAPSS then SignPSS h else SignHash h) = Inr (sig, r')"
    proof -
      obtain alg where a: "selectSignatureScheme (ek_version ka) cert (ch_supportedSignatureAlgorithms ch) = Inr alg"
        using assms(1) new
        by (cases "selectSignatureScheme (ek_version ka) cert (ch_supportedSignatureAlgorithms ch)") (auto simp: signServerParams_def)
      obtain t h where "typeAndHashFromSignatureScheme alg = Inr (t, h)"
        using assms(1) new a by (cases "typeAndHashFromSignatureScheme alg") (auto simp: signServerParams_def Let_def)
      with a show ?thesis using assms(1) new that [of alg t h]
        by (simp add: signServerParams_def Let_def split: sum.split_asm if_split_asm)
    qed
    have "alg \<in> set (ch_supportedSignatureAlgorithms ch)" "scheme_fits (ek_version ka) pub alg"
      using selected_scheme [OF t(1)] assms(2) by auto
    moreover have "length sig < 65536"
      using assms(3) [unfolded signer_ok_def, THEN conjunct1, rule_format, OF t(5)] by blast
    ultimately show ?thesis using signed_verifies [OF _ t(2) assms(3) t(5)] t new
      by (auto simp: verifyServerParams_def isSupportedSignatureAlgorithm_def)
  qed
  show "length sig < 65536" "\<exists>alg. ka' = ka\<lparr>ek_signatureAlgorithm := alg\<rparr>"
    using legacy tls12 by blast+
  show "verifyServerParams K ch sh pub params sig kc = Some None"
    if "ek_version kc = ek_version ka" "ek_isRSA kc = ek_isRSA ka"
       "ek_version ka \<ge> VersionTLS12 \<Longrightarrow> ek_signatureAlgorithm kc = ek_signatureAlgorithm ka'"
    using legacy tls12 that by blast
qed

text \<open>What a server that sent its message holds: the curve and the key pair the parameters were made of.\<close>

lemma generateServerKeyExchange_sent:
  assumes "ecdhe_generateServerKeyExchange K config rand cert ch sh ka = (kas, Inr (skx, rand'))"
    and "asSigner (PrivateKey cert) = Some pub" and "signer_ok K (PrivateKey cert) pub"
  obtains c k sig where "curveForCurveID K (ek_curveID kas) = Some c" "ek_key kas = Some \<lparr>pk_Curve = c, pk_key = k\<rparr>"
    "skx = \<lparr>skx_key = serverKeyExchangeWire (ek_version ka) (ek_curveID kas) (ec_PublicKey c k) (ek_signatureAlgorithm kas) sig\<rparr>"
    "length sig < 65536" "ek_curveID ka = 0 \<Longrightarrow> ek_curveID kas \<in> set (ch_supportedCurves ch)"
    "\<And>kc. ek_version kc = ek_version ka \<Longrightarrow> ek_isRSA kc = ek_isRSA ka \<Longrightarrow>
       (ek_version ka \<ge> VersionTLS12 \<Longrightarrow> ek_signatureAlgorithm kc = ek_signatureAlgorithm kas) \<Longrightarrow>
       verifyServerParams K ch sh pub (serverECDHEParams (ek_curveID kas) (ec_PublicKey c k)) sig kc = Some None"
proof -
  define ka1 where "ka1 = (case find (supportsCurve (Some config) (ek_version ka)) (ch_supportedCurves ch) of
      Some c \<Rightarrow> ka\<lparr>ek_curveID := c\<rparr> | None \<Rightarrow> ka)"
  have ka1: "ek_version ka1 = ek_version ka" "ek_isRSA ka1 = ek_isRSA ka"
      "ek_curveID ka = 0 \<Longrightarrow> ek_curveID ka1 \<noteq> 0 \<Longrightarrow> ek_curveID ka1 \<in> set (ch_supportedCurves ch)"
    using find_Some_iff [of "supportsCurve (Some config) (ek_version ka)" "ch_supportedCurves ch"]
    unfolding ka1_def by (auto split: option.split)
  define params where "params = (\<lambda>key. serverECDHEParams (ek_curveID ka1) (pk_PublicKey key))"
  obtain key rand1 where g1: "ek_curveID ka1 \<noteq> 0" "generateECDHEKey K rand (ek_curveID ka1) = Inr (key, rand1)"
    using assms(1) unfolding ecdhe_generateServerKeyExchange_def ka1_def [symmetric] Let_def
    by (cases "generateECDHEKey K rand (ek_curveID ka1)") (auto split: if_split_asm)
  obtain ka2 x where g2: "signServerParams K rand1 cert ch sh (params key) pub (ka1\<lparr>ek_key := Some key\<rparr>) = (ka2, x)" by force
  have "\<exists>sig. signServerParams K rand1 cert ch sh (params key) pub (ka1\<lparr>ek_key := Some key\<rparr>) = (kas, Inr (sig, rand')) \<and>
      skx = \<lparr>skx_key = params key @ (if ek_version kas \<ge> VersionTLS12 then hi_lo (ek_signatureAlgorithm kas) else []) @
        lenHiLo (length sig) @ sig\<rparr>"
    using assms(1,2) g1 g2 unfolding ecdhe_generateServerKeyExchange_def ka1_def [symmetric] Let_def params_def
    by (cases x) (auto split: if_split_asm)
  then obtain sig where g3: "signServerParams K rand1 cert ch sh (params key) pub (ka1\<lparr>ek_key := Some key\<rparr>) = (kas, Inr (sig, rand'))"
      "skx = \<lparr>skx_key = params key @ (if ek_version kas \<ge> VersionTLS12 then hi_lo (ek_signatureAlgorithm kas) else []) @
        lenHiLo (length sig) @ sig\<rparr>"
    by blast
  note g = g1 g3 [unfolded params_def]
  obtain c k where c: "curveForCurveID K (ek_curveID ka1) = Some c" "key = \<lparr>pk_Curve = c, pk_key = k\<rparr>"
    using g(2) by (auto simp: generateECDHEKey_def split: option.splits sum.splits)
  note sv = signServerParams_verifies [OF g(3) assms(2,3)]
  obtain alg where kas: "kas = ka1\<lparr>ek_key := Some key, ek_signatureAlgorithm := alg\<rparr>" using sv(2) by auto
  show ?thesis
  proof (rule that [of c k sig])
    fix kc :: ecdheKeyAgreement assume "ek_version kc = ek_version ka" "ek_isRSA kc = ek_isRSA ka"
      "ek_version ka \<ge> VersionTLS12 \<Longrightarrow> ek_signatureAlgorithm kc = ek_signatureAlgorithm kas"
    then show "verifyServerParams K ch sh pub (serverECDHEParams (ek_curveID kas) (ec_PublicKey c k)) sig kc = Some None"
      using sv(3) [of kc] ka1 kas c(2) by (simp add: pk_PublicKey_def)
  qed (use g kas c ka1 sv(1) in \<open>simp_all add: serverKeyExchangeWire_def pk_PublicKey_def\<close>)
qed

lemma ecdhe_agreement:
  assumes "curves_ok K" and "asSigner (PrivateKey cert) = Some (crt_PublicKey crt)"
    and "signer_ok K (PrivateKey cert) (crt_PublicKey crt)"
    and "ecdhe_generateServerKeyExchange K config rand cert ch sh ka = (kas, Inr (skx, rand'))" and "ek_curveID ka = 0"
    and "ek_version kc = ek_version ka" and "ek_isRSA kc = ek_isRSA ka"
    and "\<And>i c. curveForCurveID K i = Some c \<Longrightarrow> \<exists>k r. ec_GenerateKey c crand = Inr (k, r)"
  obtains kc' crand' pms ckx where "ecdhe_processServerKeyExchange K crand ch sh crt skx kc = Some (kc', Inr crand')"
    "ecdhe_generateClientKeyExchange kc' = Inr (pms, ckx)" "ecdhe_processClientKeyExchange ckx kas = Some (Inr pms)"
proof (rule generateServerKeyExchange_sent [OF assms(4,2,3)])
  fix c k sig
  assume c: "curveForCurveID K (ek_curveID kas) = Some c" "ek_key kas = Some \<lparr>pk_Curve = c, pk_key = k\<rparr>"
    and skx: "skx = \<lparr>skx_key = serverKeyExchangeWire (ek_version ka) (ek_curveID kas) (ec_PublicKey c k) (ek_signatureAlgorithm kas) sig\<rparr>"
    and sig: "length sig < 65536" and off: "ek_curveID ka = 0 \<Longrightarrow> ek_curveID kas \<in> set (ch_supportedCurves ch)"
    and ver: "\<And>kc. ek_version kc = ek_version ka \<Longrightarrow> ek_isRSA kc = ek_isRSA ka \<Longrightarrow>
       (ek_version ka \<ge> VersionTLS12 \<Longrightarrow> ek_signatureAlgorithm kc = ek_signatureAlgorithm kas) \<Longrightarrow>
       verifyServerParams K ch sh (crt_PublicKey crt) (serverECDHEParams (ek_curveID kas) (ec_PublicKey c k)) sig kc = Some None"
  note cl = assms(1) [unfolded curves_ok_def, THEN spec, THEN spec, THEN mp, OF c(1)]
  from cl obtain n where law: "n < 256" "ecdhCurve_ok n c" by blast
  obtain k' crand' where k': "ec_GenerateKey c crand = Inr (k', crand')" using assms(8) [OF c(1)] by blast
  obtain p where p: "ec_NewPublicKey c (ec_PublicKey c k) = Inr p" using law(2) unfolding ecdhCurve_ok_def by blast
  obtain p' where p': "ec_NewPublicKey c (ec_PublicKey c k') = Inr p'" using law(2) unfolding ecdhCurve_ok_def by blast
  obtain pms where pms: "ec_ECDH c k' p = Inr pms" using cl p by blast
  with p p' law(2) have pms': "ec_ECDH c k p' = Inr pms" by (metis ecdhCurve_ok_def)
  have len: "length (ec_PublicKey c x) = n" for x using law(2) by (simp add: ecdhCurve_ok_def)
  define kc1 where "kc1 = kc\<lparr>ek_curveID := ek_curveID kas,
    ek_signatureAlgorithm := (if ek_version kc \<ge> VersionTLS12 then ek_signatureAlgorithm kas else ek_signatureAlgorithm kc)\<rparr>"
  define kc2 where "kc2 = kc1\<lparr>ek_key := Some \<lparr>pk_Curve = c, pk_key = k'\<rparr>, ek_preMasterSecret := pms,
    ek_ckx := Some \<lparr>cke_ciphertext = [word_of_nat n] @ ec_PublicKey c k'\<rparr>\<rparr>"
  have "readServerKeyExchange (skx_key skx) kc = (kc1, Inr (serverECDHEParams (ek_curveID kas) (ec_PublicKey c k), ec_PublicKey c k, sig))"
    using readServerKeyExchange_wire [OF _ sig, of "ec_PublicKey c k" kc "ek_curveID kas" "ek_signatureAlgorithm kas"] law(1) len
    by (simp add: skx assms(6) kc1_def)
  moreover have "verifyServerParams K ch sh (crt_PublicKey crt) (serverECDHEParams (ek_curveID kas) (ec_PublicKey c k)) sig kc2 = Some None"
    by (rule ver) (use assms(6,7) in \<open>simp_all add: kc2_def kc1_def\<close>)
  ultimately have "ecdhe_processServerKeyExchange K crand ch sh crt skx kc = Some (kc2, Inr crand')"
    using c(1) off assms(5) k' p pms
    by (simp add: ecdhe_processServerKeyExchange_def generateECDHEKey_def pk_PublicKey_def len kc2_def kc1_def)
  moreover have "ecdhe_generateClientKeyExchange kc2 = Inr (pms, \<lparr>cke_ciphertext = [word_of_nat n] @ ec_PublicKey c k'\<rparr>)"
    by (simp add: ecdhe_generateClientKeyExchange_def kc2_def)
  moreover have "ecdhe_processClientKeyExchange \<lparr>cke_ciphertext = [word_of_nat n] @ ec_PublicKey c k'\<rparr> kas = Some (Inr pms)"
    using c(2) p' pms' law(1) by (simp add: ecdhe_processClientKeyExchange_def len unat_of_nat)
  ultimately show ?thesis by (rule that)
qed

lemma rsa_agreement:
  assumes "rsa_ok K (PrivateKey cert) (crt_PublicKey crt)" and "can_draw K rsaKA (crt_PublicKey crt) crand"
  obtains pms ckx crand' r where "rsaKeyAgreement_generateClientKeyExchange K crand ch crt = Inr (pms, ckx, crand')"
    "rsaKeyAgreement_processClientKeyExchange K rand cert ckx = Inr (pms, r)"
proof -
  obtain N e where pub: "crt_PublicKey crt = RSAPublicKey N e" and n: "length crand \<ge> 46"
    using assms(2) by (auto simp: can_draw_def)
  define pms where "pms = hi_lo (ch_vers ch) @ take 46 crand"
  obtain c r where c: "ka_EncryptPKCS1v15 K (drop 46 crand) (crt_PublicKey crt) pms = Inr (c, r)"
    using assms(2) unfolding can_draw_def by (metis (full_types))
  have "length pms = 48" using n by (simp add: pms_def)
  with c assms(1) obtain r3 where d: "length c < 65536" "ka_Decrypt K (PrivateKey cert) rand c = Inr (pms, r3)"
    unfolding rsa_ok_def by blast
  have "rsaKeyAgreement_generateClientKeyExchange K crand ch crt = Inr (pms, \<lparr>cke_ciphertext = lenHiLo (length c) @ c\<rparr>, r)"
    using n c pub by (simp add: rsaKeyAgreement_generateClientKeyExchange_def readFull_def pms_def)
  moreover have "rsaKeyAgreement_processClientKeyExchange K rand cert \<lparr>cke_ciphertext = lenHiLo (length c) @ c\<rparr> = Inr (pms, r3)"
    using d assms(1) lenAt_lenHiLo [OF d(1)]
    by (auto simp: rsaKeyAgreement_processClientKeyExchange_def nth_append rsa_ok_def)
  ultimately show ?thesis by (rule that)
qed

section \<open>Properties\<close>


text \<open>
  Toy packages: one curve under every number, a signature that is the digest, encryption that is the identity.
\<close>

definition kaPkgs_sample :: kaPkgs where
  "kaPkgs_sample = \<lparr>ka_curves = (\<lambda>_. curve_sample),
     ka_sig = \<lparr>sp_New = (\<lambda>_. Some hash_sample), ecdsa_VerifyASN1 = (\<lambda>_ d sig. sig = d),
       ed25519_Verify = (\<lambda>_ msg sig. sig = h_Sum hash_sample msg),
       rsa_VerifyPKCS1v15 = (\<lambda>_ _ d sig. if sig = d then None else Some IoEOF),
       rsa_VerifyPSS = (\<lambda>_ _ d sig. if sig = d then None else Some IoEOF)\<rparr>,
     ka_MD5 = hash_sample, ka_SHA1 = hash_sample,
     ka_SignMessage = (\<lambda>_ r msg _. Inr (h_Sum hash_sample msg, r)),
     ka_Sign = (\<lambda>_ r d _. if length d < 65536 then Inr (d, r) else Inl IoEOF),
     ka_Decrypter = (\<lambda>_. Some (RSAPublicKey 0 0)), ka_Decrypt = (\<lambda>_ r c. Inr (c, r)),
     ka_EncryptPKCS1v15 = (\<lambda>r _ m. if length m = 48 then Inr (m, r) else Inl IoEOF)\<rparr>"

lemma kaPkgs_sample_ok: "curves_ok kaPkgs_sample" "signer_ok kaPkgs_sample priv pub" "rsa_ok kaPkgs_sample priv pub"
proof -
  have "c = curve_sample" if "curveForCurveID kaPkgs_sample i = Some c" for i c
    using that by (auto simp: curveForCurveID_def kaPkgs_sample_def split: if_splits)
  moreover have "\<exists>n<256. ecdhCurve_ok n curve_sample" using curve_sample_ok by (intro exI [of _ 32]) simp
  moreover have "\<exists>s. ec_ECDH curve_sample k p = Inr s" for k p by (simp add: curve_sample_def)
  ultimately show "curves_ok kaPkgs_sample" unfolding curves_ok_def by blast
  have "length (h_Sum hash_sample w) < 65536" for w by (simp add: hash_sample_def)
  then show "signer_ok kaPkgs_sample priv pub"
    by (auto simp: signer_ok_def kaPkgs_sample_def digestOf_def split: publicKey.splits signerOpts.splits if_splits)
  show "rsa_ok kaPkgs_sample priv pub" by (auto simp: rsa_ok_def kaPkgs_sample_def split: if_splits)
qed

definition crt_sample :: x509Certificate where
  "crt_sample = \<lparr>crt_Raw = [1], crt_PublicKey = ECDSAPublicKey P384 [2], crt_NotBefore = 0, crt_NotAfter = 1,
     crt_RawIssuer = [], crt_CommonName = [], crt_DNSNames = []\<rparr>"

definition hello_sample :: clientHelloMsg where
  "hello_sample = clientHelloMsg_zero\<lparr>ch_random := [7], ch_supportedCurves := [X25519],
     ch_supportedSignatureAlgorithms := [ECDSAWithP384AndSHA384]\<rparr>"

lemma sample_sent:
  obtains ka skx r where "generateServerKeyExchange kaPkgs_sample emptyConfig [9] ecCertificate hello_sample serverHelloMsg_zero
     (newKeyAgreement ecdheECDSAKA VersionTLS12) = (ka, Inr (skx, r))"
proof -
  have "supportsCurve (Some emptyConfig) VersionTLS12 X25519" by code_simp
  moreover have "selectSignatureScheme VersionTLS12 ecCertificate [ECDSAWithP384AndSHA384] = Inr ECDSAWithP384AndSHA384" by code_simp
  moreover have "typeAndHashFromSignatureScheme ECDSAWithP384AndSHA384 = Inr (signatureECDSA, SHA384)" by code_simp
  ultimately show ?thesis using that
    by (simp add: ecdhe_generateServerKeyExchange_def signServerParams_def hello_sample_def generateECDHEKey_def curveForCurveID_def
        kaPkgs_sample_def curve_sample_def ecCertificate_def asSigner_def isRSASig_def Let_def)
qed

lemma sample_draws: "can_draw kaPkgs_sample ecdheECDSAKA pub [5]"
  by (auto simp: can_draw_def curveForCurveID_def kaPkgs_sample_def curve_sample_def split: if_splits)

lemma sample_keys: "asSigner (PrivateKey ecCertificate) = Some (crt_PublicKey crt_sample)"
  by code_simp


text \<open>
  (C30) What a client has checked when it accepts an ECDHE ServerKeyExchange message: the message is exactly a
  named curve with its parameters and a signature, the curve is one that the client offered and
  implements, the signature (from TLS 1.2 on under an algorithm that the client offered) verifies under the key of the
  server's certificate over both randoms and these parameters, and the pre-master secret is the
  Diffie-Hellman value of the signed public key.
\<close>

theorem server_key_exchange_authenticated:
  assumes "ecdhe_processServerKeyExchange K rand ch sh crt skx ka = Some (ka', Inr rand')"
  shows "\<exists>c k pub peer sig. skx_key skx = serverKeyExchangeWire (ek_version ka) (ek_curveID ka') pub (ek_signatureAlgorithm ka') sig \<and>
    ek_curveID ka' \<in> set (ch_supportedCurves ch) \<inter> {X25519, CurveP256, CurveP384, CurveP521} \<and>
    c = ka_curves K (ek_curveID ka') \<and> ec_NewPublicKey c pub = Inr peer \<and>
    ek_key ka' = Some \<lparr>pk_Curve = c, pk_key = k\<rparr> \<and> ec_ECDH c k peer = Inr (ek_preMasterSecret ka') \<and>
    (if ek_version ka \<ge> VersionTLS12
     then ek_signatureAlgorithm ka' \<in> set (ch_supportedSignatureAlgorithms ch) \<and>
       verifyHandshakeSignature (ka_sig K) (schemeType (ek_signatureAlgorithm ka')) (crt_PublicKey crt)
         (schemeHash (ek_signatureAlgorithm ka')) (ch_random ch @ sh_random sh @ serverECDHEParams (ek_curveID ka') pub) sig = Some None
     else \<exists>t h. legacyTypeAndHashFromPublicKey (crt_PublicKey crt) = Inr (t, h) \<and>
       verifyLegacyHandshakeSignature (ka_sig K) t (crt_PublicKey crt) h
         (hashForServerKeyExchange K t [ch_random ch, sh_random sh, serverECDHEParams (ek_curveID ka') pub]) sig = None)"
proof -
  obtain ka1 params pub sig where r: "readServerKeyExchange (skx_key skx) ka = (ka1, Inr (params, pub, sig))"
    using assms unfolding ecdhe_processServerKeyExchange_def by (auto split: prod.split_asm sum.split_asm)
  note wire = readServerKeyExchange_Inr [OF r]
  obtain key rand1 where key: "generateECDHEKey K rand (ek_curveID ka1) = Inr (key, rand1)"
    using assms r unfolding ecdhe_processServerKeyExchange_def by (auto split: sum.split_asm if_split_asm)
  obtain peer where peer: "ec_NewPublicKey (pk_Curve key) pub = Inr peer"
    using assms r key unfolding ecdhe_processServerKeyExchange_def
    by (cases "ec_NewPublicKey (pk_Curve key) pub") (auto simp: Let_def split: if_split_asm)
  obtain pms where pms: "ec_ECDH (pk_Curve key) (pk_key key) peer = Inr pms"
    using assms r key peer unfolding ecdhe_processServerKeyExchange_def
    by (cases "ec_ECDH (pk_Curve key) (pk_key key) peer") (auto simp: Let_def split: if_split_asm)
  define ka2 where "ka2 = ka1\<lparr>ek_key := Some key, ek_preMasterSecret := pms,
    ek_ckx := Some \<lparr>cke_ciphertext = [word_of_nat (length (pk_PublicKey key))] @ pk_PublicKey key\<rparr>\<rparr>"
  have fin: "ka' = ka2 \<and> verifyServerParams K ch sh (crt_PublicKey crt) params sig ka2 = Some None \<and>
      ek_curveID ka1 \<in> set (ch_supportedCurves ch)"
    using assms r key peer pms unfolding ecdhe_processServerKeyExchange_def ka2_def
    by (auto simp: Let_def split: if_split_asm option.split_asm)
  then have ka': "ek_curveID ka' = ek_curveID ka1" "ek_signatureAlgorithm ka' = ek_signatureAlgorithm ka1" "ek_key ka' = Some key"
      "ek_preMasterSecret ka' = pms" "ek_version ka2 = ek_version ka" "ek_signatureAlgorithm ka2 = ek_signatureAlgorithm ka1"
    using wire(5) by (simp_all add: ka2_def)
  have curve: "pk_Curve key = ka_curves K (ek_curveID ka1)" "ek_curveID ka1 \<in> {X25519, CurveP256, CurveP384, CurveP521}"
    using key by (auto simp: generateECDHEKey_def curveForCurveID_def split: if_splits sum.splits)
  have sig: "if ek_version ka \<ge> VersionTLS12
     then ek_signatureAlgorithm ka1 \<in> set (ch_supportedSignatureAlgorithms ch) \<and>
       verifyHandshakeSignature (ka_sig K) (schemeType (ek_signatureAlgorithm ka1)) (crt_PublicKey crt)
         (schemeHash (ek_signatureAlgorithm ka1)) (ch_random ch @ sh_random sh @ params) sig = Some None
     else \<exists>t h. legacyTypeAndHashFromPublicKey (crt_PublicKey crt) = Inr (t, h) \<and>
       verifyLegacyHandshakeSignature (ka_sig K) t (crt_PublicKey crt) h
         (hashForServerKeyExchange K t [ch_random ch, sh_random sh, params]) sig = None"
    using fin by (auto simp: verifyServerParams_def ka'(5,6) isSupportedSignatureAlgorithm_def schemeType_def schemeHash_def Let_def
        split: if_split_asm sum.split_asm)
  have "ek_key ka' = Some \<lparr>pk_Curve = ka_curves K (ek_curveID ka'), pk_key = pk_key key\<rparr>" using ka' curve by simp
  then show ?thesis
    using wire(1) curve peer pms fin sig ka'(1,2,4) unfolding wire(2)
    by (intro exI [of _ "ka_curves K (ek_curveID ka')"] exI [of _ "pk_key key"] exI [of _ pub] exI [of _ peer] exI [of _ sig]) simp
qed

theorem server_key_exchange_authenticated_witness:
  "\<exists>skx ka ka' r pub sig. ecdhe_processServerKeyExchange kaPkgs_sample [5] hello_sample serverHelloMsg_zero crt_sample skx ka = Some (ka', Inr r) \<and>
     skx_key skx = serverKeyExchangeWire VersionTLS12 X25519 pub ECDSAWithP384AndSHA384 sig"
proof -
  obtain kas skx r where g: "generateServerKeyExchange kaPkgs_sample emptyConfig [9] ecCertificate hello_sample serverHelloMsg_zero
     (newKeyAgreement ecdheECDSAKA VersionTLS12) = (kas, Inr (skx, r))" by (rule sample_sent)
  let ?ka = "\<lparr>ek_version = VersionTLS12, ek_isRSA = False, ek_ckx = None, ek_preMasterSecret = [], ek_curveID = 0,
    ek_signatureAlgorithm = 0, ek_key = None\<rparr>"
  obtain m ka1 where m: "ecdhe_generateServerKeyExchange kaPkgs_sample emptyConfig [9] ecCertificate hello_sample serverHelloMsg_zero ?ka =
      (ka1, Inr (m, r))"
    using g by (cases "ecdhe_generateServerKeyExchange kaPkgs_sample emptyConfig [9] ecCertificate hello_sample serverHelloMsg_zero ?ka";
      cases "snd (ecdhe_generateServerKeyExchange kaPkgs_sample emptyConfig [9] ecCertificate hello_sample serverHelloMsg_zero ?ka)") auto
  obtain kc' crand' where p: "ecdhe_processServerKeyExchange kaPkgs_sample [5] hello_sample serverHelloMsg_zero crt_sample m ?ka = Some (kc', Inr crand')"
    by (rule ecdhe_agreement [OF kaPkgs_sample_ok(1) sample_keys kaPkgs_sample_ok(2) m, of ?ka "[5]"])
      (use sample_draws in \<open>auto simp: can_draw_def\<close>)
  obtain pub sig where "skx_key m = serverKeyExchangeWire VersionTLS12 (ek_curveID kc') pub (ek_signatureAlgorithm kc') sig"
      "ek_curveID kc' \<in> set (ch_supportedCurves hello_sample)"
      "ek_signatureAlgorithm kc' \<in> set (ch_supportedSignatureAlgorithms hello_sample)"
    using server_key_exchange_authenticated [OF p] by auto
  then show ?thesis using p by (auto simp: hello_sample_def)
qed

end
