(* ===== verification/Ech.thy ===== *)
theory Ech
  imports HandshakeIO
begin

text \<open>
  Encrypted Client Hello: ech.go. Configurations and their lists, the encoding of the inner hello and its
  reconstruction from the outer one, the outer extension, and the server's trial decryption. The package
  \<open>crypto/hpke\<close> is the record \<open>hpkePkgs\<close>; an HPKE context is its sealing or opening function with a message
  counter. A parser's error is a value of \<open>goerror\<close>; \<open>None\<close> is a panic or a loop that does not end. The theory EchHello shows
  the reconstruction of the inner hello, and three defects: a list that is parsed for ever, padding
  that leaves the length of the server name visible, and a client's cipher suite that aborts the handshake.
\<close>

section \<open>Configurations\<close>

record echCipher =
  ecc_KDFID :: u16
  ecc_AEADID :: u16

record echExtension =
  ece_Type :: u16
  ece_Data :: bytes

record echConfig =
  ecf_raw :: bytes
  ecf_Version :: u16
  ecf_Length :: u16
  ecf_ConfigID :: u8
  ecf_KemID :: u16
  ecf_PublicKey :: bytes
  ecf_SymmetricCipherSuite :: "echCipher list"
  ecf_MaxNameLength :: u8
  ecf_PublicName :: bytes
  ecf_Extensions :: "echExtension list"

definition echConfig_zero :: echConfig where
  "echConfig_zero = \<lparr>ecf_raw = [], ecf_Version = 0, ecf_Length = 0, ecf_ConfigID = 0, ecf_KemID = 0, ecf_PublicKey = [],
     ecf_SymmetricCipherSuite = [], ecf_MaxNameLength = 0, ecf_PublicName = [], ecf_Extensions = []\<rparr>"

definition errMalformedECHConfigList :: goerror where
  "errMalformedECHConfigList = ErrorsNew ''tls: malformed ECHConfigList''"

text \<open>The text of an \<open>echConfigErr\<close>.\<close>

definition echConfigErr_Error :: "string \<Rightarrow> string" where
  "echConfigErr_Error field =
     (if field = [] then ''tls: malformed ECHConfig'' else ''tls: malformed ECHConfig, invalid '' @ field @ '' field'')"

text \<open>A read that fails with an error.\<close>

definition orErr :: "goerror \<Rightarrow> 'a option \<Rightarrow> 'a res" where
  "orErr e r = (case r of None \<Rightarrow> Inl e | Some a \<Rightarrow> Inr a)"

definition res_bind :: "'a res \<Rightarrow> ('a \<Rightarrow> 'b res) \<Rightarrow> 'b res" where
  "res_bind r f = (case r of Inl e \<Rightarrow> Inl e | Inr a \<Rightarrow> f a)"

lemma orErr_simps [simp]: "orErr e None = Inl e" "orErr e (Some a) = Inr a" "orErr e r = Inr a \<longleftrightarrow> r = Some a"
  by (auto simp: orErr_def split: option.splits)

lemma res_bind_simps [simp]: "res_bind (Inl e) f = Inl e" "res_bind (Inr a) f = f a"
  by (simp_all add: res_bind_def)

lemma res_bind_Inr: "res_bind r f = Inr b \<longleftrightarrow> (\<exists>a. r = Inr a \<and> f a = Inr b)"
  by (auto simp: res_bind_def split: sum.splits)

definition echSuiteBody :: "('b, 'x) cryptobyte_scheme \<Rightarrow> bytes \<Rightarrow> echCipher list \<Rightarrow> (bytes \<times> echCipher list) res" where
  "echSuiteBody C s acc =
     res_bind (orErr (EchConfigErr ''cipher_suites kdf_id'') (ReadUint16 C s)) (\<lambda>(kdf, s).
     res_bind (orErr (EchConfigErr ''cipher_suites aead_id'') (ReadUint16 C s)) (\<lambda>(aead, s).
     Inr (s, acc @ [\<lparr>ecc_KDFID = kdf, ecc_AEADID = aead\<rparr>])))"

definition echExtensionBody :: "('b, 'x) cryptobyte_scheme \<Rightarrow> bytes \<Rightarrow> echExtension list \<Rightarrow> (bytes \<times> echExtension list) res" where
  "echExtensionBody C s acc =
     res_bind (orErr (EchConfigErr ''extensions type'') (ReadUint16 C s)) (\<lambda>(typ', s).
     res_bind (orErr (EchConfigErr ''extensions data'') (ReadUint16LengthPrefixed C s)) (\<lambda>(d, s).
     Inr (s, acc @ [\<lparr>ece_Type = typ', ece_Data = d\<rparr>])))"

text \<open>The fields behind version and length.\<close>

definition parseECHContents :: "('b, 'x) cryptobyte_scheme \<Rightarrow> echConfig \<Rightarrow> bytes \<Rightarrow> echConfig res" where
  "parseECHContents C ec s =
     res_bind (orErr (EchConfigErr ''config_id'') (ReadUint8 C s)) (\<lambda>(configID, s).
     res_bind (orErr (EchConfigErr ''kem_id'') (ReadUint16 C s)) (\<lambda>(kemID, s).
     res_bind (orErr (EchConfigErr ''public_key'') (readUint16LengthPrefixed C s)) (\<lambda>(publicKey, s).
     res_bind (orErr (EchConfigErr ''cipher_suites'') (ReadUint16LengthPrefixed C s)) (\<lambda>(cipherSuites, s).
     res_bind (read_res (echSuiteBody C) cipherSuites []) (\<lambda>suites.
     res_bind (orErr (EchConfigErr ''maximum_name_length'') (ReadUint8 C s)) (\<lambda>(maxNameLength, s).
     res_bind (orErr (EchConfigErr ''public_name'') (ReadUint8LengthPrefixed C s)) (\<lambda>(publicName, s).
     res_bind (orErr (EchConfigErr ''extensions'') (ReadUint16LengthPrefixed C s)) (\<lambda>(extensions, s).
     res_bind (read_res (echExtensionBody C) extensions []) (\<lambda>exts.
     Inr (ec\<lparr>ecf_ConfigID := configID, ecf_KemID := kemID, ecf_PublicKey := publicKey, ecf_SymmetricCipherSuite := suites,
       ecf_MaxNameLength := maxNameLength, ecf_PublicName := publicName, ecf_Extensions := exts\<rparr>))))))))))"

text \<open>\<open>ec.raw[:ec.Length+4]\<close> adds in 16 bits.\<close>

definition parseECHConfig :: "('b, 'x) cryptobyte_scheme \<Rightarrow> bytes \<Rightarrow> (bool \<times> echConfig) res" where
  "parseECHConfig C enc =
     res_bind (orErr (EchConfigErr ''version'') (ReadUint16 C enc)) (\<lambda>(version, s).
     res_bind (orErr (EchConfigErr ''length'') (ReadUint16 C s)) (\<lambda>(len, s).
     if length enc < unat len + 4 then Inl (EchConfigErr ''length'')
     else let ec = echConfig_zero\<lparr>ecf_raw := take (unat (len + 4)) enc, ecf_Version := version, ecf_Length := len\<rparr>
     in if version \<noteq> extensionEncryptedClientHello then Inr (True, echConfig_zero)
        else res_bind (parseECHContents C ec s) (\<lambda>ec. Inr (False, ec))))"

text \<open>The loop of \<open>parseECHConfigList\<close>; \<open>s[configLen+4:]\<close> adds in 16 bits too.\<close>

partial_function (option) parseECHConfigs ::
    "('b, 'x) cryptobyte_scheme \<Rightarrow> bytes \<Rightarrow> echConfig list \<Rightarrow> echConfig list res option" where
  "parseECHConfigs C s configs =
     (if length s > 0
      then if length s < 4 then Some (Inl (ErrorsNew ''tls: malformed ECHConfig''))
           else let configLen = uint16 (s ! 2) (s ! 3)
           in case parseECHConfig C s of
                Inl e \<Rightarrow> Some (Inl e)
              | Inr (skip, ec) \<Rightarrow>
                  parseECHConfigs C (drop (unat (configLen + 4)) s) (if \<not> skip then configs @ [ec] else configs)
      else Some (Inr configs))"

definition parseECHConfigList :: "('b, 'x) cryptobyte_scheme \<Rightarrow> bytes \<Rightarrow> echConfig list res option" where
  "parseECHConfigList C data =
     (case ReadUint16 C data of
        None \<Rightarrow> Some (Inl errMalformedECHConfigList)
      | Some (len, s) \<Rightarrow>
          if len \<noteq> word_of_int (int (length data) - 2) then Some (Inl errMalformedECHConfigList)
          else parseECHConfigs C s [])"

section \<open>Choosing a configuration\<close>

text \<open>
  What the code calls of \<open>crypto/hpke\<close>. A KEM, KDF or AEAD is its number, once it is known to be supported. A context
  seals (or opens) the n-th message under additional data.
\<close>

record hpkeContext =
  hx_crypt :: "nat \<Rightarrow> bytes \<Rightarrow> bytes \<Rightarrow> bytes res"
  hx_seq :: nat

record hpkePkgs =
  hp_NewKEM :: "u16 \<Rightarrow> goerror option"
  hp_NewPublicKey :: "u16 \<Rightarrow> bytes \<Rightarrow> bytes res"
  hp_NewPrivateKey :: "u16 \<Rightarrow> bytes \<Rightarrow> bytes res"
  hp_NewKDF :: "u16 \<Rightarrow> goerror option"
  hp_NewAEAD :: "u16 \<Rightarrow> goerror option"
  hp_NewSender :: "bytes \<Rightarrow> u16 \<Rightarrow> u16 \<Rightarrow> bytes \<Rightarrow> (bytes \<times> hpkeContext) res"
  hp_NewRecipient :: "bytes \<Rightarrow> bytes \<Rightarrow> u16 \<Rightarrow> u16 \<Rightarrow> bytes \<Rightarrow> hpkeContext res"

text \<open>\<open>Seal\<close> and \<open>Open\<close>: the counter moves with a message that succeeded.\<close>

definition hx_run :: "hpkeContext \<Rightarrow> bytes \<Rightarrow> bytes \<Rightarrow> bytes res \<times> hpkeContext" where
  "hx_run x aad msg = (case hx_crypt x (hx_seq x) aad msg of
     Inl e \<Rightarrow> (Inl e, x)
   | Inr w \<Rightarrow> (Inr w, x\<lparr>hx_seq := Suc (hx_seq x)\<rparr>))"

text \<open>\<open>strings.Split(name, ".")\<close>.\<close>

fun splitDots :: "bytes \<Rightarrow> bytes list" where
  "splitDots [] = [[]]"
| "splitDots (b # bs) = (if b = 46 then [] # splitDots bs
     else case splitDots bs of [] \<Rightarrow> [[b]] | l # ls \<Rightarrow> (b # l) # ls)"

text \<open>
  The loop of \<open>validDNSName\<close> over the runes of a label, by bytes: a byte from 128 on belongs to a rune that is
  rejected as well.
\<close>

definition labelByteOk :: "nat \<Rightarrow> nat \<Rightarrow> u8 \<Rightarrow> bool" where
  "labelByteOk labelLen i r \<longleftrightarrow>
     \<not> (r = 45 \<and> (i = 0 \<or> i = labelLen - 1)) \<and>
     \<not> ((r < 48 \<or> r > 57) \<and> (r < 97 \<or> r > 122) \<and> (r < 65 \<or> r > 90) \<and> r \<noteq> 45)"

definition validDNSName :: "bytes \<Rightarrow> bool" where
  "validDNSName name =
     (if length name > 253 then False
      else let labels = splitDots name
      in if length labels \<le> 1 then False
         else list_all (\<lambda>l. length l \<noteq> 0 \<and> list_all (\<lambda>i. labelByteOk (length l) i (l ! i)) [0..<length l]) labels)"

definition pickSuite :: "hpkePkgs \<Rightarrow> echCipher list \<Rightarrow> echCipher option" where
  "pickSuite Y suites = find (\<lambda>cs. hp_NewKDF Y (ecc_KDFID cs) = None \<and> hp_NewAEAD Y (ecc_AEADID cs) = None) suites"

fun pickECHConfig :: "hpkePkgs \<Rightarrow> echConfig list \<Rightarrow> (echConfig \<times> bytes \<times> u16 \<times> u16) option" where
  "pickECHConfig Y [] = None"
| "pickECHConfig Y (ec # list) =
     (if \<not> validDNSName (ecf_PublicName ec) then pickECHConfig Y list
      else if list_ex (\<lambda>ext. and (ece_Type ext) 0x8000 \<noteq> 0) (ecf_Extensions ec) then pickECHConfig Y list
      else if hp_NewKEM Y (ecf_KemID ec) \<noteq> None then pickECHConfig Y list
      else case hp_NewPublicKey Y (ecf_KemID ec) (ecf_PublicKey ec) of
        Inl _ \<Rightarrow> pickECHConfig Y list
      | Inr pub \<Rightarrow>
          (case pickSuite Y (ecf_SymmetricCipherSuite ec) of
             Some cs \<Rightarrow> Some (ec, pub, ecc_KDFID cs, ecc_AEADID cs)
           | None \<Rightarrow> pickECHConfig Y list))"

section \<open>The inner hello\<close>

definition encodeInnerClientHello :: "('b, 'x) cryptobyte_scheme \<Rightarrow> clientHelloMsg \<Rightarrow> nat \<Rightarrow> bytes res" where
  "encodeInnerClientHello C inner maxNameLength =
     (case clientHelloMsg_marshalMsg C True inner of
        Inl e \<Rightarrow> Inl e
      | Inr h \<Rightarrow>
          (let h = drop 4 h;
               paddingLen = (if ch_serverName inner \<noteq> [] then maxNameLength - length (ch_serverName inner) else maxNameLength + 9);
               paddingLen = 31 - ((length h + paddingLen - 1) mod 32)
           in Inr (h @ replicate paddingLen 0)))"

definition skipUint8LengthPrefixed :: "('b, 'x) cryptobyte_scheme \<Rightarrow> bytes \<Rightarrow> bytes option" where
  "skipUint8LengthPrefixed C s = do { (skip, s) \<leftarrow> ReadUint8 C s; Skip C (unat skip) s }"

definition skipUint16LengthPrefixed :: "('b, 'x) cryptobyte_scheme \<Rightarrow> bytes \<Rightarrow> bytes option" where
  "skipUint16LengthPrefixed C s = do { (skip, s) \<leftarrow> ReadUint16 C s; Skip C (unat skip) s }"

type_synonym rawExtension = "u16 \<times> bytes"

definition rawExtensionBody :: "('b, 'x) cryptobyte_scheme \<Rightarrow> bytes \<Rightarrow> rawExtension list \<Rightarrow> (bytes \<times> rawExtension list) option" where
  "rawExtensionBody C s acc = do {
     (extension, s) \<leftarrow> ReadUint16 C s;
     (extData, s) \<leftarrow> ReadUint16LengthPrefixed C s;
     Some (s, acc @ [(extension, extData)])
   }"

definition extractRawExtensions :: "('b, 'x) cryptobyte_scheme \<Rightarrow> clientHelloMsg \<Rightarrow> rawExtension list res" where
  "extractRawExtensions C hello =
     res_bind (orErr (ErrorsNew ''tls: malformed outer client hello'') (do {
       s \<leftarrow> Skip C (4 + 2 + 32) (case ch_original hello of Some w \<Rightarrow> w | None \<Rightarrow> []);
       s \<leftarrow> skipUint8LengthPrefixed C s;
       s \<leftarrow> skipUint16LengthPrefixed C s;
       s \<leftarrow> skipUint8LengthPrefixed C s;
       (extensions, s) \<leftarrow> ReadUint16LengthPrefixed C s;
       Some extensions
     })) (\<lambda>extensions. orErr (ErrorsNew ''tls: invalid inner client hello'') (read_while (rawExtensionBody C) extensions []))"

text \<open>
  The search \<open>for ; i <= len(rawOuterExts); i++\<close>: the extensions from the one of this type on.
\<close>

fun findRaw :: "u16 \<Rightarrow> rawExtension list \<Rightarrow> rawExtension list option" where
  "findRaw t [] = None"
| "findRaw t ((t', d) # es) = (if t' = t then Some ((t', d) # es) else findRaw t es)"

abbreviation invalidInner :: goerror where "invalidInner \<equiv> ErrorsNew ''tls: invalid inner client hello''"
abbreviation invalidOuterExts :: goerror where "invalidOuterExts \<equiv> ErrorsNew ''tls: invalid outer extensions''"

text \<open>
  The body of the loop over the list of outer extensions: \<open>rest\<close> is what the index has not passed, \<open>ops\<close> are the builder
  statements so far.
\<close>

definition outerExtBody :: "('b, 'x) cryptobyte_scheme \<Rightarrow> bytes \<Rightarrow> rawExtension list \<times> ('b \<Rightarrow> 'b) list \<Rightarrow>
    (bytes \<times> rawExtension list \<times> ('b \<Rightarrow> 'b) list) res" where
  "outerExtBody C extData = (\<lambda>(rest, ops).
     res_bind (orErr invalidInner (ReadUint16 C extData)) (\<lambda>(extType, extData).
     if extType = extensionEncryptedClientHello then Inl invalidOuterExts
     else case findRaw extType rest of
            None \<Rightarrow> Inl invalidOuterExts
          | Some rest \<Rightarrow> Inr (extData, rest,
              ops @ [AddUint16 C (fst (hd rest)), AddUint16LengthPrefixed C (AddBytes C (snd (hd rest)))])))"

text \<open>The body of the loop over the extensions of the encoded hello.\<close>

definition innerExtBody :: "('b, 'x) cryptobyte_scheme \<Rightarrow> rawExtension list \<Rightarrow> bytes \<Rightarrow> ('b \<Rightarrow> 'b) list \<Rightarrow>
    (bytes \<times> ('b \<Rightarrow> 'b) list) res" where
  "innerExtBody C rawOuterExts extensions ops =
     res_bind (orErr invalidInner (ReadUint16 C extensions)) (\<lambda>(extension, extensions).
     res_bind (orErr invalidInner (ReadUint16LengthPrefixed C extensions)) (\<lambda>(extData, extensions).
     if extension = extensionECHOuterExtensions
     then res_bind (orErr invalidInner (ReadUint8LengthPrefixed C extData)) (\<lambda>(extData, _).
          res_bind (read_res (outerExtBody C) extData (rawOuterExts, ops)) (\<lambda>(_, ops). Inr (extensions, ops)))
     else Inr (extensions, ops @ [AddUint16 C extension, AddUint16LengthPrefixed C (AddBytes C extData)])))"

text \<open>The statements of the loop, or \<open>SetError\<close> for the error that it ended with.\<close>

definition innerExtOps :: "('b, 'x) cryptobyte_scheme \<Rightarrow> rawExtension list \<Rightarrow> bytes \<Rightarrow> 'b \<Rightarrow> 'b" where
  "innerExtOps C rawOuterExts extensions = (case read_res (innerExtBody C rawOuterExts) extensions [] of
     Inl e \<Rightarrow> SetError C e
   | Inr ops \<Rightarrow> block ops)"

definition innerHead :: "('b, 'x) cryptobyte_scheme \<Rightarrow> bytes \<Rightarrow> (bytes \<times> bytes \<times> bytes \<times> bytes \<times> bytes) option" where
  "innerHead C s = do {
     (versionAndRandom, s) \<leftarrow> ReadBytes C (2 + 32) s;
     (sessionID, s) \<leftarrow> readUint8LengthPrefixed C s;
     require (length sessionID = 0);
     (cipherSuites, s) \<leftarrow> readUint16LengthPrefixed C s;
     (compressionMethods, s) \<leftarrow> readUint8LengthPrefixed C s;
     (extensions, s) \<leftarrow> ReadUint16LengthPrefixed C s;
     Some (versionAndRandom, cipherSuites, compressionMethods, extensions, s)
   }"

definition errMalformedECHExt :: goerror where
  "errMalformedECHExt = ErrorsNew ''tls: malformed encrypted_client_hello extension''"

definition errInvalidECHExt :: goerror where
  "errInvalidECHExt = ErrorsNew ''tls: client sent invalid encrypted_client_hello extension''"

definition isGREASE :: "u16 \<Rightarrow> bool" where
  "isGREASE v \<longleftrightarrow> and v 0x0F0F = 0x0A0A \<and> and v 0xff = drop_bit 8 v"

fun checkInnerVersions :: "u16 list \<Rightarrow> bool \<Rightarrow> goerror option" where
  "checkInnerVersions [] hasTLS13 =
     (if \<not> hasTLS13 then Some (ErrorsNew ''tls: client sent encrypted_client_hello extension but did not offer TLS 1.3'') else None)"
| "checkInnerVersions (v # vs) hasTLS13 =
     (if isGREASE v then checkInnerVersions vs hasTLS13
      else if v = VersionTLS13 then checkInnerVersions vs True
      else if v < VersionTLS13
      then Some (ErrorsNew ''tls: client sent encrypted_client_hello extension with unsupported versions'')
      else checkInnerVersions vs hasTLS13)"

definition decodeInnerClientHello :: "('b, 'x) cryptobyte_scheme \<Rightarrow> clientHelloMsg \<Rightarrow> bytes \<Rightarrow> clientHelloMsg res" where
  "decodeInnerClientHello C outer encoded =
     res_bind (orErr invalidInner (innerHead C encoded))
       (\<lambda>(versionAndRandom, cipherSuites, compressionMethods, extensions, padding).
     if list_ex (\<lambda>p. p \<noteq> 0) padding then Inl invalidInner
     else res_bind (extractRawExtensions C outer) (\<lambda>rawOuterExts.
     res_bind (Bytes C (block [
         AddUint8 C typeClientHello,
         AddUint24LengthPrefixed C (block [
           AddBytes C versionAndRandom,
           AddUint8LengthPrefixed C (AddBytes C (ch_sessionId outer)),
           AddUint16LengthPrefixed C (AddBytes C cipherSuites),
           AddUint8LengthPrefixed C (AddBytes C compressionMethods),
           AddUint16LengthPrefixed C (innerExtOps C rawOuterExts extensions)])] (NewBuilder C))) (\<lambda>reconBytes.
     case clientHelloMsg_unmarshal C reconBytes of
       None \<Rightarrow> Inl (ErrorsNew ''tls: invalid reconstructed inner client hello'')
     | Some inner \<Rightarrow>
         if ch_encryptedClientHello inner \<noteq> [innerECHExt] then Inl errInvalidECHExt
         else case checkInnerVersions (ch_supportedVersions inner) False of
                Some e \<Rightarrow> Inl e
              | None \<Rightarrow> Inr inner)))"

section \<open>The outer hello\<close>

text \<open>\<open>bytes.Replace(s, old, new, 1)\<close>.\<close>

fun replaceFirst :: "bytes \<Rightarrow> bytes \<Rightarrow> bytes \<Rightarrow> bytes" where
  "replaceFirst old new [] = (if old = [] then new else [])"
| "replaceFirst old new (b # bs) =
     (if HasPrefix (b # bs) old then new @ drop (length old) (b # bs) else b # replaceFirst old new bs)"

definition decryptECHPayload :: "hpkeContext \<Rightarrow> bytes \<Rightarrow> bytes \<Rightarrow> bytes res \<times> hpkeContext" where
  "decryptECHPayload ctx hello payload =
     (let outerAAD = replaceFirst payload (replicate (length payload) 0) (drop 4 hello) in hx_run ctx outerAAD payload)"

definition generateOuterECHExt :: "('b, 'x) cryptobyte_scheme \<Rightarrow> u8 \<Rightarrow> u16 \<Rightarrow> u16 \<Rightarrow> bytes \<Rightarrow> bytes \<Rightarrow> bytes res" where
  "generateOuterECHExt C i kdfID aeadID encodedKey payload = Bytes C (block [
     AddUint8 C 0,
     AddUint16 C kdfID,
     AddUint16 C aeadID,
     AddUint8 C i,
     AddUint16LengthPrefixed C (AddBytes C encodedKey),
     AddUint16LengthPrefixed C (AddBytes C payload)] (NewBuilder C))"

record echClientContext =
  ecx_config :: echConfig
  ecx_hpkeContext :: hpkeContext
  ecx_encapsulatedKey :: bytes
  ecx_innerHello :: "clientHelloMsg option"
  ecx_innerTranscript :: "hashState option"
  ecx_kdfID :: u16
  ecx_aeadID :: u16
  ecx_echRejected :: bool
  ecx_retryConfigs :: "bytes option"

text \<open>The outer hello and the context as the call leaves them, also when it fails.\<close>

definition computeAndUpdateOuterECHExtension :: "('b, 'x) cryptobyte_scheme \<Rightarrow> clientHelloMsg \<Rightarrow> clientHelloMsg \<Rightarrow>
    echClientContext \<Rightarrow> bool \<Rightarrow> goerror option \<times> clientHelloMsg \<times> echClientContext" where
  "computeAndUpdateOuterECHExtension C outer inner ech useKey =
     (let encapKey = (if useKey then ecx_encapsulatedKey ech else []);
          ext = generateOuterECHExt C (ecf_ConfigID (ecx_config ech)) (ecx_kdfID ech) (ecx_aeadID ech) encapKey
      in case encodeInnerClientHello C inner (unat (ecf_MaxNameLength (ecx_config ech))) of
           Inl e \<Rightarrow> (Some e, outer, ech)
         | Inr encodedInner \<Rightarrow>
             (let encryptedLen = length encodedInner + 16 in
              case ext (replicate encryptedLen 0) of
                Inl e \<Rightarrow> (Some e, outer\<lparr>ch_encryptedClientHello := []\<rparr>, ech)
              | Inr w \<Rightarrow>
                  (let outer = outer\<lparr>ch_encryptedClientHello := w\<rparr> in
                   case clientHelloMsg_marshal C outer of
                     Inl e \<Rightarrow> (Some e, outer, ech)
                   | Inr serializedOuter \<Rightarrow>
                       (case hx_run (ecx_hpkeContext ech) (drop 4 serializedOuter) encodedInner of
                          (Inl e, x) \<Rightarrow> (Some e, outer, ech\<lparr>ecx_hpkeContext := x\<rparr>)
                        | (Inr encryptedInner, x) \<Rightarrow>
                            (let ech = ech\<lparr>ecx_hpkeContext := x\<rparr> in
                             case ext encryptedInner of
                               Inl e \<Rightarrow> (Some e, outer\<lparr>ch_encryptedClientHello := []\<rparr>, ech)
                             | Inr w \<Rightarrow> (None, outer\<lparr>ch_encryptedClientHello := w\<rparr>, ech))))))"

abbreviation outerECHExt :: u8 where "outerECHExt \<equiv> 0"

definition parseOuterECHExt :: "('b, 'x) cryptobyte_scheme \<Rightarrow> bytes \<Rightarrow> (echCipher \<times> u8 \<times> bytes \<times> bytes) option" where
  "parseOuterECHExt C s = do {
     (kdf, s) \<leftarrow> ReadUint16 C s;
     (aead, s) \<leftarrow> ReadUint16 C s;
     (configID, s) \<leftarrow> ReadUint8 C s;
     (encap, s) \<leftarrow> readUint16LengthPrefixed C s;
     (payload, s) \<leftarrow> readUint16LengthPrefixed C s;
     Some (\<lparr>ecc_KDFID = kdf, ecc_AEADID = aead\<rparr>, configID, encap, payload)
   }"

text \<open>The type of the extension with the fields of an outer one.\<close>

definition parseECHExt :: "('b, 'x) cryptobyte_scheme \<Rightarrow> bytes \<Rightarrow> (u8 \<times> echCipher \<times> u8 \<times> bytes \<times> bytes) res" where
  "parseECHExt C ext =
     (case ReadUint8 C ext of
        None \<Rightarrow> Inl errMalformedECHExt
      | Some (echType, s) \<Rightarrow>
          if echType = innerECHExt
          then if s \<noteq> [] then Inl errMalformedECHExt else Inr (echType, \<lparr>ecc_KDFID = 0, ecc_AEADID = 0\<rparr>, 0, [], [])
          else if echType \<noteq> outerECHExt then Inl errInvalidECHExt
          else (case parseOuterECHExt C s of
                  None \<Rightarrow> Inl errMalformedECHExt
                | Some (cs, configID, encap, payload) \<Rightarrow> Inr (echType, cs, configID, encap, payload)))"

section \<open>The server\<close>

record EncryptedClientHelloKey =
  ehk_Config :: bytes
  ehk_PrivateKey :: bytes
  ehk_SendAsRetry :: bool

record echServerContext =
  esc_hpkeContext :: "hpkeContext option"
  esc_configID :: u8
  esc_ciphersuite :: echCipher
  esc_transcript :: "hashState option"
  esc_inner :: bool

definition echServerContext_zero :: echServerContext where
  "echServerContext_zero = \<lparr>esc_hpkeContext = None, esc_configID = 0, esc_ciphersuite = \<lparr>ecc_KDFID = 0, ecc_AEADID = 0\<rparr>,
     esc_transcript = None, esc_inner = False\<rparr>"

text \<open>\<open>c.sendAlert(a)\<close> and the return of an error.\<close>

definition connFail :: "Conn \<Rightarrow> u8 \<Rightarrow> goerror \<Rightarrow> ('a res \<times> Conn) option" where
  "connFail c a e = map_option (\<lambda>(_, c). (Inl e, c)) (sendAlert c a)"

text \<open>The private key and the checks on one key of the server; an error aborts the handshake.\<close>

definition echKeyUsable :: "('b, 'x) cryptobyte_scheme \<Rightarrow> hpkePkgs \<Rightarrow> echCipher \<Rightarrow> EncryptedClientHelloKey \<Rightarrow> bytes res" where
  "echKeyUsable C Y suite echKey =
     (case parseECHConfig C (ehk_Config echKey) of
        Inl e \<Rightarrow> Inl (TextError ''tls: invalid EncryptedClientHelloKey Config: '' e)
      | Inr (skip, config) \<Rightarrow>
          if skip then Inl (ErrorsNew ''tls: invalid EncryptedClientHelloKey Config: %!s(<nil>)'')
          else case hp_NewKEM Y (ecf_KemID config) of
            Some e \<Rightarrow> Inl (TextError ''tls: invalid EncryptedClientHelloKey Config KEM: '' e)
          | None \<Rightarrow>
              (case hp_NewPrivateKey Y (ecf_KemID config) (ehk_PrivateKey echKey) of
                 Inl e \<Rightarrow> Inl (TextError ''tls: invalid EncryptedClientHelloKey PrivateKey: '' e)
               | Inr echPriv \<Rightarrow>
                   (case hp_NewKDF Y (ecc_KDFID suite) of
                      Some e \<Rightarrow> Inl (TextError ''tls: invalid EncryptedClientHelloKey Config KDF: '' e)
                    | None \<Rightarrow>
                        (case hp_NewAEAD Y (ecc_AEADID suite) of
                           Some e \<Rightarrow> Inl (TextError ''tls: invalid EncryptedClientHelloKey Config AEAD: '' e)
                         | None \<Rightarrow> Inr echPriv))))"

definition echInfo :: "bytes \<Rightarrow> bytes" where
  "echInfo config = ascii ''tls ech'' @ [0] @ config"

fun tryECHKeys :: "('b, 'x) cryptobyte_scheme \<Rightarrow> hpkePkgs \<Rightarrow> clientHelloMsg \<Rightarrow> echCipher \<Rightarrow> u8 \<Rightarrow> bytes \<Rightarrow> bytes \<Rightarrow>
    EncryptedClientHelloKey list \<Rightarrow> Conn \<Rightarrow> ((clientHelloMsg \<times> echServerContext option) res \<times> Conn) option" where
  "tryECHKeys C Y outer suite configID encap payload [] c = Some (Inr (outer, None), c)"
| "tryECHKeys C Y outer suite configID encap payload (echKey # echKeys) c =
     (case echKeyUsable C Y suite echKey of
        Inl e \<Rightarrow> connFail c alertInternalError e
      | Inr echPriv \<Rightarrow>
          (case hp_NewRecipient Y encap echPriv (ecc_KDFID suite) (ecc_AEADID suite) (echInfo (ehk_Config echKey)) of
             Inl _ \<Rightarrow> tryECHKeys C Y outer suite configID encap payload echKeys c
           | Inr ctx \<Rightarrow>
               (case decryptECHPayload ctx (case ch_original outer of Some w \<Rightarrow> w | None \<Rightarrow> []) payload of
                  (Inl _, _) \<Rightarrow> tryECHKeys C Y outer suite configID encap payload echKeys c
                | (Inr encodedInner, ctx) \<Rightarrow>
                    (case decodeInnerClientHello C outer encodedInner of
                       Inl _ \<Rightarrow> connFail c alertIllegalParameter errInvalidECHExt
                     | Inr echInner \<Rightarrow>
                         Some (Inr (echInner, Some (echServerContext_zero\<lparr>esc_hpkeContext := Some ctx, esc_configID := configID,
                           esc_ciphersuite := suite\<rparr>)), c\<lparr>c_echAccepted := True\<rparr>)))))"

definition processECHClientHello :: "('b, 'x) cryptobyte_scheme \<Rightarrow> hpkePkgs \<Rightarrow> Conn \<Rightarrow> clientHelloMsg \<Rightarrow>
    EncryptedClientHelloKey list \<Rightarrow> ((clientHelloMsg \<times> echServerContext option) res \<times> Conn) option" where
  "processECHClientHello C Y c outer echKeys =
     (case parseECHExt C (ch_encryptedClientHello outer) of
        Inl err \<Rightarrow> connFail c (if err = errInvalidECHExt then alertIllegalParameter else alertDecodeError) errInvalidECHExt
      | Inr (echType, suite, configID, encap, payload) \<Rightarrow>
          if echType = innerECHExt then Some (Inr (outer, Some (echServerContext_zero\<lparr>esc_inner := True\<rparr>)), c)
          else if length echKeys = 0 then Some (Inr (outer, None), c)
          else tryECHKeys C Y outer suite configID encap payload echKeys c)"

text \<open>The outer option is nil.\<close>

definition buildRetryConfigList :: "('b, 'x) cryptobyte_scheme \<Rightarrow> EncryptedClientHelloKey list \<Rightarrow> bytes option res" where
  "buildRetryConfigList C keys =
     (let retry = filter ehk_SendAsRetry keys in
      if retry = [] then Inr None
      else case Bytes C (block [AddUint16LengthPrefixed C (foreach retry (\<lambda>k. [AddBytes C (ehk_Config k)]))] (NewBuilder C)) of
             Inl e \<Rightarrow> Inl e
           | Inr w \<Rightarrow> Inr (Some w))"

end
