(* ===== verification/CertSelect.thy ===== *)
theory CertSelect
  imports KeyAgreement Ech
begin

text \<open>
  What the two sides decide from configuration and hello before keys are agreed: common.go on certificates (\<open>getCertificate\<close>,
  both \<open>SupportsCertificate\<close> methods, \<open>BuildNameToCertificate\<close>), the choice of an application protocol and of ECDHE in
  handshake\_server.go and handshake\_client.go, the public state of a connection, and the cache of parsed certificates. The package
  \<open>crypto/x509\<close> is the record \<open>x509Pkgs\<close>; the callbacks of a configuration are functions in \<open>configExt\<close>.
\<close>

section \<open>Certificates and configuration\<close>

type_synonym certPool = "x509Certificate list"

datatype ExtKeyUsage = ExtKeyUsageServerAuth | ExtKeyUsageClientAuth

record VerifyOptions =
  vo_DNSName :: bytes
  vo_Intermediates :: "certPool option"
  vo_Roots :: "certPool option"
  vo_CurrentTime :: int
  vo_KeyUsages :: "ExtKeyUsage list"

record x509Pkgs =
  px_ParseCertificate :: certParser
  px_Verify :: "x509Certificate \<Rightarrow> VerifyOptions \<Rightarrow> x509Certificate list list res"
  px_VerifyHostname :: "x509Certificate \<Rightarrow> bytes \<Rightarrow> goerror option"
  px_Subjects :: "certPool \<Rightarrow> bytes list"
  px_fullVerify :: bool

record ClientHelloInfo =
  chi_CipherSuites :: "u16 list"
  chi_ServerName :: bytes
  chi_SupportedCurves :: "u16 list"
  chi_SupportedPoints :: bytes
  chi_SignatureSchemes :: "u16 list"
  chi_SupportedProtos :: "bytes list"
  chi_SupportedVersions :: "u16 list"
  chi_Extensions :: "u16 list"
  chi_HelloRetryRequest :: bool
  chi_config :: "Config option"

record CertificateRequestInfo =
  cri_AcceptableCAs :: "bytes list"
  cri_SignatureSchemes :: "u16 list"
  cri_Version :: u16

text \<open>\<open>func(label string, context []byte, length int) ([]byte, error)\<close>; the outer option is a panic.\<close>

type_synonym ekmFunc = "string \<Rightarrow> bytes option \<Rightarrow> nat \<Rightarrow> bytes res option"

record ConnectionState =
  st_Version :: u16
  st_HandshakeComplete :: bool
  st_DidResume :: bool
  st_CipherSuite :: u16
  st_CurveID :: u16
  st_NegotiatedProtocol :: bytes
  st_NegotiatedProtocolIsMutual :: bool
  st_ServerName :: string
  st_PeerCertificates :: "x509Certificate list"
  st_VerifiedChains :: "x509Certificate list list"
  st_SignedCertificateTimestamps :: "bytes list option"
  st_OCSPResponse :: "bytes option"
  st_TLSUnique :: "bytes option"
  st_ECHAccepted :: bool
  st_HelloRetryRequest :: bool
  st_ekm :: "ekmFunc option"
  st_testingOnlyPeerSignatureAlgorithm :: u16

text \<open>
  The rest of \<open>Config\<close>: certificates, pools of authorities, callbacks. A callback that is not set is \<open>None\<close>; a nil certificate,
  session or error is \<open>None\<close>. \<open>cx_KeyLogWriter\<close> is the error that \<open>Write\<close> returns for a line.
\<close>

record configExt =
  cx_Certificates :: "localCertificate list"
  cx_NameToCertificate :: "(bytes \<rightharpoonup> localCertificate) option"
  cx_GetCertificate :: "(ClientHelloInfo \<Rightarrow> localCertificate option res) option"
  cx_GetClientCertificate :: "(CertificateRequestInfo \<Rightarrow> localCertificate option res) option"
  cx_VerifyPeerCertificate :: "(bytes list \<Rightarrow> x509Certificate list list \<Rightarrow> goerror option) option"
  cx_VerifyConnection :: "(ConnectionState \<Rightarrow> goerror option) option"
  cx_RootCAs :: "certPool option"
  cx_ClientCAs :: "certPool option"
  cx_UnwrapSession :: "(bytes \<Rightarrow> ConnectionState \<Rightarrow> SessionState option res) option"
  cx_WrapSession :: "(ConnectionState \<Rightarrow> SessionState \<Rightarrow> bytes res) option"
  cx_KeyLogWriter :: "(bytes \<Rightarrow> goerror option) option"
  cx_EncryptedClientHelloRejectionVerify :: "(ConnectionState \<Rightarrow> goerror option) option"
  cx_EncryptedClientHelloKeys :: "EncryptedClientHelloKey list"
  cx_GetEncryptedClientHelloKeys :: "(ClientHelloInfo \<Rightarrow> EncryptedClientHelloKey list res) option"

definition configExt_zero :: configExt where
  "configExt_zero = \<lparr>cx_Certificates = [], cx_NameToCertificate = None, cx_GetCertificate = None, cx_GetClientCertificate = None,
     cx_VerifyPeerCertificate = None, cx_VerifyConnection = None, cx_RootCAs = None, cx_ClientCAs = None, cx_UnwrapSession = None,
     cx_WrapSession = None, cx_KeyLogWriter = None, cx_EncryptedClientHelloRejectionVerify = None, cx_EncryptedClientHelloKeys = [],
     cx_GetEncryptedClientHelloKeys = None\<rparr>"

text \<open>\<open>Clone\<close> of a configuration in its two parts, field by field as in the code.\<close>

definition Config_Clone :: "(Config \<times> configExt) option \<Rightarrow> (Config \<times> configExt) option" where
  "Config_Clone p = (case p of
     None \<Rightarrow> None
   | Some (c, x) \<Rightarrow> Some
       (\<lparr>cfg_Rand = cfg_Rand c, cfg_NextProtos = cfg_NextProtos c, cfg_ServerName = cfg_ServerName c, cfg_ClientAuth = cfg_ClientAuth c,
          cfg_InsecureSkipVerify = cfg_InsecureSkipVerify c, cfg_CipherSuites = cfg_CipherSuites c,
          cfg_SessionTicketsDisabled = cfg_SessionTicketsDisabled c, cfg_SessionTicketKey = cfg_SessionTicketKey c,
          cfg_MinVersion = cfg_MinVersion c, cfg_MaxVersion = cfg_MaxVersion c, cfg_CurvePreferences = cfg_CurvePreferences c,
          cfg_DynamicRecordSizingDisabled = cfg_DynamicRecordSizingDisabled c, cfg_Renegotiation = cfg_Renegotiation c,
          cfg_EncryptedClientHelloConfigList = cfg_EncryptedClientHelloConfigList c,
          cfg_sessionTicketKeys = cfg_sessionTicketKeys c, cfg_autoSessionTicketKeys = cfg_autoSessionTicketKeys c\<rparr>,
        \<lparr>cx_Certificates = cx_Certificates x, cx_NameToCertificate = cx_NameToCertificate x, cx_GetCertificate = cx_GetCertificate x,
          cx_GetClientCertificate = cx_GetClientCertificate x, cx_VerifyPeerCertificate = cx_VerifyPeerCertificate x,
          cx_VerifyConnection = cx_VerifyConnection x, cx_RootCAs = cx_RootCAs x, cx_ClientCAs = cx_ClientCAs x,
          cx_UnwrapSession = cx_UnwrapSession x, cx_WrapSession = cx_WrapSession x, cx_KeyLogWriter = cx_KeyLogWriter x,
          cx_EncryptedClientHelloRejectionVerify = cx_EncryptedClientHelloRejectionVerify x,
          cx_EncryptedClientHelloKeys = cx_EncryptedClientHelloKeys x, cx_GetEncryptedClientHelloKeys = cx_GetEncryptedClientHelloKeys x\<rparr>))"

text \<open>No field is forgotten: a clone behaves as the original.\<close>

lemma Config_Clone_same: "Config_Clone p = p"
  by (auto simp: Config_Clone_def split: option.split)

text \<open>\<open>leaf\<close>: the outer option is the panic of \<open>c.Certificate[0]\<close>.\<close>

definition Certificate_leaf :: "x509Pkgs \<Rightarrow> localCertificate \<Rightarrow> x509Certificate res option" where
  "Certificate_leaf X c = (case Leaf c of
     Some l \<Rightarrow> Some (Inr l)
   | None \<Rightarrow> (case Certificate_der c of [] \<Rightarrow> None | der # _ \<Rightarrow> Some (px_ParseCertificate X der)))"

section \<open>Application protocols and ECDHE\<close>

definition negotiateALPN :: "bytes list \<Rightarrow> bytes list \<Rightarrow> bool \<Rightarrow> bytes res" where
  "negotiateALPN serverProtos clientProtos quic =
     (if length serverProtos = 0 \<or> length clientProtos = 0
      then if quic \<and> length serverProtos \<noteq> 0
           then Inl (ErrorsNew ''tls: client did not request an application protocol'')
           else Inr []
      else case find (\<lambda>s. list_ex (\<lambda>c. s = c) clientProtos) serverProtos of
             Some s \<Rightarrow> Inr s
           | None \<Rightarrow>
               if list_ex (\<lambda>s. list_ex (\<lambda>c. s = ascii ''h2'' \<and> c = ascii ''http/1.1'') clientProtos) serverProtos
               then Inr []
               else Inl (ErrorsNew ''tls: client requested unsupported application protocols (%q)''))"

definition checkALPN :: "bytes list \<Rightarrow> bytes \<Rightarrow> bool \<Rightarrow> goerror option" where
  "checkALPN clientProtos serverProto quic =
     (if serverProto = []
      then if quic \<and> length clientProtos > 0 then Some (ErrorsNew ''tls: server did not select an ALPN protocol'') else None
      else if length clientProtos = 0 then Some (ErrorsNew ''tls: server advertised unrequested ALPN extension'')
      else if list_ex (\<lambda>proto. proto = serverProto) clientProtos then None
      else Some (ErrorsNew ''tls: server selected unadvertised ALPN protocol''))"

abbreviation pointFormatUncompressed :: u8 where "pointFormatUncompressed \<equiv> 0"

definition supportsECDHE :: "Config \<Rightarrow> u16 \<Rightarrow> u16 list \<Rightarrow> bytes \<Rightarrow> bool res" where
  "supportsECDHE c version supportedCurves supportedPoints =
     (let supportsCurve = list_ex (supportsCurve (Some c) version) supportedCurves;
          supportsPointFormat = list_ex (\<lambda>p. p = pointFormatUncompressed) supportedPoints;
          offeredNonCompressedFormat = list_ex (\<lambda>p. p \<noteq> pointFormatUncompressed) supportedPoints
      in if length supportedPoints = 0 then Inr supportsCurve
         else if offeredNonCompressedFormat \<and> \<not> supportsPointFormat
         then Inl (ErrorsNew ''tls: client offered only incompatible point formats'')
         else Inr (supportsCurve \<and> supportsPointFormat))"

section \<open>Which certificate\<close>

definition hasFlag :: "cipherSuite \<Rightarrow> nat \<Rightarrow> bool" where
  "hasFlag c f \<longleftrightarrow> and (cs_flags c) f \<noteq> 0"

text \<open>\<open>supportsRSAFallback(unsupported)\<close>.\<close>

definition supportsRSAFallback :: "kaPkgs \<Rightarrow> Config \<Rightarrow> u16 \<Rightarrow> ClientHelloInfo \<Rightarrow> localCertificate \<Rightarrow> goerror \<Rightarrow> goerror option" where
  "supportsRSAFallback K config vers chi c unsupported =
     (if vers = VersionTLS13 then Some unsupported
      else case ka_Decrypter K (PrivateKey c) of
        Some (RSAPublicKey _ _) \<Rightarrow>
          (case selectCipherSuite (chi_CipherSuites chi) (Config_supportedCipherSuites config)
             (\<lambda>c. \<not> hasFlag c suiteECDHE \<and> \<not> (vers < VersionTLS12 \<and> hasFlag c suiteTLS12)) of
             None \<Rightarrow> Some unsupported
           | Some _ \<Rightarrow> None)
      | _ \<Rightarrow> Some unsupported)"

text \<open>The check of the requested name; the outer option is a panic.\<close>

definition validForName :: "x509Pkgs \<Rightarrow> bytes \<Rightarrow> localCertificate \<Rightarrow> goerror option option" where
  "validForName X name c =
     (if name = [] then Some None
      else case Certificate_leaf X c of
        None \<Rightarrow> None
      | Some (Inl e) \<Rightarrow> Some (Some (WrapError ''failed to parse certificate: '' e))
      | Some (Inr x509Cert) \<Rightarrow>
          Some (map_option (WrapError ''certificate is not valid for requested server name: '') (px_VerifyHostname X x509Cert name)))"

definition curveOfKey :: "ellipticCurve \<Rightarrow> u16 option" where
  "curveOfKey curve = (case curve of P256 \<Rightarrow> Some CurveP256 | P384 \<Rightarrow> Some CurveP384 | P521 \<Rightarrow> Some CurveP521 | OtherCurve _ \<Rightarrow> None)"

text \<open>The switch on the key: whether the suite must sign with ECDSA, or the result of the call.\<close>

definition signerSuite :: "kaPkgs \<Rightarrow> Config \<Rightarrow> u16 \<Rightarrow> ClientHelloInfo \<Rightarrow> localCertificate \<Rightarrow> goerror option + bool" where
  "signerSuite K config vers chi c =
     (case asSigner (PrivateKey c) of
        Some (ECDSAPublicKey curve _) \<Rightarrow>
          (case curveOfKey curve of
             None \<Rightarrow> Inl (supportsRSAFallback K config vers chi c (unsupportedCertificateError c))
           | Some curve \<Rightarrow>
               if \<not> list_ex (\<lambda>c. c = curve \<and> supportsCurve (Some config) vers c) (chi_SupportedCurves chi)
               then Inl (Some (ErrorsNew ''client doesn't support certificate curve''))
               else Inr True)
      | Some (Ed25519PublicKey _) \<Rightarrow>
          if vers < VersionTLS12 \<or> length (chi_SignatureSchemes chi) = 0
          then Inl (Some (ErrorsNew ''connection doesn't support Ed25519''))
          else Inr True
      | Some (RSAPublicKey _ _) \<Rightarrow> Inr False
      | Some (OtherPublicKey _) \<Rightarrow> Inl (supportsRSAFallback K config vers chi c (unsupportedCertificateError c))
      | None \<Rightarrow> Inl (supportsRSAFallback K config vers chi c (unsupportedCertificateError c)))"

definition signedSuiteOk :: "u16 \<Rightarrow> bool \<Rightarrow> cipherSuite \<Rightarrow> bool" where
  "signedSuiteOk vers ecdsaCipherSuite c \<longleftrightarrow>
     hasFlag c suiteECDHE \<and> (if hasFlag c suiteECSign then ecdsaCipherSuite else \<not> ecdsaCipherSuite) \<and>
     \<not> (vers < VersionTLS12 \<and> hasFlag c suiteTLS12)"

text \<open>What follows the check of the signature schemes, before TLS 1.3.\<close>

definition supportsKeyExchange :: "kaPkgs \<Rightarrow> Config \<Rightarrow> u16 \<Rightarrow> ClientHelloInfo \<Rightarrow> localCertificate \<Rightarrow> goerror option" where
  "supportsKeyExchange K config vers chi c =
     (case supportsECDHE config vers (chi_SupportedCurves chi) (chi_SupportedPoints chi) of
        Inl err \<Rightarrow> Some err
      | Inr ecdheSupported \<Rightarrow>
          if \<not> ecdheSupported
          then supportsRSAFallback K config vers chi c (ErrorsNew ''client doesn't support ECDHE, can only use legacy RSA key exchange'')
          else case signerSuite K config vers chi c of
            Inl r \<Rightarrow> r
          | Inr ecdsaCipherSuite \<Rightarrow>
              (case selectCipherSuite (chi_CipherSuites chi) (Config_supportedCipherSuites config) (signedSuiteOk vers ecdsaCipherSuite) of
                 None \<Rightarrow> supportsRSAFallback K config vers chi c
                   (ErrorsNew ''client doesn't support any cipher suites compatible with the certificate'')
               | Some _ \<Rightarrow> None))"

definition SupportsCertificate :: "kaPkgs \<Rightarrow> x509Pkgs \<Rightarrow> ClientHelloInfo \<Rightarrow> localCertificate \<Rightarrow> goerror option option" where
  "SupportsCertificate K X chi c =
     (let config = (case chi_config chi of None \<Rightarrow> emptyConfig | Some config \<Rightarrow> config) in
      case mutualVersion (Some config) False (chi_SupportedVersions chi) of
        None \<Rightarrow> None
      | Some (vers, ok) \<Rightarrow>
          if \<not> ok then Some (Some (ErrorsNew ''no mutually supported protocol versions''))
          else case validForName X (chi_ServerName chi) c of
            None \<Rightarrow> None
          | Some (Some err) \<Rightarrow> Some (Some err)
          | Some None \<Rightarrow>
              (case (if length (chi_SignatureSchemes chi) > 0 then selectSignatureScheme vers c (chi_SignatureSchemes chi) else Inr 0) of
                 Inl err \<Rightarrow> Some (supportsRSAFallback K config vers chi c err)
               | Inr _ \<Rightarrow> if vers = VersionTLS13 then Some None else Some (supportsKeyExchange K config vers chi c)))"

text \<open>The loop over the chain of a client's certificate: \<open>j\<close> is its index, printed by \<open>%d\<close>.\<close>

fun decimal :: "nat \<Rightarrow> string" where
  "decimal n = (if n < 10 then [hexDigit n] else decimal (n div 10) @ [hexDigit (n mod 10)])"

declare decimal.simps [simp del]

fun issuedByAny :: "x509Pkgs \<Rightarrow> bytes list \<Rightarrow> x509Certificate option \<Rightarrow> nat \<Rightarrow> bytes list \<Rightarrow> goerror option" where
  "issuedByAny X cas leaf j [] = Some (ErrorsNew ''chain is not signed by an acceptable CA'')"
| "issuedByAny X cas leaf j (cert # certs) =
     (case (if j \<noteq> 0 \<or> leaf = None then px_ParseCertificate X cert else Inr (the leaf)) of
        Inl err \<Rightarrow> Some (WrapError (''failed to parse certificate #'' @ decimal j @ '' in the chain: '') err)
      | Inr x509Cert \<Rightarrow>
          if list_ex (\<lambda>ca. crt_RawIssuer x509Cert = ca) cas then None else issuedByAny X cas leaf (Suc j) certs)"

definition cri_SupportsCertificate :: "x509Pkgs \<Rightarrow> CertificateRequestInfo \<Rightarrow> localCertificate \<Rightarrow> goerror option" where
  "cri_SupportsCertificate X cri c =
     (case selectSignatureScheme (cri_Version cri) c (cri_SignatureSchemes cri) of
        Inl err \<Rightarrow> Some err
      | Inr _ \<Rightarrow>
          if length (cri_AcceptableCAs cri) = 0 then None
          else issuedByAny X (cri_AcceptableCAs cri) (Leaf c) 0 (Certificate_der c))"

definition errNoCertificates :: goerror where
  "errNoCertificates = ErrorsNew ''tls: no certificates configured''"

text \<open>\<open>strings.ToLower\<close> on ASCII names, and \<open>strings.Join(labels, ".")\<close>.\<close>

definition toLower :: "bytes \<Rightarrow> bytes" where
  "toLower s = map (\<lambda>b. if 65 \<le> b \<and> b \<le> 90 then b + 32 else b) s"

fun joinDots :: "bytes list \<Rightarrow> bytes" where
  "joinDots [] = []"
| "joinDots [l] = l"
| "joinDots (l # ls) = l @ 46 # joinDots ls"

definition wildcardName :: "bytes \<Rightarrow> bytes" where
  "wildcardName name = joinDots ([42] # tl (splitDots name))"

definition byName :: "(bytes \<rightharpoonup> localCertificate) \<Rightarrow> bytes \<Rightarrow> localCertificate option" where
  "byName m serverName =
     (let name = toLower serverName in
      case m name of
        Some cert \<Rightarrow> Some cert
      | None \<Rightarrow> if length name > 0 then m (wildcardName name) else None)"

text \<open>The loop \<open>for _, cert := range c.Certificates\<close>; the outer option is a panic.\<close>

fun firstSupported :: "kaPkgs \<Rightarrow> x509Pkgs \<Rightarrow> ClientHelloInfo \<Rightarrow> localCertificate list \<Rightarrow> localCertificate option option" where
  "firstSupported K X chi [] = Some None"
| "firstSupported K X chi (cert # certs) =
     (case SupportsCertificate K X chi cert of
        None \<Rightarrow> None
      | Some None \<Rightarrow> Some (Some cert)
      | Some (Some _) \<Rightarrow> firstSupported K X chi certs)"

text \<open>The certificates of the configuration, behind the callback.\<close>

definition ownCertificate :: "kaPkgs \<Rightarrow> x509Pkgs \<Rightarrow> configExt \<Rightarrow> ClientHelloInfo \<Rightarrow> localCertificate option res option" where
  "ownCertificate K X x chi =
     (let certs = cx_Certificates x in
      if length certs = 0 then Some (Inl errNoCertificates)
      else if length certs = 1 then Some (Inr (Some (certs ! 0)))
      else case (case cx_NameToCertificate x of None \<Rightarrow> None | Some m \<Rightarrow> byName m (chi_ServerName chi)) of
        Some cert \<Rightarrow> Some (Inr (Some cert))
      | None \<Rightarrow>
          (case firstSupported K X chi certs of
             None \<Rightarrow> None
           | Some (Some cert) \<Rightarrow> Some (Inr (Some cert))
           | Some None \<Rightarrow> Some (Inr (Some (certs ! 0)))))"

definition getCertificate :: "kaPkgs \<Rightarrow> x509Pkgs \<Rightarrow> configExt \<Rightarrow> ClientHelloInfo \<Rightarrow> localCertificate option res option" where
  "getCertificate K X x chi =
     (case cx_GetCertificate x of
        Some callback \<Rightarrow>
          if length (cx_Certificates x) = 0 \<or> length (chi_ServerName chi) > 0
          then case callback chi of
                 Inl err \<Rightarrow> Some (Inl err)
               | Inr (Some cert) \<Rightarrow> Some (Inr (Some cert))
               | Inr None \<Rightarrow> ownCertificate K X x chi
          else ownCertificate K X x chi
      | None \<Rightarrow> ownCertificate K X x chi)"

text \<open>\<open>BuildNameToCertificate\<close>; \<open>None\<close> is the panic of \<open>leaf\<close>.\<close>

fun addNames :: "x509Pkgs \<Rightarrow> localCertificate list \<Rightarrow> (bytes \<rightharpoonup> localCertificate) \<Rightarrow> (bytes \<rightharpoonup> localCertificate) option" where
  "addNames X [] m = Some m"
| "addNames X (cert # certs) m =
     (case Certificate_leaf X cert of
        None \<Rightarrow> None
      | Some (Inl _) \<Rightarrow> addNames X certs m
      | Some (Inr x509Cert) \<Rightarrow>
          (let m = (if crt_CommonName x509Cert \<noteq> [] \<and> length (crt_DNSNames x509Cert) = 0
                    then m(ascii (crt_CommonName x509Cert) \<mapsto> cert) else m)
           in addNames X certs (fold (\<lambda>san m. m(ascii san \<mapsto> cert)) (crt_DNSNames x509Cert) m)))"

definition BuildNameToCertificate :: "x509Pkgs \<Rightarrow> configExt \<Rightarrow> configExt option" where
  "BuildNameToCertificate X x =
     map_option (\<lambda>m. x\<lparr>cx_NameToCertificate := Some m\<rparr>) (addNames X (cx_Certificates x) Map.empty)"

section \<open>The public state of a connection\<close>

definition connectionStateLocked :: "Conn \<Rightarrow> ekmFunc option \<Rightarrow> ConnectionState" where
  "connectionStateLocked c ekm = \<lparr>
     st_Version = c_vers c,
     st_HandshakeComplete = c_isHandshakeComplete c,
     st_DidResume = c_didResume c,
     st_CipherSuite = c_cipherSuite c,
     st_CurveID = c_curveID c,
     st_NegotiatedProtocol = c_clientProtocol c,
     st_NegotiatedProtocolIsMutual = True,
     st_ServerName = c_serverName c,
     st_PeerCertificates = c_peerCertificates c,
     st_VerifiedChains = c_verifiedChains c,
     st_SignedCertificateTimestamps = c_scts c,
     st_OCSPResponse = c_ocspResponse c,
     st_TLSUnique = (if (\<not> c_didResume c \<or> c_extMasterSecret c) \<and> c_vers c \<noteq> VersionTLS13
       then Some (if c_clientFinishedIsFirst c then c_clientFinished c else c_serverFinished c) else None),
     st_ECHAccepted = c_echAccepted c,
     st_HelloRetryRequest = c_didHRR c,
     st_ekm = (if cfg_Renegotiation (c_config c) \<noteq> RenegotiateNever then Some noEKMBecauseRenegotiation
       else if c_vers c \<noteq> VersionTLS13 \<and> \<not> c_extMasterSecret c then Some noEKMBecauseNoEMS
       else ekm),
     st_testingOnlyPeerSignatureAlgorithm = c_peerSigAlg c\<rparr>"

text \<open>\<open>None\<close> is the call of a nil function: no handshake has set \<open>c.ekm\<close>.\<close>

definition ExportKeyingMaterial :: "ConnectionState \<Rightarrow> ekmFunc" where
  "ExportKeyingMaterial cs label context len = (case st_ekm cs of None \<Rightarrow> None | Some f \<Rightarrow> f label context len)"

definition Conn_OCSPResponse :: "Conn \<Rightarrow> bytes option" where
  "Conn_OCSPResponse c = c_ocspResponse c"

text \<open>\<open>None\<close> is the panic of \<open>c.peerCertificates[0]\<close>.\<close>

definition Conn_VerifyHostname :: "x509Pkgs \<Rightarrow> Conn \<Rightarrow> bytes \<Rightarrow> goerror option option" where
  "Conn_VerifyHostname X c host =
     (if \<not> c_isClient c then Some (Some (ErrorsNew ''tls: VerifyHostname called on TLS server connection''))
      else if \<not> c_isHandshakeComplete c then Some (Some (ErrorsNew ''tls: handshake has not yet been performed''))
      else if length (c_verifiedChains c) = 0 then Some (Some (ErrorsNew ''tls: handshake did not verify certificate chain''))
      else case c_peerCertificates c of [] \<Rightarrow> None | cert # _ \<Rightarrow> Some (px_VerifyHostname X cert host))"

definition clientHelloInfo :: "Conn \<Rightarrow> clientHelloMsg \<Rightarrow> ClientHelloInfo" where
  "clientHelloInfo c hello = \<lparr>
     chi_CipherSuites = ch_cipherSuites hello,
     chi_ServerName = ch_serverName hello,
     chi_SupportedCurves = ch_supportedCurves hello,
     chi_SupportedPoints = ch_supportedPoints hello,
     chi_SignatureSchemes = ch_supportedSignatureAlgorithms hello,
     chi_SupportedProtos = ch_alpnProtocols hello,
     chi_SupportedVersions = (if length (ch_supportedVersions hello) = 0 then supportedVersionsFromMax (ch_vers hello)
       else ch_supportedVersions hello),
     chi_Extensions = ch_extensions hello,
     chi_HelloRetryRequest = c_didHRR c,
     chi_config = Some (c_config c)\<rparr>"

section \<open>The cache of parsed certificates\<close>

text \<open>
  \<open>weakCertCache\<close>: an entry is a weak pointer, \<open>None\<close> once its certificate was collected. Other goroutines may run
  between the \<open>Load\<close> and the \<open>LoadOrStore\<close>: \<open>wcc1\<close> is the cache at the latter, and the compare-and-swap finds the entry of the
  load before it or fails, with the same result.
\<close>

type_synonym weakCertCache = "bytes \<rightharpoonup> x509Certificate option"

definition newCert :: "x509Pkgs \<Rightarrow> weakCertCache \<Rightarrow> weakCertCache \<Rightarrow> bytes \<Rightarrow> x509Certificate res \<times> weakCertCache" where
  "newCert X wcc wcc1 der =
     (case wcc der of
        Some (Some v) \<Rightarrow> (Inr v, wcc)
      | _ \<Rightarrow>
          (case px_ParseCertificate X der of
             Inl err \<Rightarrow> (Inl err, wcc1)
           | Inr cert \<Rightarrow>
               (case wcc1 der of
                  None \<Rightarrow> (Inr cert, wcc1(der \<mapsto> Some cert))
                | Some (Some v) \<Rightarrow> (Inr v, wcc1)
                | Some None \<Rightarrow> (Inr cert, wcc1(der \<mapsto> Some cert)))))"

text \<open>A cache of parsed certificates keeps to the parser, and looking a certificate up is parsing it.\<close>

definition cache_ok :: "x509Pkgs \<Rightarrow> weakCertCache \<Rightarrow> bool" where
  "cache_ok X wcc \<longleftrightarrow> (\<forall>der v. wcc der = Some (Some v) \<longrightarrow> px_ParseCertificate X der = Inr v)"

lemma newCert_parses:
  assumes "cache_ok X wcc" and "cache_ok X wcc1"
  shows "fst (newCert X wcc wcc1 der) = px_ParseCertificate X der \<and> cache_ok X (snd (newCert X wcc wcc1 der))"
  using assms by (auto simp: newCert_def cache_ok_def split: option.split sum.split if_split_asm)

section \<open>Properties\<close>

text \<open>
  The two ends agree on the application protocol: what a server selects is empty or its first protocol that the client
  offered, and the client accepts it, except over QUIC, where it insists on a protocol when it has offered any.
\<close>

lemma alpn_agreement:
  assumes "negotiateALPN serverProtos clientProtos quic = Inr p"
  shows "(p = [] \<or> (\<exists>k<length serverProtos. serverProtos ! k = p \<and> p \<in> set clientProtos \<and> (\<forall>j<k. serverProtos ! j \<notin> set clientProtos))) \<and>
    (checkALPN clientProtos p quic = None \<longleftrightarrow> \<not> (quic \<and> p = [] \<and> clientProtos \<noteq> []))"
proof
  have f: "find (\<lambda>s. list_ex (\<lambda>c. s = c) clientProtos) serverProtos = Some p \<Longrightarrow>
      \<exists>k<length serverProtos. serverProtos ! k = p \<and> p \<in> set clientProtos \<and> (\<forall>j<k. serverProtos ! j \<notin> set clientProtos)"
    by (auto simp: find_Some_iff list_ex_iff)
  from assms have c: "p = [] \<or> find (\<lambda>s. list_ex (\<lambda>c. s = c) clientProtos) serverProtos = Some p"
    by (auto simp: negotiateALPN_def split: if_split_asm option.split_asm)
  with f show a: "p = [] \<or> (\<exists>k<length serverProtos. serverProtos ! k = p \<and> p \<in> set clientProtos \<and> (\<forall>j<k. serverProtos ! j \<notin> set clientProtos))"
    by blast
  show "checkALPN clientProtos p quic = None \<longleftrightarrow> \<not> (quic \<and> p = [] \<and> clientProtos \<noteq> [])"
    using a by (auto simp: checkALPN_def list_ex_iff)
qed

end
