(* ===== verification/Frame.thy ===== *)
theory Frame
  imports HandshakeIO
begin

text \<open>
  Reading and writing records leaves alone what a handshake negotiates: for every operation of conn.go on records, alerts
  and messages, a lemma says that only the transport side of the connection changes (the network connection, the
  half connections, the buffers and counters, and the position in the random source).
\<close>

named_theorems io_keeps \<open>operations that only touch the transport side of a connection\<close>

section \<open>The transport side of a connection\<close>

definition io_blank :: "Conn \<Rightarrow> Conn" where
  "io_blank c = c\<lparr>c_conn := \<lparr>nc_reads = [], nc_writes = [], nc_sent = [], nc_closed = False, nc_closeErr = None, nc_RemoteAddr = []\<rparr>,
     c_quic := None, c_in := halfConn_zero, c_out := halfConn_zero, c_rawInput := [], c_input := [], c_hand := [],
     c_buffering := False, c_sendBuf := [], c_bytesSent := 0, c_packetsSent := 0, c_retryCount := 0,
     c_config := (c_config c)\<lparr>cfg_Rand := []\<rparr>\<rparr>"

definition io_only :: "Conn \<Rightarrow> Conn \<Rightarrow> bool" where
  "io_only c c' \<longleftrightarrow> io_blank c' = io_blank c"

lemma io_only_refl [simp]: "io_only c c"
  by (simp add: io_only_def)

lemma io_only_trans [trans]: "io_only a b \<Longrightarrow> io_only b c \<Longrightarrow> io_only a c"
  by (simp add: io_only_def)

lemma io_only_updates [simp]:
  "io_only c (c'\<lparr>c_conn := nc\<rparr>) \<longleftrightarrow> io_only c c'" "io_only c (c'\<lparr>c_quic := q\<rparr>) \<longleftrightarrow> io_only c c'"
  "io_only c (c'\<lparr>c_in := h\<rparr>) \<longleftrightarrow> io_only c c'" "io_only c (c'\<lparr>c_out := h\<rparr>) \<longleftrightarrow> io_only c c'"
  "io_only c (c'\<lparr>c_rawInput := w\<rparr>) \<longleftrightarrow> io_only c c'" "io_only c (c'\<lparr>c_input := w\<rparr>) \<longleftrightarrow> io_only c c'"
  "io_only c (c'\<lparr>c_hand := w\<rparr>) \<longleftrightarrow> io_only c c'" "io_only c (c'\<lparr>c_buffering := b\<rparr>) \<longleftrightarrow> io_only c c'"
  "io_only c (c'\<lparr>c_sendBuf := w\<rparr>) \<longleftrightarrow> io_only c c'" "io_only c (c'\<lparr>c_bytesSent := i\<rparr>) \<longleftrightarrow> io_only c c'"
  "io_only c (c'\<lparr>c_packetsSent := i\<rparr>) \<longleftrightarrow> io_only c c'" "io_only c (c'\<lparr>c_retryCount := n\<rparr>) \<longleftrightarrow> io_only c c'"
  "io_only c (set_rand w c') \<longleftrightarrow> io_only c c'"
  by (simp_all add: io_only_def io_blank_def)

text \<open>What is left: every field that a handshake negotiates.\<close>

lemma io_only_fields:
  assumes "io_only c c'"
  shows "c_isClient c' = c_isClient c" "c_isHandshakeComplete c' = c_isHandshakeComplete c" "c_handshakeErr c' = c_handshakeErr c"
    "c_vers c' = c_vers c" "c_haveVers c' = c_haveVers c" "(c_config c')\<lparr>cfg_Rand := []\<rparr> = (c_config c)\<lparr>cfg_Rand := []\<rparr>"
    "c_handshakes c' = c_handshakes c" "c_extMasterSecret c' = c_extMasterSecret c" "c_didResume c' = c_didResume c"
    "c_didHRR c' = c_didHRR c" "c_cipherSuite c' = c_cipherSuite c" "c_curveID c' = c_curveID c" "c_peerSigAlg c' = c_peerSigAlg c"
    "c_peerCertificates c' = c_peerCertificates c" "c_verifiedChains c' = c_verifiedChains c" "c_serverName c' = c_serverName c"
    "c_clientProtocol c' = c_clientProtocol c" "c_echAccepted c' = c_echAccepted c" "c_ticketKeys c' = c_ticketKeys c"
    "c_clientFinished c' = c_clientFinished c" "c_serverFinished c' = c_serverFinished c" "c_secureRenegotiation c' = c_secureRenegotiation c"
proof -
  from assms have e: "io_blank c' = io_blank c" by (simp add: io_only_def)
  have "\<And>f. f (io_blank c') = f (io_blank c)" by (simp add: e)
  from this [of c_isClient] this [of c_isHandshakeComplete] this [of c_handshakeErr] this [of c_vers] this [of c_haveVers]
    this [of c_config] this [of c_handshakes] this [of c_extMasterSecret] this [of c_didResume] this [of c_didHRR]
    this [of c_cipherSuite] this [of c_curveID] this [of c_peerSigAlg] this [of c_peerCertificates] this [of c_verifiedChains]
    this [of c_serverName] this [of c_clientProtocol] this [of c_echAccepted] this [of c_ticketKeys] this [of c_clientFinished]
    this [of c_serverFinished] this [of c_secureRenegotiation]
  show "c_isClient c' = c_isClient c" "c_isHandshakeComplete c' = c_isHandshakeComplete c" "c_handshakeErr c' = c_handshakeErr c"
    "c_vers c' = c_vers c" "c_haveVers c' = c_haveVers c" "(c_config c')\<lparr>cfg_Rand := []\<rparr> = (c_config c)\<lparr>cfg_Rand := []\<rparr>"
    "c_handshakes c' = c_handshakes c" "c_extMasterSecret c' = c_extMasterSecret c" "c_didResume c' = c_didResume c"
    "c_didHRR c' = c_didHRR c" "c_cipherSuite c' = c_cipherSuite c" "c_curveID c' = c_curveID c" "c_peerSigAlg c' = c_peerSigAlg c"
    "c_peerCertificates c' = c_peerCertificates c" "c_verifiedChains c' = c_verifiedChains c" "c_serverName c' = c_serverName c"
    "c_clientProtocol c' = c_clientProtocol c" "c_echAccepted c' = c_echAccepted c" "c_ticketKeys c' = c_ticketKeys c"
    "c_clientFinished c' = c_clientFinished c" "c_serverFinished c' = c_serverFinished c" "c_secureRenegotiation c' = c_secureRenegotiation c"
    by (simp_all add: io_blank_def)
qed

lemma out_setError_io [io_keeps]: "out_setError c e = (r, c') \<Longrightarrow> io_only c c'"
  by (auto simp: out_setError_def split: prod.splits)

lemma in_setError_io [io_keeps]: "in_setError c e = (r, c') \<Longrightarrow> io_only c c'"
  by (auto simp: in_setError_def split: prod.splits)

lemma conn_write_io [io_keeps]: "conn_write c w = (r, c') \<Longrightarrow> io_only c c'"
  by (auto simp: conn_write_def split: if_splits prod.splits)

lemma conn_flush_io [io_keeps]: "conn_flush c = (r, c') \<Longrightarrow> io_only c c'"
  by (auto simp: conn_flush_def split: if_splits prod.splits)

lemma maxPayload_io [io_keeps]: "maxPayloadSizeForWrite c t = Some (m, c') \<Longrightarrow> io_only c c'"
  by (auto simp: maxPayloadSizeForWrite_def bind_eq_Some_conv Let_def split: if_splits)

lemma writeRecords_io [io_keeps]:
  assumes "writeRecords c typ data n = Some (r, c')"
  shows "io_only c c'"
proof -
  have "io_only c (snd (r, c'))"
  proof (rule writeRecords.raw_induct [where P = "\<lambda>c typ data n res. io_only c (snd res)", OF _ assms])
  fix f :: "Conn \<Rightarrow> u8 \<Rightarrow> bytes \<Rightarrow> nat \<Rightarrow> ((nat \<times> goerror option) \<times> Conn) option" and c typ' data n and res :: "(nat \<times> goerror option) \<times> Conn"
  assume IH: "\<And>c typ' data n res. f c typ' data n = Some res \<Longrightarrow> io_only c (snd res)"
    and step: "(if data = [] then Some ((n, None), c)
      else case maxPayloadSizeForWrite c typ' of
        None \<Rightarrow> None
      | Some (maxPayload, c) \<Rightarrow>
          (let m = (if int (length data) > maxPayload then maxPayload else int (length data)) in
           if m < 0 then None
           else case hc_encrypt (c_out c) (recordHeader c typ' m) (take (nat m) data) (c_rand c) of
             None \<Rightarrow> None
           | Some (Inl e, out, rand) \<Rightarrow> Some ((n, Some e), set_rand rand (c\<lparr>c_out := out\<rparr>))
           | Some (Inr outBuf, out, rand) \<Rightarrow>
               (case conn_write (set_rand rand (c\<lparr>c_out := out\<rparr>)) outBuf of
                  ((_, Some e), c) \<Rightarrow> Some ((n, Some e), c)
                | ((_, None), c) \<Rightarrow> f c typ' (drop (nat m) data) (n + nat m)))) = Some res"
  show "io_only c (snd res)"
  proof (cases "data = []")
    case True
    with step show ?thesis by auto
  next
    case False
    with step obtain p c1 where c1: "maxPayloadSizeForWrite c typ' = Some (p, c1)" by (auto split: option.split_asm)
    define m where "m = (if p < int (length data) then p else int (length data))"
    from step False c1 have "0 \<le> m" by (auto simp: m_def Let_def split: if_split_asm)
    with step False c1 obtain er out rand where e: "hc_encrypt (c_out c1) (recordHeader c1 typ' m) (take (nat m) data) (c_rand c1) = Some (er, out, rand)"
      by (auto simp: m_def Let_def split: option.split_asm if_split_asm)
    let ?c2 = "set_rand rand (c1\<lparr>c_out := out\<rparr>)"
    have io1: "io_only c1 ?c2" by (simp add: io_only_def io_blank_def)
    show ?thesis
    proof (cases er)
      case (Inl x)
      then have "snd res = ?c2" using step False c1 e \<open>0 \<le> m\<close> by (auto simp: m_def [symmetric] Let_def)
      then show ?thesis using io_only_trans [OF maxPayload_io [OF c1] io1] by simp
    next
      case (Inr outBuf)
      obtain k we c3 where w: "conn_write ?c2 outBuf = ((k, we), c3)" by (cases "conn_write ?c2 outBuf") auto
      have io2: "io_only c c3"
        using io_only_trans [OF io_only_trans [OF maxPayload_io [OF c1] io1] conn_write_io [OF w]] .
      show ?thesis
      proof (cases we)
        case None
        then have "f c3 typ' (drop (nat m) data) (n + nat m) = Some res"
          using step False c1 e w Inr \<open>0 \<le> m\<close> by (simp add: m_def [symmetric] Let_def)
        from io_only_trans [OF io2 IH [OF this]] show ?thesis .
      next
        case (Some x)
        then have "snd res = c3" using step False c1 e w Inr \<open>0 \<le> m\<close> by (auto simp: m_def [symmetric] Let_def)
        then show ?thesis using io2 by simp
      qed
    qed
  qed
qed
  then show ?thesis by simp
qed

lemma writeRecordBody_io [io_keeps]: "writeRecordBody c t w = Some (r, c') \<Longrightarrow> io_only c c'"
proof (cases "c_quic c")
  case None
  then show "writeRecordBody c t w = Some (r, c') \<Longrightarrow> io_only c c'"
    by (simp add: writeRecordBody_def writeRecords_io)
next
  case (Some q)
  let ?c = "c\<lparr>c_quic := Some (quicWriteCryptoData q (hc_level (c_out c)) w)\<rparr>"
  obtain n e c1 where f: "conn_flush ?c = ((n, e), c1)" by (cases "conn_flush ?c") auto
  assume "writeRecordBody c t w = Some (r, c')"
  with Some f have "c' = c \<or> c' = c1 \<or> c' = ?c"
    by (auto simp: writeRecordBody_def Let_def split: if_split_asm option.split_asm)
  moreover have "io_only c c1" using conn_flush_io [OF f] by (rule io_only_trans [rotated]) simp
  ultimately show "io_only c c'" by auto
qed

lemma sendAlertLocked_io [io_keeps]:
  assumes "sendAlertLocked c a = Some (r, c')"
  shows "io_only c c'"
proof (cases "c_quic c = None")
  case False
  with assms show ?thesis by (auto simp: sendAlertLocked_def intro: out_setError_io)
next
  case True
  with assms obtain n e c1 where b: "writeRecordBody c recordTypeAlert [alertLevel a, a] = Some ((n, e), c1)"
    by (auto simp: sendAlertLocked_def split: option.split_asm)
  with assms True have "c' = c1 \<or> out_setError c1 (Some (OpError ''local error'' a)) = (r, c')"
    by (auto simp: sendAlertLocked_def split: if_split_asm)
  then show ?thesis using writeRecordBody_io [OF b] io_only_trans [OF _ out_setError_io] by blast
qed

lemma sendAlert_io [io_keeps]: "sendAlert c a = Some (r, c') \<Longrightarrow> io_only c c'"
  by (simp add: sendAlert_def sendAlertLocked_io)

lemma writeRecordLocked_io [io_keeps]:
  assumes "writeRecordLocked c t w = Some (r, c')"
  shows "io_only c c'"
proof (cases "c_quic c = None")
  case False
  with assms show ?thesis by (auto simp: writeRecordLocked_def intro: writeRecordBody_io)
next
  case True
  with assms obtain n e c1 where b: "writeRecordBody c t w = Some ((n, e), c1)" by (auto simp: writeRecordLocked_def split: option.split_asm)
  note io = writeRecordBody_io [OF b]
  show ?thesis
  proof (cases "e = None \<and> t = recordTypeChangeCipherSpec \<and> c_vers c1 \<noteq> VersionTLS13")
    case False
    with assms True b have "c' = c1" by (cases e) (auto simp: writeRecordLocked_def)
    with io show ?thesis by simp
  next
    case ccs: True
    obtain ao out where h: "hc_changeCipherSpec (c_out c1) = (ao, out)" by (cases "hc_changeCipherSpec (c_out c1)")
    have io1: "io_only c (c1\<lparr>c_out := out\<rparr>)" using io by simp
    show ?thesis
    proof (cases ao)
      case None
      then have "c' = c1\<lparr>c_out := out\<rparr>" using assms True b h ccs by (auto simp: writeRecordLocked_def)
      with io1 show ?thesis by simp
    next
      case (Some a)
      then obtain x where "sendAlertLocked (c1\<lparr>c_out := out\<rparr>) a = Some (x, c')"
        using assms True b h ccs by (auto simp: writeRecordLocked_def)
      from io_only_trans [OF io1 sendAlertLocked_io [OF this]] show ?thesis .
    qed
  qed
qed

lemma writeChangeCipherRecord_io [io_keeps]: "writeChangeCipherRecord c = Some (r, c') \<Longrightarrow> io_only c c'"
  by (auto simp: writeChangeCipherRecord_def dest: writeRecordLocked_io)

lemma readFromUntil_io [io_keeps]: "readFromUntil c n = (e, c') \<Longrightarrow> io_only c c'"
  by (auto simp: readFromUntil_def Let_def split_beta split: if_splits)

lemma failWith_io [io_keeps]: "failWith c e = Some (r, c') \<Longrightarrow> io_only c c'"
  by (auto simp: failWith_def split: prod.splits dest: in_setError_io)

lemma failAlert_io [io_keeps]: "failAlert c a = Some (r, c') \<Longrightarrow> io_only c c'"
  by (auto simp: failAlert_def split: option.splits prod.splits; metis sendAlert_io in_setError_io io_only_trans)

lemma alertThenFail_io [io_keeps]: "alertThenFail c a e = Some (r, c') \<Longrightarrow> io_only c c'"
  by (auto simp: alertThenFail_def split: option.splits; metis sendAlert_io failWith_io io_only_trans)

lemma failRead_io [io_keeps]: "failRead c e = Some (r, c') \<Longrightarrow> io_only c c'"
  by (auto simp: failRead_def Let_def split: if_splits; metis in_setError_io prod.collapse)

lemma readRecord_switch_io [io_keeps]: "readRecord_switch c t w ex hc = Some (r, c') \<Longrightarrow> io_only c c'"
proof -
  have alert: "io_only c c'" if "readRecord_alert c w = Some (r, c')"
    using that unfolding readRecord_alert_def
    by (auto split: if_split_asm dest: failAlert_io failWith_io)
  have ccs: "io_only c c'" if a: "readRecord_ccs c w ex = Some (r, c')"
  proof -
    obtain ao hin where h: "hc_changeCipherSpec (c_in c) = (ao, hin)" by (cases "hc_changeCipherSpec (c_in c)")
    have "io_only (c\<lparr>c_in := hin\<rparr>) c' \<Longrightarrow> io_only c c'" by (rule io_only_trans [rotated]) auto
    with a show ?thesis unfolding readRecord_ccs_def h
      by (auto split: if_split_asm option.split_asm dest: failAlert_io)
  qed
  assume "readRecord_switch c t w ex hc = Some (r, c')"
  then show ?thesis using alert ccs unfolding readRecord_switch_def readRecord_appData_def readRecord_handshake_def
    by (auto split: if_split_asm dest: failAlert_io)
qed

lemma resetRetry_io [simp]: "io_only c (resetRetry c' t w) \<longleftrightarrow> io_only c c'"
  by (simp add: resetRetry_def)

lemma readRecord_process_io [io_keeps]:
  assumes "readRecord_process c n ex hc = Some (r, c')"
  shows "io_only c c'"
proof -
  let ?c = "c\<lparr>c_rawInput := drop (recordHeaderLen + n) (c_rawInput c)\<rparr>"
  obtain dr hin where d: "hc_decrypt (c_in ?c) (take (recordHeaderLen + n) (c_rawInput c)) = Some (dr, hin)"
    using assms by (auto simp: readRecord_process_def Let_def split: option.split_asm)
  have io: "io_only c (?c\<lparr>c_in := hin\<rparr>)" by simp
  show ?thesis
  proof (cases dr)
    case (Inl a)
    then have "failAlert (?c\<lparr>c_in := hin\<rparr>) a = Some (r, c')" using assms d by (simp add: readRecord_process_def Let_def)
    from io_only_trans [OF io failAlert_io [OF this]] show ?thesis .
  next
    case (Inr p)
    obtain data t where p: "p = (data, t)" by (cases p)
    have io': "io_only c (resetRetry (?c\<lparr>c_in := hin\<rparr>) t data)" by simp
    have "(\<exists>a. failAlert (?c\<lparr>c_in := hin\<rparr>) a = Some (r, c')) \<or> (\<exists>a. failAlert (resetRetry (?c\<lparr>c_in := hin\<rparr>) t data) a = Some (r, c')) \<or>
        readRecord_switch (resetRetry (?c\<lparr>c_in := hin\<rparr>) t data) t data ex hc = Some (r, c')"
      using assms d Inr p unfolding readRecord_process_def Let_def by (simp split: if_split_asm) blast+
    then show ?thesis
      using io_only_trans [OF io failAlert_io] io_only_trans [OF io' failAlert_io] io_only_trans [OF io' readRecord_switch_io] by blast
  qed
qed

lemma readRecord_header_io [io_keeps]:
  assumes "readRecord_header c ex hc = Some (r, c')"
  shows "io_only c c'"
proof -
  let ?n = "unat (take recordHeaderLen (c_rawInput c) ! 3) * 256 + unat (take recordHeaderLen (c_rawInput c) ! 4)"
  obtain e c1 where u: "readFromUntil c (recordHeaderLen + ?n) = (e, c1)" by (cases "readFromUntil c (recordHeaderLen + ?n)")
  have "(\<exists>a x. alertThenFail c a x = Some (r, c')) \<or> (\<exists>x. failWith c x = Some (r, c')) \<or> (\<exists>x. failRead c1 x = Some (r, c')) \<or>
      readRecord_process c1 ?n ex hc = Some (r, c')"
    using assms u unfolding readRecord_header_def Let_def by (auto split: if_split_asm option.split_asm)
  then show ?thesis
    using alertThenFail_io failWith_io io_only_trans [OF readFromUntil_io [OF u] failRead_io]
      io_only_trans [OF readFromUntil_io [OF u] readRecord_process_io] by blast
qed

lemma readRecordStep_io [io_keeps]:
  assumes "readRecordStep c ex = Some (r, c')"
  shows "io_only c c'"
proof -
  obtain e c1 where u: "readFromUntil c recordHeaderLen = (e, c1)" by (cases "readFromUntil c recordHeaderLen")
  have "c' = c \<or> (\<exists>x. failWith c x = Some (r, c')) \<or> (\<exists>x. failRead c1 x = Some (r, c')) \<or>
      readRecord_header c1 ex (c_isHandshakeComplete c1) = Some (r, c')"
    using assms u unfolding readRecordStep_def by (auto split: if_split_asm option.split_asm)
  then show ?thesis
    using failWith_io io_only_trans [OF readFromUntil_io [OF u] failRead_io]
      io_only_trans [OF readFromUntil_io [OF u] readRecord_header_io] io_only_refl by blast
qed

lemma readRecordOrCCS_io [io_keeps]: "readRecordOrCCS c ex = Some (r, c') \<Longrightarrow> io_only c c'"
proof (induction c ex rule: readRecordOrCCS.induct)
  case (1 c ex)
  from "1.prems" obtain o1 c1 where s: "readRecordStep c ex = Some (o1, c1)"
    by (subst (asm) readRecordOrCCS.simps) (auto split: option.split_asm)
  note io = readRecordStep_io [OF s]
  show ?case
  proof (cases o1)
    case (RRDone e)
    then have "c' = c1" using "1.prems" s by (subst (asm) readRecordOrCCS.simps) simp
    with io show ?thesis by simp
  next
    case RRRetry
    let ?c = "c1\<lparr>c_retryCount := c_retryCount c1 + 1\<rparr>"
    have io': "io_only c ?c" using io by simp
    show ?thesis
    proof (cases "c_retryCount ?c > maxUselessRecords")
      case True
      then obtain x c2 where "sendAlert ?c alertUnexpectedMessage = Some (x, c2)"
        and "in_setError c2 (Some (ErrorsNew ''tls: too many ignored records'')) = (r, c')"
        using "1.prems" s RRRetry by (subst (asm) readRecordOrCCS.simps) (auto simp: Let_def split: option.split_asm)
      then show ?thesis using io_only_trans [OF io' io_only_trans [OF sendAlert_io in_setError_io]] by blast
    next
      case False
      then have "readRecordOrCCS ?c ex = Some (r, c')"
        using "1.prems" s RRRetry by (subst (asm) readRecordOrCCS.simps) (simp add: Let_def)
      with "1.IH" [OF s refl RRRetry refl False] io_only_trans [OF io'] show ?thesis by blast
    qed
  qed
qed

lemma quicWaitForSignal_io [io_keeps]: "quicWaitForSignal c = Some (r, c') \<Longrightarrow> io_only c c'"
  unfolding quicWaitForSignal_def Let_def
  by (auto split: option.split_asm list.split_asm quicSignal.split_asm)
    (metis io_only_refl io_only_trans io_only_updates(2) sendAlertLocked_io)

lemma quicReadHandshakeBytes_io [io_keeps]: "quicReadHandshakeBytes c n = Some (r, c') \<Longrightarrow> io_only c c'"
proof (induction c n rule: quicReadHandshakeBytes.induct)
  case (1 c n)
  show ?case
  proof (cases "length (c_hand c) < n")
    case False
    with "1.prems" show ?thesis by (subst (asm) quicReadHandshakeBytes.simps) simp
  next
    case True
    with "1.prems" obtain e c1 where w: "quicWaitForSignal c = Some (e, c1)"
      by (subst (asm) quicReadHandshakeBytes.simps) (auto split: option.split_asm)
    note io = quicWaitForSignal_io [OF w]
    show ?thesis
    proof (cases e)
      case None
      with "1.prems" True w have "quicReadHandshakeBytes c1 n = Some (r, c')"
        by (subst (asm) quicReadHandshakeBytes.simps) simp
      with "1.IH" [OF True w [unfolded None]] io_only_trans [OF io] show ?thesis by blast
    next
      case (Some x)
      with "1.prems" True w io show ?thesis by (subst (asm) quicReadHandshakeBytes.simps) simp
    qed
  qed
qed

lemma readHandshakeRecords_io [io_keeps]: "readHandshakeRecords c n = Some (r, c') \<Longrightarrow> io_only c c'"
proof (induction c n rule: readHandshakeRecords.induct)
  case (1 c n)
  show ?case
  proof (cases "length (c_hand c) < n")
    case False
    with "1.prems" show ?thesis by (subst (asm) readHandshakeRecords.simps) simp
  next
    case True
    with "1.prems" obtain e c1 where w: "readRecord c = Some (e, c1)"
      by (subst (asm) readHandshakeRecords.simps) (auto split: option.split_asm)
    then have io: "io_only c c1" unfolding readRecord_def by (rule readRecordOrCCS_io)
    show ?thesis
    proof (cases e)
      case None
      with "1.prems" True w have "readHandshakeRecords c1 n = Some (r, c')"
        by (subst (asm) readHandshakeRecords.simps) simp
      with "1.IH" [OF True w [unfolded None]] io_only_trans [OF io] show ?thesis by blast
    next
      case (Some x)
      with "1.prems" True w io show ?thesis by (subst (asm) readHandshakeRecords.simps) simp
    qed
  qed
qed

lemma readHandshakeBytes_io [io_keeps]: "readHandshakeBytes c n = Some (r, c') \<Longrightarrow> io_only c c'"
  by (auto simp: readHandshakeBytes_def split: if_splits dest: quicReadHandshakeBytes_io readHandshakeRecords_io)

lemma latchAlert_io [io_keeps]: "latchAlert c a = Some (r, c') \<Longrightarrow> io_only c c'"
  unfolding latchAlert_def by (auto; metis sendAlert_io in_setError_io io_only_trans)

lemma unmarshalHandshakeMessage_io [io_keeps]: "unmarshalHandshakeMessage C c w t = Some (r, c', t') \<Longrightarrow> io_only c c'"
  unfolding unmarshalHandshakeMessage_def by (auto split: parsed.split_asm dest: latchAlert_io)

lemma readHandshake_io [io_keeps]:
  assumes "readHandshake C c t = Some (r, c', t')"
  shows "io_only c c'"
proof -
  obtain e c1 where r1: "readHandshakeBytes c 4 = Some (e, c1)"
    using assms by (auto simp: readHandshake_def split: option.split_asm)
  note io1 = readHandshakeBytes_io [OF r1]
  show ?thesis
  proof (cases e)
    case (Some x)
    with assms r1 io1 show ?thesis by (simp add: readHandshake_def)
  next
    case None
    let ?n = "int24 (c_hand c1 ! 1) (c_hand c1 ! 2) (c_hand c1 ! 3)"
    have "(\<exists>a x c2. sendAlertLocked c1 a = Some (x, c2) \<and> io_only c2 c') \<or>
        (\<exists>x. readHandshakeBytes c1 (4 + ?n) = Some (x, c')) \<or>
        (\<exists>x c2 w. readHandshakeBytes c1 (4 + ?n) = Some (x, c2) \<and>
           unmarshalHandshakeMessage C (c2\<lparr>c_hand := drop (4 + ?n) (c_hand c2)\<rparr>) w t = Some (r, c', t'))"
      using assms r1 None unfolding readHandshake_def Let_def
      by (auto split: if_split_asm option.split_asm prod.split_asm dest!: in_setError_io)
    then show ?thesis
    proof (elim disjE exE conjE)
      fix a x c2
      assume "sendAlertLocked c1 a = Some (x, c2)" and "io_only c2 c'"
      then show ?thesis using io_only_trans [OF io_only_trans [OF io1 sendAlertLocked_io]] by blast
    next
      fix x
      assume "readHandshakeBytes c1 (4 + ?n) = Some (x, c')"
      from io_only_trans [OF io1 readHandshakeBytes_io [OF this]] show ?thesis .
    next
      fix x c2 w
      assume r2: "readHandshakeBytes c1 (4 + ?n) = Some (x, c2)"
        and u: "unmarshalHandshakeMessage C (c2\<lparr>c_hand := drop (4 + ?n) (c_hand c2)\<rparr>) w t = Some (r, c', t')"
      have "io_only c (c2\<lparr>c_hand := drop (4 + ?n) (c_hand c2)\<rparr>)" using io_only_trans [OF io1 readHandshakeBytes_io [OF r2]] by simp
      from io_only_trans [OF this unmarshalHandshakeMessage_io [OF u]] show ?thesis .
    qed
  qed
qed

lemma writeHandshakeRecord_io [io_keeps]: "writeHandshakeRecord C c m t = Some (r, c', t') \<Longrightarrow> io_only c c'"
  unfolding writeHandshakeRecord_def by (auto split: sum.split_asm dest: writeRecordLocked_io)

end
