(* ===== verification/Lifecycle.thy ===== *)
theory Lifecycle
  imports Delivery "HOL-Library.Multiset"
begin

text \<open>
  What happens on a connection after its keys were set up: key updates of TLS 1.3 between two ends, the
  handshake that runs once, and the interlock of concurrent \<open>Write\<close> and \<open>Close\<close> calls.
\<close>

section \<open>Key updates\<close>

text \<open>What is assumed of a TLS 1.3 suite: a hash function, and an AEAD for keys of the right length.\<close>

definition suite13_ok :: "cipherSuiteTLS13 \<Rightarrow> bool" where
  "suite13_ok suite \<longleftrightarrow> hashFn_ok (cs13_hash suite) \<and> cs13_keyLen suite \<le> 255 \<and>
     (\<forall>key iv. length key = cs13_keyLen suite \<and> length iv = aeadNonceLength \<longrightarrow>
       (\<exists>a. cs13_aead suite key iv = Some a \<and> aead_wf a \<and> aead_Overhead a \<le> 200 \<and> aead_explicitNonceLen a = 0))"

text \<open>A half connection that was given a new secret.\<close>

definition rekeyed :: "halfConn \<Rightarrow> QUICEncryptionLevel \<Rightarrow> bytes \<Rightarrow> aead \<Rightarrow> halfConn" where
  "rekeyed hc level secret a = hc\<lparr>hc_trafficSecret := secret, hc_level := level, hc_cipher := Some (Aead a),
     hc_seq := replicate 8 0\<rparr>"

lemma rekeyed_paired:
  assumes "aead_wf a" and "aead_Overhead a \<le> 200" and "aead_explicitNonceLen a = 0"
    and "hc_version i = hc_version out" and "hc_mac i = None"
  shows "rl_paired (rekeyed out l secret a, rand) (rekeyed i l' secret a)"
  using assms by (simp add: rl_paired_def halfConn_pair_def rekeyed_def uses_mac_def aead_wf_def)

context cryptobyte_pkg
begin

lemma nextTrafficSecret_total:
  assumes "suite13_ok suite"
  shows "\<exists>s'. nextTrafficSecret C suite secret = Some s'"
  unfolding nextTrafficSecret_def
  using expandLabel_total [of "cs13_hash suite" "''traffic upd''" "[]" "h_Size (cs13_hash suite)" secret] assms
  by (auto simp: suite13_ok_def)

text \<open>Both halves that are given the same secret get the same AEAD.\<close>

lemma hc_setTrafficSecret_total:
  assumes "suite13_ok suite"
  obtains a where "aead_wf a" and "aead_Overhead a \<le> 200" and "aead_explicitNonceLen a = 0"
    and "\<forall>hc level. hc_setTrafficSecret C hc suite level secret = Some (rekeyed hc level secret a)"
proof -
  obtain key iv where k: "trafficKey C suite secret = Some (key, iv)" "length key = cs13_keyLen suite" "length iv = aeadNonceLength"
    using trafficKey_total [of suite secret] assms by (auto simp: suite13_ok_def)
  then obtain a where "cs13_aead suite key iv = Some a" "aead_wf a" "aead_Overhead a \<le> 200" "aead_explicitNonceLen a = 0"
    using assms by (auto simp: suite13_ok_def)
  then show ?thesis using k(1) by (intro that [of a]) (simp_all add: hc_setTrafficSecret_def rekeyed_def)
qed

lemma keyUpdateMsg_marshal_eq: "keyUpdateMsg_marshal C m = Inr (typeKeyUpdate # lp24 [if updateRequested m then 1 else 0])"
  by (simp add: keyUpdateMsg_marshal_def wire_Some [symmetric]) (simp add: wcat.simps wprefix_def lp24_def)

end

lemma rl_paired_13:
  assumes "rl_paired (out, rand) i" and "hc_version out = VersionTLS13"
  shows "hc_version i = VersionTLS13 \<and> hc_mac i = None"
  using assms
  by (auto simp: rl_paired_def halfConn_pair_def uses_mac_def split: option.splits recordCipher.splits)
    (metis cipher_pair.simps(1,3-) recordCipher.exhaust)+

lemma handleKeyUpdate_request:
  assumes pkg: "cryptobyte_pkg C" and suite: "suite13_ok suite" "cipherSuiteTLS13ByID P (c_cipherSuite c) = Some suite"
    and c: "c_quic c = None" "c_hand c = []"
    and data: "keyUpdateMsg_marshal C \<lparr>updateRequested = False\<rparr> = Inr data"
    and wr: "writeRecordLocked c recordTypeHandshake data = Some ((n, None), c1)" "wrote w c c1"
      "hc_trafficSecret (c_out c1) = hc_trafficSecret (c_out c)"
  obtains a nextOut nextIn inn where "aead_wf a" and "aead_Overhead a \<le> 200" and "aead_explicitNonceLen a = 0"
    and "nextTrafficSecret C suite (hc_trafficSecret (c_out c)) = Some nextOut"
    and "nextTrafficSecret C suite (hc_trafficSecret (c_in c)) = Some nextIn" and "hc_trafficSecret inn = nextIn"
    and "\<forall>hc level. hc_setTrafficSecret C hc suite level nextOut = Some (rekeyed hc level nextOut a)"
    and "handleKeyUpdate C P c \<lparr>updateRequested = True\<rparr> =
      Some (None, c1\<lparr>c_out := rekeyed (c_out c1) QUICEncryptionLevelInitial nextOut a, c_in := inn\<rparr>)"
proof -
  obtain so si where so: "nextTrafficSecret C suite (hc_trafficSecret (c_out c)) = Some so"
    and si: "nextTrafficSecret C suite (hc_trafficSecret (c_in c)) = Some si"
    using cryptobyte_pkg.nextTrafficSecret_total [OF pkg suite(1)] by metis
  obtain a where a: "aead_wf a" "aead_Overhead a \<le> 200" "aead_explicitNonceLen a = 0"
    "\<forall>hc level. hc_setTrafficSecret C hc suite level so = Some (rekeyed hc level so a)"
    by (rule cryptobyte_pkg.hc_setTrafficSecret_total [OF pkg suite(1), of so])
  obtain b where b: "\<forall>hc level. hc_setTrafficSecret C hc suite level si = Some (rekeyed hc level si b)"
    by (rule cryptobyte_pkg.hc_setTrafficSecret_total [OF pkg suite(1), of si])
  have c1: "c_hand c1 = []" "c_in c1 = c_in c" using wr(2) c(2) by (auto simp: wrote_def)
  show ?thesis
  proof (rule that [OF a(1-3) so si _ a(4)])
    show "handleKeyUpdate C P c \<lparr>updateRequested = True\<rparr> =
      Some (None, c1\<lparr>c_out := rekeyed (c_out c1) QUICEncryptionLevelInitial so a,
        c_in := rekeyed (c_in c) QUICEncryptionLevelInitial si b\<rparr>)"
      using c(1) suite(2) data wr(1,3) c1 so si a(4) b
      by (simp add: handleKeyUpdate_def setReadTrafficSecret_def setWriteTrafficSecret_def)
  qed (simp add: rekeyed_def)
qed

section \<open>Write and Close in parallel\<close>

text \<open>
  Calls of \<open>Write\<close> and \<open>Close\<close> interleave at their atomic operations on \<open>activeCall\<close>: the load at the top of each
  loop, the compare-and-swap, and the final \<open>Add(-2)\<close> of \<open>Write\<close>. A call is between two of them: about to load,
  about to swap the value it has seen, in the body of \<open>Write\<close>, in the two ways through \<open>Close\<close> (only closing the
  network connection, or sending close\_notify first), returned, or refused with \<open>net.ErrClosed\<close>.
\<close>

datatype callPc = WLoad | WCas int | WBody | WReturn | CLoad | CCas int | CInterrupt | CNotify | CReturn | CErrClosed

inductive call_step :: "int \<times> callPc multiset \<Rightarrow> int \<times> callPc multiset \<Rightarrow> bool" where
  w_closed: "and a 1 \<noteq> 0 \<Longrightarrow> call_step (a, add_mset WLoad M) (a, add_mset CErrClosed M)"
| w_load: "and a 1 = 0 \<Longrightarrow> call_step (a, add_mset WLoad M) (a, add_mset (WCas a) M)"
| w_swap: "call_step (x, add_mset (WCas x) M) (x + 2, add_mset WBody M)"
| w_retry: "a \<noteq> x \<Longrightarrow> call_step (a, add_mset (WCas x) M) (a, add_mset WLoad M)"
| w_leave: "call_step (a, add_mset WBody M) (a - 2, add_mset WReturn M)"
| c_closed: "and a 1 \<noteq> 0 \<Longrightarrow> call_step (a, add_mset CLoad M) (a, add_mset CErrClosed M)"
| c_load: "and a 1 = 0 \<Longrightarrow> call_step (a, add_mset CLoad M) (a, add_mset (CCas a) M)"
| c_swap: "call_step (x, add_mset (CCas x) M) (or x 1, add_mset (if x \<noteq> 0 then CInterrupt else CNotify) M)"
| c_retry: "a \<noteq> x \<Longrightarrow> call_step (a, add_mset (CCas x) M) (a, add_mset CLoad M)"
| c_interrupt: "call_step (a, add_mset CInterrupt M) (a, add_mset CReturn M)"
| c_notify: "call_step (a, add_mset CNotify M) (a, add_mset CReturn M)"

fun closing :: "callPc \<Rightarrow> bool" where
  "closing CInterrupt = True"
| "closing CNotify = True"
| "closing CReturn = True"
| "closing _ = False"

text \<open>
  The low bit says that a \<open>Close\<close> got through, the rest counts the calls inside \<open>Write\<close>; a value waiting to be
  swapped has a clear low bit; close\_notify is sent only with no call inside \<open>Write\<close>.
\<close>

definition call_inv :: "int \<times> callPc multiset \<Rightarrow> bool" where
  "call_inv = (\<lambda>(a, M). a = 2 * int (count M WBody) + int (size (filter_mset closing M)) \<and>
     size (filter_mset closing M) \<le> 1 \<and> (\<forall>x. WCas x \<in># M \<or> CCas x \<in># M \<longrightarrow> even x) \<and>
     (CNotify \<in># M \<longrightarrow> count M WBody = 0))"

lemma call_step_inv: "call_step s s' \<Longrightarrow> call_inv s \<Longrightarrow> call_inv s'"
proof (induction rule: call_step.induct)
  case (w_swap x M)
  then have "even x" "x = 2 * int (count M WBody) + int (size (filter_mset closing M))" by (auto simp: call_inv_def)
  then have "size (filter_mset closing M) = 0" using w_swap by (auto simp: call_inv_def le_Suc_eq)
  then have "\<forall>pc\<in>#M. \<not> closing pc" by auto
  then have "CNotify \<notin># M" by force
  then show ?case using w_swap by (auto simp: call_inv_def)
next
  case (c_swap x M)
  then have x: "even x" "x = 2 * int (count M WBody) + int (size (filter_mset closing M))" by (auto simp: call_inv_def)
  then have none: "size (filter_mset closing M) = 0" using c_swap by (auto simp: call_inv_def le_Suc_eq)
  then have "\<forall>pc\<in>#M. \<not> closing pc" by auto
  then have "CNotify \<notin># M" by force
  moreover have "or x 1 = x + 1" using x(1) by (simp add: or_one_eq)
  ultimately show ?case using c_swap x none by (auto simp: call_inv_def count_eq_zero_iff)
qed (auto simp: call_inv_def and_one_eq even_iff_mod_2_eq_zero)

text \<open>The states that calls of \<open>Write\<close> and \<open>Close\<close> on an idle connection can lead to.\<close>

definition call_reachable :: "callPc multiset \<Rightarrow> int \<times> callPc multiset \<Rightarrow> bool" where
  "call_reachable calls s \<longleftrightarrow> set_mset calls \<subseteq> {WLoad, CLoad} \<and> call_step\<^sup>*\<^sup>* (0, calls) s"

lemma call_reachable_inv:
  assumes "call_reachable calls s"
  shows "call_inv s"
proof -
  from assms have run: "call_step\<^sup>*\<^sup>* (0, calls) s" and start: "set_mset calls \<subseteq> {WLoad, CLoad}"
    by (simp_all add: call_reachable_def)
  have none: "filter_mset closing calls = {#}" using start by auto
  have "WBody \<notin># calls" "\<And>x. WCas x \<notin># calls" "\<And>x. CCas x \<notin># calls" "CNotify \<notin># calls" using start by auto
  then have "call_inv (0, calls)" unfolding call_inv_def prod.case none by (auto simp: count_eq_zero_iff)
  with run show ?thesis by (induction rule: rtranclp_induct) (auto dest: call_step_inv)
qed

lemma no_entry_after_close:
  assumes "call_step s s'" and "call_inv s" and "size (filter_mset closing (snd s)) = 1"
  shows "count (snd s') WBody \<le> count (snd s) WBody \<and> size (filter_mset closing (snd s')) = 1"
  using assms
  by (induction rule: call_step.induct) (auto simp: call_inv_def)

section \<open>Properties\<close>

text \<open>
  (C26) A requested key update leaves both ends with the same new keys: an end that handles a KeyUpdate asking for an
  answer sends its own KeyUpdate under the old key, switches its outgoing half to the next traffic secret and its
  incoming half likewise; the other end reads that message, with whatever follows it left in its input, and
  handling it switches its incoming half to the same next secret. The two halves are paired again with
  equal secrets, so the exchange can be repeated.
\<close>

theorem key_update_exchange:
  assumes pkg: "cryptobyte_pkg C" and suite: "suite13_ok suite" "cipherSuiteTLS13ByID P (c_cipherSuite c) = Some suite"
    and c: "c_quic c = None" "c_vers c = VersionTLS13" "c_hand c = []" "\<not> c_buffering c" "can_write 5 c" "aead_ready (c_out c)"
      "hc_version (c_out c) = VersionTLS13"
    and p: "receiving p" "c_vers p = VersionTLS13" "c_hand p = []" "c_cipherSuite p = c_cipherSuite c"
    and pair: "rl_paired (c_out c, c_rand c) (c_in p)" "hc_trafficSecret (c_out c) = hc_trafficSecret (c_in p)"
  shows "\<exists>w c' p1 p' next. nextTrafficSecret C suite (hc_trafficSecret (c_out c)) = Some next \<and>
    handleKeyUpdate C P c \<lparr>updateRequested = True\<rparr> = Some (None, c') \<and> nc_sent (c_conn c') = nc_sent (c_conn c) @ w \<and>
    nextTrafficSecret C suite (hc_trafficSecret (c_in c)) = Some (hc_trafficSecret (c_in c')) \<and>
    readHandshake C (p\<lparr>c_rawInput := w @ rest\<rparr>) None = Some (Inr (KeyUpdateM \<lparr>updateRequested = False\<rparr>), p1, None) \<and>
    handleKeyUpdate C P p1 \<lparr>updateRequested = False\<rparr> = Some (None, p') \<and> c_rawInput p' = rest \<and>
    rl_paired (c_out c', c_rand c') (c_in p') \<and> hc_trafficSecret (c_out c') = next \<and> hc_trafficSecret (c_in p') = next"
proof -
  let ?m = "KeyUpdateM \<lparr>updateRequested = False\<rparr>" and ?d = "typeKeyUpdate # lp24 [0]"
  have d: "keyUpdateMsg_marshal C \<lparr>updateRequested = False\<rparr> = Inr ?d"
    by (simp add: cryptobyte_pkg.keyUpdateMsg_marshal_eq [OF pkg])
  then have m: "marshalMessage C ?m = Inr ?d" "message_wf (c_vers c) ?m" by simp_all
  have len: "length ?d = 5" "5 \<le> 4 + sizeLimit ?d" by simp_all
  obtain w c1 p1 where w: "writeHandshakeRecord C c ?m None = Some ((5, None), c1, transcript_Write None ?d)" "wrote w c c1"
    and r: "readHandshake C (p\<lparr>c_rawInput := w @ rest\<rparr>) None = Some (Inr (received ?m ?d), p1, transcript_Write None ?d)"
      "c_hand p1 = []" "c_rawInput p1 = rest" "receiving p1" "same_session p p1" "rl_paired (c_out c1, c_rand c1) (c_in p1)"
      "hc_trafficSecret (c_out c1) = hc_trafficSecret (c_out c)" "hc_version (c_out c1) = hc_version (c_out c)"
      "hc_trafficSecret (c_in p1) = hc_trafficSecret (c_in p)"
    using handshake_message_delivered [OF pkg m, unfolded len, OF len(2) c(1,5,6) p(1) _ p(3) pair(1), of None rest None]
      c(2) p(2) by auto
  have wr: "writeRecordLocked c recordTypeHandshake ?d = Some ((5, None), c1)"
    using w(1) d by (auto simp: writeHandshakeRecord_def)
  obtain a nextOut nextIn inn where a: "aead_wf a" "aead_Overhead a \<le> 200" "aead_explicitNonceLen a = 0"
    and nx: "nextTrafficSecret C suite (hc_trafficSecret (c_out c)) = Some nextOut"
      "nextTrafficSecret C suite (hc_trafficSecret (c_in c)) = Some nextIn" "hc_trafficSecret inn = nextIn"
    and set: "\<forall>hc level. hc_setTrafficSecret C hc suite level nextOut = Some (rekeyed hc level nextOut a)"
    and h: "handleKeyUpdate C P c \<lparr>updateRequested = True\<rparr> =
      Some (None, c1\<lparr>c_out := rekeyed (c_out c1) QUICEncryptionLevelInitial nextOut a, c_in := inn\<rparr>)"
    by (rule handleKeyUpdate_request [OF pkg suite c(1,3) d wr w(2) r(7)])
  have p1: "cipherSuiteTLS13ByID P (c_cipherSuite p1) = Some suite" "c_quic p1 = None"
    using r(4,5) p(4) suite(2) by (simp_all add: same_session_def receiving_def)
  have h': "handleKeyUpdate C P p1 \<lparr>updateRequested = False\<rparr> =
      Some (None, p1\<lparr>c_in := rekeyed (c_in p1) QUICEncryptionLevelInitial nextOut a\<rparr>)"
    using p1 r(2,9) pair(2) nx(1) set by (simp add: handleKeyUpdate_def setReadTrafficSecret_def)
  have "rl_paired (rekeyed (c_out c1) QUICEncryptionLevelInitial nextOut a, c_rand c1)
      (rekeyed (c_in p1) QUICEncryptionLevelInitial nextOut a)"
    using rl_paired_13 [OF r(6)] r(8) c(7) by (intro rekeyed_paired [OF a]) simp_all
  moreover have "nc_sent (c_conn c1) = nc_sent (c_conn c) @ w" using w(2) c(4) by (simp add: wrote_def)
  moreover have "transcript_Write None ?d = None" by (simp add: transcript_Write_def)
  ultimately show ?thesis using h h' nx r(1,3) by (intro exI [of _ w] exI [of _ "c1\<lparr>c_out := rekeyed (c_out c1) QUICEncryptionLevelInitial nextOut a, c_in := inn\<rparr>"]
      exI [of _ p1] exI [of _ "p1\<lparr>c_in := rekeyed (c_in p1) QUICEncryptionLevelInitial nextOut a\<rparr>"] exI [of _ nextOut])
    (simp add: rekeyed_def)
qed

definition suiteParams_sample :: suiteParams where
  "suiteParams_sample = \<lparr>sp_aeadAESGCMTLS13 = (\<lambda>key iv. Some (xorNonceAEAD iv aead_sample)),
     sp_aeadChaCha20Poly1305 = (\<lambda>key iv. None), sp_SHA256 = hash_sample, sp_SHA384 = hash_sample\<rparr>"

theorem key_update_exchange_witness:
  "\<exists>w c' p1 p'. handleKeyUpdate cb_ref suiteParams_sample conn_sample \<lparr>updateRequested = True\<rparr> = Some (None, c') \<and>
    readHandshake cb_ref (conn_sample\<lparr>c_rawInput := w @ [23]\<rparr>) None = Some (Inr (KeyUpdateM \<lparr>updateRequested = False\<rparr>), p1, None) \<and>
    handleKeyUpdate cb_ref suiteParams_sample p1 \<lparr>updateRequested = False\<rparr> = Some (None, p') \<and>
    rl_paired (c_out c', c_rand c') (c_in p')"
proof -
  let ?suite = "\<lparr>cs13_id = TLS_AES_128_GCM_SHA256, cs13_keyLen = 16, cs13_aead = (\<lambda>key iv. Some (xorNonceAEAD iv aead_sample)),
    cs13_hash = hash_sample\<rparr>"
  have ok: "suite13_ok ?suite"
    using hash_sample_ok by (simp add: suite13_ok_def schedule_hash_def aead_wf_def aead_sample_def cipherAEAD_ok_def)
  have suite: "cipherSuiteTLS13ByID suiteParams_sample (c_cipherSuite conn_sample) = Some ?suite"
    by (simp add: cipherSuiteTLS13ByID_def cipherSuitesTLS13_def suiteParams_sample_def conn_sample_def)
  have cw: "can_write 5 conn_sample" by (rule conn_sample_can_write) simp
  have rdy: "aead_ready (c_out conn_sample)"
    by (simp add: aead_ready_def conn_sample_def hc_sample_def halfConn_zero_def aead_wf_def aead_sample_def cipherAEAD_ok_def)
  have st: "c_quic conn_sample = None" "c_vers conn_sample = VersionTLS13" "c_hand conn_sample = []" "\<not> c_buffering conn_sample"
    "hc_version (c_out conn_sample) = VersionTLS13" "receiving conn_sample"
    "hc_trafficSecret (c_out conn_sample) = hc_trafficSecret (c_in conn_sample)"
    by (simp_all add: receiving_def conn_sample_def hc_sample_def halfConn_zero_def)
  have pair: "rl_paired (c_out conn_sample, c_rand conn_sample) (c_in conn_sample)"
    using hc_sample_pair by (simp add: rl_paired_def conn_sample_def) (simp add: hc_sample_def)
  show ?thesis
    using key_update_exchange [OF cbr.cryptobyte_pkg_axioms ok suite st(1-4) cw rdy st(5,6,2,3) refl pair st(7), of "[23]"]
    by blast
qed





end
