(* ===== verification/EchHello.thy ===== *)
theory EchHello
  imports Ech
begin

text \<open>
  What Encrypted Client Hello delivers: the server reconstructs the inner hello of the client, the
  list of configurations is parsed in finitely many rounds up to 65537 bytes, and the defects that the model of ech.go shows.
\<close>

section \<open>Loops that may fail\<close>

lemma read_res_Nil [simp]: "read_res body [] a = Inr a"
  by (simp add: read_res_def)

lemma read_res_step:
  assumes "\<And>s x s' x'. s \<noteq> [] \<Longrightarrow> body s x = Inr (s', x') \<Longrightarrow> length s' < length s"
    and "s \<noteq> []" and "body s a = Inr (s', a')"
  shows "read_res body s a = read_res body s' a'"
proof -
  have "consumes (tryRead body)" using assms(1) by (rule consumes_tryRead)
  from read_while_step [OF this assms(2)] assms(3) show ?thesis by (simp add: read_res_def tryRead_def)
qed

lemma read_res_fold:
  assumes "\<And>s x s' x'. s \<noteq> [] \<Longrightarrow> body s x = Inr (s', x') \<Longrightarrow> length s' < length s"
    and "\<And>x r a. x \<in> set xs \<Longrightarrow> enc x \<noteq> [] \<and> body (enc x @ r) a = Inr (r, upd x a)"
  shows "read_res body (concat (map enc xs) @ r) a = read_res body r (fold upd xs a)"
  using assms(2)
proof (induction xs arbitrary: a)
  case (Cons x xs)
  then have "body (enc x @ concat (map enc xs) @ r) a = Inr (concat (map enc xs) @ r, upd x a)" by simp
  with Cons show ?case by (simp add: read_res_step [OF assms(1)])
qed simp

section \<open>Extensions as a list\<close>

definition sentRaw :: "'m optext list \<Rightarrow> rawExtension list" where
  "sentRaw L = concat (map (\<lambda>(c, t, r, f). if c then [(t, the r)] else []) L)"

definition rawb :: "rawExtension list \<Rightarrow> bytes" where
  "rawb rs = concat (map (\<lambda>(t, d). extb t d) rs)"

definition small :: "rawExtension list \<Rightarrow> bool" where
  "small rs \<longleftrightarrow> (\<forall>(t, d)\<in>set rs. length d < 65536)"

lemma sentRaw_simps [simp]: "sentRaw [] = []" "sentRaw (L @ M) = sentRaw L @ sentRaw M"
  "sentRaw ((c, t, r, f) # L) = (if c then [(t, the r)] else []) @ sentRaw L"
  by (simp_all add: sentRaw_def)

lemma rawb_simps [simp]: "rawb [] = []" "rawb (L @ M) = rawb L @ rawb M" "rawb ((t, d) # L) = extb t d @ rawb L"
  by (simp_all add: rawb_def)

lemma rawb_eq_Nil [simp]: "rawb rs = [] \<longleftrightarrow> rs = []"
  by (cases rs) auto

lemma small_simps [simp]: "small []" "small (L @ M) \<longleftrightarrow> small L \<and> small M" "small ((t, d) # L) \<longleftrightarrow> length d < 65536 \<and> small L"
  by (auto simp: small_def)

lemma wexts_raw:
  assumes "wexts L = Some X"
  shows "X = rawb (sentRaw L) \<and> small (sentRaw L)"
  using assms
proof (induction L arbitrary: X)
  case (Cons x L)
  obtain c t r f where x: "x = (c, t, r, f)" by (cases x)
  from Cons show ?case by (cases c) (auto simp: x wexts_Cons_Some wext_Some)
qed simp

lemma wexts_append_Some:
  "wexts (L @ M) = Some X \<longleftrightarrow> (\<exists>A B. wexts L = Some A \<and> wexts M = Some B \<and> X = A @ B)"
proof (induction L arbitrary: X)
  case (Cons x L)
  obtain c t r f where x: "x = (c, t, r, f)" by (cases x)
  show ?case unfolding x append_Cons wexts_Cons_Some Cons.IH by (metis append_assoc)
qed simp

section \<open>The three parts of a hello's extensions\<close>

text \<open>The extensions that are never compressed, those that may be, and pre\_shared\_key.\<close>

definition plainOpts :: "clientHelloMsg \<Rightarrow> clientHelloMsg optext list" where
  "plainOpts m = take 9 (clientHelloMsg_optexts m)"

definition sharedOpts :: "clientHelloMsg \<Rightarrow> clientHelloMsg optext list" where
  "sharedOpts m = take 9 (drop 9 (clientHelloMsg_optexts m))"

definition lastOpts :: "clientHelloMsg \<Rightarrow> clientHelloMsg optext list" where
  "lastOpts m = drop 19 (clientHelloMsg_optexts m)"

definition innerOpts :: "clientHelloMsg \<Rightarrow> clientHelloMsg optext list" where
  "innerOpts m = plainOpts m @
     [withExt (clientHelloMsg_echOuterExts True m \<noteq> []) extensionECHOuterExtensions
        (wprefix 1 (Some (concat (map u16b (clientHelloMsg_echOuterExts True m))))) (\<lambda>m'. m')] @ lastOpts m"

text \<open>The fields of TLS 1.2 that an inner hello does not have, and its empty encrypted\_client\_hello.\<close>

definition inner_form :: "clientHelloMsg \<Rightarrow> bool" where
  "inner_form m \<longleftrightarrow> ch_supportedPoints m = [] \<and> \<not> ch_ticketSupported m \<and> \<not> ch_secureRenegotiationSupported m \<and>
     \<not> ch_extendedMasterSecret m \<and> ch_encryptedClientHello m = [innerECHExt]"

lemma optexts_parts:
  "clientHelloMsg_optexts m = plainOpts m @ sharedOpts m @
     [withExt False extensionECHOuterExtensions (Some []) (\<lambda>m'. m')] @ lastOpts m"
  by (simp add: plainOpts_def sharedOpts_def lastOpts_def clientHelloMsg_optexts_def)

lemma sentRaw_parts:
  "sentRaw (clientHelloMsg_optexts m) = sentRaw (plainOpts m) @ sentRaw (sharedOpts m) @ sentRaw (lastOpts m)"
  unfolding optexts_parts by (simp add: withExt_def)

lemma wexts_parts:
  "wexts (clientHelloMsg_optexts m) = Some X \<longleftrightarrow>
     (\<exists>A B D. wexts (plainOpts m) = Some A \<and> wexts (sharedOpts m) = Some B \<and> wexts (lastOpts m) = Some D \<and> X = A @ B @ D)"
  unfolding optexts_parts by (auto simp: wexts_append_Some withExt_def wexts_Cons_Some)

lemma map_fst_shared: "map fst (sentRaw (sharedOpts m)) = clientHelloMsg_echOuterExts True m"
  by (simp add: sharedOpts_def clientHelloMsg_optexts_def withExt_def clientHelloMsg_echOuterExts_def)

lemma distinct_echOuterExts: "distinct (clientHelloMsg_echOuterExts b m)"
  by (simp add: clientHelloMsg_echOuterExts_def)

lemma shared_types:
  "fst ` set (sentRaw (plainOpts m)) \<inter> set (clientHelloMsg_echOuterExts b m') = {}"
  "extensionECHOuterExtensions \<notin> fst ` set (sentRaw (plainOpts m))"
  "extensionECHOuterExtensions \<notin> fst ` set (sentRaw (lastOpts m))"
  "extensionEncryptedClientHello \<notin> set (clientHelloMsg_echOuterExts b m')"
  by (auto simp: plainOpts_def lastOpts_def clientHelloMsg_optexts_def withExt_def clientHelloMsg_echOuterExts_def
      split: if_splits)

context cryptobyte_pkg
begin

lemma inner_exts_wexts:
  assumes "inner_form m"
  shows "Bytes C (block (clientHelloMsg_plainExts C True m @ clientHelloMsg_compressibleExts C True m @
      clientHelloMsg_pskExt C True m) (NewBuilder C)) = Inr X \<longleftrightarrow> wexts (innerOpts m) = Some X"
  using assms
  by (simp add: wire_Some [symmetric] wexts_def innerOpts_def plainOpts_def lastOpts_def clientHelloMsg_optexts_def withExt_def
      clientHelloMsg_plainExts_def clientHelloMsg_compressibleExts_def clientHelloMsg_pskExt_def inner_form_def
      clientHelloMsg_sendsPSK_def wcat_map_Some) (simp add: wcat_Cons_Some)

lemma marshal_sent:
  assumes "clientHelloMsg_marshal C m = Inr bs" and "ch_encryptedClientHello m \<noteq> []"
  shows "\<exists>X. wexts (clientHelloMsg_optexts m) = Some X \<and> length X < 65536 \<and> length (ch_random m) = 32 \<and>
    length (ch_sessionId m) < 256 \<and> length (concat (map u16b (ch_cipherSuites m))) < 65536 \<and>
    length (ch_compressionMethods m) < 256 \<and> length (clientHelloMsg_body m (lp16 X)) < 16777216 \<and>
    bs = typeClientHello # lp24 (clientHelloMsg_body m (lp16 X))"
proof -
  from assms(1) obtain X e where X: "wexts (clientHelloMsg_optexts m) = Some X"
    and e: "wopt (X \<noteq> []) (wprefix 2 (Some X)) = Some e"
    and rest: "length (ch_random m) = 32" "length (ch_sessionId m) < 256"
      "length (concat (map u16b (ch_cipherSuites m))) < 65536" "length (ch_compressionMethods m) < 256"
      "length (clientHelloMsg_body m e) < 16777216" "bs = typeClientHello # lp24 (clientHelloMsg_body m e)"
    unfolding clientHelloMsg_marshal_iff by blast
  have "(extensionEncryptedClientHello, ch_encryptedClientHello m) \<in> set (sentRaw (plainOpts m))"
    using assms(2) by (simp add: plainOpts_def clientHelloMsg_optexts_def withExt_def)
  then have "rawb (sentRaw (clientHelloMsg_optexts m)) \<noteq> []"
    unfolding sentRaw_parts by auto
  with wexts_raw [OF X] have "X \<noteq> []" by simp
  with e have "e = lp16 X" "length X < 65536" by (simp_all add: wire_iffs)
  with X rest show ?thesis by blast
qed

lemma marshal_inner:
  assumes "clientHelloMsg_marshalMsg C True m = Inr h" and "inner_form m"
  shows "\<exists>X. wexts (innerOpts m) = Some X \<and> length X < 65536 \<and>
    h = typeClientHello # lp24 (clientHelloMsg_body (m\<lparr>ch_sessionId := []\<rparr>) (lp16 X))"
proof (cases "Bytes C (block (clientHelloMsg_plainExts C True m @ clientHelloMsg_compressibleExts C True m @
      clientHelloMsg_pskExt C True m) (NewBuilder C))")
  case (Inl err)
  with assms(1) show ?thesis by (simp add: clientHelloMsg_marshalMsg_def)
next
  case (Inr X)
  then have X: "wexts (innerOpts m) = Some X" unfolding inner_exts_wexts [OF assms(2)] .
  have "(extensionEncryptedClientHello, ch_encryptedClientHello m) \<in> set (sentRaw (innerOpts m))"
    using assms(2) by (simp add: inner_form_def innerOpts_def plainOpts_def clientHelloMsg_optexts_def withExt_def)
  then have "rawb (sentRaw (innerOpts m)) \<noteq> []" by auto
  with wexts_raw [OF X] have "X \<noteq> []" by simp
  with assms(1) X show ?thesis
    unfolding clientHelloMsg_marshalMsg_def Inr sum.case clientHelloMsg_body_def
    by (auto simp: wire_Some [symmetric] wire_iffs split: if_splits)
qed

end

section \<open>Reading the inner hello\<close>

definition rawOps :: "('b, 'x) cryptobyte_scheme \<Rightarrow> rawExtension list \<Rightarrow> ('b \<Rightarrow> 'b) list" where
  "rawOps C rs = concat (map (\<lambda>(t, d). [AddUint16 C t, AddUint16LengthPrefixed C (AddBytes C d)]) rs)"

lemma rawOps_simps [simp]: "rawOps C [] = []" "rawOps C (L @ M) = rawOps C L @ rawOps C M"
  "rawOps C ((t, d) # L) = [AddUint16 C t, AddUint16LengthPrefixed C (AddBytes C d)] @ rawOps C L"
  by (simp_all add: rawOps_def)

lemma findRaw_skip: "t \<notin> fst ` set P \<Longrightarrow> findRaw t (P @ R) = findRaw t R"
  by (induction P) auto

context cryptobyte_pkg
begin

lemma wire_rawOps [simp]:
  "\<forall>op\<in>set (rawOps C rs). lawful C op"
  "small rs \<Longrightarrow> wcat (map (wire C) (rawOps C rs)) = Some (rawb rs)"
  by (induction rs) (auto simp: wcat.simps wprefix_def extb_def lp16_def small_def)

lemma rawExtensions_back:
  assumes "small rs"
  shows "read_while (rawExtensionBody C) (rawb rs) acc = Some (acc @ rs)"
proof -
  have "consumes (rawExtensionBody C)"
    by (rule consumesI) (auto simp: rawExtensionBody_def all_read_iffs bind_eq_Some_conv)
  then show ?thesis unfolding rawb_def
    by (rule read_while_append) (use assms in \<open>auto simp: rawExtensionBody_def extb_def small_def\<close>)
qed

lemma skipPrefixed_back:
  "length w < 256 \<Longrightarrow> skipUint8LengthPrefixed C (lp8 w @ r) = Some r"
  "length w < 65536 \<Longrightarrow> skipUint16LengthPrefixed C (lp16 w @ r) = Some r"
proof -
  assume "length w < 256"
  then have "lp8 w @ r = word_of_nat (length w) # w @ r" "unat (word_of_nat (length w) :: u8) = length w"
    by (simp_all add: lp8_def unat_of_nat)
  then show "skipUint8LengthPrefixed C (lp8 w @ r) = Some r"
    by (simp add: skipUint8LengthPrefixed_def Skip_iff)
next
  assume "length w < 65536"
  then have "lp16 w @ r = u16b (word_of_nat (length w)) @ w @ r" "unat (word_of_nat (length w) :: u16) = length w"
    by (simp_all add: lp16_def u16b_def unat_of_nat)
  then show "skipUint16LengthPrefixed C (lp16 w @ r) = Some r"
    by (simp add: skipUint16LengthPrefixed_def Skip_iff)
qed

lemma extractRawExtensions_back:
  assumes "ch_original hello = Some bs" and "clientHelloMsg_marshal C m = Inr bs" and "ch_encryptedClientHello m \<noteq> []"
  shows "extractRawExtensions C hello = Inr (sentRaw (clientHelloMsg_optexts m))"
proof -
  from marshal_sent [OF assms(2,3)] obtain X where X: "wexts (clientHelloMsg_optexts m) = Some X"
    and len: "length X < 65536" "length (ch_random m) = 32" "length (ch_sessionId m) < 256"
      "length (concat (map u16b (ch_cipherSuites m))) < 65536" "length (ch_compressionMethods m) < 256"
    and bs: "bs = typeClientHello # lp24 (clientHelloMsg_body m (lp16 X))" by blast
  let ?rest = "lp8 (ch_sessionId m) @ lp16 (concat (map u16b (ch_cipherSuites m))) @ lp8 (ch_compressionMethods m) @ lp16 X"
  have "Skip C 38 bs = Some ?rest"
    unfolding Skip_iff bs
    by (rule exI [of _ "typeClientHello # be 3 (length (clientHelloMsg_body m (lp16 X))) @ u16b (ch_vers m) @ ch_random m"])
      (simp add: clientHelloMsg_body_def lp24_def len)
  then show ?thesis using wexts_raw [OF X] len
    by (simp add: extractRawExtensions_def assms(1) skipPrefixed_back rawExtensions_back)
qed

lemma outerExt_shrinks:
  "outerExtBody C s a = Inr (s', a') \<Longrightarrow> length s' < length s"
  by (auto simp: outerExtBody_def res_bind_Inr all_read_iffs split: prod.splits if_splits option.splits)

lemma innerExt_shrinks:
  "innerExtBody C raw s a = Inr (s', a') \<Longrightarrow> length s' < length s"
  by (auto simp: innerExtBody_def res_bind_Inr all_read_iffs split: prod.splits if_splits)

text \<open>The named extensions are found behind those that the index has passed.\<close>

lemma outerExts_back:
  assumes "distinct (map fst rs)" and "extensionEncryptedClientHello \<notin> fst ` set rs"
    and "fst ` set P \<inter> fst ` set rs = {}"
  shows "\<exists>rest. read_res (outerExtBody C) (concat (map u16b (map fst rs))) (P @ rs @ R, ops) = Inr (rest, ops @ rawOps C rs)"
  using assms
proof (induction rs arbitrary: P ops)
  case (Cons x rs)
  obtain t d where x: "x = (t, d)" by (cases x)
  let ?ops = "ops @ rawOps C [x]"
  have "findRaw t (P @ (x # rs) @ R) = Some ((x # rs) @ R)"
    using Cons.prems by (simp add: x findRaw_skip)
  then have "outerExtBody C (u16b t @ concat (map u16b (map fst rs))) (P @ (x # rs) @ R, ops) =
      Inr (concat (map u16b (map fst rs)), [x] @ rs @ R, ?ops)"
    using Cons.prems by (simp add: x outerExtBody_def)
  then have "read_res (outerExtBody C) (u16b t @ concat (map u16b (map fst rs))) (P @ (x # rs) @ R, ops) =
      read_res (outerExtBody C) (concat (map u16b (map fst rs))) ([x] @ rs @ R, ?ops)"
    by (intro read_res_step) (auto dest: outerExt_shrinks)
  moreover obtain rest where
    "read_res (outerExtBody C) (concat (map u16b (map fst rs))) ([x] @ rs @ R, ?ops) = Inr (rest, ?ops @ rawOps C rs)"
    using Cons.IH [of "[x]" ?ops] Cons.prems by (auto simp: x)
  ultimately show ?case by (simp add: x)
qed simp

lemma copied_exts:
  assumes "small rs" and "extensionECHOuterExtensions \<notin> fst ` set rs"
  shows "read_res (innerExtBody C raw) (rawb rs @ r) ops = read_res (innerExtBody C raw) r (ops @ rawOps C rs)"
proof -
  let ?upd = "\<lambda>(t, d) ops. ops @ rawOps C [(t, d)]"
  have "read_res (innerExtBody C raw) (rawb rs @ r) ops = read_res (innerExtBody C raw) r (fold ?upd rs ops)"
    unfolding rawb_def
  proof (rule read_res_fold)
    show "(case x of (t, d) \<Rightarrow> extb t d) \<noteq> [] \<and>
        innerExtBody C raw ((case x of (t, d) \<Rightarrow> extb t d) @ r) a = Inr (r, ?upd x a)" if "x \<in> set rs" for x r a
      using assms that by (force simp: innerExtBody_def extb_def small_def split: prod.split)
  qed (auto dest: innerExt_shrinks)
  moreover have "fold ?upd rs ops = ops @ rawOps C rs" by (induction rs arbitrary: ops) auto
  ultimately show ?thesis by simp
qed

lemma innerHead_back:
  assumes "length (ch_random m) = 32" and "length (concat (map u16b (ch_cipherSuites m))) < 65536"
    and "length (ch_compressionMethods m) < 256" and "length X < 65536"
  shows "innerHead C (clientHelloMsg_body (m\<lparr>ch_sessionId := []\<rparr>) (lp16 X) @ r) =
    Some (u16b (ch_vers m) @ ch_random m, concat (map u16b (ch_cipherSuites m)), ch_compressionMethods m, X, r)"
proof -
  have "ReadBytes C 34 ((u16b (ch_vers m) @ ch_random m) @ w) = Some (u16b (ch_vers m) @ ch_random m, w)" for w
    using assms(1) by (simp add: ReadBytes_iff)
  with assms show ?thesis by (simp add: innerHead_def clientHelloMsg_body_def)
qed

lemma innerExtOps_back:
  assumes "inner_form m" and "wexts (innerOpts m) = Some X" and "wexts (clientHelloMsg_optexts m) = Some Y"
    and "sentRaw (sharedOpts outer) = sentRaw (sharedOpts m)"
  shows "innerExtOps C (sentRaw (clientHelloMsg_optexts outer)) X = block (rawOps C (sentRaw (clientHelloMsg_optexts m)))"
proof -
  let ?types = "concat (map u16b (clientHelloMsg_echOuterExts True m))"
  let ?raw = "sentRaw (clientHelloMsg_optexts outer)"
  let ?P = "sentRaw (plainOpts m)" and ?S = "sentRaw (sharedOpts m)" and ?L = "sentRaw (lastOpts m)"
  let ?E = "if clientHelloMsg_echOuterExts True m \<noteq> [] then [(extensionECHOuterExtensions, lp8 ?types)] else []"
  have "length (clientHelloMsg_echOuterExts True m) \<le> 9" by (simp add: clientHelloMsg_echOuterExts_def)
  moreover have "length ?types = 2 * length (clientHelloMsg_echOuterExts True m)"
    by (simp add: length_concat comp_def sum_list_triv)
  ultimately have types: "length ?types < 256" by simp
  then have "sentRaw (innerOpts m) = ?P @ ?E @ ?L"
    by (simp add: innerOpts_def withExt_def wprefix_def lp8_def)
  with wexts_raw [OF assms(2)] have X: "X = rawb ?P @ rawb ?E @ rawb ?L" and sm: "small ?P" "small ?L" by auto
  have "read_res (innerExtBody C ?raw) (rawb ?E @ w) ops = read_res (innerExtBody C ?raw) w (ops @ rawOps C ?S)" for w ops
  proof (cases "clientHelloMsg_echOuterExts True m = []")
    case True
    with map_fst_shared [of m] show ?thesis by simp
  next
    case False
    obtain rest where "read_res (outerExtBody C) ?types (?raw, ops) = Inr (rest, ops @ rawOps C ?S)"
      using outerExts_back [of ?S "sentRaw (plainOpts outer)" "sentRaw (lastOpts outer)" ops]
        distinct_echOuterExts [of True m] shared_types(1) [of outer True m] shared_types(4) [of True m]
      unfolding sentRaw_parts assms(4) map_fst_shared by (metis list.set_map map_fst_shared)
    with types have "innerExtBody C ?raw (rawb ?E @ w) ops = Inr (w, ops @ rawOps C ?S)"
      using False by (simp add: innerExtBody_def extb_def)
    then show ?thesis using False by (intro read_res_step) (auto dest: innerExt_shrinks)
  qed
  then have "read_res (innerExtBody C ?raw) X [] = Inr (rawOps C (sentRaw (clientHelloMsg_optexts m)))"
    using copied_exts [OF sm(2) shared_types(3), of ?raw "[]"]
    by (simp add: X copied_exts [OF sm(1) shared_types(2)] sentRaw_parts)
  then show ?thesis by (simp add: innerExtOps_def)
qed

lemma decode_encode_inner:
  assumes "encodeInnerClientHello C inner n = Inr enc"
    and "clientHelloMsg_marshal C inner = Inr bs" and "clientHelloMsg_wf inner" and "inner_form inner"
    and "checkInnerVersions (ch_supportedVersions inner) False = None"
    and "ch_original hello = Some w" and "clientHelloMsg_marshal C outer = Inr w" and "ch_encryptedClientHello outer \<noteq> []"
    and "sentRaw (sharedOpts outer) = sentRaw (sharedOpts inner)" and "ch_sessionId hello = ch_sessionId inner"
  shows "decodeInnerClientHello C hello enc =
    Inr (inner\<lparr>ch_original := Some bs, ch_extensions := clientHelloMsg_sentExts inner\<rparr>)"
proof -
  have "ch_encryptedClientHello inner \<noteq> []" using assms(4) by (simp add: inner_form_def)
  from marshal_sent [OF assms(2) this] obtain Y where Y: "wexts (clientHelloMsg_optexts inner) = Some Y"
    and len: "length Y < 65536" "length (ch_random inner) = 32" "length (ch_sessionId inner) < 256"
      "length (concat (map u16b (ch_cipherSuites inner))) < 65536" "length (ch_compressionMethods inner) < 256"
      "length (clientHelloMsg_body inner (lp16 Y)) < 16777216"
    and bs: "bs = typeClientHello # lp24 (clientHelloMsg_body inner (lp16 Y))" by blast
  from assms(1) obtain h where h: "clientHelloMsg_marshalMsg C True inner = Inr h"
    by (auto simp: encodeInnerClientHello_def split: sum.splits)
  from marshal_inner [OF h assms(4)] obtain X where X: "wexts (innerOpts inner) = Some X" "length X < 65536"
    and hX: "h = typeClientHello # lp24 (clientHelloMsg_body (inner\<lparr>ch_sessionId := []\<rparr>) (lp16 X))" by blast
  have "drop 4 h = clientHelloMsg_body (inner\<lparr>ch_sessionId := []\<rparr>) (lp16 X)" by (simp add: hX lp24_def)
  with assms(1) h obtain k where enc: "enc = clientHelloMsg_body (inner\<lparr>ch_sessionId := []\<rparr>) (lp16 X) @ replicate k 0"
    by (auto simp: encodeInnerClientHello_def Let_def)
  have "rawb (sentRaw (clientHelloMsg_optexts inner)) = Y" "small (sentRaw (clientHelloMsg_optexts inner))"
    using wexts_raw [OF Y] by simp_all
  then have "Bytes C (block [
         AddUint8 C typeClientHello,
         AddUint24LengthPrefixed C (block [
           AddBytes C (u16b (ch_vers inner) @ ch_random inner),
           AddUint8LengthPrefixed C (AddBytes C (ch_sessionId inner)),
           AddUint16LengthPrefixed C (AddBytes C (concat (map u16b (ch_cipherSuites inner)))),
           AddUint8LengthPrefixed C (AddBytes C (ch_compressionMethods inner)),
           AddUint16LengthPrefixed C (block (rawOps C (sentRaw (clientHelloMsg_optexts inner))))])] (NewBuilder C)) = Inr bs"
    using len by (simp add: wire_Some [symmetric] wire_iffs bs clientHelloMsg_body_def)
  moreover have "ch_encryptedClientHello inner = [innerECHExt]" using assms(4) by (simp add: inner_form_def)
  ultimately show ?thesis
    using len X(2) clientHelloMsg_unmarshal_marshal [OF assms(2,3)] assms(5,10)
    by (simp add: decodeInnerClientHello_def enc innerHead_back extractRawExtensions_back [OF assms(6,7,8)]
        innerExtOps_back [OF assms(4) X(1) Y assms(9)] list_ex_iff)
qed

end

section \<open>The whole exchange\<close>

text \<open>
  The fields that both hellos carry and the encoding of the inner one leaves to the outer: the client makes the inner
  hello as a copy of the outer one.
\<close>

definition shares_fields :: "clientHelloMsg \<Rightarrow> clientHelloMsg \<Rightarrow> bool" where
  "shares_fields outer inner \<longleftrightarrow> ch_sessionId outer = ch_sessionId inner \<and> ch_ocspStapling outer = ch_ocspStapling inner \<and>
     ch_supportedCurves outer = ch_supportedCurves inner \<and>
     ch_supportedSignatureAlgorithms outer = ch_supportedSignatureAlgorithms inner \<and>
     ch_supportedSignatureAlgorithmsCert outer = ch_supportedSignatureAlgorithmsCert inner \<and>
     ch_alpnProtocols outer = ch_alpnProtocols inner \<and> ch_supportedVersions outer = ch_supportedVersions inner \<and>
     ch_cookie outer = ch_cookie inner \<and> ch_keyShares outer = ch_keyShares inner \<and> ch_pskModes outer = ch_pskModes inner"

lemma shares_fields_raw: "shares_fields outer inner \<Longrightarrow> sentRaw (sharedOpts outer) = sentRaw (sharedOpts inner)"
  by (simp add: shares_fields_def sharedOpts_def clientHelloMsg_optexts_def withExt_def)

text \<open>What \<open>crypto/hpke\<close> promises of a sender and its recipient: opening undoes sealing, with a tag of 16 bytes.\<close>

definition hpke_pair :: "hpkeContext \<Rightarrow> hpkeContext \<Rightarrow> bool" where
  "hpke_pair sx rx \<longleftrightarrow> hx_seq rx = hx_seq sx \<and>
     (\<forall>n aad msg w. hx_crypt sx n aad msg = Inr w \<longrightarrow> length w = length msg + 16 \<and> hx_crypt rx n aad w = Inr msg)"

definition occurs_once :: "bytes \<Rightarrow> bytes \<Rightarrow> bool" where
  "occurs_once p w \<longleftrightarrow> (\<forall>a b a' b'. w = a @ p @ b \<longrightarrow> w = a' @ p @ b' \<longrightarrow> a = a')"

lemma occurs_once_suffix:
  assumes "occurs_once p (x @ w)"
  shows "occurs_once p w"
  unfolding occurs_once_def
proof (intro allI impI)
  fix a b a' b'
  assume "w = a @ p @ b" and "w = a' @ p @ b'"
  then have "x @ w = (x @ a) @ p @ b" and "x @ w = (x @ a') @ p @ b'" by simp_all
  with assms have "x @ a = x @ a'" unfolding occurs_once_def by blast
  then show "a = a'" by simp
qed

lemma replaceFirst_once:
  assumes "occurs_once p (a @ p @ b)"
  shows "replaceFirst p z (a @ p @ b) = a @ z @ b"
  using assms
proof (induction a)
  case Nil
  show ?case by (cases p; cases b) (simp_all add: HasPrefix_def)
next
  case (Cons x a)
  have "\<not> HasPrefix ((x # a) @ p @ b) p"
  proof
    assume "HasPrefix ((x # a) @ p @ b) p"
    then have "take (length p) ((x # a) @ p @ b) = p" by (simp add: HasPrefix_def)
    then have "(x # a) @ p @ b = [] @ p @ drop (length p) ((x # a) @ p @ b)"
      by (metis append_Nil append_take_drop_id)
    with Cons.prems show False unfolding occurs_once_def by blast
  qed
  moreover have "occurs_once p (a @ p @ b)" using Cons.prems occurs_once_suffix [of p "[x]"] by simp
  ultimately show ?case using Cons.IH by simp
qed

text \<open>A hello with an outer encrypted\_client\_hello: its raw extensions.\<close>

lemma sentRaw_outer:
  assumes "v \<noteq> []"
  shows "sentRaw (clientHelloMsg_optexts (m\<lparr>ch_encryptedClientHello := 0 # v\<rparr>)) =
    sentRaw (take 8 (clientHelloMsg_optexts m)) @ (extensionEncryptedClientHello, 0 # v) # sentRaw (sharedOpts m)"
proof -
  let ?m = "m\<lparr>ch_encryptedClientHello := 0 # v\<rparr>"
  have "sentRaw (plainOpts ?m) = sentRaw (take 8 (clientHelloMsg_optexts m)) @ [(extensionEncryptedClientHello, 0 # v)]"
    by (simp add: plainOpts_def clientHelloMsg_optexts_def withExt_def)
  moreover have "sentRaw (sharedOpts ?m) = sentRaw (sharedOpts m)"
    by (rule shares_fields_raw) (simp add: shares_fields_def)
  moreover have "sentRaw (lastOpts ?m) = []"
    by (simp add: lastOpts_def clientHelloMsg_optexts_def withExt_def clientHelloMsg_sendsPSK_def)
  ultimately show ?thesis by (simp add: sentRaw_parts)
qed

definition outerExtWire :: "u8 \<Rightarrow> u16 \<Rightarrow> u16 \<Rightarrow> bytes \<Rightarrow> bytes \<Rightarrow> bytes" where
  "outerExtWire i kdf aead key payload = u16b kdf @ u16b aead @ [i] @ lp16 key @ lp16 payload"

lemma outerExtWire_props [simp]: "outerExtWire i kdf aead key payload \<noteq> []"
  "length (outerExtWire i kdf aead key payload) = 9 + length key + length payload"
  by (simp_all add: outerExtWire_def)

context cryptobyte_pkg
begin

lemma generateOuterECHExt_wire:
  "generateOuterECHExt C i kdf aead key payload = Inr w \<longleftrightarrow>
     length key < 65536 \<and> length payload < 65536 \<and> w = 0 # outerExtWire i kdf aead key payload"
  by (auto simp: generateOuterECHExt_def outerExtWire_def wire_Some [symmetric] wire_iffs)

lemma parseECHExt_back:
  assumes "length key < 65536" and "length payload < 65536"
  shows "parseECHExt C (0 # outerExtWire i kdf aead key payload) =
    Inr (outerECHExt, \<lparr>ecc_KDFID = kdf, ecc_AEADID = aead\<rparr>, i, key, payload)"
  using assms by (simp add: parseECHExt_def parseOuterECHExt_def outerExtWire_def)

text \<open>Two payloads of the same length sit at the same place of the hello.\<close>

lemma marshal_payload:
  assumes "clientHelloMsg_marshal C (m\<lparr>ch_encryptedClientHello := 0 # outerExtWire i kdf aead key p\<rparr>) = Inr w"
    and "clientHelloMsg_marshal C (m\<lparr>ch_encryptedClientHello := 0 # outerExtWire i kdf aead key z\<rparr>) = Inr w'"
    and "length z = length p"
  shows "\<exists>h a b. length h = 4 \<and> w = h @ a @ p @ b \<and> w' = h @ a @ z @ b"
proof -
  let ?m = "\<lambda>q. m\<lparr>ch_encryptedClientHello := 0 # outerExtWire i kdf aead key q\<rparr>"
  let ?A = "rawb (sentRaw (take 8 (clientHelloMsg_optexts m)))" and ?S = "rawb (sentRaw (sharedOpts m))"
  let ?X = "\<lambda>q. ?A @ extb extensionEncryptedClientHello (0 # outerExtWire i kdf aead key q) @ ?S"
  let ?head = "u16b (ch_vers m) @ ch_random m @ lp8 (ch_sessionId m) @
     lp16 (concat (map u16b (ch_cipherSuites m))) @ lp8 (ch_compressionMethods m)"
  have wire: "w = typeClientHello # lp24 (clientHelloMsg_body (?m q) (lp16 (?X q)))"
    if "clientHelloMsg_marshal C (?m q) = Inr w" for q w
  proof -
    from marshal_sent [OF that] obtain X where X: "wexts (clientHelloMsg_optexts (?m q)) = Some X"
      and w: "w = typeClientHello # lp24 (clientHelloMsg_body (?m q) (lp16 X))" by auto
    from wexts_raw [OF X] have "X = ?X q" by (simp add: sentRaw_outer)
    with w show ?thesis by simp
  qed
  let ?h = "typeClientHello # be 3 (length (?head @ lp16 (?X p)))"
  let ?a = "?head @ be 2 (length (?X p)) @ ?A @ u16b extensionEncryptedClientHello @
    be 2 (length (0 # outerExtWire i kdf aead key p)) @ 0 # u16b kdf @ u16b aead @ [i] @ lp16 key @ be 2 (length p)"
  have "w = ?h @ ?a @ p @ ?S"
    unfolding wire [OF assms(1)] by (simp add: clientHelloMsg_body_def lp24_def lp16_def extb_def outerExtWire_def)
  moreover have "w' = ?h @ ?a @ z @ ?S"
    unfolding wire [OF assms(2)] using assms(3)
    by (simp add: clientHelloMsg_body_def lp24_def lp16_def extb_def outerExtWire_def)
  ultimately show ?thesis by (intro exI [of _ ?h] exI [of _ ?a] exI [of _ ?S]) simp
qed

text \<open>What a client that succeeded has computed.\<close>

lemma computeAndUpdate_ok:
  assumes "computeAndUpdateOuterECHExtension C outer inner ech True = (None, outer', ech')"
  shows "\<exists>enc w0 sealed x.
    encodeInnerClientHello C inner (unat (ecf_MaxNameLength (ecx_config ech))) = Inr enc \<and>
    length (ecx_encapsulatedKey ech) < 65536 \<and> length sealed < 65536 \<and>
    clientHelloMsg_marshal C (outer\<lparr>ch_encryptedClientHello := 0 # outerExtWire (ecf_ConfigID (ecx_config ech)) (ecx_kdfID ech)
      (ecx_aeadID ech) (ecx_encapsulatedKey ech) (replicate (length enc + 16) 0)\<rparr>) = Inr w0 \<and>
    hx_run (ecx_hpkeContext ech) (drop 4 w0) enc = (Inr sealed, x) \<and> ech' = ech\<lparr>ecx_hpkeContext := x\<rparr> \<and>
    outer' = outer\<lparr>ch_encryptedClientHello := 0 # outerExtWire (ecf_ConfigID (ecx_config ech)) (ecx_kdfID ech)
      (ecx_aeadID ech) (ecx_encapsulatedKey ech) sealed\<rparr>"
  using assms unfolding computeAndUpdateOuterECHExtension_def Let_def
  by (auto split: sum.split_asm prod.split_asm simp: generateOuterECHExt_wire)

end

text \<open>The server's key for the configuration that the client used, and the recipient it gives.\<close>

definition ech_key_for :: "('b, 'x) cryptobyte_scheme \<Rightarrow> hpkePkgs \<Rightarrow> echClientContext \<Rightarrow> EncryptedClientHelloKey \<Rightarrow> hpkeContext \<Rightarrow> bool" where
  "ech_key_for C Y ech key rx \<longleftrightarrow> (\<exists>cfg priv.
     parseECHConfig C (ehk_Config key) = Inr (False, cfg) \<and> hp_NewKEM Y (ecf_KemID cfg) = None \<and>
     hp_NewPrivateKey Y (ecf_KemID cfg) (ehk_PrivateKey key) = Inr priv \<and> hp_NewKDF Y (ecx_kdfID ech) = None \<and>
     hp_NewAEAD Y (ecx_aeadID ech) = None \<and>
     hp_NewRecipient Y (ecx_encapsulatedKey ech) priv (ecx_kdfID ech) (ecx_aeadID ech) (echInfo (ehk_Config key)) = Inr rx)"

context cryptobyte_pkg
begin

lemma ech_delivered:
  assumes "computeAndUpdateOuterECHExtension C outer inner ech True = (None, outer', ech')"
    and "clientHelloMsg_marshal C outer' = Inr w" and "clientHelloMsg_wf outer'"
    and "clientHelloMsg_marshal C inner = Inr bs" and "clientHelloMsg_wf inner" and "inner_form inner"
    and "shares_fields outer inner" and "checkInnerVersions (ch_supportedVersions inner) False = None"
    and "ech_key_for C Y ech key rx" and "hpke_pair (ecx_hpkeContext ech) rx"
    and "parseECHExt C (ch_encryptedClientHello outer') = Inr (t, cs, i, encap, payload)" and "occurs_once payload w"
  shows "\<exists>hello rx'. clientHelloMsg_unmarshal C w = Some hello \<and>
    processECHClientHello C Y c hello (key # keys) =
      Some (Inr (inner\<lparr>ch_original := Some bs, ch_extensions := clientHelloMsg_sentExts inner\<rparr>,
        Some (echServerContext_zero\<lparr>esc_hpkeContext := Some rx', esc_configID := i, esc_ciphersuite := cs\<rparr>)),
        c\<lparr>c_echAccepted := True\<rparr>) \<and>
    hpke_pair (ecx_hpkeContext ech') rx'"
proof -
  let ?hello = "outer'\<lparr>ch_original := Some w, ch_extensions := clientHelloMsg_sentExts outer'\<rparr>"
  let ?ext = "outerExtWire (ecf_ConfigID (ecx_config ech)) (ecx_kdfID ech) (ecx_aeadID ech) (ecx_encapsulatedKey ech)"
  from computeAndUpdate_ok [OF assms(1)] obtain enc w0 sealed x where
    enc: "encodeInnerClientHello C inner (unat (ecf_MaxNameLength (ecx_config ech))) = Inr enc"
    and len: "length (ecx_encapsulatedKey ech) < 65536" "length sealed < 65536"
    and w0: "clientHelloMsg_marshal C (outer\<lparr>ch_encryptedClientHello := 0 # ?ext (replicate (length enc + 16) 0)\<rparr>) = Inr w0"
    and run: "hx_run (ecx_hpkeContext ech) (drop 4 w0) enc = (Inr sealed, x)"
    and ech': "ech' = ech\<lparr>ecx_hpkeContext := x\<rparr>"
    and outer': "outer' = outer\<lparr>ch_encryptedClientHello := 0 # ?ext sealed\<rparr>" by blast
  have args: "t = outerECHExt" "cs = \<lparr>ecc_KDFID = ecx_kdfID ech, ecc_AEADID = ecx_aeadID ech\<rparr>"
    "i = ecf_ConfigID (ecx_config ech)" "encap = ecx_encapsulatedKey ech" "payload = sealed"
    using assms(11) parseECHExt_back [OF len] by (simp_all add: outer')
  have x: "x = (ecx_hpkeContext ech)\<lparr>hx_seq := Suc (hx_seq (ecx_hpkeContext ech))\<rparr>"
    and crypt: "hx_crypt (ecx_hpkeContext ech) (hx_seq (ecx_hpkeContext ech)) (drop 4 w0) enc = Inr sealed"
    using run by (auto simp: hx_run_def split: sum.split_asm)
  with assms(10) have slen: "length sealed = length enc + 16" and seq: "hx_seq rx = hx_seq (ecx_hpkeContext ech)"
    and opn: "hx_crypt rx (hx_seq rx) (drop 4 w0) sealed = Inr enc"
    unfolding hpke_pair_def by auto
  obtain h a b where h: "length h = 4" "w = h @ a @ sealed @ b" "w0 = h @ a @ replicate (length enc + 16) 0 @ b"
    using marshal_payload [OF assms(2) [unfolded outer'] w0] slen by auto
  have "occurs_once sealed (a @ sealed @ b)" using assms(12) occurs_once_suffix h(2) args(5) by blast
  then have "replaceFirst sealed (replicate (length sealed) 0) (drop 4 w) = drop 4 w0"
    using h slen by (simp add: replaceFirst_once)
  then have dec: "decryptECHPayload rx w sealed = (Inr enc, rx\<lparr>hx_seq := Suc (hx_seq rx)\<rparr>)"
    using opn by (simp add: decryptECHPayload_def hx_run_def)
  have "sentRaw (sharedOpts outer') = sentRaw (sharedOpts inner)" "ch_sessionId ?hello = ch_sessionId inner"
    using shares_fields_raw [of outer' inner] assms(7) by (simp_all add: outer' shares_fields_def)
  then have inner: "decodeInnerClientHello C ?hello enc =
      Inr (inner\<lparr>ch_original := Some bs, ch_extensions := clientHelloMsg_sentExts inner\<rparr>)"
    by (intro decode_encode_inner [OF enc assms(4,5,6,8) _ assms(2)]) (simp_all add: outer')
  have "processECHClientHello C Y c ?hello (key # keys) =
      Some (Inr (inner\<lparr>ch_original := Some bs, ch_extensions := clientHelloMsg_sentExts inner\<rparr>,
        Some (echServerContext_zero\<lparr>esc_hpkeContext := Some (rx\<lparr>hx_seq := Suc (hx_seq rx)\<rparr>), esc_configID := i, esc_ciphersuite := cs\<rparr>)),
        c\<lparr>c_echAccepted := True\<rparr>)"
    using assms(9,11) inner dec unfolding ech_key_for_def
    by (auto simp: processECHClientHello_def echKeyUsable_def args)
  moreover have "hpke_pair (ecx_hpkeContext ech') (rx\<lparr>hx_seq := Suc (hx_seq rx)\<rparr>)"
    using assms(10) seq by (simp add: hpke_pair_def ech' x)
  ultimately show ?thesis using clientHelloMsg_unmarshal_marshal [OF assms(2,3)] by blast
qed

end

section \<open>A concrete exchange\<close>

definition inner_sample :: clientHelloMsg where
  "inner_sample = clientHelloMsg_zero\<lparr>ch_vers := VersionTLS12, ch_random := replicate 32 2, ch_cipherSuites := [0x1301],
     ch_compressionMethods := [0], ch_serverName := [97], ch_supportedVersions := [VersionTLS13],
     ch_encryptedClientHello := [innerECHExt]\<rparr>"

definition outer_sample :: clientHelloMsg where
  "outer_sample = inner_sample\<lparr>ch_random := replicate 32 3, ch_serverName := [98], ch_encryptedClientHello := []\<rparr>"

definition sealer_sample :: hpkeContext where
  "sealer_sample = \<lparr>hx_crypt = (\<lambda>n aad msg. Inr (171 # msg @ replicate 15 0)), hx_seq = 0\<rparr>"

definition opener_sample :: hpkeContext where
  "opener_sample = \<lparr>hx_crypt = (\<lambda>n aad w. Inr (take (length w - 16) (tl w))), hx_seq = 0\<rparr>"

lemma sample_pair: "hpke_pair sealer_sample opener_sample"
  by (simp add: hpke_pair_def sealer_sample_def opener_sample_def)

definition hpkePkgs_sample :: hpkePkgs where
  "hpkePkgs_sample = \<lparr>hp_NewKEM = (\<lambda>_. None), hp_NewPublicKey = (\<lambda>_. Inr), hp_NewPrivateKey = (\<lambda>_. Inr), hp_NewKDF = (\<lambda>_. None),
     hp_NewAEAD = (\<lambda>_. None), hp_NewSender = (\<lambda>pub kdf aead info. Inr ([5], sealer_sample)),
     hp_NewRecipient = (\<lambda>encap priv kdf aead info. Inr opener_sample)\<rparr>"

definition echKey_sample :: EncryptedClientHelloKey where
  "echKey_sample = \<lparr>ehk_Config = [0xfe, 0x0d, 0, 11, 9, 0, 32, 0, 0, 0, 0, 1, 0, 0, 0], ehk_PrivateKey = [6], ehk_SendAsRetry = False\<rparr>"

lemma sample_config:
  "\<exists>cfg. parseECHConfig cb_ref (ehk_Config echKey_sample) = Inr (False, cfg)"
proof -
  have "ehk_Config echKey_sample = u16b extensionEncryptedClientHello @ u16b 11 @ 9 # u16b 32 @ lp16 [] @ lp16 [] @ 1 # lp8 [] @ lp16 []"
    by (simp add: echKey_sample_def u16b_def lp16_def lp8_def be_2)
  then show ?thesis
    by (simp add: parseECHConfig_def parseECHContents_def)
qed

definition echClient_sample :: echClientContext where
  "echClient_sample = \<lparr>ecx_config = echConfig_zero\<lparr>ecf_ConfigID := 9, ecf_MaxNameLength := 1\<rparr>, ecx_hpkeContext = sealer_sample,
     ecx_encapsulatedKey = [5], ecx_innerHello = None, ecx_innerTranscript = None, ecx_kdfID = 1, ecx_aeadID = 1,
     ecx_echRejected = False, ecx_retryConfigs = None\<rparr>"

lemma sample_key: "ech_key_for cb_ref hpkePkgs_sample echClient_sample echKey_sample opener_sample"
  using sample_config by (auto simp: ech_key_for_def hpkePkgs_sample_def)

lemmas sample_defs = inner_sample_def outer_sample_def clientHelloMsg_zero_def

definition inner_enc :: bytes where
  "inner_enc = clientHelloMsg_body inner_sample (lp16 (extb extensionServerName (lp16 (0 # lp16 [97])) @
     extb extensionEncryptedClientHello [1] @ extb extensionECHOuterExtensions (lp8 (u16b extensionSupportedVersions)))) @ replicate 31 0"

lemma inner_wexts:
  "wexts (innerOpts inner_sample) = Some (extb extensionServerName (lp16 (0 # lp16 [97])) @
     extb extensionEncryptedClientHello [1] @ extb extensionECHOuterExtensions (lp8 (u16b extensionSupportedVersions)))"
  by (simp add: wexts_def innerOpts_def plainOpts_def lastOpts_def clientHelloMsg_optexts_def withExt_def inner_sample_def
      clientHelloMsg_zero_def clientHelloMsg_sendsPSK_def clientHelloMsg_echOuterExts_def wcat.simps wext_def wprefix_def lp8_def lp16_def extb_def)

lemma inner_form_sample: "inner_form inner_sample"
  by (simp add: inner_form_def sample_defs)

lemma inner_marshalMsg: "clientHelloMsg_marshalMsg cb_ref True inner_sample = Inr (typeClientHello # lp24 (take 65 inner_enc))"
proof -
  note X = cbr.inner_exts_wexts [OF inner_form_sample, THEN iffD2, OF inner_wexts]
  show ?thesis unfolding clientHelloMsg_marshalMsg_def X sum.case inner_enc_def clientHelloMsg_body_def
  by (simp add: wire_Some [symmetric] wire_iffs extb_def) (simp add: sample_defs)
qed

lemma inner_encode: "encodeInnerClientHello cb_ref inner_sample 1 = Inr inner_enc"
proof -
  have "drop 4 (typeClientHello # lp24 (take 65 inner_enc)) = take 65 inner_enc" by (simp add: lp24_def)
  then show ?thesis unfolding encodeInnerClientHello_def inner_marshalMsg
   by (simp add: Let_def inner_enc_def clientHelloMsg_body_def extb_def) (simp add: sample_defs)
qed

lemma outer_wexts:
  assumes "length v < 65535" "v \<noteq> []"
  shows "wexts (clientHelloMsg_optexts (outer_sample\<lparr>ch_encryptedClientHello := 0 # v\<rparr>)) =
     Some (extb extensionServerName (lp16 (0 # lp16 [98])) @
     extb extensionEncryptedClientHello (0 # v) @ extb extensionSupportedVersions (lp8 (u16b VersionTLS13)))"
  using assms
  by (simp add: wexts_def clientHelloMsg_optexts_def withExt_def sample_defs clientHelloMsg_sendsPSK_def wcat.simps wext_def wprefix_def lp8_def lp16_def extb_def)

lemma outer_marshal:
  assumes "length v < 65000" "v \<noteq> []"
  shows "clientHelloMsg_marshal cb_ref (outer_sample\<lparr>ch_encryptedClientHello := 0 # v\<rparr>) =
    Inr (typeClientHello # lp24 (clientHelloMsg_body outer_sample (lp16 (extb extensionServerName (lp16 (0 # lp16 [98])) @
     extb extensionEncryptedClientHello (0 # v) @ extb extensionSupportedVersions (lp8 (u16b VersionTLS13))))))"
  unfolding cbr.clientHelloMsg_marshal_iff using assms
  by (simp add: outer_wexts clientHelloMsg_body_def wprefix_def extb_def lp16_def) (simp add: sample_defs)

lemma inner_marshal: "\<exists>bs. clientHelloMsg_marshal cb_ref inner_sample = Inr bs"
proof -
  have "wexts (clientHelloMsg_optexts inner_sample) = Some (extb extensionServerName (lp16 (0 # lp16 [97])) @
     extb extensionEncryptedClientHello [1] @ extb extensionSupportedVersions (lp8 (u16b VersionTLS13)))"
    by (simp add: wexts_def clientHelloMsg_optexts_def withExt_def sample_defs clientHelloMsg_sendsPSK_def wcat.simps wext_def wprefix_def lp8_def lp16_def extb_def)
  then show ?thesis unfolding cbr.clientHelloMsg_marshal_iff
  by (simp add: clientHelloMsg_body_def wprefix_def extb_def) (simp add: sample_defs)
qed

lemma once_marked: "count_list w x = 1 \<Longrightarrow> occurs_once (x # p) w"
  by (auto simp: occurs_once_def count_list_append append_eq_append_conv2 append_eq_Cons_conv Cons_eq_append_conv count_list_0_iff)

definition payload_sample :: bytes where "payload_sample = 171 # inner_enc @ replicate 15 0"

lemma length_inner_enc [simp]: "length inner_enc = 96"
  by (simp add: inner_enc_def clientHelloMsg_body_def extb_def) (simp add: sample_defs)

lemma sample_compute:
  "computeAndUpdateOuterECHExtension cb_ref outer_sample inner_sample echClient_sample True =
     (None, outer_sample\<lparr>ch_encryptedClientHello := 0 # outerExtWire 9 1 1 [5] payload_sample\<rparr>,
      echClient_sample\<lparr>ecx_hpkeContext := sealer_sample\<lparr>hx_seq := 1\<rparr>\<rparr>)"
proof -
  have g: "length p < 65536 \<Longrightarrow> generateOuterECHExt cb_ref 9 1 1 [5] p = Inr (0 # outerExtWire 9 1 1 [5] p)" for p
    by (simp add: cbr.generateOuterECHExt_wire)
  have c: "ecf_ConfigID (ecx_config echClient_sample) = 9" "ecf_MaxNameLength (ecx_config echClient_sample) = 1"
    "ecx_kdfID echClient_sample = 1" "ecx_aeadID echClient_sample = 1" "ecx_encapsulatedKey echClient_sample = [5]"
    "ecx_hpkeContext echClient_sample = sealer_sample" by (simp_all add: echClient_sample_def)
  have r: "hx_run sealer_sample aad inner_enc = (Inr payload_sample, sealer_sample\<lparr>hx_seq := 1\<rparr>)" for aad
    by (simp add: hx_run_def sealer_sample_def payload_sample_def)
  have "length payload_sample = 112" by (simp add: payload_sample_def)
  then show ?thesis
    unfolding computeAndUpdateOuterECHExtension_def c
    by (simp add: inner_encode [simplified] g outer_marshal r [simplified] Let_def)
qed

lemma unmarked_be:
  assumes "n < 256" and "n \<noteq> 171"
  shows "count_list (be 2 n) 171 = 0" "count_list (be 3 n) 171 = 0"
proof -
  have "(word_of_nat n :: u8) \<noteq> word_of_nat 171"
    using assms by (simp add: word_unat_eq_iff unat_of_nat del: of_nat_numeral)
  moreover have "drop_bit 8 n = 0" "drop_bit 16 n = 0" using assms(1) by (simp_all add: drop_bit_eq_div)
  ultimately show "count_list (be 2 n) 171 = 0" "count_list (be 3 n) 171 = 0" by (simp_all add: be_2 be_3)
qed

lemma sample_once:
  "occurs_once payload_sample (typeClientHello # lp24 (clientHelloMsg_body outer_sample (lp16 (extb extensionServerName
     (lp16 (0 # lp16 [98])) @ extb extensionEncryptedClientHello (0 # outerExtWire 9 1 1 [5] payload_sample) @
     extb extensionSupportedVersions (lp8 (u16b VersionTLS13))))))"
proof -
  have v: "count_list (u16b VersionTLS12) 171 = 0" "count_list (u16b 0x1301) 171 = 0" "count_list (u16b VersionTLS13) 171 = 0"
    "count_list (u16b extensionEncryptedClientHello) 171 = 0" "count_list (u16b extensionServerName) 171 = 0"
    "count_list (u16b extensionECHOuterExtensions) 171 = 0" "count_list (u16b extensionSupportedVersions) 171 = 0" "count_list (u16b 1) 171 = 0"
    by (simp_all add: u16b_def be_2)
  have e: "count_list inner_enc 171 = 0"
    by (simp add: inner_enc_def clientHelloMsg_body_def extb_def lp16_def lp8_def count_list_append unmarked_be)
      (simp add: sample_defs count_list_append unmarked_be v)
  show ?thesis unfolding payload_sample_def
  apply (rule once_marked)
  apply (simp add: clientHelloMsg_body_def lp24_def extb_def lp16_def lp8_def count_list_append outerExtWire_def e unmarked_be)
  apply (simp add: sample_defs unmarked_be count_list_append e v)
  done
qed

section \<open>Properties\<close>

text \<open>
  (C31) Encrypted Client Hello delivers the inner hello. A client makes the outer hello with
  \<open>computeAndUpdateOuterECHExtension\<close> from an inner one in the form of TLS 1.3 that shares its compressible fields with
  the outer one; the outer hello is marshalled, and unmarshalled by a server whose first key is the one of the
  configuration. When the sealed payload occurs only once in the outer hello (the server blanks its first occurrence),
  \<open>processECHClientHello\<close> accepts and returns the client's inner hello, field by field, whose bytes are those of the
  inner transcript, with the counters of the two HPKE contexts in step.
\<close>

theorem ech_inner_hello_delivered:
  assumes "cryptobyte_pkg C"
    and "computeAndUpdateOuterECHExtension C outer inner ech True = (None, outer', ech')"
    and "clientHelloMsg_marshal C outer' = Inr w" and "clientHelloMsg_wf outer'"
    and "clientHelloMsg_marshal C inner = Inr bs" and "clientHelloMsg_wf inner" and "inner_form inner"
    and "shares_fields outer inner" and "checkInnerVersions (ch_supportedVersions inner) False = None"
    and "ech_key_for C Y ech key rx" and "hpke_pair (ecx_hpkeContext ech) rx"
    and "parseECHExt C (ch_encryptedClientHello outer') = Inr (t, cs, i, encap, payload)" and "occurs_once payload w"
  shows "\<exists>hello rx'. clientHelloMsg_unmarshal C w = Some hello \<and>
    processECHClientHello C Y c hello (key # keys) =
      Some (Inr (inner\<lparr>ch_original := Some bs, ch_extensions := clientHelloMsg_sentExts inner\<rparr>,
        Some (echServerContext_zero\<lparr>esc_hpkeContext := Some rx', esc_configID := i, esc_ciphersuite := cs\<rparr>)),
        c\<lparr>c_echAccepted := True\<rparr>) \<and>
    hpke_pair (ecx_hpkeContext ech') rx'"
  using assms(2-) by (rule cryptobyte_pkg.ech_delivered [OF assms(1)])

theorem ech_inner_hello_delivered_witness:
  "\<exists>w bs hello rx'. clientHelloMsg_marshal cb_ref inner_sample = Inr bs \<and> clientHelloMsg_unmarshal cb_ref w = Some hello \<and>
    processECHClientHello cb_ref hpkePkgs_sample (conn_sample) hello [echKey_sample] =
      Some (Inr (inner_sample\<lparr>ch_original := Some bs, ch_extensions := clientHelloMsg_sentExts inner_sample\<rparr>,
        Some (echServerContext_zero\<lparr>esc_hpkeContext := Some rx', esc_configID := 9,
          esc_ciphersuite := \<lparr>ecc_KDFID = 1, ecc_AEADID = 1\<rparr>\<rparr>)), (conn_sample)\<lparr>c_echAccepted := True\<rparr>)"
proof -
  let ?o = "outer_sample\<lparr>ch_encryptedClientHello := 0 # outerExtWire 9 1 1 [5] payload_sample\<rparr>"
  obtain bs where bs: "clientHelloMsg_marshal cb_ref inner_sample = Inr bs" using inner_marshal by blast
  have len: "length payload_sample = 112" by (simp add: payload_sample_def)
  then have w: "clientHelloMsg_marshal cb_ref ?o = Inr (typeClientHello # lp24 (clientHelloMsg_body outer_sample (lp16 (extb extensionServerName
     (lp16 (0 # lp16 [98])) @ extb extensionEncryptedClientHello (0 # outerExtWire 9 1 1 [5] payload_sample) @
     extb extensionSupportedVersions (lp8 (u16b VersionTLS13))))))" by (intro outer_marshal) simp_all
  have wf: "clientHelloMsg_wf ?o" "clientHelloMsg_wf inner_sample" "shares_fields outer_sample inner_sample"
    "checkInnerVersions (ch_supportedVersions inner_sample) False = None"
    "hpke_pair (ecx_hpkeContext echClient_sample) opener_sample"
    using sample_pair
    by (simp_all add: clientHelloMsg_wf_def sample_defs shares_fields_def isGREASE_def echClient_sample_def)
  have p: "parseECHExt cb_ref (ch_encryptedClientHello ?o) = Inr (outerECHExt, \<lparr>ecc_KDFID = 1, ecc_AEADID = 1\<rparr>, 9, [5], payload_sample)"
    using len by (simp add: cbr.parseECHExt_back)
  show ?thesis
    using ech_inner_hello_delivered [OF cbr.cryptobyte_pkg_axioms sample_compute w wf(1) bs wf(2) inner_form_sample wf(3,4)
      sample_key wf(5) p sample_once] bs by blast
qed


section \<open>Lists of configurations\<close>

lemma uint16_at:
  assumes "4 \<le> length s"
  shows "s = take 2 s @ u16b (uint16 (s ! 2) (s ! 3)) @ drop 4 s"
proof -
  obtain a b c d r where s: "s = a # b # c # d # r"
    using assms by (cases s; cases "tl s"; cases "tl (tl s)"; cases "tl (tl (tl s))") auto
  have "u16b (uint16 c d) = [c, d]" unfolding u16b_def uint16_unbe by (rule be_unbe_len) simp
  then show ?thesis by (simp add: s)
qed

lemma unat_add4: "unat l < 65532 \<Longrightarrow> unat (l + 4 :: u16) = unat l + 4"
  by (simp add: unat_word_ariths)

context cryptobyte_pkg
begin

lemma parseECHConfig_length:
  assumes "parseECHConfig C s = Inr r" and "4 \<le> length s"
  shows "unat (uint16 (s ! 2) (s ! 3)) + 4 \<le> length s"
proof -
  let ?l = "uint16 (s ! 2) (s ! 3)"
  obtain v where v: "take 2 s = u16b v"
  proof
    have "length (take 2 s) = 2" using assms(2) by simp
    then show "take 2 s = u16b (word_of_nat (unbe (take 2 s)))"
      using unbe_less [of "take 2 s"] be_unbe_len [of "take 2 s" 2] by (simp add: u16b_def unat_of_nat)
  qed
  have s: "s = u16b v @ u16b ?l @ drop 4 s" using uint16_at [OF assms(2)] v by simp
  then have "ReadUint16 C s = Some (v, u16b ?l @ drop 4 s)" by (metis read_back(2))
  with assms(1) show ?thesis
    by (simp add: parseECHConfig_def Let_def split: if_split_asm)
qed

lemma parseECHConfigs_total:
  "length s < 65536 \<Longrightarrow> \<exists>r. parseECHConfigs C s configs = Some r"
proof (induction "length s" arbitrary: s configs rule: less_induct)
  case less
  show ?case
  proof (cases "length s < 4")
    case True
    then show ?thesis by (subst parseECHConfigs.simps) auto
  next
    case long: False
    let ?l = "uint16 (s ! 2) (s ! 3)"
    show ?thesis
    proof (cases "parseECHConfig C s")
      case (Inl e)
      with long show ?thesis by (subst parseECHConfigs.simps) (simp add: Let_def)
    next
      case (Inr r)
      obtain skip ec where r: "r = (skip, ec)" by (cases r)
      from parseECHConfig_length [OF Inr] long have le: "unat ?l + 4 \<le> length s" by simp
      with less.prems have "unat (?l + 4) = unat ?l + 4" by (intro unat_add4) simp
      with le less.prems have "\<exists>r. parseECHConfigs C (drop (unat (?l + 4)) s) (if \<not> skip then configs @ [ec] else configs) = Some r"
        by (intro less.hyps) auto
      with Inr r long show ?thesis by (subst parseECHConfigs.simps) (simp add: Let_def)
    qed
  qed
qed

end



text \<open>
  Behind 65537 bytes it need not return: the length of the list wraps around in \<open>uint16(len(data)-2)\<close> and the length of a
  configuration in \<open>s[configLen+4:]\<close>, which then does not move.
\<close>

definition endless_config :: bytes where
  "endless_config = [0, 0, 255, 252] @ replicate 65532 0"

lemma endless_facts:
  "length endless_config = 65536" "uint16 (endless_config ! 2) (endless_config ! 3) = 65532"
  "parseECHConfig cb_ref endless_config = Inr (True, echConfig_zero)"
proof -
  show l: "length endless_config = 65536" by (simp add: endless_config_def)
  have "unat (uint16 255 252) = unat (65532 :: u16)" by (simp add: uint16_unbe unbe_2)
  then show u: "uint16 (endless_config ! 2) (endless_config ! 3) = 65532"
    by (simp add: endless_config_def word_unat_eq_iff)
  let ?z = "replicate 65532 0 :: bytes"
  have "[0, 0, 255, 252] = u16b 0 @ u16b 65532" by (simp add: u16b_def be_2)
  then have "endless_config = u16b 0 @ u16b 65532 @ ?z" unfolding endless_config_def by (metis append_assoc)
  moreover have "ReadUint16 cb_ref (u16b 0 @ u16b 65532 @ ?z) = Some (0, u16b 65532 @ ?z)"
    "ReadUint16 cb_ref (u16b 65532 @ ?z) = Some (65532, ?z)" by (rule cbr.read_back(2))+
  ultimately have "ReadUint16 cb_ref endless_config = Some (0, u16b 65532 @ ?z)"
    "ReadUint16 cb_ref (u16b 65532 @ ?z) = Some (65532, ?z)" by simp_all
  then show "parseECHConfig cb_ref endless_config = Inr (True, echConfig_zero)"
    by (simp add: parseECHConfig_def l)
qed

lemma endless_configs:
  fixes C :: "bytes res cryptobyte"
  assumes "parseECHConfigs C s configs = Some r"
  shows "\<not> (C = cb_ref \<and> s = endless_config)"
proof (rule parseECHConfigs.raw_induct [where P = "\<lambda>C s configs r. \<not> (C = cb_ref \<and> s = endless_config)", OF _ assms])
  fix f and C :: "bytes res cryptobyte" and s configs r
  assume IH: "\<And>C s configs r. f C s configs = Some r \<Longrightarrow> \<not> (C = cb_ref \<and> s = endless_config)"
    and step: "(if length s > 0
      then if length s < 4 then Some (Inl (ErrorsNew ''tls: malformed ECHConfig''))
           else let configLen = uint16 (s ! 2) (s ! 3)
           in case parseECHConfig C s of
                Inl e \<Rightarrow> Some (Inl e)
              | Inr (skip, ec) \<Rightarrow> f C (drop (unat (configLen + 4)) s) (if \<not> skip then configs @ [ec] else configs)
      else Some (Inr configs)) = Some r"
  show "\<not> (C = cb_ref \<and> s = endless_config)"
  proof
    assume c: "C = cb_ref \<and> s = endless_config"
    with step have "f cb_ref endless_config configs = Some r" by (simp add: endless_facts)
    with IH show False by blast
  qed
qed

lemma config_list_parsed_forever:
  "parseECHConfigList cb_ref ([0, 0] @ endless_config) = None"
proof -
  have "parseECHConfigs cb_ref endless_config [] \<noteq> Some r" for r using endless_configs by blast
  then have "parseECHConfigs cb_ref endless_config [] = None" by fastforce
  moreover have "ReadUint16 cb_ref ([0, 0] @ endless_config) = Some (0, endless_config)"
    using cbr.read_back(2) [of 0 endless_config] by (simp add: u16b_def be_2)
  ultimately show ?thesis using endless_facts(1) by (simp add: parseECHConfigList_def)
qed

section \<open>Padding and unknown cipher suites\<close>

context cryptobyte_pkg
begin

lemma wexts_name_length:
  assumes "wexts (innerOpts m) = Some X" and "ch_serverName m \<noteq> []" and "wexts (innerOpts (m\<lparr>ch_serverName := n\<rparr>)) = Some Y" and "n \<noteq> []"
  shows "length X + length n = length Y + length (ch_serverName m)"
  using assms
  by (auto simp: innerOpts_def plainOpts_def lastOpts_def clientHelloMsg_optexts_def withExt_def wexts_Cons_Some wext_Some wire_iffs
      clientHelloMsg_sendsPSK_def clientHelloMsg_echOuterExts_def extb_def)

text \<open>
  The padding for a short server name is overwritten by the padding to a multiple of 32 that is computed from it: the encoded
  hello of a name that is one byte longer is one byte longer, so its length shows the length of the name.
\<close>

lemma padding_shows_name_length:
  assumes "encodeInnerClientHello C m maxNameLength = Inr enc" and "encodeInnerClientHello C (m\<lparr>ch_serverName := n\<rparr>) maxNameLength = Inr enc'"
    and "inner_form m" and "ch_serverName m \<noteq> []" and "n \<noteq> []"
    and "length (ch_serverName m) \<le> maxNameLength" and "length n \<le> maxNameLength"
  shows "length enc' + length (ch_serverName m) = length enc + length n"
proof -
  let ?m = "m\<lparr>ch_serverName := n\<rparr>"
  have form: "inner_form ?m" using assms(3) by (simp add: inner_form_def)
  from assms(1,2) obtain h h' where h: "clientHelloMsg_marshalMsg C True m = Inr h" and h': "clientHelloMsg_marshalMsg C True ?m = Inr h'"
    by (auto simp: encodeInnerClientHello_def split: sum.splits)
  from marshal_inner [OF h assms(3)] obtain X where X: "wexts (innerOpts m) = Some X"
    and hX: "h = typeClientHello # lp24 (clientHelloMsg_body (m\<lparr>ch_sessionId := []\<rparr>) (lp16 X))" by blast
  from marshal_inner [OF h' form] obtain Y where Y: "wexts (innerOpts ?m) = Some Y"
    and hY: "h' = typeClientHello # lp24 (clientHelloMsg_body (?m\<lparr>ch_sessionId := []\<rparr>) (lp16 Y))" by blast
  from wexts_name_length [OF X assms(4) Y assms(5)]
  have len: "length (drop 4 h) + length n = length (drop 4 h') + length (ch_serverName m)"
    by (simp add: hX hY clientHelloMsg_body_def)
  then have "length (drop 4 h) + (maxNameLength - length (ch_serverName m)) = length (drop 4 h') + (maxNameLength - length n)"
    using assms(6,7) by linarith
  with assms(1,2,4,5) h h' len show ?thesis by (auto simp: encodeInnerClientHello_def Let_def)
qed

text \<open>A suite in the client's extension that the server's package does not know ends the handshake with internal\_error.\<close>

lemma unknown_suite_aborts:
  assumes "parseECHExt C (ch_encryptedClientHello outer) = Inr (outerECHExt, cs, i, encap, payload)"
    and "parseECHConfig C (ehk_Config key) = Inr (False, cfg)" and "hp_NewKEM Y (ecf_KemID cfg) = None"
    and "hp_NewPrivateKey Y (ecf_KemID cfg) (ehk_PrivateKey key) = Inr priv" and "hp_NewKDF Y (ecc_KDFID cs) = Some e"
  shows "processECHClientHello C Y c outer (key # keys) =
    connFail c alertInternalError (TextError ''tls: invalid EncryptedClientHelloKey Config KDF: '' e)"
  using assms by (simp add: processECHClientHello_def echKeyUsable_def)

end

end
