(* ===== verification/Handshake.thy ===== *)
theory Handshake
  imports CertSelect Frame Alert Lifecycle EchHello
begin

text \<open>
  What the four handshakes share. Handshake code is a function on a handshake state that fails with a Go error or
  returns a value, and leaves the state changed either way; \<open>None\<close> is a panic or a read that never returns. The combinators
  carry \<open>if err != nil { return err }\<close>. The state of every handshake extends \<open>hsBase\<close>: the connection, the certificates and
  callbacks of its configuration, the exporter and the lines written to the key log. \<open>hsEnv\<close> holds the packages, the time
  (taken once for a handshake), \<open>GetConfigForClient\<close>, whether \<open>net.ParseIP\<close> finds an address, the system's randomness, and what a
  QUIC application does to the session of a \<open>QUICResumeSession\<close> event.
\<close>

named_theorems hs_simps \<open>successful runs of handshake code\<close>

section \<open>Sequencing\<close>

type_synonym ('s, 'a) hs = "'s \<Rightarrow> ('a res \<times> 's) option"

definition hsRet :: "'a \<Rightarrow> ('s, 'a) hs" where
  "hsRet a = (\<lambda>s. Some (Inr a, s))"

definition hsFail :: "goerror \<Rightarrow> ('s, 'a) hs" where
  "hsFail e = (\<lambda>s. Some (Inl e, s))"

definition hsPanic :: "('s, 'a) hs" where
  "hsPanic = (\<lambda>s. None)"

definition hsBind :: "('s, 'a) hs \<Rightarrow> ('a \<Rightarrow> ('s, 'b) hs) \<Rightarrow> ('s, 'b) hs" where
  "hsBind m f = (\<lambda>s. case m s of
     None \<Rightarrow> None
   | Some (Inl e, s) \<Rightarrow> Some (Inl e, s)
   | Some (Inr a, s) \<Rightarrow> f a s)"

definition hsGet :: "('s \<Rightarrow> 'a) \<Rightarrow> ('s, 'a) hs" where
  "hsGet f = (\<lambda>s. Some (Inr (f s), s))"

definition hsModify :: "('s \<Rightarrow> 's) \<Rightarrow> ('s, unit) hs" where
  "hsModify f = (\<lambda>s. Some (Inr (), f s))"

text \<open>A nil pointer that is dereferenced, and a call that returns an error.\<close>

definition hsOpt :: "'a option \<Rightarrow> ('s, 'a) hs" where
  "hsOpt r = (case r of None \<Rightarrow> hsPanic | Some a \<Rightarrow> hsRet a)"

definition hsRes :: "'a res \<Rightarrow> ('s, 'a) hs" where
  "hsRes r = (case r of Inl e \<Rightarrow> hsFail e | Inr a \<Rightarrow> hsRet a)"

definition hsErr :: "goerror option \<Rightarrow> ('s, unit) hs" where
  "hsErr r = (case r of Some e \<Rightarrow> hsFail e | None \<Rightarrow> hsRet ())"

definition hsWhen :: "bool \<Rightarrow> ('s, unit) hs \<Rightarrow> ('s, unit) hs" where
  "hsWhen b m = (if b then m else hsRet ())"

text \<open>A call whose error is wrapped before it is returned.\<close>

definition hsMapErr :: "(goerror \<Rightarrow> goerror) \<Rightarrow> ('s, 'a) hs \<Rightarrow> ('s, 'a) hs" where
  "hsMapErr g m = (\<lambda>s. case m s of Some (Inl e, s) \<Rightarrow> Some (Inl (g e), s) | r \<Rightarrow> r)"

fun hsSeq :: "('s, unit) hs list \<Rightarrow> ('s, unit) hs" where
  "hsSeq [] = hsRet ()"
| "hsSeq (m # ms) = hsBind m (\<lambda>_. hsSeq ms)"

lemma hs_success [hs_simps]:
  "hsRet a s = Some (Inr b, s') \<longleftrightarrow> b = a \<and> s' = s"
  "\<not> hsFail e s = Some (Inr b, s')"
  "\<not> hsPanic s = Some (Inr b, s')"
  "hsBind m f s = Some (Inr b, s') \<longleftrightarrow> (\<exists>a s1. m s = Some (Inr a, s1) \<and> f a s1 = Some (Inr b, s'))"
  "hsGet g s = Some (Inr b, s') \<longleftrightarrow> b = g s \<and> s' = s"
  "hsModify h s = Some (Inr u, s') \<longleftrightarrow> s' = h s"
  "hsOpt r s = Some (Inr b, s') \<longleftrightarrow> r = Some b \<and> s' = s"
  "hsRes q s = Some (Inr b, s') \<longleftrightarrow> q = Inr b \<and> s' = s"
  "hsErr o' s = Some (Inr u, s') \<longleftrightarrow> o' = None \<and> s' = s"
  by (auto simp: hsRet_def hsFail_def hsPanic_def hsBind_def hsGet_def hsModify_def hsOpt_def hsRes_def hsErr_def
      split: option.splits sum.splits)

lemma hsMapErr_success [hs_simps]: "hsMapErr g m s = Some (Inr b, s') \<longleftrightarrow> m s = Some (Inr b, s')"
  by (auto simp: hsMapErr_def split: option.splits sum.splits)

lemma hsBind_assoc: "hsBind (hsBind m f) g = hsBind m (\<lambda>a. hsBind (f a) g)"
  by (rule ext) (auto simp: hsBind_def split: option.split sum.split)

lemma hsBind_ret: "hsBind (hsRet a) f = f a"
  by (rule ext) (simp add: hsBind_def hsRet_def)

lemma hsBind_unit: "hsBind m (\<lambda>_. hsRet ()) = m"
  by (rule ext) (auto simp: hsBind_def hsRet_def split: option.split sum.split)

lemma hsBind_get: "hsBind (hsGet g) f s = f (g s) s"
  by (simp add: hsBind_def hsGet_def)

lemma hsBind_fails: "m s = Some (Inl e, s') \<Longrightarrow> hsBind m f s = Some (Inl e, s')"
  by (simp add: hsBind_def)

lemma hsWhen_success: "hsWhen c n s = Some (Inr u, s') \<longleftrightarrow> (if c then n s = Some (Inr u, s') else s' = s)"
  by (simp add: hsWhen_def hsRet_def) blast

section \<open>Errors of the transport\<close>

text \<open>An alert other than a close notification returns an error, so a read that fails has one.\<close>

lemma alert_has_error: "sendAlert c a = Some (None, c') \<Longrightarrow> a = alertCloseNotify"
  by (auto simp: sendAlert_def sendAlertLocked_def out_setError_def hc_setErrorLocked_def Let_def
      split: if_splits option.split_asm prod.split_asm)

lemma latched_has_error: "in_setError c (Some e) = (r, c') \<Longrightarrow> r \<noteq> None"
  by (auto simp: in_setError_def hc_setErrorLocked_def Let_def split: if_splits)

lemma latchAlert_error: "latchAlert c a = Some (r, c') \<Longrightarrow> a \<noteq> alertCloseNotify \<Longrightarrow> r \<noteq> None"
proof -
  assume l: "latchAlert c a = Some (r, c')" and a: "a \<noteq> alertCloseNotify"
  then obtain e c1 where "sendAlert c a = Some (e, c1)" and r: "in_setError c1 e = (r, c')" by (auto simp: latchAlert_def)
  with a alert_has_error obtain x where "e = Some x" by (cases e) blast+
  with r latched_has_error show "r \<noteq> None" by blast
qed

lemma readHandshake_error: "readHandshake C c t \<noteq> Some (Inl None, c', t')"
proof
  assume "readHandshake C c t = Some (Inl None, c', t')"
  then show False
    unfolding readHandshake_def unmarshalHandshakeMessage_def Let_def
    by (auto split: option.split_asm prod.split_asm if_split_asm parsed.split_asm dest: latched_has_error latchAlert_error)
qed

section \<open>State and environment\<close>

record hsEnv =
  he_prf :: prfHashes
  he_ka :: kaPkgs
  he_x509 :: x509Pkgs
  he_suites :: suiteParams
  he_ticket :: ticketPkgs
  he_hpke :: hpkePkgs
  he_mlkem768 :: mlkemScheme
  he_mlkem1024 :: mlkemScheme
  he_rc4 :: "bytes \<Rightarrow> cipherStream"
  he_tripleDES :: "bytes \<Rightarrow> bytes \<Rightarrow> bool \<Rightarrow> cbcMode"
  he_aes :: "bytes \<Rightarrow> bytes \<Rightarrow> bool \<Rightarrow> cbcMode"
  he_hmacSHA1 :: "bytes \<Rightarrow> macHash"
  he_hmacSHA256 :: "bytes \<Rightarrow> macHash"
  he_newGCM :: "bytes \<Rightarrow> cipherAEAD option"
  he_newPoly :: "bytes \<Rightarrow> cipherAEAD option"
  he_now :: int
  he_GetConfigForClient :: "(ClientHelloInfo \<Rightarrow> (Config \<times> configExt) option res) option"
  he_ParseIP :: "bytes \<Rightarrow> bool"
  he_entropy :: bytes
  he_onResume :: "SessionState \<Rightarrow> SessionState"

record hsBase =
  hb_c :: Conn
  hb_x :: configExt
  hb_ekm :: "ekmFunc option"
  hb_keyLog :: "bytes list"

abbreviation hb_config :: "('z) hsBase_scheme \<Rightarrow> Config" where "hb_config s \<equiv> c_config (hb_c s)"

definition modConn :: "(Conn \<Rightarrow> Conn) \<Rightarrow> ('z hsBase_scheme, unit) hs" where
  "modConn f = hsModify (hb_c_update f)"

text \<open>An operation of the connection that returns an error, and one whose error is ignored.\<close>

definition onConn :: "(Conn \<Rightarrow> (goerror option \<times> Conn) option) \<Rightarrow> ('z hsBase_scheme, unit) hs" where
  "onConn f = (\<lambda>s. case f (hb_c s) of
     None \<Rightarrow> None
   | Some (None, c) \<Rightarrow> Some (Inr (), s\<lparr>hb_c := c\<rparr>)
   | Some (Some e, c) \<Rightarrow> Some (Inl e, s\<lparr>hb_c := c\<rparr>))"

definition alertHs :: "u8 \<Rightarrow> ('z hsBase_scheme, unit) hs" where
  "alertHs a = (\<lambda>s. case sendAlert (hb_c s) a of None \<Rightarrow> None | Some (_, c) \<Rightarrow> Some (Inr (), s\<lparr>hb_c := c\<rparr>))"

text \<open>\<open>c.sendAlert(a); return err\<close>, and the same for the error of a call.\<close>

definition abort :: "u8 \<Rightarrow> goerror \<Rightarrow> ('z hsBase_scheme, 'a) hs" where
  "abort a e = hsBind (alertHs a) (\<lambda>_. hsFail e)"

definition resAlert :: "u8 \<Rightarrow> 'a res \<Rightarrow> ('z hsBase_scheme, 'a) hs" where
  "resAlert a r = (case r of Inl e \<Rightarrow> abort a e | Inr x \<Rightarrow> hsRet x)"

definition errAlert :: "u8 \<Rightarrow> goerror option \<Rightarrow> ('z hsBase_scheme, unit) hs" where
  "errAlert a r = (case r of Some e \<Rightarrow> abort a e | None \<Rightarrow> hsRet ())"

definition failIf :: "bool \<Rightarrow> u8 \<Rightarrow> string \<Rightarrow> ('z hsBase_scheme, unit) hs" where
  "failIf b a text = hsWhen b (abort a (ErrorsNew text))"

text \<open>\<open>return c.sendAlert(a)\<close>, which never returns nil for these alerts.\<close>

definition returnAlert :: "u8 \<Rightarrow> ('z hsBase_scheme, 'a) hs" where
  "returnAlert a = (\<lambda>s. case sendAlert (hb_c s) a of
     Some (Some e, c) \<Rightarrow> Some (Inl e, s\<lparr>hb_c := c\<rparr>)
   | _ \<Rightarrow> None)"

text \<open>\<open>io.ReadFull(c.config.rand(), buf)\<close>.\<close>

definition hsRand :: "nat \<Rightarrow> ('z hsBase_scheme, bytes) hs" where
  "hsRand n = (\<lambda>s. case readFull n (c_rand (hb_c s)) of
     Inl e \<Rightarrow> Some (Inl e, s\<lparr>hb_c := set_rand [] (hb_c s)\<rparr>)
   | Inr (w, rand) \<Rightarrow> Some (Inr w, s\<lparr>hb_c := set_rand rand (hb_c s)\<rparr>))"

text \<open>A call whose error is answered with an alert.\<close>

definition orAlert :: "u8 \<Rightarrow> ('z hsBase_scheme, 'a) hs \<Rightarrow> ('z hsBase_scheme, 'a) hs" where
  "orAlert a m = (\<lambda>s. case m s of
     Some (Inl e, s) \<Rightarrow> abort a e s
   | r \<Rightarrow> r)"

text \<open>
  The next message with its bytes, which the caller writes to its transcript when the code passes one to \<open>readHandshake\<close>. A
  read that fails has an error (\<open>readHandshake_error\<close>).
\<close>

definition readMsg :: "('b, 'x) cryptobyte_scheme \<Rightarrow> ('z hsBase_scheme, handshakeMessage \<times> bytes) hs" where
  "readMsg C = (\<lambda>s. case readHandshake C (hb_c s) (Some []) of
     None \<Rightarrow> None
   | Some (Inr m, c, t) \<Rightarrow> Some (Inr (m, case t of Some w \<Rightarrow> w | None \<Rightarrow> []), s\<lparr>hb_c := c\<rparr>)
   | Some (Inl (Some e), c, t) \<Rightarrow> Some (Inl e, s\<lparr>hb_c := c\<rparr>)
   | Some (Inl None, c, t) \<Rightarrow> None)"

text \<open>A message written as a record; the result is what goes to a transcript.\<close>

definition writeMsg :: "('b, 'x) cryptobyte_scheme \<Rightarrow> handshakeMessage \<Rightarrow> ('z hsBase_scheme, bytes) hs" where
  "writeMsg C m = (\<lambda>s. case writeHandshakeRecord C (hb_c s) m (Some []) of
     None \<Rightarrow> None
   | Some ((_, None), c, t) \<Rightarrow> Some (Inr (case t of Some w \<Rightarrow> w | None \<Rightarrow> []), s\<lparr>hb_c := c\<rparr>)
   | Some ((_, Some e), c, t) \<Rightarrow> Some (Inl e, s\<lparr>hb_c := c\<rparr>))"

definition unexpected :: "string \<Rightarrow> handshakeMessage \<Rightarrow> ('z hsBase_scheme, 'a) hs" where
  "unexpected wanted m = abort alertUnexpectedMessage (unexpectedMessageError wanted m)"

definition flushHs :: "('z hsBase_scheme, unit) hs" where
  "flushHs = onConn (\<lambda>c. Some (case conn_flush c of ((_, e), c) \<Rightarrow> (e, c)))"

text \<open>\<open>%x\<close> of a string, and a line of the key log.\<close>

definition hexLower :: "bytes \<Rightarrow> bytes" where
  "hexLower w = concat (map (\<lambda>b. map (\<lambda>n. (if n < 10 then 48 + word_of_nat n else 87 + word_of_nat n)) [unat b div 16, unat b mod 16]) w)"

definition writeKeyLog :: "string \<Rightarrow> bytes \<Rightarrow> bytes \<Rightarrow> ('z hsBase_scheme, unit) hs" where
  "writeKeyLog label clientRandom secret = (\<lambda>s. case cx_KeyLogWriter (hb_x s) of
     None \<Rightarrow> Some (Inr (), s)
   | Some writer \<Rightarrow>
       (let logLine = ascii label @ [32] @ hexLower clientRandom @ [32] @ hexLower secret @ [10];
            s = s\<lparr>hb_keyLog := hb_keyLog s @ [logLine]\<rparr>
        in hsErr (writer logLine) s))"

definition connState :: "'z hsBase_scheme \<Rightarrow> ConnectionState" where
  "connState s = connectionStateLocked (hb_c s) (hb_ekm s)"

text \<open>\<open>if c.config.VerifyConnection != nil { ... }\<close>.\<close>

definition verifyConnection :: "('z hsBase_scheme, unit) hs" where
  "verifyConnection = (\<lambda>s. case cx_VerifyConnection (hb_x s) of
     None \<Rightarrow> Some (Inr (), s)
   | Some f \<Rightarrow> errAlert alertBadCertificate (f (connState s)) s)"

definition liftConn :: "(Conn \<Rightarrow> ('a res \<times> Conn) option) \<Rightarrow> ('z hsBase_scheme, 'a) hs" where
  "liftConn f = (\<lambda>s. case f (hb_c s) of None \<Rightarrow> None | Some (r, c) \<Rightarrow> Some (r, s\<lparr>hb_c := c\<rparr>))"

lemma failing_runs [hs_simps]:
  "\<not> abort a e s = Some (Inr b, s')"
  "\<not> unexpected w m s = Some (Inr b, s')"
  "\<not> returnAlert a s = Some (Inr b, s')"
  "resAlert a q s = Some (Inr b, s') \<longleftrightarrow> q = Inr b \<and> s' = s"
  "errAlert a x s = Some (Inr u, s') \<longleftrightarrow> x = None \<and> s' = s"
  "hsWhen c (abort a e) s = Some (Inr u, s') \<longleftrightarrow> \<not> c \<and> s' = s"
  "failIf c a t s = Some (Inr u, s') \<longleftrightarrow> \<not> c \<and> s' = s"
  "modConn g s = Some (Inr u, s') \<longleftrightarrow> s' = hb_c_update g s"
  by (auto simp: abort_def unexpected_def resAlert_def errAlert_def failIf_def modConn_def returnAlert_def hs_success hsWhen_def
      split: sum.splits option.splits prod.splits)

section \<open>Certificates of a peer\<close>

abbreviation defaultMaxRSAKeySize :: nat where "defaultMaxRSAKeySize \<equiv> 8192"

definition checkKeySize :: "nat \<Rightarrow> nat \<times> bool" where
  "checkKeySize n = (defaultMaxRSAKeySize, n \<le> defaultMaxRSAKeySize)"

text \<open>The loop that parses the certificates of a peer and bounds their RSA keys; \<open>peer\<close> is what the error text calls it.\<close>

fun parsePeerCerts :: "certParser \<Rightarrow> string \<Rightarrow> string \<Rightarrow> bytes list \<Rightarrow> x509Certificate list \<Rightarrow> ('z hsBase_scheme, x509Certificate list) hs" where
  "parsePeerCerts parse what peer [] certs = hsRet certs"
| "parsePeerCerts parse what peer (asn1Data # rest) certs =
     (case parse asn1Data of
        Inl err \<Rightarrow> abort alertDecodeError (TextError (''tls: failed to parse '' @ what @ '': '') err)
      | Inr cert \<Rightarrow>
          (case crt_PublicKey cert of
             RSAPublicKey N _ \<Rightarrow>
               (let (max, ok) = checkKeySize (bitLen N)
                in if \<not> ok then abort alertBadCertificate
                     (Errorf (''tls: '' @ peer @ '' sent certificate containing RSA key larger than %d bits'') [max])
                   else parsePeerCerts parse what peer rest (certs @ [cert]))
           | _ \<Rightarrow> parsePeerCerts parse what peer rest (certs @ [cert])))"

text \<open>The alert for an error of \<open>Verify\<close>, and the error the handshake returns.\<close>

definition verifyAlert :: "goerror \<Rightarrow> u8" where
  "verifyAlert err = (if err = UnknownAuthorityError then alertUnknownCA
     else if err = CertificateExpired then alertCertificateExpired else alertBadCertificate)"

definition certificateError :: "x509Certificate list \<Rightarrow> goerror \<Rightarrow> goerror" where
  "certificateError certs err = CertificateVerificationError (map crt_Raw certs) err"

definition supportedKey :: "x509Certificate \<Rightarrow> bool" where
  "supportedKey cert = (case crt_PublicKey cert of OtherPublicKey _ \<Rightarrow> False | _ \<Rightarrow> True)"

text \<open>\<open>if c.config.VerifyPeerCertificate != nil { ... }\<close>.\<close>

definition verifyPeerCertificate :: "bytes list \<Rightarrow> ('z hsBase_scheme, unit) hs" where
  "verifyPeerCertificate certificates = (\<lambda>s. case cx_VerifyPeerCertificate (hb_x s) of
     None \<Rightarrow> Some (Inr (), s)
   | Some f \<Rightarrow> errAlert alertBadCertificate (f certificates (c_verifiedChains (hb_c s))) s)"

definition clientAuthRank :: "ClientAuthType \<Rightarrow> nat" where
  "clientAuthRank a = (case a of NoClientCert \<Rightarrow> 0 | RequestClientCert \<Rightarrow> 1 | RequireAnyClientCert \<Rightarrow> 2 | VerifyClientCertIfGiven \<Rightarrow> 3
     | RequireAndVerifyClientCert \<Rightarrow> 4)"

text \<open>\<open>time.Unix(int64(t), 0)\<close> in nanoseconds.\<close>

definition unixTime :: "u64 \<Rightarrow> int" where
  "unixTime t = sint t * 1000000000"

section \<open>What handshake code leaves alone\<close>

text \<open>
  A projection of the handshake state that the transport side of the connection and the key log do not reach is kept by every
  operation of this theory that does not assign the state itself; the interpretations name the fields.
\<close>

definition transported :: "'z hsBase_scheme \<Rightarrow> 'z hsBase_scheme \<Rightarrow> bool" where
  "transported s s' \<longleftrightarrow> (\<exists>c k. io_only (hb_c s) c \<and> s' = s\<lparr>hb_c := c, hb_keyLog := k\<rparr>)"

definition keeps :: "('s \<Rightarrow> 'v) \<Rightarrow> ('s, 'a) hs \<Rightarrow> bool" where
  "keeps f m \<longleftrightarrow> (\<forall>s r s'. m s = Some (r, s') \<longrightarrow> f s' = f s)"

named_theorems keeps_intros \<open>handshake code that keeps a projection of its state\<close>

lemma keepsD: "keeps f m \<Longrightarrow> m s = Some (r, s') \<Longrightarrow> f s' = f s"
  by (auto simp: keeps_def)

lemma keeps_basic [keeps_intros]:
  "keeps f (hsRet a)" "keeps f (hsFail e)" "keeps f hsPanic" "keeps f (hsGet g)" "keeps f (hsOpt r)" "keeps f (hsRes q)" "keeps f (hsErr x)"
  by (auto simp: keeps_def hsRet_def hsFail_def hsPanic_def hsGet_def hsOpt_def hsRes_def hsErr_def split: option.splits sum.splits)

lemma keeps_bind [keeps_intros]:
  assumes "keeps f m" and "\<And>a. keeps f (g a)"
  shows "keeps f (hsBind m g)"
  unfolding keeps_def
proof (intro allI impI)
  fix s r s'
  assume b: "hsBind m g s = Some (r, s')"
  then obtain x s1 where m: "m s = Some (x, s1)" by (auto simp: hsBind_def split: option.split_asm)
  note k = keepsD [OF assms(1) m]
  show "f s' = f s"
  proof (cases x)
    case (Inl e)
    with b m k show ?thesis by (simp add: hsBind_def)
  next
    case (Inr a)
    with b m have "g a s1 = Some (r, s')" by (simp add: hsBind_def)
    from keepsD [OF assms(2) this] k show ?thesis by simp
  qed
qed

lemma keeps_when [keeps_intros]: "(b \<Longrightarrow> keeps f m) \<Longrightarrow> keeps f (hsWhen b m)"
  by (auto simp: hsWhen_def intro: keeps_basic)

lemma keeps_mapErr [keeps_intros]: "keeps f m \<Longrightarrow> keeps f (hsMapErr g m)"
  by (fastforce simp: keeps_def hsMapErr_def split: option.splits sum.splits)

lemma keeps_seq [keeps_intros]:
  "keeps f (hsSeq [])" "keeps f m \<Longrightarrow> keeps f (hsSeq ms) \<Longrightarrow> keeps f (hsSeq (m # ms))"
  by (auto intro: keeps_basic keeps_bind)

lemma keeps_modify [keeps_intros]: "(\<And>s. f (h s) = f s) \<Longrightarrow> keeps f (hsModify h)"
  by (auto simp: keeps_def hsModify_def)

lemma keeps_cases [keeps_intros]:
  "(b \<Longrightarrow> keeps f m) \<Longrightarrow> (\<not> b \<Longrightarrow> keeps f n) \<Longrightarrow> keeps f (if b then m else n)"
  "keeps f m \<Longrightarrow> (\<And>a. keeps f (g a)) \<Longrightarrow> keeps f (case x of None \<Rightarrow> m | Some a \<Rightarrow> g a)"
  "(\<And>e. keeps f (h e)) \<Longrightarrow> (\<And>a. keeps f (g a)) \<Longrightarrow> keeps f (case q of Inl e \<Rightarrow> h e | Inr a \<Rightarrow> g a)"
  "(\<And>a b. keeps f (k a b)) \<Longrightarrow> keeps f (case p of (a, b) \<Rightarrow> k a b)"
  "keeps f (g v) \<Longrightarrow> keeps f (Let v g)"
  by (auto split: option.split sum.split prod.split)

locale kept =
  fixes f :: "'z hsBase_scheme \<Rightarrow> 'v"
  assumes transport: "transported s s' \<Longrightarrow> f s' = f s"
begin

lemma keeps_transported:
  assumes "\<And>s r s'. m s = Some (r, s') \<Longrightarrow> transported s s'"
  shows "keeps f m"
  unfolding keeps_def using transport assms by blast

lemma conn_step: "io_only (hb_c s) c \<Longrightarrow> f (s\<lparr>hb_c := c\<rparr>) = f s"
proof -
  assume "io_only (hb_c s) c"
  then have "transported s (s\<lparr>hb_c := c, hb_keyLog := hb_keyLog s\<rparr>)" unfolding transported_def by blast
  from transport [OF this] show ?thesis by simp
qed

lemma log_step: "f (s\<lparr>hb_keyLog := k\<rparr>) = f s"
proof -
  have "transported s (s\<lparr>hb_c := hb_c s, hb_keyLog := k\<rparr>)" unfolding transported_def using io_only_refl by blast
  from transport [OF this] show ?thesis by simp
qed

lemma modConn_keeps: "(\<And>c. io_only c (g c)) \<Longrightarrow> keeps f (modConn g)"
  unfolding modConn_def
proof (rule keeps_modify)
  fix s :: "'z hsBase_scheme"
  assume g: "\<And>c. io_only c (g c)"
  have "hb_c_update g s = s\<lparr>hb_c := g (hb_c s)\<rparr>" by (cases s) simp
  then show "f (hb_c_update g s) = f s" by (simp only: conn_step [OF g])
qed

lemma alertHs_keeps: "keeps f (alertHs a)"
  unfolding keeps_def alertHs_def
  by (auto split: option.split_asm prod.split_asm intro!: conn_step sendAlert_io)

lemma abort_keeps: "keeps f (abort a e)"
  unfolding abort_def by (intro keeps_intros alertHs_keeps)

lemma resAlert_keeps: "keeps f (resAlert a q)"
  unfolding resAlert_def by (intro keeps_intros abort_keeps)

lemma errAlert_keeps: "keeps f (errAlert a x)"
  unfolding errAlert_def by (intro keeps_intros abort_keeps)

lemma failIf_keeps: "keeps f (failIf b a t)"
  unfolding failIf_def by (intro keeps_intros abort_keeps)

lemma unexpected_keeps: "keeps f (unexpected w m)"
  unfolding unexpected_def by (intro abort_keeps)

lemma returnAlert_keeps: "keeps f (returnAlert a)"
  unfolding keeps_def returnAlert_def
  by (auto split: option.split_asm prod.split_asm intro!: conn_step sendAlert_io)

lemma hsRand_keeps: "keeps f (hsRand n)"
  unfolding keeps_def hsRand_def by (auto split: sum.split_asm prod.split_asm intro!: conn_step)

lemma orAlert_keeps:
  assumes "keeps f m"
  shows "keeps f (orAlert a m)"
  unfolding keeps_def
proof (intro allI impI)
  fix s r s'
  assume run: "orAlert a m s = Some (r, s')"
  then obtain x s1 where m: "m s = Some (x, s1)" by (cases "m s") (auto simp: orAlert_def)
  note k = keepsD [OF assms m]
  show "f s' = f s"
  proof (cases x)
    case (Inl e)
    with run m have "abort a e s1 = Some (r, s')" by (simp add: orAlert_def)
    from keepsD [OF abort_keeps this] k show ?thesis by simp
  next
    case (Inr y)
    with run m k show ?thesis by (simp add: orAlert_def)
  qed
qed

lemma readMsg_keeps: "keeps f (readMsg C)"
  unfolding keeps_def readMsg_def
  by (auto split: option.split_asm sum.split_asm prod.split_asm intro!: conn_step readHandshake_io)

lemma writeMsg_keeps: "keeps f (writeMsg C m)"
  unfolding keeps_def writeMsg_def
  by (auto split: option.split_asm sum.split_asm prod.split_asm intro!: conn_step writeHandshakeRecord_io)

lemma onConn_keeps: "(\<And>c r c'. op c = Some (r, c') \<Longrightarrow> io_only c c') \<Longrightarrow> keeps f (onConn op)"
  unfolding keeps_def onConn_def
  by (auto split: option.split_asm prod.split_asm intro!: conn_step)

lemma flushHs_keeps: "keeps f flushHs"
  unfolding flushHs_def by (rule onConn_keeps) (auto split: prod.split_asm elim: conn_flush_io)

lemma writeKeyLog_keeps: "keeps f (writeKeyLog l r x)"
  unfolding keeps_def writeKeyLog_def
  by (auto simp: Let_def hsErr_def hsFail_def hsRet_def log_step split: option.split_asm)

lemma verifyConnection_keeps: "keeps f verifyConnection"
  unfolding keeps_def verifyConnection_def
  by (auto split: option.split_asm dest: keepsD [OF errAlert_keeps])

lemma verifyPeerCertificate_keeps: "keeps f (verifyPeerCertificate l)"
  unfolding keeps_def verifyPeerCertificate_def
  by (auto split: option.split_asm dest: keepsD [OF errAlert_keeps])

lemma parsePeerCerts_keeps: "keeps f (parsePeerCerts p w q l certs)"
  by (induction l arbitrary: certs) (auto intro!: keeps_intros abort_keeps split: sum.split publicKey.split)

lemmas base_keeps = abort_keeps alertHs_keeps resAlert_keeps errAlert_keeps failIf_keeps unexpected_keeps returnAlert_keeps
  hsRand_keeps orAlert_keeps readMsg_keeps writeMsg_keeps flushHs_keeps writeKeyLog_keeps verifyConnection_keeps
  verifyPeerCertificate_keeps parsePeerCerts_keeps

end

section \<open>Ciphers of a suite\<close>

fun suiteCipher :: "hsEnv \<Rightarrow> cipherFn \<Rightarrow> bytes \<Rightarrow> bytes \<Rightarrow> bool \<Rightarrow> recordCipher" where
  "suiteCipher E cipherRC4 key iv isRead = Stream (he_rc4 E key)"
| "suiteCipher E cipher3DES key iv isRead = CBC (he_tripleDES E key iv isRead)"
| "suiteCipher E cipherAES key iv isRead = CBC (he_aes E key iv isRead)"

fun suiteMac :: "hsEnv \<Rightarrow> macFn \<Rightarrow> bytes \<Rightarrow> macHash" where
  "suiteMac E macSHA1 key = he_hmacSHA1 E key"
| "suiteMac E macSHA256 key = he_hmacSHA256 E key"

fun suiteAead :: "hsEnv \<Rightarrow> aeadFn \<Rightarrow> bytes \<Rightarrow> bytes \<Rightarrow> aead option" where
  "suiteAead E AeadAESGCM key fixed = aeadAESGCM (he_newGCM E) key fixed"
| "suiteAead E AeadChaCha20Poly1305 key fixed = aeadChaCha20Poly1305 (he_newPoly E) key fixed"

text \<open>
  The cipher and MAC of one direction: \<open>suite.aead\<close> when it is set, else \<open>suite.cipher\<close> and \<open>suite.mac\<close>; \<open>None\<close> is a panic.
\<close>

definition suiteProtection :: "hsEnv \<Rightarrow> cipherSuite \<Rightarrow> bytes \<Rightarrow> bytes \<Rightarrow> bytes \<Rightarrow> bool \<Rightarrow> (recordCipher \<times> macHash option) option" where
  "suiteProtection E suite mac key iv isRead = (case cs_aead suite of
     Some f \<Rightarrow> map_option (\<lambda>a. (Aead a, None)) (suiteAead E f key iv)
   | None \<Rightarrow> (case (cs_cipher suite, cs_mac suite) of
        (Some f, Some g) \<Rightarrow> Some (suiteCipher E f key iv isRead, Some (suiteMac E g mac))
      | _ \<Rightarrow> None))"

section \<open>Handshakes of TLS 1.0 to 1.2\<close>

text \<open>The fields that \<open>clientHandshakeState\<close> and \<open>serverHandshakeState\<close> have in common.\<close>

record hs12 = hsBase +
  h_clientHello :: clientHelloMsg
  h_serverHello :: serverHelloMsg
  h_suite :: "cipherSuite option"
  h_finishedHash :: "finishedHash option"
  h_masterSecret :: bytes

definition fhWrite :: "bytes \<Rightarrow> ('z hs12_scheme, unit) hs" where
  "fhWrite data = hsBind (hsGet h_finishedHash) (\<lambda>fh. hsBind (hsOpt (Option.bind fh (\<lambda>h. fh_Write h data)))
     (\<lambda>h. hsModify (h_finishedHash_update (\<lambda>_. Some h))))"

text \<open>\<open>readHandshake(&hs.finishedHash)\<close>, \<open>writeHandshakeRecord(m, &hs.finishedHash)\<close> and \<open>transcriptMsg(m, &hs.finishedHash)\<close>.\<close>

definition read12 :: "('b, 'x) cryptobyte_scheme \<Rightarrow> ('z hs12_scheme, handshakeMessage) hs" where
  "read12 C = hsBind (readMsg C) (\<lambda>(m, data). hsBind (fhWrite data) (\<lambda>_. hsRet m))"

definition write12 :: "('b, 'x) cryptobyte_scheme \<Rightarrow> handshakeMessage \<Rightarrow> ('z hs12_scheme, unit) hs" where
  "write12 C m = hsBind (writeMsg C m) fhWrite"

definition transcript12 :: "('b, 'x) cryptobyte_scheme \<Rightarrow> handshakeMessage \<Rightarrow> ('z hs12_scheme, unit) hs" where
  "transcript12 C m = hsBind (hsRes (transcriptMsg C m [])) fhWrite"

definition setFinishedHash :: "hsEnv \<Rightarrow> ('z hs12_scheme, unit) hs" where
  "setFinishedHash E = hsBind (hsGet (\<lambda>s. Option.bind (h_suite s) (newFinishedHash (he_prf E) (c_vers (hb_c s)))))
     (\<lambda>h. hsBind (hsOpt h) (\<lambda>h. hsModify (h_finishedHash_update (\<lambda>_. Some h))))"

definition discardBuffer :: "('z hs12_scheme, unit) hs" where
  "discardBuffer = hsModify (h_finishedHash_update (map_option fh_discardHandshakeBuffer))"

definition keys12 :: "hsEnv \<Rightarrow> 'z hs12_scheme \<Rightarrow> connectionKeys option" where
  "keys12 E s = Option.bind (h_suite s) (\<lambda>suite. keysFromMasterSecret (he_prf E) (c_vers (hb_c s)) suite (h_masterSecret s)
     (ch_random (h_clientHello s)) (sh_random (h_serverHello s)) (cs_macLen suite) (cs_keyLen suite) (cs_ivLen suite))"

definition ekm12 :: "hsEnv \<Rightarrow> 'z hs12_scheme \<Rightarrow> ekmFunc option" where
  "ekm12 E s = map_option (\<lambda>suite. ekmFromMasterSecret (he_prf E) (c_vers (hb_c s)) suite (h_masterSecret s)
     (ch_random (h_clientHello s)) (sh_random (h_serverHello s))) (h_suite s)"

text \<open>The same for projections that also leave out the transcript.\<close>

locale kept12 = kept f
  for f :: "'z hs12_scheme \<Rightarrow> 'v" +
  assumes transcript_step: "f (h_finishedHash_update g s) = f s"
begin

lemma fhWrite_keeps: "keeps f (fhWrite data)"
  unfolding fhWrite_def by (intro keeps_intros transcript_step)

lemma read12_keeps: "keeps f (read12 C)"
  unfolding read12_def by (intro keeps_intros fhWrite_keeps readMsg_keeps)

lemma write12_keeps: "keeps f (write12 C m)"
  unfolding write12_def by (intro keeps_intros fhWrite_keeps writeMsg_keeps)

lemma transcript12_keeps: "keeps f (transcript12 C m)"
  unfolding transcript12_def by (intro keeps_intros fhWrite_keeps)

lemma setFinishedHash_keeps: "keeps f (setFinishedHash E)"
  unfolding setFinishedHash_def by (intro keeps_intros transcript_step)

lemma discardBuffer_keeps: "keeps f discardBuffer"
  unfolding discardBuffer_def by (intro keeps_intros transcript_step)

lemmas hs12_keeps = base_keeps fhWrite_keeps read12_keeps write12_keeps transcript12_keeps setFinishedHash_keeps discardBuffer_keeps

end

section \<open>A toy environment\<close>

definition hash_const :: hashFn where
  "hash_const = \<lparr>h_Size = 2, h_Sum = (\<lambda>w. [0, 0]), h_hmac = (\<lambda>k w. [0, 0])\<rparr>"

definition x509Pkgs_sample :: x509Pkgs where
  "x509Pkgs_sample = \<lparr>px_ParseCertificate = (\<lambda>der. Inr (cert_sample\<lparr>crt_Raw := der\<rparr>)), px_Verify = (\<lambda>crt opts. Inr [[crt]]),
     px_VerifyHostname = (\<lambda>_ _. None), px_Subjects = (\<lambda>p. []), px_fullVerify = True\<rparr>"

definition hsEnv_sample :: hsEnv where
  "hsEnv_sample = \<lparr>he_prf = \<lparr>ph_MD5 = hash_const, ph_SHA1 = hash_const, ph_SHA256 = hash_const, ph_SHA384 = hash_const\<rparr>,
     he_ka = kaPkgs_sample, he_x509 = x509Pkgs_sample, he_suites = suiteParams_sample, he_ticket = ticketPkgs_sample,
     he_hpke = hpkePkgs_sample, he_mlkem768 = mlkem_sample, he_mlkem1024 = mlkem_sample,
     he_rc4 = (\<lambda>k. \<lparr>st_keystream = (\<lambda>n. 0), st_pos = 0\<rparr>), he_tripleDES = (\<lambda>k iv r. cbc_sample), he_aes = (\<lambda>k iv r. cbc_sample),
     he_hmacSHA1 = (\<lambda>k. mac_sample), he_hmacSHA256 = (\<lambda>k. mac_sample), he_newGCM = (\<lambda>k. Some aead_sample),
     he_newPoly = (\<lambda>k. Some aead_sample), he_now = 0, he_GetConfigForClient = None,
     he_ParseIP = (\<lambda>w. False), he_entropy = [], he_onResume = id\<rparr>"

definition rsaCertificate :: localCertificate where
  "rsaCertificate = ecCertificate\<lparr>PrivateKey := SignerKey ''*rsa.PrivateKey'' (RSAPublicKey 0 0)\<rparr>"

definition config12_sample :: Config where
  "config12_sample = emptyConfig\<lparr>cfg_Rand := replicate 80 1, cfg_CipherSuites := Some [TLS_RSA_WITH_AES_128_GCM_SHA256]\<rparr>"

definition conn12_sample :: Conn where
  "conn12_sample = conn_sample\<lparr>c_isClient := False, c_isHandshakeComplete := False, c_vers := VersionTLS12, c_haveVers := True,
    c_config := config12_sample, c_handshakes := 0, c_in := halfConn_zero\<lparr>hc_version := VersionTLS12\<rparr>,
    c_out := halfConn_zero\<lparr>hc_version := VersionTLS12\<rparr>\<rparr>"

end
