(* ===== verification/Server12.thy ===== *)
theory Server12
  imports Handshake
begin

text \<open>
  The server side of handshake\_server.go: reading the ClientHello and choosing the version, certificates of
  clients, and the handshake of TLS 1.0 to 1.2, full and resumed. The lemmas show under which conditions a session is
  resumed, that the suite is one that both sides named and the certificate can serve, and what a completed handshake has
  checked of the client.
\<close>

section \<open>Reading the ClientHello\<close>

definition echKeysFor :: "clientHelloMsg \<Rightarrow> ('z hsBase_scheme, EncryptedClientHelloKey list) hs" where
  "echKeysFor hello = (\<lambda>s. case cx_GetEncryptedClientHelloKeys (hb_x s) of
     None \<Rightarrow> Some (Inr (cx_EncryptedClientHelloKeys (hb_x s)), s)
   | Some f \<Rightarrow> resAlert alertInternalError (f (clientHelloInfo (hb_c s) hello)) s)"

definition echProcess :: "('b, 'x) cryptobyte_scheme \<Rightarrow> hsEnv \<Rightarrow> clientHelloMsg \<Rightarrow>
    ('z hsBase_scheme, clientHelloMsg \<times> echServerContext option) hs" where
  "echProcess C E hello =
     (if length (ch_encryptedClientHello hello) \<noteq> 0
      then hsBind (echKeysFor hello) (\<lambda>echKeys. liftConn (\<lambda>c. processECHClientHello C (he_hpke E) c hello echKeys))
      else hsRet (hello, None))"

text \<open>\<open>GetConfigForClient\<close>, and the ticket keys of the connection.\<close>

definition selectConfig :: "hsEnv \<Rightarrow> clientHelloMsg \<Rightarrow> ('z hsBase_scheme, unit) hs" where
  "selectConfig E hello = hsBind
     (case he_GetConfigForClient E of
        None \<Rightarrow> hsRet None
      | Some f \<Rightarrow> hsBind (hsGet hb_c) (\<lambda>c. resAlert alertInternalError (f (clientHelloInfo c hello))))
     (\<lambda>configForClient. hsBind (hsGet hb_config) (\<lambda>originalConfig.
        hsBind (hsOpt (ticketKeys (tp_sha512 (he_ticket E)) (he_now E) originalConfig (map_option fst configForClient)))
          (\<lambda>(keys, original, cc). hsModify (\<lambda>s.
             (case (cc, configForClient) of
                (Some cfg, Some (_, x)) \<Rightarrow> s\<lparr>hb_c := (hb_c s)\<lparr>c_config := cfg, c_ticketKeys := keys\<rparr>, hb_x := x\<rparr>
              | _ \<Rightarrow> s\<lparr>hb_c := (hb_c s)\<lparr>c_config := original, c_ticketKeys := keys\<rparr>\<rparr>)))))"

definition clientVersionsOf :: "clientHelloMsg \<Rightarrow> u16 list" where
  "clientVersionsOf hello =
     (if ch_vers hello \<ge> VersionTLS13 \<and> length (ch_supportedVersions hello) = 0 then supportedVersionsFromMax VersionTLS12
      else if length (ch_supportedVersions hello) = 0 then supportedVersionsFromMax (ch_vers hello)
      else ch_supportedVersions hello)"

definition selectVersion :: "clientHelloMsg \<Rightarrow> ('z hsBase_scheme, unit) hs" where
  "selectVersion hello = hsBind (hsGet hb_config) (\<lambda>config.
     hsBind (hsOpt (mutualVersion (Some config) False (clientVersionsOf hello))) (\<lambda>(vers, ok).
     hsBind (modConn (\<lambda>c. c\<lparr>c_vers := vers\<rparr>)) (\<lambda>_.
     if \<not> ok
     then abort alertProtocolVersion (Errorf ''tls: client offered only unsupported versions: %x'' (map unat (clientVersionsOf hello)))
     else modConn (\<lambda>c. c\<lparr>c_haveVers := True, c_in := (c_in c)\<lparr>hc_version := vers\<rparr>, c_out := (c_out c)\<lparr>hc_version := vers\<rparr>\<rparr>))))"

definition readClientHello :: "('b, 'x) cryptobyte_scheme \<Rightarrow> hsEnv \<Rightarrow> ('z hsBase_scheme, clientHelloMsg \<times> echServerContext option) hs" where
  "readClientHello C E = hsBind (readMsg C) (\<lambda>(msg, _).
     case msg of
       ClientHelloM hello \<Rightarrow>
         hsBind (echProcess C E hello) (\<lambda>(hello, ech).
         hsBind (hsSeq [selectConfig E hello, selectVersion hello]) (\<lambda>_.
         hsBind (hsGet (\<lambda>s. c_vers (hb_c s) \<noteq> VersionTLS13 \<and> (case ech of Some x \<Rightarrow> \<not> esc_inner x | None \<Rightarrow> False))) (\<lambda>bad.
         hsBind (failIf bad alertIllegalParameter ''tls: Encrypted Client Hello cannot be used pre-TLS 1.3'') (\<lambda>_.
         hsRet (hello, ech)))))
     | _ \<Rightarrow> unexpected ''*tls.clientHelloMsg'' msg)"

section \<open>Certificates of clients\<close>

definition clientVerifyOptions :: "hsEnv \<Rightarrow> configExt \<Rightarrow> certPool option \<Rightarrow> VerifyOptions" where
  "clientVerifyOptions E x pool = \<lparr>vo_DNSName = [], vo_Intermediates = pool, vo_Roots = cx_ClientCAs x, vo_CurrentTime = he_now E,
     vo_KeyUsages = [ExtKeyUsageClientAuth]\<rparr>"

definition verifyClientChain :: "hsEnv \<Rightarrow> x509Certificate list \<Rightarrow> ('z hsBase_scheme, unit) hs" where
  "verifyClientChain E certs = (\<lambda>s.
     if clientAuthRank (cfg_ClientAuth (hb_config s)) \<ge> clientAuthRank VerifyClientCertIfGiven \<and> length certs > 0
     then case px_Verify (he_x509 E) (hd certs) (clientVerifyOptions E (hb_x s) (Some (tl certs))) of
            Inl err \<Rightarrow> abort (verifyAlert err) (certificateError certs err) s
          | Inr chains' \<Rightarrow>
              (case fipsAllowedChains chains' of
                 Inl err \<Rightarrow> abort alertBadCertificate (certificateError certs err) s
               | Inr chains' \<Rightarrow> modConn (\<lambda>c. c\<lparr>c_verifiedChains := chains'\<rparr>) s)
     else Some (Inr (), s))"

definition processCertsFromClient :: "hsEnv \<Rightarrow> Certificate \<Rightarrow> ('z hsBase_scheme, unit) hs" where
  "processCertsFromClient E certificate = (let certificates = Certificate_der certificate in
     hsBind (parsePeerCerts (px_ParseCertificate (he_x509 E)) ''client certificate'' ''client'' certificates []) (\<lambda>certs.
     hsBind (hsGet hb_c) (\<lambda>c. hsSeq [
       hsWhen (length certs = 0 \<and> requiresClientCert (cfg_ClientAuth (c_config c)))
         (abort (if c_vers c = VersionTLS13 then alertCertificateRequired else alertHandshakeFailure)
            (ErrorsNew ''tls: client didn't provide a certificate'')),
       verifyClientChain E certs,
       modConn (\<lambda>c. c\<lparr>c_peerCertificates := certs, c_ocspResponse := OCSPStaple certificate,
         c_scts := SignedCertificateTimestamps certificate\<rparr>),
       hsWhen (length certs > 0 \<and> \<not> supportedKey (hd certs))
         (abort alertUnsupportedCertificate (ErrorsNew (''tls: client certificate contains an unsupported public key of type '' @
            publicKeyType (crt_PublicKey (hd certs))))),
       verifyPeerCertificate certificates])))"

section \<open>Handshake state\<close>

record serverHandshakeState = hs12 +
  s_ecdheOk :: bool
  s_ecSignOk :: bool
  s_rsaDecryptOk :: bool
  s_rsaSignOk :: bool
  s_sessionState :: "SessionState option"
  s_cert :: "localCertificate option"

abbreviation compressionNone :: u8 where "compressionNone \<equiv> 0"

definition downgradeCanaryTLS12 :: bytes where "downgradeCanaryTLS12 = ascii ''DOWNGRD'' @ [1]"
definition downgradeCanaryTLS11 :: bytes where "downgradeCanaryTLS11 = ascii ''DOWNGRD'' @ [0]"
definition testingOnlyForceDowngradeCanary :: bool where "testingOnlyForceDowngradeCanary = False"

text \<open>The random of the ServerHello, whose last eight bytes tell a client about a downgrade.\<close>

definition makeServerRandom :: "('z hsBase_scheme, bytes) hs" where
  "makeServerRandom = hsBind (hsGet hb_c) (\<lambda>c.
     hsBind (hsOpt (maxSupportedVersion (Some (c_config c)) False)) (\<lambda>maxVers.
     if maxVers \<ge> VersionTLS12 \<and> c_vers c < maxVers \<or> testingOnlyForceDowngradeCanary
     then hsBind (orAlert alertInternalError (hsRand 24)) (\<lambda>r.
            hsRet (r @ (if c_vers c = VersionTLS12 then downgradeCanaryTLS12 else downgradeCanaryTLS11)))
     else orAlert alertInternalError (hsRand 32)))"

text \<open>A string of the wire as the string of a field.\<close>

definition goString :: "bytes \<Rightarrow> string" where
  "goString w = map (\<lambda>b. char_of (unat b)) w"

definition getServerCertificate :: "hsEnv \<Rightarrow> clientHelloMsg \<Rightarrow> ('z hsBase_scheme, localCertificate option) hs" where
  "getServerCertificate E hello = (\<lambda>s. case getCertificate (he_ka E) (he_x509 E) (hb_x s) (clientHelloInfo (hb_c s) hello) of
     None \<Rightarrow> None
   | Some (Inr cert) \<Rightarrow> Some (Inr cert, s)
   | Some (Inl err) \<Rightarrow> abort (if err = errNoCertificates then alertUnrecognizedName else alertInternalError) err s)"

text \<open>What the private key can do: sign with an elliptic curve or RSA, decrypt with RSA.\<close>

definition signingKey :: "privateKey \<Rightarrow> (bool \<times> bool) res" where
  "signingKey k = (case asSigner k of
     None \<Rightarrow> Inr (False, False)
   | Some (ECDSAPublicKey _ _) \<Rightarrow> Inr (True, False)
   | Some (Ed25519PublicKey _) \<Rightarrow> Inr (True, False)
   | Some (RSAPublicKey _ _) \<Rightarrow> Inr (False, True)
   | Some (OtherPublicKey t) \<Rightarrow> Inl (ErrorsNew (''tls: unsupported signing key type ('' @ t @ '')'')))"

definition decryptionKey :: "kaPkgs \<Rightarrow> privateKey \<Rightarrow> bool res" where
  "decryptionKey K k = (case ka_Decrypter K k of
     None \<Rightarrow> Inr False
   | Some (RSAPublicKey _ _) \<Rightarrow> Inr True
   | Some p \<Rightarrow> Inl (ErrorsNew (''tls: unsupported decryption key type ('' @ publicKeyType p @ '')'')))"

section \<open>Answering the hello\<close>

definition serverHelloFields :: "clientHelloMsg \<Rightarrow> u16 \<Rightarrow> bytes \<Rightarrow> serverHelloMsg" where
  "serverHelloFields ch vers random = serverHelloMsg_zero\<lparr>sh_vers := vers, sh_random := random,
     sh_extendedMasterSecret := ch_extendedMasterSecret ch,
     sh_secureRenegotiationSupported := ch_secureRenegotiationSupported ch, sh_compressionMethod := compressionNone\<rparr>"

definition chooseCertificate :: "hsEnv \<Rightarrow> (serverHandshakeState, unit) hs" where
  "chooseCertificate E = hsBind (hsGet h_clientHello) (\<lambda>ch.
     hsBind (getServerCertificate E ch) (\<lambda>cert. hsSeq [
       hsModify (s_cert_update (\<lambda>_. cert)),
       hsWhen (ch_scts ch) (hsBind (hsOpt cert) (\<lambda>cert. hsModify (h_serverHello_update
         (sh_scts_update (\<lambda>_. case SignedCertificateTimestamps cert of None \<Rightarrow> [] | Some l \<Rightarrow> l)))))]))"

definition chooseECDHE :: "(serverHandshakeState, unit) hs" where
  "chooseECDHE = hsBind (hsGet id) (\<lambda>s. let ch = h_clientHello s in
     hsBind (resAlert alertMissingExtension (supportsECDHE (hb_config s) (c_vers (hb_c s)) (ch_supportedCurves ch) (ch_supportedPoints ch)))
       (\<lambda>ecdheOk. hsSeq [
         hsModify (s_ecdheOk_update (\<lambda>_. ecdheOk)),
         hsWhen (ecdheOk \<and> length (ch_supportedPoints ch) > 0)
           (hsModify (h_serverHello_update (sh_supportedPoints_update (\<lambda>_. [pointFormatUncompressed]))))]))"

definition classifyKey :: "hsEnv \<Rightarrow> (serverHandshakeState, unit) hs" where
  "classifyKey E = hsBind (hsGet s_cert) (\<lambda>cert. hsBind (hsOpt cert) (\<lambda>cert.
     hsBind (resAlert alertInternalError (signingKey (PrivateKey cert))) (\<lambda>(ec, rsa).
     hsBind (hsModify (\<lambda>s. s\<lparr>s_ecSignOk := ec, s_rsaSignOk := rsa\<rparr>)) (\<lambda>_.
     hsBind (resAlert alertInternalError (decryptionKey (he_ka E) (PrivateKey cert))) (\<lambda>dec.
     hsModify (s_rsaDecryptOk_update (\<lambda>_. dec)))))))"

definition processClientHello :: "hsEnv \<Rightarrow> (serverHandshakeState, unit) hs" where
  "processClientHello E = hsBind (hsGet h_clientHello) (\<lambda>ch. hsSeq [
     failIf (\<not> list_ex (\<lambda>compression. compression = compressionNone) (ch_compressionMethods ch)) alertIllegalParameter
       ''tls: client does not support uncompressed connections'',
     hsBind makeServerRandom (\<lambda>random. hsModify (\<lambda>s. s\<lparr>h_serverHello := serverHelloFields ch (c_vers (hb_c s)) random\<rparr>)),
     failIf (length (ch_secureRenegotiation ch) \<noteq> 0) alertHandshakeFailure
       ''tls: initial handshake had non-empty renegotiation extension'',
     hsWhen (length (ch_serverName ch) > 0) (modConn (\<lambda>c. c\<lparr>c_serverName := goString (ch_serverName ch)\<rparr>)),
     hsBind (hsGet (\<lambda>s. negotiateALPN (cfg_NextProtos (hb_config s)) (ch_alpnProtocols ch) False)) (\<lambda>r.
       hsBind (resAlert alertNoApplicationProtocol r) (\<lambda>selectedProto.
         hsModify (\<lambda>s. s\<lparr>h_serverHello := (h_serverHello s)\<lparr>sh_alpnProtocol := selectedProto\<rparr>,
           hb_c := (hb_c s)\<lparr>c_clientProtocol := selectedProto\<rparr>\<rparr>))),
     chooseCertificate E, chooseECDHE, classifyKey E])"

section \<open>Choosing a suite\<close>

definition cipherSuiteOk :: "serverHandshakeState \<Rightarrow> cipherSuite \<Rightarrow> bool" where
  "cipherSuiteOk s c =
     (if hasFlag c suiteECDHE \<and> (\<not> s_ecdheOk s \<or> (if hasFlag c suiteECSign then \<not> s_ecSignOk s else \<not> s_rsaSignOk s)) then False
      else if \<not> hasFlag c suiteECDHE \<and> \<not> s_rsaDecryptOk s then False
      else if c_vers (hb_c s) < VersionTLS12 \<and> hasFlag c suiteTLS12 then False
      else True)"

definition pickCipherSuite :: "hsEnv \<Rightarrow> (serverHandshakeState, unit) hs" where
  "pickCipherSuite E = hsBind (hsGet id) (\<lambda>s.
     let offered = ch_cipherSuites (h_clientHello s);
         preferenceList = Config_cipherSuites (hb_config s) (isAESGCMPreferred (he_suites E) offered)
     in case selectCipherSuite preferenceList offered (cipherSuiteOk s) of
          None \<Rightarrow> abort alertHandshakeFailure
            (Errorf ''tls: no cipher suite supported by both client and server; client offered: %x'' (map unat offered))
        | Some suite \<Rightarrow> hsSeq [
            hsModify (\<lambda>s. s\<lparr>h_suite := Some suite, hb_c := (hb_c s)\<lparr>c_cipherSuite := cs_id suite\<rparr>\<rparr>),
            hsWhen (TLS_FALLBACK_SCSV \<in> set offered)
              (hsBind (hsOpt (maxSupportedVersion (Some (hb_config s)) False)) (\<lambda>maxVers.
                 failIf (ch_vers (h_clientHello s) < maxVers) alertInappropriateFallback
                   ''tls: client using inappropriate protocol fallback''))])"

section \<open>Resumption\<close>

text \<open>The session of a ticket, \<open>None\<close> for a ticket that is ignored.\<close>

definition ticketSession :: "('b, 'x) cryptobyte_scheme \<Rightarrow> hsEnv \<Rightarrow> (serverHandshakeState, SessionState option) hs" where
  "ticketSession C E = hsBind (hsGet id) (\<lambda>s. let ticket = ch_sessionTicket (h_clientHello s) in
     case cx_UnwrapSession (hb_x s) of
       Some f \<Rightarrow> hsRes (f ticket (connState s))
     | None \<Rightarrow>
         (case decryptTicket (he_ticket E) ticket (c_ticketKeys (hb_c s)) of
            None \<Rightarrow> hsRet None
          | Some plaintext \<Rightarrow>
              (case ParseSessionState C (px_ParseCertificate (he_x509 E)) plaintext of
                 Inl _ \<Rightarrow> hsRet None
               | Inr ss \<Rightarrow> hsRet (Some ss))))"

definition verifiedAgain :: "hsEnv \<Rightarrow> configExt \<Rightarrow> SessionState \<Rightarrow> bool" where
  "verifiedAgain E x ss = anyValidVerifiedChain (px_fullVerify (he_x509 E))
     (\<lambda>cert pool. case px_Verify (he_x509 E) cert (clientVerifyOptions E x pool) of Inl _ \<Rightarrow> False | Inr _ \<Rightarrow> True)
     (he_now E) (sn_verifiedChains ss)"

text \<open>Whether a session's client certificates satisfy the policy of this connection.\<close>

definition clientCertsOk :: "hsEnv \<Rightarrow> Config \<Rightarrow> configExt \<Rightarrow> SessionState \<Rightarrow> bool" where
  "clientCertsOk E config x ss =
     (let sessionHasClientCerts = length (sn_peerCertificates ss) \<noteq> 0;
          needClientCerts = requiresClientCert (cfg_ClientAuth config)
      in if needClientCerts \<and> \<not> sessionHasClientCerts then False
         else if sessionHasClientCerts \<and> cfg_ClientAuth config = NoClientCert then False
         else if sessionHasClientCerts \<and> he_now E > crt_NotAfter (hd (sn_peerCertificates ss)) then False
         else if sessionHasClientCerts \<and> clientAuthRank (cfg_ClientAuth config) \<ge> clientAuthRank VerifyClientCertIfGiven \<and>
                 \<not> verifiedAgain E x ss then False
         else True)"

text \<open>The suite a session is resumed with, \<open>None\<close> when the session cannot be used.\<close>

definition resumptionSuite :: "hsEnv \<Rightarrow> serverHandshakeState \<Rightarrow> SessionState \<Rightarrow> cipherSuite option" where
  "resumptionSuite E s ss =
     (if he_now E - unixTime (sn_createdAt ss) > maxSessionTicketLifetime then None
      else if c_vers (hb_c s) \<noteq> sn_version ss then None
      else if \<not> list_ex (\<lambda>i. i = sn_cipherSuite ss) (ch_cipherSuites (h_clientHello s)) then None
      else case selectCipherSuite [sn_cipherSuite ss] (Config_supportedCipherSuites (hb_config s)) (cipherSuiteOk s) of
        None \<Rightarrow> None
      | Some suite \<Rightarrow> if \<not> clientCertsOk E (hb_config s) (hb_x s) ss then None else Some suite)"

definition acceptSession :: "SessionState \<Rightarrow> cipherSuite \<Rightarrow> serverHandshakeState \<Rightarrow> serverHandshakeState" where
  "acceptSession ss suite s = s\<lparr>s_sessionState := Some ss, h_suite := Some suite,
     hb_c := (hb_c s)\<lparr>c_peerCertificates := sn_peerCertificates ss, c_ocspResponse := sn_ocspResponse ss, c_scts := sn_scts ss,
       c_verifiedChains := sn_verifiedChains ss, c_extMasterSecret := sn_extMasterSecret ss, c_curveID := sn_curveID ss,
       c_didResume := True\<rparr>\<rparr>"

definition checkForResumption :: "('b, 'x) cryptobyte_scheme \<Rightarrow> hsEnv \<Rightarrow> (serverHandshakeState, unit) hs" where
  "checkForResumption C E = hsBind (hsGet hb_config) (\<lambda>config.
     if cfg_SessionTicketsDisabled config then hsRet ()
     else hsBind (ticketSession C E) (\<lambda>r. case r of
       None \<Rightarrow> hsRet ()
     | Some ss \<Rightarrow> hsBind (hsGet id) (\<lambda>s.
         case resumptionSuite E s ss of
           None \<Rightarrow> hsRet ()
         | Some suite \<Rightarrow>
             (let ems = ch_extendedMasterSecret (h_clientHello s) in
              if \<not> sn_extMasterSecret ss \<and> ems then hsRet ()
              else if sn_extMasterSecret ss \<and> \<not> ems
              then hsFail (ErrorsNew ''tls: session supported extended_master_secret but client does not'')
              else if \<not> sn_extMasterSecret ss \<and> fips140tlsRequired then hsRet ()
              else hsModify (acceptSession ss suite)))))"

definition doResumeHandshake :: "('b, 'x) cryptobyte_scheme \<Rightarrow> hsEnv \<Rightarrow> (serverHandshakeState, unit) hs" where
  "doResumeHandshake C E = hsBind (hsGet id) (\<lambda>s.
     hsBind (hsOpt (h_suite s)) (\<lambda>suite. hsBind (hsOpt (s_sessionState s)) (\<lambda>ss. hsSeq [
       hsModify (\<lambda>s. s\<lparr>h_serverHello := (h_serverHello s)\<lparr>sh_cipherSuite := cs_id suite,
           sh_sessionId := ch_sessionId (h_clientHello s), sh_ticketSupported := True\<rparr>,
         hb_c := (hb_c s)\<lparr>c_cipherSuite := cs_id suite\<rparr>\<rparr>),
       setFinishedHash E,
       discardBuffer,
       transcript12 C (ClientHelloM (h_clientHello s)),
       hsBind (hsGet h_serverHello) (\<lambda>hello. write12 C (ServerHelloM hello)),
       verifyConnection,
       hsModify (h_masterSecret_update (\<lambda>_. sn_secret ss))])))"

section \<open>The full handshake\<close>

text \<open>ServerHello and Certificate.\<close>

definition sendHello :: "('b, 'x) cryptobyte_scheme \<Rightarrow> hsEnv \<Rightarrow> (serverHandshakeState, unit) hs" where
  "sendHello C E = hsBind (hsGet id) (\<lambda>s.
     hsBind (hsOpt (h_suite s)) (\<lambda>suite. hsBind (hsOpt (s_cert s)) (\<lambda>cert. let ch = h_clientHello s in hsSeq [
       hsModify (h_serverHello_update (\<lambda>h. h\<lparr>
         sh_ocspStapling := (if ch_ocspStapling ch \<and> (case OCSPStaple cert of Some w \<Rightarrow> length w > 0 | None \<Rightarrow> False)
           then True else sh_ocspStapling h),
         sh_serverNameAck := (if ch_serverName ch \<noteq> [] then True else sh_serverNameAck h),
         sh_ticketSupported := (ch_ticketSupported ch \<and> \<not> cfg_SessionTicketsDisabled (hb_config s)),
         sh_cipherSuite := cs_id suite\<rparr>)),
       setFinishedHash E,
       hsWhen (cfg_ClientAuth (hb_config s) = NoClientCert) discardBuffer,
       transcript12 C (ClientHelloM ch),
       hsBind (hsGet h_serverHello) (\<lambda>hello. write12 C (ServerHelloM hello)),
       write12 C (CertificateM \<lparr>cm_certificates = Certificate_der cert\<rparr>),
       hsBind (hsGet (\<lambda>s. sh_ocspStapling (h_serverHello s))) (\<lambda>b. hsWhen b
         (write12 C (CertificateStatusM \<lparr>cs_response = (case OCSPStaple cert of Some w \<Rightarrow> w | None \<Rightarrow> [])\<rparr>)))])))"

text \<open>ServerKeyExchange; the key agreement is returned.\<close>

definition sendServerKeyExchange :: "('b, 'x) cryptobyte_scheme \<Rightarrow> hsEnv \<Rightarrow> (serverHandshakeState, keyAgreement) hs" where
  "sendServerKeyExchange C E = hsBind (hsGet id) (\<lambda>s.
     hsBind (hsOpt (h_suite s)) (\<lambda>suite. hsBind (hsOpt (s_cert s)) (\<lambda>cert.
     case generateServerKeyExchange (he_ka E) (hb_config s) (c_rand (hb_c s)) cert (h_clientHello s) (h_serverHello s)
            (newKeyAgreement (cs_ka suite) (c_vers (hb_c s))) of
       (ka, Inl err) \<Rightarrow> abort alertHandshakeFailure err
     | (ka, Inr (skx, rand)) \<Rightarrow>
         hsBind (hsSeq [
           modConn (set_rand rand),
           (case skx of
              None \<Rightarrow> hsRet ()
            | Some m \<Rightarrow> hsSeq [
                (case ka of
                   EcdheKeyAgreement k \<Rightarrow> modConn (\<lambda>c. c\<lparr>c_curveID := ek_curveID k, c_peerSigAlg := ek_signatureAlgorithm k\<rparr>)
                 | RsaKeyAgreement \<Rightarrow> hsRet ()),
                write12 C (ServerKeyExchangeM m)])]) (\<lambda>_. hsRet ka))))"

abbreviation certTypeRSASign :: u8 where "certTypeRSASign \<equiv> 1"
abbreviation certTypeECDSASign :: u8 where "certTypeECDSASign \<equiv> 64"

definition certificateRequest12 :: "hsEnv \<Rightarrow> serverHandshakeState \<Rightarrow> certificateRequestMsg" where
  "certificateRequest12 E s = \<lparr>
     cr_hasSignatureAlgorithm = (c_vers (hb_c s) \<ge> VersionTLS12),
     cr_certificateTypes = [certTypeRSASign, certTypeECDSASign],
     cr_supportedSignatureAlgorithms = (if c_vers (hb_c s) \<ge> VersionTLS12 then supportedSignatureAlgorithms (c_vers (hb_c s)) else []),
     cr_certificateAuthorities = (case cx_ClientCAs (hb_x s) of None \<Rightarrow> [] | Some pool \<Rightarrow> px_Subjects (he_x509 E) pool)\<rparr>"

definition wantsClientCert :: "'z hsBase_scheme \<Rightarrow> bool" where
  "wantsClientCert s \<longleftrightarrow> clientAuthRank (cfg_ClientAuth (hb_config s)) \<ge> clientAuthRank RequestClientCert"

definition sendRequestAndDone :: "('b, 'x) cryptobyte_scheme \<Rightarrow> hsEnv \<Rightarrow> (serverHandshakeState, unit) hs" where
  "sendRequestAndDone C E = hsBind (hsGet id) (\<lambda>s. hsSeq [
     hsWhen (wantsClientCert s) (write12 C (CertificateRequestM (certificateRequest12 E s))),
     write12 C ServerHelloDoneM,
     flushHs])"

text \<open>The client's certificates when they were requested, and the message behind them; the result is its public key.\<close>

definition readClientCert :: "('b, 'x) cryptobyte_scheme \<Rightarrow> hsEnv \<Rightarrow> (serverHandshakeState, publicKey option \<times> handshakeMessage) hs" where
  "readClientCert C E = hsBind (read12 C) (\<lambda>msg. hsBind (hsGet wantsClientCert) (\<lambda>wants.
     if \<not> wants then hsRet (None, msg)
     else case msg of
       CertificateM certMsg \<Rightarrow>
         hsBind (processCertsFromClient E (Certificate_zero\<lparr>Certificate_der := cm_certificates certMsg\<rparr>)) (\<lambda>_.
         hsBind (hsGet (\<lambda>s. c_peerCertificates (hb_c s))) (\<lambda>certs.
         hsBind (read12 C) (\<lambda>msg.
         hsRet (if length (cm_certificates certMsg) \<noteq> 0 then Some (crt_PublicKey (hd certs)) else None, msg))))
     | _ \<Rightarrow> unexpected ''*tls.certificateMsg'' msg))"

definition computeMasterSecret :: "hsEnv \<Rightarrow> bytes \<Rightarrow> ('z hs12_scheme, unit) hs" where
  "computeMasterSecret E preMasterSecret = hsBind (hsGet id) (\<lambda>s. hsBind (hsOpt (h_suite s)) (\<lambda>suite.
     if sh_extendedMasterSecret (h_serverHello s)
     then hsBind (modConn (\<lambda>c. c\<lparr>c_extMasterSecret := True\<rparr>)) (\<lambda>_.
          hsBind (hsOpt (Option.bind (Option.bind (h_finishedHash s) fh_Sum)
            (extMasterFromPreMasterSecret (he_prf E) (c_vers (hb_c s)) suite preMasterSecret)))
          (\<lambda>m. hsModify (h_masterSecret_update (\<lambda>_. m))))
     else hsBind (failIf fips140tlsRequired alertHandshakeFailure ''tls: FIPS 140-3 requires the use of Extended Master Secret'') (\<lambda>_.
          hsBind (hsOpt (masterFromPreMasterSecret (he_prf E) (c_vers (hb_c s)) suite preMasterSecret
            (ch_random (h_clientHello s)) (sh_random (h_serverHello s))))
          (\<lambda>m. hsModify (h_masterSecret_update (\<lambda>_. m))))))"

definition readClientKeyExchange :: "hsEnv \<Rightarrow> keyAgreement \<Rightarrow> handshakeMessage \<Rightarrow> (serverHandshakeState, unit) hs" where
  "readClientKeyExchange E ka msg = (case msg of
     ClientKeyExchangeM ckx \<Rightarrow> hsBind (hsGet id) (\<lambda>s. hsBind (hsOpt (s_cert s)) (\<lambda>cert.
       hsBind (hsOpt (processClientKeyExchange (he_ka E) (c_rand (hb_c s)) cert ckx ka)) (\<lambda>r.
       hsBind (resAlert alertIllegalParameter r) (\<lambda>(preMasterSecret, rand). hsSeq [
         modConn (set_rand rand),
         computeMasterSecret E preMasterSecret,
         hsBind (hsGet h_masterSecret) (\<lambda>m.
           orAlert alertInternalError (writeKeyLog ''CLIENT_RANDOM'' (ch_random (h_clientHello s)) m))]))))
   | _ \<Rightarrow> unexpected ''*tls.clientKeyExchangeMsg'' msg)"

text \<open>The check of the client's signature over the transcript; \<open>None\<close> is a panic.\<close>

definition checkClientSignature :: "hsEnv \<Rightarrow> publicKey \<Rightarrow> certificateVerifyMsg \<Rightarrow> (serverHandshakeState, unit) hs" where
  "checkClientSignature E pub certVerify = hsBind (hsGet id) (\<lambda>s. hsBind (hsOpt (h_finishedHash s)) (\<lambda>fh.
     let S = ka_sig (he_ka E); sig = cv_signature certVerify; alg = cv_signatureAlgorithm certVerify;
         invalid = (\<lambda>r. case r of
             Some err \<Rightarrow> abort alertDecryptError (TextError ''tls: invalid signature by the client certificate: '' err)
           | None \<Rightarrow> hsRet ())
     in if c_vers (hb_c s) \<ge> VersionTLS12
        then hsBind (failIf (\<not> isSupportedSignatureAlgorithm alg (cr_supportedSignatureAlgorithms (certificateRequest12 E s)))
               alertIllegalParameter ''tls: client certificate used with invalid signature algorithm'') (\<lambda>_.
             case typeAndHashFromSignatureScheme alg of
               Inl _ \<Rightarrow> returnAlert alertInternalError
             | Inr (sigType, sigHash) \<Rightarrow>
                 (case fh_buffer fh of
                    None \<Rightarrow> abort alertInternalError (ErrorsNew ''tls: internal error: did not keep handshake transcript for TLS 1.2'')
                  | Some buffer \<Rightarrow> hsBind (hsOpt (verifyHandshakeSignature S sigType pub sigHash buffer sig)) invalid))
        else (case legacyTypeAndHashFromPublicKey pub of
                Inl err \<Rightarrow> abort alertIllegalParameter err
              | Inr (sigType, sigHash) \<Rightarrow>
                  hsBind (hsOpt (fh_hashForClientCertificate fh sigType)) (\<lambda>hashed.
                  invalid (verifyLegacyHandshakeSignature S sigType pub sigHash hashed sig)))))"

definition readCertificateVerify :: "('b, 'x) cryptobyte_scheme \<Rightarrow> hsEnv \<Rightarrow> publicKey option \<Rightarrow> (serverHandshakeState, unit) hs" where
  "readCertificateVerify C E pub = hsBind (hsGet (\<lambda>s. length (c_peerCertificates (hb_c s)) > 0)) (\<lambda>has.
     hsWhen has (hsBind (readMsg C) (\<lambda>(msg, _). case msg of
       CertificateVerifyM certVerify \<Rightarrow> hsBind (hsOpt pub) (\<lambda>pub. hsSeq [
         checkClientSignature E pub certVerify,
         modConn (\<lambda>c. c\<lparr>c_peerSigAlg := cv_signatureAlgorithm certVerify\<rparr>),
         transcript12 C (CertificateVerifyM certVerify)])
     | _ \<Rightarrow> unexpected ''*tls.certificateVerifyMsg'' msg)))"

definition doFullHandshake :: "('b, 'x) cryptobyte_scheme \<Rightarrow> hsEnv \<Rightarrow> (serverHandshakeState, unit) hs" where
  "doFullHandshake C E = hsBind (sendHello C E) (\<lambda>_. hsBind (sendServerKeyExchange C E) (\<lambda>ka.
     hsBind (sendRequestAndDone C E) (\<lambda>_. hsBind (readClientCert C E) (\<lambda>(pub, msg). hsSeq [
       verifyConnection,
       readClientKeyExchange E ka msg,
       readCertificateVerify C E pub,
       discardBuffer]))))"

section \<open>Keys, Finished, tickets\<close>

definition establishKeys :: "hsEnv \<Rightarrow> (serverHandshakeState, unit) hs" where
  "establishKeys E = hsBind (hsGet id) (\<lambda>s. hsBind (hsOpt (h_suite s)) (\<lambda>suite. hsBind (hsOpt (keys12 E s)) (\<lambda>k.
     hsBind (hsOpt (suiteProtection E suite (ck_clientMAC k) (ck_clientKey k) (ck_clientIV k) True)) (\<lambda>(clientCipher, clientHash).
     hsBind (hsOpt (suiteProtection E suite (ck_serverMAC k) (ck_serverKey k) (ck_serverIV k) False)) (\<lambda>(serverCipher, serverHash).
     modConn (\<lambda>c. c\<lparr>c_in := hc_prepareCipherSpec (c_in c) (c_vers c) (Some clientCipher) clientHash,
       c_out := hc_prepareCipherSpec (c_out c) (c_vers c) (Some serverCipher) serverHash\<rparr>))))))"

definition readFinished :: "('b, 'x) cryptobyte_scheme \<Rightarrow> (serverHandshakeState, bytes) hs" where
  "readFinished C = hsBind (onConn readChangeCipherSpec) (\<lambda>_. hsBind (readMsg C) (\<lambda>(msg, _). case msg of
     FinishedM clientFinished \<Rightarrow> hsBind (hsGet id) (\<lambda>s.
       hsBind (hsOpt (Option.bind (h_finishedHash s) (\<lambda>fh. fh_clientSum fh (h_masterSecret s)))) (\<lambda>verify.
       hsBind (hsSeq [
         failIf (length verify \<noteq> length (fin_verifyData clientFinished) \<or> verify \<noteq> fin_verifyData clientFinished)
           alertHandshakeFailure ''tls: client's Finished message is incorrect'',
         transcript12 C (FinishedM clientFinished)]) (\<lambda>_. hsRet verify)))
   | _ \<Rightarrow> unexpected ''*tls.finishedMsg'' msg))"

definition wrapTicket :: "('b, 'x) cryptobyte_scheme \<Rightarrow> hsEnv \<Rightarrow> SessionState \<Rightarrow> ('z hsBase_scheme, bytes) hs" where
  "wrapTicket C E state = hsBind (hsGet id) (\<lambda>s. case cx_WrapSession (hb_x s) of
     Some f \<Rightarrow> hsRes (f (connState s) state)
   | None \<Rightarrow> hsBind (hsRes (SessionState_Bytes C state)) (\<lambda>stateBytes.
       let (r, rand) = encryptTicket (he_ticket E) stateBytes (c_ticketKeys (hb_c s)) (c_rand (hb_c s))
       in hsBind (modConn (set_rand rand)) (\<lambda>_. hsRes r)))"

definition sendSessionTicket :: "('b, 'x) cryptobyte_scheme \<Rightarrow> hsEnv \<Rightarrow> (serverHandshakeState, unit) hs" where
  "sendSessionTicket C E = hsBind (hsGet id) (\<lambda>s. hsWhen (sh_ticketSupported (h_serverHello s))
     (let state = (conn_sessionState (he_now E) (hb_c s))\<lparr>sn_secret := h_masterSecret s\<rparr>;
          state = (case s_sessionState s of None \<Rightarrow> state | Some old \<Rightarrow> state\<lparr>sn_createdAt := sn_createdAt old\<rparr>)
      in hsBind (wrapTicket C E state) (\<lambda>ticket. write12 C (NewSessionTicketM \<lparr>nst_ticket = ticket\<rparr>))))"

definition sendFinished :: "('b, 'x) cryptobyte_scheme \<Rightarrow> (serverHandshakeState, bytes) hs" where
  "sendFinished C = hsBind (onConn writeChangeCipherRecord) (\<lambda>_. hsBind (hsGet id) (\<lambda>s.
     hsBind (hsOpt (Option.bind (h_finishedHash s) (\<lambda>fh. fh_serverSum fh (h_masterSecret s)))) (\<lambda>verifyData.
     hsBind (write12 C (FinishedM \<lparr>fin_verifyData = verifyData\<rparr>)) (\<lambda>_. hsRet verifyData))))"

text \<open>\<open>copy(c.clientFinished[:], verify)\<close> and the same for the server's.\<close>

definition keepClientFinished :: "bytes \<Rightarrow> ('z hsBase_scheme, unit) hs" where
  "keepClientFinished verify = modConn (\<lambda>c. c\<lparr>c_clientFinished := copy_at 0 (c_clientFinished c) verify\<rparr>)"

definition keepServerFinished :: "bytes \<Rightarrow> ('z hsBase_scheme, unit) hs" where
  "keepServerFinished verify = modConn (\<lambda>c. c\<lparr>c_serverFinished := copy_at 0 (c_serverFinished c) verify\<rparr>)"

definition ignored :: "('s, 'a) hs \<Rightarrow> ('s, unit) hs" where
  "ignored m = hsBind m (\<lambda>_. hsRet ())"

definition server_resumed :: "('b, 'x) cryptobyte_scheme \<Rightarrow> hsEnv \<Rightarrow> (serverHandshakeState, unit) hs" where
  "server_resumed C E = hsSeq [
     doResumeHandshake C E,
     establishKeys E,
     sendSessionTicket C E,
     hsBind (sendFinished C) keepServerFinished,
     flushHs,
     modConn (\<lambda>c. c\<lparr>c_clientFinishedIsFirst := False\<rparr>),
     ignored (readFinished C)]"

definition server_full :: "('b, 'x) cryptobyte_scheme \<Rightarrow> hsEnv \<Rightarrow> (serverHandshakeState, unit) hs" where
  "server_full C E = hsSeq [
     pickCipherSuite E,
     doFullHandshake C E,
     establishKeys E,
     hsBind (readFinished C) keepClientFinished,
     modConn (\<lambda>c. c\<lparr>c_clientFinishedIsFirst := True, c_buffering := True\<rparr>),
     sendSessionTicket C E,
     ignored (sendFinished C),
     flushHs]"

definition server_handshake :: "('b, 'x) cryptobyte_scheme \<Rightarrow> hsEnv \<Rightarrow> (serverHandshakeState, unit) hs" where
  "server_handshake C E = hsSeq [
     processClientHello E,
     modConn (\<lambda>c. c\<lparr>c_buffering := True\<rparr>),
     checkForResumption C E,
     hsBind (hsGet s_sessionState) (\<lambda>ss. if ss \<noteq> None then server_resumed C E else server_full C E),
     hsBind (hsGet (ekm12 E)) (\<lambda>ekm. hsModify (hb_ekm_update (\<lambda>_. ekm))),
     modConn (\<lambda>c. c\<lparr>c_isHandshakeComplete := True\<rparr>)]"

text \<open>The state that \<open>serverHandshake\<close> starts this handshake with.\<close>

definition serverHandshakeState_new :: "hsBase \<Rightarrow> clientHelloMsg \<Rightarrow> serverHandshakeState" where
  "serverHandshakeState_new b hello = \<lparr>hb_c = hb_c b, hb_x = hb_x b, hb_ekm = hb_ekm b, hb_keyLog = hb_keyLog b,
     h_clientHello = hello, h_serverHello = serverHelloMsg_zero, h_suite = None, h_finishedHash = None, h_masterSecret = [],
     s_ecdheOk = False, s_ecSignOk = False, s_rsaDecryptOk = False, s_rsaSignOk = False, s_sessionState = None, s_cert = None\<rparr>"

definition base_of :: "'z hsBase_scheme \<Rightarrow> hsBase" where
  "base_of s = \<lparr>hb_c = hb_c s, hb_x = hb_x s, hb_ekm = hb_ekm s, hb_keyLog = hb_keyLog s\<rparr>"

section \<open>What a handshake settles\<close>

text \<open>
  The outcome of a handshake that its transport, key exchange and transcript do not touch: only the certificates of a client, a
  resumed session and the last step assign it.
\<close>

definition settled :: "serverHandshakeState \<Rightarrow>
    bool \<times> ClientAuthType \<times> configExt \<times> x509Certificate list \<times> x509Certificate list list \<times> u16 \<times> bool \<times> SessionState option" where
  "settled s = (c_isHandshakeComplete (hb_c s), cfg_ClientAuth (hb_config s), hb_x s, c_peerCertificates (hb_c s),
     c_verifiedChains (hb_c s), c_vers (hb_c s), c_didResume (hb_c s), s_sessionState s)"

lemma io_only_ClientAuth: "io_only c c' \<Longrightarrow> cfg_ClientAuth (c_config c') = cfg_ClientAuth (c_config c)"
  using arg_cong [OF io_only_fields(6), of c c' cfg_ClientAuth] by simp

interpretation st: kept12 settled
proof
  fix s s' :: serverHandshakeState
  assume "transported s s'"
  then obtain c k where io: "io_only (hb_c s) c" and s': "s' = s\<lparr>hb_c := c, hb_keyLog := k\<rparr>" by (auto simp: transported_def)
  show "settled s' = settled s" by (simp add: s' settled_def io_only_fields [OF io] io_only_ClientAuth [OF io])
qed (simp add: settled_def)

lemmas settled_rules = keeps_intros st.hs12_keeps

lemma makeServerRandom_settled: "keeps settled makeServerRandom"
  unfolding makeServerRandom_def by (intro settled_rules)

lemma getServerCertificate_settled: "keeps settled (getServerCertificate E ch)"
  unfolding keeps_def getServerCertificate_def
  by (auto split: option.split_asm sum.split_asm dest: keepsD [OF st.abort_keeps])

lemma processClientHello_settled: "keeps settled (processClientHello E)"
  unfolding processClientHello_def chooseCertificate_def chooseECDHE_def classifyKey_def modConn_def
  by (intro settled_rules makeServerRandom_settled getServerCertificate_settled; simp add: settled_def)

lemma pickCipherSuite_settled: "keeps settled (pickCipherSuite E)"
  unfolding pickCipherSuite_def by (intro settled_rules; simp add: settled_def)

lemma doResumeHandshake_settled: "keeps settled (doResumeHandshake C E)"
  unfolding doResumeHandshake_def by (intro settled_rules; simp add: settled_def)

lemma sendHello_settled: "keeps settled (sendHello C E)"
  unfolding sendHello_def by (intro settled_rules; simp add: settled_def)

lemma sendServerKeyExchange_settled: "keeps settled (sendServerKeyExchange C E)"
  unfolding sendServerKeyExchange_def modConn_def
  by (intro settled_rules) (auto intro!: settled_rules simp: settled_def split: keyAgreement.split)

lemma sendRequestAndDone_settled: "keeps settled (sendRequestAndDone C E)"
  unfolding sendRequestAndDone_def by (intro settled_rules)

lemma readClientKeyExchange_settled: "keeps settled (readClientKeyExchange E ka msg)"
  unfolding readClientKeyExchange_def computeMasterSecret_def modConn_def
  by (cases msg) (simp, (intro settled_rules; simp add: settled_def)?)+

lemma checkClientSignature_settled: "keeps settled (checkClientSignature E pub cv)"
  unfolding checkClientSignature_def by (intro settled_rules)

lemma readCertificateVerify_settled: "keeps settled (readCertificateVerify C E pub)"
  unfolding readCertificateVerify_def modConn_def
  by (intro settled_rules) (auto intro!: settled_rules checkClientSignature_settled simp: settled_def split: handshakeMessage.split)

lemma establishKeys_settled: "keeps settled (establishKeys E)"
  unfolding establishKeys_def modConn_def by (intro settled_rules; simp add: settled_def)

lemma readChangeCipherSpec_io: "readChangeCipherSpec c = Some (r, c') \<Longrightarrow> io_only c c'"
  unfolding readChangeCipherSpec_def by (rule readRecordOrCCS_io)

lemma readFinished_settled: "keeps settled (readFinished C)"
  unfolding readFinished_def
  by (intro settled_rules st.onConn_keeps readChangeCipherSpec_io)
    (auto intro!: settled_rules split: handshakeMessage.split)

lemma sendSessionTicket_settled: "keeps settled (sendSessionTicket C E)"
  unfolding sendSessionTicket_def wrapTicket_def modConn_def
  by (intro settled_rules) (auto intro!: settled_rules simp: settled_def split: prod.split)

lemma sendFinished_settled: "keeps settled (sendFinished C)"
  unfolding sendFinished_def by (intro settled_rules st.onConn_keeps writeChangeCipherRecord_io)

lemmas server_ops_settled = makeServerRandom_settled processClientHello_settled pickCipherSuite_settled doResumeHandshake_settled
  sendHello_settled sendServerKeyExchange_settled sendRequestAndDone_settled readClientKeyExchange_settled readCertificateVerify_settled
  establishKeys_settled readFinished_settled sendSessionTicket_settled sendFinished_settled

lemmas server_settled = settled_rules server_ops_settled

lemma server_resumed_settled: "keeps settled (server_resumed C E)"
  unfolding server_resumed_def ignored_def keepServerFinished_def modConn_def
  by (intro server_settled; simp add: settled_def)

section \<open>Certificates of clients: what is checked\<close>

text \<open>A success of the loop of \<open>processCertsFromClient\<close>: every certificate was parsed, in order.\<close>

lemma parsePeerCerts_success:
  "parsePeerCerts parse w q ders certs s = Some (Inr r, s') \<Longrightarrow>
     s' = s \<and> (\<exists>new. r = certs @ new \<and> list_all2 (\<lambda>der cert. parse der = Inr cert) ders new)"
proof (induction ders arbitrary: certs)
  case Nil
  then show ?case by (simp add: hs_simps)
next
  case (Cons der ders)
  then obtain cert where p: "parse der = Inr cert" and "parsePeerCerts parse w q ders (certs @ [cert]) s = Some (Inr r, s')"
    by (auto simp: hs_simps Let_def split: sum.split_asm publicKey.split_asm if_split_asm prod.split_asm)
  from Cons.IH [OF this(2)] p show ?case by auto
qed

text \<open>
  The policy of \<open>Config.ClientAuth\<close> on the certificates of a connection: required ones are there, ones that must be verified
  have a chain to \<open>ClientCAs\<close> (of a resumed session, one that still verifies).
\<close>

definition client_policy :: "hsEnv \<Rightarrow> ClientAuthType \<Rightarrow> configExt \<Rightarrow> bool \<Rightarrow> x509Certificate list \<Rightarrow> x509Certificate list list \<Rightarrow> bool" where
  "client_policy E auth x resumed certs chs \<longleftrightarrow>
     (requiresClientCert auth \<longrightarrow> certs \<noteq> []) \<and>
     (certs \<noteq> [] \<longrightarrow> auth \<noteq> NoClientCert) \<and>
     (certs \<noteq> [] \<and> clientAuthRank auth \<ge> clientAuthRank VerifyClientCertIfGiven \<longrightarrow>
        (if resumed then \<exists>ss. sn_verifiedChains ss = chs \<and> verifiedAgain E x ss
         else \<exists>found. px_Verify (he_x509 E) (hd certs) (clientVerifyOptions E x (Some (tl certs))) = Inr found \<and>
                fipsAllowedChains found = Inr chs))"

definition holds_policy :: "hsEnv \<Rightarrow> 'z hsBase_scheme \<Rightarrow> bool" where
  "holds_policy E s \<longleftrightarrow> client_policy E (cfg_ClientAuth (hb_config s)) (hb_x s) (c_didResume (hb_c s))
     (c_peerCertificates (hb_c s)) (c_verifiedChains (hb_c s))"

lemma holds_policy_settled: "settled s' = settled s \<Longrightarrow> holds_policy E s' \<longleftrightarrow> holds_policy E s"
  by (simp add: settled_def holds_policy_def)

lemma verifyClientChain_success:
  assumes "verifyClientChain E certs s = Some (Inr (), s')"
  shows "if clientAuthRank (cfg_ClientAuth (hb_config s)) \<ge> clientAuthRank VerifyClientCertIfGiven \<and> certs \<noteq> []
    then \<exists>found chs. px_Verify (he_x509 E) (hd certs) (clientVerifyOptions E (hb_x s) (Some (tl certs))) = Inr found \<and>
      fipsAllowedChains found = Inr chs \<and> s' = s\<lparr>hb_c := (hb_c s)\<lparr>c_verifiedChains := chs\<rparr>\<rparr>
    else s' = s"
  using assms by (auto simp: verifyClientChain_def hs_simps split: if_splits sum.split_asm)

lemma processCertsFromClient_success:
  assumes run: "processCertsFromClient E certificate s = Some (Inr (), s')"
    and "cfg_ClientAuth (hb_config s) \<noteq> NoClientCert" and "\<not> c_didResume (hb_c s)"
  shows "holds_policy E s' \<and> c_isHandshakeComplete (hb_c s') = c_isHandshakeComplete (hb_c s) \<and>
    list_all2 (\<lambda>der cert. px_ParseCertificate (he_x509 E) der = Inr cert) (Certificate_der certificate) (c_peerCertificates (hb_c s'))"
proof -
  let ?store = "\<lambda>certs. hb_c_update (\<lambda>c. c\<lparr>c_peerCertificates := certs, c_ocspResponse := OCSPStaple certificate,
      c_scts := SignedCertificateTimestamps certificate\<rparr>)"
  obtain certs where p: "parsePeerCerts (px_ParseCertificate (he_x509 E)) ''client certificate'' ''client'' (Certificate_der certificate) [] s =
      Some (Inr certs, s)"
    and certs: "list_all2 (\<lambda>der cert. px_ParseCertificate (he_x509 E) der = Inr cert) (Certificate_der certificate) certs"
  proof -
    from run obtain r s1 where p: "parsePeerCerts (px_ParseCertificate (he_x509 E)) ''client certificate'' ''client''
        (Certificate_der certificate) [] s = Some (Inr r, s1)"
      unfolding processCertsFromClient_def Let_def hs_success(4) by blast
    with parsePeerCerts_success [OF p] that show thesis by simp
  qed
  have "(\<exists>s2. verifyClientChain E certs s = Some (Inr (), s2) \<and>
      verifyPeerCertificate (Certificate_der certificate) (?store certs s2) = Some (Inr (), s')) \<and>
    \<not> (length certs = 0 \<and> requiresClientCert (cfg_ClientAuth (hb_config s)))"
    using run unfolding processCertsFromClient_def Let_def hs_success(4) p by (simp add: hs_simps) blast
  then obtain s2 where v: "verifyClientChain E certs s = Some (Inr (), s2)"
    and s': "verifyPeerCertificate (Certificate_der certificate) (?store certs s2) = Some (Inr (), s')"
    and req: "\<not> (length certs = 0 \<and> requiresClientCert (cfg_ClientAuth (hb_config s)))" by blast
  have "s' = ?store certs s2"
    using s' by (auto simp: verifyPeerCertificate_def hs_simps split: option.split_asm)
  with verifyClientChain_success [OF v] certs req assms(2,3) show ?thesis
    by (auto simp: holds_policy_def client_policy_def split: if_split_asm)
qed

section \<open>Resumption and the whole handshake\<close>

lemma ticketSession_success:
  assumes "ticketSession C E s = Some (Inr r, s')"
  shows "s' = s \<and> (cx_UnwrapSession (hb_x s) = None \<longrightarrow> r \<noteq> None \<longrightarrow>
    (\<exists>plaintext. decryptTicket (he_ticket E) (ch_sessionTicket (h_clientHello s)) (c_ticketKeys (hb_c s)) = Some plaintext \<and>
      ParseSessionState C (px_ParseCertificate (he_x509 E)) plaintext = Inr (the r)))"
  using assms by (auto simp: ticketSession_def hs_simps Let_def split: option.split_asm sum.split_asm)

lemma checkForResumption_success:
  assumes "checkForResumption C E s = Some (Inr (), s')"
  shows "s' = s \<or> (\<exists>ss suite. ticketSession C E s = Some (Inr (Some ss), s) \<and> \<not> cfg_SessionTicketsDisabled (hb_config s) \<and>
    resumptionSuite E s ss = Some suite \<and> sn_extMasterSecret ss = ch_extendedMasterSecret (h_clientHello s) \<and>
    s' = acceptSession ss suite s)"
proof (cases "cfg_SessionTicketsDisabled (hb_config s)")
  case True
  with assms show ?thesis by (simp add: checkForResumption_def hs_simps)
next
  case False
  then obtain r s1 where t: "ticketSession C E s = Some (Inr r, s1)"
    and rest: "(case r of None \<Rightarrow> hsRet () | Some ss \<Rightarrow> hsBind (hsGet id) (\<lambda>s. case resumptionSuite E s ss of None \<Rightarrow> hsRet ()
       | Some suite \<Rightarrow>
             (let ems = ch_extendedMasterSecret (h_clientHello s) in
              if \<not> sn_extMasterSecret ss \<and> ems then hsRet ()
              else if sn_extMasterSecret ss \<and> \<not> ems
              then hsFail (ErrorsNew ''tls: session supported extended_master_secret but client does not'')
              else if \<not> sn_extMasterSecret ss \<and> fips140tlsRequired then hsRet ()
              else hsModify (acceptSession ss suite)))) s1 = Some (Inr (), s')"
    using assms by (auto simp: checkForResumption_def hs_success(4,5))
  have s1: "s1 = s" using ticketSession_success [OF t] by simp
  show ?thesis
  proof (cases r)
    case None
    with rest s1 show ?thesis by (simp add: hs_simps)
  next
    case (Some ss)
    show ?thesis
    proof (cases "resumptionSuite E s ss")
      case None
      with rest s1 Some show ?thesis by (simp add: hs_simps)
    next
      case (Some suite)
      with rest s1 \<open>r = Some ss\<close> False t show ?thesis by (auto simp: hs_simps Let_def split: if_split_asm)
    qed
  qed
qed

lemma resumptionSuite_conditions:
  assumes "resumptionSuite E s ss = Some suite"
  shows "he_now E - unixTime (sn_createdAt ss) \<le> maxSessionTicketLifetime" "sn_version ss = c_vers (hb_c s)"
    "sn_cipherSuite ss \<in> set (ch_cipherSuites (h_clientHello s))" "sn_cipherSuite ss \<in> set (Config_supportedCipherSuites (hb_config s))"
    "cipherSuiteByID (sn_cipherSuite ss) = Some suite" "cipherSuiteOk s suite" "clientCertsOk E (hb_config s) (hb_x s) ss"
  using assms by (auto simp: resumptionSuite_def list_ex_iff split: if_split_asm option.split_asm)

lemma clientCertsOk_policy:
  assumes "clientCertsOk E config x ss"
  shows "client_policy E (cfg_ClientAuth config) x True (sn_peerCertificates ss) (sn_verifiedChains ss)"
    "sn_peerCertificates ss \<noteq> [] \<Longrightarrow> he_now E \<le> crt_NotAfter (hd (sn_peerCertificates ss))"
  using assms by (auto simp: clientCertsOk_def client_policy_def Let_def split: if_split_asm)

lemma checkForResumption_policy:
  assumes "checkForResumption C E s = Some (Inr (), s')" and "s_sessionState s' \<noteq> None" and "s_sessionState s = None"
  shows "holds_policy E s'"
  using checkForResumption_success [OF assms(1)] assms(2,3)
  by (auto simp: holds_policy_def acceptSession_def dest!: resumptionSuite_conditions(7) dest: clientCertsOk_policy(1))

lemma readClientCert_policy:
  assumes run: "readClientCert C E s = Some (Inr (pub, msg), s')" and "c_peerCertificates (hb_c s) = []" and "\<not> c_didResume (hb_c s)"
  shows "holds_policy E s'"
proof -
  from run obtain m s1 where r: "read12 C s = Some (Inr m, s1)"
    and rest: "(if \<not> wantsClientCert s1 then hsRet (None, m) else case m of
       CertificateM certMsg \<Rightarrow>
         hsBind (processCertsFromClient E (Certificate_zero\<lparr>Certificate_der := cm_certificates certMsg\<rparr>)) (\<lambda>_.
         hsBind (hsGet (\<lambda>s. c_peerCertificates (hb_c s))) (\<lambda>certs.
         hsBind (read12 C) (\<lambda>msg.
         hsRet (if length (cm_certificates certMsg) \<noteq> 0 then Some (crt_PublicKey (hd certs)) else None, msg))))
     | _ \<Rightarrow> unexpected ''*tls.certificateMsg'' m) s1 = Some (Inr (pub, msg), s')"
    by (auto simp: readClientCert_def hs_success(4,5))
  have s1: "settled s1 = settled s" using keepsD [OF st.read12_keeps r] .
  show ?thesis
  proof (cases "wantsClientCert s1")
    case False
    then have "cfg_ClientAuth (hb_config s1) = NoClientCert"
      by (cases "cfg_ClientAuth (hb_config s1)") (auto simp: wantsClientCert_def clientAuthRank_def)
    moreover have "s' = s1" using rest False by (simp add: hs_simps)
    ultimately show ?thesis using s1 assms(2,3)
      by (auto simp: holds_policy_def client_policy_def settled_def)
  next
    case True
    then have auth: "cfg_ClientAuth (hb_config s1) \<noteq> NoClientCert" by (auto simp: wantsClientCert_def clientAuthRank_def)
    from rest True obtain certMsg where m: "m = CertificateM certMsg" by (cases m) (auto simp: hs_simps)
    with rest True obtain s2 y where p: "processCertsFromClient E (Certificate_zero\<lparr>Certificate_der := cm_certificates certMsg\<rparr>) s1 = Some (Inr (), s2)"
      and r2: "read12 C s2 = Some (Inr y, s')"
      by (auto simp: hs_success(1,4,5))
    have "holds_policy E s2" using processCertsFromClient_success [OF p auth] s1 assms(3) by (simp add: settled_def)
    with holds_policy_settled [OF keepsD [OF st.read12_keeps r2]] show ?thesis by simp
  qed
qed

lemma doFullHandshake_policy:
  assumes run: "doFullHandshake C E s = Some (Inr (), s')" and "c_peerCertificates (hb_c s) = []" and "\<not> c_didResume (hb_c s)"
  shows "holds_policy E s'"
proof -
  from run obtain s1 ka s2 s3 pub msg s4 where "sendHello C E s = Some (Inr (), s1)" "sendServerKeyExchange C E s1 = Some (Inr ka, s2)"
    "sendRequestAndDone C E s2 = Some (Inr (), s3)" and cert: "readClientCert C E s3 = Some (Inr (pub, msg), s4)"
    and rest: "hsSeq [verifyConnection, readClientKeyExchange E ka msg, readCertificateVerify C E pub, discardBuffer] s4 = Some (Inr (), s')"
    unfolding doFullHandshake_def hs_success(4) by auto
  then have "settled s3 = settled s"
    using keepsD [OF sendHello_settled] keepsD [OF sendServerKeyExchange_settled] keepsD [OF sendRequestAndDone_settled] by metis
  then have "holds_policy E s4" using readClientCert_policy [OF cert] assms(2,3) by (simp add: settled_def)
  moreover have k: "keeps settled (hsSeq [verifyConnection, readClientKeyExchange E ka msg, readCertificateVerify C E pub, discardBuffer])"
    by (intro server_settled)
  ultimately show ?thesis using holds_policy_settled [OF keepsD [OF k rest]] by blast
qed

lemma server_full_policy:
  assumes run: "server_full C E s = Some (Inr (), s')" and "c_peerCertificates (hb_c s) = []" and "\<not> c_didResume (hb_c s)"
  shows "holds_policy E s'"
proof -
  let ?rest = "hsSeq [establishKeys E, hsBind (readFinished C) keepClientFinished,
     modConn (\<lambda>c. c\<lparr>c_clientFinishedIsFirst := True, c_buffering := True\<rparr>), sendSessionTicket C E, ignored (sendFinished C), flushHs]"
  from run obtain s1 s2 where p: "pickCipherSuite E s = Some (Inr (), s1)" and f: "doFullHandshake C E s1 = Some (Inr (), s2)"
    and rest: "?rest s2 = Some (Inr (), s')"
    unfolding server_full_def hsSeq.simps(2) [of "pickCipherSuite E"] hsSeq.simps(2) [of "doFullHandshake C E"] hs_success(4) by auto
  have k: "keeps settled ?rest"
    unfolding keepClientFinished_def ignored_def modConn_def by (intro server_settled; simp add: settled_def)
  have "holds_policy E s2"
    using doFullHandshake_policy [OF f] keepsD [OF pickCipherSuite_settled p] assms(2,3) by (simp add: settled_def)
  then show ?thesis using holds_policy_settled [OF keepsD [OF k rest]] by blast
qed

text \<open>What \<open>handshake\<close> does up to its last assignment.\<close>

lemma server_handshake_policy:
  assumes run: "server_handshake C E s = Some (Inr (), s')" and "c_peerCertificates (hb_c s) = []" and "\<not> c_didResume (hb_c s)"
    and "s_sessionState s = None"
  shows "holds_policy E s' \<and> c_isHandshakeComplete (hb_c s')"
proof -
  from run obtain s1 s2 s3 where p: "processClientHello E s = Some (Inr (), s1)"
    and r: "checkForResumption C E (hb_c_update (\<lambda>c. c\<lparr>c_buffering := True\<rparr>) s1) = Some (Inr (), s2)"
    and body: "(if s_sessionState s2 \<noteq> None then server_resumed C E else server_full C E) s2 = Some (Inr (), s3)"
    and s': "s' = hb_c_update (\<lambda>c. c\<lparr>c_isHandshakeComplete := True\<rparr>) (hb_ekm_update (\<lambda>_. ekm12 E s3) s3)"
    by (auto simp: server_handshake_def hs_simps)
  have s1: "settled s1 = settled s" using keepsD [OF processClientHello_settled p] .
  have "holds_policy E s3"
  proof (cases "s_sessionState s2")
    case (Some ss)
    then have "holds_policy E s2" using checkForResumption_policy [OF r] s1 assms(4) by (simp add: settled_def)
    with holds_policy_settled [OF keepsD [OF server_resumed_settled], of C E s2 "Inr ()" s3 E] body Some show ?thesis by simp
  next
    case None
    then have "s2 = hb_c_update (\<lambda>c. c\<lparr>c_buffering := True\<rparr>) s1"
      using checkForResumption_success [OF r] by (auto simp: acceptSession_def)
    with None body s1 assms(2,3) show ?thesis using server_full_policy [of C E s2 s3] by (simp add: settled_def)
  qed
  then show ?thesis by (simp add: s' holds_policy_def)
qed

section \<open>Failing handshakes\<close>

text \<open>Only the last step marks the handshake complete.\<close>

definition completed :: "serverHandshakeState \<Rightarrow> bool" where
  "completed s = c_isHandshakeComplete (hb_c s)"

interpretation cp: kept12 completed
proof
  fix s s' :: serverHandshakeState
  assume "transported s s'"
  then obtain c k where io: "io_only (hb_c s) c" and s': "s' = s\<lparr>hb_c := c, hb_keyLog := k\<rparr>" by (auto simp: transported_def)
  show "completed s' = completed s" by (simp add: s' completed_def io_only_fields [OF io])
qed (simp add: completed_def)

lemma keeps_completed: "keeps settled m \<Longrightarrow> keeps completed m"
  by (auto simp: keeps_def completed_def settled_def)

lemmas completed_rules = keeps_intros cp.hs12_keeps server_ops_settled [THEN keeps_completed]

lemma verifyClientChain_completed: "keeps completed (verifyClientChain E certs)"
  unfolding keeps_def verifyClientChain_def
  by (auto simp: modConn_def hsModify_def completed_def split: if_split_asm sum.split_asm
      dest!: keepsD [OF cp.abort_keeps, unfolded completed_def])

lemma processCertsFromClient_completed: "keeps completed (processCertsFromClient E certificate)"
  unfolding processCertsFromClient_def modConn_def
  by (intro completed_rules verifyClientChain_completed; simp add: completed_def)

lemma checkForResumption_completed: "keeps completed (checkForResumption C E)"
  unfolding checkForResumption_def ticketSession_def
  by (intro completed_rules; simp add: completed_def acceptSession_def)

lemma doFullHandshake_completed: "keeps completed (doFullHandshake C E)"
  unfolding doFullHandshake_def readClientCert_def
  by (intro completed_rules) (auto intro!: completed_rules processCertsFromClient_completed split: handshakeMessage.split)

lemma server_body_completed: "keeps completed (server_full C E)"
  unfolding server_full_def keepClientFinished_def ignored_def modConn_def
  by (intro completed_rules doFullHandshake_completed; simp add: completed_def)

lemma server_handshake_completed:
  assumes "server_handshake C E s = Some (Inl e, s')"
  shows "c_isHandshakeComplete (hb_c s') = c_isHandshakeComplete (hb_c s)"
proof -
  let ?body = "hsSeq [processClientHello E, modConn (\<lambda>c. c\<lparr>c_buffering := True\<rparr>), checkForResumption C E,
     hsBind (hsGet s_sessionState) (\<lambda>ss. if ss \<noteq> None then server_resumed C E else server_full C E),
     hsBind (hsGet (ekm12 E)) (\<lambda>ekm. hsModify (hb_ekm_update (\<lambda>_. ekm)))]"
  have k: "keeps completed ?body"
    unfolding modConn_def
    by (intro completed_rules checkForResumption_completed server_body_completed server_resumed_settled [THEN keeps_completed];
        simp add: completed_def)
  have "server_handshake C E = hsBind ?body (\<lambda>_. modConn (\<lambda>c. c\<lparr>c_isHandshakeComplete := True\<rparr>))"
    unfolding server_handshake_def hsSeq.simps hsBind_assoc hsBind_ret hsBind_unit ..
  with assms have "?body s = Some (Inl e, s')"
    by (cases "?body s") (auto simp: hsBind_def modConn_def hsModify_def split: sum.split_asm)
  from keepsD [OF k this] show ?thesis by (simp add: completed_def)
qed

section \<open>Properties\<close>

text \<open>
  (C11) Whatever the peer sends, a server handshake of TLS 1.0 to 1.2 on a fresh connection marks the connection complete
  exactly when it returns no error, and then the client's certificates satisfy the configured policy: required
  certificates are there, none were taken that were not asked for, and when the policy asks for it the first one has a
  chain to the configured authorities (in a full handshake the one just verified, in a resumed one a chain of the session
  that still verifies).
\<close>

theorem server_handshake_outcome:
  assumes "server_handshake C E s = Some (r, s')"
    and "c_peerCertificates (hb_c s) = []" and "\<not> c_didResume (hb_c s)" and "s_sessionState s = None"
    and "\<not> c_isHandshakeComplete (hb_c s)"
  shows "(c_isHandshakeComplete (hb_c s') \<longleftrightarrow> r = Inr ()) \<and> (r = Inr () \<longrightarrow>
    client_policy E (cfg_ClientAuth (hb_config s')) (hb_x s') (c_didResume (hb_c s')) (c_peerCertificates (hb_c s')) (c_verifiedChains (hb_c s')))"
proof (cases r)
  case (Inl e)
  with server_handshake_completed [of C E s e s'] assms(1,5) show ?thesis by simp
next
  case (Inr u)
  with assms(1) have "server_handshake C E s = Some (Inr (), s')" by simp
  from server_handshake_policy [OF this assms(2-4)] Inr show ?thesis by (simp add: holds_policy_def)
qed

definition server12_sample :: serverHandshakeState where
  "server12_sample = serverHandshakeState_new \<lparr>hb_c = conn12_sample, hb_x = configExt_zero\<lparr>cx_Certificates := [rsaCertificate]\<rparr>,
     hb_ekm = None, hb_keyLog = []\<rparr> (clientHelloMsg_zero\<lparr>ch_vers := VersionTLS12, ch_compressionMethods := [1],
     ch_cipherSuites := [TLS_RSA_WITH_AES_128_GCM_SHA256]\<rparr>)"

declare writeRecords.simps [code]

theorem server_handshake_outcome_witness:
  "\<exists>e s'. server_handshake cb_ref hsEnv_sample server12_sample = Some (Inl e, s') \<and> \<not> c_isHandshakeComplete (hb_c s')"
proof -
  let ?e = "ErrorsNew ''tls: client does not support uncompressed connections''"
  have "case alertHs alertIllegalParameter server12_sample of Some (Inr _, s) \<Rightarrow> True | _ \<Rightarrow> False" by code_simp
  then obtain s' where ab: "(abort alertIllegalParameter ?e :: (serverHandshakeState, unit) hs) server12_sample = Some (Inl ?e, s')"
    by (auto simp: abort_def hsBind_def hsFail_def split: option.split_asm sum.split_asm)
  have "\<not> list_ex (\<lambda>c. c = compressionNone) (ch_compressionMethods (h_clientHello server12_sample))"
    by (simp add: server12_sample_def serverHandshakeState_new_def)
  then have "failIf (\<not> list_ex (\<lambda>c. c = compressionNone) (ch_compressionMethods (h_clientHello server12_sample))) alertIllegalParameter
      ''tls: client does not support uncompressed connections'' server12_sample = Some (Inl ?e, s')"
    using ab by (simp only: failIf_def hsWhen_def if_True not_False_eq_True)
  then have "processClientHello hsEnv_sample server12_sample = Some (Inl ?e, s')"
    unfolding processClientHello_def hsBind_get hsSeq.simps by (rule hsBind_fails)
  then have run: "server_handshake cb_ref hsEnv_sample server12_sample = Some (Inl ?e, s')"
    by (simp add: server_handshake_def hsBind_fails)
  have "c_peerCertificates (hb_c server12_sample) = []" "\<not> c_didResume (hb_c server12_sample)" "s_sessionState server12_sample = None"
    "\<not> c_isHandshakeComplete (hb_c server12_sample)"
    by (simp_all add: server12_sample_def serverHandshakeState_new_def conn12_sample_def conn_sample_def)
  from server_handshake_outcome [OF run this] run show ?thesis by blast
qed

text \<open>
  (C33) A server resumes a session of TLS 1.0 to 1.2 only when tickets are enabled, the ticket was decrypted with its
  own keys (or by the callback), it is at most seven days old, of the version of this connection, with a suite that the
  client still offers and the server supports and can serve with its certificate, with the same use of the extended master
  secret, and with client certificates that satisfy the policy and have not expired; a ticket that is not resumed leaves the
  state as it was.
\<close>

theorem resumption_conditions:
  assumes "checkForResumption C E s = Some (Inr (), s')"
  shows "s' = s \<or> (\<exists>ss suite. s' = acceptSession ss suite s \<and> \<not> cfg_SessionTicketsDisabled (hb_config s) \<and>
    (cx_UnwrapSession (hb_x s) = None \<longrightarrow>
      (\<exists>plaintext. decryptTicket (he_ticket E) (ch_sessionTicket (h_clientHello s)) (c_ticketKeys (hb_c s)) = Some plaintext \<and>
        ParseSessionState C (px_ParseCertificate (he_x509 E)) plaintext = Inr ss)) \<and>
    he_now E - unixTime (sn_createdAt ss) \<le> 7 * 24 * 3600 * 10 ^ 9 \<and> sn_version ss = c_vers (hb_c s) \<and>
    sn_cipherSuite ss \<in> set (ch_cipherSuites (h_clientHello s)) \<inter> set (Config_supportedCipherSuites (hb_config s)) \<and>
    cipherSuiteByID (sn_cipherSuite ss) = Some suite \<and> cipherSuiteOk s suite \<and>
    sn_extMasterSecret ss = ch_extendedMasterSecret (h_clientHello s) \<and>
    client_policy E (cfg_ClientAuth (hb_config s)) (hb_x s) True (sn_peerCertificates ss) (sn_verifiedChains ss) \<and>
    (sn_peerCertificates ss \<noteq> [] \<longrightarrow> he_now E \<le> crt_NotAfter (hd (sn_peerCertificates ss))))"
proof (cases "s' = s")
  case False
  with checkForResumption_success [OF assms] obtain ss suite where t: "ticketSession C E s = Some (Inr (Some ss), s)"
    and c: "\<not> cfg_SessionTicketsDisabled (hb_config s)" "resumptionSuite E s ss = Some suite"
      "sn_extMasterSecret ss = ch_extendedMasterSecret (h_clientHello s)" "s' = acceptSession ss suite s" by blast
  note k = resumptionSuite_conditions [OF c(2)]
  show ?thesis
    using c k(1-6) clientCertsOk_policy [OF k(7)] ticketSession_success [OF t] by (intro disjI2 exI [of _ ss] exI [of _ suite]) simp
qed simp

definition session12_sample :: SessionState where
  "session12_sample = session_sample\<lparr>sn_version := VersionTLS12, sn_cipherSuite := TLS_RSA_WITH_AES_128_GCM_SHA256, sn_createdAt := 0,
     sn_extMasterSecret := False, sn_peerCertificates := []\<rparr>"

definition resuming_sample :: serverHandshakeState where
  "resuming_sample = server12_sample\<lparr>s_rsaDecryptOk := True, hb_x := configExt_zero\<lparr>cx_UnwrapSession := Some (\<lambda>_ _. Inr (Some session12_sample))\<rparr>\<rparr>"

theorem resumption_conditions_witness:
  "\<exists>s' ss suite. checkForResumption cb_ref hsEnv_sample resuming_sample = Some (Inr (), s') \<and> s' = acceptSession ss suite resuming_sample \<and>
     sn_version ss = VersionTLS12 \<and> cipherSuiteByID (sn_cipherSuite ss) = Some suite"
proof -
  have "TLS_RSA_WITH_AES_128_GCM_SHA256 \<in> set (Config_supportedCipherSuites config12_sample)" by code_simp
  moreover have "case cipherSuiteByID TLS_RSA_WITH_AES_128_GCM_SHA256 of None \<Rightarrow> False | Some c \<Rightarrow> \<not> hasFlag c suiteECDHE" by code_simp
  ultimately have "resumptionSuite hsEnv_sample resuming_sample session12_sample \<noteq> None"
    by (auto simp: resumptionSuite_def resuming_sample_def session12_sample_def server12_sample_def serverHandshakeState_new_def
        conn12_sample_def hsEnv_sample_def unixTime_def clientCertsOk_def cipherSuiteOk_def
        config12_sample_def emptyConfig_def split: option.splits)
  then obtain suite where suite: "resumptionSuite hsEnv_sample resuming_sample session12_sample = Some suite" by blast
  have x: "cx_UnwrapSession (hb_x resuming_sample) = Some (\<lambda>_ _. Inr (Some session12_sample))" "\<not> sn_extMasterSecret session12_sample"
    "\<not> cfg_SessionTicketsDisabled (hb_config resuming_sample)" "\<not> ch_extendedMasterSecret (h_clientHello resuming_sample)"
    "s_sessionState resuming_sample = None" "c_vers (hb_c resuming_sample) = VersionTLS12"
    by (simp_all add: resuming_sample_def session12_sample_def server12_sample_def serverHandshakeState_new_def conn12_sample_def
        config12_sample_def emptyConfig_def clientHelloMsg_zero_def)
  then have run: "checkForResumption cb_ref hsEnv_sample resuming_sample = Some (Inr (), acceptSession session12_sample suite resuming_sample)"
    using suite by (simp add: checkForResumption_def ticketSession_def hsBind_def hsGet_def hsRes_def hsRet_def hsModify_def fips140tlsRequired_def)
  have "s_sessionState (acceptSession session12_sample suite resuming_sample) \<noteq> s_sessionState resuming_sample"
    by (simp add: acceptSession_def x(5))
  then have "acceptSession session12_sample suite resuming_sample \<noteq> resuming_sample" by auto
  with resumption_conditions [OF run] obtain ss suite' where "acceptSession session12_sample suite resuming_sample = acceptSession ss suite' resuming_sample"
    "sn_version ss = c_vers (hb_c resuming_sample)" "cipherSuiteByID (sn_cipherSuite ss) = Some suite'" by blast
  with run x(6) show ?thesis by auto
qed

section \<open>The certificate and the suite\<close>

text \<open>What \<open>processClientHello\<close> has found out about the key exchange, for the certificate it has chosen.\<close>

definition classified :: "hsEnv \<Rightarrow> localCertificate \<Rightarrow> serverHandshakeState \<Rightarrow> bool" where
  "classified E cert s \<longleftrightarrow>
     supportsECDHE (hb_config s) (c_vers (hb_c s)) (ch_supportedCurves (h_clientHello s)) (ch_supportedPoints (h_clientHello s)) = Inr (s_ecdheOk s) \<and>
     signingKey (PrivateKey cert) = Inr (s_ecSignOk s, s_rsaSignOk s) \<and> decryptionKey (he_ka E) (PrivateKey cert) = Inr (s_rsaDecryptOk s)"

lemma processClientHello_classified:
  assumes "processClientHello E s = Some (Inr (), s')"
  shows "\<exists>cert. s_cert s' = Some cert \<and> classified E cert s'"
proof -
  obtain u s1 s2 where "chooseECDHE s1 = Some (Inr u, s2)" and k: "classifyKey E s2 = Some (Inr (), s')"
    using assms unfolding processClientHello_def hsBind_get hsSeq.simps hsBind_unit hs_success(4) by blast
  then have "supportsECDHE (hb_config s2) (c_vers (hb_c s2)) (ch_supportedCurves (h_clientHello s2)) (ch_supportedPoints (h_clientHello s2)) =
      Inr (s_ecdheOk s2)"
    by (auto simp: chooseECDHE_def hs_simps Let_def hsWhen_success split: if_split_asm)
  with k show ?thesis
    by (auto simp: classifyKey_def hs_simps classified_def split: prod.split_asm)
qed

lemma Config_cipherSuites_set: "set (Config_cipherSuites c a) = set (Config_supportedCipherSuites c)"
proof -
  have "set (supportedCipherSuites a) = set (supportedCipherSuites False)" "set (defaultCipherSuites a) = set (defaultCipherSuites False)"
    using order_AES_complete order_NoAES_complete by (auto simp: supportedCipherSuites_def defaultCipherSuites_def)
  then show ?thesis
    by (auto simp: Config_supportedCipherSuites_def Config_cipherSuites_def fips140tlsRequired_def split: option.split)
qed

lemma selectCipherSuite_exists:
  assumes "selectCipherSuite ids supportedIDs ok = Some c"
  shows "cs_id c \<in> set ids" "cs_id c \<in> set supportedIDs" "cipherSuiteByID (cs_id c) = Some c" "ok c"
proof -
  from assms obtain i where f: "find (acceptable supportedIDs ok) ids = Some i" and i: "cipherSuiteByID i = Some c"
    by (auto simp: selectCipherSuite_find bind_eq_Some_conv)
  then have "acceptable supportedIDs ok i" "i \<in> set ids" by (auto simp: find_Some_iff)
  moreover have "i = cs_id c" using i by (simp add: cipherSuiteByID_iff)
  ultimately show "cs_id c \<in> set ids" "cs_id c \<in> set supportedIDs" "cipherSuiteByID (cs_id c) = Some c" "ok c"
    using i by (auto simp: acceptable_def)
qed

text \<open>Preferences do not matter for whether there is a suite: one that one list of filters accepts is found by any weaker one.\<close>

lemma selectCipherSuite_transfer:
  assumes "selectCipherSuite offered (Config_supportedCipherSuites config) ok = Some c" and "ok' c"
  shows "\<exists>c'. selectCipherSuite (Config_cipherSuites config a) offered ok' = Some c'"
proof -
  note c = selectCipherSuite_exists [OF assms(1)]
  have "acceptable offered ok' (cs_id c)" using c assms(2) by (auto simp: acceptable_def)
  moreover have "cs_id c \<in> set (Config_cipherSuites config a)" using c(2) by (simp add: Config_cipherSuites_set)
  ultimately obtain i where "find (acceptable offered ok') (Config_cipherSuites config a) = Some i" "acceptable offered ok' i"
    by (metis find_None_iff find_Some_iff not_None_eq)
  then show ?thesis by (auto simp: selectCipherSuite_find acceptable_def)
qed

lemma supportsRSAFallback_suite:
  assumes "supportsRSAFallback (he_ka E) (hb_config s) (c_vers (hb_c s)) (clientHelloInfo (hb_c s) (h_clientHello s)) cert err = None"
    and "classified E cert s"
  shows "\<exists>c. selectCipherSuite (Config_cipherSuites (hb_config s) a) (ch_cipherSuites (h_clientHello s)) (cipherSuiteOk s) = Some c"
proof -
  have dec: "s_rsaDecryptOk s" and "\<exists>c. selectCipherSuite (ch_cipherSuites (h_clientHello s)) (Config_supportedCipherSuites (hb_config s))
      (\<lambda>c'. \<not> hasFlag c' suiteECDHE \<and> \<not> (c_vers (hb_c s) < VersionTLS12 \<and> hasFlag c' suiteTLS12)) = Some c"
    using assms by (auto simp: supportsRSAFallback_def classified_def decryptionKey_def clientHelloInfo_def
        split: if_split_asm option.split_asm publicKey.split_asm)
  then obtain c where c: "selectCipherSuite (ch_cipherSuites (h_clientHello s)) (Config_supportedCipherSuites (hb_config s))
      (\<lambda>c'. \<not> hasFlag c' suiteECDHE \<and> \<not> (c_vers (hb_c s) < VersionTLS12 \<and> hasFlag c' suiteTLS12)) = Some c" by blast
  from selectCipherSuite_exists(4) [OF this] dec have "cipherSuiteOk s c" by (simp add: cipherSuiteOk_def)
  then show ?thesis by (rule selectCipherSuite_transfer [OF c])
qed

lemma supportsKeyExchange_suite:
  assumes "supportsKeyExchange (he_ka E) (hb_config s) (c_vers (hb_c s)) (clientHelloInfo (hb_c s) (h_clientHello s)) cert = None"
    and cl: "classified E cert s"
  shows "\<exists>c. selectCipherSuite (Config_cipherSuites (hb_config s) a) (ch_cipherSuites (h_clientHello s)) (cipherSuiteOk s) = Some c"
proof (cases "\<exists>err. supportsRSAFallback (he_ka E) (hb_config s) (c_vers (hb_c s)) (clientHelloInfo (hb_c s) (h_clientHello s)) cert err = None")
  case True
  with supportsRSAFallback_suite [OF _ cl] show ?thesis by blast
next
  case False
  then have no: "supportsRSAFallback (he_ka E) (hb_config s) (c_vers (hb_c s)) (clientHelloInfo (hb_c s) (h_clientHello s)) cert err \<noteq> None"
    for err by simp
  have e: "supportsECDHE (hb_config s) (c_vers (hb_c s)) (chi_SupportedCurves (clientHelloInfo (hb_c s) (h_clientHello s)))
      (chi_SupportedPoints (clientHelloInfo (hb_c s) (h_clientHello s))) = Inr (s_ecdheOk s)"
    using cl by (simp add: classified_def clientHelloInfo_def)
  have ecdhe: "s_ecdheOk s" using assms(1) e by (auto simp: supportsKeyExchange_def no split: if_split_asm)
  obtain b where b: "signerSuite (he_ka E) (hb_config s) (c_vers (hb_c s)) (clientHelloInfo (hb_c s) (h_clientHello s)) cert = Inr b"
    using assms(1) e ecdhe
    by (cases "signerSuite (he_ka E) (hb_config s) (c_vers (hb_c s)) (clientHelloInfo (hb_c s) (h_clientHello s)) cert")
      (auto simp: supportsKeyExchange_def signerSuite_def no split: if_split_asm option.split_asm publicKey.split_asm)
  have k: "if b then s_ecSignOk s else s_rsaSignOk s"
    using b cl by (auto simp: signerSuite_def classified_def signingKey_def split: if_split_asm option.split_asm publicKey.split_asm)
  have cs: "chi_CipherSuites (clientHelloInfo (hb_c s) (h_clientHello s)) = ch_cipherSuites (h_clientHello s)" by (simp add: clientHelloInfo_def)
  obtain c where c: "selectCipherSuite (ch_cipherSuites (h_clientHello s)) (Config_supportedCipherSuites (hb_config s))
      (signedSuiteOk (c_vers (hb_c s)) b) = Some c"
    using assms(1) e ecdhe b by (auto simp: supportsKeyExchange_def cs no split: option.split_asm)
  from selectCipherSuite_exists(4) [OF this] ecdhe k have "cipherSuiteOk s c"
    by (auto simp: cipherSuiteOk_def signedSuiteOk_def split: if_split_asm)
  then show ?thesis by (rule selectCipherSuite_transfer [OF c])
qed


definition served_sample :: serverHandshakeState where
  "served_sample = server12_sample\<lparr>s_rsaDecryptOk := True, s_rsaSignOk := True\<rparr>"

lemma served_sample_fields [simp]:
  "h_clientHello served_sample = h_clientHello server12_sample" "hb_config served_sample = config12_sample"
  "c_vers (hb_c served_sample) = VersionTLS12" "\<not> s_ecdheOk served_sample" "\<not> s_ecSignOk served_sample"
  "s_rsaDecryptOk served_sample" "s_rsaSignOk served_sample" "he_ka hsEnv_sample = kaPkgs_sample"
  "ka_Decrypter kaPkgs_sample k = Some (RSAPublicKey 0 0)"
  "ch_cipherSuites (h_clientHello server12_sample) = [TLS_RSA_WITH_AES_128_GCM_SHA256]"
  "ch_supportedCurves (h_clientHello server12_sample) = []" "ch_supportedPoints (h_clientHello server12_sample) = []"
  "ch_supportedVersions (h_clientHello server12_sample) = []" "ch_vers (h_clientHello server12_sample) = VersionTLS12"
  "ch_serverName (h_clientHello server12_sample) = []" "ch_supportedSignatureAlgorithms (h_clientHello server12_sample) = []"
  by (simp_all add: served_sample_def server12_sample_def serverHandshakeState_new_def conn12_sample_def hsEnv_sample_def kaPkgs_sample_def
      clientHelloMsg_zero_def)


section \<open>Where the checks disagree\<close>

text \<open>
  \<open>SupportsCertificate\<close> approves an RSA certificate for the RSA key exchange when the client shares no signature scheme with it,
  but the server's preference order picks an ECDHE\_RSA suite when the client offers one, and the handshake then fails for
  want of a signature scheme.
\<close>

definition unsigned_hello :: clientHelloMsg where
  "unsigned_hello = clientHelloMsg_zero\<lparr>ch_vers := VersionTLS12, ch_supportedCurves := [X25519],
     ch_cipherSuites := [TLS_ECDHE_RSA_WITH_AES_128_GCM_SHA256, TLS_RSA_WITH_AES_128_GCM_SHA256],
     ch_supportedSignatureAlgorithms := [ECDSAWithP256AndSHA256]\<rparr>"

definition unsigned_config :: Config where
  "unsigned_config = emptyConfig\<lparr>cfg_CipherSuites := Some [TLS_ECDHE_RSA_WITH_AES_128_GCM_SHA256, TLS_RSA_WITH_AES_128_GCM_SHA256]\<rparr>"

lemma no_rsa_scheme:
  assumes "PrivateKey cert = SignerKey t (RSAPublicKey N e)" and "SupportedSignatureAlgorithms cert = None"
  shows "\<exists>err. selectSignatureScheme VersionTLS12 cert [ECDSAWithP256AndSHA256] = Inl err"
proof -
  have "ECDSAWithP256AndSHA256 \<notin> set (map fst rsaSignatureSchemes)" by code_simp
  then have "ECDSAWithP256AndSHA256 \<notin> set (signatureSchemesForPublicKey VersionTLS12 (RSAPublicKey N e))"
    by (auto simp: signatureSchemesForPublicKey_def Let_def)
  then have "ECDSAWithP256AndSHA256 \<notin> set (certificateAlgs VersionTLS12 cert (RSAPublicKey N e))"
    using assms(2) by (auto simp: certificateAlgs_def Let_def)
  then show ?thesis
    using assms(1) by (auto simp: selectSignatureScheme_def asSigner_def isSupportedSignatureAlgorithm_def Let_def)
qed

lemma approved_without_signature:
  assumes cert: "PrivateKey cert = SignerKey t (RSAPublicKey N e)" "SupportedSignatureAlgorithms cert = None"
    and dec: "ka_Decrypter K (PrivateKey cert) = Some (RSAPublicKey N e)" and c: "c_config c = unsigned_config" and a: "s_ecdheOk s" "s_rsaSignOk s"
    and v: "c_vers (hb_c s) = VersionTLS12" and s: "hb_config s = unsigned_config"
  shows "SupportsCertificate K X (clientHelloInfo c unsigned_hello) cert = Some None" (is ?approved)
    and "\<exists>suite. selectCipherSuite (Config_cipherSuites unsigned_config True) (ch_cipherSuites unsigned_hello) (cipherSuiteOk s) = Some suite \<and>
      cs_ka suite = ecdheRSAKA" (is ?picked)
    and "\<exists>ka err. generateServerKeyExchange K unsigned_config rand cert unsigned_hello sh (newKeyAgreement ecdheRSAKA VersionTLS12) = (ka, Inl err)"
      (is ?fails)
proof -
  obtain err where none: "selectSignatureScheme VersionTLS12 cert [ECDSAWithP256AndSHA256] = Inl err" using no_rsa_scheme [OF cert] by blast
  have mv: "mutualVersion (Some unsigned_config) False (supportedVersionsFromMax VersionTLS12) = Some (VersionTLS12, True)" by code_simp
  have "selectCipherSuite [TLS_ECDHE_RSA_WITH_AES_128_GCM_SHA256, TLS_RSA_WITH_AES_128_GCM_SHA256] (Config_supportedCipherSuites unsigned_config)
      (\<lambda>c. \<not> hasFlag c suiteECDHE \<and> \<not> (VersionTLS12 < VersionTLS12 \<and> hasFlag c suiteTLS12)) \<noteq> None" by code_simp
  then have "supportsRSAFallback K unsigned_config VersionTLS12 (clientHelloInfo c unsigned_hello) cert err = None"
    using dec by (auto simp: supportsRSAFallback_def clientHelloInfo_def unsigned_hello_def split: option.split)
  moreover have "chi_config (clientHelloInfo c unsigned_hello) = Some unsigned_config" "chi_ServerName (clientHelloInfo c unsigned_hello) = []"
      "chi_SupportedVersions (clientHelloInfo c unsigned_hello) = supportedVersionsFromMax VersionTLS12"
      "chi_SignatureSchemes (clientHelloInfo c unsigned_hello) = [ECDSAWithP256AndSHA256]"
    by (simp_all add: clientHelloInfo_def unsigned_hello_def clientHelloMsg_zero_def c)
  ultimately show ?approved using none mv by (simp add: SupportsCertificate_def validForName_def)
  have "case cipherSuiteByID TLS_ECDHE_RSA_WITH_AES_128_GCM_SHA256 of None \<Rightarrow> False
      | Some suite \<Rightarrow> cs_ka suite = ecdheRSAKA \<and> hasFlag suite suiteECDHE \<and> \<not> hasFlag suite suiteECSign" by code_simp
  then obtain suite where suite: "cipherSuiteByID TLS_ECDHE_RSA_WITH_AES_128_GCM_SHA256 = Some suite" "cs_ka suite = ecdheRSAKA"
    "hasFlag suite suiteECDHE" "\<not> hasFlag suite suiteECSign" by (auto split: option.split_asm)
  then have ok: "cipherSuiteOk s suite" by (simp add: cipherSuiteOk_def a v)
  have "Config_cipherSuites unsigned_config True = [TLS_ECDHE_RSA_WITH_AES_128_GCM_SHA256, TLS_RSA_WITH_AES_128_GCM_SHA256]" by code_simp
  then show ?picked using suite ok by (simp add: unsigned_hello_def)
  have "supportsCurve (Some unsigned_config) VersionTLS12 X25519" by code_simp
  then show ?fails
    using none cert(1)
    by (auto simp: ecdhe_generateServerKeyExchange_def signServerParams_def unsigned_hello_def asSigner_def Let_def split: sum.split)
qed

text \<open>
  A ClientHello with the version number of TLS 1.3 and no supported\_versions extension is answered with TLS 1.2, but
  \<open>clientHelloInfo\<close> tells callbacks and \<open>SupportsCertificate\<close> that the client supports TLS 1.3.
\<close>

lemma hello_info_claims_tls13:
  assumes "ch_vers hello = VersionTLS13" and "ch_supportedVersions hello = []" and "c_config c = emptyConfig"
  shows "VersionTLS13 \<in> set (chi_SupportedVersions (clientHelloInfo c hello))"
    and "mutualVersion (Some emptyConfig) False (chi_SupportedVersions (clientHelloInfo c hello)) = Some (VersionTLS13, True)"
    and "mutualVersion (Some emptyConfig) False (clientVersionsOf hello) = Some (VersionTLS12, True)"
proof -
  have "VersionTLS13 \<in> set (supportedVersionsFromMax VersionTLS13)" by code_simp
  moreover have "mutualVersion (Some emptyConfig) False (supportedVersionsFromMax VersionTLS13) = Some (VersionTLS13, True)" by code_simp
  moreover have "mutualVersion (Some emptyConfig) False (supportedVersionsFromMax VersionTLS12) = Some (VersionTLS12, True)" by code_simp
  ultimately show "VersionTLS13 \<in> set (chi_SupportedVersions (clientHelloInfo c hello))"
    "mutualVersion (Some emptyConfig) False (chi_SupportedVersions (clientHelloInfo c hello)) = Some (VersionTLS13, True)"
    "mutualVersion (Some emptyConfig) False (clientVersionsOf hello) = Some (VersionTLS12, True)"
    using assms by (simp_all add: clientHelloInfo_def clientVersionsOf_def)
qed

end
