(* ===== verification/QuicWait.thy ===== *)
theory QuicWait
  imports Frame
begin

text \<open>
  The operations of quic.go by which a handshake hands events to the transport and waits for its answers: the loops around
  \<open>quicWaitForSignal\<close> end because every turn takes a signal.
\<close>

section \<open>Waiting for the transport\<close>

function quicWaitUntil :: "(quicState \<Rightarrow> bool) \<Rightarrow> Conn \<Rightarrow> (goerror option \<times> Conn) option" where
  "quicWaitUntil ready c = (case c_quic c of
     None \<Rightarrow> None
   | Some q \<Rightarrow>
       if ready q then Some (None, c)
       else case quicWaitForSignal c of
              None \<Rightarrow> None
            | Some (Some e, c) \<Rightarrow> Some (Some e, c)
            | Some (None, c) \<Rightarrow> quicWaitUntil ready c)"
  by pat_completeness auto
termination
  by (relation "measure (\<lambda>(ready, c). length (signals c))") (auto dest: quicWaitForSignal_signals)

declare quicWaitUntil.simps [simp del]

lemma quicWaitUntil_io [io_keeps]: "quicWaitUntil ready c = Some (r, c') \<Longrightarrow> io_only c c'"
proof (induction ready c rule: quicWaitUntil.induct)
  case (1 ready c)
  from "1.prems" obtain q where q: "c_quic c = Some q" by (subst (asm) quicWaitUntil.simps) (auto split: option.split_asm)
  show ?case
  proof (cases "ready q")
    case True
    with "1.prems" q show ?thesis by (subst (asm) quicWaitUntil.simps) simp
  next
    case False
    with "1.prems" q obtain e c1 where w: "quicWaitForSignal c = Some (e, c1)"
      by (subst (asm) quicWaitUntil.simps) (auto split: option.split_asm)
    note io = quicWaitForSignal_io [OF w]
    show ?thesis
    proof (cases e)
      case None
      with "1.prems" False w q have "quicWaitUntil ready c1 = Some (r, c')" by (subst (asm) quicWaitUntil.simps) simp
      with "1.IH" [OF q False w [unfolded None]] io_only_trans [OF io] show ?thesis by blast
    next
      case (Some x)
      with "1.prems" False w q io show ?thesis by (subst (asm) quicWaitUntil.simps) simp
    qed
  qed
qed

lemma quicWaitUntil_ready: "quicWaitUntil ready c = Some (None, c') \<Longrightarrow> \<exists>q. c_quic c' = Some q \<and> ready q"
proof (induction ready c rule: quicWaitUntil.induct)
  case (1 ready c)
  from "1.prems" obtain q where q: "c_quic c = Some q" by (subst (asm) quicWaitUntil.simps) (auto split: option.split_asm)
  show ?case
  proof (cases "ready q")
    case True
    with "1.prems" q show ?thesis by (subst (asm) quicWaitUntil.simps) auto
  next
    case False
    with "1.prems" q obtain c1 where w: "quicWaitForSignal c = Some (None, c1)" and "quicWaitUntil ready c1 = Some (None, c')"
      by (subst (asm) quicWaitUntil.simps) (auto split: option.split_asm)
    with "1.IH" [OF q False w] show ?thesis by blast
  qed
qed

section \<open>Events of the handshake\<close>

definition quicEvent :: "QUICEvent \<Rightarrow> Conn \<Rightarrow> Conn" where
  "quicEvent e c = c\<lparr>c_quic := map_option (quicAddEvent e) (c_quic c)\<rparr>"

definition quicResumeSession :: "SessionState \<Rightarrow> Conn \<Rightarrow> (goerror option \<times> Conn) option" where
  "quicResumeSession session c =
     (let c = quicEvent (QUICEvent_zero\<lparr>qe_Kind := QUICResumeSession, qe_SessionState := Some session\<rparr>) c;
          c = c\<lparr>c_quic := map_option (qs_waitingForDrain_update (\<lambda>_. True)) (c_quic c)\<rparr>
      in quicWaitUntil (\<lambda>q. \<not> qs_waitingForDrain q) c)"

definition quicSetTransportParameters :: "bytes \<Rightarrow> Conn \<Rightarrow> Conn" where
  "quicSetTransportParameters params c = quicEvent (QUICEvent_zero\<lparr>qe_Kind := QUICTransportParameters, qe_Data := params\<rparr>) c"

definition quicGetTransportParameters :: "Conn \<Rightarrow> (bytes res \<times> Conn) option" where
  "quicGetTransportParameters c = (case c_quic c of
     None \<Rightarrow> None
   | Some q \<Rightarrow>
       (let c = (if qs_transportParams q = None
                 then quicEvent (QUICEvent_zero\<lparr>qe_Kind := QUICTransportParametersRequired\<rparr>) c else c)
        in case quicWaitUntil (\<lambda>q. qs_transportParams q \<noteq> None) c of
             None \<Rightarrow> None
           | Some (Some e, c) \<Rightarrow> Some (Inl e, c)
           | Some (None, c) \<Rightarrow> map_option (\<lambda>p. (Inr p, c)) (Option.bind (c_quic c) qs_transportParams)))"

definition quicRejectedEarlyData :: "Conn \<Rightarrow> Conn" where
  "quicRejectedEarlyData c = quicEvent (QUICEvent_zero\<lparr>qe_Kind := QUICRejectedEarlyData\<rparr>) c"

lemma quicEvent_io [simp]: "io_only c (quicEvent e c') \<longleftrightarrow> io_only c c'"
  by (simp add: quicEvent_def)

lemma quicResumeSession_io [io_keeps]: "quicResumeSession session c = Some (r, c') \<Longrightarrow> io_only c c'"
  unfolding quicResumeSession_def Let_def by (drule quicWaitUntil_io) (auto simp: io_only_def io_blank_def quicEvent_def)

lemma quicGetTransportParameters_io [io_keeps]: "quicGetTransportParameters c = Some (r, c') \<Longrightarrow> io_only c c'"
proof -
  have "quicWaitUntil P (quicEvent e c) = Some (r, c') \<Longrightarrow> io_only c c'" for P e r
    using quicWaitUntil_io io_only_trans quicEvent_io io_only_refl by metis
  then show "quicGetTransportParameters c = Some (r, c') \<Longrightarrow> io_only c c'"
    unfolding quicGetTransportParameters_def Let_def
    by (auto split: option.split_asm if_split_asm dest: quicWaitUntil_io)
qed

lemma quicSet_io [simp]:
  "io_only c (quicSetTransportParameters p c') \<longleftrightarrow> io_only c c'" "io_only c (quicRejectedEarlyData c') \<longleftrightarrow> io_only c c'"
  "io_only c (quicSetWriteSecret c' l i w) \<longleftrightarrow> io_only c c'"
  by (simp_all add: quicSetTransportParameters_def quicRejectedEarlyData_def quicSetWriteSecret_def)

end
