(* ===== verification/ClientSetup.thy ===== *)
theory ClientSetup
  imports Server12 QuicWait
begin

text \<open>
  The part of handshake\_client.go that comes before a version is known: the ClientHello, the cached session that it offers,
  the version that the server picked with the check for a downgrade, and the verification of a server's certificates. The
  lemmas show that a ClientHello is well formed whatever the configuration, which sessions are offered, that a downgrade
  is noticed, and what a verified certificate satisfies.
\<close>

section \<open>Server names\<close>

text \<open>\<open>strings.LastIndex\<close> of a byte, \<open>None\<close> for -1.\<close>

definition lastIndexByte :: "u8 \<Rightarrow> bytes \<Rightarrow> nat option" where
  "lastIndexByte b w = (case filter (\<lambda>i. w ! i = b) [0..<length w] of [] \<Rightarrow> None | is \<Rightarrow> Some (last is))"

definition hostnameInSNI :: "(bytes \<Rightarrow> bool) \<Rightarrow> bytes \<Rightarrow> bytes" where
  "hostnameInSNI parseIP name =
     (let host = (if length name > 0 \<and> name ! 0 = 91 \<and> name ! (length name - 1) = 93 then butlast (tl name) else name);
          host = (case lastIndexByte 37 host of Some i \<Rightarrow> if i > 0 then take i host else host | None \<Rightarrow> host)
      in if parseIP host then [] else rev (dropWhile (\<lambda>b. b = 46) (rev name)))"

section \<open>The ClientHello\<close>

text \<open>The loop over \<open>NextProtos\<close>: the length of the extension.\<close>

fun nextProtosLength :: "bytes list \<Rightarrow> nat \<Rightarrow> nat res" where
  "nextProtosLength [] n = Inr n"
| "nextProtosLength (proto # protos) n =
     (if length proto = 0 \<or> length proto > 255 then Inl (ErrorsNew ''tls: invalid NextProtos value'')
      else nextProtosLength protos (n + 1 + length proto))"

definition clientVersions :: "Config \<Rightarrow> u16 list res option" where
  "clientVersions config =
     (if length (cfg_ServerName config) = 0 \<and> \<not> cfg_InsecureSkipVerify config
      then Some (Inl (ErrorsNew ''tls: either ServerName or InsecureSkipVerify must be specified in the tls.Config''))
      else case nextProtosLength (cfg_NextProtos config) 0 of
        Inl e \<Rightarrow> Some (Inl e)
      | Inr n \<Rightarrow>
          if n > 0xffff then Some (Inl (ErrorsNew ''tls: NextProtos values too large''))
          else case Config_supportedVersions (Some config) True of
            None \<Rightarrow> None
          | Some vs \<Rightarrow> if length vs = 0 then Some (Inl (ErrorsNew ''tls: no supported versions satisfy MinVersion and MaxVersion''))
              else Some (Inr vs))"

text \<open>\<open>slices.DeleteFunc\<close> of the suites that need TLS 1.2; an unknown suite would be a nil dereference.\<close>

fun withoutTLS12 :: "u16 list \<Rightarrow> u16 list option" where
  "withoutTLS12 [] = Some []"
| "withoutTLS12 (i # is) = (case cipherSuiteByID i of
     None \<Rightarrow> None
   | Some c \<Rightarrow> map_option (\<lambda>l. if hasFlag c suiteTLS12 then l else i # l) (withoutTLS12 is))"

definition helloFields :: "hsEnv \<Rightarrow> Conn \<Rightarrow> u16 list \<Rightarrow> clientHelloMsg" where
  "helloFields E c vs = (let config = c_config c; maxVersion = hd vs in
     clientHelloMsg_zero\<lparr>ch_vers := (if maxVersion > VersionTLS12 then VersionTLS12 else maxVersion),
       ch_compressionMethods := [compressionNone], ch_extendedMasterSecret := True, ch_ocspStapling := True, ch_scts := True,
       ch_serverName := hostnameInSNI (he_ParseIP E) (ascii (cfg_ServerName config)),
       ch_supportedCurves := curvePreferences (Some config) maxVersion, ch_supportedPoints := [pointFormatUncompressed],
       ch_secureRenegotiationSupported := True, ch_alpnProtocols := cfg_NextProtos config, ch_supportedVersions := vs,
       ch_secureRenegotiation := (if c_handshakes c > 0 then c_clientFinished c else [])\<rparr>)"

definition helloSuites :: "Config \<Rightarrow> u16 \<Rightarrow> u16 list option" where
  "helloSuites config maxVersion = (let l = Config_cipherSuites config hasAESGCMHardwareSupport in
     if maxVersion < VersionTLS12 then withoutTLS12 l else Some l)"

definition shortRand :: "goerror \<Rightarrow> goerror" where
  "shortRand e = TextError ''tls: short read from Rand: '' e"

definition helloRandom :: "clientHelloMsg \<Rightarrow> ('z hsBase_scheme, clientHelloMsg) hs" where
  "helloRandom hello = hsBind (hsMapErr shortRand (hsRand 32)) (\<lambda>random.
     hsBind (hsGet (\<lambda>s. c_quic (hb_c s) = None)) (\<lambda>tcp.
     hsBind (if tcp then hsMapErr shortRand (hsRand 32) else hsRet []) (\<lambda>sessionId.
     hsRet (hello\<lparr>ch_random := random, ch_sessionId := sessionId\<rparr>))))"

section \<open>Key shares\<close>

text \<open>The dispatch of the interface \<open>keyExchange\<close>.\<close>

definition keyShares :: "keyExchange \<Rightarrow> bytes \<Rightarrow> (keySharePrivateKeys \<times> keyShare list \<times> bytes) res" where
  "keyShares ke rand = (case ke of EcdhKE k \<Rightarrow> ecdh_keyShares k rand | HybridKE k \<Rightarrow> hybrid_keyShares k rand)"

definition exchangeFor :: "hsEnv \<Rightarrow> u16 \<Rightarrow> keyExchange res" where
  "exchangeFor E i = keyExchangeForCurveID (ka_curves (he_ka E)) (he_mlkem768 E) (he_mlkem1024 E) i"

definition hsKeyShares :: "keyExchange \<Rightarrow> ('z hsBase_scheme, keySharePrivateKeys \<times> keyShare list) hs" where
  "hsKeyShares ke = hsBind (hsGet (\<lambda>s. c_rand (hb_c s))) (\<lambda>rand. hsBind (hsRes (keyShares ke rand)) (\<lambda>(keys, shares, rand).
     hsBind (modConn (set_rand rand)) (\<lambda>_. hsRet (keys, shares))))"

text \<open>Suites, signature algorithms and key shares that depend on the range of versions.\<close>

definition suites13 :: "u16 list" where
  "suites13 = (if fips140tlsRequired then allowedCipherSuitesTLS13FIPS
     else if hasAESGCMHardwareSupport then defaultCipherSuitesTLS13 else defaultCipherSuitesTLS13NoAES)"

definition sendShares :: "hsEnv \<Rightarrow> clientHelloMsg \<Rightarrow> ('z hsBase_scheme, clientHelloMsg \<times> keySharePrivateKeys option) hs" where
  "sendShares E hello = (case ch_supportedCurves hello of
     [] \<Rightarrow> hsFail (ErrorsNew ''tls: no supported elliptic curves for ECDHE'')
   | curveID # _ \<Rightarrow>
       hsBind (hsRes (case exchangeFor E curveID of
           Inl _ \<Rightarrow> Inl (ErrorsNew ''tls: CurvePreferences includes unsupported curve'') | Inr ke \<Rightarrow> Inr ke)) (\<lambda>ke.
       hsBind (hsKeyShares ke) (\<lambda>(keys, shares).
       hsRet (hello\<lparr>ch_keyShares := (if length shares = 2 \<and> \<not> List.member (ch_supportedCurves hello) (ks_group (shares ! 1))
         then take 1 shares else shares)\<rparr>, Some keys))))"

definition helloShares :: "hsEnv \<Rightarrow> u16 list \<Rightarrow> clientHelloMsg \<Rightarrow>
    ('z hsBase_scheme, clientHelloMsg \<times> keySharePrivateKeys option) hs" where
  "helloShares E vs hello =
     (let maxVersion = hd vs; minVersion = last vs;
          hello = (if maxVersion \<ge> VersionTLS12 then hello\<lparr>ch_supportedSignatureAlgorithms := supportedSignatureAlgorithms minVersion,
            ch_supportedSignatureAlgorithmsCert := supportedSignatureAlgorithmsCert\<rparr> else hello)
      in if maxVersion < VersionTLS13 then hsRet (hello, None)
         else sendShares E (hello\<lparr>ch_cipherSuites := (if minVersion \<ge> VersionTLS13 then [] else ch_cipherSuites hello) @ suites13\<rparr>))"

definition helloQuic :: "clientHelloMsg \<Rightarrow> ('z hsBase_scheme, clientHelloMsg) hs" where
  "helloQuic hello = hsBind (hsGet (\<lambda>s. c_quic (hb_c s) \<noteq> None)) (\<lambda>quic.
     if quic then hsBind (liftConn quicGetTransportParameters) (\<lambda>p. hsRet (hello\<lparr>ch_quicTransportParameters := Some p\<rparr>))
     else hsRet hello)"

text \<open>The context of Encrypted Client Hello, when it is configured.\<close>

definition helloECH :: "('b, 'x) cryptobyte_scheme \<Rightarrow> hsEnv \<Rightarrow> clientHelloMsg \<Rightarrow>
    ('z hsBase_scheme, clientHelloMsg \<times> echClientContext option) hs" where
  "helloECH C E hello = hsBind (hsGet hb_config) (\<lambda>config. case cfg_EncryptedClientHelloConfigList config of
     None \<Rightarrow> hsRet (hello, None)
   | Some list \<Rightarrow>
       if cfg_MinVersion config \<noteq> 0 \<and> cfg_MinVersion config < VersionTLS13
       then hsFail (ErrorsNew ''tls: MinVersion must be >= VersionTLS13 if EncryptedClientHelloConfigList is populated'')
       else if cfg_MaxVersion config \<noteq> 0 \<and> cfg_MaxVersion config \<le> VersionTLS12
       then hsFail (ErrorsNew ''tls: MaxVersion must be >= VersionTLS13 if EncryptedClientHelloConfigList is populated'')
       else hsBind (hsOpt (parseECHConfigList C list)) (\<lambda>r. hsBind (hsRes r) (\<lambda>echConfigs.
         case pickECHConfig (he_hpke E) echConfigs of
           None \<Rightarrow> hsFail (ErrorsNew ''tls: EncryptedClientHelloConfigList contains no valid configs'')
         | Some (echConfig, echPK, kdf, aead) \<Rightarrow>
             hsBind (hsRes (hp_NewSender (he_hpke E) echPK kdf aead (echInfo (ecf_raw echConfig)))) (\<lambda>(encapsulatedKey, ctx).
             hsRet (hello\<lparr>ch_encryptedClientHello := [1], ch_supportedPoints := [], ch_ticketSupported := False,
                 ch_secureRenegotiationSupported := False, ch_extendedMasterSecret := False\<rparr>,
               Some \<lparr>ecx_config = echConfig, ecx_hpkeContext = ctx, ecx_encapsulatedKey = encapsulatedKey, ecx_innerHello = None,
                 ecx_innerTranscript = None, ecx_kdfID = kdf, ecx_aeadID = aead, ecx_echRejected = False, ecx_retryConfigs = None\<rparr>)))))"

definition makeClientHello :: "('b, 'x) cryptobyte_scheme \<Rightarrow> hsEnv \<Rightarrow>
    ('z hsBase_scheme, clientHelloMsg \<times> keySharePrivateKeys option \<times> echClientContext option) hs" where
  "makeClientHello C E = hsBind (hsGet hb_c) (\<lambda>c.
     hsBind (hsOpt (clientVersions (c_config c))) (\<lambda>r. hsBind (hsRes r) (\<lambda>vs.
     hsBind (hsOpt (helloSuites (c_config c) (hd vs))) (\<lambda>suites.
     hsBind (helloRandom ((helloFields E c vs)\<lparr>ch_cipherSuites := suites\<rparr>)) (\<lambda>hello.
     hsBind (helloShares E vs hello) (\<lambda>(hello, keys).
     hsBind (helloQuic hello) (\<lambda>hello.
     hsBind (helloECH C E hello) (\<lambda>(hello, ech).
     hsRet (hello, keys, ech)))))))))"

section \<open>The session that a ClientHello offers\<close>

definition cacheGet :: "string \<Rightarrow> ('z hsBase_scheme, ClientSessionState option) hs" where
  "cacheGet key = hsBind (hsGet (\<lambda>s. c_ClientSessionCache (hb_c s))) (\<lambda>cache. hsBind (hsOpt cache) (\<lambda>cache.
     hsBind (hsOpt (lru_Get cache key)) (\<lambda>((cs, ok), cache).
     hsBind (modConn (\<lambda>c. c\<lparr>c_ClientSessionCache := Some cache\<rparr>)) (\<lambda>_. hsRet (if ok then cs else None)))))"

definition cachePut :: "string \<Rightarrow> ClientSessionState option \<Rightarrow> ('z hsBase_scheme, unit) hs" where
  "cachePut key cs = hsBind (hsGet (\<lambda>s. c_ClientSessionCache (hb_c s))) (\<lambda>cache. hsBind (hsOpt cache) (\<lambda>cache.
     hsBind (hsOpt (lru_Put cache key cs)) (\<lambda>cache. modConn (\<lambda>c. c\<lparr>c_ClientSessionCache := Some cache\<rparr>))))"

definition serverVerifyOptions :: "hsEnv \<Rightarrow> configExt \<Rightarrow> certPool option \<Rightarrow> VerifyOptions" where
  "serverVerifyOptions E x pool = \<lparr>vo_DNSName = [], vo_Intermediates = pool, vo_Roots = cx_RootCAs x, vo_CurrentTime = he_now E,
     vo_KeyUsages = [ExtKeyUsageServerAuth]\<rparr>"

definition chainsStillValid :: "hsEnv \<Rightarrow> configExt \<Rightarrow> SessionState \<Rightarrow> bool" where
  "chainsStillValid E x session = anyValidVerifiedChain (px_fullVerify (he_x509 E))
     (\<lambda>cert pool. case px_Verify (he_x509 E) cert (serverVerifyOptions E x pool) of Inl _ \<Rightarrow> False | Inr _ \<Rightarrow> True)
     (he_now E) (sn_verifiedChains session)"

text \<open>The hash of a suite of TLS 1.3, as its number in the table of suites.\<close>

definition suiteHash13 :: "cipherSuiteTLS13 \<Rightarrow> cryptoHash" where
  "suiteHash13 suite = (if cs13_id suite = TLS_AES_256_GCM_SHA384 then SHA384 else SHA256)"

text \<open>
  What becomes of a cached session: it is offered, it stays in the cache unused, or it is removed. \<open>None\<close> is the panic on a
  session without certificates.
\<close>

datatype sessionVerdict = OfferSession | SkipSession | EvictSession

definition judgeSession :: "hsEnv \<Rightarrow> Config \<Rightarrow> configExt \<Rightarrow> clientHelloMsg \<Rightarrow> SessionState \<Rightarrow> sessionVerdict option" where
  "judgeSession E config x hello session =
     (if \<not> list_ex (\<lambda>v. v = sn_version session) (ch_supportedVersions hello) then Some SkipSession
      else case sn_peerCertificates session of
        [] \<Rightarrow> None
      | cert # _ \<Rightarrow>
          if he_now E > crt_NotAfter cert then Some EvictSession
          else if \<not> cfg_InsecureSkipVerify config \<and> length (sn_verifiedChains session) = 0 then Some SkipSession
          else if \<not> cfg_InsecureSkipVerify config \<and> px_VerifyHostname (he_x509 E) cert (ascii (cfg_ServerName config)) \<noteq> None
          then Some SkipSession
          else if \<not> cfg_InsecureSkipVerify config \<and> \<not> chainsStillValid E x session then Some EvictSession
          else if sn_version session \<noteq> VersionTLS13
          then if mutualCipherSuite (ch_cipherSuites hello) (sn_cipherSuite session) = None then Some SkipSession
               else if \<not> sn_extMasterSecret session \<and> fips140tlsRequired then Some SkipSession
               else Some OfferSession
          else if he_now E > unixTime (sn_useBy session) then Some EvictSession
          else case cipherSuiteTLS13ByID (he_suites E) (sn_cipherSuite session) of
            None \<Rightarrow> Some SkipSession
          | Some cipherSuite \<Rightarrow>
              if \<not> list_ex (\<lambda>offeredID. case cipherSuiteTLS13ByID (he_suites E) offeredID of
                     None \<Rightarrow> False | Some offered \<Rightarrow> suiteHash13 offered = suiteHash13 cipherSuite) (ch_cipherSuites hello)
              then Some SkipSession
              else Some OfferSession)"

text \<open>\<open>t.Sub(u)\<close> saturates at the ends of a 64-bit duration, and its division truncates.\<close>

definition subTime :: "int \<Rightarrow> int \<Rightarrow> int" where
  "subTime t u = max (- (2 ^ 63)) (min (2 ^ 63 - 1) (t - u))"

definition ticketAgeOf :: "int \<Rightarrow> SessionState \<Rightarrow> u32" where
  "ticketAgeOf now session =
     (let ticketAge = subTime now (unixTime (sn_createdAt session));
          millis = (if ticketAge \<ge> 0 then ticketAge div 1000000 else - (- ticketAge div 1000000))
      in word_of_int millis + sn_ageAdd session)"

text \<open>The pskBinder over the marshalled hello behind what the transcript already holds.\<close>

definition computeAndUpdatePSK :: "('b, 'x) cryptobyte_scheme \<Rightarrow> cipherSuiteTLS13 \<Rightarrow> clientHelloMsg \<Rightarrow> bytes \<Rightarrow> hashState \<Rightarrow>
    clientHelloMsg res option" where
  "computeAndUpdatePSK C suite m binderKey transcript =
     (case clientHelloMsg_marshalWithoutBinders C m of
        None \<Rightarrow> None
      | Some (Inl e) \<Rightarrow> Some (Inl e)
      | Some (Inr helloBytes) \<Rightarrow>
          map_option (\<lambda>pskBinder. clientHelloMsg_updateBinders m [pskBinder]) (finishedHash13 C suite binderKey (hs_Write transcript helloBytes)))"

abbreviation pskModePlain :: u8 where "pskModePlain \<equiv> 0"
abbreviation pskModeDHE :: u8 where "pskModeDHE \<equiv> 1"

text \<open>For QUIC: the event, and whether early data can be offered.\<close>

definition quicEarlyData :: "hsEnv \<Rightarrow> clientHelloMsg \<Rightarrow> SessionState \<Rightarrow> ('z hsBase_scheme, clientHelloMsg \<times> SessionState) hs" where
  "quicEarlyData E hello session = hsBind (hsGet (\<lambda>s. c_quic (hb_c s))) (\<lambda>quic. case quic of
     None \<Rightarrow> hsRet (hello, session)
   | Some q \<Rightarrow>
       hsBind (if qs_enableSessionEvents q
               then (\<lambda>s. case quicResumeSession session (hb_c s) of
                       None \<Rightarrow> None | Some (_, c) \<Rightarrow> Some (Inr (he_onResume E session), s\<lparr>hb_c := c\<rparr>))
               else hsRet session) (\<lambda>session.
       hsRet (if sn_EarlyData session \<and> mutualCipherSuiteTLS13 (he_suites E) (ch_cipherSuites hello) (sn_cipherSuite session) \<noteq> None \<and>
                list_ex (\<lambda>alpn. alpn = sn_alpnProtocol session) (ch_alpnProtocols hello)
              then hello\<lparr>ch_earlyData := True\<rparr> else hello, session)))"

text \<open>A session that is offered in TLS 1.3: the identity with its pskBinder, and the early secret.\<close>

definition offerPSK :: "('b, 'x) cryptobyte_scheme \<Rightarrow> hsEnv \<Rightarrow> clientHelloMsg \<Rightarrow> SessionState \<Rightarrow>
    ('z hsBase_scheme, clientHelloMsg \<times> SessionState option \<times> EarlySecret option \<times> bytes) hs" where
  "offerPSK C E hello session = hsBind (hsOpt (cipherSuiteTLS13ByID (he_suites E) (sn_cipherSuite session))) (\<lambda>suite.
     hsBind (quicEarlyData E hello session) (\<lambda>(hello, session).
     let hello = hello\<lparr>ch_pskIdentities := [\<lparr>psk_label = sn_ticket session, psk_obfuscatedTicketAge = ticketAgeOf (he_now E) session\<rparr>],
           ch_pskBinders := [replicate (h_Size (cs13_hash suite)) 0]\<rparr>;
         earlySecret = NewEarlySecret (cs13_hash suite) (Some (sn_secret session))
     in hsBind (hsOpt (EarlySecret_ResumptionBinderKey C earlySecret)) (\<lambda>binderKey.
        hsBind (hsOpt (computeAndUpdatePSK C suite hello binderKey (hs_new (cs13_hash suite)))) (\<lambda>r.
        hsBind (hsRes r) (\<lambda>hello. hsRet (hello, Some session, Some earlySecret, binderKey))))))"

text \<open>What is done with the cached session.\<close>

definition useSession :: "('b, 'x) cryptobyte_scheme \<Rightarrow> hsEnv \<Rightarrow> clientHelloMsg \<Rightarrow> string \<Rightarrow> SessionState \<Rightarrow>
    ('z hsBase_scheme, clientHelloMsg \<times> SessionState option \<times> EarlySecret option \<times> bytes) hs" where
  "useSession C E hello cacheKey session = hsBind (hsGet id) (\<lambda>s.
     hsBind (hsOpt (judgeSession E (hb_config s) (hb_x s) hello session)) (\<lambda>verdict. case verdict of
       SkipSession \<Rightarrow> hsRet (hello, None, None, [])
     | EvictSession \<Rightarrow> hsBind (cachePut cacheKey None) (\<lambda>_. hsRet (hello, None, None, []))
     | OfferSession \<Rightarrow>
         if sn_version session \<noteq> VersionTLS13
         then hsRet (hello\<lparr>ch_sessionTicket := sn_ticket session\<rparr>, Some session, None, [])
         else offerPSK C E hello session))"

text \<open>The hello that says which kinds of ticket are understood.\<close>

definition ticketHello :: "clientHelloMsg \<Rightarrow> clientHelloMsg option" where
  "ticketHello hello =
     (let echInner = (ch_encryptedClientHello hello = [1]);
          hello = hello\<lparr>ch_ticketSupported := (True \<and> \<not> echInner)\<rparr>
      in case ch_supportedVersions hello of
           [] \<Rightarrow> None
         | v # _ \<Rightarrow> Some (if v = VersionTLS13 then hello\<lparr>ch_pskModes := [pskModeDHE]\<rparr> else hello))"

text \<open>The hello as the call leaves it, the session with its secrets when one is offered.\<close>

definition loadSession :: "('b, 'x) cryptobyte_scheme \<Rightarrow> hsEnv \<Rightarrow> clientHelloMsg \<Rightarrow>
    ('z hsBase_scheme, clientHelloMsg \<times> SessionState option \<times> EarlySecret option \<times> bytes) hs" where
  "loadSession C E hello = hsBind (hsGet hb_c) (\<lambda>c.
     if cfg_SessionTicketsDisabled (c_config c) \<or> c_ClientSessionCache c = None then hsRet (hello, None, None, [])
     else hsBind (hsOpt (ticketHello hello)) (\<lambda>hello.
       let cacheKey = clientSessionCacheKey c in
       if c_handshakes c \<noteq> 0 \<or> cacheKey = [] then hsRet (hello, None, None, [])
       else hsBind (cacheGet cacheKey) (\<lambda>cs. case cs of
         None \<Rightarrow> hsRet (hello, None, None, [])
       | Some cs \<Rightarrow> hsBind (hsOpt cs) (useSession C E hello cacheKey))))"

section \<open>The version that the server picked\<close>

definition pickTLSVersion :: "serverHelloMsg \<Rightarrow> ('z hsBase_scheme, unit) hs" where
  "pickTLSVersion serverHello =
     (let peerVersion = (if sh_supportedVersion serverHello \<noteq> 0 then sh_supportedVersion serverHello else sh_vers serverHello)
      in hsBind (hsGet hb_config) (\<lambda>config. hsBind (hsOpt (mutualVersion (Some config) True [peerVersion])) (\<lambda>(vers, ok).
         if \<not> ok then abort alertProtocolVersion (Errorf ''tls: server selected unsupported protocol version %x'' [unat peerVersion])
         else modConn (\<lambda>c. c\<lparr>c_vers := vers, c_haveVers := True, c_in := (c_in c)\<lparr>hc_version := vers\<rparr>,
                c_out := (c_out c)\<lparr>hc_version := vers\<rparr>\<rparr>))))"

text \<open>The downgrade canaries of RFC 8446, section 4.1.3.\<close>

definition checkDowngrade :: "serverHelloMsg \<Rightarrow> ('z hsBase_scheme, unit) hs" where
  "checkDowngrade serverHello = hsBind (hsGet hb_c) (\<lambda>c.
     hsBind (hsOpt (maxSupportedVersion (Some (c_config c)) True)) (\<lambda>maxVers.
     let tls12Downgrade = (drop 24 (sh_random serverHello) = downgradeCanaryTLS12);
         tls11Downgrade = (drop 24 (sh_random serverHello) = downgradeCanaryTLS11)
     in failIf (maxVers = VersionTLS13 \<and> c_vers c \<le> VersionTLS12 \<and> (tls12Downgrade \<or> tls11Downgrade) \<or>
                maxVers = VersionTLS12 \<and> c_vers c \<le> VersionTLS11 \<and> tls11Downgrade) alertIllegalParameter
          ''tls: downgrade attempt detected, possibly due to a MitM attack or a broken middlebox''))"

section \<open>Certificates of servers\<close>

definition nameVerifyOptions :: "hsEnv \<Rightarrow> configExt \<Rightarrow> string \<Rightarrow> x509Certificate list \<Rightarrow> VerifyOptions" where
  "nameVerifyOptions E x name intermediates = \<lparr>vo_DNSName = ascii name, vo_Intermediates = Some intermediates, vo_Roots = cx_RootCAs x,
     vo_CurrentTime = he_now E, vo_KeyUsages = []\<rparr>"

definition verifyServerChain :: "hsEnv \<Rightarrow> string \<Rightarrow> x509Certificate list \<Rightarrow> ('z hsBase_scheme, unit) hs" where
  "verifyServerChain E name certs = hsBind (hsGet hb_x) (\<lambda>x. case certs of
     [] \<Rightarrow> hsPanic
   | cert # rest \<Rightarrow>
       (case px_Verify (he_x509 E) cert (nameVerifyOptions E x name rest) of
          Inl err \<Rightarrow> abort alertBadCertificate (certificateError certs err)
        | Inr found \<Rightarrow>
            (case fipsAllowedChains found of
               Inl err \<Rightarrow> abort alertBadCertificate (certificateError certs err)
             | Inr chs \<Rightarrow> modConn (\<lambda>c. c\<lparr>c_verifiedChains := chs\<rparr>))))"

definition verifyServerCertificate :: "hsEnv \<Rightarrow> bytes list \<Rightarrow> ('z hsBase_scheme, unit) hs" where
  "verifyServerCertificate E certificates =
     hsBind (parsePeerCerts (px_ParseCertificate (he_x509 E)) ''certificate from server'' ''server'' certificates []) (\<lambda>certs.
     hsBind (hsGet id) (\<lambda>s.
     let echRejected = (cfg_EncryptedClientHelloConfigList (hb_config s) \<noteq> None \<and> \<not> c_echAccepted (hb_c s)) in hsSeq [
       if echRejected
       then (case cx_EncryptedClientHelloRejectionVerify (hb_x s) of
               Some f \<Rightarrow> errAlert alertBadCertificate (f (connState s))
             | None \<Rightarrow> verifyServerChain E (c_serverName (hb_c s)) certs)
       else if \<not> cfg_InsecureSkipVerify (hb_config s) then verifyServerChain E (cfg_ServerName (hb_config s)) certs
       else hsRet (),
       hsBind (hsOpt (if certs = [] then None else Some (hd certs))) (\<lambda>cert.
         hsWhen (\<not> supportedKey cert) (abort alertUnsupportedCertificate (ErrorsNew
           (''tls: server's certificate contains an unsupported type of public key: '' @ publicKeyType (crt_PublicKey cert))))),
       modConn (\<lambda>c. c\<lparr>c_peerCertificates := certs\<rparr>),
       hsWhen (\<not> echRejected) (verifyPeerCertificate certificates),
       hsWhen (\<not> echRejected) verifyConnection]))"

section \<open>Certificates of the client\<close>

text \<open>\<open>new(Certificate)\<close>, whose private key is nil.\<close>

definition localCertificate_zero :: localCertificate where
  "localCertificate_zero = \<lparr>Certificate_der = [], OCSPStaple = None, SignedCertificateTimestamps = None,
     PrivateKey = OtherPrivateKey ''<nil>'', SupportedSignatureAlgorithms = None, Leaf = None\<rparr>"

text \<open>The outer option of a certificate is nil, which a callback may return.\<close>

definition getClientCertificate :: "hsEnv \<Rightarrow> configExt \<Rightarrow> CertificateRequestInfo \<Rightarrow> localCertificate option res" where
  "getClientCertificate E x cri = (case cx_GetClientCertificate x of
     Some f \<Rightarrow> f cri
   | None \<Rightarrow>
       (case find (\<lambda>chain. cri_SupportsCertificate (he_x509 E) cri chain = None) (cx_Certificates x) of
          Some chain \<Rightarrow> Inr (Some chain)
        | None \<Rightarrow> Inr (Some localCertificate_zero)))"

definition requestedSchemes :: "certificateRequestMsg \<Rightarrow> u16 list" where
  "requestedSchemes certReq =
     (let rsaAvail = list_ex (\<lambda>t. t = certTypeRSASign) (cr_certificateTypes certReq);
          ecAvail = list_ex (\<lambda>t. t = certTypeECDSASign) (cr_certificateTypes certReq)
      in if \<not> cr_hasSignatureAlgorithm certReq
         then (if rsaAvail \<and> ecAvail
               then [ECDSAWithP256AndSHA256, ECDSAWithP384AndSHA384, ECDSAWithP521AndSHA512,
                     PKCS1WithSHA256, PKCS1WithSHA384, PKCS1WithSHA512, PKCS1WithSHA1]
               else if rsaAvail then [PKCS1WithSHA256, PKCS1WithSHA384, PKCS1WithSHA512, PKCS1WithSHA1]
               else if ecAvail then [ECDSAWithP256AndSHA256, ECDSAWithP384AndSHA384, ECDSAWithP521AndSHA512]
               else [])
         else filter (\<lambda>sigScheme. case typeAndHashFromSignatureScheme sigScheme of
                Inl _ \<Rightarrow> False
              | Inr (sigType, _) \<Rightarrow>
                  if sigType = signatureECDSA \<or> sigType = signatureEd25519 then ecAvail
                  else if sigType = signatureRSAPSS \<or> sigType = signaturePKCS1v15 then rsaAvail
                  else False) (cr_supportedSignatureAlgorithms certReq))"

definition certificateRequestInfoFromMsg :: "u16 \<Rightarrow> certificateRequestMsg \<Rightarrow> CertificateRequestInfo" where
  "certificateRequestInfoFromMsg vers certReq = \<lparr>cri_AcceptableCAs = cr_certificateAuthorities certReq,
     cri_SignatureSchemes = requestedSchemes certReq, cri_Version = vers\<rparr>"

section \<open>What a ClientHello looks like\<close>

text \<open>The configuration of a connection but for the position in its random source.\<close>

definition fixedConfig :: "'z hsBase_scheme \<Rightarrow> Config" where
  "fixedConfig s = (hb_config s)\<lparr>cfg_Rand := []\<rparr>"

interpretation fc: kept fixedConfig
proof
  fix s s' :: "'z hsBase_scheme"
  assume "transported s s'"
  then obtain c k where io: "io_only (hb_c s) c" and s': "s' = s\<lparr>hb_c := c, hb_keyLog := k\<rparr>" by (auto simp: transported_def)
  show "fixedConfig s' = fixedConfig s" by (simp add: s' fixedConfig_def io_only_fields(6) [OF io])
qed

lemma fixedConfig_ech: "fixedConfig s' = fixedConfig s \<Longrightarrow>
    cfg_EncryptedClientHelloConfigList (hb_config s') = cfg_EncryptedClientHelloConfigList (hb_config s)"
  unfolding fixedConfig_def by (drule arg_cong [of _ _ cfg_EncryptedClientHelloConfigList]) simp

lemma liftConn_io:
  assumes "liftConn f s = Some (r, s')" and "\<And>c r c'. f c = Some (r, c') \<Longrightarrow> io_only c c'"
  shows "transported s s'"
proof -
  from assms(1) obtain c where c: "f (hb_c s) = Some (r, c)" and s': "s' = s\<lparr>hb_c := c\<rparr>"
    by (auto simp: liftConn_def split: option.split_asm)
  have "s' = s\<lparr>hb_c := c, hb_keyLog := hb_keyLog s\<rparr>" by (simp add: s')
  with assms(2) [OF c] show ?thesis unfolding transported_def by blast
qed

lemma hsRand_success: "hsRand n s = Some (Inr w, s') \<Longrightarrow>
    length w = n \<and> s' = s\<lparr>hb_c := set_rand (drop n (c_rand (hb_c s))) (hb_c s)\<rparr> \<and> w = take n (c_rand (hb_c s))"
  by (auto simp: hsRand_def readFull_def split: if_split_asm)

lemma nextProtosLength_ok:
  "nextProtosLength ps n = Inr m \<Longrightarrow> m = n + sum_list (map (\<lambda>p. 1 + length p) ps) \<and> (\<forall>p\<in>set ps. p \<noteq> [] \<and> length p \<le> 255)"
  by (induction ps arbitrary: n) (fastforce split: if_split_asm)+

lemma clientVersions_ok:
  assumes "clientVersions config = Some (Inr vs)"
  shows "vs = filter (versionEnabled config True) supportedVersions" "vs \<noteq> []"
    "\<forall>p\<in>set (cfg_NextProtos config). p \<noteq> [] \<and> length p \<le> 255"
    "sum_list (map (\<lambda>p. 1 + length p) (cfg_NextProtos config)) \<le> 0xffff"
    "cfg_ServerName config \<noteq> [] \<or> cfg_InsecureSkipVerify config"
  using assms nextProtosLength_ok [of "cfg_NextProtos config" 0]
  by (auto simp: clientVersions_def Config_supportedVersions_enabled split: if_split_asm sum.split_asm)

lemma config_suite_known: "i \<in> set (Config_cipherSuites c a) \<Longrightarrow> \<exists>suite. cipherSuiteByID i = Some suite"
proof -
  assume "i \<in> set (Config_cipherSuites c a)"
  then have "i \<in> set (supportedCipherSuites a)"
    by (auto simp: Config_cipherSuites_def defaultCipherSuites_def fips140tlsRequired_def split: option.split_asm)
  then have "i \<in> set (map cs_id cipherSuites)"
    using order_AES_complete order_NoAES_complete by (auto simp: supportedCipherSuites_def split: if_split_asm)
  then show ?thesis by (auto simp: cipherSuiteByID_def find_None_iff simp flip: not_None_eq)
qed

lemma withoutTLS12_filter:
  "withoutTLS12 l = Some l' \<Longrightarrow> l' = filter (\<lambda>i. \<exists>c. cipherSuiteByID i = Some c \<and> \<not> hasFlag c suiteTLS12) l"
  by (induction l arbitrary: l') (auto split: option.split_asm if_split_asm)

lemma helloSuites_ok:
  assumes "helloSuites config maxVersion = Some l" and "i \<in> set l"
  shows "i \<in> set (Config_cipherSuites config hasAESGCMHardwareSupport)"
    "\<exists>c. cipherSuiteByID i = Some c \<and> (maxVersion < VersionTLS12 \<longrightarrow> \<not> hasFlag c suiteTLS12)"
  using assms config_suite_known [of i config]
  by (auto simp: helloSuites_def Let_def split: if_split_asm dest!: withoutTLS12_filter)

lemma helloRandom_success:
  assumes "helloRandom hello s = Some (Inr hello', s')"
  shows "\<exists>random sessionId. hello' = hello\<lparr>ch_random := random, ch_sessionId := sessionId\<rparr> \<and> length random = 32 \<and>
    length sessionId = (if c_quic (hb_c s) = None then 32 else 0)"
  using assms by (auto simp: helloRandom_def hs_simps split: if_split_asm dest!: hsRand_success)

lemma helloRandom_fixed: "keeps fixedConfig (helloRandom hello)"
  unfolding helloRandom_def by (intro keeps_intros fc.base_keeps)

lemma helloShares_fixed: "keeps fixedConfig (helloShares E vs hello)"
  unfolding helloShares_def sendShares_def hsKeyShares_def
  by (intro keeps_intros fc.base_keeps) (auto intro!: keeps_intros fc.base_keeps fc.modConn_keeps split: list.split)

lemma helloQuic_fixed: "keeps fixedConfig (helloQuic hello)"
proof -
  have "keeps fixedConfig (liftConn quicGetTransportParameters)"
    by (rule fc.keeps_transported) (metis liftConn_io quicGetTransportParameters_io)
  then show ?thesis unfolding helloQuic_def by (intro keeps_intros)
qed

text \<open>The list of versions runs down from the highest one, so its ends decide what is offered.\<close>

lemma enabled_versions_ends:
  assumes "vs = filter (versionEnabled config True) supportedVersions" and "vs \<noteq> []"
  shows "hd vs \<in> set supportedVersions" "VersionTLS13 \<le> hd vs \<longleftrightarrow> VersionTLS13 \<in> set vs" "hd vs \<le> VersionTLS13"
    "cfg_EncryptedClientHelloConfigList config \<noteq> None \<Longrightarrow> vs = [VersionTLS13]"
proof -
  have m: "hd vs \<in> set vs" using assms(2) by simp
  then show "hd vs \<in> set supportedVersions" using assms(1) by simp
  then show "hd vs \<le> VersionTLS13" by (auto simp: supportedVersions_def)
  show "VersionTLS13 \<le> hd vs \<longleftrightarrow> VersionTLS13 \<in> set vs"
    using assms m by (auto simp: supportedVersions_def split: if_split_asm)
  assume "cfg_EncryptedClientHelloConfigList config \<noteq> None"
  then have "\<forall>v\<in>set vs. v = VersionTLS13" using assms(1) by (auto simp: versionEnabled_def)
  moreover have "distinct vs" using assms(1) by (simp add: supportedVersions_def)
  ultimately show "vs = [VersionTLS13]" using assms(2) by (cases vs rule: list.exhaust; cases "tl vs") auto
qed

text \<open>Public keys of \<open>crypto/ecdh\<close> are not empty.\<close>

definition public_keys_sent :: "hsEnv \<Rightarrow> bool" where
  "public_keys_sent E \<longleftrightarrow> (\<forall>i k. ec_PublicKey (ka_curves (he_ka E) i) k \<noteq> [])"

lemma keyShares_groups:
  assumes "exchangeFor E i = Inr ke" and "keyShares ke rand = Inr (keys, shares, rand')" and "public_keys_sent E"
  shows "shares \<noteq> [] \<and> ks_group (hd shares) = i \<and> length shares \<le> 2 \<and> (\<forall>ks\<in>set shares. ks_data ks \<noteq> [])"
  using assms
  by (auto simp: exchangeFor_def keyExchangeForCurveID_def keyShares_def hybrid_keyShares_def ecdh_keyShares_def Let_def public_keys_sent_def
      split: if_split_asm sum.split_asm)

lemma sendShares_success:
  assumes run: "sendShares E hello s = Some (Inr (hello', keys), s')" and ok: "public_keys_sent E"
  shows "\<exists>shares. hello' = hello\<lparr>ch_keyShares := shares\<rparr> \<and> keys \<noteq> None \<and> shares \<noteq> [] \<and>
    (\<forall>ks\<in>set shares. ks_data ks \<noteq> [] \<and> ks_group ks \<in> set (ch_supportedCurves hello))"
proof -
  from run obtain curveID rest where c: "ch_supportedCurves hello = curveID # rest"
    by (cases "ch_supportedCurves hello") (auto simp: sendShares_def hs_simps)
  let ?l = "\<lambda>l. if length l = 2 \<and> \<not> List.member (ch_supportedCurves hello) (ks_group (l ! 1)) then take 1 l else l"
  from run c obtain ke where ke: "exchangeFor E curveID = Inr ke"
    by (cases "exchangeFor E curveID") (auto simp: sendShares_def hs_success(4,8))
  with run c obtain keys' l s1 where l1: "hsKeyShares ke s = Some (Inr (keys', l), s1)" and h: "hello' = hello\<lparr>ch_keyShares := ?l l\<rparr>" and k: "keys = Some keys'"
    unfolding sendShares_def by (simp only: list.case sum.case hs_success(1,4,8)) (auto simp: hs_success(1))
  then obtain rand' where l: "keyShares ke (c_rand (hb_c s)) = Inr (keys', l, rand')"
    by (auto simp: hsKeyShares_def hs_simps)
  note g = keyShares_groups [OF ke l ok]
  then obtain k1 l' where l2: "l = k1 # l'" "ks_group k1 = curveID" by (cases l) auto
  with g have "l' = [] \<or> (\<exists>k2. l' = [k2])" by (cases l') auto
  then have r: "\<forall>ks\<in>set (?l l). ks_data ks \<noteq> [] \<and> ks_group ks \<in> set (ch_supportedCurves hello)" "?l l \<noteq> []"
    using g c l2 by (elim disjE exE; simp)+
  show ?thesis unfolding h k by (rule exI [of _ "?l l"]) (intro conjI refl option.distinct(2) r)
qed

lemma helloShares_success:
  assumes run: "helloShares E vs hello s = Some (Inr (hello', keys), s')" and ok: "public_keys_sent E" and none: "ch_keyShares hello = []"
  shows "\<exists>algs algsCert shares. hello' = hello\<lparr>ch_supportedSignatureAlgorithms := algs, ch_supportedSignatureAlgorithmsCert := algsCert,
      ch_cipherSuites := (if hd vs < VersionTLS13 then ch_cipherSuites hello
        else (if last vs \<ge> VersionTLS13 then [] else ch_cipherSuites hello) @ suites13),
      ch_keyShares := shares\<rparr> \<and> (keys = None \<longleftrightarrow> hd vs < VersionTLS13) \<and> (shares = [] \<longleftrightarrow> hd vs < VersionTLS13) \<and>
      (\<forall>ks\<in>set shares. ks_data ks \<noteq> [] \<and> ks_group ks \<in> set (ch_supportedCurves hello))"
proof (cases "hd vs < VersionTLS13")
  case True
  with run none show ?thesis by (cases hello) (auto simp: helloShares_def hs_simps Let_def)
next
  case False
  let ?h = "hello\<lparr>ch_supportedSignatureAlgorithms := supportedSignatureAlgorithms (last vs),
     ch_supportedSignatureAlgorithmsCert := supportedSignatureAlgorithmsCert,
     ch_cipherSuites := (if last vs \<ge> VersionTLS13 then [] else ch_cipherSuites hello) @ suites13\<rparr>"
  have "VersionTLS12 \<le> VersionTLS13" by simp
  with False have "VersionTLS12 \<le> hd vs" by (simp only: not_less order.trans)
  with False run have "sendShares E ?h s = Some (Inr (hello', keys), s')"
    by (simp add: helloShares_def Let_def split: if_split_asm)
  from sendShares_success [OF this ok] obtain shares where "hello' = ?h\<lparr>ch_keyShares := shares\<rparr>" "keys \<noteq> None" "shares \<noteq> []"
    "\<forall>ks\<in>set shares. ks_data ks \<noteq> [] \<and> ks_group ks \<in> set (ch_supportedCurves hello)" by auto
  with False show ?thesis
    by (intro exI [of _ "supportedSignatureAlgorithms (last vs)"] exI [of _ supportedSignatureAlgorithmsCert] exI [of _ shares]) simp
qed

lemma helloQuic_success:
  "helloQuic hello s = Some (Inr hello', s') \<Longrightarrow> \<exists>p. hello' = hello\<lparr>ch_quicTransportParameters := p\<rparr>"
  by (cases hello) (auto simp: helloQuic_def hs_simps split: if_split_asm)

lemma helloECH_success:
  assumes "helloECH C E hello s = Some (Inr (hello', ech), s')"
  shows "if cfg_EncryptedClientHelloConfigList (hb_config s) = None then hello' = hello \<and> ech = None
    else hello' = hello\<lparr>ch_encryptedClientHello := [1], ch_supportedPoints := [], ch_ticketSupported := False,
      ch_secureRenegotiationSupported := False, ch_extendedMasterSecret := False\<rparr> \<and> ech \<noteq> None"
  using assms by (auto simp: helloECH_def hs_simps split: option.split_asm if_split_asm prod.split_asm)

lemma hostnameInSNI_dotless: "hostnameInSNI p name \<noteq> [] \<Longrightarrow> last (hostnameInSNI p name) \<noteq> 46"
proof -
  have "dropWhile (\<lambda>b. b = 46) w \<noteq> [] \<Longrightarrow> last (rev (dropWhile (\<lambda>b. b = 46) w)) \<noteq> (46 :: u8)" for w
    by (metis (mono_tags, lifting) hd_dropWhile last_rev)
  then show "hostnameInSNI p name \<noteq> [] \<Longrightarrow> last (hostnameInSNI p name) \<noteq> 46"
    by (auto simp: hostnameInSNI_def Let_def split: if_split_asm)
qed

lemma no_signalling_suite: "cipherSuiteByID scsvRenegotiation = None" "scsvRenegotiation \<notin> set suites13"
  "set suites13 \<subseteq> set defaultCipherSuitesTLS13"
  by code_simp+

text \<open>
  (C35) The ClientHello that the client makes, whatever its configuration: it satisfies the conditions under which the server's
  parser reads it back, its version field never says TLS 1.3, the random has 32 bytes and so has the session
  identifier (none for QUIC), it lists exactly the versions that the configuration enables, every suite is one of the configuration
  or, when TLS 1.3 is offered, one of TLS 1.3, no suite that needs TLS 1.2 is offered below it, there are key shares exactly
  when TLS 1.3 is offered and each is of a group that is offered too, and Encrypted Client Hello is used exactly when it is
  configured, then with TLS 1.3 alone.
\<close>

theorem client_hello_well_formed:
  assumes "makeClientHello C E s = Some (Inr (hello, keys, ech), s')" and "public_keys_sent E"
    and "c_handshakes (hb_c s) = 0 \<or> cfg_EncryptedClientHelloConfigList (hb_config s) = None"
  shows "clientHelloMsg_wf hello \<and> ch_vers hello \<le> VersionTLS12 \<and> length (ch_random hello) = 32 \<and>
    length (ch_sessionId hello) = (if c_quic (hb_c s) = None then 32 else 0) \<and>
    ch_supportedVersions hello = filter (versionEnabled (hb_config s) True) supportedVersions \<and> ch_supportedVersions hello \<noteq> [] \<and>
    (\<forall>i\<in>set (ch_cipherSuites hello).
       i \<in> set (Config_supportedCipherSuites (hb_config s)) \<and> (\<exists>suite. cipherSuiteByID i = Some suite \<and>
         (hd (ch_supportedVersions hello) < VersionTLS12 \<longrightarrow> \<not> hasFlag suite suiteTLS12)) \<or>
       i \<in> set defaultCipherSuitesTLS13 \<and> VersionTLS13 \<in> set (ch_supportedVersions hello)) \<and>
    (ch_keyShares hello \<noteq> [] \<longleftrightarrow> VersionTLS13 \<in> set (ch_supportedVersions hello)) \<and>
    (keys \<noteq> None \<longleftrightarrow> VersionTLS13 \<in> set (ch_supportedVersions hello)) \<and>
    (\<forall>ks\<in>set (ch_keyShares hello). ks_group ks \<in> set (ch_supportedCurves hello)) \<and>
    (ech \<noteq> None \<longleftrightarrow> cfg_EncryptedClientHelloConfigList (hb_config s) \<noteq> None) \<and>
    (ech \<noteq> None \<longrightarrow> ch_encryptedClientHello hello = [1] \<and> ch_supportedVersions hello = [VersionTLS13])"
proof -
  let ?c = "hb_config s"
  from assms(1) obtain vs suites h1 s1 h2 s2 h3 s3 where v: "clientVersions ?c = Some (Inr vs)" and su: "helloSuites ?c (hd vs) = Some suites"
    and r: "helloRandom ((helloFields E (hb_c s) vs)\<lparr>ch_cipherSuites := suites\<rparr>) s = Some (Inr h1, s1)"
    and sh: "helloShares E vs h1 s1 = Some (Inr (h2, keys), s2)" and q: "helloQuic h2 s2 = Some (Inr h3, s3)"
    and ec: "helloECH C E h3 s3 = Some (Inr (hello, ech), s')"
    unfolding makeClientHello_def hs_success(1,4,5,7,8) by (auto simp: hs_success(1,4))
  note vs = clientVersions_ok [OF v] and ends = enabled_versions_ends [OF clientVersions_ok(1,2) [OF v]]
  have cfg: "cfg_EncryptedClientHelloConfigList (hb_config s3) = cfg_EncryptedClientHelloConfigList ?c"
    using keepsD [OF helloRandom_fixed r] keepsD [OF helloShares_fixed sh] keepsD [OF helloQuic_fixed q] by (intro fixedConfig_ech) simp
  obtain random sessionId where h1: "h1 = (helloFields E (hb_c s) vs)\<lparr>ch_cipherSuites := suites, ch_random := random, ch_sessionId := sessionId\<rparr>"
    "length random = 32" "length sessionId = (if c_quic (hb_c s) = None then 32 else 0)" using helloRandom_success [OF r] by auto
  have "ch_keyShares h1 = []" by (simp add: h1 helloFields_def Let_def clientHelloMsg_zero_def)
  from helloShares_success [OF sh assms(2) this] obtain algs algsCert shares where h2: "h2 = h1\<lparr>ch_supportedSignatureAlgorithms := algs,
      ch_supportedSignatureAlgorithmsCert := algsCert, ch_cipherSuites := (if hd vs < VersionTLS13 then ch_cipherSuites h1
        else (if last vs \<ge> VersionTLS13 then [] else ch_cipherSuites h1) @ suites13), ch_keyShares := shares\<rparr>"
    "keys = None \<longleftrightarrow> hd vs < VersionTLS13" "shares = [] \<longleftrightarrow> hd vs < VersionTLS13"
    "\<forall>ks\<in>set shares. ks_data ks \<noteq> [] \<and> ks_group ks \<in> set (ch_supportedCurves h1)" by blast
  obtain p where h3: "h3 = h2\<lparr>ch_quicTransportParameters := p\<rparr>" using helloQuic_success [OF q] by blast
  note known = helloSuites_ok [OF su] and hello = helloECH_success [OF ec, unfolded cfg]
  have f: "ch_vers hello = (if hd vs > VersionTLS12 then VersionTLS12 else hd vs)" "ch_random hello = random" "ch_sessionId hello = sessionId"
    "ch_supportedVersions hello = vs" "ch_keyShares hello = shares" "ch_supportedCurves hello = ch_supportedCurves h1"
    "ch_cipherSuites hello = (if hd vs < VersionTLS13 then suites else (if last vs \<ge> VersionTLS13 then [] else suites) @ suites13)"
    "ch_serverName hello = hostnameInSNI (he_ParseIP E) (ascii (cfg_ServerName ?c))" "ch_alpnProtocols hello = cfg_NextProtos ?c"
    "ch_pskIdentities hello = []" "ch_pskBinders hello = []" "ch_sessionTicket hello = []"
    "ch_secureRenegotiation hello = (if c_handshakes (hb_c s) > 0 then c_clientFinished (hb_c s) else [])"
    "ch_secureRenegotiationSupported hello \<longleftrightarrow> cfg_EncryptedClientHelloConfigList ?c = None"
    using hello by (simp_all add: h3 h2(1) h1(1) helloFields_def Let_def clientHelloMsg_zero_def split: if_split_asm)
  have suites: "i \<in> set (Config_supportedCipherSuites ?c) \<and> (\<exists>suite. cipherSuiteByID i = Some suite \<and>
      (hd vs < VersionTLS12 \<longrightarrow> \<not> hasFlag suite suiteTLS12)) \<or> i \<in> set defaultCipherSuitesTLS13 \<and> VersionTLS13 \<in> set vs"
    if "i \<in> set (ch_cipherSuites hello)" for i
    using that known [of i] no_signalling_suite(3) ends(2) Config_cipherSuites_set [of ?c] by (auto simp: f(7) split: if_split_asm)
  have "scsvRenegotiation \<notin> set (ch_cipherSuites hello)"
    using suites [of scsvRenegotiation] no_signalling_suite by (auto simp: defaultCipherSuitesTLS13_def)
  then have wf: "clientHelloMsg_wf hello"
    using vs(3) h2(4) assms(3) hostnameInSNI_dotless by (auto simp: clientHelloMsg_wf_def f)
  have shares: "shares \<noteq> [] \<longleftrightarrow> VersionTLS13 \<in> set vs" "keys \<noteq> None \<longleftrightarrow> VersionTLS13 \<in> set vs"
    using h2(2,3) ends(2) by (auto simp: not_less)
  have "ech \<noteq> None \<longleftrightarrow> cfg_EncryptedClientHelloConfigList ?c \<noteq> None" "ech \<noteq> None \<longrightarrow> ch_encryptedClientHello hello = [1] \<and> vs = [VersionTLS13]"
    using hello ends(4) by (auto split: if_split_asm)
  moreover have "ch_vers hello \<le> VersionTLS12" by (simp add: f(1) not_less)
  ultimately show ?thesis using wf suites shares h1(2,3) h2(4) vs(1,2) by (simp add: f(2-6))
qed

lemma hsRand_run: "n \<le> length (c_rand (hb_c s)) \<Longrightarrow>
    hsRand n s = Some (Inr (take n (c_rand (hb_c s))), s\<lparr>hb_c := set_rand (drop n (c_rand (hb_c s))) (hb_c s)\<rparr>)"
  by (simp add: hsRand_def readFull_def)

lemma helloRandom_run:
  assumes "c_quic (hb_c s) = None" and "64 \<le> length (c_rand (hb_c s))"
  shows "\<exists>h' s'. helloRandom hello s = Some (Inr h', s') \<and> c_quic (hb_c s') = None"
proof -
  have "32 \<le> length (c_rand (hb_c s))" using assms(2) by simp
  from hsRand_run [OF this] obtain w s1 where 1: "hsRand 32 s = Some (Inr w, s1)" "c_quic (hb_c s1) = None"
    and "length (c_rand (hb_c s1)) = length (c_rand (hb_c s)) - 32"
    using assms(1) by simp
  then have "32 \<le> length (c_rand (hb_c s1))" using assms(2) by simp
  from hsRand_run [OF this] 1(2) obtain w' s2 where 2: "hsRand 32 s1 = Some (Inr w', s2)" "c_quic (hb_c s2) = None" by simp
  have "helloRandom hello s = Some (Inr (hello\<lparr>ch_random := w, ch_sessionId := w'\<rparr>), s2)"
    using 1 2 by (simp add: helloRandom_def hsBind_def hsMapErr_def hsGet_def hsRet_def)
  with 2(2) show ?thesis by blast
qed

definition dialing_sample :: hsBase where
  "dialing_sample = \<lparr>hb_c = conn12_sample\<lparr>c_isClient := True,
     c_config := config12_sample\<lparr>cfg_MaxVersion := VersionTLS12, cfg_InsecureSkipVerify := True\<rparr>\<rparr>,
     hb_x = configExt_zero, hb_ekm = None, hb_keyLog = []\<rparr>"

theorem client_hello_well_formed_witness:
  "\<exists>hello s'. makeClientHello cb_ref hsEnv_sample dialing_sample = Some (Inr (hello, None, None), s') \<and>
     clientHelloMsg_wf hello \<and> ch_supportedVersions hello = [VersionTLS12] \<and> length (ch_sessionId hello) = 32"
proof -
  let ?c = "config12_sample\<lparr>cfg_MaxVersion := VersionTLS12, cfg_InsecureSkipVerify := True\<rparr>"
  have v: "clientVersions ?c = Some (Inr [VersionTLS12])"
    by (simp add: clientVersions_def Config_supportedVersions_enabled supportedVersions_def versionEnabled_def config12_sample_def emptyConfig_def)
  obtain suites where su: "helloSuites ?c VersionTLS12 = Some suites" by (auto simp: helloSuites_def Let_def)
  have s: "hb_config dialing_sample = ?c" "c_quic (hb_c dialing_sample) = None" "c_rand (hb_c dialing_sample) = replicate 80 1"
    "cfg_EncryptedClientHelloConfigList ?c = None" "c_handshakes (hb_c dialing_sample) = 0"
    by (simp_all add: dialing_sample_def conn12_sample_def conn_sample_def config12_sample_def emptyConfig_def)
  obtain h1 s1 where r: "helloRandom ((helloFields hsEnv_sample (hb_c dialing_sample) [VersionTLS12])\<lparr>ch_cipherSuites := suites\<rparr>) dialing_sample =
      Some (Inr h1, s1)" and "c_quic (hb_c s1) = None" 
    using helloRandom_run [of dialing_sample "(helloFields hsEnv_sample (hb_c dialing_sample) [VersionTLS12])\<lparr>ch_cipherSuites := suites\<rparr>"]
      s(2,3) by auto
  then have s1: "c_quic (hb_c s1) = None" "cfg_EncryptedClientHelloConfigList (hb_config s1) = None"
    using fixedConfig_ech [OF keepsD [OF helloRandom_fixed r]] s(1,4) by simp_all
  obtain h2 where sh: "helloShares hsEnv_sample [VersionTLS12] h1 s1 = Some (Inr (h2, None), s1)" by (simp add: helloShares_def Let_def hsRet_def)
  have "helloQuic h2 s1 = Some (Inr h2, s1)" "helloECH cb_ref hsEnv_sample h2 s1 = Some (Inr (h2, None), s1)"
    using s1 by (simp_all add: helloQuic_def helloECH_def hsBind_def hsGet_def hsRet_def)
  then have run: "makeClientHello cb_ref hsEnv_sample dialing_sample = Some (Inr (h2, None, None), s1)"
    using v su s(1) r sh by (simp add: makeClientHello_def hsBind_def hsGet_def hsOpt_def hsRes_def hsRet_def)
  have k: "public_keys_sent hsEnv_sample" by (simp add: public_keys_sent_def hsEnv_sample_def kaPkgs_sample_def curve_sample_def)
  have "filter (versionEnabled ?c True) supportedVersions = [VersionTLS12]" using clientVersions_ok(1) [OF v] by simp
  then show ?thesis using client_hello_well_formed [OF run k disjI1 [OF s(5)]] run s(1,2) by auto
qed

section \<open>Downgrades\<close>

lemma maxSupported_enabled:
  assumes "versionEnabled c isClient w"
  shows "\<exists>m. maxSupportedVersion (Some c) isClient = Some m \<and> w \<le> m \<and> versionEnabled c isClient m"
proof -
  let ?vs = "filter (versionEnabled c isClient) supportedVersions"
  have w: "w \<in> set ?vs" using assms versionEnabled_supported by simp
  then have ne: "?vs \<noteq> []" by (metis empty_iff empty_set)
  have "sorted_wrt (>) ?vs" by (rule sorted_wrt_filter [OF supportedVersions_descending])
  with w have "w \<le> hd ?vs" by (cases ?vs) auto
  moreover have "hd ?vs \<in> set ?vs" using ne by (rule hd_in_set)
  ultimately show ?thesis using ne by (auto simp: maxSupportedVersion_def Config_supportedVersions_enabled)
qed

lemma makeServerRandom_canary:
  assumes "makeServerRandom s = Some (Inr random, s')" and "versionEnabled (hb_config s) False w" and "c_vers (hb_c s) < w" and "VersionTLS12 \<le> w"
  shows "length random = 32 \<and> drop 24 random = (if c_vers (hb_c s) = VersionTLS12 then downgradeCanaryTLS12 else downgradeCanaryTLS11)"
proof -
  obtain m where m: "maxSupportedVersion (Some (hb_config s)) False = Some m" "w \<le> m" using maxSupported_enabled [OF assms(2)] by blast
  have "m \<ge> VersionTLS12 \<and> c_vers (hb_c s) < m" using assms(3,4) m(2) by (auto intro: order.trans less_le_trans)
  with assms(1) m(1) obtain r where "orAlert alertInternalError (hsRand 24) s = Some (Inr r, s')"
    and random: "random = r @ (if c_vers (hb_c s) = VersionTLS12 then downgradeCanaryTLS12 else downgradeCanaryTLS11)"
    by (auto simp: makeServerRandom_def hs_simps)
  then have "hsRand 24 s = Some (Inr r, s')"
    by (cases "hsRand 24 s") (auto simp: orAlert_def hs_simps split: sum.split_asm)
  then have "length r = 24" using hsRand_success by blast
  with random show ?thesis by (simp add: downgradeCanaryTLS12_def downgradeCanaryTLS11_def)
qed


definition base12_sample :: hsBase where
  "base12_sample = \<lparr>hb_c = conn12_sample, hb_x = configExt_zero, hb_ekm = None, hb_keyLog = []\<rparr>"

lemma base12_sample_fields [simp]:
  "hb_config base12_sample = config12_sample" "c_vers (hb_c base12_sample) = VersionTLS12" "cfg_Rand config12_sample = replicate 80 1"
  "cfg_MinVersion config12_sample = 0" "cfg_MaxVersion config12_sample = 0" "cfg_EncryptedClientHelloConfigList config12_sample = None"
  by (simp_all add: base12_sample_def conn12_sample_def config12_sample_def emptyConfig_def)

lemma abort_runs:
  assumes "case alertHs a s of Some (Inr _, s) \<Rightarrow> True | _ \<Rightarrow> False"
  shows "\<exists>s'. abort a e s = Some (Inl e, s')"
  using assms by (auto simp: abort_def hsBind_def hsFail_def split: option.split_asm sum.split_asm)


section \<open>Cached sessions\<close>

lemma judgeSession_offered:
  assumes "judgeSession E config x hello session = Some OfferSession"
  shows "sn_version session \<in> set (ch_supportedVersions hello)" "sn_peerCertificates session \<noteq> []"
    "he_now E \<le> crt_NotAfter (hd (sn_peerCertificates session))"
    "\<not> cfg_InsecureSkipVerify config \<Longrightarrow> px_VerifyHostname (he_x509 E) (hd (sn_peerCertificates session)) (ascii (cfg_ServerName config)) = None \<and>
       chainsStillValid E x session"
    "sn_version session \<noteq> VersionTLS13 \<Longrightarrow> sn_cipherSuite session \<in> set (ch_cipherSuites hello)"
    "sn_version session = VersionTLS13 \<Longrightarrow> he_now E \<le> unixTime (sn_useBy session) \<and>
       (\<exists>suite. cipherSuiteTLS13ByID (he_suites E) (sn_cipherSuite session) = Some suite)"
proof -
  have m: "mutualCipherSuite l i \<noteq> None \<Longrightarrow> i \<in> set l" for l i by (induction l) (auto split: if_split_asm)
  show "sn_version session \<in> set (ch_supportedVersions hello)" "sn_peerCertificates session \<noteq> []"
    "he_now E \<le> crt_NotAfter (hd (sn_peerCertificates session))"
    "\<not> cfg_InsecureSkipVerify config \<Longrightarrow> px_VerifyHostname (he_x509 E) (hd (sn_peerCertificates session)) (ascii (cfg_ServerName config)) = None \<and>
       chainsStillValid E x session"
    using assms by (auto simp: judgeSession_def list_ex_iff split: if_split_asm list.split_asm)
  show "sn_version session \<noteq> VersionTLS13 \<Longrightarrow> sn_cipherSuite session \<in> set (ch_cipherSuites hello)"
    using assms m by (auto simp: judgeSession_def split: if_split_asm list.split_asm)
  show "sn_version session = VersionTLS13 \<Longrightarrow> he_now E \<le> unixTime (sn_useBy session) \<and>
       (\<exists>suite. cipherSuiteTLS13ByID (he_suites E) (sn_cipherSuite session) = Some suite)"
    using assms by (auto simp: judgeSession_def split: if_split_asm list.split_asm option.split_asm)
qed

lemma quicEarlyData_success:
  assumes "quicEarlyData E hello session s = Some (Inr (hello', session'), s')"
  shows "session' \<in> {session, he_onResume E session} \<and> (\<exists>b. hello' = hello\<lparr>ch_earlyData := b\<rparr>) \<and> (c_quic (hb_c s) = None \<longrightarrow> session' = session)"
  using assms
  by (cases hello) (auto simp: quicEarlyData_def hs_simps split: option.split_asm if_split_asm prod.split_asm)

lemma computeAndUpdatePSK_success:
  assumes "computeAndUpdatePSK C suite m binderKey transcript = Some (Inr m')"
  shows "\<exists>p pskBinder. clientHelloMsg_marshalWithoutBinders C m = Some (Inr p) \<and> finishedHash13 C suite binderKey (hs_Write transcript p) = Some pskBinder \<and>
    m' = m\<lparr>ch_pskBinders := [pskBinder]\<rparr> \<and> clientHelloMsg_updateBinders m [pskBinder] = Inr m'"
  using assms by (auto simp: computeAndUpdatePSK_def clientHelloMsg_updateBinders_def split: option.split_asm sum.split_asm if_split_asm)

lemma offerPSK_success:
  assumes "offerPSK C E hello session s = Some (Inr (hello', so, es, binderKey), s')"
  shows "\<exists>suite session' b pskBinder. cipherSuiteTLS13ByID (he_suites E) (sn_cipherSuite session) = Some suite \<and> so = Some session' \<and>
    session' \<in> {session, he_onResume E session} \<and> (c_quic (hb_c s) = None \<longrightarrow> session' = session) \<and>
    es = Some (NewEarlySecret (cs13_hash suite) (Some (sn_secret session'))) \<and>
    hello' = hello\<lparr>ch_earlyData := b, ch_pskIdentities := [\<lparr>psk_label = sn_ticket session',
      psk_obfuscatedTicketAge = ticketAgeOf (he_now E) session'\<rparr>], ch_pskBinders := [pskBinder]\<rparr> \<and> length pskBinder = h_Size (cs13_hash suite)"
proof -
  from assms obtain suite hello1 session' s1 r where suite: "cipherSuiteTLS13ByID (he_suites E) (sn_cipherSuite session) = Some suite"
    and q: "quicEarlyData E hello session s = Some (Inr (hello1, session'), s1)"
    and r: "computeAndUpdatePSK C suite (hello1\<lparr>ch_pskIdentities := [\<lparr>psk_label = sn_ticket session',
        psk_obfuscatedTicketAge = ticketAgeOf (he_now E) session'\<rparr>], ch_pskBinders := [replicate (h_Size (cs13_hash suite)) 0]\<rparr>)
        binderKey (hs_new (cs13_hash suite)) = Some (Inr hello')"
    and es: "so = Some session'" "es = Some (NewEarlySecret (cs13_hash suite) (Some (sn_secret session')))"
    unfolding offerPSK_def hs_success(4,7) Let_def by (auto simp: hs_success(1,4,7,8))
  obtain b where hello1: "hello1 = hello\<lparr>ch_earlyData := b\<rparr>" and session': "session' \<in> {session, he_onResume E session}"
    "c_quic (hb_c s) = None \<longrightarrow> session' = session"
    using quicEarlyData_success [OF q] by (elim conjE exE) (rule that)
  from computeAndUpdatePSK_success [OF r] obtain pskBinder where hello': "hello' = hello1\<lparr>ch_pskIdentities := [\<lparr>psk_label = sn_ticket session',
      psk_obfuscatedTicketAge = ticketAgeOf (he_now E) session'\<rparr>], ch_pskBinders := [pskBinder]\<rparr>"
    and u: "clientHelloMsg_updateBinders (hello1\<lparr>ch_pskIdentities := [\<lparr>psk_label = sn_ticket session',
        psk_obfuscatedTicketAge = ticketAgeOf (he_now E) session'\<rparr>], ch_pskBinders := [replicate (h_Size (cs13_hash suite)) 0]\<rparr>) [pskBinder] = Inr hello'"
    by auto
  have "length pskBinder = h_Size (cs13_hash suite)" using u by (auto simp: clientHelloMsg_updateBinders_def split: if_split_asm)
  with suite es session' show ?thesis unfolding hello' hello1
    by (intro exI [of _ suite] exI [of _ session'] exI [of _ b] exI [of _ pskBinder]) simp
qed


definition cached_sample :: SessionState where
  "cached_sample = session12_sample\<lparr>sn_peerCertificates := [cert_sample\<lparr>crt_NotAfter := 1\<rparr>], sn_ticket := [5]\<rparr>"

definition resuming_client :: hsBase where
  "resuming_client = dialing_sample\<lparr>hb_c := (hb_c dialing_sample)\<lparr>
     c_config := (hb_config dialing_sample)\<lparr>cfg_ServerName := ''srv''\<rparr>,
     c_ClientSessionCache := Some \<lparr>lru_m = [''srv'' \<mapsto> 0], lru_q = [0],
       lru_elems = [0 \<mapsto> \<lparr>le_sessionKey = ''srv'', le_state = Some (Some cached_sample)\<rparr>], lru_next = 1, lru_capacity = 1\<rparr>\<rparr>\<rparr>"

definition hello12_sample :: clientHelloMsg where
  "hello12_sample = clientHelloMsg_zero\<lparr>ch_supportedVersions := [VersionTLS12], ch_cipherSuites := [TLS_RSA_WITH_AES_128_GCM_SHA256]\<rparr>"

lemma resuming_client_fields [simp]:
  "\<not> cfg_SessionTicketsDisabled (hb_config resuming_client)" "cfg_InsecureSkipVerify (hb_config resuming_client)"
  "c_handshakes (hb_c resuming_client) = 0" "clientSessionCacheKey (hb_c resuming_client) = ''srv''"
  "c_ClientSessionCache (hb_c resuming_client) = Some \<lparr>lru_m = [''srv'' \<mapsto> 0], lru_q = [0],
       lru_elems = [0 \<mapsto> \<lparr>le_sessionKey = ''srv'', le_state = Some (Some cached_sample)\<rparr>], lru_next = 1, lru_capacity = 1\<rparr>"
  by (simp_all add: resuming_client_def dialing_sample_def conn12_sample_def conn_sample_def config12_sample_def emptyConfig_def
      clientSessionCacheKey_def)

lemma conn_update_at: "hb_c_update f s = s\<lparr>hb_c := f (hb_c s)\<rparr>"
  by (cases s) simp


section \<open>Verified servers\<close>

text \<open>
  What a client holds of a server that it has verified: certificates, of which the first has a chain to the configured roots for the
  name, found with the others as intermediates.
\<close>

definition verified_server :: "hsEnv \<Rightarrow> configExt \<Rightarrow> string \<Rightarrow> x509Certificate list \<Rightarrow> x509Certificate list list \<Rightarrow> bool" where
  "verified_server E x name certs chs \<longleftrightarrow> certs \<noteq> [] \<and>
     (\<exists>found. px_Verify (he_x509 E) (hd certs) (nameVerifyOptions E x name (tl certs)) = Inr found \<and> fipsAllowedChains found = Inr chs)"

lemma verifyServerChain_success:
  assumes "verifyServerChain E name certs s = Some (Inr (), s')"
  shows "\<exists>chs. s' = s\<lparr>hb_c := (hb_c s)\<lparr>c_verifiedChains := chs\<rparr>\<rparr> \<and> verified_server E (hb_x s) name certs chs"
  using assms
  by (cases certs; cases s) (auto simp: verifyServerChain_def verified_server_def hs_simps split: sum.split_asm)

lemma verifyServerCertificate_success:
  assumes run: "verifyServerCertificate E certificates s = Some (Inr (), s')"
    and skip: "\<not> cfg_InsecureSkipVerify (hb_config s)" and ech: "cfg_EncryptedClientHelloConfigList (hb_config s) = None \<or> c_echAccepted (hb_c s)"
  shows "\<exists>chs. s' = s\<lparr>hb_c := (hb_c s)\<lparr>c_verifiedChains := chs, c_peerCertificates := c_peerCertificates (hb_c s')\<rparr>\<rparr> \<and>
    verified_server E (hb_x s) (cfg_ServerName (hb_config s)) (c_peerCertificates (hb_c s')) chs \<and>
    list_all2 (\<lambda>der cert. px_ParseCertificate (he_x509 E) der = Inr cert) certificates (c_peerCertificates (hb_c s'))"
proof -
  obtain certs where p: "parsePeerCerts (px_ParseCertificate (he_x509 E)) ''certificate from server'' ''server'' certificates [] s = Some (Inr certs, s)"
    and certs: "list_all2 (\<lambda>der cert. px_ParseCertificate (he_x509 E) der = Inr cert) certificates certs"
  proof -
    from run obtain r s1 where p: "parsePeerCerts (px_ParseCertificate (he_x509 E)) ''certificate from server'' ''server'' certificates [] s = Some (Inr r, s1)"
      unfolding verifyServerCertificate_def hs_success(4) by blast
    with parsePeerCerts_success [OF p] that show thesis by simp
  qed
  have rej: "\<not> (cfg_EncryptedClientHelloConfigList (hb_config s) \<noteq> None \<and> \<not> c_echAccepted (hb_c s))" using ech by auto
  from run p skip rej obtain s1 s2 where v: "verifyServerChain E (cfg_ServerName (hb_config s)) certs s = Some (Inr (), s1)"
    and s2: "verifyPeerCertificate certificates (hb_c_update (\<lambda>c. c\<lparr>c_peerCertificates := certs\<rparr>) s1) = Some (Inr (), s2)"
    "verifyConnection s2 = Some (Inr (), s')"
    unfolding verifyServerCertificate_def hs_success(4) Let_def by (auto simp: hs_simps hsWhen_success split: if_split_asm)
  have "s2 = hb_c_update (\<lambda>c. c\<lparr>c_peerCertificates := certs\<rparr>) s1" "s' = s2"
    using s2 by (auto simp: verifyPeerCertificate_def verifyConnection_def hs_simps split: option.split_asm)
  then have s': "s' = s1\<lparr>hb_c := (hb_c s1)\<lparr>c_peerCertificates := certs\<rparr>\<rparr>" by (simp only: conn_update_at [of "\<lambda>c. c\<lparr>c_peerCertificates := certs\<rparr>" s1])
  from verifyServerChain_success [OF v] obtain chs where "s1 = s\<lparr>hb_c := (hb_c s)\<lparr>c_verifiedChains := chs\<rparr>\<rparr>"
    "verified_server E (hb_x s) (cfg_ServerName (hb_config s)) certs chs" by blast
  with certs show ?thesis by (intro exI [of _ chs]) (simp add: s')
qed

end
