(* ===== verification/Client12.thy ===== *)
theory Client12
  imports ClientSetup
begin

text \<open>
  The client's handshake of TLS 1.0 to 1.2 in handshake\_client.go, full, resumed and renegotiated. The lemmas show when a session is
  resumed, what a completed handshake has verified of the server, and that both ends protect records with the same keys.
\<close>

section \<open>Handshake state\<close>

record clientHandshakeState = hs12 +
  k_session :: "SessionState option"
  k_ticket :: "bytes option"

definition clientHandshakeState_new :: "hsBase \<Rightarrow> clientHelloMsg \<Rightarrow> serverHelloMsg \<Rightarrow> SessionState option \<Rightarrow> clientHandshakeState" where
  "clientHandshakeState_new b hello serverHello session = \<lparr>hb_c = hb_c b, hb_x = hb_x b, hb_ekm = hb_ekm b, hb_keyLog = hb_keyLog b,
     h_clientHello = hello, h_serverHello = serverHello, h_suite = None, h_finishedHash = None, h_masterSecret = [],
     k_session = session, k_ticket = None\<rparr>"

section \<open>The ServerHello\<close>

definition client_pickCipherSuite :: "(clientHandshakeState, unit) hs" where
  "client_pickCipherSuite = hsBind (hsGet id) (\<lambda>s.
     case mutualCipherSuite (ch_cipherSuites (h_clientHello s)) (sh_cipherSuite (h_serverHello s)) of
       None \<Rightarrow> abort alertHandshakeFailure (ErrorsNew ''tls: server chose an unconfigured cipher suite'')
     | Some suite \<Rightarrow> hsModify (\<lambda>s. s\<lparr>h_suite := Some suite, hb_c := (hb_c s)\<lparr>c_cipherSuite := cs_id suite\<rparr>\<rparr>))"

definition serverResumedSession :: "clientHandshakeState \<Rightarrow> bool" where
  "serverResumedSession s \<longleftrightarrow> k_session s \<noteq> None \<and> ch_sessionId (h_clientHello s) \<noteq> [] \<and>
     sh_sessionId (h_serverHello s) = ch_sessionId (h_clientHello s)"

text \<open>The checks on point formats, renegotiation and ALPN.\<close>

definition pointFormatsOk :: "bytes \<Rightarrow> bool" where
  "pointFormatsOk formats \<longleftrightarrow> \<not> (\<not> list_ex (\<lambda>f. f = pointFormatUncompressed) formats \<and> list_ex (\<lambda>f. f \<noteq> pointFormatUncompressed) formats)"

definition checkRenegotiation :: "(clientHandshakeState, unit) hs" where
  "checkRenegotiation = hsBind (hsGet id) (\<lambda>s. let c = hb_c s; sh = h_serverHello s in hsSeq [
     hsWhen (c_handshakes c = 0 \<and> sh_secureRenegotiationSupported sh) (hsSeq [
       modConn (\<lambda>c. c\<lparr>c_secureRenegotiation := True\<rparr>),
       failIf (length (sh_secureRenegotiation sh) \<noteq> 0) alertHandshakeFailure
         ''tls: initial handshake had non-empty renegotiation extension'']),
     hsWhen (c_handshakes c > 0 \<and> c_secureRenegotiation c)
       (failIf (sh_secureRenegotiation sh \<noteq> copy_at 12 (copy_at 0 (replicate 24 0) (c_clientFinished c)) (c_serverFinished c))
          alertHandshakeFailure ''tls: incorrect renegotiation extension contents'')])"

definition resumeSession :: "SessionState \<Rightarrow> clientHandshakeState \<Rightarrow> clientHandshakeState" where
  "resumeSession session s = s\<lparr>h_masterSecret := sn_secret session, hb_c := (hb_c s)\<lparr>c_extMasterSecret := sn_extMasterSecret session,
     c_peerCertificates := sn_peerCertificates session, c_verifiedChains := sn_verifiedChains session,
     c_ocspResponse := sn_ocspResponse session,
     c_scts := (if (case c_scts (hb_c s) of None \<Rightarrow> True | Some l \<Rightarrow> l = []) \<and> (case sn_scts session of None \<Rightarrow> False | Some l \<Rightarrow> l \<noteq> [])
       then sn_scts session else c_scts (hb_c s)),
     c_curveID := sn_curveID session\<rparr>\<rparr>"

definition checkResumed :: "SessionState \<Rightarrow> (clientHandshakeState, bool) hs" where
  "checkResumed session = hsBind (hsGet id) (\<lambda>s. hsBind (hsOpt (h_suite s)) (\<lambda>suite. hsBind (hsSeq [
     failIf (sn_version session \<noteq> c_vers (hb_c s)) alertHandshakeFailure ''tls: server resumed a session with a different version'',
     failIf (sn_cipherSuite session \<noteq> cs_id suite) alertHandshakeFailure ''tls: server resumed a session with a different cipher suite'',
     failIf (sn_extMasterSecret session \<noteq> sh_extendedMasterSecret (h_serverHello s)) alertHandshakeFailure
       ''tls: server resumed a session with a different EMS extension'',
     hsModify (resumeSession session)]) (\<lambda>_. hsRet True)))"

definition checkServerHello :: "(clientHandshakeState, unit) hs" where
  "checkServerHello = hsBind (hsGet id) (\<lambda>s. let sh = h_serverHello s in hsSeq [
     failIf (sh_compressionMethod sh \<noteq> compressionNone) alertIllegalParameter ''tls: server selected unsupported compression format'',
     hsWhen (\<not> pointFormatsOk (sh_supportedPoints sh)) (hsFail (ErrorsNew ''tls: server offered only incompatible point formats'')),
     checkRenegotiation,
     errAlert alertUnsupportedExtension (checkALPN (ch_alpnProtocols (h_clientHello s)) (sh_alpnProtocol sh) False),
     modConn (\<lambda>c. c\<lparr>c_clientProtocol := sh_alpnProtocol sh, c_scts := (if sh_scts sh = [] then None else Some (sh_scts sh))\<rparr>)])"

definition client_processServerHello :: "(clientHandshakeState, bool) hs" where
  "client_processServerHello = hsBind client_pickCipherSuite (\<lambda>_. hsBind checkServerHello (\<lambda>_. hsBind (hsGet id) (\<lambda>s.
     if \<not> serverResumedSession s then hsRet False
     else hsBind (hsOpt (k_session s)) checkResumed)))"

section \<open>The full handshake\<close>

definition readServerCerts :: "('b, 'x) cryptobyte_scheme \<Rightarrow> (clientHandshakeState, bytes list) hs" where
  "readServerCerts C = hsBind (read12 C) (\<lambda>msg. case msg of
     CertificateM certMsg \<Rightarrow> if length (cm_certificates certMsg) = 0 then unexpected ''*tls.certificateMsg'' msg
       else hsRet (cm_certificates certMsg)
   | _ \<Rightarrow> unexpected ''*tls.certificateMsg'' msg)"

text \<open>A CertificateStatus message is optional; the result is the message behind it.\<close>

definition readCertificateStatus :: "('b, 'x) cryptobyte_scheme \<Rightarrow> (clientHandshakeState, handshakeMessage) hs" where
  "readCertificateStatus C = hsBind (read12 C) (\<lambda>msg. case msg of
     CertificateStatusM cs \<Rightarrow> hsBind (hsGet (\<lambda>s. sh_ocspStapling (h_serverHello s))) (\<lambda>stapling. hsBind (hsSeq [
         failIf (\<not> stapling) alertUnexpectedMessage ''tls: received unexpected CertificateStatus message'',
         modConn (\<lambda>c. c\<lparr>c_ocspResponse := Some (cs_response cs)\<rparr>)]) (\<lambda>_. read12 C))
   | _ \<Rightarrow> hsRet msg)"

text \<open>The first certificate of the peer, which the code indexes without a check.\<close>

definition peerCert :: "('z hsBase_scheme, x509Certificate) hs" where
  "peerCert = hsBind (hsGet (\<lambda>s. c_peerCertificates (hb_c s))) (\<lambda>certs. hsOpt (if certs = [] then None else Some (hd certs)))"

definition checkServerCerts :: "hsEnv \<Rightarrow> bytes list \<Rightarrow> (clientHandshakeState, unit) hs" where
  "checkServerCerts E certificates = hsBind (hsGet (\<lambda>s. c_handshakes (hb_c s))) (\<lambda>handshakes.
     if handshakes = 0 then verifyServerCertificate E certificates
     else hsBind peerCert (\<lambda>cert. hsBind (hsOpt (if certificates = [] then None else Some (hd certificates))) (\<lambda>der.
       failIf (crt_Raw cert \<noteq> der) alertBadCertificate ''tls: server's identity changed during renegotiation'')))"

text \<open>The ServerKeyExchange, when there is one; the key agreement and the next message are returned.\<close>

definition readServerKeyExchangeMsg :: "('b, 'x) cryptobyte_scheme \<Rightarrow> hsEnv \<Rightarrow> handshakeMessage \<Rightarrow>
    (clientHandshakeState, keyAgreement \<times> handshakeMessage) hs" where
  "readServerKeyExchangeMsg C E msg = hsBind (hsGet id) (\<lambda>s. hsBind (hsOpt (h_suite s)) (\<lambda>suite.
     let ka = newKeyAgreement (cs_ka suite) (c_vers (hb_c s)) in
     case msg of
       ServerKeyExchangeM skx \<Rightarrow> hsBind peerCert (\<lambda>cert.
         hsBind (hsOpt (processServerKeyExchange (he_ka E) (c_rand (hb_c s)) (h_clientHello s) (h_serverHello s) cert skx ka)) (\<lambda>(ka, r).
         hsBind (resAlert alertIllegalParameter r) (\<lambda>rand. hsBind (hsSeq [
           modConn (set_rand rand),
           (case ka of
              EcdheKeyAgreement k \<Rightarrow> modConn (\<lambda>c. c\<lparr>c_curveID := ek_curveID k, c_peerSigAlg := ek_signatureAlgorithm k\<rparr>)
            | RsaKeyAgreement \<Rightarrow> hsRet ())]) (\<lambda>_. hsBind (read12 C) (\<lambda>msg. hsRet (ka, msg))))))
     | _ \<Rightarrow> hsRet (ka, msg)))"

text \<open>The CertificateRequest, when there is one, with the certificate that answers it, up to the ServerHelloDone.\<close>

definition readRequestAndDone :: "('b, 'x) cryptobyte_scheme \<Rightarrow> hsEnv \<Rightarrow> handshakeMessage \<Rightarrow>
    (clientHandshakeState, (certificateRequestMsg \<times> localCertificate option) option) hs" where
  "readRequestAndDone C E msg =
     (let finish = (\<lambda>req msg. if msg = ServerHelloDoneM then hsRet req else unexpected ''*tls.serverHelloDoneMsg'' msg) in
      case msg of
        CertificateRequestM certReq \<Rightarrow> hsBind (hsGet id) (\<lambda>s.
          hsBind (resAlert alertInternalError (getClientCertificate E (hb_x s) (certificateRequestInfoFromMsg (c_vers (hb_c s)) certReq))) (\<lambda>chain.
          hsBind (read12 C) (\<lambda>msg. finish (Some (certReq, chain)) msg)))
      | _ \<Rightarrow> finish None msg)"

text \<open>The client's Certificate (of a nil certificate, a panic) and ClientKeyExchange.\<close>

definition sendClientKeyExchange :: "('b, 'x) cryptobyte_scheme \<Rightarrow> hsEnv \<Rightarrow> keyAgreement \<Rightarrow>
    (certificateRequestMsg \<times> localCertificate option) option \<Rightarrow> (clientHandshakeState, bytes) hs" where
  "sendClientKeyExchange C E ka req = hsBind
     (case req of
        None \<Rightarrow> hsRet ()
      | Some (_, chain) \<Rightarrow> hsBind (hsOpt chain) (\<lambda>chain. write12 C (CertificateM \<lparr>cm_certificates = Certificate_der chain\<rparr>)))
     (\<lambda>_. hsBind peerCert (\<lambda>cert. hsBind (hsGet id) (\<lambda>s.
        hsBind (resAlert alertInternalError (generateClientKeyExchange (he_ka E) (c_rand (hb_c s)) (h_clientHello s) cert ka))
          (\<lambda>(preMasterSecret, ckx, rand). hsBind (modConn (set_rand rand)) (\<lambda>_.
           hsBind (write12 C (ClientKeyExchangeM ckx)) (\<lambda>_. hsRet preMasterSecret))))))"

definition keyLogFailed :: "goerror \<Rightarrow> goerror" where
  "keyLogFailed e = TextError ''tls: failed to write to key log: '' e"

definition setMasterSecret :: "hsEnv \<Rightarrow> bytes \<Rightarrow> (clientHandshakeState, unit) hs" where
  "setMasterSecret E preMasterSecret = hsSeq [
     computeMasterSecret E preMasterSecret,
     hsBind (hsGet id) (\<lambda>s.
       orAlert alertInternalError (hsMapErr keyLogFailed (writeKeyLog ''CLIENT_RANDOM'' (ch_random (h_clientHello s)) (h_masterSecret s))))]"

definition signOpts :: "u8 \<Rightarrow> cryptoHash \<Rightarrow> signerOpts" where
  "signOpts sigType sigHash = (if sigType = signatureRSAPSS then SignPSS sigHash else SignHash sigHash)"

text \<open>The signature over the transcript, by version.\<close>

definition signTranscript12 :: "hsEnv \<Rightarrow> localCertificate \<Rightarrow> u16 list \<Rightarrow> finishedHash \<Rightarrow> (clientHandshakeState, certificateVerifyMsg \<times> bytes) hs" where
  "signTranscript12 E chain algs fh = hsBind (hsGet hb_c) (\<lambda>c.
     hsBind (resAlert alertHandshakeFailure (selectSignatureScheme (c_vers c) chain algs)) (\<lambda>alg.
     case typeAndHashFromSignatureScheme alg of
       Inl _ \<Rightarrow> returnAlert alertInternalError
     | Inr (sigType, sigHash) \<Rightarrow>
         (case fh_buffer fh of
            None \<Rightarrow> abort alertInternalError (ErrorsNew ''tls: internal error: did not keep handshake transcript for TLS 1.2'')
          | Some buffer \<Rightarrow>
              hsBind (resAlert alertInternalError (ka_SignMessage (he_ka E) (PrivateKey chain) (c_rand c) buffer (signOpts sigType sigHash)))
                (\<lambda>(sig, rand). hsRet (\<lparr>cv_hasSignatureAlgorithm = True, cv_signatureAlgorithm = alg, cv_signature = sig\<rparr>, rand)))))"

definition signTranscriptLegacy :: "hsEnv \<Rightarrow> localCertificate \<Rightarrow> publicKey \<Rightarrow> finishedHash \<Rightarrow> (clientHandshakeState, certificateVerifyMsg \<times> bytes) hs" where
  "signTranscriptLegacy E chain pub fh = hsBind (hsGet hb_c) (\<lambda>c.
     hsBind (resAlert alertIllegalParameter (legacyTypeAndHashFromPublicKey pub)) (\<lambda>(sigType, sigHash).
     hsBind (hsOpt (fh_hashForClientCertificate fh sigType)) (\<lambda>signed.
     hsBind (resAlert alertInternalError (ka_Sign (he_ka E) (PrivateKey chain) (c_rand c) signed sigHash)) (\<lambda>(sig, rand).
     hsRet (\<lparr>cv_hasSignatureAlgorithm = False, cv_signatureAlgorithm = 0, cv_signature = sig\<rparr>, rand)))))"

definition sendCertificateVerify :: "('b, 'x) cryptobyte_scheme \<Rightarrow> hsEnv \<Rightarrow>
    (certificateRequestMsg \<times> localCertificate option) option \<Rightarrow> (clientHandshakeState, unit) hs" where
  "sendCertificateVerify C E req = (case req of
     Some (certReq, Some chain) \<Rightarrow> hsWhen (length (Certificate_der chain) > 0)
       (case asSigner (PrivateKey chain) of
          None \<Rightarrow> abort alertInternalError (ErrorsNew (''tls: client certificate private key of type '' @ privateKeyType (PrivateKey chain) @
                    '' does not implement crypto.Signer''))
        | Some pub \<Rightarrow> hsBind (hsGet id) (\<lambda>s. hsBind (hsOpt (h_finishedHash s)) (\<lambda>fh.
            hsBind (if c_vers (hb_c s) \<ge> VersionTLS12 then signTranscript12 E chain (cr_supportedSignatureAlgorithms certReq) fh
                    else signTranscriptLegacy E chain pub fh) (\<lambda>(certVerify, rand).
            hsBind (modConn (set_rand rand)) (\<lambda>_. write12 C (CertificateVerifyM certVerify))))))
   | _ \<Rightarrow> hsRet ())"

definition client_doFullHandshake :: "('b, 'x) cryptobyte_scheme \<Rightarrow> hsEnv \<Rightarrow> (clientHandshakeState, unit) hs" where
  "client_doFullHandshake C E = hsBind (readServerCerts C) (\<lambda>certificates. hsBind (readCertificateStatus C) (\<lambda>msg.
     hsBind (checkServerCerts E certificates) (\<lambda>_. hsBind (readServerKeyExchangeMsg C E msg) (\<lambda>(ka, msg).
     hsBind (readRequestAndDone C E msg) (\<lambda>req. hsBind (sendClientKeyExchange C E ka req) (\<lambda>preMasterSecret. hsSeq [
       setMasterSecret E preMasterSecret,
       sendCertificateVerify C E req,
       discardBuffer]))))))"

section \<open>Keys, Finished, tickets\<close>

text \<open>The cipher of one direction, chosen by \<open>suite.cipher\<close> being set; \<open>None\<close> is a panic.\<close>

definition cipherProtection :: "hsEnv \<Rightarrow> cipherSuite \<Rightarrow> bytes \<Rightarrow> bytes \<Rightarrow> bytes \<Rightarrow> bool \<Rightarrow> (recordCipher \<times> macHash option) option" where
  "cipherProtection E suite mac key iv isRead = (case cs_cipher suite of
     Some f \<Rightarrow> (case cs_mac suite of Some g \<Rightarrow> Some (suiteCipher E f key iv isRead, Some (suiteMac E g mac)) | None \<Rightarrow> None)
   | None \<Rightarrow> (case cs_aead suite of Some f \<Rightarrow> map_option (\<lambda>a. (Aead a, None)) (suiteAead E f key iv) | None \<Rightarrow> None))"

definition client_establishKeys :: "hsEnv \<Rightarrow> (clientHandshakeState, unit) hs" where
  "client_establishKeys E = hsBind (hsGet id) (\<lambda>s. hsBind (hsOpt (h_suite s)) (\<lambda>suite. hsBind (hsOpt (keys12 E s)) (\<lambda>k.
     hsBind (hsOpt (cipherProtection E suite (ck_clientMAC k) (ck_clientKey k) (ck_clientIV k) False)) (\<lambda>(clientCipher, clientHash).
     hsBind (hsOpt (cipherProtection E suite (ck_serverMAC k) (ck_serverKey k) (ck_serverIV k) True)) (\<lambda>(serverCipher, serverHash).
     modConn (\<lambda>c. c\<lparr>c_in := hc_prepareCipherSpec (c_in c) (c_vers c) (Some serverCipher) serverHash,
       c_out := hc_prepareCipherSpec (c_out c) (c_vers c) (Some clientCipher) clientHash\<rparr>))))))"

definition client_readFinished :: "('b, 'x) cryptobyte_scheme \<Rightarrow> (clientHandshakeState, bytes) hs" where
  "client_readFinished C = hsBind (onConn readChangeCipherSpec) (\<lambda>_. hsBind (readMsg C) (\<lambda>(msg, _). case msg of
     FinishedM serverFinished \<Rightarrow> hsBind (hsGet id) (\<lambda>s.
       hsBind (hsOpt (Option.bind (h_finishedHash s) (\<lambda>fh. fh_serverSum fh (h_masterSecret s)))) (\<lambda>verify.
       hsBind (hsSeq [
         failIf (length verify \<noteq> length (fin_verifyData serverFinished) \<or> verify \<noteq> fin_verifyData serverFinished)
           alertHandshakeFailure ''tls: server's Finished message was incorrect'',
         transcript12 C (FinishedM serverFinished)]) (\<lambda>_. hsRet verify)))
   | _ \<Rightarrow> unexpected ''*tls.finishedMsg'' msg))"

definition readSessionTicket :: "('b, 'x) cryptobyte_scheme \<Rightarrow> (clientHandshakeState, unit) hs" where
  "readSessionTicket C = hsBind (hsGet id) (\<lambda>s. hsWhen (sh_ticketSupported (h_serverHello s))
     (hsBind (failIf (\<not> ch_ticketSupported (h_clientHello s)) alertIllegalParameter ''tls: server sent unrequested session ticket'') (\<lambda>_.
      hsBind (read12 C) (\<lambda>msg. case msg of
        NewSessionTicketM m \<Rightarrow> hsModify (k_ticket_update (\<lambda>_. Some (nst_ticket m)))
      | _ \<Rightarrow> unexpected ''*tls.newSessionTicketMsg'' msg))))"

definition saveSessionTicket :: "hsEnv \<Rightarrow> (clientHandshakeState, unit) hs" where
  "saveSessionTicket E = hsBind (hsGet id) (\<lambda>s. case k_ticket s of
     None \<Rightarrow> hsRet ()
   | Some ticket \<Rightarrow> (let cacheKey = clientSessionCacheKey (hb_c s) in
       if cacheKey = [] then hsRet ()
       else cachePut cacheKey (Some (Some ((conn_sessionState (he_now E) (hb_c s))\<lparr>sn_secret := h_masterSecret s, sn_ticket := ticket\<rparr>)))))"

definition client_sendFinished :: "('b, 'x) cryptobyte_scheme \<Rightarrow> (clientHandshakeState, bytes) hs" where
  "client_sendFinished C = hsBind (onConn writeChangeCipherRecord) (\<lambda>_. hsBind (hsGet id) (\<lambda>s.
     hsBind (hsOpt (Option.bind (h_finishedHash s) (\<lambda>fh. fh_clientSum fh (h_masterSecret s)))) (\<lambda>verifyData.
     hsBind (write12 C (FinishedM \<lparr>fin_verifyData = verifyData\<rparr>)) (\<lambda>_. hsRet verifyData))))"

section \<open>The handshake\<close>

definition client_resumed :: "('b, 'x) cryptobyte_scheme \<Rightarrow> hsEnv \<Rightarrow> (clientHandshakeState, unit) hs" where
  "client_resumed C E = hsSeq [
     client_establishKeys E,
     readSessionTicket C,
     hsBind (client_readFinished C) keepServerFinished,
     modConn (\<lambda>c. c\<lparr>c_clientFinishedIsFirst := False\<rparr>),
     verifyConnection,
     hsBind (client_sendFinished C) keepClientFinished,
     flushHs]"

definition client_full :: "('b, 'x) cryptobyte_scheme \<Rightarrow> hsEnv \<Rightarrow> (clientHandshakeState, unit) hs" where
  "client_full C E = hsSeq [
     client_doFullHandshake C E,
     client_establishKeys E,
     hsBind (client_sendFinished C) keepClientFinished,
     flushHs,
     modConn (\<lambda>c. c\<lparr>c_clientFinishedIsFirst := True\<rparr>),
     readSessionTicket C,
     hsBind (client_readFinished C) keepServerFinished]"

definition startTranscript :: "('b, 'x) cryptobyte_scheme \<Rightarrow> hsEnv \<Rightarrow> bool \<Rightarrow> (clientHandshakeState, unit) hs" where
  "startTranscript C E isResume = hsBind (hsGet id) (\<lambda>s. hsSeq [
     setFinishedHash E,
     hsWhen (isResume \<or> length (cx_Certificates (hb_x s)) = 0 \<and> cx_GetClientCertificate (hb_x s) = None) discardBuffer,
     transcript12 C (ClientHelloM (h_clientHello s)),
     transcript12 C (ServerHelloM (h_serverHello s))])"

definition client_handshake :: "('b, 'x) cryptobyte_scheme \<Rightarrow> hsEnv \<Rightarrow> (clientHandshakeState, unit) hs" where
  "client_handshake C E = hsBind (hsGet id) (\<lambda>s. hsSeq [
     failIf (k_session s = None \<and> ch_sessionId (h_clientHello s) \<noteq> [] \<and> ch_sessionId (h_clientHello s) = sh_sessionId (h_serverHello s))
       alertIllegalParameter ''tls: server echoed TLS 1.3 compatibility session ID in TLS 1.2'',
     hsBind client_processServerHello (\<lambda>isResume. hsSeq [
       startTranscript C E isResume,
       modConn (\<lambda>c. c\<lparr>c_buffering := True, c_didResume := isResume\<rparr>),
       if isResume then client_resumed C E else client_full C E]),
     saveSessionTicket E,
     hsBind (hsGet (ekm12 E)) (\<lambda>ekm. hsModify (hb_ekm_update (\<lambda>_. ekm))),
     modConn (\<lambda>c. c\<lparr>c_isHandshakeComplete := True\<rparr>)])"

section \<open>What a handshake settles\<close>

text \<open>
  The outcome of a client's handshake, which its transport, key exchange and transcript do not touch: only a resumed session, the
  server's certificates and the last step assign it.
\<close>

definition client_settled :: "clientHandshakeState \<Rightarrow> bool \<times> Config \<times> configExt \<times> bool \<times> nat \<times> u16 \<times> x509Certificate list \<times>
    x509Certificate list list \<times> bool \<times> SessionState option" where
  "client_settled s = (c_isHandshakeComplete (hb_c s), fixedConfig s, hb_x s, c_echAccepted (hb_c s), c_handshakes (hb_c s), c_vers (hb_c s),
     c_peerCertificates (hb_c s), c_verifiedChains (hb_c s), c_didResume (hb_c s), k_session s)"

interpretation cs: kept12 client_settled
proof
  fix s s' :: clientHandshakeState
  assume "transported s s'"
  then obtain c k where io: "io_only (hb_c s) c" and s': "s' = s\<lparr>hb_c := c, hb_keyLog := k\<rparr>" by (auto simp: transported_def)
  show "client_settled s' = client_settled s" by (simp add: s' client_settled_def fixedConfig_def io_only_fields [OF io])
qed (simp add: client_settled_def fixedConfig_def)

lemmas client_rules = keeps_intros cs.hs12_keeps

lemma settles_simp: "client_settled s' = client_settled s \<longleftrightarrow>
    c_isHandshakeComplete (hb_c s') = c_isHandshakeComplete (hb_c s) \<and> fixedConfig s' = fixedConfig s \<and> hb_x s' = hb_x s \<and>
    c_echAccepted (hb_c s') = c_echAccepted (hb_c s) \<and> c_handshakes (hb_c s') = c_handshakes (hb_c s) \<and> c_vers (hb_c s') = c_vers (hb_c s) \<and>
    c_peerCertificates (hb_c s') = c_peerCertificates (hb_c s) \<and> c_verifiedChains (hb_c s') = c_verifiedChains (hb_c s) \<and>
    c_didResume (hb_c s') = c_didResume (hb_c s) \<and> k_session s' = k_session s"
  by (simp add: client_settled_def)

lemma client_pickCipherSuite_settled: "keeps client_settled client_pickCipherSuite"
  unfolding client_pickCipherSuite_def by (intro client_rules; simp add: settles_simp fixedConfig_def)

lemma checkRenegotiation_settled: "keeps client_settled checkRenegotiation"
  unfolding checkRenegotiation_def Let_def modConn_def by (intro client_rules; simp add: settles_simp fixedConfig_def)

lemma peerCert_settled: "keeps client_settled peerCert"
  unfolding peerCert_def by (intro client_rules)

lemma readServerCerts_settled: "keeps client_settled (readServerCerts C)"
  unfolding readServerCerts_def by (intro client_rules) (auto intro!: client_rules split: handshakeMessage.split)

lemma readCertificateStatus_settled: "keeps client_settled (readCertificateStatus C)"
  unfolding readCertificateStatus_def modConn_def
  by (intro client_rules) (auto intro!: client_rules simp: settles_simp fixedConfig_def split: handshakeMessage.split)

lemma readServerKeyExchangeMsg_settled: "keeps client_settled (readServerKeyExchangeMsg C E msg)"
  unfolding readServerKeyExchangeMsg_def Let_def modConn_def
  by (intro client_rules) (auto intro!: client_rules peerCert_settled simp: settles_simp fixedConfig_def
      split: handshakeMessage.split keyAgreement.split)

lemma readRequestAndDone_settled: "keeps client_settled (readRequestAndDone C E msg)"
  unfolding readRequestAndDone_def Let_def by (auto intro!: client_rules split: handshakeMessage.split)

lemma sendClientKeyExchange_settled: "keeps client_settled (sendClientKeyExchange C E ka req)"
  unfolding sendClientKeyExchange_def modConn_def
  by (intro client_rules peerCert_settled; simp add: settles_simp fixedConfig_def split: option.split)

lemma setMasterSecret_settled: "keeps client_settled (setMasterSecret E w)"
  unfolding setMasterSecret_def computeMasterSecret_def modConn_def by (intro client_rules; simp add: settles_simp fixedConfig_def)

lemma sendCertificateVerify_settled: "keeps client_settled (sendCertificateVerify C E req)"
  unfolding sendCertificateVerify_def signTranscript12_def signTranscriptLegacy_def modConn_def
  by (intro client_rules; simp add: settles_simp fixedConfig_def)

lemma client_establishKeys_settled: "keeps client_settled (client_establishKeys E)"
  unfolding client_establishKeys_def modConn_def by (intro client_rules; simp add: settles_simp fixedConfig_def)

lemma client_readFinished_settled: "keeps client_settled (client_readFinished C)"
  unfolding client_readFinished_def
  by (intro client_rules cs.onConn_keeps readChangeCipherSpec_io) (auto intro!: client_rules split: handshakeMessage.split)

lemma readSessionTicket_settled: "keeps client_settled (readSessionTicket C)"
  unfolding readSessionTicket_def
  by (intro client_rules) (auto intro!: client_rules simp: settles_simp fixedConfig_def split: handshakeMessage.split)

lemma saveSessionTicket_settled: "keeps client_settled (saveSessionTicket E)"
  unfolding saveSessionTicket_def cachePut_def Let_def modConn_def by (intro client_rules; simp add: settles_simp fixedConfig_def)

lemma client_sendFinished_settled: "keeps client_settled (client_sendFinished C)"
  unfolding client_sendFinished_def by (intro client_rules cs.onConn_keeps writeChangeCipherRecord_io)

lemma startTranscript_settled: "keeps client_settled (startTranscript C E r)"
  unfolding startTranscript_def by (intro client_rules)

lemmas client_ops_settled = client_pickCipherSuite_settled checkRenegotiation_settled readServerCerts_settled readCertificateStatus_settled
  readServerKeyExchangeMsg_settled readRequestAndDone_settled sendClientKeyExchange_settled setMasterSecret_settled
  sendCertificateVerify_settled client_establishKeys_settled client_readFinished_settled readSessionTicket_settled
  saveSessionTicket_settled client_sendFinished_settled startTranscript_settled

lemma client_resumed_settled: "keeps client_settled (client_resumed C E)"
  unfolding client_resumed_def keepServerFinished_def keepClientFinished_def modConn_def
  by (intro client_rules client_ops_settled; simp add: settles_simp fixedConfig_def)

section \<open>What a completed handshake has checked\<close>

lemma fixedConfig_fields:
  assumes "fixedConfig s' = fixedConfig s"
  shows "cfg_InsecureSkipVerify (hb_config s') = cfg_InsecureSkipVerify (hb_config s)" "cfg_ServerName (hb_config s') = cfg_ServerName (hb_config s)"
    "cfg_EncryptedClientHelloConfigList (hb_config s') = cfg_EncryptedClientHelloConfigList (hb_config s)"
  using arg_cong [OF assms, of cfg_InsecureSkipVerify] arg_cong [OF assms, of cfg_ServerName]
    arg_cong [OF assms, of cfg_EncryptedClientHelloConfigList] by (simp_all add: fixedConfig_def)

text \<open>A client that means to verify its server, and that takes the certificate for the name it dialed.\<close>

definition verifying :: "'z hsBase_scheme \<Rightarrow> bool" where
  "verifying s \<longleftrightarrow> \<not> cfg_InsecureSkipVerify (hb_config s) \<and> c_handshakes (hb_c s) = 0 \<and>
     (cfg_EncryptedClientHelloConfigList (hb_config s) = None \<or> c_echAccepted (hb_c s))"

definition server_verified :: "hsEnv \<Rightarrow> 'z hsBase_scheme \<Rightarrow> bool" where
  "server_verified E s \<longleftrightarrow> verified_server E (hb_x s) (cfg_ServerName (hb_config s)) (c_peerCertificates (hb_c s)) (c_verifiedChains (hb_c s))"

lemma settled_config:
  assumes "client_settled s' = client_settled s"
  shows "verifying s' \<longleftrightarrow> verifying s" "server_verified E s' \<longleftrightarrow> server_verified E s"
proof -
  from assms have f: "fixedConfig s' = fixedConfig s" and r: "hb_x s' = hb_x s" "c_echAccepted (hb_c s') = c_echAccepted (hb_c s)"
    "c_handshakes (hb_c s') = c_handshakes (hb_c s)" "c_peerCertificates (hb_c s') = c_peerCertificates (hb_c s)"
    "c_verifiedChains (hb_c s') = c_verifiedChains (hb_c s)"
    by (simp_all add: settles_simp)
  show "verifying s' \<longleftrightarrow> verifying s" by (simp only: verifying_def fixedConfig_fields [OF f] r)
  show "server_verified E s' \<longleftrightarrow> server_verified E s" by (simp only: server_verified_def fixedConfig_fields [OF f] r)
qed

lemma client_doFullHandshake_verified:
  assumes run: "client_doFullHandshake C E s = Some (Inr (), s')" and v: "verifying s"
  shows "server_verified E s'"
proof -
  let ?rest = "\<lambda>msg. hsBind (readServerKeyExchangeMsg C E msg) (\<lambda>(ka, msg). hsBind (readRequestAndDone C E msg) (\<lambda>req.
     hsBind (sendClientKeyExchange C E ka req) (\<lambda>preMasterSecret. hsSeq [setMasterSecret E preMasterSecret, sendCertificateVerify C E req, discardBuffer])))"
  from run obtain certs s1 msg s2 s3 where r1: "readServerCerts C s = Some (Inr certs, s1)"
    and r2: "readCertificateStatus C s1 = Some (Inr msg, s2)" and chk: "checkServerCerts E certs s2 = Some (Inr (), s3)"
    and rest: "?rest msg s3 = Some (Inr (), s')"
    unfolding client_doFullHandshake_def hs_success(4) [of "readServerCerts C"] hs_success(4) [of "readCertificateStatus C"]
      hs_success(4) [of "checkServerCerts E _"] by auto
  have s2: "client_settled s2 = client_settled s"
    using keepsD [OF readServerCerts_settled r1] keepsD [OF readCertificateStatus_settled r2] by simp
  have k: "keeps client_settled (?rest msg)" by (intro client_rules client_ops_settled)
  have v2: "verifying s2" using v settled_config(1) [OF s2] by simp
  then have "verifyServerCertificate E certs s2 = Some (Inr (), s3)"
    using chk by (simp add: checkServerCerts_def hsBind_get verifying_def)
  from verifyServerCertificate_success [OF this] v2 obtain chs where
      s3: "s3 = s2\<lparr>hb_c := (hb_c s2)\<lparr>c_verifiedChains := chs, c_peerCertificates := c_peerCertificates (hb_c s3)\<rparr>\<rparr>"
      and ok: "verified_server E (hb_x s2) (cfg_ServerName (hb_config s2)) (c_peerCertificates (hb_c s3)) chs"
    by (auto simp: verifying_def)
  have "hb_x s3 = hb_x s2" "c_config (hb_c s3) = c_config (hb_c s2)" "c_verifiedChains (hb_c s3) = chs"
    by (subst s3, simp)+
  with ok have "server_verified E s3" by (simp add: server_verified_def)
  then show ?thesis using settled_config(2) [OF keepsD [OF k rest]] by simp
qed

text \<open>What a resumed session settles, and when it is taken.\<close>

definition negotiated :: "clientHandshakeState \<Rightarrow> _ \<times> cipherSuite option \<times> clientHelloMsg \<times> serverHelloMsg" where
  "negotiated s = (client_settled s, h_suite s, h_clientHello s, h_serverHello s)"

interpretation ng: kept12 negotiated
proof
  fix s s' :: clientHandshakeState
  assume t: "transported s s'"
  then show "negotiated s' = negotiated s" using cs.transport [OF t] by (auto simp: negotiated_def transported_def)
qed (simp add: negotiated_def cs.transcript_step)

lemma mutualCipherSuite_Some: "mutualCipherSuite have' want = Some c \<Longrightarrow> cs_id c = want \<and> want \<in> set have'"
  by (induction have' want rule: mutualCipherSuite.induct) (auto simp: cipherSuiteByID_iff split: if_split_asm)

lemma client_pickCipherSuite_success:
  assumes "client_pickCipherSuite s = Some (Inr (), s')"
  shows "\<exists>suite. mutualCipherSuite (ch_cipherSuites (h_clientHello s)) (sh_cipherSuite (h_serverHello s)) = Some suite \<and>
    s' = s\<lparr>h_suite := Some suite, hb_c := (hb_c s)\<lparr>c_cipherSuite := cs_id suite\<rparr>\<rparr>"
  using assms by (auto simp: client_pickCipherSuite_def hs_simps split: option.split_asm)

lemma checkResumed_success:
  assumes "checkResumed session s = Some (Inr b, s')"
  shows "b \<and> s' = resumeSession session s \<and> sn_version session = c_vers (hb_c s) \<and>
    (\<exists>suite. h_suite s = Some suite \<and> sn_cipherSuite session = cs_id suite) \<and>
    (sn_extMasterSecret session \<longleftrightarrow> sh_extendedMasterSecret (h_serverHello s))"
  using assms by (auto simp: checkResumed_def hs_simps)

lemma client_processServerHello_success:
  assumes "client_processServerHello s = Some (Inr isResume, s')"
  shows "c_isHandshakeComplete (hb_c s') = c_isHandshakeComplete (hb_c s) \<and> c_vers (hb_c s') = c_vers (hb_c s) \<and>
    (if isResume
     then \<exists>session. k_session s = Some session \<and> c_peerCertificates (hb_c s') = sn_peerCertificates session \<and>
       c_verifiedChains (hb_c s') = sn_verifiedChains session \<and> h_masterSecret s' = sn_secret session \<and>
       sn_version session = c_vers (hb_c s) \<and> sn_cipherSuite session = sh_cipherSuite (h_serverHello s) \<and>
       sn_cipherSuite session \<in> set (ch_cipherSuites (h_clientHello s)) \<and>
       (sn_extMasterSecret session \<longleftrightarrow> sh_extendedMasterSecret (h_serverHello s)) \<and>
       ch_sessionId (h_clientHello s) \<noteq> [] \<and> sh_sessionId (h_serverHello s) = ch_sessionId (h_clientHello s)
     else client_settled s' = client_settled s)"
proof -
  from assms obtain s1 s2 where p: "client_pickCipherSuite s = Some (Inr (), s1)" and checks: "checkServerHello s1 = Some (Inr (), s2)"
    and last: "(if \<not> serverResumedSession s2 then hsRet False else hsBind (hsOpt (k_session s2)) checkResumed) s2 = Some (Inr isResume, s')"
    unfolding client_processServerHello_def hs_success(4) hs_success(5) by auto
  from client_pickCipherSuite_success [OF p] obtain suite where
      m: "mutualCipherSuite (ch_cipherSuites (h_clientHello s)) (sh_cipherSuite (h_serverHello s)) = Some suite"
    and s1: "s1 = s\<lparr>h_suite := Some suite, hb_c := (hb_c s)\<lparr>c_cipherSuite := cs_id suite\<rparr>\<rparr>" by blast
  have k: "keeps negotiated checkServerHello"
    unfolding checkServerHello_def modConn_def checkRenegotiation_def Let_def
    by (intro keeps_intros ng.hs12_keeps; simp add: negotiated_def settles_simp fixedConfig_def)
  have n: "negotiated s2 = negotiated s1" using keepsD [OF k checks] .
  then have cs2: "client_settled s2 = client_settled s" by (simp add: negotiated_def s1 settles_simp fixedConfig_def)
  show ?thesis
  proof (cases "serverResumedSession s2")
    case False
    with last cs2 show ?thesis by (simp add: hs_success(1) settles_simp)
  next
    case True
    then obtain session where ss: "k_session s = Some session" "ch_sessionId (h_clientHello s) \<noteq> []"
      "sh_sessionId (h_serverHello s) = ch_sessionId (h_clientHello s)"
      using n by (auto simp: serverResumedSession_def negotiated_def settles_simp s1)
    with last True n have "checkResumed session s2 = Some (Inr isResume, s')"
      by (simp add: negotiated_def settles_simp s1 hsBind_def hsOpt_def hsRet_def)
    from checkResumed_success [OF this] n cs2 ss mutualCipherSuite_Some [OF m] show ?thesis
      by (auto simp: resumeSession_def negotiated_def settles_simp s1)
  qed
qed

text \<open>The same outcome but for the server's certificates, which the whole handshake keeps up to its last assignments.\<close>

definition client_progress :: "clientHandshakeState \<Rightarrow> bool \<times> Config \<times> configExt \<times> bool \<times> nat \<times> u16 \<times> bool \<times> SessionState option" where
  "client_progress s = (c_isHandshakeComplete (hb_c s), fixedConfig s, hb_x s, c_echAccepted (hb_c s), c_handshakes (hb_c s), c_vers (hb_c s),
     c_didResume (hb_c s), k_session s)"

interpretation pr: kept12 client_progress
proof
  fix s s' :: clientHandshakeState
  assume t: "transported s s'"
  then show "client_progress s' = client_progress s" using cs.transport [OF t] by (simp add: client_progress_def settles_simp)
qed (simp add: client_progress_def fixedConfig_def)

lemma keeps_progress: "keeps client_settled m \<Longrightarrow> keeps client_progress m"
  by (auto simp: keeps_def client_progress_def settles_simp)

lemmas progress_rules = keeps_intros pr.hs12_keeps client_ops_settled [THEN keeps_progress] peerCert_settled [THEN keeps_progress]

lemma verifyServerChain_progress: "keeps client_progress (verifyServerChain E name certs)"
  unfolding verifyServerChain_def modConn_def
  by (intro progress_rules) (auto intro!: progress_rules simp: client_progress_def fixedConfig_def split: list.split)

lemma verifyServerCertificate_progress: "keeps client_progress (verifyServerCertificate E certificates)"
  unfolding verifyServerCertificate_def Let_def modConn_def
  by (intro progress_rules verifyServerChain_progress; simp add: client_progress_def fixedConfig_def)

lemma client_doFullHandshake_progress: "keeps client_progress (client_doFullHandshake C E)"
  unfolding client_doFullHandshake_def checkServerCerts_def by (intro progress_rules verifyServerCertificate_progress)

lemma client_full_progress: "keeps client_progress (client_full C E)"
  unfolding client_full_def keepClientFinished_def keepServerFinished_def modConn_def
  by (intro progress_rules client_doFullHandshake_progress; simp add: client_progress_def fixedConfig_def)

lemma client_processServerHello_progress: "keeps client_progress client_processServerHello"
  unfolding client_processServerHello_def checkServerHello_def checkResumed_def Let_def modConn_def
  by (intro progress_rules; simp add: client_progress_def fixedConfig_def resumeSession_def)

text \<open>The steps of \<open>handshake\<close> after the ServerHello, up to the last assignment.\<close>

lemma client_full_verified:
  assumes run: "client_full C E s = Some (Inr (), s')" and v: "verifying s"
  shows "server_verified E s'"
proof -
  let ?rest = "hsSeq [client_establishKeys E, hsBind (client_sendFinished C) keepClientFinished, flushHs,
     modConn (\<lambda>c. c\<lparr>c_clientFinishedIsFirst := True\<rparr>), readSessionTicket C, hsBind (client_readFinished C) keepServerFinished]"
  from run obtain s1 where f: "client_doFullHandshake C E s = Some (Inr (), s1)" and rest: "?rest s1 = Some (Inr (), s')"
    unfolding client_full_def hsSeq.simps(2) [of "client_doFullHandshake C E"] hs_success(4) by auto
  have k: "keeps client_settled ?rest"
    unfolding keepClientFinished_def keepServerFinished_def modConn_def
    by (intro client_rules client_ops_settled; simp add: settles_simp fixedConfig_def)
  show ?thesis using client_doFullHandshake_verified [OF f v] settled_config(2) [OF keepsD [OF k rest]] by simp
qed

text \<open>The handshake but for its last step.\<close>

definition client_body :: "('b, 'x) cryptobyte_scheme \<Rightarrow> hsEnv \<Rightarrow> clientHandshakeState \<Rightarrow> (clientHandshakeState, bool) hs" where
  "client_body C E s = hsBind (failIf (k_session s = None \<and> ch_sessionId (h_clientHello s) \<noteq> [] \<and>
       ch_sessionId (h_clientHello s) = sh_sessionId (h_serverHello s))
       alertIllegalParameter ''tls: server echoed TLS 1.3 compatibility session ID in TLS 1.2'') (\<lambda>_.
     hsBind client_processServerHello (\<lambda>isResume. hsBind (startTranscript C E isResume) (\<lambda>_.
     hsBind (modConn (\<lambda>c. c\<lparr>c_buffering := True, c_didResume := isResume\<rparr>)) (\<lambda>_.
     hsBind (if isResume then client_resumed C E else client_full C E) (\<lambda>_.
     hsBind (saveSessionTicket E) (\<lambda>_. hsBind (hsGet (ekm12 E)) (\<lambda>ekm. hsBind (hsModify (hb_ekm_update (\<lambda>_. ekm))) (\<lambda>_. hsRet isResume))))))))"

lemma client_handshake_split:
  "client_handshake C E s = hsBind (client_body C E s) (\<lambda>_. modConn (\<lambda>c. c\<lparr>c_isHandshakeComplete := True\<rparr>)) s"
  unfolding client_handshake_def client_body_def hsBind_get hsSeq.simps hsBind_assoc hsBind_ret hsBind_unit id_apply ..

definition client_completed :: "clientHandshakeState \<Rightarrow> bool" where
  "client_completed s = c_isHandshakeComplete (hb_c s)"

lemma keeps_client_completed: "keeps client_progress m \<Longrightarrow> keeps client_completed m"
  by (auto simp: keeps_def client_completed_def client_progress_def)

lemma client_body_completed: "keeps client_completed (client_body C E s)"
proof -
  have r: "keeps client_completed (client_resumed C E)" "keeps client_completed (client_full C E)"
    "keeps client_completed client_processServerHello" "keeps client_completed (startTranscript C E b)"
    "keeps client_completed (saveSessionTicket E)" "keeps client_completed (failIf b a t)" for b a t
    by (intro keeps_client_completed client_resumed_settled [THEN keeps_progress] client_full_progress client_processServerHello_progress
        progress_rules)+
  show ?thesis unfolding client_body_def modConn_def by (intro keeps_intros r; simp add: client_completed_def)
qed

lemma client_body_verified:
  assumes run: "client_body C E s s = Some (Inr isResume, s')" and v: "verifying s"
  shows "c_didResume (hb_c s') = isResume \<and> (if isResume
    then \<exists>session. k_session s = Some session \<and> c_peerCertificates (hb_c s') = sn_peerCertificates session \<and>
       c_verifiedChains (hb_c s') = sn_verifiedChains session \<and> sn_version session = c_vers (hb_c s) \<and>
       sn_cipherSuite session = sh_cipherSuite (h_serverHello s) \<and> sn_cipherSuite session \<in> set (ch_cipherSuites (h_clientHello s)) \<and>
       (sn_extMasterSecret session \<longleftrightarrow> sh_extendedMasterSecret (h_serverHello s))
    else server_verified E s')"
proof -
  let ?up = "\<lambda>s. hb_c_update (\<lambda>c. c\<lparr>c_buffering := True, c_didResume := isResume\<rparr>) s"
  from run obtain s1 s2 s3 s4 where p: "client_processServerHello s = Some (Inr isResume, s1)"
    and t: "startTranscript C E isResume s1 = Some (Inr (), s2)"
    and b: "(if isResume then client_resumed C E else client_full C E) (?up s2) = Some (Inr (), s3)"
    and sv: "saveSessionTicket E s3 = Some (Inr (), s4)" and s': "s' = hb_ekm_update (\<lambda>_. ekm12 E s4) s4"
    unfolding client_body_def hs_success(4) by (auto simp: hs_simps)
  have k1: "client_settled s2 = client_settled s1" using keepsD [OF startTranscript_settled t] .
  have "client_settled s4 = client_settled s3" using keepsD [OF saveSessionTicket_settled sv] .
  then have k4: "client_settled s' = client_settled s3" by (simp add: s' settles_simp fixedConfig_def)
  note p' = client_processServerHello_success [OF p]
  show ?thesis
  proof (cases isResume)
    case True
    with b have "client_settled s3 = client_settled (?up s2)" using keepsD [OF client_resumed_settled, of C E "?up s2"] by simp
    with True k1 k4 p' show ?thesis by (auto simp: settles_simp)
  next
    case False
    then have cs: "client_settled s2 = client_settled s" using p' k1 by simp
    then have "verifying s2" using v settled_config(1) by blast
    then have "verifying (?up s2)" by (simp add: verifying_def)
    with False b have "server_verified E s3" "client_progress s3 = client_progress (?up s2)"
      using client_full_verified [of C E "?up s2" s3] keepsD [OF client_full_progress, of C E "?up s2"] by simp_all
    with False k4 settled_config(2) [OF k4] show ?thesis by (simp add: client_progress_def settles_simp)
  qed
qed

section \<open>Properties\<close>


definition client12_sample :: clientHandshakeState where
  "client12_sample = clientHandshakeState_new \<lparr>hb_c = conn12_sample\<lparr>c_isClient := True\<rparr>, hb_x = configExt_zero, hb_ekm = None, hb_keyLog = []\<rparr>
     (clientHelloMsg_zero\<lparr>ch_sessionId := [7]\<rparr>) (serverHelloMsg_zero\<lparr>sh_sessionId := [7]\<rparr>) None"

lemma client12_sample_fields:
  "\<not> c_isHandshakeComplete (hb_c client12_sample)" "\<not> cfg_InsecureSkipVerify (hb_config client12_sample)"
  "c_handshakes (hb_c client12_sample) = 0" "cfg_EncryptedClientHelloConfigList (hb_config client12_sample) = None"
  "k_session client12_sample = None" "ch_sessionId (h_clientHello client12_sample) = [7]" "sh_sessionId (h_serverHello client12_sample) = [7]"
  by (simp_all add: client12_sample_def clientHandshakeState_new_def conn12_sample_def conn_sample_def config12_sample_def emptyConfig_def)


section \<open>The keys of both ends\<close>

text \<open>What the cipher packages promise: each pair of ciphers made for a key undoes the other, MACs have their size.\<close>

definition ciphers_ok :: "hsEnv \<Rightarrow> bool" where
  "ciphers_ok E \<longleftrightarrow> (\<forall>key iv. cbc_pair (he_aes E key iv False) (he_aes E key iv True) \<and>
       cbc_pair (he_tripleDES E key iv False) (he_tripleDES E key iv True)) \<and>
     (\<forall>key. macHash_ok (he_hmacSHA1 E key) \<and> mac_Size (he_hmacSHA1 E key) < 65536 \<and>
       macHash_ok (he_hmacSHA256 E key) \<and> mac_Size (he_hmacSHA256 E key) < 65536) \<and>
     (\<forall>key a. he_newGCM E key = Some a \<or> he_newPoly E key = Some a \<longrightarrow> cipherAEAD_ok a \<and> ca_Overhead a < 65536)"

text \<open>Every suite of the table has an AEAD or a cipher with a MAC, so that the client and the server choose alike.\<close>

lemma cipherProtection_eq: "suite \<in> set cipherSuites \<Longrightarrow> cipherProtection E suite = suiteProtection E suite"
  by (intro ext) (auto simp: cipherSuites_def suite_row_def cipherProtection_def suiteProtection_def)

lemma suiteProtection_pair:
  assumes "ciphers_ok E" and "suiteProtection E suite mac key iv False = Some (c, h)" and "suiteProtection E suite mac key iv True = Some (c', h')"
    and "v \<noteq> VersionTLS13"
  shows "cipher_pair v c c' \<and> (if uses_mac c then mac_pair h h' else h' = None)"
proof (cases "cs_aead suite")
  case (Some f)
  with assms show ?thesis
    by (cases f) (auto simp: suiteProtection_def ciphers_ok_def aeadAESGCM_def aeadChaCha20Poly1305_def uses_mac_def copy_at_def
        split: if_split_asm option.split_asm)
next
  case None
  with assms(2) obtain f g where "cs_cipher suite = Some f" "cs_mac suite = Some g" by (auto simp: suiteProtection_def split: option.split_asm)
  with None assms show ?thesis
    by (cases f; cases g) (auto simp: suiteProtection_def ciphers_ok_def uses_mac_def mac_pair_def)
qed

lemma prepared_pair:
  assumes "cipher_pair v c c' \<and> (if uses_mac c then mac_pair h h' else h' = None)" and "v \<noteq> VersionTLS13"
  shows "\<exists>out' in'. hc_changeCipherSpec (hc_prepareCipherSpec hout v (Some c) h) = (None, out') \<and>
    hc_changeCipherSpec (hc_prepareCipherSpec hin v (Some c') h') = (None, in') \<and> rl_paired (out', rand) in'"
  using assms by (simp add: hc_changeCipherSpec_def hc_prepareCipherSpec_def rl_paired_def halfConn_pair_def)

text \<open>
  (C36) Both ends of a TLS 1.0 to 1.2 handshake derive matching record protection: a client and a server that agree on the version,
  the suite (any of the table), the master secret and the two randoms prepare, in \<open>establishKeys\<close>, ciphers such that after each
  ChangeCipherSpec what the client protects the server opens and what the server protects the client opens: the halves of both
  directions are paired, as the delivery of messages and data requires.
\<close>

theorem established_keys_paired:
  assumes "ciphers_ok E" and "suite \<in> set cipherSuites" and "c_vers (hb_c s) \<noteq> VersionTLS13"
    and "client_establishKeys E k = Some (Inr (), k')" and "establishKeys E s = Some (Inr (), s')"
    and "h_suite k = Some suite" and "h_suite s = Some suite" and "c_vers (hb_c k) = c_vers (hb_c s)"
    and "h_masterSecret k = h_masterSecret s" and "ch_random (h_clientHello k) = ch_random (h_clientHello s)"
    and "sh_random (h_serverHello k) = sh_random (h_serverHello s)"
  shows "(\<exists>out' in'. hc_changeCipherSpec (c_out (hb_c k')) = (None, out') \<and> hc_changeCipherSpec (c_in (hb_c s')) = (None, in') \<and>
      rl_paired (out', c_rand (hb_c k')) in') \<and>
    (\<exists>out' in'. hc_changeCipherSpec (c_out (hb_c s')) = (None, out') \<and> hc_changeCipherSpec (c_in (hb_c k')) = (None, in') \<and>
      rl_paired (out', c_rand (hb_c s')) in')"
proof -
  have ks: "keys12 E k = keys12 E s" using assms by (simp add: keys12_def)
  let ?v = "c_vers (hb_c s)" and ?p = "suiteProtection E suite"
  from assms(5,7) obtain keys c1 h1 c2 h2 where keys: "keys12 E s = Some keys"
    and c1: "?p (ck_clientMAC keys) (ck_clientKey keys) (ck_clientIV keys) True = Some (c1, h1)"
    and c2: "?p (ck_serverMAC keys) (ck_serverKey keys) (ck_serverIV keys) False = Some (c2, h2)"
    and s': "s' = hb_c_update (\<lambda>c. c\<lparr>c_in := hc_prepareCipherSpec (c_in c) (c_vers c) (Some c1) h1,
       c_out := hc_prepareCipherSpec (c_out c) (c_vers c) (Some c2) h2\<rparr>) s"
    by (auto simp: establishKeys_def hs_simps)
  from assms(4,6) keys obtain d1 g1 d2 g2 where d1: "?p (ck_clientMAC keys) (ck_clientKey keys) (ck_clientIV keys) False = Some (d1, g1)"
    and d2: "?p (ck_serverMAC keys) (ck_serverKey keys) (ck_serverIV keys) True = Some (d2, g2)"
    and k': "k' = hb_c_update (\<lambda>c. c\<lparr>c_in := hc_prepareCipherSpec (c_in c) (c_vers c) (Some d2) g2,
       c_out := hc_prepareCipherSpec (c_out c) (c_vers c) (Some d1) g1\<rparr>) k"
    by (auto simp: client_establishKeys_def hs_simps ks cipherProtection_eq [OF assms(2)])
  note pair = prepared_pair [OF suiteProtection_pair [OF assms(1) _ _ assms(3)] assms(3)]
  show ?thesis using pair [OF d1 c1] pair [OF c2 d2] assms(8) by (simp add: s' k')
qed

definition gcm_suite :: cipherSuite where
  "gcm_suite = suite_row TLS_RSA_WITH_AES_128_GCM_SHA256 16 0 4 rsaKA suiteTLS12 None None (Some AeadAESGCM)"

lemma gcm_suite_known: "gcm_suite \<in> set cipherSuites"
  by (simp add: gcm_suite_def cipherSuites_def)

definition keyed_server :: serverHandshakeState where
  "keyed_server = server12_sample\<lparr>h_suite := Some gcm_suite, h_masterSecret := [1, 2, 3]\<rparr>"

definition keyed_client :: clientHandshakeState where
  "keyed_client = client12_sample\<lparr>h_suite := Some gcm_suite, h_masterSecret := [1, 2, 3]\<rparr>"

lemma keys_sample: "\<exists>k. keysFromMasterSecret (he_prf hsEnv_sample) VersionTLS12 gcm_suite [1, 2, 3] [] [] 0 16 4 = Some k \<and>
    length (ck_clientIV k) = 4 \<and> length (ck_serverIV k) = 4"
proof -
  have "prfHashes_ok (he_prf hsEnv_sample)" by (simp add: prfHashes_ok_def hashFn_ok_def hsEnv_sample_def hash_const_def)
  moreover have "pre13 VersionTLS12" by simp
  ultimately show ?thesis using keysFromMasterSecret_spec by blast
qed

theorem established_keys_paired_witness:
  "\<exists>k' s' out' in'. client_establishKeys hsEnv_sample keyed_client = Some (Inr (), k') \<and> establishKeys hsEnv_sample keyed_server = Some (Inr (), s') \<and>
     hc_changeCipherSpec (c_out (hb_c k')) = (None, out') \<and> hc_changeCipherSpec (c_in (hb_c s')) = (None, in') \<and> rl_paired (out', c_rand (hb_c k')) in'"
proof -
  have f: "c_vers (hb_c keyed_client) = VersionTLS12" "c_vers (hb_c keyed_server) = VersionTLS12" "h_suite keyed_client = Some gcm_suite"
    "h_suite keyed_server = Some gcm_suite" "h_masterSecret keyed_client = [1, 2, 3]" "h_masterSecret keyed_server = [1, 2, 3]"
    "ch_random (h_clientHello keyed_client) = []" "ch_random (h_clientHello keyed_server) = []"
    "sh_random (h_serverHello keyed_client) = []" "sh_random (h_serverHello keyed_server) = []"
    by (simp_all add: keyed_client_def keyed_server_def client12_sample_def server12_sample_def clientHandshakeState_new_def
        serverHandshakeState_new_def conn12_sample_def clientHelloMsg_zero_def serverHelloMsg_zero_def)
  have l: "cs_macLen gcm_suite = 0" "cs_keyLen gcm_suite = 16" "cs_ivLen gcm_suite = 4" "cs_cipher gcm_suite = None" "cs_aead gcm_suite = Some AeadAESGCM"
    by (simp_all add: gcm_suite_def suite_row_def)
  have "ciphers_ok hsEnv_sample"
    by (simp add: ciphers_ok_def hsEnv_sample_def cbc_pair_def cbc_sample_def mac_sample_def macHash_ok_def aead_sample_def cipherAEAD_ok_def)
  moreover obtain k' where k': "client_establishKeys hsEnv_sample keyed_client = Some (Inr (), k')"
    using keys_sample f l
    by (auto simp: client_establishKeys_def keys12_def cipherProtection_def aeadAESGCM_def hsEnv_sample_def hsBind_def hsGet_def hsOpt_def hsRet_def
        modConn_def hsModify_def)
  moreover obtain s' where s': "establishKeys hsEnv_sample keyed_server = Some (Inr (), s')"
    using keys_sample f l
    by (auto simp: establishKeys_def keys12_def suiteProtection_def aeadAESGCM_def hsEnv_sample_def hsBind_def hsGet_def hsOpt_def hsRet_def
        modConn_def hsModify_def)
  ultimately have "\<exists>out' in'. hc_changeCipherSpec (c_out (hb_c k')) = (None, out') \<and> hc_changeCipherSpec (c_in (hb_c s')) = (None, in') \<and>
      rl_paired (out', c_rand (hb_c k')) in'"
    using established_keys_paired [OF _ gcm_suite_known _ k' s' f(3,4)] by (simp add: f)
  with k' s' show ?thesis by (intro exI [of _ k'] exI [of _ s']) simp
qed

end
