(* ===== verification/Handshake13.thy ===== *)
theory Handshake13
  imports ClientSetup
begin

text \<open>
  What both sides of a TLS 1.3 handshake share: the transcript hash, the suite and its secrets, the dummy ChangeCipherSpec, the
  confirmation that a server accepted Encrypted Client Hello, the check of a CertificateVerify, and the dispatch of the key
  exchange interface. A running hash is the bytes written to it, so that a clone is the hash itself.
\<close>

section \<open>State\<close>

text \<open>
  The fields that \<open>clientHandshakeStateTLS13\<close> and \<open>serverHandshakeStateTLS13\<close> have in common: \<open>t_hello\<close> is the ClientHello of either side,
  \<open>t_serverHello\<close> the ServerHello.
\<close>

record hs13 = hsBase +
  t_hello :: clientHelloMsg
  t_serverHello :: serverHelloMsg
  t_sentDummyCCS :: bool
  t_usingPSK :: bool
  t_suite :: "cipherSuiteTLS13 option"
  t_earlySecret :: "EarlySecret option"
  t_masterSecret :: "MasterSecret option"
  t_trafficSecret :: bytes
  t_transcript :: "hashState option"

definition helloRetryRequestRandom :: bytes where
  "helloRetryRequestRandom = [
     0xCF, 0x21, 0xAD, 0x74, 0xE5, 0x9A, 0x61, 0x11,
     0xBE, 0x1D, 0x8C, 0x02, 0x1E, 0x65, 0xB8, 0x91,
     0xC2, 0xA2, 0x11, 0x16, 0x7A, 0xBB, 0x8C, 0x5E,
     0x07, 0x9E, 0x09, 0xE2, 0xC8, 0xA8, 0x33, 0x9C]"

abbreviation keyLogLabelClientHandshake :: string where "keyLogLabelClientHandshake \<equiv> ''CLIENT_HANDSHAKE_TRAFFIC_SECRET''"
abbreviation keyLogLabelServerHandshake :: string where "keyLogLabelServerHandshake \<equiv> ''SERVER_HANDSHAKE_TRAFFIC_SECRET''"
abbreviation keyLogLabelClientTraffic :: string where "keyLogLabelClientTraffic \<equiv> ''CLIENT_TRAFFIC_SECRET_0''"
abbreviation keyLogLabelServerTraffic :: string where "keyLogLabelServerTraffic \<equiv> ''SERVER_TRAFFIC_SECRET_0''"

definition getSuite :: "('z hs13_scheme, cipherSuiteTLS13) hs" where
  "getSuite = hsBind (hsGet t_suite) hsOpt"

definition getTranscript :: "('z hs13_scheme, hashState) hs" where
  "getTranscript = hsBind (hsGet t_transcript) hsOpt"

definition setTranscript :: "hashState \<Rightarrow> ('z hs13_scheme, unit) hs" where
  "setTranscript t = hsModify (t_transcript_update (\<lambda>_. Some t))"

section \<open>The transcript\<close>

definition hashWrite :: "bytes \<Rightarrow> ('z hs13_scheme, unit) hs" where
  "hashWrite data = hsBind getTranscript (\<lambda>t. setTranscript (hs_Write t data))"

definition read13 :: "('b, 'x) cryptobyte_scheme \<Rightarrow> ('z hs13_scheme, handshakeMessage) hs" where
  "read13 C = hsBind (readMsg C) (\<lambda>(m, data). hsBind (hashWrite data) (\<lambda>_. hsRet m))"

definition write13 :: "('b, 'x) cryptobyte_scheme \<Rightarrow> handshakeMessage \<Rightarrow> ('z hs13_scheme, unit) hs" where
  "write13 C m = hsBind (writeMsg C m) hashWrite"

definition transcript13 :: "('b, 'x) cryptobyte_scheme \<Rightarrow> handshakeMessage \<Rightarrow> ('z hs13_scheme, unit) hs" where
  "transcript13 C m = hsBind (hsRes (transcriptMsg C m [])) hashWrite"

text \<open>A message hashed into a transcript other than the handshake's.\<close>

definition hashMsg :: "('b, 'x) cryptobyte_scheme \<Rightarrow> handshakeMessage \<Rightarrow> hashState \<Rightarrow> hashState res" where
  "hashMsg C m t = map_sum id (hs_Write t) (transcriptMsg C m [])"

definition cloneHash :: "hashState \<Rightarrow> hashState option" where
  "cloneHash t = Some t"

text \<open>The first ClientHello is replaced by its hash when a HelloRetryRequest is sent.\<close>

definition messageHash :: "hashState \<Rightarrow> hashState" where
  "messageHash t = (let chHash = hs_Sum t in
     hs_Write (hs_Write (hs_new (hs_fn t)) [typeMessageHash, 0, 0, word_of_nat (length chHash)]) chHash)"

definition sendDummyChangeCipherSpec :: "('z hs13_scheme, unit) hs" where
  "sendDummyChangeCipherSpec = hsBind (hsGet id) (\<lambda>s.
     if c_quic (hb_c s) \<noteq> None then hsRet ()
     else if t_sentDummyCCS s then hsRet ()
     else hsBind (hsModify (t_sentDummyCCS_update (\<lambda>_. True))) (\<lambda>_. onConn writeChangeCipherRecord))"

section \<open>Secrets\<close>

definition setReadSecret :: "('b, 'x) cryptobyte_scheme \<Rightarrow> QUICEncryptionLevel \<Rightarrow> bytes \<Rightarrow> ('z hs13_scheme, unit) hs" where
  "setReadSecret C level secret = hsBind getSuite (\<lambda>suite. onConn (\<lambda>c. setReadTrafficSecret C c suite level secret False))"

definition setWriteSecret :: "('b, 'x) cryptobyte_scheme \<Rightarrow> QUICEncryptionLevel \<Rightarrow> bytes \<Rightarrow> ('z hs13_scheme, unit) hs" where
  "setWriteSecret C level secret = hsBind getSuite (\<lambda>suite.
     onConn (\<lambda>c. map_option (\<lambda>c. (None, c)) (setWriteTrafficSecret C c suite level secret)))"

text \<open>The secrets of a level handed to a QUIC transport.\<close>

definition quicSecrets :: "QUICEncryptionLevel \<Rightarrow> bytes \<Rightarrow> bytes \<Rightarrow> ('z hs13_scheme, unit) hs" where
  "quicSecrets level out inn = hsBind getSuite (\<lambda>suite. hsBind (hsGet (\<lambda>s. c_quic (hb_c s) \<noteq> None)) (\<lambda>quic. hsWhen quic (hsSeq [
     modConn (\<lambda>c. quicSetWriteSecret c level (cs13_id suite) out),
     onConn (\<lambda>c. quicSetReadSecret c level (cs13_id suite) inn)])))"

definition quicOutSecret :: "QUICEncryptionLevel \<Rightarrow> bytes \<Rightarrow> ('z hs13_scheme, unit) hs" where
  "quicOutSecret level out = hsBind getSuite (\<lambda>suite. hsBind (hsGet (\<lambda>s. c_quic (hb_c s) \<noteq> None)) (\<lambda>quic.
     hsWhen quic (modConn (\<lambda>c. quicSetWriteSecret c level (cs13_id suite) out))))"

definition logSecret :: "string \<Rightarrow> bytes \<Rightarrow> ('z hs13_scheme, unit) hs" where
  "logSecret label secret = hsBind (hsGet (\<lambda>s. ch_random (t_hello s))) (\<lambda>random.
     orAlert alertInternalError (writeKeyLog label random secret))"

definition ekm13 :: "('b, 'x) cryptobyte_scheme \<Rightarrow> MasterSecret \<Rightarrow> hashState \<Rightarrow> ekmFunc option" where
  "ekm13 C ms t = map_option (\<lambda>f label ctx len. map_option Inr (f label (bytesOf ctx) len)) (exportKeyingMaterial C ms t)"

definition setEkm13 :: "('b, 'x) cryptobyte_scheme \<Rightarrow> MasterSecret \<Rightarrow> ('z hs13_scheme, unit) hs" where
  "setEkm13 C ms = hsBind getTranscript (\<lambda>t. hsBind (hsOpt (ekm13 C ms t)) (\<lambda>ekm. hsModify (hb_ekm_update (\<lambda>_. Some ekm))))"

text \<open>\<open>finishedHash\<close> of the suite over the transcript.\<close>

definition finishedMac :: "('b, 'x) cryptobyte_scheme \<Rightarrow> bytes \<Rightarrow> ('z hs13_scheme, bytes) hs" where
  "finishedMac C baseKey = hsBind getSuite (\<lambda>suite. hsBind getTranscript (\<lambda>t. hsOpt (finishedHash13 C suite baseKey t)))"

section \<open>Encrypted Client Hello\<close>

text \<open>The eight bytes by which a server says that it accepted the inner hello.\<close>

definition acceptConfirmation :: "('b, 'x) cryptobyte_scheme \<Rightarrow> hashFn \<Rightarrow> bytes \<Rightarrow> string \<Rightarrow> hashState \<Rightarrow> bytes option" where
  "acceptConfirmation C h random label confTranscript =
     (let prk = hkdf_Extract h random [] in expandLabel C h prk label (hs_Sum confTranscript) 8)"

section \<open>Key exchange\<close>

definition serverSharedSecret :: "hsEnv \<Rightarrow> keyExchange \<Rightarrow> bytes \<Rightarrow> bytes \<Rightarrow> (bytes \<times> keyShare \<times> bytes) res" where
  "serverSharedSecret E ke rand clientKeyShare = (case ke of
     EcdhKE k \<Rightarrow> ecdh_serverSharedSecret k rand clientKeyShare
   | HybridKE k \<Rightarrow> hybrid_serverSharedSecret k (he_entropy E) rand clientKeyShare)"

definition clientSharedSecret :: "keyExchange \<Rightarrow> keySharePrivateKeys \<Rightarrow> bytes \<Rightarrow> bytes res option" where
  "clientSharedSecret ke priv serverKeyShare = (case ke of
     EcdhKE k \<Rightarrow> Some (ecdh_clientSharedSecret k priv serverKeyShare)
   | HybridKE k \<Rightarrow> hybrid_clientSharedSecret k priv serverKeyShare)"

section \<open>CertificateVerify\<close>

text \<open>The check of a CertificateVerify over the transcript before it; \<open>who\<close> is how the error texts call the certificate.\<close>

definition checkCertificateVerify :: "hsEnv \<Rightarrow> bytes \<Rightarrow> string \<Rightarrow> string \<Rightarrow> certificateVerifyMsg \<Rightarrow> ('z hs13_scheme, unit) hs" where
  "checkCertificateVerify E ctx what who certVerify = hsBind (hsGet hb_c) (\<lambda>c.
     hsBind (hsOpt (case c_peerCertificates c of [] \<Rightarrow> None | cert # _ \<Rightarrow> Some (crt_PublicKey cert))) (\<lambda>pub.
     let alg = cv_signatureAlgorithm certVerify in
     hsBind (failIf (\<not> isSupportedSignatureAlgorithm alg (supportedSignatureAlgorithms (c_vers c)) \<or>
         \<not> isSupportedSignatureAlgorithm alg (signatureSchemesForPublicKey (c_vers c) pub))
       alertIllegalParameter (''tls: '' @ what @ '' used with invalid signature algorithm'')) (\<lambda>_.
     case typeAndHashFromSignatureScheme alg of
       Inl _ \<Rightarrow> returnAlert alertInternalError
     | Inr (sigType, sigHash) \<Rightarrow>
         if sigType = signaturePKCS1v15 \<or> sigHash = SHA1 then returnAlert alertInternalError
         else hsBind getTranscript (\<lambda>t.
           hsBind (hsOpt (verifyHandshakeSignature (ka_sig (he_ka E)) sigType pub sigHash (signedMessage ctx t) (cv_signature certVerify))) (\<lambda>r.
           case r of
             Some err \<Rightarrow> abort alertDecryptError (TextError (''tls: invalid signature by the '' @ who @ '' certificate: '') err)
           | None \<Rightarrow> modConn (\<lambda>c. c\<lparr>c_peerSigAlg := alg\<rparr>))))))"

text \<open>The CertificateVerify that is read, checked and then hashed.\<close>

definition readCertificateVerify13 :: "('b, 'x) cryptobyte_scheme \<Rightarrow> hsEnv \<Rightarrow> bytes \<Rightarrow> string \<Rightarrow> string \<Rightarrow> ('z hs13_scheme, unit) hs" where
  "readCertificateVerify13 C E ctx what who = hsBind (readMsg C) (\<lambda>(msg, _). case msg of
     CertificateVerifyM certVerify \<Rightarrow> hsSeq [
       checkCertificateVerify E ctx what who certVerify,
       transcript13 C (CertificateVerifyM certVerify)]
   | _ \<Rightarrow> unexpected ''*tls.certificateVerifyMsg'' msg)"

section \<open>What handshake code leaves alone\<close>

lemma setReadTrafficSecret_io: "setReadTrafficSecret C c suite l w b = Some (r, c') \<Longrightarrow> io_only c c'"
  unfolding setReadTrafficSecret_def by (auto split: if_split_asm dest: sendAlert_io sendAlertLocked_io)

lemma setWriteTrafficSecret_io: "setWriteTrafficSecret C c suite l w = Some c' \<Longrightarrow> io_only c c'"
  unfolding setWriteTrafficSecret_def by auto

lemma quicSetReadSecret_io: "quicSetReadSecret c l i w = Some (r, c') \<Longrightarrow> io_only c c'"
  unfolding quicSetReadSecret_def by (auto split: if_split_asm dest: sendAlert_io)

text \<open>
  A projection that leaves out the transport, the transcript, the dummy ChangeCipherSpec, the exporter and the signature algorithm of
  the peer is kept by every operation of this theory.
\<close>

locale kept13 = kept f
  for f :: "'z hs13_scheme \<Rightarrow> 'v" +
  assumes hash_step: "f (t_transcript_update g s) = f s" and ccs_step: "f (t_sentDummyCCS_update h s) = f s"
    and ekm_step: "f (hb_ekm_update e s) = f s" and sig_step: "f (hb_c_update (c_peerSigAlg_update a) s) = f s"
begin

lemma getSuite_keeps: "keeps f getSuite"
  unfolding getSuite_def by (intro keeps_intros)

lemma getTranscript_keeps: "keeps f getTranscript"
  unfolding getTranscript_def by (intro keeps_intros)

lemma setTranscript_keeps: "keeps f (setTranscript t)"
  unfolding setTranscript_def by (intro keeps_intros hash_step)

lemma hashWrite_keeps: "keeps f (hashWrite data)"
  unfolding hashWrite_def by (intro keeps_intros getTranscript_keeps setTranscript_keeps)

lemma read13_keeps: "keeps f (read13 C)"
  unfolding read13_def by (intro keeps_intros hashWrite_keeps readMsg_keeps)

lemma write13_keeps: "keeps f (write13 C m)"
  unfolding write13_def by (intro keeps_intros hashWrite_keeps writeMsg_keeps)

lemma transcript13_keeps: "keeps f (transcript13 C m)"
  unfolding transcript13_def by (intro keeps_intros hashWrite_keeps)

lemma sendDummyChangeCipherSpec_keeps: "keeps f sendDummyChangeCipherSpec"
  unfolding sendDummyChangeCipherSpec_def by (intro keeps_intros ccs_step onConn_keeps writeChangeCipherRecord_io)

lemma setReadSecret_keeps: "keeps f (setReadSecret C l w)"
  unfolding setReadSecret_def by (intro keeps_intros getSuite_keeps onConn_keeps setReadTrafficSecret_io)

lemma setWriteSecret_keeps: "keeps f (setWriteSecret C l w)"
  unfolding setWriteSecret_def by (intro keeps_intros getSuite_keeps onConn_keeps) (auto dest: setWriteTrafficSecret_io)

lemma quicSecrets_keeps: "keeps f (quicSecrets l w v)"
  unfolding quicSecrets_def by (intro keeps_intros getSuite_keeps modConn_keeps onConn_keeps) (auto dest: quicSetReadSecret_io)

lemma quicOutSecret_keeps: "keeps f (quicOutSecret l w)"
  unfolding quicOutSecret_def by (intro keeps_intros getSuite_keeps modConn_keeps) simp

lemma logSecret_keeps: "keeps f (logSecret l w)"
  unfolding logSecret_def by (intro keeps_intros orAlert_keeps writeKeyLog_keeps)

lemma setEkm13_keeps: "keeps f (setEkm13 C ms)"
  unfolding setEkm13_def by (intro keeps_intros getTranscript_keeps ekm_step)

lemma finishedMac_keeps: "keeps f (finishedMac C k)"
  unfolding finishedMac_def by (intro keeps_intros getSuite_keeps getTranscript_keeps)

lemma checkCertificateVerify_keeps: "keeps f (checkCertificateVerify E ctx w v m)"
  unfolding checkCertificateVerify_def Let_def modConn_def
  by (intro keeps_intros failIf_keeps returnAlert_keeps getTranscript_keeps abort_keeps sig_step)

lemma readCertificateVerify13_keeps: "keeps f (readCertificateVerify13 C E ctx w v)"
  unfolding readCertificateVerify13_def
  by (intro keeps_intros readMsg_keeps)
    (auto intro!: keeps_intros checkCertificateVerify_keeps transcript13_keeps unexpected_keeps split: handshakeMessage.split)

lemmas hs13_keeps = base_keeps getSuite_keeps getTranscript_keeps setTranscript_keeps hashWrite_keeps read13_keeps write13_keeps
  transcript13_keeps sendDummyChangeCipherSpec_keeps setReadSecret_keeps setWriteSecret_keeps quicSecrets_keeps quicOutSecret_keeps
  logSecret_keeps setEkm13_keeps finishedMac_keeps checkCertificateVerify_keeps readCertificateVerify13_keeps

end

end
