(* ===== verification/Server13.thy ===== *)
theory Server13
  imports Handshake13
begin

text \<open>
  The server's handshake of TLS 1.3 in handshake\_server\_tls13.go, with HelloRetryRequest, pre-shared keys, early data over QUIC,
  Encrypted Client Hello, client certificates and session tickets, and \<open>serverHandshake\<close>, which chooses between it and the handshake
  of the older versions.
\<close>

section \<open>Handshake state\<close>

record serverHandshakeStateTLS13 = hs13 +
  u_earlyData :: bool
  u_cert :: "localCertificate option"
  u_sigAlg :: u16
  u_sharedKey :: bytes
  u_handshakeSecret :: "HandshakeSecret option"
  u_clientFinished :: bytes
  u_echContext :: "echServerContext option"

definition serverHandshakeStateTLS13_new :: "hsBase \<Rightarrow> clientHelloMsg \<Rightarrow> echServerContext option \<Rightarrow> serverHandshakeStateTLS13" where
  "serverHandshakeStateTLS13_new b hello ech = \<lparr>hb_c = hb_c b, hb_x = hb_x b, hb_ekm = hb_ekm b, hb_keyLog = hb_keyLog b,
     t_hello = hello, t_serverHello = serverHelloMsg_zero, t_sentDummyCCS = False, t_usingPSK = False, t_suite = None,
     t_earlySecret = None, t_masterSecret = None, t_trafficSecret = [], t_transcript = None,
     u_earlyData = False, u_cert = None, u_sigAlg = 0, u_sharedKey = [], u_handshakeSecret = None, u_clientFinished = [],
     u_echContext = ech\<rparr>"

section \<open>Answering the hello\<close>

text \<open>The checks that precede any choice, and the random of the ServerHello between them.\<close>

definition checkFallback13 :: "(serverHandshakeStateTLS13, unit) hs" where
  "checkFallback13 = hsBind (hsGet id) (\<lambda>s.
     hsWhen (list_ex (\<lambda>i. i = TLS_FALLBACK_SCSV) (ch_cipherSuites (t_hello s)))
       (hsBind (hsOpt (maxSupportedVersion (Some (hb_config s)) False)) (\<lambda>maxVers.
          failIf (c_vers (hb_c s) < maxVers) alertInappropriateFallback ''tls: client using inappropriate protocol fallback'')))"

definition checkEarlyData :: "(serverHandshakeStateTLS13, unit) hs" where
  "checkEarlyData = hsBind (hsGet id) (\<lambda>s. let ch = t_hello s in
     if ch_earlyData ch \<and> c_quic (hb_c s) \<noteq> None
     then failIf (length (ch_pskIdentities ch) = 0) alertIllegalParameter ''tls: early_data without pre_shared_key''
     else failIf (ch_earlyData ch) alertUnsupportedExtension ''tls: client sent unexpected early data'')"

definition startServerHello :: "(serverHandshakeStateTLS13, unit) hs" where
  "startServerHello = hsBind (hsGet id) (\<lambda>s. let ch = t_hello s in hsSeq [
     hsModify (\<lambda>s. s\<lparr>t_serverHello := serverHelloMsg_zero\<lparr>sh_vers := VersionTLS12, sh_supportedVersion := c_vers (hb_c s)\<rparr>\<rparr>),
     failIf (length (ch_supportedVersions ch) = 0) alertIllegalParameter
       ''tls: client used the legacy version field to negotiate TLS 1.3'',
     checkFallback13,
     failIf (ch_compressionMethods ch \<noteq> [compressionNone]) alertIllegalParameter
       ''tls: TLS 1.3 client supports illegal compression methods'',
     hsBind (orAlert alertInternalError (hsRand 32)) (\<lambda>random. hsModify (t_serverHello_update (sh_random_update (\<lambda>_. random)))),
     failIf (length (ch_secureRenegotiation ch) \<noteq> 0) alertHandshakeFailure
       ''tls: initial handshake had non-empty renegotiation extension'',
     checkEarlyData,
     hsModify (t_serverHello_update (\<lambda>h. h\<lparr>sh_sessionId := ch_sessionId ch, sh_compressionMethod := compressionNone\<rparr>))])"

text \<open>The suite, by the server's order of preference.\<close>

definition preferenceList13 :: "suiteParams \<Rightarrow> u16 list \<Rightarrow> u16 list" where
  "preferenceList13 P offered =
     (if fips140tlsRequired then allowedCipherSuitesTLS13FIPS
      else if \<not> hasAESGCMHardwareSupport \<or> \<not> isAESGCMPreferred P offered then defaultCipherSuitesTLS13NoAES
      else defaultCipherSuitesTLS13)"

fun firstMutual13 :: "suiteParams \<Rightarrow> u16 list \<Rightarrow> u16 list \<Rightarrow> cipherSuiteTLS13 option" where
  "firstMutual13 P offered [] = None"
| "firstMutual13 P offered (suiteID # rest) =
     (case mutualCipherSuiteTLS13 P offered suiteID of
        Some suite \<Rightarrow> Some suite
      | None \<Rightarrow> firstMutual13 P offered rest)"

definition pickSuite13 :: "hsEnv \<Rightarrow> (serverHandshakeStateTLS13, unit) hs" where
  "pickSuite13 E = hsBind (hsGet (\<lambda>s. ch_cipherSuites (t_hello s))) (\<lambda>offered.
     case firstMutual13 (he_suites E) offered (preferenceList13 (he_suites E) offered) of
       None \<Rightarrow> abort alertHandshakeFailure
         (Errorf ''tls: no cipher suite supported by both client and server; client offered: %x'' (map unat offered))
     | Some suite \<Rightarrow> hsModify (\<lambda>s. s\<lparr>t_suite := Some suite, hb_c := (hb_c s)\<lparr>c_cipherSuite := cs13_id suite\<rparr>,
         t_serverHello := (t_serverHello s)\<lparr>sh_cipherSuite := cs13_id suite\<rparr>, t_transcript := Some (hs_new (cs13_hash suite))\<rparr>))"

text \<open>
  The group: one that both sides support, post-quantum exchanges first, then groups that the client sent a share for, then the
  order of the server. \<open>sort.SliceStable\<close> with these two-valued orders is a stable sort by a key.
\<close>

definition hasKeyShare :: "clientHelloMsg \<Rightarrow> u16 \<Rightarrow> bool" where
  "hasKeyShare ch curve \<longleftrightarrow> list_ex (\<lambda>ks. ks_group ks = curve) (ch_keyShares ch)"

definition preferredGroups :: "Config \<Rightarrow> u16 \<Rightarrow> clientHelloMsg \<Rightarrow> u16 list" where
  "preferredGroups config vers ch =
     (let groups = filter (\<lambda>curve. List.member (ch_supportedCurves ch) curve) (curvePreferences (Some config) vers);
          groups = sort_key (\<lambda>g. if hasKeyShare ch g then 0 else 1 :: nat) groups
      in sort_key (\<lambda>g. if isPQKeyExchange g then 0 else 1 :: nat) groups)"

section \<open>HelloRetryRequest\<close>

definition illegalClientHelloChange :: "clientHelloMsg \<Rightarrow> clientHelloMsg \<Rightarrow> bool" where
  "illegalClientHelloChange ch ch1 =
     (let differ = (\<lambda>xs ys. list_ex (\<lambda>i. xs ! i \<noteq> ys ! i) [0..<length xs]) in
      if length (ch_supportedVersions ch) \<noteq> length (ch_supportedVersions ch1) \<or>
         length (ch_cipherSuites ch) \<noteq> length (ch_cipherSuites ch1) \<or>
         length (ch_supportedCurves ch) \<noteq> length (ch_supportedCurves ch1) \<or>
         length (ch_supportedSignatureAlgorithms ch) \<noteq> length (ch_supportedSignatureAlgorithms ch1) \<or>
         length (ch_supportedSignatureAlgorithmsCert ch) \<noteq> length (ch_supportedSignatureAlgorithmsCert ch1) \<or>
         length (ch_alpnProtocols ch) \<noteq> length (ch_alpnProtocols ch1) then True
      else if differ (ch_supportedVersions ch) (ch_supportedVersions ch1) then True
      else if differ (ch_cipherSuites ch) (ch_cipherSuites ch1) then True
      else if differ (ch_supportedCurves ch) (ch_supportedCurves ch1) then True
      else if differ (ch_supportedSignatureAlgorithms ch) (ch_supportedSignatureAlgorithms ch1) then True
      else if differ (ch_supportedSignatureAlgorithmsCert ch) (ch_supportedSignatureAlgorithmsCert ch1) then True
      else if list_ex (\<lambda>i. ch_alpnProtocols ch ! i \<noteq> ch_alpnProtocols ch1 ! i) [0..<length (ch_alpnProtocols ch)] then True
      else ch_vers ch \<noteq> ch_vers ch1 \<or>
        ch_random ch \<noteq> ch_random ch1 \<or>
        ch_sessionId ch \<noteq> ch_sessionId ch1 \<or>
        ch_compressionMethods ch \<noteq> ch_compressionMethods ch1 \<or>
        ch_serverName ch \<noteq> ch_serverName ch1 \<or>
        ch_ocspStapling ch \<noteq> ch_ocspStapling ch1 \<or>
        ch_supportedPoints ch \<noteq> ch_supportedPoints ch1 \<or>
        ch_ticketSupported ch \<noteq> ch_ticketSupported ch1 \<or>
        ch_sessionTicket ch \<noteq> ch_sessionTicket ch1 \<or>
        ch_secureRenegotiationSupported ch \<noteq> ch_secureRenegotiationSupported ch1 \<or>
        ch_secureRenegotiation ch \<noteq> ch_secureRenegotiation ch1 \<or>
        ch_scts ch \<noteq> ch_scts ch1 \<or>
        ch_cookie ch \<noteq> ch_cookie ch1 \<or>
        ch_pskModes ch \<noteq> ch_pskModes ch1)"

definition helloRetryRequest :: "serverHelloMsg \<Rightarrow> u16 \<Rightarrow> serverHelloMsg" where
  "helloRetryRequest hello selectedGroup = serverHelloMsg_zero\<lparr>sh_vers := sh_vers hello, sh_random := helloRetryRequestRandom,
     sh_sessionId := sh_sessionId hello, sh_cipherSuite := sh_cipherSuite hello, sh_compressionMethod := sh_compressionMethod hello,
     sh_supportedVersion := sh_supportedVersion hello, sh_selectedGroup := selectedGroup\<rparr>"

text \<open>The request with the confirmation of an accepted inner hello.\<close>

definition confirmRetry :: "('b, 'x) cryptobyte_scheme \<Rightarrow> serverHelloMsg \<Rightarrow> (serverHandshakeStateTLS13, serverHelloMsg) hs" where
  "confirmRetry C hrr = hsBind (hsGet id) (\<lambda>s.
     if u_echContext s = None then hsRet hrr
     else let hrr = hrr\<lparr>sh_encryptedClientHello := Some (replicate 8 0)\<rparr> in
       hsBind getSuite (\<lambda>suite. hsBind getTranscript (\<lambda>t. hsBind (hsOpt (cloneHash t)) (\<lambda>confTranscript.
       hsBind (hsRes (hashMsg C (ServerHelloM hrr) confTranscript)) (\<lambda>confTranscript.
       hsBind (hsOpt (acceptConfirmation C (cs13_hash suite) (ch_random (t_hello s)) ''hrr ech accept confirmation'' confTranscript)) (\<lambda>w.
       hsRet (hrr\<lparr>sh_encryptedClientHello := Some w\<rparr>)))))))"

text \<open>The second hello, decrypted when the first one carried an inner hello.\<close>

definition secondInner :: "('b, 'x) cryptobyte_scheme \<Rightarrow> clientHelloMsg \<Rightarrow> (serverHandshakeStateTLS13, clientHelloMsg) hs" where
  "secondInner C clientHello = hsBind (hsGet u_echContext) (\<lambda>ctx. case ctx of
     None \<Rightarrow> hsRet clientHello
   | Some ctx \<Rightarrow>
       hsBind (failIf (length (ch_encryptedClientHello clientHello) = 0) alertMissingExtension
         ''tls: second client hello missing encrypted client hello extension'') (\<lambda>_.
       case parseECHExt C (ch_encryptedClientHello clientHello) of
         Inl _ \<Rightarrow> abort alertDecodeError (ErrorsNew ''tls: client sent invalid encrypted client hello extension'')
       | Inr (echType, echCiphersuite, configID, encap, payload) \<Rightarrow>
           hsBind (failIf (echType = outerECHExt \<and> esc_inner ctx \<or> echType = innerECHExt \<and> \<not> esc_inner ctx) alertDecodeError
             ''tls: unexpected switch in encrypted client hello extension type'') (\<lambda>_.
           if echType \<noteq> outerECHExt then hsRet clientHello
           else hsBind (failIf (echCiphersuite \<noteq> esc_ciphersuite ctx \<or> configID \<noteq> esc_configID ctx \<or> length encap \<noteq> 0) alertIllegalParameter
             ''tls: second client hello encrypted client hello extension does not match'') (\<lambda>_.
           hsBind (hsOpt (esc_hpkeContext ctx)) (\<lambda>hpke. hsBind (hsOpt (ch_original clientHello)) (\<lambda>original.
           case decryptECHPayload hpke original payload of
             (Inl _, _) \<Rightarrow> abort alertDecryptError (ErrorsNew
               ''tls: failed to decrypt second client hello encrypted client hello extension payload'')
           | (Inr encodedInner, hpke) \<Rightarrow>
               hsBind (hsModify (u_echContext_update (\<lambda>_. Some (ctx\<lparr>esc_hpkeContext := Some hpke\<rparr>)))) (\<lambda>_.
               case decodeInnerClientHello C clientHello encodedInner of
                 Inl _ \<Rightarrow> abort alertIllegalParameter (ErrorsNew ''tls: client sent invalid encrypted client hello extension'')
               | Inr echInner \<Rightarrow> hsRet echInner)))))))"

definition readSecondHello :: "('b, 'x) cryptobyte_scheme \<Rightarrow> u16 \<Rightarrow> (serverHandshakeStateTLS13, keyShare) hs" where
  "readSecondHello C selectedGroup = hsBind (readMsg C) (\<lambda>(msg, _). case msg of
     ClientHelloM clientHello \<Rightarrow> hsBind (secondInner C clientHello) (\<lambda>clientHello.
       case ch_keyShares clientHello of
         [ks] \<Rightarrow> hsBind (hsGet t_hello) (\<lambda>ch1. hsBind (hsSeq [
           failIf (ks_group ks \<noteq> selectedGroup) alertIllegalParameter ''tls: client sent unexpected key share in second ClientHello'',
           failIf (ch_earlyData clientHello) alertIllegalParameter ''tls: client indicated early data in second ClientHello'',
           failIf (illegalClientHelloChange clientHello ch1) alertIllegalParameter ''tls: client illegally modified second ClientHello'',
           hsModify (\<lambda>s. s\<lparr>t_hello := clientHello, hb_c := (hb_c s)\<lparr>c_didHRR := True\<rparr>\<rparr>)]) (\<lambda>_. hsRet ks))
       | _ \<Rightarrow> abort alertIllegalParameter (ErrorsNew ''tls: client didn't send one key share in second ClientHello''))
   | _ \<Rightarrow> unexpected ''*tls.clientHelloMsg'' msg)"

definition doHelloRetryRequest :: "('b, 'x) cryptobyte_scheme \<Rightarrow> u16 \<Rightarrow> (serverHandshakeStateTLS13, keyShare) hs" where
  "doHelloRetryRequest C selectedGroup = hsBind (hsGet id) (\<lambda>s. hsBind (hsSeq [
     failIf (length (c_hand (hb_c s)) \<noteq> 0) alertUnexpectedMessage ''tls: handshake buffer not empty before HelloRetryRequest'',
     transcript13 C (ClientHelloM (t_hello s)),
     hsBind getTranscript (\<lambda>t. setTranscript (messageHash t)),
     hsBind (confirmRetry C (helloRetryRequest (t_serverHello s) selectedGroup)) (\<lambda>hrr. write13 C (ServerHelloM hrr)),
     sendDummyChangeCipherSpec]) (\<lambda>_. readSecondHello C selectedGroup))"

section \<open>Key exchange\<close>

definition exchangeKeys :: "('b, 'x) cryptobyte_scheme \<Rightarrow> hsEnv \<Rightarrow> (serverHandshakeStateTLS13, unit) hs" where
  "exchangeKeys C E = hsBind (hsGet id) (\<lambda>s.
     case preferredGroups (hb_config s) (c_vers (hb_c s)) (t_hello s) of
       [] \<Rightarrow> abort alertHandshakeFailure (ErrorsNew ''tls: no key exchanges supported by both client and server'')
     | selectedGroup # _ \<Rightarrow>
         hsBind (case find (\<lambda>ks. ks_group ks = selectedGroup) (ch_keyShares (t_hello s)) of
                   Some ks \<Rightarrow> hsRet ks
                 | None \<Rightarrow> doHelloRetryRequest C selectedGroup) (\<lambda>clientKeyShare.
         hsBind (modConn (\<lambda>c. c\<lparr>c_curveID := selectedGroup\<rparr>)) (\<lambda>_.
         case exchangeFor E selectedGroup of
           Inl _ \<Rightarrow> abort alertInternalError (ErrorsNew ''tls: CurvePreferences includes unsupported curve'')
         | Inr ke \<Rightarrow> hsBind (hsGet (\<lambda>s. c_rand (hb_c s))) (\<lambda>rand.
             case serverSharedSecret E ke rand (ks_data clientKeyShare) of
               Inl _ \<Rightarrow> abort alertIllegalParameter (ErrorsNew ''tls: invalid client key share'')
             | Inr (sharedKey, serverShare, rand) \<Rightarrow> hsModify (\<lambda>s. s\<lparr>hb_c := set_rand rand (hb_c s), u_sharedKey := sharedKey,
                 t_serverHello := (t_serverHello s)\<lparr>sh_serverShare := serverShare\<rparr>\<rparr>)))))"

definition checkQuicHello :: "(serverHandshakeStateTLS13, unit) hs" where
  "checkQuicHello = hsBind (hsGet id) (\<lambda>s. let ch = t_hello s in
     if c_quic (hb_c s) \<noteq> None
     then hsBind (failIf (list_ex (\<lambda>v. v < VersionTLS13) (ch_supportedVersions ch)) alertProtocolVersion
            ''tls: client offered TLS version older than TLS 1.3'') (\<lambda>_.
          case ch_quicTransportParameters ch of
            None \<Rightarrow> abort alertMissingExtension (ErrorsNew ''tls: client did not send a quic_transport_parameters extension'')
          | Some p \<Rightarrow> modConn (quicSetTransportParameters p))
     else failIf (ch_quicTransportParameters ch \<noteq> None) alertUnsupportedExtension
       ''tls: client sent an unexpected quic_transport_parameters extension'')"

definition processClientHello13 :: "('b, 'x) cryptobyte_scheme \<Rightarrow> hsEnv \<Rightarrow> (serverHandshakeStateTLS13, unit) hs" where
  "processClientHello13 C E = hsSeq [
     startServerHello,
     pickSuite13 E,
     exchangeKeys C E,
     hsBind (hsGet (\<lambda>s. negotiateALPN (cfg_NextProtos (hb_config s)) (ch_alpnProtocols (t_hello s)) (c_quic (hb_c s) \<noteq> None))) (\<lambda>r.
       hsBind (resAlert alertNoApplicationProtocol r) (\<lambda>selectedProto. modConn (\<lambda>c. c\<lparr>c_clientProtocol := selectedProto\<rparr>))),
     checkQuicHello,
     hsBind (hsGet (\<lambda>s. ch_serverName (t_hello s))) (\<lambda>name. modConn (\<lambda>c. c\<lparr>c_serverName := goString name\<rparr>))]"

section \<open>Resumption\<close>

abbreviation maxClientPSKIdentities :: nat where "maxClientPSKIdentities \<equiv> 5"

text \<open>The session of a ticket, \<open>None\<close> for an identity that is skipped.\<close>

definition identitySession :: "('b, 'x) cryptobyte_scheme \<Rightarrow> hsEnv \<Rightarrow> bytes \<Rightarrow> (serverHandshakeStateTLS13, SessionState option) hs" where
  "identitySession C E label = hsBind (hsGet id) (\<lambda>s. case cx_UnwrapSession (hb_x s) of
     Some f \<Rightarrow> hsRes (f label (connState s))
   | None \<Rightarrow>
       (case decryptTicket (he_ticket E) label (c_ticketKeys (hb_c s)) of
          None \<Rightarrow> hsRet None
        | Some plaintext \<Rightarrow>
            (case ParseSessionState C (px_ParseCertificate (he_x509 E)) plaintext of
               Inl _ \<Rightarrow> hsRet None
             | Inr ss \<Rightarrow> hsRet (Some ss))))"

text \<open>Whether a session can be resumed on this connection.\<close>

definition sessionUsable :: "hsEnv \<Rightarrow> serverHandshakeStateTLS13 \<Rightarrow> cipherSuiteTLS13 \<Rightarrow> SessionState \<Rightarrow> bool" where
  "sessionUsable E s suite ss =
     (if sn_version ss \<noteq> VersionTLS13 then False
      else if he_now E - unixTime (sn_createdAt ss) > maxSessionTicketLifetime then False
      else case cipherSuiteTLS13ByID (he_suites E) (sn_cipherSuite ss) of
        None \<Rightarrow> False
      | Some pskSuite \<Rightarrow> if suiteHash13 pskSuite \<noteq> suiteHash13 suite then False else clientCertsOk E (hb_config s) (hb_x s) ss)"

text \<open>A QUIC application sees the session of a \<open>QUICResumeSession\<close> event before it is used, and may change it.\<close>

definition quicResumed :: "hsEnv \<Rightarrow> SessionState \<Rightarrow> (serverHandshakeStateTLS13, SessionState) hs" where
  "quicResumed E ss = hsBind (hsGet (\<lambda>s. c_quic (hb_c s))) (\<lambda>quic. case quic of
     None \<Rightarrow> hsRet ss
   | Some q \<Rightarrow> if qs_enableSessionEvents q then hsBind (onConn (quicResumeSession ss)) (\<lambda>_. hsRet (he_onResume E ss)) else hsRet ss)"

definition checkBinder :: "('b, 'x) cryptobyte_scheme \<Rightarrow> cipherSuiteTLS13 \<Rightarrow> EarlySecret \<Rightarrow> bytes \<Rightarrow> (serverHandshakeStateTLS13, unit) hs" where
  "checkBinder C suite earlySecret offered = hsBind (hsOpt (EarlySecret_ResumptionBinderKey C earlySecret)) (\<lambda>binderKey.
     hsBind getTranscript (\<lambda>t. case cloneHash t of
       None \<Rightarrow> abort alertInternalError (ErrorsNew ''tls: internal error: failed to clone hash'')
     | Some transcript \<Rightarrow> hsBind (hsGet t_hello) (\<lambda>ch.
         hsBind (hsOpt (clientHelloMsg_marshalWithoutBinders C ch)) (\<lambda>r. hsBind (resAlert alertInternalError r) (\<lambda>clientHelloBytes.
         hsBind (hsOpt (finishedHash13 C suite binderKey (hs_Write transcript clientHelloBytes))) (\<lambda>pskBinder.
         failIf (offered \<noteq> pskBinder) alertDecryptError ''tls: invalid PSK binder''))))))"

definition acceptEarlyData :: "('b, 'x) cryptobyte_scheme \<Rightarrow> cipherSuiteTLS13 \<Rightarrow> EarlySecret \<Rightarrow> nat \<Rightarrow> SessionState \<Rightarrow>
    (serverHandshakeStateTLS13, unit) hs" where
  "acceptEarlyData C suite earlySecret i ss = hsBind (hsGet id) (\<lambda>s.
     hsWhen (c_quic (hb_c s) \<noteq> None \<and> ch_earlyData (t_hello s) \<and> i = 0 \<and> sn_EarlyData ss \<and> sn_cipherSuite ss = cs13_id suite \<and>
         sn_alpnProtocol ss = c_clientProtocol (hb_c s))
       (hsBind (hsModify (u_earlyData_update (\<lambda>_. True))) (\<lambda>_.
        hsBind (hsRes (hashMsg C (ClientHelloM (t_hello s)) (hs_new (cs13_hash suite)))) (\<lambda>transcript.
        hsBind (hsOpt (EarlySecret_ClientEarlyTrafficSecret C earlySecret transcript)) (\<lambda>earlyTrafficSecret.
        onConn (\<lambda>c. quicSetReadSecret c QUICEncryptionLevelEarly (cs13_id suite) earlyTrafficSecret))))))"

definition acceptSession13 :: "nat \<Rightarrow> SessionState \<Rightarrow> serverHandshakeStateTLS13 \<Rightarrow> serverHandshakeStateTLS13" where
  "acceptSession13 i ss s = s\<lparr>hb_c := (hb_c s)\<lparr>c_didResume := True, c_peerCertificates := sn_peerCertificates ss,
       c_ocspResponse := sn_ocspResponse ss, c_scts := sn_scts ss, c_verifiedChains := sn_verifiedChains ss\<rparr>,
     t_serverHello := (t_serverHello s)\<lparr>sh_selectedIdentityPresent := True, sh_selectedIdentity := word_of_nat i\<rparr>,
     t_usingPSK := True\<rparr>"

text \<open>One turn of the loop; the result says whether the loop is left.\<close>

definition tryIdentity :: "('b, 'x) cryptobyte_scheme \<Rightarrow> hsEnv \<Rightarrow> nat \<Rightarrow> pskIdentity \<Rightarrow> bytes \<Rightarrow> (serverHandshakeStateTLS13, bool) hs" where
  "tryIdentity C E i identity offered = hsBind (identitySession C E (psk_label identity)) (\<lambda>r. case r of
     None \<Rightarrow> hsRet False
   | Some ss \<Rightarrow> hsBind (hsGet id) (\<lambda>s. hsBind getSuite (\<lambda>suite.
       if \<not> sessionUsable E s suite ss then hsRet False
       else hsBind (quicResumed E ss) (\<lambda>ss. let earlySecret = NewEarlySecret (cs13_hash suite) (Some (sn_secret ss)) in
         hsBind (hsSeq [
           hsModify (t_earlySecret_update (\<lambda>_. Some earlySecret)),
           checkBinder C suite earlySecret offered,
           acceptEarlyData C suite earlySecret i ss,
           hsModify (acceptSession13 i ss)]) (\<lambda>_. hsRet True)))))"

fun tryIdentities :: "('b, 'x) cryptobyte_scheme \<Rightarrow> hsEnv \<Rightarrow> nat \<Rightarrow> (pskIdentity \<times> bytes) list \<Rightarrow> (serverHandshakeStateTLS13, unit) hs" where
  "tryIdentities C E i [] = hsRet ()"
| "tryIdentities C E i ((identity, offered) # rest) =
     (if i \<ge> maxClientPSKIdentities then hsRet ()
      else hsBind (tryIdentity C E i identity offered) (\<lambda>found. if found then hsRet () else tryIdentities C E (i + 1) rest))"

definition checkForResumption13 :: "('b, 'x) cryptobyte_scheme \<Rightarrow> hsEnv \<Rightarrow> (serverHandshakeStateTLS13, unit) hs" where
  "checkForResumption13 C E = hsBind (hsGet id) (\<lambda>s. let ch = t_hello s in
     if cfg_SessionTicketsDisabled (hb_config s) then hsRet ()
     else if \<not> list_ex (\<lambda>mode. mode = pskModeDHE) (ch_pskModes ch) then hsRet ()
     else hsBind (failIf (length (ch_pskIdentities ch) \<noteq> length (ch_pskBinders ch)) alertIllegalParameter
            ''tls: invalid or missing PSK binders'') (\<lambda>_.
          if length (ch_pskIdentities ch) = 0 then hsRet ()
          else tryIdentities C E 0 (zip (ch_pskIdentities ch) (ch_pskBinders ch))))"

section \<open>Certificate\<close>

definition pickCertificate13 :: "hsEnv \<Rightarrow> (serverHandshakeStateTLS13, unit) hs" where
  "pickCertificate13 E = hsBind (hsGet id) (\<lambda>s.
     if t_usingPSK s then hsRet ()
     else if length (ch_supportedSignatureAlgorithms (t_hello s)) = 0 then returnAlert alertMissingExtension
     else hsBind (getServerCertificate E (t_hello s)) (\<lambda>certificate. hsBind (hsOpt certificate) (\<lambda>certificate.
       hsBind (resAlert alertHandshakeFailure (selectSignatureScheme (c_vers (hb_c s)) certificate (ch_supportedSignatureAlgorithms (t_hello s))))
         (\<lambda>sigAlg. hsModify (\<lambda>s. s\<lparr>u_sigAlg := sigAlg, u_cert := Some certificate\<rparr>)))))"

section \<open>Parameters\<close>

text \<open>The last eight bytes of the random confirm an accepted inner hello.\<close>

definition confirmECH :: "('b, 'x) cryptobyte_scheme \<Rightarrow> (serverHandshakeStateTLS13, unit) hs" where
  "confirmECH C = hsBind (hsGet id) (\<lambda>s. hsWhen (u_echContext s \<noteq> None)
     (let hello = (t_serverHello s)\<lparr>sh_random := copy_at 24 (sh_random (t_serverHello s)) (replicate 8 0)\<rparr> in
      hsBind getSuite (\<lambda>suite. hsBind getTranscript (\<lambda>t. hsBind (hsOpt (cloneHash t)) (\<lambda>echTranscript.
      hsBind (hsRes (hashMsg C (ServerHelloM hello) (hs_Write echTranscript (bytesOf (ch_original (t_hello s)))))) (\<lambda>echTranscript.
      hsBind (hsOpt (acceptConfirmation C (cs13_hash suite) (ch_random (t_hello s)) ''ech accept confirmation'' echTranscript)) (\<lambda>w.
      hsModify (t_serverHello_update (\<lambda>_. hello\<lparr>sh_random := copy_at 24 (sh_random hello) w\<rparr>)))))))))"

definition serverHandshakeKeys :: "('b, 'x) cryptobyte_scheme \<Rightarrow> (serverHandshakeStateTLS13, unit) hs" where
  "serverHandshakeKeys C = hsBind (hsGet id) (\<lambda>s. hsBind getSuite (\<lambda>suite. hsBind getTranscript (\<lambda>t.
     let earlySecret = (case t_earlySecret s of Some e \<Rightarrow> e | None \<Rightarrow> NewEarlySecret (cs13_hash suite) None) in
     hsBind (hsOpt (EarlySecret_HandshakeSecret C earlySecret (u_sharedKey s))) (\<lambda>handshakeSecret.
     hsBind (hsModify (u_handshakeSecret_update (\<lambda>_. Some handshakeSecret))) (\<lambda>_.
     hsBind (hsOpt (HandshakeSecret_ServerHandshakeTrafficSecret C handshakeSecret t)) (\<lambda>serverSecret.
     hsBind (setWriteSecret C QUICEncryptionLevelHandshake serverSecret) (\<lambda>_.
     hsBind (hsOpt (HandshakeSecret_ClientHandshakeTrafficSecret C handshakeSecret t)) (\<lambda>clientSecret. hsSeq [
       setReadSecret C QUICEncryptionLevelHandshake clientSecret,
       quicSecrets QUICEncryptionLevelHandshake serverSecret clientSecret,
       logSecret keyLogLabelClientHandshake clientSecret,
       logSecret keyLogLabelServerHandshake serverSecret]))))))))"

definition encryptedExtensions :: "('b, 'x) cryptobyte_scheme \<Rightarrow> (serverHandshakeStateTLS13, encryptedExtensionsMsg) hs" where
  "encryptedExtensions C = hsBind (hsGet id) (\<lambda>s.
     let ee = encryptedExtensionsMsg_zero\<lparr>ee_alpnProtocol := c_clientProtocol (hb_c s)\<rparr> in
     hsBind (if c_quic (hb_c s) \<noteq> None
             then hsBind (liftConn quicGetTransportParameters) (\<lambda>p. hsRet (ee\<lparr>ee_quicTransportParameters := Some p, ee_earlyData := u_earlyData s\<rparr>))
             else hsRet ee) (\<lambda>ee.
     let ee = (if \<not> c_didResume (hb_c s) \<and> ch_serverName (t_hello s) \<noteq> [] then ee\<lparr>ee_serverNameAck := True\<rparr> else ee) in
     hsBind (echKeysFor (t_hello s)) (\<lambda>echKeys.
     if length echKeys > 0 \<and> length (ch_encryptedClientHello (t_hello s)) > 0 \<and> u_echContext s = None
     then hsBind (resAlert alertInternalError (buildRetryConfigList C echKeys)) (\<lambda>w. hsRet (ee\<lparr>ee_echRetryConfigs := w\<rparr>))
     else hsRet ee)))"

definition sendServerParameters :: "('b, 'x) cryptobyte_scheme \<Rightarrow> (serverHandshakeStateTLS13, unit) hs" where
  "sendServerParameters C = hsSeq [
     confirmECH C,
     hsBind (hsGet t_hello) (\<lambda>ch. transcript13 C (ClientHelloM ch)),
     hsBind (hsGet t_serverHello) (\<lambda>hello. write13 C (ServerHelloM hello)),
     sendDummyChangeCipherSpec,
     serverHandshakeKeys C,
     hsBind (encryptedExtensions C) (\<lambda>ee. write13 C (EncryptedExtensionsM ee))]"

section \<open>Certificate and Finished of the server\<close>

definition requestClientCert :: "serverHandshakeStateTLS13 \<Rightarrow> bool" where
  "requestClientCert s \<longleftrightarrow> clientAuthRank (cfg_ClientAuth (hb_config s)) \<ge> clientAuthRank RequestClientCert \<and> \<not> t_usingPSK s"

definition certificateRequest13 :: "hsEnv \<Rightarrow> serverHandshakeStateTLS13 \<Rightarrow> certificateRequestMsgTLS13" where
  "certificateRequest13 E s = certificateRequestMsgTLS13_zero\<lparr>cr13_ocspStapling := True, cr13_scts := True,
     cr13_supportedSignatureAlgorithms := supportedSignatureAlgorithms (c_vers (hb_c s)),
     cr13_supportedSignatureAlgorithmsCert := supportedSignatureAlgorithmsCert,
     cr13_certificateAuthorities := (case cx_ClientCAs (hb_x s) of None \<Rightarrow> [] | Some pool \<Rightarrow> px_Subjects (he_x509 E) pool)\<rparr>"

text \<open>The certificate of a message, without the fields that are not sent.\<close>

definition plainCertificate :: "localCertificate \<Rightarrow> Certificate" where
  "plainCertificate cert = \<lparr>Certificate_der = Certificate_der cert, OCSPStaple = OCSPStaple cert,
     SignedCertificateTimestamps = SignedCertificateTimestamps cert\<rparr>"

definition certificateMsg13 :: "localCertificate \<Rightarrow> bool \<Rightarrow> bool \<Rightarrow> certificateMsgTLS13" where
  "certificateMsg13 cert wantStaple wantScts = \<lparr>cm13_certificate = plainCertificate cert,
     cm13_ocspStapling = (wantStaple \<and> length (bytesOf (OCSPStaple cert)) > 0),
     cm13_scts = (wantScts \<and> (case SignedCertificateTimestamps cert of None \<Rightarrow> False | Some l \<Rightarrow> length l > 0))\<rparr>"

text \<open>The alert for a signature that failed: RSA keys that are too small for PSS are the peer's business.\<close>

definition signAlert :: "publicKey option \<Rightarrow> u8 \<Rightarrow> cryptoHash \<Rightarrow> u8" where
  "signAlert pub sigType sigHash = (case pub of
     Some (RSAPublicKey N _) \<Rightarrow> if sigType = signatureRSAPSS \<and> bitLen N div 8 < hash_Size sigHash * 2 + 2 then alertHandshakeFailure
       else alertInternalError
   | _ \<Rightarrow> alertInternalError)"

definition signServerTranscript :: "hsEnv \<Rightarrow> localCertificate \<Rightarrow> u16 \<Rightarrow> (serverHandshakeStateTLS13, certificateVerifyMsg) hs" where
  "signServerTranscript E cert sigAlg = (case typeAndHashFromSignatureScheme sigAlg of
     Inl _ \<Rightarrow> returnAlert alertInternalError
   | Inr (sigType, sigHash) \<Rightarrow> hsBind getTranscript (\<lambda>t. hsBind (hsGet (\<lambda>s. c_rand (hb_c s))) (\<lambda>rand.
       hsBind (hsOpt (asSigner (PrivateKey cert))) (\<lambda>pub.
       case ka_SignMessage (he_ka E) (PrivateKey cert) rand (signedMessage serverSignatureContext t)
              (if sigType = signatureRSAPSS then SignPSS sigHash else SignHash sigHash) of
         Inl err \<Rightarrow> abort (signAlert (Some pub) sigType sigHash) (TextError ''tls: failed to sign handshake: '' err)
       | Inr (sig, rand) \<Rightarrow> hsBind (modConn (set_rand rand)) (\<lambda>_.
           hsRet \<lparr>cv_hasSignatureAlgorithm = True, cv_signatureAlgorithm = sigAlg, cv_signature = sig\<rparr>)))))"

definition sendServerCertificate :: "('b, 'x) cryptobyte_scheme \<Rightarrow> hsEnv \<Rightarrow> (serverHandshakeStateTLS13, unit) hs" where
  "sendServerCertificate C E = hsBind (hsGet id) (\<lambda>s.
     if t_usingPSK s then hsRet ()
     else hsBind (hsWhen (requestClientCert s) (write13 C (CertificateRequestTLS13M (certificateRequest13 E s)))) (\<lambda>_.
       hsBind (hsOpt (u_cert s)) (\<lambda>cert.
       hsBind (write13 C (CertificateTLS13M (certificateMsg13 cert (ch_ocspStapling (t_hello s)) (ch_scts (t_hello s))))) (\<lambda>_.
       hsBind (signServerTranscript E cert (u_sigAlg s)) (\<lambda>certVerify. write13 C (CertificateVerifyM certVerify))))))"

section \<open>Session tickets\<close>

definition shouldSendSessionTickets :: "serverHandshakeStateTLS13 \<Rightarrow> bool" where
  "shouldSendSessionTickets s =
     (if cfg_SessionTicketsDisabled (hb_config s) then False
      else if c_quic (hb_c s) \<noteq> None then False
      else List.member (ch_pskModes (t_hello s)) pskModeDHE)"

text \<open>Its only caller passes four bytes.\<close>

definition LEUint32 :: "bytes \<Rightarrow> u32" where
  "LEUint32 b = or (ucast (b ! 0)) (or (push_bit 8 (ucast (b ! 1))) (or (push_bit 16 (ucast (b ! 2))) (push_bit 24 (ucast (b ! 3)))))"

text \<open>One \<open>Read\<close> of the random source into four zero bytes: it may return fewer bytes than were asked for.\<close>

definition randRead4 :: "('z hsBase_scheme, bytes) hs" where
  "randRead4 = hsBind (hsGet (\<lambda>s. c_rand (hb_c s))) (\<lambda>rand.
     if rand = [] then hsFail IoEOF
     else hsBind (modConn (set_rand (drop 4 rand))) (\<lambda>_. hsRet (copy_at 0 (replicate 4 0) (take 4 rand))))"

definition wrapTicket13 :: "('b, 'x) cryptobyte_scheme \<Rightarrow> hsEnv \<Rightarrow> SessionState \<Rightarrow> ('z hsBase_scheme, bytes) hs" where
  "wrapTicket13 C E state = hsBind (hsGet id) (\<lambda>s. case cx_WrapSession (hb_x s) of
     Some f \<Rightarrow> hsRes (f (connState s) state)
   | None \<Rightarrow> hsBind (resAlert alertInternalError (SessionState_Bytes C state)) (\<lambda>stateBytes.
       let (r, rand) = encryptTicket (he_ticket E) stateBytes (c_ticketKeys (hb_c s)) (c_rand (hb_c s))
       in hsBind (modConn (set_rand rand)) (\<lambda>_. hsRes r)))"

definition conn_sendSessionTicket :: "('b, 'x) cryptobyte_scheme \<Rightarrow> hsEnv \<Rightarrow> bool \<Rightarrow> bytes list \<Rightarrow> ('z hsBase_scheme, unit) hs" where
  "conn_sendSessionTicket C E earlyData extra = hsBind (hsGet hb_c) (\<lambda>c.
     case cipherSuiteTLS13ByID (he_suites E) (c_cipherSuite c) of
       None \<Rightarrow> hsFail (ErrorsNew ''tls: internal error: unknown cipher suite'')
     | Some suite \<Rightarrow>
         hsBind (hsOpt (expandLabel C (cs13_hash suite) (bytesOf (c_resumptionSecret c)) ''resumption'' [] (h_Size (cs13_hash suite)))) (\<lambda>psk.
         hsBind (wrapTicket13 C E ((conn_sessionState (he_now E) c)\<lparr>sn_secret := psk, sn_EarlyData := earlyData, sn_Extra := extra\<rparr>)) (\<lambda>label.
         hsBind randRead4 (\<lambda>ageAdd.
         hsBind (writeMsg C (NewSessionTicketTLS13M \<lparr>nst13_lifetime = word_of_int (maxSessionTicketLifetime div 1000000000),
           nst13_ageAdd = LEUint32 ageAdd, nst13_nonce = [], nst13_label = label,
           nst13_maxEarlyData = (if earlyData then 0xffffffff else 0)\<rparr>)) (\<lambda>_. hsRet ())))))"

definition sendSessionTickets :: "('b, 'x) cryptobyte_scheme \<Rightarrow> hsEnv \<Rightarrow> (serverHandshakeStateTLS13, unit) hs" where
  "sendSessionTickets C E = hsBind (hsGet (\<lambda>s. hc_trafficSecret (c_in (hb_c s)))) (\<lambda>key. hsBind (finishedMac C key) (\<lambda>clientFinished.
     hsBind (hsModify (u_clientFinished_update (\<lambda>_. clientFinished))) (\<lambda>_.
     hsBind (transcript13 C (FinishedM \<lparr>fin_verifyData = clientFinished\<rparr>)) (\<lambda>_.
     hsBind (hsGet t_masterSecret) (\<lambda>ms. hsBind (hsOpt ms) (\<lambda>ms. hsBind getTranscript (\<lambda>t.
     hsBind (hsOpt (MasterSecret_ResumptionMasterSecret C ms t)) (\<lambda>resumptionSecret.
     hsBind (modConn (\<lambda>c. c\<lparr>c_resumptionSecret := Some resumptionSecret\<rparr>)) (\<lambda>_.
     hsBind (hsGet shouldSendSessionTickets) (\<lambda>should. hsWhen should (conn_sendSessionTicket C E False [])))))))))))"

definition sendServerFinished :: "('b, 'x) cryptobyte_scheme \<Rightarrow> hsEnv \<Rightarrow> (serverHandshakeStateTLS13, unit) hs" where
  "sendServerFinished C E = hsBind (hsGet (\<lambda>s. hc_trafficSecret (c_out (hb_c s)))) (\<lambda>key. hsBind (finishedMac C key) (\<lambda>verifyData.
     hsBind (write13 C (FinishedM \<lparr>fin_verifyData = verifyData\<rparr>)) (\<lambda>_.
     hsBind (hsGet u_handshakeSecret) (\<lambda>secret. hsBind (hsOpt secret) (\<lambda>handshakeSecret.
     hsBind (hsOpt (HandshakeSecret_MasterSecret C handshakeSecret)) (\<lambda>masterSecret. hsBind getTranscript (\<lambda>t.
     hsBind (hsOpt (MasterSecret_ClientApplicationTrafficSecret C masterSecret t)) (\<lambda>trafficSecret.
     hsBind (hsModify (\<lambda>s. s\<lparr>t_masterSecret := Some masterSecret, t_trafficSecret := trafficSecret\<rparr>)) (\<lambda>_.
     hsBind (hsOpt (MasterSecret_ServerApplicationTrafficSecret C masterSecret t)) (\<lambda>serverSecret. hsSeq [
       setWriteSecret C QUICEncryptionLevelApplication serverSecret,
       quicOutSecret QUICEncryptionLevelApplication serverSecret,
       logSecret keyLogLabelClientTraffic trafficSecret,
       logSecret keyLogLabelServerTraffic serverSecret,
       setEkm13 C masterSecret,
       hsBind (hsGet requestClientCert) (\<lambda>request. hsWhen (\<not> request) (sendSessionTickets C E))]))))))))))"

section \<open>Certificate and Finished of the client\<close>

definition readClientCertificate :: "('b, 'x) cryptobyte_scheme \<Rightarrow> hsEnv \<Rightarrow> (serverHandshakeStateTLS13, unit) hs" where
  "readClientCertificate C E = hsBind (hsGet requestClientCert) (\<lambda>request.
     if \<not> request then verifyConnection
     else hsBind (read13 C) (\<lambda>msg. case msg of
       CertificateTLS13M certMsg \<Rightarrow> hsSeq [
         processCertsFromClient E (cm13_certificate certMsg),
         verifyConnection,
         hsWhen (length (Certificate_der (cm13_certificate certMsg)) \<noteq> 0)
           (readCertificateVerify13 C E clientSignatureContext ''client certificate'' ''client''),
         sendSessionTickets C E]
     | _ \<Rightarrow> unexpected ''*tls.certificateMsgTLS13'' msg))"

definition readClientFinished :: "('b, 'x) cryptobyte_scheme \<Rightarrow> (serverHandshakeStateTLS13, unit) hs" where
  "readClientFinished C = hsBind (readMsg C) (\<lambda>(msg, _). case msg of
     FinishedM finished \<Rightarrow> hsBind (hsGet id) (\<lambda>s. hsSeq [
       failIf (u_clientFinished s \<noteq> fin_verifyData finished) alertDecryptError ''tls: invalid client finished hash'',
       setReadSecret C QUICEncryptionLevelApplication (t_trafficSecret s)])
   | _ \<Rightarrow> unexpected ''*tls.finishedMsg'' msg)"

section \<open>The handshake\<close>

definition server13_handshake :: "('b, 'x) cryptobyte_scheme \<Rightarrow> hsEnv \<Rightarrow> (serverHandshakeStateTLS13, unit) hs" where
  "server13_handshake C E = hsSeq [
     processClientHello13 C E,
     checkForResumption13 C E,
     pickCertificate13 E,
     modConn (\<lambda>c. c\<lparr>c_buffering := True\<rparr>),
     sendServerParameters C,
     sendServerCertificate C E,
     sendServerFinished C E,
     flushHs,
     readClientCertificate C E,
     readClientFinished C,
     modConn (\<lambda>c. c\<lparr>c_isHandshakeComplete := True\<rparr>)]"

text \<open>A handshake of its own state, run from and back to the connection.\<close>

definition runFrom :: "(hsBase \<Rightarrow> 'z hsBase_scheme) \<Rightarrow> ('z hsBase_scheme, unit) hs \<Rightarrow> (hsBase, unit) hs" where
  "runFrom start m = (\<lambda>b. case m (start b) of None \<Rightarrow> None | Some (r, s) \<Rightarrow> Some (r, base_of s))"

definition serverHandshake :: "('b, 'x) cryptobyte_scheme \<Rightarrow> hsEnv \<Rightarrow> (hsBase, unit) hs" where
  "serverHandshake C E = hsBind (readClientHello C E) (\<lambda>(clientHello, ech). hsBind (hsGet (\<lambda>s. c_vers (hb_c s))) (\<lambda>vers.
     if vers = VersionTLS13 then runFrom (\<lambda>b. serverHandshakeStateTLS13_new b clientHello ech) (server13_handshake C E)
     else runFrom (\<lambda>b. serverHandshakeState_new b clientHello) (server_handshake C E)))"

section \<open>What a handshake settles\<close>

lemma hsBind_done: "hsBind m f s = Some (Inr b, s') \<longleftrightarrow> (\<exists>s1. m s = Some (Inr (), s1) \<and> f () s1 = Some (Inr b, s'))"
  by (auto simp: hs_success(4))

text \<open>The outcome that only a resumed session, the client's certificates and the last step assign.\<close>

definition settled13 :: "serverHandshakeStateTLS13 \<Rightarrow> bool \<times> Config \<times> configExt \<times> x509Certificate list \<times> x509Certificate list list \<times> bool \<times> bool" where
  "settled13 s = (c_isHandshakeComplete (hb_c s), fixedConfig s, hb_x s, c_peerCertificates (hb_c s), c_verifiedChains (hb_c s),
     c_didResume (hb_c s), t_usingPSK s)"

interpretation s13: kept13 settled13
proof
  fix s s' :: serverHandshakeStateTLS13
  assume "transported s s'"
  then obtain c k where io: "io_only (hb_c s) c" and s': "s' = s\<lparr>hb_c := c, hb_keyLog := k\<rparr>" by (auto simp: transported_def)
  show "settled13 s' = settled13 s" by (simp add: s' settled13_def fixedConfig_def io_only_fields [OF io])
qed (simp_all add: settled13_def fixedConfig_def)

lemmas rules13 = keeps_intros s13.hs13_keeps

lemma settled13_simp: "settled13 s' = settled13 s \<longleftrightarrow>
    c_isHandshakeComplete (hb_c s') = c_isHandshakeComplete (hb_c s) \<and> fixedConfig s' = fixedConfig s \<and> hb_x s' = hb_x s \<and>
    c_peerCertificates (hb_c s') = c_peerCertificates (hb_c s) \<and> c_verifiedChains (hb_c s') = c_verifiedChains (hb_c s) \<and>
    c_didResume (hb_c s') = c_didResume (hb_c s) \<and> t_usingPSK s' = t_usingPSK s"
  by (simp add: settled13_def)

lemma startServerHello_settled: "keeps settled13 startServerHello"
  unfolding startServerHello_def checkFallback13_def checkEarlyData_def Let_def
  by (intro rules13; simp add: settled13_simp fixedConfig_def)

lemma pickSuite13_settled: "keeps settled13 (pickSuite13 E)"
  unfolding pickSuite13_def by (intro rules13; simp add: settled13_simp fixedConfig_def)

lemma confirmRetry_settled: "keeps settled13 (confirmRetry C hrr)"
  unfolding confirmRetry_def Let_def by (intro rules13)

lemma secondInner_settled: "keeps settled13 (secondInner C ch)"
  unfolding secondInner_def
  by (intro rules13; (auto intro!: rules13 simp: settled13_simp fixedConfig_def split: prod.split sum.split)?)

lemma readSecondHello_settled: "keeps settled13 (readSecondHello C g)"
  unfolding readSecondHello_def
  by (intro rules13 secondInner_settled)
    (auto intro!: rules13 secondInner_settled simp: settled13_simp fixedConfig_def split: handshakeMessage.split list.split)

lemma doHelloRetryRequest_settled: "keeps settled13 (doHelloRetryRequest C g)"
  unfolding doHelloRetryRequest_def by (intro rules13 confirmRetry_settled readSecondHello_settled)

lemma exchangeKeys_settled: "keeps settled13 (exchangeKeys C E)"
  unfolding exchangeKeys_def modConn_def
  by (intro rules13) (auto intro!: rules13 doHelloRetryRequest_settled simp: settled13_simp fixedConfig_def split: list.split sum.split)

lemma processClientHello13_settled: "keeps settled13 (processClientHello13 C E)"
  unfolding processClientHello13_def checkQuicHello_def Let_def modConn_def
  by (intro rules13 startServerHello_settled pickSuite13_settled exchangeKeys_settled;
      simp add: settled13_simp fixedConfig_def quicSetTransportParameters_def quicEvent_def)

lemma getServerCertificate_settled13: "keeps settled13 (getServerCertificate E ch)"
  unfolding keeps_def getServerCertificate_def by (auto split: option.split_asm sum.split_asm dest: keepsD [OF s13.abort_keeps])

lemma pickCertificate13_settled: "keeps settled13 (pickCertificate13 E)"
  unfolding pickCertificate13_def by (intro rules13 getServerCertificate_settled13; simp add: settled13_simp fixedConfig_def)

lemma serverHandshakeKeys_settled: "keeps settled13 (serverHandshakeKeys C)"
  unfolding serverHandshakeKeys_def Let_def by (intro rules13; simp add: settled13_simp fixedConfig_def)

lemma liftConn_settled13: "(\<And>c r c'. g c = Some (r, c') \<Longrightarrow> io_only c c') \<Longrightarrow> keeps settled13 (liftConn g)"
  by (rule s13.keeps_transported) (rule liftConn_io)

lemma echKeysFor_settled13: "keeps settled13 (echKeysFor ch)"
  unfolding keeps_def echKeysFor_def by (auto split: option.split_asm dest: keepsD [OF s13.resAlert_keeps])

lemma encryptedExtensions_settled: "keeps settled13 (encryptedExtensions C)"
  unfolding encryptedExtensions_def Let_def
  by (intro rules13 echKeysFor_settled13 liftConn_settled13 quicGetTransportParameters_io)

lemma sendServerParameters_settled: "keeps settled13 (sendServerParameters C)"
  unfolding sendServerParameters_def confirmECH_def Let_def
  by (intro rules13 encryptedExtensions_settled serverHandshakeKeys_settled; simp add: settled13_simp fixedConfig_def)

lemma sendServerCertificate_settled: "keeps settled13 (sendServerCertificate C E)"
  unfolding sendServerCertificate_def signServerTranscript_def modConn_def
  by (intro rules13; simp add: settled13_simp fixedConfig_def)

lemma conn_sendSessionTicket_settled: "keeps settled13 (conn_sendSessionTicket C E early extra)"
  unfolding conn_sendSessionTicket_def wrapTicket13_def randRead4_def modConn_def Let_def
  by (intro rules13; (auto intro!: rules13 simp: settled13_simp fixedConfig_def split: prod.split)?)

lemma sendSessionTickets_settled: "keeps settled13 (sendSessionTickets C E)"
  unfolding sendSessionTickets_def modConn_def
  by (intro rules13 conn_sendSessionTicket_settled; simp add: settled13_simp fixedConfig_def)

lemma sendServerFinished_settled: "keeps settled13 (sendServerFinished C E)"
  unfolding sendServerFinished_def
  by (intro rules13 sendSessionTickets_settled; simp add: settled13_simp fixedConfig_def)

lemma readClientFinished_settled: "keeps settled13 (readClientFinished C)"
  unfolding readClientFinished_def by (intro rules13) (auto intro!: rules13 split: handshakeMessage.split)

section \<open>What a resumed session has passed\<close>

text \<open>
  An application of QUIC can change only the exported fields of a session that it is shown: \<open>Extra\<close> and \<open>EarlyData\<close>.
\<close>

definition app_keeps_session :: "hsEnv \<Rightarrow> bool" where
  "app_keeps_session E \<longleftrightarrow> (\<forall>ss. he_onResume E ss = ss\<lparr>sn_Extra := sn_Extra (he_onResume E ss), sn_EarlyData := sn_EarlyData (he_onResume E ss)\<rparr>)"

lemma app_keeps_fields:
  assumes "app_keeps_session E"
  shows "sn_peerCertificates (he_onResume E ss) = sn_peerCertificates ss" "sn_verifiedChains (he_onResume E ss) = sn_verifiedChains ss"
    "sn_secret (he_onResume E ss) = sn_secret ss"
proof -
  have e: "he_onResume E ss = ss\<lparr>sn_Extra := sn_Extra (he_onResume E ss), sn_EarlyData := sn_EarlyData (he_onResume E ss)\<rparr>"
    using assms unfolding app_keeps_session_def by blast
  show "sn_peerCertificates (he_onResume E ss) = sn_peerCertificates ss" "sn_verifiedChains (he_onResume E ss) = sn_verifiedChains ss"
    "sn_secret (he_onResume E ss) = sn_secret ss" by (subst e, simp)+
qed

text \<open>
  What the checks of \<open>tryIdentity\<close> read and the steps between them keep: the settled outcome, the suite, the hello, the transcript and
  the ticket keys.
\<close>

definition resuming :: "serverHandshakeStateTLS13 \<Rightarrow> _ \<times> cipherSuiteTLS13 option \<times> clientHelloMsg \<times> hashState option \<times> ticketKey list" where
  "resuming s = (settled13 s, t_suite s, t_hello s, t_transcript s, c_ticketKeys (hb_c s))"

interpretation rs: kept resuming
proof
  fix s s' :: serverHandshakeStateTLS13
  assume t: "transported s s'"
  then obtain c k where io: "io_only (hb_c s) c" and s': "s' = s\<lparr>hb_c := c, hb_keyLog := k\<rparr>" by (auto simp: transported_def)
  show "resuming s' = resuming s" using s13.transport [OF t] by (simp add: resuming_def s' io_only_fields [OF io])
qed

lemmas resuming_rules = keeps_intros rs.base_keeps

lemma getters_resuming: "keeps resuming getSuite" "keeps resuming getTranscript"
  unfolding getSuite_def getTranscript_def by (intro keeps_intros)+

lemma identitySession_same: "identitySession C E label s = Some (r, s') \<Longrightarrow> s' = s"
  by (auto simp: identitySession_def hsBind_get hsRes_def hsRet_def hsFail_def split: option.split_asm sum.split_asm)

lemma quicResumed_success:
  assumes "quicResumed E ss s = Some (Inr ss', s')" and "app_keeps_session E"
  shows "resuming s' = resuming s" "sn_peerCertificates ss' = sn_peerCertificates ss" "sn_verifiedChains ss' = sn_verifiedChains ss"
    "sn_secret ss' = sn_secret ss"
proof -
  have k: "keeps resuming (quicResumed E ss)"
    unfolding quicResumed_def by (intro resuming_rules rs.onConn_keeps quicResumeSession_io)
  from keepsD [OF k assms(1)] show "resuming s' = resuming s" .
  show "sn_peerCertificates ss' = sn_peerCertificates ss" "sn_verifiedChains ss' = sn_verifiedChains ss" "sn_secret ss' = sn_secret ss"
    using assms(1) app_keeps_fields [OF assms(2), of ss] by (auto simp: quicResumed_def hs_simps split: option.split_asm if_split_asm)
qed

text \<open>The binder that the server expects for a secret: over its transcript and the hello without its binders.\<close>

definition expectedBinder :: "('b, 'x) cryptobyte_scheme \<Rightarrow> cipherSuiteTLS13 \<Rightarrow> bytes \<Rightarrow> hashState \<Rightarrow> clientHelloMsg \<Rightarrow> bytes option" where
  "expectedBinder C suite secret t ch = Option.bind (EarlySecret_ResumptionBinderKey C (NewEarlySecret (cs13_hash suite) (Some secret)))
     (\<lambda>binderKey. case clientHelloMsg_marshalWithoutBinders C ch of
        Some (Inr w) \<Rightarrow> finishedHash13 C suite binderKey (hs_Write t w)
      | _ \<Rightarrow> None)"

lemma checkBinder_success:
  assumes "checkBinder C suite (NewEarlySecret (cs13_hash suite) (Some secret)) offered s = Some (Inr (), s')"
  shows "s' = s \<and> (\<exists>t. t_transcript s = Some t \<and> expectedBinder C suite secret t (t_hello s) = Some offered)"
  using assms by (auto simp: checkBinder_def expectedBinder_def cloneHash_def getTranscript_def hs_simps)

lemma identitySession_ticket:
  assumes "identitySession C E label s = Some (Inr (Some ss), s')" and "cx_UnwrapSession (hb_x s) = None"
  shows "\<exists>plaintext. decryptTicket (he_ticket E) label (c_ticketKeys (hb_c s)) = Some plaintext \<and>
    ParseSessionState C (px_ParseCertificate (he_x509 E)) plaintext = Inr ss"
  using assms by (auto simp: identitySession_def hsBind_get hsRet_def split: option.split_asm sum.split_asm)

text \<open>What an accepted identity has passed.\<close>

definition identity_ok :: "('b, 'x) cryptobyte_scheme \<Rightarrow> hsEnv \<Rightarrow> serverHandshakeStateTLS13 \<Rightarrow> bytes \<Rightarrow> bytes \<Rightarrow> SessionState \<Rightarrow> bool" where
  "identity_ok C E s label offered ss \<longleftrightarrow>
     (cx_UnwrapSession (hb_x s) = None \<longrightarrow>
       (\<exists>plaintext. decryptTicket (he_ticket E) label (c_ticketKeys (hb_c s)) = Some plaintext \<and>
         ParseSessionState C (px_ParseCertificate (he_x509 E)) plaintext = Inr ss)) \<and>
     sn_version ss = VersionTLS13 \<and> he_now E - unixTime (sn_createdAt ss) \<le> maxSessionTicketLifetime \<and>
     clientCertsOk E (hb_config s) (hb_x s) ss \<and>
     (\<exists>suite pskSuite t. t_suite s = Some suite \<and> cipherSuiteTLS13ByID (he_suites E) (sn_cipherSuite ss) = Some pskSuite \<and>
       suiteHash13 pskSuite = suiteHash13 suite \<and> t_transcript s = Some t \<and> expectedBinder C suite (sn_secret ss) t (t_hello s) = Some offered)"

definition resumed_from :: "serverHandshakeStateTLS13 \<Rightarrow> serverHandshakeStateTLS13 \<Rightarrow> SessionState \<Rightarrow> bool" where
  "resumed_from s s' ss \<longleftrightarrow> c_peerCertificates (hb_c s') = sn_peerCertificates ss \<and> c_verifiedChains (hb_c s') = sn_verifiedChains ss \<and>
     c_didResume (hb_c s') \<and> t_usingPSK s' \<and> fixedConfig s' = fixedConfig s \<and> hb_x s' = hb_x s \<and>
     c_isHandshakeComplete (hb_c s') = c_isHandshakeComplete (hb_c s)"

lemma acceptEarlyData_resuming: "keeps resuming (acceptEarlyData C suite e i ss)"
  unfolding acceptEarlyData_def
  by (intro resuming_rules rs.onConn_keeps quicSetReadSecret_io; simp add: resuming_def settled13_simp fixedConfig_def)

lemma tryIdentity_success:
  assumes run: "tryIdentity C E i identity offered s = Some (Inr found, s')" and app: "app_keeps_session E"
  shows "if found then \<exists>ss. identity_ok C E s (psk_label identity) offered ss \<and> resumed_from s s' ss
    else s' = s"
proof -
  from run obtain r where i: "identitySession C E (psk_label identity) s = Some (Inr r, s)"
    and rest: "(case r of None \<Rightarrow> hsRet False | Some ss \<Rightarrow> hsBind (hsGet id) (\<lambda>s. hsBind getSuite (\<lambda>suite.
       if \<not> sessionUsable E s suite ss then hsRet False
       else hsBind (quicResumed E ss) (\<lambda>ss. let earlySecret = NewEarlySecret (cs13_hash suite) (Some (sn_secret ss)) in
         hsBind (hsSeq [hsModify (t_earlySecret_update (\<lambda>_. Some earlySecret)), checkBinder C suite earlySecret offered,
           acceptEarlyData C suite earlySecret i ss, hsModify (acceptSession13 i ss)]) (\<lambda>_. hsRet True))))) s = Some (Inr found, s')"
    unfolding tryIdentity_def hs_success(4) [of "identitySession C E _"] by (auto dest: identitySession_same)
  show ?thesis
  proof (cases found)
    case False
    with rest show ?thesis by (auto simp: hs_simps getSuite_def Let_def split: option.split_asm if_split_asm)
  next
    case True
    with rest obtain ss suite ss' s1 s2 where r: "r = Some ss" and suite: "t_suite s = Some suite" and u: "sessionUsable E s suite ss"
      and q: "quicResumed E ss s = Some (Inr ss', s1)"
      and b: "checkBinder C suite (NewEarlySecret (cs13_hash suite) (Some (sn_secret ss'))) offered
          (t_earlySecret_update (\<lambda>_. Some (NewEarlySecret (cs13_hash suite) (Some (sn_secret ss')))) s1) = Some (Inr (), s2)"
      and last: "\<exists>s3. acceptEarlyData C suite (NewEarlySecret (cs13_hash suite) (Some (sn_secret ss'))) i ss' s2 = Some (Inr (), s3) \<and>
          s' = acceptSession13 i ss' s3"
      by (auto simp: hs_success getSuite_def Let_def split: option.split_asm if_split_asm)
    note k = quicResumed_success [OF q app]
    note bs = checkBinder_success [OF b]
    from last obtain s3 where e: "acceptEarlyData C suite (NewEarlySecret (cs13_hash suite) (Some (sn_secret ss'))) i ss' s2 = Some (Inr (), s3)"
      and s': "s' = acceptSession13 i ss' s3" by blast
    have "resuming s2 = resuming s" using bs k(1) by (simp add: resuming_def settled13_simp fixedConfig_def)
    then have "resuming s3 = resuming s" using keepsD [OF acceptEarlyData_resuming e] by simp
    moreover have "identity_ok C E s (psk_label identity) offered ss"
      using u suite bs k identitySession_ticket [OF i [unfolded r]]
      by (auto simp: identity_ok_def sessionUsable_def resuming_def split: if_split_asm option.split_asm)
    ultimately show ?thesis using True k
      by (simp only: if_True) (intro exI [of _ ss], simp add: s' resumed_from_def acceptSession13_def resuming_def settled13_simp fixedConfig_def)
  qed
qed

lemma tryIdentities_success:
  assumes "tryIdentities C E i l s = Some (Inr (), s')" and "app_keeps_session E"
  shows "s' = s \<or> (\<exists>k ss. k < length l \<and> i + k < maxClientPSKIdentities \<and>
    identity_ok C E s (psk_label (fst (l ! k))) (snd (l ! k)) ss \<and> resumed_from s s' ss)"
  using assms
proof (induction C E i l rule: tryIdentities.induct)
  case (1 C E i)
  then show ?case by (simp add: hs_simps)
next
  case (2 C E i identity offered rest)
  show ?case
  proof (cases "i \<ge> maxClientPSKIdentities")
    case True
    with "2.prems" show ?thesis by (simp add: hs_simps)
  next
    case False
    with "2.prems"(1) obtain found s1 where t: "tryIdentity C E i identity offered s = Some (Inr found, s1)"
      and r: "(if found then hsRet () else tryIdentities C E (i + 1) rest) s1 = Some (Inr (), s')"
      by (auto simp: hs_success(4))
    note step = tryIdentity_success [OF t "2.prems"(2)]
    show ?thesis
    proof (cases found)
      case True
      with r have "s' = s1" by (simp add: hs_simps)
      with step True False show ?thesis by (intro disjI2 exI [of _ 0]) simp
    next
      case nf: False
      with r step have "tryIdentities C E (i + 1) rest s = Some (Inr (), s')" by simp
      from "2.IH" [OF False nf this "2.prems"(2)] show ?thesis
      proof
        assume "\<exists>k ss. k < length rest \<and> i + 1 + k < maxClientPSKIdentities \<and>
          identity_ok C E s (psk_label (fst (rest ! k))) (snd (rest ! k)) ss \<and> resumed_from s s' ss"
        then obtain k ss where "k < length rest" "i + 1 + k < maxClientPSKIdentities"
          "identity_ok C E s (psk_label (fst (rest ! k))) (snd (rest ! k)) ss" "resumed_from s s' ss" by blast
        then show ?thesis by (intro disjI2 exI [of _ "Suc k"] exI [of _ ss]) simp
      qed simp
    qed
  qed
qed

lemma checkForResumption13_success:
  assumes "checkForResumption13 C E s = Some (Inr (), s')" and "app_keeps_session E"
  shows "s' = s \<or> (\<exists>k ss. k < length (ch_pskIdentities (t_hello s)) \<and> k < length (ch_pskBinders (t_hello s)) \<and> k < maxClientPSKIdentities \<and>
    \<not> cfg_SessionTicketsDisabled (hb_config s) \<and> pskModeDHE \<in> set (ch_pskModes (t_hello s)) \<and>
    identity_ok C E s (psk_label (ch_pskIdentities (t_hello s) ! k)) (ch_pskBinders (t_hello s) ! k) ss \<and> resumed_from s s' ss)"
proof (cases "s' = s")
  case False
  with assms(1) have c: "\<not> cfg_SessionTicketsDisabled (hb_config s)" "pskModeDHE \<in> set (ch_pskModes (t_hello s))"
    and l: "length (ch_pskIdentities (t_hello s)) = length (ch_pskBinders (t_hello s))"
    and t: "tryIdentities C E 0 (zip (ch_pskIdentities (t_hello s)) (ch_pskBinders (t_hello s))) s = Some (Inr (), s')"
    by (auto simp: checkForResumption13_def hs_simps Let_def list_ex_iff split: if_split_asm)
  from tryIdentities_success [OF t assms(2)] False obtain k ss where
      "k < length (zip (ch_pskIdentities (t_hello s)) (ch_pskBinders (t_hello s)))" "k < maxClientPSKIdentities"
      "identity_ok C E s (psk_label (fst (zip (ch_pskIdentities (t_hello s)) (ch_pskBinders (t_hello s)) ! k)))
        (snd (zip (ch_pskIdentities (t_hello s)) (ch_pskBinders (t_hello s)) ! k)) ss" "resumed_from s s' ss" by auto
  with c l show ?thesis by (intro disjI2 exI [of _ k] exI [of _ ss]) simp
qed simp

section \<open>What a completed handshake has checked\<close>

lemma fixedConfig_ClientAuth:
  assumes "fixedConfig s' = fixedConfig s"
  shows "cfg_ClientAuth (hb_config s') = cfg_ClientAuth (hb_config s)"
  using arg_cong [OF assms, of cfg_ClientAuth] by (simp add: fixedConfig_def)

lemma settled13_config: "settled13 s' = settled13 s \<Longrightarrow> cfg_ClientAuth (hb_config s') = cfg_ClientAuth (hb_config s)"
  by (rule fixedConfig_ClientAuth) (simp add: settled13_simp)

lemma holds_policy_settled13: "settled13 s' = settled13 s \<Longrightarrow> holds_policy E s' \<longleftrightarrow> holds_policy E s"
  using settled13_config [of s' s] by (simp add: settled13_simp holds_policy_def)

lemma resumed_policy:
  assumes "identity_ok C E s label offered ss" and "resumed_from s s' ss"
  shows "holds_policy E s'"
proof -
  have "cfg_ClientAuth (hb_config s') = cfg_ClientAuth (hb_config s)"
    using assms(2) by (intro fixedConfig_ClientAuth) (simp add: resumed_from_def)
  then show ?thesis using clientCertsOk_policy(1) [of E "hb_config s" "hb_x s" ss] assms
    by (simp add: identity_ok_def resumed_from_def holds_policy_def)
qed

lemma readClientCertificate_policy:
  assumes run: "readClientCertificate C E s = Some (Inr (), s')"
    and start: "t_usingPSK s \<and> holds_policy E s \<or> \<not> t_usingPSK s \<and> c_peerCertificates (hb_c s) = [] \<and> \<not> c_didResume (hb_c s)"
  shows "holds_policy E s'"
proof (cases "requestClientCert s")
  case False
  with run have "verifyConnection s = Some (Inr (), s')" by (simp add: readClientCertificate_def hsBind_get)
  then have e: "settled13 s' = settled13 s" using keepsD [OF s13.verifyConnection_keeps] by blast
  have "holds_policy E s"
  proof (cases "t_usingPSK s")
    case True
    with start show ?thesis by simp
  next
    case u: False
    with False have "cfg_ClientAuth (hb_config s) = NoClientCert"
      by (cases "cfg_ClientAuth (hb_config s)") (simp_all add: requestClientCert_def clientAuthRank_def)
    with u start show ?thesis by (simp add: holds_policy_def client_policy_def)
  qed
  with holds_policy_settled13 [OF e] show ?thesis by simp
next
  case True
  let ?rest = "\<lambda>certMsg. hsSeq [verifyConnection, hsWhen (length (Certificate_der (cm13_certificate certMsg)) \<noteq> 0)
           (readCertificateVerify13 C E clientSignatureContext ''client certificate'' ''client''), sendSessionTickets C E]"
  from run True obtain msg s1 where r: "read13 C s = Some (Inr msg, s1)"
    and m: "(case msg of CertificateTLS13M certMsg \<Rightarrow> hsBind (processCertsFromClient E (cm13_certificate certMsg)) (\<lambda>_. ?rest certMsg)
      | _ \<Rightarrow> unexpected ''*tls.certificateMsgTLS13'' msg) s1 = Some (Inr (), s')"
    unfolding readClientCertificate_def hsBind_get hsSeq.simps(2) [of "processCertsFromClient E _"] by (auto simp: hs_success(4) [of "read13 C"])
  then obtain certMsg where msg: "msg = CertificateTLS13M certMsg" by (cases msg) (simp_all add: failing_runs)
  with m obtain s2 where p: "processCertsFromClient E (cm13_certificate certMsg) s1 = Some (Inr (), s2)"
    and rest: "?rest certMsg s2 = Some (Inr (), s')"
    by (simp only: handshakeMessage.case hsBind_done [of "processCertsFromClient E _"]) blast
  have k: "keeps settled13 (?rest certMsg)"
    by (intro rules13 sendSessionTickets_settled)
  have s1: "settled13 s1 = settled13 s" using keepsD [OF s13.read13_keeps r] .
  have "cfg_ClientAuth (hb_config s1) \<noteq> NoClientCert" "\<not> c_didResume (hb_c s1)"
    using True start settled13_config [OF s1] s1 by (auto simp: requestClientCert_def clientAuthRank_def settled13_simp)
  from processCertsFromClient_success [OF p this] holds_policy_settled13 [OF keepsD [OF k rest]] show ?thesis by blast
qed

lemmas server13_ops_settled = processClientHello13_settled pickCertificate13_settled sendServerParameters_settled
  sendServerCertificate_settled sendServerFinished_settled readClientFinished_settled

lemma server13_middle_settled: "keeps settled13 (hsSeq [pickCertificate13 E, modConn (\<lambda>c. c\<lparr>c_buffering := True\<rparr>), sendServerParameters C,
    sendServerCertificate C E, sendServerFinished C E, flushHs])"
  unfolding modConn_def by (intro rules13 server13_ops_settled; simp add: settled13_simp fixedConfig_def)

lemma server13_policy:
  assumes run: "server13_handshake C E s = Some (Inr (), s')" and app: "app_keeps_session E"
    and start: "c_peerCertificates (hb_c s) = []" "\<not> c_didResume (hb_c s)" "\<not> t_usingPSK s"
  shows "holds_policy E s' \<and> c_isHandshakeComplete (hb_c s')"
proof -
  let ?mid = "hsSeq [pickCertificate13 E, modConn (\<lambda>c. c\<lparr>c_buffering := True\<rparr>), sendServerParameters C,
    sendServerCertificate C E, sendServerFinished C E, flushHs]"
  have "server13_handshake C E = hsBind (processClientHello13 C E) (\<lambda>_. hsBind (checkForResumption13 C E) (\<lambda>_. hsBind ?mid (\<lambda>_.
      hsBind (readClientCertificate C E) (\<lambda>_. hsBind (readClientFinished C) (\<lambda>_. modConn (\<lambda>c. c\<lparr>c_isHandshakeComplete := True\<rparr>))))))"
    unfolding server13_handshake_def hsSeq.simps hsBind_assoc hsBind_ret hsBind_unit ..
  with run obtain s1 s2 s3 s4 s5 where p: "processClientHello13 C E s = Some (Inr (), s1)"
    and c: "checkForResumption13 C E s1 = Some (Inr (), s2)" and m: "?mid s2 = Some (Inr (), s3)"
    and r: "readClientCertificate C E s3 = Some (Inr (), s4)" and f: "readClientFinished C s4 = Some (Inr (), s5)"
    and s': "s' = hb_c_update (\<lambda>c. c\<lparr>c_isHandshakeComplete := True\<rparr>) s5"
    by (simp only: hsBind_done failing_runs) blast
  have s1: "settled13 s1 = settled13 s" using keepsD [OF processClientHello13_settled p] .
  have s3: "settled13 s3 = settled13 s2" using keepsD [OF server13_middle_settled m] .
  have "t_usingPSK s2 \<and> holds_policy E s2 \<or> \<not> t_usingPSK s2 \<and> c_peerCertificates (hb_c s2) = [] \<and> \<not> c_didResume (hb_c s2)"
    using checkForResumption13_success [OF c app]
  proof
    assume "s2 = s1"
    with s1 start show ?thesis by (simp add: settled13_simp)
  qed (auto dest: resumed_policy simp: resumed_from_def)
  with holds_policy_settled13 [OF s3] s3 have "t_usingPSK s3 \<and> holds_policy E s3 \<or>
      \<not> t_usingPSK s3 \<and> c_peerCertificates (hb_c s3) = [] \<and> \<not> c_didResume (hb_c s3)" by (simp add: settled13_simp)
  from readClientCertificate_policy [OF r this] holds_policy_settled13 [OF keepsD [OF readClientFinished_settled f]]
  show ?thesis by (simp add: s' holds_policy_def)
qed

text \<open>Only the last step marks the handshake complete.\<close>

definition completed13 :: "serverHandshakeStateTLS13 \<Rightarrow> bool" where
  "completed13 s = c_isHandshakeComplete (hb_c s)"

interpretation c13: kept13 completed13
proof
  fix s s' :: serverHandshakeStateTLS13
  assume t: "transported s s'"
  show "completed13 s' = completed13 s" using s13.transport [OF t] by (simp add: completed13_def settled13_simp)
qed (simp_all add: completed13_def)

lemma keeps_completed13: "keeps settled13 m \<Longrightarrow> keeps completed13 m"
  by (auto simp: keeps_def completed13_def settled13_simp)

lemmas completed13_rules = keeps_intros c13.hs13_keeps

lemma tryIdentity_completed: "keeps completed13 (tryIdentity C E i identity offered)"
  unfolding tryIdentity_def identitySession_def quicResumed_def checkBinder_def acceptEarlyData_def Let_def
  by (intro completed13_rules c13.onConn_keeps quicResumeSession_io quicSetReadSecret_io; simp add: completed13_def acceptSession13_def)

lemma tryIdentities_completed: "keeps completed13 (tryIdentities C E i l)"
  by (induction C E i l rule: tryIdentities.induct) (auto intro!: completed13_rules tryIdentity_completed)

lemma checkForResumption13_completed: "keeps completed13 (checkForResumption13 C E)"
  unfolding checkForResumption13_def Let_def by (intro completed13_rules tryIdentities_completed)

lemma verifyClientChain_completed13: "keeps completed13 (verifyClientChain E certs)"
  unfolding keeps_def verifyClientChain_def
  by (auto simp: modConn_def hsModify_def completed13_def split: if_split_asm sum.split_asm
      dest!: keepsD [OF c13.abort_keeps, unfolded completed13_def])

lemma readClientCertificate_completed: "keeps completed13 (readClientCertificate C E)"
  unfolding readClientCertificate_def processCertsFromClient_def modConn_def Let_def
  by (intro completed13_rules)
    (auto intro!: completed13_rules verifyClientChain_completed13 sendSessionTickets_settled [THEN keeps_completed13]
      simp: completed13_def split: handshakeMessage.split)

lemma server13_fails:
  assumes "server13_handshake C E s = Some (Inl e, s')"
  shows "c_isHandshakeComplete (hb_c s') = c_isHandshakeComplete (hb_c s)"
proof -
  let ?body = "hsSeq [processClientHello13 C E, checkForResumption13 C E, pickCertificate13 E, modConn (\<lambda>c. c\<lparr>c_buffering := True\<rparr>),
     sendServerParameters C, sendServerCertificate C E, sendServerFinished C E, flushHs, readClientCertificate C E, readClientFinished C]"
  have k: "keeps completed13 ?body"
    unfolding modConn_def
    by (intro completed13_rules checkForResumption13_completed readClientCertificate_completed server13_ops_settled [THEN keeps_completed13];
        simp add: completed13_def)
  have "server13_handshake C E = hsBind ?body (\<lambda>_. modConn (\<lambda>c. c\<lparr>c_isHandshakeComplete := True\<rparr>))"
    unfolding server13_handshake_def hsSeq.simps hsBind_assoc hsBind_ret hsBind_unit ..
  with assms have "?body s = Some (Inl e, s')"
    by (cases "?body s") (auto simp: hsBind_def modConn_def hsModify_def split: sum.split_asm)
  from keepsD [OF k this] show ?thesis by (simp add: completed13_def)
qed

section \<open>The two loops of a retried hello\<close>

lemma differs: "length xs \<noteq> length ys \<or> list_ex (\<lambda>i. xs ! i \<noteq> ys ! i) [0..<length xs] \<longleftrightarrow> xs \<noteq> ys"
  by (auto simp: list_ex_iff intro: nth_equalityI)

lemma if_true_else: "(if b then True else c) \<longleftrightarrow> b \<or> c"
  by simp

lemma illegalClientHelloChange_eq: "illegalClientHelloChange ch ch1 \<longleftrightarrow>
    ch_supportedVersions ch \<noteq> ch_supportedVersions ch1 \<or> ch_cipherSuites ch \<noteq> ch_cipherSuites ch1 \<or>
    ch_supportedCurves ch \<noteq> ch_supportedCurves ch1 \<or> ch_supportedSignatureAlgorithms ch \<noteq> ch_supportedSignatureAlgorithms ch1 \<or>
    ch_supportedSignatureAlgorithmsCert ch \<noteq> ch_supportedSignatureAlgorithmsCert ch1 \<or> ch_alpnProtocols ch \<noteq> ch_alpnProtocols ch1 \<or>
    ch_vers ch \<noteq> ch_vers ch1 \<or> ch_random ch \<noteq> ch_random ch1 \<or> ch_sessionId ch \<noteq> ch_sessionId ch1 \<or>
    ch_compressionMethods ch \<noteq> ch_compressionMethods ch1 \<or> ch_serverName ch \<noteq> ch_serverName ch1 \<or>
    ch_ocspStapling ch \<noteq> ch_ocspStapling ch1 \<or> ch_supportedPoints ch \<noteq> ch_supportedPoints ch1 \<or>
    ch_ticketSupported ch \<noteq> ch_ticketSupported ch1 \<or> ch_sessionTicket ch \<noteq> ch_sessionTicket ch1 \<or>
    ch_secureRenegotiationSupported ch \<noteq> ch_secureRenegotiationSupported ch1 \<or> ch_secureRenegotiation ch \<noteq> ch_secureRenegotiation ch1 \<or>
    ch_scts ch \<noteq> ch_scts ch1 \<or> ch_cookie ch \<noteq> ch_cookie ch1 \<or> ch_pskModes ch \<noteq> ch_pskModes ch1"
  unfolding illegalClientHelloChange_def Let_def if_true_else differs [symmetric, of "ch_supportedVersions ch"]
    differs [symmetric, of "ch_cipherSuites ch"] differs [symmetric, of "ch_supportedCurves ch"]
    differs [symmetric, of "ch_supportedSignatureAlgorithms ch"] differs [symmetric, of "ch_supportedSignatureAlgorithmsCert ch"]
    differs [symmetric, of "ch_alpnProtocols ch"]
  by argo

lemma find_filter: "find P l = (case filter P l of [] \<Rightarrow> None | x # _ \<Rightarrow> Some x)"
  by (induction l) auto

text \<open>Two stable sorts: the first element is the first of the best class of the last sort, then of the one before.\<close>

lemma sorted_first:
  assumes "sort_key k l = x # rest"
  shows "x \<in> set l \<and> (\<forall>y\<in>set l. k x \<le> k y) \<and> (\<exists>r. filter (\<lambda>y. k y = k x) l = x # r)"
proof -
  have s: "set (sort_key k l) = set l" and "sorted (map k (sort_key k l))" by simp_all
  with assms have "x \<in> set l \<and> (\<forall>y\<in>set l. k x \<le> k y)" by (auto simp flip: s)
  moreover have "filter (\<lambda>y. k y = k x) l = filter (\<lambda>y. k y = k x) (sort_key k l)" by (rule sort_key_stable [symmetric])
  ultimately show ?thesis by (simp add: assms)
qed

lemma sorted_twice:
  assumes "sort_key k2 (sort_key k1 l) = x # rest"
  shows "x \<in> set l \<and> (\<forall>y\<in>set l. k2 x \<le> k2 y) \<and> (\<forall>y\<in>set l. k2 y = k2 x \<longrightarrow> k1 x \<le> k1 y) \<and>
    find (\<lambda>y. k2 y = k2 x \<and> k1 y = k1 x) l = Some x"
proof -
  from sorted_first [OF assms] obtain r where x: "x \<in> set l" "\<forall>y\<in>set l. k2 x \<le> k2 y"
    and f: "filter (\<lambda>y. k2 y = k2 x) (sort_key k1 l) = x # r" by auto
  have m: "filter P (sort_key k1 xs) = sort_key k1 (filter P xs)" for P and xs :: "'a list"
    by (rule filter_sort)
  from f have g: "sort_key k1 (filter (\<lambda>y. k2 y = k2 x) l) = x # r" by (simp add: m)
  from sorted_first [OF this] obtain r' where "\<forall>y\<in>set l. k2 y = k2 x \<longrightarrow> k1 x \<le> k1 y"
    and "filter (\<lambda>y. k1 y = k1 x) (filter (\<lambda>y. k2 y = k2 x) l) = x # r'" by auto
  with x show ?thesis by (simp add: find_filter conj_commute)
qed

section \<open>Properties\<close>

text \<open>
  (C7) Whatever the peer sends, a server handshake of TLS 1.3 on a fresh connection marks the connection complete exactly when it
  returns no error, and then the client's certificates satisfy the configured policy, as in the older versions: required
  certificates are there, none were taken that were not asked for, and when the policy asks for it the first one has a chain to the
  configured authorities (for a pre-shared key, a chain of the session that still verifies).
\<close>

theorem server13_handshake_outcome:
  assumes "server13_handshake C E s = Some (r, s')" and "app_keeps_session E"
    and "c_peerCertificates (hb_c s) = []" and "\<not> c_didResume (hb_c s)" and "\<not> t_usingPSK s" and "\<not> c_isHandshakeComplete (hb_c s)"
  shows "(c_isHandshakeComplete (hb_c s') \<longleftrightarrow> r = Inr ()) \<and> (r = Inr () \<longrightarrow>
    client_policy E (cfg_ClientAuth (hb_config s')) (hb_x s') (c_didResume (hb_c s')) (c_peerCertificates (hb_c s')) (c_verifiedChains (hb_c s')))"
proof (cases r)
  case (Inl e)
  with server13_fails [of C E s e s'] assms(1,6) show ?thesis by simp
next
  case (Inr u)
  with assms(1) have "server13_handshake C E s = Some (Inr (), s')" by simp
  from server13_policy [OF this assms(2-5)] Inr show ?thesis by (simp add: holds_policy_def)
qed

definition server13_sample :: serverHandshakeStateTLS13 where
  "server13_sample = serverHandshakeStateTLS13_new \<lparr>hb_c = conn12_sample\<lparr>c_vers := VersionTLS13\<rparr>, hb_x = configExt_zero, hb_ekm = None,
     hb_keyLog = []\<rparr> clientHelloMsg_zero None"

lemma app_keeps_session_sample: "app_keeps_session hsEnv_sample"
  by (simp add: app_keeps_session_def hsEnv_sample_def)

theorem server13_handshake_outcome_witness:
  "\<exists>e s'. server13_handshake cb_ref hsEnv_sample server13_sample = Some (Inl e, s') \<and> \<not> c_isHandshakeComplete (hb_c s')"
proof -
  let ?t = "''tls: client used the legacy version field to negotiate TLS 1.3''"
  let ?up = "\<lambda>s :: serverHandshakeStateTLS13. s\<lparr>t_serverHello := serverHelloMsg_zero\<lparr>sh_vers := VersionTLS12, sh_supportedVersion := c_vers (hb_c s)\<rparr>\<rparr>"
  have "case alertHs alertIllegalParameter (?up server13_sample) of Some (Inr _, s) \<Rightarrow> True | _ \<Rightarrow> False" by code_simp
  then obtain s' where ab: "(abort alertIllegalParameter (ErrorsNew ?t) :: (serverHandshakeStateTLS13, unit) hs) (?up server13_sample) =
      Some (Inl (ErrorsNew ?t), s')"
    using abort_runs by blast
  have l: "length (ch_supportedVersions (t_hello server13_sample)) = 0"
    by (simp add: server13_sample_def serverHandshakeStateTLS13_new_def clientHelloMsg_zero_def)
  have "startServerHello server13_sample = Some (Inl (ErrorsNew ?t), s')"
    unfolding startServerHello_def hsBind_get Let_def hsSeq.simps id_apply
    using ab l by (simp add: hsBind_def hsModify_def failIf_def hsWhen_def)
  then have run: "server13_handshake cb_ref hsEnv_sample server13_sample = Some (Inl (ErrorsNew ?t), s')"
    unfolding server13_handshake_def processClientHello13_def hsSeq.simps by (intro hsBind_fails)
  have f: "c_peerCertificates (hb_c server13_sample) = []" "\<not> c_didResume (hb_c server13_sample)" "\<not> t_usingPSK server13_sample"
    "\<not> c_isHandshakeComplete (hb_c server13_sample)"
    by (simp_all add: server13_sample_def serverHandshakeStateTLS13_new_def conn12_sample_def conn_sample_def)
  from server13_handshake_outcome [OF run app_keeps_session_sample f] run show ?thesis by blast
qed


text \<open>
  (C38) The key exchange that a TLS 1.3 server selects: it is one that both sides support; it is a post-quantum one when both sides
  support any; among the exchanges that are alike in this, it is one that the client already sent a share for when there is any, so
  that no HelloRetryRequest is needed; and among those it is the first one in the server's order of preference.
\<close>

theorem selected_group:
  assumes "preferredGroups config vers ch = g # rest"
  shows "let both = filter (\<lambda>h. h \<in> set (ch_supportedCurves ch)) (curvePreferences (Some config) vers) in
    g \<in> set both \<and> (\<forall>h\<in>set both. isPQKeyExchange h \<longrightarrow> isPQKeyExchange g) \<and>
    (\<forall>h\<in>set both. (isPQKeyExchange h \<longleftrightarrow> isPQKeyExchange g) \<and> hasKeyShare ch h \<longrightarrow> hasKeyShare ch g) \<and>
    find (\<lambda>h. (isPQKeyExchange h \<longleftrightarrow> isPQKeyExchange g) \<and> (hasKeyShare ch h \<longleftrightarrow> hasKeyShare ch g)) both = Some g"
proof -
  let ?both = "filter (\<lambda>h. h \<in> set (ch_supportedCurves ch)) (curvePreferences (Some config) vers)"
  let ?k2 = "\<lambda>h. if isPQKeyExchange h then 0 else 1 :: nat" and ?k1 = "\<lambda>h. if hasKeyShare ch h then 0 else 1 :: nat"
  from assms have "sort_key ?k2 (sort_key ?k1 ?both) = g # rest"
    by (simp add: preferredGroups_def List.member_iff)
  note t = sorted_twice [OF this]
  have e: "?k2 h = ?k2 g \<and> ?k1 h = ?k1 g \<longleftrightarrow> (isPQKeyExchange h \<longleftrightarrow> isPQKeyExchange g) \<and> (hasKeyShare ch h \<longleftrightarrow> hasKeyShare ch g)" for h
    by simp
  from t show ?thesis unfolding e Let_def by (auto split: if_split_asm)
qed

theorem selected_group_witness:
  "hasKeyShare (clientHelloMsg_zero\<lparr>ch_supportedCurves := [CurveP256, X25519], ch_keyShares := [\<lparr>ks_group = CurveP256, ks_data = [1]\<rparr>]\<rparr>)
     (hd (preferredGroups emptyConfig VersionTLS13
       (clientHelloMsg_zero\<lparr>ch_supportedCurves := [CurveP256, X25519], ch_keyShares := [\<lparr>ks_group = CurveP256, ks_data = [1]\<rparr>]\<rparr>)))"
proof -
  let ?ch = "clientHelloMsg_zero\<lparr>ch_supportedCurves := [CurveP256, X25519], ch_keyShares := [\<lparr>ks_group = CurveP256, ks_data = [1]\<rparr>]\<rparr>"
  have p: "preferredGroups emptyConfig VersionTLS13 ?ch = [CurveP256, X25519]" by code_simp
  from selected_group [OF p] show ?thesis by (simp add: p hasKeyShare_def)
qed

text \<open>The server hashes the bytes that it received, the client those that it sends.\<close>

lemma received_prefix:
  assumes C: "cryptobyte_pkg C" and "ch_original hello = None" and "clientHelloMsg_marshal C hello = Inr w" and "clientHelloMsg_wf hello"
    and "clientHelloMsg_unmarshal C w = Some ch"
  shows "clientHelloMsg_marshalWithoutBinders C ch = clientHelloMsg_marshalWithoutBinders C hello \<and>
    ch_pskBinders ch = ch_pskBinders hello \<and> ch_pskIdentities ch = ch_pskIdentities hello"
proof -
  have "ch = hello\<lparr>ch_original := Some w, ch_extensions := clientHelloMsg_sentExts hello\<rparr>"
    using cryptobyte_pkg.clientHelloMsg_unmarshal_marshal [OF C assms(3,4)] assms(5) by simp
  then show ?thesis using assms(2,3) by (simp add: clientHelloMsg_marshalWithoutBinders_def)
qed

text \<open>
  (C39) A client and a server that share the secret of a session agree on its binder: when the client completes its ClientHello with the
  binder that \<open>computeAndUpdatePSK\<close> computes over a transcript, and the server that has the same transcript (empty, or the one of a
  HelloRetryRequest) parses the bytes of that hello, the server's check of the binder succeeds.
\<close>

theorem psk_binder_accepted:
  assumes "cryptobyte_pkg C" and "ch_original m = None" and "clientHelloMsg_sendsPSK False m"
    and "EarlySecret_ResumptionBinderKey C (NewEarlySecret (cs13_hash suite) (Some secret)) = Some binderKey"
    and "computeAndUpdatePSK C suite m binderKey t = Some (Inr hello)"
    and "clientHelloMsg_wf hello" and "clientHelloMsg_marshal C hello = Inr w"
    and "clientHelloMsg_unmarshal C w = Some (t_hello s)" and "t_transcript s = Some t"
  shows "\<exists>offered. ch_pskBinders (t_hello s) = [offered] \<and> ch_pskIdentities (t_hello s) = ch_pskIdentities m \<and>
    checkBinder C suite (NewEarlySecret (cs13_hash suite) (Some secret)) offered s = Some (Inr (), s)"
proof -
  from computeAndUpdatePSK_success [OF assms(5)] obtain p pskBinder where p: "clientHelloMsg_marshalWithoutBinders C m = Some (Inr p)"
    and f: "finishedHash13 C suite binderKey (hs_Write t p) = Some pskBinder" and hello: "hello = m\<lparr>ch_pskBinders := [pskBinder]\<rparr>"
    and u: "clientHelloMsg_updateBinders m [pskBinder] = Inr hello" by blast
  from p assms(2) obtain bs where "clientHelloMsg_marshal C m = Inr bs"
    by (cases "clientHelloMsg_marshal C m") (simp_all add: clientHelloMsg_marshalWithoutBinders_def)
  from cryptobyte_pkg.clientHelloMsg_marshalWithoutBinders_prefix [OF assms(1) this assms(3,2) u] p
  have "clientHelloMsg_marshalWithoutBinders C hello = Some (Inr p)" by simp
  moreover have "ch_original hello = None" using assms(2) hello by simp
  ultimately show ?thesis using received_prefix [OF assms(1) _ assms(7,6,8)] assms(4,9) f
    by (simp add: hello checkBinder_def cloneHash_def getTranscript_def hsBind_def hsGet_def hsOpt_def hsRet_def resAlert_def failIf_def hsWhen_def)
qed

definition suite2_sample :: cipherSuiteTLS13 where
  "suite2_sample = \<lparr>cs13_id = TLS_AES_128_GCM_SHA256, cs13_keyLen = 16, cs13_aead = (\<lambda>_ _. None), cs13_hash = hash_const\<rparr>"

lemma hash_const_ok: "schedule_hash hash_const"
  by (simp add: schedule_hash_def hashFn_ok_def hash_const_def)

theorem psk_binder_accepted_witness:
  "\<exists>s offered. ch_pskBinders (t_hello s) = [offered] \<and> ch_pskIdentities (t_hello s) = ch_pskIdentities clientHelloMsg_sample \<and>
     checkBinder cb_ref suite2_sample (NewEarlySecret (cs13_hash suite2_sample) (Some [1])) offered s = Some (Inr (), s)"
proof -
  let ?m = clientHelloMsg_sample and ?t = "hs_new hash_const" and ?hello = "clientHelloMsg_sample\<lparr>ch_pskBinders := [[0, 0]]\<rparr>"
  have m: "ch_original ?m = None" "clientHelloMsg_sendsPSK False ?m"
    by (simp_all add: clientHelloMsg_sample_def clientHelloMsg_zero_def clientHelloMsg_sendsPSK_def)
  have u: "clientHelloMsg_updateBinders ?m [[0, 0]] = Inr ?hello"
    by (simp add: clientHelloMsg_updateBinders_def clientHelloMsg_sample_def)
  obtain bs where bs: "clientHelloMsg_marshal cb_ref ?m = Inr bs" using clientHelloMsg_sample_marshal by blast
  from cbr.clientHelloMsg_marshalWithoutBinders_prefix [OF bs m(2,1) u] obtain p w where
      p: "clientHelloMsg_marshalWithoutBinders cb_ref ?m = Some (Inr p)" and w: "clientHelloMsg_marshal cb_ref ?hello = Inr w" by blast
  obtain key where key: "EarlySecret_ResumptionBinderKey cb_ref (NewEarlySecret (cs13_hash suite2_sample) (Some [1])) = Some key"
    using cbr.deriveSecret_total [OF hash_const_ok, of "''res binder''" None]
    by (auto simp: EarlySecret_ResumptionBinderKey_def NewEarlySecret_def suite2_sample_def Let_def)
  have "finishedHash13 cb_ref suite2_sample key (hs_Write ?t p) = Some [0, 0]"
    using cbr.expandLabel_total [of hash_const "''finished''" "[]" 2 key] hash_const_ok
    by (auto simp: finishedHash13_def suite2_sample_def schedule_hash_def hash_const_def)
  then have c: "computeAndUpdatePSK cb_ref suite2_sample ?m key ?t = Some (Inr ?hello)"
    by (simp add: computeAndUpdatePSK_def p u)
  have wf: "clientHelloMsg_wf ?hello" using clientHelloMsg_sample_wf by (simp add: clientHelloMsg_wf_def clientHelloMsg_sample_def)
  from cbr.clientHelloMsg_unmarshal_marshal [OF w wf] obtain ch where ch: "clientHelloMsg_unmarshal cb_ref w = Some ch" by blast
  let ?s = "server13_sample\<lparr>t_hello := ch, t_transcript := Some ?t\<rparr>"
  have "clientHelloMsg_unmarshal cb_ref w = Some (t_hello ?s)" "t_transcript ?s = Some ?t" using ch by simp_all
  from psk_binder_accepted [OF cbr.cryptobyte_pkg_axioms m key c wf w this] show ?thesis by blast
qed

text \<open>
  (C3) A TLS 1.3 server uses a pre-shared key only when tickets are enabled and the client offers the mode with a key exchange, for one
  of the first five identities, whose ticket was decrypted with the server's own keys (or by the callback), whose session is of TLS 1.3,
  at most seven days old and of a suite with the hash of the chosen one, and whose binder is the one that the session's secret gives
  over the hello; the certificates of the session, which satisfy the policy and have not expired, become those of the connection.
\<close>

theorem psk_resumption_checked:
  assumes "checkForResumption13 C E s = Some (Inr (), s')" and "app_keeps_session E" and "\<not> t_usingPSK s" and "t_usingPSK s'"
  shows "\<exists>k ss. k < maxClientPSKIdentities \<and> k < length (ch_pskIdentities (t_hello s)) \<and> k < length (ch_pskBinders (t_hello s)) \<and>
    \<not> cfg_SessionTicketsDisabled (hb_config s) \<and> pskModeDHE \<in> set (ch_pskModes (t_hello s)) \<and>
    identity_ok C E s (psk_label (ch_pskIdentities (t_hello s) ! k)) (ch_pskBinders (t_hello s) ! k) ss \<and>
    client_policy E (cfg_ClientAuth (hb_config s)) (hb_x s) True (c_peerCertificates (hb_c s')) (c_verifiedChains (hb_c s')) \<and>
    (c_peerCertificates (hb_c s') \<noteq> [] \<longrightarrow> he_now E \<le> crt_NotAfter (hd (c_peerCertificates (hb_c s')))) \<and>
    c_peerCertificates (hb_c s') = sn_peerCertificates ss \<and> c_verifiedChains (hb_c s') = sn_verifiedChains ss"
proof -
  from checkForResumption13_success [OF assms(1,2)] assms(3,4) obtain k ss where
      k: "k < length (ch_pskIdentities (t_hello s))" "k < length (ch_pskBinders (t_hello s))" "k < maxClientPSKIdentities"
      "\<not> cfg_SessionTicketsDisabled (hb_config s)" "pskModeDHE \<in> set (ch_pskModes (t_hello s))"
    and ok: "identity_ok C E s (psk_label (ch_pskIdentities (t_hello s) ! k)) (ch_pskBinders (t_hello s) ! k) ss"
    and r: "resumed_from s s' ss" by blast
  from ok have "clientCertsOk E (hb_config s) (hb_x s) ss" by (simp add: identity_ok_def)
  note p = clientCertsOk_policy [OF this]
  from k ok r p show ?thesis by (intro exI [of _ k] exI [of _ ss]) (simp add: resumed_from_def)
qed

definition session13_sample :: SessionState where
  "session13_sample = session12_sample\<lparr>sn_version := VersionTLS13, sn_cipherSuite := TLS_AES_128_GCM_SHA256, sn_secret := [1]\<rparr>"

definition psk_hello :: "bytes \<Rightarrow> clientHelloMsg" where
  "psk_hello offered = clientHelloMsg_zero\<lparr>ch_original := Some (replicate 40 0), ch_pskModes := [pskModeDHE],
     ch_pskIdentities := [\<lparr>psk_label = [9], psk_obfuscatedTicketAge = 3\<rparr>], ch_pskBinders := [offered]\<rparr>"

definition psk_server :: "cipherSuiteTLS13 \<Rightarrow> bytes \<Rightarrow> serverHandshakeStateTLS13" where
  "psk_server suite offered = server13_sample\<lparr>hb_x := configExt_zero\<lparr>cx_UnwrapSession := Some (\<lambda>_ _. Inr (Some session13_sample))\<rparr>,
     t_hello := psk_hello offered, t_suite := Some suite, t_transcript := Some (hs_new (cs13_hash suite))\<rparr>"

lemma psk_server_fields [simp]:
  "t_hello (psk_server suite w) = psk_hello w" "t_suite (psk_server suite w) = Some suite" "t_transcript (psk_server suite w) = Some (hs_new (cs13_hash suite))"
  "hb_x (psk_server suite w) = configExt_zero\<lparr>cx_UnwrapSession := Some (\<lambda>_ _. Inr (Some session13_sample))\<rparr>" "\<not> t_usingPSK (psk_server suite w)"
  "\<not> cfg_SessionTicketsDisabled (hb_config (psk_server suite w))" "c_quic (hb_c (psk_server suite w)) = None"
  by (simp_all add: psk_server_def server13_sample_def serverHandshakeStateTLS13_new_def conn12_sample_def conn_sample_def config12_sample_def
      emptyConfig_def)

lemma psk_binder_sample:
  "checkBinder cb_ref suite2_sample (NewEarlySecret (cs13_hash suite2_sample) (Some [1])) [0, 0] (psk_server suite2_sample [0, 0]\<lparr>t_earlySecret := es\<rparr>) =
     Some (Inr (), psk_server suite2_sample [0, 0]\<lparr>t_earlySecret := es\<rparr>)"
proof -
  obtain key where key: "EarlySecret_ResumptionBinderKey cb_ref (NewEarlySecret (cs13_hash suite2_sample) (Some [1])) = Some key"
    using cbr.deriveSecret_total [OF hash_const_ok, of "''res binder''" None]
    by (auto simp: EarlySecret_ResumptionBinderKey_def NewEarlySecret_def suite2_sample_def Let_def)
  have f: "finishedHash13 cb_ref suite2_sample key t = Some [0, 0]" for t
    using cbr.expandLabel_total [of hash_const "''finished''" "[]" 2 key] hash_const_ok
    by (auto simp: finishedHash13_def suite2_sample_def schedule_hash_def hash_const_def)
  have "clientHelloMsg_bindersLen [[0, 0]] \<le> 40" by code_simp
  then obtain p where "clientHelloMsg_marshalWithoutBinders cb_ref (psk_hello [0, 0]) = Some (Inr p)"
    by (auto simp: clientHelloMsg_marshalWithoutBinders_def psk_hello_def Let_def)
  then show ?thesis using key f
    by (simp add: checkBinder_def cloneHash_def getTranscript_def hsBind_def hsGet_def hsOpt_def hsRet_def resAlert_def failIf_def hsWhen_def)
qed

lemma psk_session_sample:
  "identitySession cb_ref hsEnv_sample w (psk_server suite2_sample [0, 0]) = Some (Inr (Some session13_sample), psk_server suite2_sample [0, 0])"
  "sessionUsable hsEnv_sample (psk_server suite2_sample [0, 0]) suite2_sample session13_sample" "sn_secret session13_sample = [1]"
proof -
  have "cipherSuiteTLS13ByID P TLS_AES_128_GCM_SHA256 = Some (hd (cipherSuitesTLS13 P))" for P
    by (simp add: cipherSuiteTLS13ByID_def cipherSuitesTLS13_def)
  then show "sessionUsable hsEnv_sample (psk_server suite2_sample [0, 0]) suite2_sample session13_sample"
    by (simp add: sessionUsable_def session13_sample_def session12_sample_def hsEnv_sample_def unixTime_def suiteHash13_def suite2_sample_def
        cipherSuitesTLS13_def clientCertsOk_def psk_server_def server13_sample_def serverHandshakeStateTLS13_new_def conn12_sample_def
        config12_sample_def emptyConfig_def)
qed (simp_all add: identitySession_def hsBind_def hsGet_def hsRes_def hsRet_def session13_sample_def)

theorem psk_resumption_checked_witness:
  "\<exists>s'. checkForResumption13 cb_ref hsEnv_sample (psk_server suite2_sample [0, 0]) = Some (Inr (), s') \<and> t_usingPSK s' \<and>
     (\<exists>k. k < maxClientPSKIdentities \<and> (\<exists>ss. identity_ok cb_ref hsEnv_sample (psk_server suite2_sample [0, 0])
       (psk_label (ch_pskIdentities (psk_hello [0, 0]) ! k)) (ch_pskBinders (psk_hello [0, 0]) ! k) ss))"
proof -
  let ?s = "psk_server suite2_sample [0, 0]"
  let ?es = "NewEarlySecret (cs13_hash suite2_sample) (Some [1])"
  let ?s' = "acceptSession13 0 session13_sample (?s\<lparr>t_earlySecret := Some ?es\<rparr>)"
  have ea: "acceptEarlyData cb_ref suite2_sample ?es 0 session13_sample (?s\<lparr>t_earlySecret := Some ?es\<rparr>) =
      Some (Inr (), ?s\<lparr>t_earlySecret := Some ?es\<rparr>)"
    by (simp add: acceptEarlyData_def hsBind_def hsGet_def hsWhen_def hsRet_def)
  have "tryIdentity cb_ref hsEnv_sample 0 ident [0, 0] ?s = Some (Inr True, ?s')" for ident
    unfolding tryIdentity_def quicResumed_def getSuite_def
    by (simp add: Let_def hsBind_def hsGet_def hsOpt_def hsRet_def hsModify_def psk_session_sample psk_binder_sample ea)
  then have run: "checkForResumption13 cb_ref hsEnv_sample ?s = Some (Inr (), ?s')"
    by (simp add: checkForResumption13_def hsBind_def hsGet_def hsRet_def failIf_def hsWhen_def psk_hello_def)
  have u: "t_usingPSK ?s'" "\<not> t_usingPSK ?s" by (simp_all add: acceptSession13_def)
  from psk_resumption_checked [OF run app_keeps_session_sample u(2,1)] run u(1) show ?thesis by auto
qed

end
