(* ===== verification/Client13.thy ===== *)
theory Client13
  imports Client12 Server13
begin

text \<open>
  The client's handshake of TLS 1.3 in handshake\_client\_tls13.go, with HelloRetryRequest, pre-shared keys, Encrypted Client Hello
  and client certificates, and \<open>clientHandshake\<close>, which sends the hello and chooses between it and the handshake of the older
  versions. A hello that the code changes through a pointer is passed along and stored when the step succeeds; after a failure
  the handshake's own state is gone.
\<close>

section \<open>Handshake state\<close>

record clientHandshakeStateTLS13 = hs13 +
  q_keyShareKeys :: "keySharePrivateKeys option"
  q_session :: "SessionState option"
  q_binderKey :: bytes
  q_certReq :: "certificateRequestMsgTLS13 option"
  q_echContext :: "echClientContext option"

definition clientHandshakeStateTLS13_new :: "hsBase \<Rightarrow> serverHelloMsg \<Rightarrow> clientHelloMsg \<Rightarrow> keySharePrivateKeys option \<Rightarrow> SessionState option \<Rightarrow>
    EarlySecret option \<Rightarrow> bytes \<Rightarrow> echClientContext option \<Rightarrow> clientHandshakeStateTLS13" where
  "clientHandshakeStateTLS13_new b serverHello hello keys session earlySecret binderKey ech = \<lparr>hb_c = hb_c b, hb_x = hb_x b, hb_ekm = hb_ekm b,
     hb_keyLog = hb_keyLog b, t_hello = hello, t_serverHello = serverHello, t_sentDummyCCS = False, t_usingPSK = False, t_suite = None,
     t_earlySecret = earlySecret, t_masterSecret = None, t_trafficSecret = [], t_transcript = None,
     q_keyShareKeys = keys, q_session = session, q_binderKey = binderKey, q_certReq = None, q_echContext = ech\<rparr>"

section \<open>The ServerHello or HelloRetryRequest\<close>

text \<open>Suites are compared by their numbers, which tell the suites of the table apart as their addresses do.\<close>

definition forbiddenExtensions :: "serverHelloMsg \<Rightarrow> bool" where
  "forbiddenExtensions sh \<longleftrightarrow> sh_ocspStapling sh \<or> sh_ticketSupported sh \<or> sh_extendedMasterSecret sh \<or>
     sh_secureRenegotiationSupported sh \<or> length (sh_secureRenegotiation sh) \<noteq> 0 \<or> length (sh_alpnProtocol sh) \<noteq> 0 \<or> length (sh_scts sh) \<noteq> 0"

definition checkServerHelloOrHRR :: "hsEnv \<Rightarrow> (clientHandshakeStateTLS13, unit) hs" where
  "checkServerHelloOrHRR E = hsBind (hsGet id) (\<lambda>s. let sh = t_serverHello s;
       selectedSuite = mutualCipherSuiteTLS13 (he_suites E) (ch_cipherSuites (t_hello s)) (sh_cipherSuite sh) in hsSeq [
     failIf (sh_supportedVersion sh = 0) alertMissingExtension ''tls: server selected TLS 1.3 using the legacy version field'',
     failIf (sh_supportedVersion sh \<noteq> VersionTLS13) alertIllegalParameter
       ''tls: server selected an invalid version after a HelloRetryRequest'',
     failIf (sh_vers sh \<noteq> VersionTLS12) alertIllegalParameter ''tls: server sent an incorrect legacy version'',
     failIf (forbiddenExtensions sh) alertUnsupportedExtension ''tls: server sent a ServerHello extension forbidden in TLS 1.3'',
     failIf (ch_sessionId (t_hello s) \<noteq> sh_sessionId sh) alertIllegalParameter ''tls: server did not echo the legacy session ID'',
     failIf (sh_compressionMethod sh \<noteq> compressionNone) alertDecodeError
       ''tls: server sent non-zero legacy TLS compression method'',
     failIf (t_suite s \<noteq> None \<and> map_option cs13_id selectedSuite \<noteq> map_option cs13_id (t_suite s)) alertIllegalParameter
       ''tls: server changed cipher suite after a HelloRetryRequest'',
     failIf (selectedSuite = None) alertIllegalParameter ''tls: server chose an unconfigured cipher suite'',
     hsBind (hsOpt selectedSuite) (\<lambda>suite. hsModify (\<lambda>s. s\<lparr>t_suite := Some suite, hb_c := (hb_c s)\<lparr>c_cipherSuite := cs13_id suite\<rparr>\<rparr>))])"

section \<open>HelloRetryRequest\<close>

text \<open>
  The confirmation of the inner hello in the request: the hello to go on with, whether it is the inner one, and the hash of the first
  hello of that transcript.
\<close>

definition innerRetry :: "('b, 'x) cryptobyte_scheme \<Rightarrow> echClientContext \<Rightarrow> (clientHandshakeStateTLS13, clientHelloMsg \<times> bool \<times> bytes) hs" where
  "innerRetry C ech = hsBind (hsGet id) (\<lambda>s. hsBind getSuite (\<lambda>suite. hsBind (hsOpt (ecx_innerTranscript ech)) (\<lambda>t.
     hsBind (hsOpt (ecx_innerHello ech)) (\<lambda>innerHello.
     let chHash = hs_Sum t; t = messageHash t; sh = t_serverHello s in
     hsBind (case sh_encryptedClientHello sh of
         None \<Rightarrow> hsRet False
       | Some w \<Rightarrow>
           hsBind (failIf (length w \<noteq> 8) alertDecodeError ''tls: malformed encrypted client hello extension'') (\<lambda>_.
           hsBind (hsOpt (cloneHash t)) (\<lambda>confTranscript.
           let hrrHello = replaceFirst w (replicate 8 0) (bytesOf (sh_original sh)) in
           hsBind (hsOpt (acceptConfirmation C (cs13_hash suite) (ch_random innerHello) ''hrr ech accept confirmation''
             (hs_Write confTranscript hrrHello))) (\<lambda>confirmation. hsRet (confirmation = w))))) (\<lambda>accepted.
     hsBind (hsWhen accepted (modConn (\<lambda>c. c\<lparr>c_serverName := cfg_ServerName (c_config c), c_echAccepted := True\<rparr>))) (\<lambda>_.
     hsBind (hsRes (hashMsg C (ServerHelloM sh) t)) (\<lambda>t.
     hsBind (hsModify (q_echContext_update (\<lambda>_. Some (ech\<lparr>ecx_innerTranscript := Some t\<rparr>)))) (\<lambda>_.
     hsRet (if accepted then innerHello else t_hello s, accepted, chHash)))))))))"

definition retryHello :: "('b, 'x) cryptobyte_scheme \<Rightarrow> bytes \<Rightarrow> (clientHandshakeStateTLS13, clientHelloMsg \<times> bool \<times> bytes) hs" where
  "retryHello C chHash = hsBind (hsGet id) (\<lambda>s. case q_echContext s of
     Some ech \<Rightarrow> innerRetry C ech
   | None \<Rightarrow> hsBind (failIf (sh_encryptedClientHello (t_serverHello s) \<noteq> None) alertUnsupportedExtension
         ''tls: unexpected encrypted client hello extension in serverHello'') (\<lambda>_. hsRet (t_hello s, False, chHash)))"

text \<open>The share for the group that the server asked for. A cookie that is there is not empty, as \<open>unmarshal\<close> sees to it.\<close>

definition retryShare :: "hsEnv \<Rightarrow> clientHelloMsg \<Rightarrow> (clientHandshakeStateTLS13, clientHelloMsg) hs" where
  "retryShare E hello = hsBind (hsGet id) (\<lambda>s. let sh = t_serverHello s; curveID = sh_selectedGroup sh in
     hsBind (failIf (curveID = 0 \<and> sh_cookie sh = []) alertIllegalParameter ''tls: server sent an unnecessary HelloRetryRequest message'') (\<lambda>_.
     let hello = (if sh_cookie sh \<noteq> [] then hello\<lparr>ch_cookie := sh_cookie sh\<rparr> else hello) in
     hsBind (failIf (ks_group (sh_serverShare sh) \<noteq> 0) alertDecodeError ''tls: received malformed key_share extension'') (\<lambda>_.
     if curveID = 0 then hsRet hello
     else hsBind (failIf (\<not> List.member (ch_supportedCurves hello) curveID) alertIllegalParameter ''tls: server selected unsupported group'') (\<lambda>_.
       hsBind (failIf (list_ex (\<lambda>ks. ks_group ks = curveID) (ch_keyShares (t_hello s))) alertIllegalParameter
         ''tls: server sent an unnecessary HelloRetryRequest key_share'') (\<lambda>_.
       case exchangeFor E curveID of
         Inl _ \<Rightarrow> abort alertInternalError (ErrorsNew ''tls: CurvePreferences includes unsupported curve'')
       | Inr ke \<Rightarrow> hsBind (orAlert alertInternalError (hsKeyShares ke)) (\<lambda>(keys, shares).
           hsBind (hsModify (q_keyShareKeys_update (\<lambda>_. Some keys))) (\<lambda>_. hsRet (hello\<lparr>ch_keyShares := take 1 shares\<rparr>))))))))"

text \<open>The binder over the new transcript, or no session when the suite's hash is another one.\<close>

definition retryPSK :: "('b, 'x) cryptobyte_scheme \<Rightarrow> hsEnv \<Rightarrow> bytes \<Rightarrow> clientHelloMsg \<Rightarrow> (clientHandshakeStateTLS13, clientHelloMsg) hs" where
  "retryPSK C E chHash hello = (case ch_pskIdentities hello of
     [] \<Rightarrow> hsRet hello
   | identity # rest \<Rightarrow> hsBind (hsGet id) (\<lambda>s. hsBind (hsOpt (q_session s)) (\<lambda>session. hsBind getSuite (\<lambda>suite.
       case cipherSuiteTLS13ByID (he_suites E) (sn_cipherSuite session) of
         None \<Rightarrow> returnAlert alertInternalError
       | Some pskSuite \<Rightarrow>
           if suiteHash13 pskSuite = suiteHash13 suite
           then let hello = hello\<lparr>ch_pskIdentities := identity\<lparr>psk_obfuscatedTicketAge := ticketAgeOf (he_now E) session\<rparr> # rest\<rparr>;
                    transcript = hs_Write (hs_Write (hs_new (cs13_hash suite)) [typeMessageHash, 0, 0, word_of_nat (length chHash)]) chHash
                in hsBind (hsRes (hashMsg C (ServerHelloM (t_serverHello s)) transcript)) (\<lambda>transcript.
                   hsBind (hsOpt (computeAndUpdatePSK C suite hello (q_binderKey s) transcript)) hsRes)
           else hsRet (hello\<lparr>ch_pskIdentities := [], ch_pskBinders := []\<rparr>)))))"

definition retryEarlyData :: "clientHelloMsg \<Rightarrow> (clientHandshakeStateTLS13, clientHelloMsg) hs" where
  "retryEarlyData hello = (if ch_earlyData hello
     then hsBind (modConn quicRejectedEarlyData) (\<lambda>_. hsRet (hello\<lparr>ch_earlyData := False\<rparr>)) else hsRet hello)"

text \<open>The new hello in place of the old one, inside the outer hello when it is an inner one.\<close>

definition storeHello :: "('b, 'x) cryptobyte_scheme \<Rightarrow> bool \<Rightarrow> clientHelloMsg \<Rightarrow> (clientHandshakeStateTLS13, unit) hs" where
  "storeHello C isInnerHello hello =
     (if \<not> isInnerHello then hsModify (t_hello_update (\<lambda>_. hello))
      else hsBind (hsGet id) (\<lambda>s. hsBind (hsOpt (q_echContext s)) (\<lambda>ech. hsBind (hsOpt (ecx_innerTranscript ech)) (\<lambda>t.
        hsBind (hsRes (hashMsg C (ClientHelloM hello) t)) (\<lambda>t.
        case computeAndUpdateOuterECHExtension C ((t_hello s)\<lparr>ch_keyShares := ch_keyShares hello\<rparr>) hello
               (ech\<lparr>ecx_innerHello := Some hello, ecx_innerTranscript := Some t\<rparr>) False of
          (Some err, _, _) \<Rightarrow> hsFail err
        | (None, outer, ech) \<Rightarrow> hsModify (\<lambda>s. s\<lparr>t_hello := outer, q_echContext := Some ech\<rparr>))))))"

definition processHelloRetryRequest :: "('b, 'x) cryptobyte_scheme \<Rightarrow> hsEnv \<Rightarrow> (clientHandshakeStateTLS13, unit) hs" where
  "processHelloRetryRequest C E = hsBind getTranscript (\<lambda>t. hsBind (setTranscript (messageHash t)) (\<lambda>_.
     hsBind (hsGet t_serverHello) (\<lambda>sh. hsBind (transcript13 C (ServerHelloM sh)) (\<lambda>_.
     hsBind (retryHello C (hs_Sum t)) (\<lambda>(hello, isInnerHello, chHash).
     hsBind (retryShare E hello) (\<lambda>hello. hsBind (retryPSK C E chHash hello) (\<lambda>hello. hsBind (retryEarlyData hello) (\<lambda>hello. hsSeq [
       storeHello C isInnerHello hello,
       hsBind (hsGet t_hello) (\<lambda>hello. write13 C (ClientHelloM hello)),
       hsBind (readMsg C) (\<lambda>(msg, _). case msg of
         ServerHelloM serverHello \<Rightarrow> hsModify (t_serverHello_update (\<lambda>_. serverHello))
       | _ \<Rightarrow> unexpected ''*tls.serverHelloMsg'' msg),
       checkServerHelloOrHRR E,
       modConn (\<lambda>c. c\<lparr>c_didHRR := True\<rparr>)]))))))))"

section \<open>Encrypted Client Hello\<close>

definition startInner :: "('b, 'x) cryptobyte_scheme \<Rightarrow> (clientHandshakeStateTLS13, unit) hs" where
  "startInner C = hsBind (hsGet q_echContext) (\<lambda>ech. case ech of
     None \<Rightarrow> hsRet ()
   | Some ech \<Rightarrow> hsBind getSuite (\<lambda>suite. hsBind (hsOpt (ecx_innerHello ech)) (\<lambda>innerHello.
       hsBind (hsRes (hashMsg C (ClientHelloM innerHello) (hs_new (cs13_hash suite)))) (\<lambda>t.
       hsModify (q_echContext_update (\<lambda>_. Some (ech\<lparr>ecx_innerTranscript := Some t\<rparr>)))))))"

text \<open>Slices of the ServerHello around the confirmation, whose place is in the random.\<close>

definition aroundConfirmation :: "bytes \<Rightarrow> bytes option" where
  "aroundConfirmation original = (if length original < 38 then None else Some (take 30 original @ replicate 8 0 @ drop 38 original))"

definition confirmInner :: "('b, 'x) cryptobyte_scheme \<Rightarrow> (clientHandshakeStateTLS13, unit) hs" where
  "confirmInner C = hsBind (hsGet id) (\<lambda>s. case q_echContext s of
     None \<Rightarrow> hsRet ()
   | Some ech \<Rightarrow> hsBind getSuite (\<lambda>suite. hsBind (hsOpt (ecx_innerTranscript ech)) (\<lambda>t. hsBind (hsOpt (ecx_innerHello ech)) (\<lambda>innerHello.
       hsBind (hsOpt (cloneHash t)) (\<lambda>confTranscript. let sh = t_serverHello s in
       hsBind (hsOpt (aroundConfirmation (bytesOf (sh_original sh)))) (\<lambda>w.
       hsBind (hsOpt (acceptConfirmation C (cs13_hash suite) (ch_random innerHello) ''ech accept confirmation'' (hs_Write confTranscript w))) (\<lambda>confirmation.
       if confirmation = drop (length (sh_random sh) - 8) (sh_random sh)
       then hsSeq [
         hsModify (\<lambda>s. s\<lparr>t_hello := innerHello, t_transcript := Some t,
           hb_c := (hb_c s)\<lparr>c_serverName := cfg_ServerName (hb_config s), c_echAccepted := True\<rparr>\<rparr>),
         failIf (sh_encryptedClientHello sh \<noteq> None) alertUnsupportedExtension
           ''tls: unexpected encrypted client hello extension in server hello despite ECH being accepted'',
         failIf (ch_serverName innerHello = [] \<and> sh_serverNameAck sh) alertUnsupportedExtension
           ''tls: unexpected server_name extension in server hello'']
       else hsModify (q_echContext_update (\<lambda>_. Some (ech\<lparr>ecx_echRejected := True\<rparr>))))))))))"

definition echRejected :: "clientHandshakeStateTLS13 \<Rightarrow> bool" where
  "echRejected s = (case q_echContext s of None \<Rightarrow> False | Some ech \<Rightarrow> ecx_echRejected ech)"

section \<open>The ServerHello\<close>

definition resumeSession13 :: "SessionState \<Rightarrow> clientHandshakeStateTLS13 \<Rightarrow> clientHandshakeStateTLS13" where
  "resumeSession13 session s = s\<lparr>t_usingPSK := True, hb_c := (hb_c s)\<lparr>c_didResume := True,
     c_peerCertificates := sn_peerCertificates session, c_verifiedChains := sn_verifiedChains session,
     c_ocspResponse := sn_ocspResponse session, c_scts := sn_scts session\<rparr>\<rparr>"

definition takePSK :: "hsEnv \<Rightarrow> (clientHandshakeStateTLS13, unit) hs" where
  "takePSK E = hsBind (hsGet id) (\<lambda>s. hsBind (failIf (unat (sh_selectedIdentity (t_serverHello s)) \<ge> length (ch_pskIdentities (t_hello s)))
       alertIllegalParameter ''tls: server selected an invalid PSK'') (\<lambda>_.
     case q_session s of
       None \<Rightarrow> returnAlert alertInternalError
     | Some session \<Rightarrow>
         if length (ch_pskIdentities (t_hello s)) \<noteq> 1 then returnAlert alertInternalError
         else hsBind getSuite (\<lambda>suite. case cipherSuiteTLS13ByID (he_suites E) (sn_cipherSuite session) of
           None \<Rightarrow> returnAlert alertInternalError
         | Some pskSuite \<Rightarrow> hsSeq [
             failIf (suiteHash13 pskSuite \<noteq> suiteHash13 suite) alertIllegalParameter
               ''tls: server selected an invalid PSK and cipher suite pair'',
             hsModify (resumeSession13 session)])))"

definition client_processServerHello13 :: "hsEnv \<Rightarrow> (clientHandshakeStateTLS13, unit) hs" where
  "client_processServerHello13 E = hsBind (hsGet id) (\<lambda>s. let sh = t_serverHello s in hsSeq [
     failIf (sh_random sh = helloRetryRequestRandom) alertUnexpectedMessage ''tls: server sent two HelloRetryRequest messages'',
     failIf (length (sh_cookie sh) \<noteq> 0) alertUnsupportedExtension ''tls: server sent a cookie in a normal ServerHello'',
     failIf (sh_selectedGroup sh \<noteq> 0) alertDecodeError ''tls: malformed key_share extension'',
     failIf (ks_group (sh_serverShare sh) = 0) alertIllegalParameter ''tls: server did not send a key share'',
     failIf (\<not> list_ex (\<lambda>ks. ks_group ks = ks_group (sh_serverShare sh)) (ch_keyShares (t_hello s))) alertIllegalParameter
       ''tls: server selected unsupported group'',
     hsWhen (sh_selectedIdentityPresent sh) (takePSK E)])"

definition establishHandshakeKeys :: "('b, 'x) cryptobyte_scheme \<Rightarrow> hsEnv \<Rightarrow> (clientHandshakeStateTLS13, unit) hs" where
  "establishHandshakeKeys C E = hsBind (hsGet id) (\<lambda>s. let share = sh_serverShare (t_serverHello s) in
     hsBind (resAlert alertInternalError (exchangeFor E (ks_group share))) (\<lambda>ke. hsBind (hsOpt (q_keyShareKeys s)) (\<lambda>keys.
     hsBind (hsOpt (clientSharedSecret ke keys (ks_data share))) (\<lambda>r. case r of
       Inl _ \<Rightarrow> abort alertIllegalParameter (ErrorsNew ''tls: invalid server key share'')
     | Inr sharedKey \<Rightarrow> hsBind (modConn (\<lambda>c. c\<lparr>c_curveID := ks_group share\<rparr>)) (\<lambda>_. hsBind getSuite (\<lambda>suite. hsBind getTranscript (\<lambda>t.
         hsBind (hsOpt (if t_usingPSK s then t_earlySecret s else Some (NewEarlySecret (cs13_hash suite) None))) (\<lambda>earlySecret.
         hsBind (hsOpt (EarlySecret_HandshakeSecret C earlySecret sharedKey)) (\<lambda>handshakeSecret.
         hsBind (hsOpt (HandshakeSecret_ClientHandshakeTrafficSecret C handshakeSecret t)) (\<lambda>clientSecret.
         hsBind (setWriteSecret C QUICEncryptionLevelHandshake clientSecret) (\<lambda>_.
         hsBind (hsOpt (HandshakeSecret_ServerHandshakeTrafficSecret C handshakeSecret t)) (\<lambda>serverSecret. hsSeq [
           setReadSecret C QUICEncryptionLevelHandshake serverSecret,
           quicSecrets QUICEncryptionLevelHandshake clientSecret serverSecret,
           logSecret keyLogLabelClientHandshake clientSecret,
           logSecret keyLogLabelServerHandshake serverSecret,
           hsBind (hsOpt (HandshakeSecret_MasterSecret C handshakeSecret)) (\<lambda>ms. hsModify (t_masterSecret_update (\<lambda>_. Some ms)))]))))))))))))"

section \<open>Parameters, certificate and Finished of the server\<close>

definition checkEncryptedExtensions :: "encryptedExtensionsMsg \<Rightarrow> (clientHandshakeStateTLS13, unit) hs" where
  "checkEncryptedExtensions ee = hsBind (hsGet id) (\<lambda>s. let quic = (c_quic (hb_c s) \<noteq> None) in hsSeq [
     errAlert alertNoApplicationProtocol (checkALPN (ch_alpnProtocols (t_hello s)) (ee_alpnProtocol ee) quic),
     modConn (\<lambda>c. c\<lparr>c_clientProtocol := ee_alpnProtocol ee\<rparr>),
     (if quic
      then (case ee_quicTransportParameters ee of
              None \<Rightarrow> abort alertMissingExtension (ErrorsNew ''tls: server did not send a quic_transport_parameters extension'')
            | Some p \<Rightarrow> modConn (quicSetTransportParameters p))
      else failIf (ee_quicTransportParameters ee \<noteq> None) alertUnsupportedExtension
        ''tls: server sent an unexpected quic_transport_parameters extension''),
     failIf (\<not> ch_earlyData (t_hello s) \<and> ee_earlyData ee) alertUnsupportedExtension
       ''tls: server sent an unexpected early_data extension'',
     hsWhen (ch_earlyData (t_hello s) \<and> \<not> ee_earlyData ee) (modConn quicRejectedEarlyData),
     hsWhen (ee_earlyData ee) (hsBind (hsOpt (q_session s)) (\<lambda>session. hsBind (hsGet hb_c) (\<lambda>c. hsSeq [
       failIf (sn_cipherSuite session \<noteq> c_cipherSuite c) alertHandshakeFailure ''tls: server accepted 0-RTT with the wrong cipher suite'',
       failIf (sn_alpnProtocol session \<noteq> c_clientProtocol c) alertHandshakeFailure ''tls: server accepted 0-RTT with the wrong ALPN'']))),
     (case q_echContext s of
        None \<Rightarrow> hsRet ()
      | Some ech \<Rightarrow>
          if ecx_echRejected ech then hsModify (q_echContext_update (\<lambda>_. Some (ech\<lparr>ecx_retryConfigs := ee_echRetryConfigs ee\<rparr>)))
          else failIf (ee_echRetryConfigs ee \<noteq> None) alertUnsupportedExtension
            ''tls: server sent encrypted client hello retry configs after accepting encrypted client hello'')])"

definition readServerParameters :: "('b, 'x) cryptobyte_scheme \<Rightarrow> (clientHandshakeStateTLS13, unit) hs" where
  "readServerParameters C = hsBind (read13 C) (\<lambda>msg. case msg of
     EncryptedExtensionsM ee \<Rightarrow> checkEncryptedExtensions ee
   | _ \<Rightarrow> unexpected ''*tls.encryptedExtensionsMsg'' msg)"

text \<open>The CertificateRequest is optional; the result is the message behind it.\<close>

definition readCertificateRequest13 :: "('b, 'x) cryptobyte_scheme \<Rightarrow> (clientHandshakeStateTLS13, handshakeMessage) hs" where
  "readCertificateRequest13 C = hsBind (read13 C) (\<lambda>msg. case msg of
     CertificateRequestTLS13M certReq \<Rightarrow> hsBind (hsModify (q_certReq_update (\<lambda>_. Some certReq))) (\<lambda>_. read13 C)
   | _ \<Rightarrow> hsRet msg)"

definition takeServerCertificate :: "hsEnv \<Rightarrow> handshakeMessage \<Rightarrow> (clientHandshakeStateTLS13, unit) hs" where
  "takeServerCertificate E msg = (case msg of
     CertificateTLS13M certMsg \<Rightarrow> let certificate = cm13_certificate certMsg in hsSeq [
       failIf (length (Certificate_der certificate) = 0) alertDecodeError ''tls: received empty certificates message'',
       modConn (\<lambda>c. c\<lparr>c_scts := SignedCertificateTimestamps certificate, c_ocspResponse := OCSPStaple certificate\<rparr>),
       verifyServerCertificate E (Certificate_der certificate)]
   | _ \<Rightarrow> unexpected ''*tls.certificateMsgTLS13'' msg)"

definition readServerCertificate :: "('b, 'x) cryptobyte_scheme \<Rightarrow> hsEnv \<Rightarrow> (clientHandshakeStateTLS13, unit) hs" where
  "readServerCertificate C E = hsBind (hsGet t_usingPSK) (\<lambda>usingPSK.
     if usingPSK then verifyConnection
     else hsBind (readCertificateRequest13 C) (\<lambda>msg. hsSeq [
       takeServerCertificate E msg,
       readCertificateVerify13 C E serverSignatureContext ''certificate'' ''server'']))"

definition serverFinishedSecrets :: "('b, 'x) cryptobyte_scheme \<Rightarrow> (clientHandshakeStateTLS13, unit) hs" where
  "serverFinishedSecrets C = hsBind (hsGet t_masterSecret) (\<lambda>ms. hsBind (hsOpt ms) (\<lambda>masterSecret. hsBind getTranscript (\<lambda>t.
     hsBind (hsOpt (MasterSecret_ClientApplicationTrafficSecret C masterSecret t)) (\<lambda>trafficSecret.
     hsBind (hsModify (t_trafficSecret_update (\<lambda>_. trafficSecret))) (\<lambda>_.
     hsBind (hsOpt (MasterSecret_ServerApplicationTrafficSecret C masterSecret t)) (\<lambda>serverSecret. hsSeq [
       setReadSecret C QUICEncryptionLevelApplication serverSecret,
       logSecret keyLogLabelClientTraffic trafficSecret,
       logSecret keyLogLabelServerTraffic serverSecret,
       setEkm13 C masterSecret]))))))"

definition readServerFinished :: "('b, 'x) cryptobyte_scheme \<Rightarrow> (clientHandshakeStateTLS13, unit) hs" where
  "readServerFinished C = hsBind (readMsg C) (\<lambda>(msg, _). case msg of
     FinishedM finished \<Rightarrow> hsBind (hsGet (\<lambda>s. hc_trafficSecret (c_in (hb_c s)))) (\<lambda>key. hsBind (finishedMac C key) (\<lambda>expectedMAC. hsSeq [
       failIf (expectedMAC \<noteq> fin_verifyData finished) alertDecryptError ''tls: invalid server finished hash'',
       transcript13 C (FinishedM finished),
       serverFinishedSecrets C]))
   | _ \<Rightarrow> unexpected ''*tls.finishedMsg'' msg)"

section \<open>Certificate and Finished of the client\<close>

definition signClientTranscript :: "hsEnv \<Rightarrow> localCertificate \<Rightarrow> certificateRequestMsgTLS13 \<Rightarrow> (clientHandshakeStateTLS13, certificateVerifyMsg) hs" where
  "signClientTranscript E cert certReq = hsBind (hsGet hb_c) (\<lambda>c.
     hsBind (resAlert alertHandshakeFailure (selectSignatureScheme (c_vers c) cert (cr13_supportedSignatureAlgorithms certReq))) (\<lambda>alg.
     case typeAndHashFromSignatureScheme alg of
       Inl _ \<Rightarrow> returnAlert alertInternalError
     | Inr (sigType, sigHash) \<Rightarrow> hsBind getTranscript (\<lambda>t. hsBind (hsOpt (asSigner (PrivateKey cert))) (\<lambda>_.
         case ka_SignMessage (he_ka E) (PrivateKey cert) (c_rand c) (signedMessage clientSignatureContext t) (signOpts sigType sigHash) of
           Inl err \<Rightarrow> abort alertInternalError (TextError ''tls: failed to sign handshake: '' err)
         | Inr (sig, rand) \<Rightarrow> hsBind (modConn (set_rand rand)) (\<lambda>_.
             hsRet \<lparr>cv_hasSignatureAlgorithm = True, cv_signatureAlgorithm = alg, cv_signature = sig\<rparr>)))))"

definition sendClientCertificate :: "('b, 'x) cryptobyte_scheme \<Rightarrow> hsEnv \<Rightarrow> (clientHandshakeStateTLS13, unit) hs" where
  "sendClientCertificate C E = hsBind (hsGet id) (\<lambda>s. case q_certReq s of
     None \<Rightarrow> hsRet ()
   | Some certReq \<Rightarrow>
       if echRejected s
       then write13 C (CertificateTLS13M \<lparr>cm13_certificate = Certificate_zero, cm13_ocspStapling = False, cm13_scts = False\<rparr>)
       else hsBind (hsRes (getClientCertificate E (hb_x s) \<lparr>cri_AcceptableCAs = cr13_certificateAuthorities certReq,
              cri_SignatureSchemes = cr13_supportedSignatureAlgorithms certReq, cri_Version = c_vers (hb_c s)\<rparr>)) (\<lambda>cert.
            hsBind (hsOpt cert) (\<lambda>cert.
            hsBind (write13 C (CertificateTLS13M (certificateMsg13 cert (cr13_ocspStapling certReq) (cr13_scts certReq)))) (\<lambda>_.
            if length (Certificate_der cert) = 0 then hsRet ()
            else hsBind (signClientTranscript E cert certReq) (\<lambda>certVerify. write13 C (CertificateVerifyM certVerify))))))"

definition sendClientFinished :: "('b, 'x) cryptobyte_scheme \<Rightarrow> (clientHandshakeStateTLS13, unit) hs" where
  "sendClientFinished C = hsBind (hsGet (\<lambda>s. hc_trafficSecret (c_out (hb_c s)))) (\<lambda>key. hsBind (finishedMac C key) (\<lambda>verifyData.
     hsBind (write13 C (FinishedM \<lparr>fin_verifyData = verifyData\<rparr>)) (\<lambda>_. hsBind (hsGet id) (\<lambda>s. hsSeq [
       setWriteSecret C QUICEncryptionLevelApplication (t_trafficSecret s),
       hsWhen (\<not> cfg_SessionTicketsDisabled (hb_config s) \<and> c_ClientSessionCache (hb_c s) \<noteq> None)
         (hsBind (hsOpt (t_masterSecret s)) (\<lambda>ms. hsBind getTranscript (\<lambda>t.
          hsBind (hsOpt (MasterSecret_ResumptionMasterSecret C ms t)) (\<lambda>secret. modConn (\<lambda>c. c\<lparr>c_resumptionSecret := Some secret\<rparr>))))),
       quicOutSecret QUICEncryptionLevelApplication (t_trafficSecret s)]))))"

section \<open>The handshake\<close>

definition client13_start :: "('b, 'x) cryptobyte_scheme \<Rightarrow> hsEnv \<Rightarrow> (clientHandshakeStateTLS13, unit) hs" where
  "client13_start C E = hsBind (hsGet id) (\<lambda>s. hsSeq [
     failIf (c_handshakes (hb_c s) > 0) alertProtocolVersion ''tls: server selected TLS 1.3 in a renegotiation'',
     hsWhen (q_keyShareKeys s = None \<or> length (ch_keyShares (t_hello s)) = 0) (returnAlert alertInternalError),
     checkServerHelloOrHRR E,
     hsBind getSuite (\<lambda>suite. setTranscript (hs_new (cs13_hash suite))),
     transcript13 C (ClientHelloM (t_hello s)),
     startInner C,
     hsWhen (sh_random (t_serverHello s) = helloRetryRequestRandom) (hsSeq [sendDummyChangeCipherSpec, processHelloRetryRequest C E]),
     confirmInner C,
     hsBind (hsGet t_serverHello) (\<lambda>sh. transcript13 C (ServerHelloM sh))])"

definition client13_handshake :: "('b, 'x) cryptobyte_scheme \<Rightarrow> hsEnv \<Rightarrow> (clientHandshakeStateTLS13, unit) hs" where
  "client13_handshake C E = hsSeq [
     client13_start C E,
     modConn (\<lambda>c. c\<lparr>c_buffering := True\<rparr>),
     client_processServerHello13 E,
     sendDummyChangeCipherSpec,
     establishHandshakeKeys C E,
     readServerParameters C,
     readServerCertificate C E,
     readServerFinished C,
     sendClientCertificate C E,
     sendClientFinished C,
     flushHs,
     hsBind (hsGet id) (\<lambda>s. hsWhen (echRejected s)
       (abort alertECHRequired (ECHRejectionError (bytesOf (Option.bind (q_echContext s) ecx_retryConfigs))))),
     modConn (\<lambda>c. c\<lparr>c_isHandshakeComplete := True\<rparr>)]"

section \<open>Both versions\<close>

text \<open>The deferred function: a session whose handshake failed is dropped from the cache.\<close>

definition dropOnError :: "bool \<Rightarrow> (hsBase, unit) hs \<Rightarrow> (hsBase, unit) hs" where
  "dropOnError has m = (\<lambda>s. case m s of
     Some (Inl err, s) \<Rightarrow>
       if has \<and> clientSessionCacheKey (hb_c s) \<noteq> []
       then (case cachePut (clientSessionCacheKey (hb_c s)) None s of None \<Rightarrow> None | Some (_, s) \<Rightarrow> Some (Inl err, s))
       else Some (Inl err, s)
   | r \<Rightarrow> r)"

text \<open>The hello is split into an inner and an outer one.\<close>

definition splitHello :: "('b, 'x) cryptobyte_scheme \<Rightarrow> clientHelloMsg \<Rightarrow> echClientContext \<Rightarrow> (hsBase, clientHelloMsg \<times> echClientContext) hs" where
  "splitHello C hello ech = (let ech = ech\<lparr>ecx_innerHello := Some hello\<rparr>; outer = hello\<lparr>ch_serverName := ecf_PublicName (ecx_config ech)\<rparr> in
     hsBind (hsMapErr shortRand (hsRand 32)) (\<lambda>random.
     case computeAndUpdateOuterECHExtension C (outer\<lparr>ch_random := random\<rparr>) hello ech True of
       (Some err, _, _) \<Rightarrow> hsFail err
     | (None, outer, ech) \<Rightarrow> hsRet (outer, ech)))"

definition earlyWriteSecret :: "('b, 'x) cryptobyte_scheme \<Rightarrow> hsEnv \<Rightarrow> clientHelloMsg \<Rightarrow> SessionState option \<Rightarrow> EarlySecret option \<Rightarrow> (hsBase, unit) hs" where
  "earlyWriteSecret C E hello session earlySecret = hsBind (hsOpt session) (\<lambda>session.
     hsBind (hsOpt (cipherSuiteTLS13ByID (he_suites E) (sn_cipherSuite session))) (\<lambda>suite.
     hsBind (hsRes (hashMsg C (ClientHelloM hello) (hs_new (cs13_hash suite)))) (\<lambda>transcript. hsBind (hsOpt earlySecret) (\<lambda>earlySecret.
     hsBind (hsOpt (EarlySecret_ClientEarlyTrafficSecret C earlySecret transcript)) (\<lambda>secret.
     modConn (\<lambda>c. quicSetWriteSecret c QUICEncryptionLevelEarly (cs13_id suite) secret))))))"

text \<open>Everything from the hello on.\<close>

definition sendClientHello :: "('b, 'x) cryptobyte_scheme \<Rightarrow> hsEnv \<Rightarrow> clientHelloMsg \<Rightarrow> SessionState option \<Rightarrow> EarlySecret option \<Rightarrow>
    echClientContext option \<Rightarrow> (hsBase, clientHelloMsg \<times> echClientContext option \<times> serverHelloMsg) hs" where
  "sendClientHello C E hello session earlySecret ech = hsBind
     (case ech of None \<Rightarrow> hsRet (hello, None) | Some ech \<Rightarrow> hsBind (splitHello C hello ech) (\<lambda>(hello, ech). hsRet (hello, Some ech))) (\<lambda>(hello, ech).
     hsBind (modConn (\<lambda>c. c\<lparr>c_serverName := goString (ch_serverName hello)\<rparr>)) (\<lambda>_.
     hsBind (writeMsg C (ClientHelloM hello)) (\<lambda>_.
     hsBind (hsWhen (ch_earlyData hello) (earlyWriteSecret C E
       (case Option.bind ech ecx_innerHello of None \<Rightarrow> hello | Some innerHello \<Rightarrow> innerHello) session earlySecret)) (\<lambda>_.
     hsBind (readMsg C) (\<lambda>(msg, _). case msg of
       ServerHelloM serverHello \<Rightarrow> hsBind (hsSeq [pickTLSVersion serverHello, checkDowngrade serverHello]) (\<lambda>_. hsRet (hello, ech, serverHello))
     | _ \<Rightarrow> unexpected ''*tls.serverHelloMsg'' msg)))))"

definition clientHandshake :: "('b, 'x) cryptobyte_scheme \<Rightarrow> hsEnv \<Rightarrow> (hsBase, unit) hs" where
  "clientHandshake C E = hsBind (modConn (\<lambda>c. c\<lparr>c_didResume := False, c_curveID := 0\<rparr>)) (\<lambda>_.
     hsBind (makeClientHello C E) (\<lambda>(hello, keys, ech). hsBind (loadSession C E hello) (\<lambda>(hello, session, earlySecret, binderKey).
     dropOnError (session \<noteq> None) (hsBind (sendClientHello C E hello session earlySecret ech) (\<lambda>(hello, ech, serverHello).
       hsBind (hsGet (\<lambda>s. c_vers (hb_c s))) (\<lambda>vers.
       if vers = VersionTLS13
       then runFrom (\<lambda>b. clientHandshakeStateTLS13_new b serverHello hello keys session earlySecret binderKey ech) (client13_handshake C E)
       else runFrom (\<lambda>b. clientHandshakeState_new b hello serverHello session) (client_handshake C E)))))))"

section \<open>What the steps leave alone\<close>

text \<open>The state that the whole handshake keeps up to its last assignment.\<close>

definition frame13 :: "clientHandshakeStateTLS13 \<Rightarrow> bool \<times> Config \<times> configExt \<times> SessionState option" where
  "frame13 s = (c_isHandshakeComplete (hb_c s), fixedConfig s, hb_x s, q_session s)"

text \<open>With the use of a pre-shared key, which the steps before the ServerHello's checks keep.\<close>

definition opening13 :: "clientHandshakeStateTLS13 \<Rightarrow> _ \<times> bool \<times> bool" where
  "opening13 s = (frame13 s, t_usingPSK s, c_didResume (hb_c s))"

text \<open>With the server's certificates, the suite and the fate of the inner hello, which the steps after them keep.\<close>

definition outcome13 :: "clientHandshakeStateTLS13 \<Rightarrow>
    _ \<times> x509Certificate list \<times> x509Certificate list list \<times> bool \<times> cipherSuiteTLS13 option" where
  "outcome13 s = (opening13 s, c_peerCertificates (hb_c s), c_verifiedChains (hb_c s), c_echAccepted (hb_c s), t_suite s)"

lemmas outcome13_defs = outcome13_def opening13_def frame13_def fixedConfig_def

interpretation fr: kept13 frame13
proof
  fix s s' :: clientHandshakeStateTLS13
  assume "transported s s'"
  then obtain c k where io: "io_only (hb_c s) c" and s': "s' = s\<lparr>hb_c := c, hb_keyLog := k\<rparr>" by (auto simp: transported_def)
  show "frame13 s' = frame13 s" by (simp add: s' outcome13_defs io_only_fields [OF io])
qed (simp_all add: outcome13_defs)

interpretation oc: kept13 outcome13
proof
  fix s s' :: clientHandshakeStateTLS13
  assume "transported s s'"
  then obtain c k where io: "io_only (hb_c s) c" and s': "s' = s\<lparr>hb_c := c, hb_keyLog := k\<rparr>" by (auto simp: transported_def)
  show "outcome13 s' = outcome13 s" by (simp add: s' outcome13_defs io_only_fields [OF io])
qed (simp_all add: outcome13_defs)

lemma outcome13_opening: "outcome13 s' = outcome13 s \<Longrightarrow> opening13 s' = opening13 s"
  by (simp add: outcome13_def)

interpretation og: kept13 opening13
proof
  fix s s' :: clientHandshakeStateTLS13
  assume "transported s s'"
  from oc.transport [OF this] show "opening13 s' = opening13 s" by (rule outcome13_opening)
qed (simp_all add: outcome13_defs)

definition echState :: "clientHandshakeStateTLS13 \<Rightarrow> echClientContext option" where
  "echState s = q_echContext s"

interpretation ec: kept13 echState
proof
  fix s s' :: clientHandshakeStateTLS13
  assume "transported s s'"
  then show "echState s' = echState s" by (auto simp: transported_def echState_def)
qed (simp_all add: echState_def)

lemma keeps_opening13: "keeps outcome13 m \<Longrightarrow> keeps opening13 m"
  by (auto simp: keeps_def outcome13_def)

lemma keeps_frame13: "keeps opening13 m \<Longrightarrow> keeps frame13 m"
  by (auto simp: keeps_def opening13_def)

lemmas opening_rules = keeps_intros og.hs13_keeps
lemmas outcome_rules = keeps_intros oc.hs13_keeps

lemma checkServerHelloOrHRR_opening: "keeps opening13 (checkServerHelloOrHRR E)"
  unfolding checkServerHelloOrHRR_def Let_def by (intro opening_rules; simp add: outcome13_defs)

lemma retryHello_opening: "keeps opening13 (retryHello C chHash)"
  unfolding retryHello_def innerRetry_def Let_def modConn_def by (intro opening_rules; simp add: outcome13_defs)

lemma hsKeyShares_opening: "keeps opening13 (hsKeyShares ke)"
  unfolding hsKeyShares_def modConn_def
  by (intro opening_rules; (auto intro!: opening_rules simp: outcome13_defs split: prod.split)?)

lemma retryShare_opening: "keeps opening13 (retryShare E hello)"
  unfolding retryShare_def Let_def
  by (intro opening_rules; (auto intro!: opening_rules hsKeyShares_opening simp: outcome13_defs split: sum.split prod.split)?)

lemma retryPSK_opening: "keeps opening13 (retryPSK C E chHash hello)"
  unfolding retryPSK_def Let_def
  by (cases "ch_pskIdentities hello"; simp; intro opening_rules)

lemma retryEarlyData_opening: "keeps opening13 (retryEarlyData hello)"
  unfolding retryEarlyData_def modConn_def
  by (intro opening_rules; simp add: outcome13_defs quicRejectedEarlyData_def quicEvent_def)

lemma storeHello_opening: "keeps opening13 (storeHello C b hello)"
  unfolding storeHello_def
  by (intro opening_rules; (auto intro!: opening_rules simp: outcome13_defs split: prod.split)?)

lemma processHelloRetryRequest_opening: "keeps opening13 (processHelloRetryRequest C E)"
  unfolding processHelloRetryRequest_def modConn_def
  by (intro opening_rules; (auto intro!: opening_rules retryHello_opening retryShare_opening retryPSK_opening retryEarlyData_opening
      storeHello_opening checkServerHelloOrHRR_opening simp: outcome13_defs split: prod.split handshakeMessage.split)?)

lemma startInner_opening: "keeps opening13 (startInner C)"
  unfolding startInner_def by (intro opening_rules; simp add: outcome13_defs)

lemma confirmInner_opening: "keeps opening13 (confirmInner C)"
  unfolding confirmInner_def Let_def by (intro opening_rules; simp add: outcome13_defs)

lemma client13_start_opening: "keeps opening13 (client13_start C E)"
  unfolding client13_start_def
  by (intro opening_rules checkServerHelloOrHRR_opening startInner_opening processHelloRetryRequest_opening confirmInner_opening)

lemma establishHandshakeKeys_outcome: "keeps outcome13 (establishHandshakeKeys C E)"
  unfolding establishHandshakeKeys_def Let_def modConn_def
  by (intro outcome_rules; (auto intro!: outcome_rules simp: outcome13_defs split: sum.split)?)

lemma readServerParameters_outcome: "keeps outcome13 (readServerParameters C)"
  unfolding readServerParameters_def checkEncryptedExtensions_def Let_def modConn_def
  by (intro outcome_rules; (auto intro!: outcome_rules simp: outcome13_defs quicSetTransportParameters_def quicRejectedEarlyData_def quicEvent_def
      split: handshakeMessage.split option.split)?)

lemma readCertificateRequest13_outcome: "keeps outcome13 (readCertificateRequest13 C)"
  unfolding readCertificateRequest13_def
  by (intro outcome_rules; (auto intro!: outcome_rules simp: outcome13_defs split: handshakeMessage.split)?)

lemma readServerFinished_outcome: "keeps outcome13 (readServerFinished C)"
  unfolding readServerFinished_def serverFinishedSecrets_def
  by (intro outcome_rules; (auto intro!: outcome_rules simp: outcome13_defs split: handshakeMessage.split)?)

lemma sendClientCertificate_outcome: "keeps outcome13 (sendClientCertificate C E)"
  unfolding sendClientCertificate_def signClientTranscript_def modConn_def
  by (intro outcome_rules; (auto intro!: outcome_rules simp: outcome13_defs split: sum.split prod.split)?)

lemma sendClientFinished_outcome: "keeps outcome13 (sendClientFinished C)"
  unfolding sendClientFinished_def modConn_def by (intro outcome_rules; simp add: outcome13_defs)

lemma verifyServerCertificate_opening: "keeps opening13 (verifyServerCertificate E certificates)"
  unfolding verifyServerCertificate_def verifyServerChain_def Let_def modConn_def
  by (intro opening_rules; (auto intro!: opening_rules simp: outcome13_defs split: list.split sum.split option.split)?)

lemma readServerCertificate_opening: "keeps opening13 (readServerCertificate C E)"
  unfolding readServerCertificate_def takeServerCertificate_def Let_def modConn_def
  by (intro opening_rules readCertificateRequest13_outcome [THEN keeps_opening13];
    (auto intro!: opening_rules verifyServerCertificate_opening simp: outcome13_defs split: handshakeMessage.split)?)

lemma client_processServerHello13_frame: "keeps frame13 (client_processServerHello13 E)"
  unfolding client_processServerHello13_def takePSK_def Let_def
  by (intro keeps_intros fr.hs13_keeps; simp add: outcome13_defs resumeSession13_def)

section \<open>The fate of an inner hello\<close>

text \<open>Steps that may replace the context of Encrypted Client Hello, but not what is known of it.\<close>

definition stays :: "(echClientContext option \<Rightarrow> bool) \<Rightarrow> (clientHandshakeStateTLS13, 'a) hs \<Rightarrow> bool" where
  "stays P m \<longleftrightarrow> (\<forall>s r s'. P (echState s) \<longrightarrow> m s = Some (r, s') \<longrightarrow> P (echState s'))"

lemma staysD: "stays P m \<Longrightarrow> m s = Some (r, s') \<Longrightarrow> P (echState s) \<Longrightarrow> P (echState s')"
  by (auto simp: stays_def)

lemma stays_keeps: "keeps echState m \<Longrightarrow> stays P m"
  by (auto simp: stays_def keeps_def)

lemma stays_bind:
  assumes "stays P m" and "\<And>a. stays P (g a)"
  shows "stays P (hsBind m g)"
  unfolding stays_def
proof (intro allI impI)
  fix s r s'
  assume p: "P (echState s)" and b: "hsBind m g s = Some (r, s')"
  then obtain x s1 where m: "m s = Some (x, s1)" by (auto simp: hsBind_def split: option.split_asm)
  note p1 = staysD [OF assms(1) m p]
  show "P (echState s')"
  proof (cases x)
    case (Inl e)
    with b m p1 show ?thesis by (simp add: hsBind_def)
  next
    case (Inr a)
    with b m have "g a s1 = Some (r, s')" by (simp add: hsBind_def)
    from staysD [OF assms(2) this p1] show ?thesis .
  qed
qed

lemma stays_cases:
  "(b \<Longrightarrow> stays P m) \<Longrightarrow> (\<not> b \<Longrightarrow> stays P n) \<Longrightarrow> stays P (if b then m else n)"
  "stays P m \<Longrightarrow> (\<And>a. stays P (g a)) \<Longrightarrow> stays P (case x of None \<Rightarrow> m | Some a \<Rightarrow> g a)"
  "(\<And>a b. stays P (k a b)) \<Longrightarrow> stays P (case p of (a, b) \<Rightarrow> k a b)"
  "(b \<Longrightarrow> stays P m') \<Longrightarrow> stays P (hsWhen b m')"
  by (simp_all add: hsWhen_def stays_keeps keeps_basic split: option.split prod.split)

lemma stays_seq: "stays P (hsSeq [])" "stays P m \<Longrightarrow> stays P (hsSeq ms) \<Longrightarrow> stays P (hsSeq (m # ms))"
  by (auto intro: stays_bind stays_keeps keeps_basic)

lemma stays_modify: "(\<And>s. P (echState s) \<Longrightarrow> P (echState (h s))) \<Longrightarrow> stays P (hsModify h)"
  by (auto simp: stays_def hsModify_def)

lemmas stays_rules = stays_bind stays_cases stays_seq stays_modify
lemmas ech_rules = keeps_intros ec.hs13_keeps

lemma hasECH_retryHello: "stays (\<lambda>x. x \<noteq> None) (retryHello C chHash)"
  unfolding retryHello_def innerRetry_def Let_def modConn_def
  by (intro stays_rules; (rule stays_keeps, intro ech_rules)?; simp add: echState_def)

lemma ech_retryShare: "keeps echState (retryShare E hello)"
  unfolding retryShare_def hsKeyShares_def Let_def modConn_def
  by (intro ech_rules; (auto intro!: ech_rules simp: echState_def split: sum.split prod.split)?)

lemma ech_retryPSK: "keeps echState (retryPSK C E chHash hello)"
  unfolding retryPSK_def Let_def by (cases "ch_pskIdentities hello"; simp; intro ech_rules)

lemma ech_retryEarlyData: "keeps echState (retryEarlyData hello)"
  unfolding retryEarlyData_def modConn_def by (intro ech_rules; simp add: echState_def)

lemma ech_checkServerHelloOrHRR: "keeps echState (checkServerHelloOrHRR E)"
  unfolding checkServerHelloOrHRR_def Let_def by (intro ech_rules; simp add: echState_def)

lemma hasECH_storeHello: "stays (\<lambda>x. x \<noteq> None) (storeHello C b hello)"
  unfolding storeHello_def
  by (intro stays_rules; (rule stays_keeps, intro ech_rules)?; simp add: echState_def)

lemma ech_readSecondServerHello: "keeps echState (hsBind (readMsg C) (\<lambda>(msg, _). case msg of
    ServerHelloM serverHello \<Rightarrow> hsModify (t_serverHello_update (\<lambda>_. serverHello)) | _ \<Rightarrow> unexpected w msg))"
  by (intro ech_rules; (auto intro!: ech_rules simp: echState_def split: handshakeMessage.split)?)

lemma hasECH_processHelloRetryRequest: "stays (\<lambda>x. x \<noteq> None) (processHelloRetryRequest C E)"
  unfolding processHelloRetryRequest_def modConn_def
  by (intro stays_bind stays_cases stays_seq hasECH_retryHello hasECH_storeHello ech_retryShare [THEN stays_keeps]
      ech_retryPSK [THEN stays_keeps] ech_retryEarlyData [THEN stays_keeps] ech_checkServerHelloOrHRR [THEN stays_keeps]
      ech_readSecondServerHello [THEN stays_keeps]; rule stays_keeps; intro ech_rules; simp add: echState_def)

text \<open>After the ServerHello an inner hello is accepted or rejected.\<close>

lemma confirmInner_decides:
  assumes "confirmInner C s = Some (Inr (), s')" and "echState s \<noteq> None"
  shows "c_echAccepted (hb_c s') \<or> echRejected s'"
  using assms
  by (auto simp: confirmInner_def echState_def echRejected_def hs_simps Let_def hsBind_get split: if_split_asm)

abbreviation rejected :: "echClientContext option \<Rightarrow> bool" where
  "rejected x \<equiv> (case x of None \<Rightarrow> False | Some ech \<Rightarrow> ecx_echRejected ech)"

lemma echRejected_state: "echRejected s \<longleftrightarrow> rejected (echState s)"
  by (simp add: echRejected_def echState_def)

text \<open>The steps between the ServerHello and the check for a rejected inner hello.\<close>

definition client13_middle :: "('b, 'x) cryptobyte_scheme \<Rightarrow> hsEnv \<Rightarrow> (clientHandshakeStateTLS13, unit) hs" where
  "client13_middle C E = hsSeq [sendDummyChangeCipherSpec, establishHandshakeKeys C E, readServerParameters C]"

definition client13_rest :: "('b, 'x) cryptobyte_scheme \<Rightarrow> hsEnv \<Rightarrow> (clientHandshakeStateTLS13, unit) hs" where
  "client13_rest C E = hsSeq [readServerFinished C, sendClientCertificate C E, sendClientFinished C, flushHs]"

definition client13_ready :: "(clientHandshakeStateTLS13, unit) hs" where
  "client13_ready = hsBind (hsGet id) (\<lambda>s. hsWhen (echRejected s)
     (abort alertECHRequired (ECHRejectionError (bytesOf (Option.bind (q_echContext s) ecx_retryConfigs)))))"

lemma client13_handshake_split:
  "client13_handshake C E = hsBind (hsBind (client13_start C E) (\<lambda>_. hsBind (modConn (\<lambda>c. c\<lparr>c_buffering := True\<rparr>)) (\<lambda>_.
     hsBind (client_processServerHello13 E) (\<lambda>_. hsBind (client13_middle C E) (\<lambda>_. hsBind (readServerCertificate C E) (\<lambda>_.
     hsBind (client13_rest C E) (\<lambda>_. client13_ready)))))))
     (\<lambda>_. modConn (\<lambda>c. c\<lparr>c_isHandshakeComplete := True\<rparr>))"
  unfolding client13_handshake_def client13_middle_def client13_rest_def client13_ready_def
    hsSeq.simps hsBind_assoc hsBind_ret hsBind_unit ..

lemma ech_establishHandshakeKeys: "keeps echState (establishHandshakeKeys C E)"
  unfolding establishHandshakeKeys_def Let_def modConn_def
  by (intro ech_rules; (auto intro!: ech_rules simp: echState_def split: sum.split)?)

lemma ech_verifyServerCertificate: "keeps echState (verifyServerCertificate E certificates)"
proof -
  have "keeps echState (verifyServerChain E name certs)" for name certs
    unfolding verifyServerChain_def modConn_def by (intro ech_rules) (cases certs; simp; intro ech_rules; simp add: echState_def)
  then show ?thesis unfolding verifyServerCertificate_def Let_def modConn_def by (intro ech_rules; simp add: echState_def)
qed

lemma ech_readServerCertificate: "keeps echState (readServerCertificate C E)"
  unfolding readServerCertificate_def readCertificateRequest13_def takeServerCertificate_def Let_def modConn_def
  by (intro ech_rules; (auto intro!: ech_rules ech_verifyServerCertificate simp: echState_def split: handshakeMessage.split)?)

lemma ech_client13_rest: "keeps echState (client13_rest C E)"
  unfolding client13_rest_def readServerFinished_def serverFinishedSecrets_def sendClientCertificate_def signClientTranscript_def
    sendClientFinished_def modConn_def
  by (intro ech_rules; (auto intro!: ech_rules simp: echState_def split: handshakeMessage.split sum.split prod.split)?)

lemma ech_client_processServerHello13: "keeps echState (client_processServerHello13 E)"
  unfolding client_processServerHello13_def takePSK_def Let_def by (intro ech_rules; simp add: echState_def resumeSession13_def)

lemma rejected_checkEncryptedExtensions: "stays rejected (checkEncryptedExtensions ee)"
  unfolding checkEncryptedExtensions_def Let_def modConn_def
  by (intro stays_bind stays_cases stays_seq; (rule stays_modify; simp add: echState_def)?; (rule stays_keeps; intro ech_rules; simp add: echState_def)?)

lemma rejected_middle: "stays rejected (client13_middle C E)"
proof -
  have "stays rejected (case msg of EncryptedExtensionsM ee \<Rightarrow> checkEncryptedExtensions ee | _ \<Rightarrow> unexpected w msg)" for msg w
    by (cases msg) (simp_all add: rejected_checkEncryptedExtensions ec.unexpected_keeps stays_keeps)
  then show ?thesis unfolding client13_middle_def readServerParameters_def
    by (intro stays_seq stays_bind ec.read13_keeps [THEN stays_keeps] ec.sendDummyChangeCipherSpec_keeps [THEN stays_keeps]
        ech_establishHandshakeKeys [THEN stays_keeps])
qed

section \<open>What a successful handshake has checked\<close>

text \<open>A pre-shared key is that of the session which was offered, and has the hash of the chosen suite.\<close>

definition took_session :: "hsEnv \<Rightarrow> clientHandshakeStateTLS13 \<Rightarrow> SessionState \<Rightarrow> bool" where
  "took_session E s session \<longleftrightarrow> q_session s = Some session \<and> c_didResume (hb_c s) \<and> c_peerCertificates (hb_c s) = sn_peerCertificates session \<and>
     c_verifiedChains (hb_c s) = sn_verifiedChains session \<and>
     (\<exists>pskSuite suite. cipherSuiteTLS13ByID (he_suites E) (sn_cipherSuite session) = Some pskSuite \<and> t_suite s = Some suite \<and>
        suiteHash13 pskSuite = suiteHash13 suite)"

lemma takePSK_success:
  assumes "takePSK E s = Some (Inr (), s')"
  shows "\<exists>session. s' = resumeSession13 session s \<and> took_session E s' session"
proof -
  from assms obtain session suite where "q_session s = Some session" "getSuite s = Some (Inr suite, s)"
    and "(case cipherSuiteTLS13ByID (he_suites E) (sn_cipherSuite session) of
           None \<Rightarrow> returnAlert alertInternalError
         | Some pskSuite \<Rightarrow> hsSeq [
             failIf (suiteHash13 pskSuite \<noteq> suiteHash13 suite) alertIllegalParameter
               ''tls: server selected an invalid PSK and cipher suite pair'',
             hsModify (resumeSession13 session)]) s = Some (Inr (), s')"
    unfolding takePSK_def hsBind_get id_apply
    by (auto simp: hs_success(4) failing_runs getSuite_def hs_success(5,7) split: option.split_asm if_split_asm)
  then show ?thesis
    by (auto simp: hs_simps getSuite_def took_session_def resumeSession13_def split: option.split_asm)
qed

lemma client_processServerHello13_success:
  assumes "client_processServerHello13 E s = Some (Inr (), s')"
  shows "s' = s \<or> (\<exists>session. s' = resumeSession13 session s \<and> took_session E s' session)"
proof -
  from assms have "hsWhen (sh_selectedIdentityPresent (t_serverHello s)) (takePSK E) s = Some (Inr (), s')"
    unfolding client_processServerHello13_def hsBind_get Let_def id_apply by (simp add: hs_success(4,1) failing_runs)
  then show ?thesis using takePSK_success by (auto simp: hsWhen_def hs_success(1) split: if_split_asm)
qed

lemma client13_start_success:
  assumes "client13_start C E s = Some (Inr (), s')" and "q_echContext s \<noteq> None"
  shows "c_echAccepted (hb_c s') \<or> echRejected s'"
proof -
  let ?before = "hsSeq [
     failIf (c_handshakes (hb_c s) > 0) alertProtocolVersion ''tls: server selected TLS 1.3 in a renegotiation'',
     hsWhen (q_keyShareKeys s = None \<or> length (ch_keyShares (t_hello s)) = 0) (returnAlert alertInternalError),
     checkServerHelloOrHRR E,
     hsBind getSuite (\<lambda>suite. setTranscript (hs_new (cs13_hash suite))),
     transcript13 C (ClientHelloM (t_hello s)),
     startInner C,
     hsWhen (sh_random (t_serverHello s) = helloRetryRequestRandom) (hsSeq [sendDummyChangeCipherSpec, processHelloRetryRequest C E])]"
  let ?after = "hsBind (hsGet t_serverHello) (\<lambda>sh. transcript13 C (ServerHelloM sh)) :: (clientHandshakeStateTLS13, unit) hs"
  have "client13_start C E s = hsBind ?before (\<lambda>_. hsBind (confirmInner C) (\<lambda>_. ?after)) s"
    unfolding client13_start_def hsBind_get id_apply hsSeq.simps hsBind_assoc hsBind_ret hsBind_unit ..
  with assms(1) obtain s1 s2 where b: "?before s = Some (Inr (), s1)" and c: "confirmInner C s1 = Some (Inr (), s2)"
    and a: "?after s2 = Some (Inr (), s')" by (simp only: hsBind_done) blast
  have "stays (\<lambda>x. x \<noteq> None) (startInner C)"
    unfolding startInner_def by (intro stays_rules; (rule stays_keeps, intro ech_rules)?; simp add: echState_def)
  then have "stays (\<lambda>x. x \<noteq> None) ?before"
    by (intro stays_seq stays_cases hasECH_processHelloRetryRequest ech_checkServerHelloOrHRR [THEN stays_keeps]
        ec.hs13_keeps [THEN stays_keeps] stays_bind)
  from staysD [OF this, OF b] assms(2) have "echState s1 \<noteq> None" by (simp add: echState_def)
  from confirmInner_decides [OF c this] have "c_echAccepted (hb_c s2) \<or> echRejected s2" .
  moreover have "keeps outcome13 ?after" "keeps echState ?after" by (intro outcome_rules, intro ech_rules)
  note keepsD [OF this(1), OF a] keepsD [OF this(2), OF a]
  ultimately show ?thesis by (simp add: outcome13_def echRejected_state)
qed

lemma readServerCertificate_success:
  assumes run: "readServerCertificate C E s = Some (Inr (), s')" and psk: "\<not> t_usingPSK s"
    and skip: "\<not> cfg_InsecureSkipVerify (hb_config s)" and ech: "cfg_EncryptedClientHelloConfigList (hb_config s) = None \<or> c_echAccepted (hb_c s)"
  shows "server_verified E s' \<and> c_echAccepted (hb_c s') = c_echAccepted (hb_c s)"
proof -
  let ?verify = "readCertificateVerify13 C E serverSignatureContext ''certificate'' ''server'' :: (clientHandshakeStateTLS13, unit) hs"
  from run psk obtain msg s1 s2 where r: "readCertificateRequest13 C s = Some (Inr msg, s1)"
    and t: "takeServerCertificate E msg s1 = Some (Inr (), s2)" and v: "?verify s2 = Some (Inr (), s')"
    unfolding readServerCertificate_def hsBind_get by (auto simp: hs_success(4) hs_success(1))
  have o1: "outcome13 s1 = outcome13 s" using keepsD [OF readCertificateRequest13_outcome r] .
  from t obtain certMsg where "msg = CertificateTLS13M certMsg"
    by (cases msg) (simp_all add: takeServerCertificate_def failing_runs)
  with t have vs: "verifyServerCertificate E (Certificate_der (cm13_certificate certMsg))
      (hb_c_update (\<lambda>c. c\<lparr>c_scts := SignedCertificateTimestamps (cm13_certificate certMsg), c_ocspResponse := OCSPStaple (cm13_certificate certMsg)\<rparr>) s1) =
      Some (Inr (), s2)"
    by (auto simp: takeServerCertificate_def hs_simps Let_def)
  let ?s1 = "hb_c_update (\<lambda>c. c\<lparr>c_scts := SignedCertificateTimestamps (cm13_certificate certMsg), c_ocspResponse := OCSPStaple (cm13_certificate certMsg)\<rparr>) s1"
  have f: "fixedConfig s1 = fixedConfig s" using o1 by (simp add: outcome13_def opening13_def frame13_def)
  have a1: "c_echAccepted (hb_c s1) = c_echAccepted (hb_c s)" using o1 by (simp add: outcome13_def)
  have e1: "\<not> cfg_InsecureSkipVerify (hb_config ?s1)"
    "cfg_EncryptedClientHelloConfigList (hb_config ?s1) = None \<or> c_echAccepted (hb_c ?s1)"
    using skip ech fixedConfig_fields [OF f] a1 by simp_all
  from verifyServerCertificate_success [OF vs e1] obtain chs where
    s2: "s2 = ?s1\<lparr>hb_c := (hb_c ?s1)\<lparr>c_verifiedChains := chs, c_peerCertificates := c_peerCertificates (hb_c s2)\<rparr>\<rparr>"
    and ok: "verified_server E (hb_x ?s1) (cfg_ServerName (hb_config ?s1)) (c_peerCertificates (hb_c s2)) chs" by blast
  have "hb_x s2 = hb_x ?s1" "c_config (hb_c s2) = c_config (hb_c ?s1)" "c_verifiedChains (hb_c s2) = chs"
    "c_echAccepted (hb_c s2) = c_echAccepted (hb_c s1)"
    by (subst s2, simp)+
  with ok have v2: "server_verified E s2" "c_echAccepted (hb_c s2) = c_echAccepted (hb_c s)" by (simp_all add: server_verified_def a1)
  have o3: "outcome13 s' = outcome13 s2" by (rule keepsD [OF oc.readCertificateVerify13_keeps v])
  then have "fixedConfig s' = fixedConfig s2" by (simp add: outcome13_def opening13_def frame13_def)
  from fixedConfig_fields [OF this] o3 v2 show ?thesis
    by (simp add: server_verified_def outcome13_def opening13_def frame13_def)
qed

lemma client13_fails:
  assumes "client13_handshake C E s = Some (Inl e, s')"
  shows "c_isHandshakeComplete (hb_c s') = c_isHandshakeComplete (hb_c s)"
proof -
  let ?body = "hsBind (client13_start C E) (\<lambda>_. hsBind (modConn (\<lambda>c. c\<lparr>c_buffering := True\<rparr>)) (\<lambda>_.
     hsBind (client_processServerHello13 E) (\<lambda>_. hsBind (client13_middle C E) (\<lambda>_. hsBind (readServerCertificate C E) (\<lambda>_.
     hsBind (client13_rest C E) (\<lambda>_. client13_ready))))))"
  have "keeps frame13 (client13_middle C E)" "keeps frame13 (client13_rest C E)" "keeps frame13 client13_ready"
    unfolding client13_middle_def client13_rest_def client13_ready_def
    by (rule keeps_frame13, rule keeps_opening13, intro outcome_rules establishHandshakeKeys_outcome readServerParameters_outcome
      readServerFinished_outcome sendClientCertificate_outcome sendClientFinished_outcome)+
  then have k: "keeps frame13 ?body"
    unfolding modConn_def
    by (intro keeps_intros client13_start_opening [THEN keeps_frame13] client_processServerHello13_frame
        readServerCertificate_opening [THEN keeps_frame13]; simp add: outcome13_defs)
  from assms have "?body s = Some (Inl e, s')"
    unfolding client13_handshake_split by (cases "?body s") (auto simp: hsBind_def modConn_def hsModify_def split: sum.split_asm)
  from keepsD [OF k this] show ?thesis by (simp add: frame13_def)
qed

lemma client13_succeeds:
  assumes run: "client13_handshake C E s = Some (Inr (), s')" and psk: "\<not> t_usingPSK s"
    and skip: "\<not> cfg_InsecureSkipVerify (hb_config s)"
    and ech: "cfg_EncryptedClientHelloConfigList (hb_config s) = None \<or> q_echContext s \<noteq> None"
  shows "c_isHandshakeComplete (hb_c s') \<and> fixedConfig s' = fixedConfig s \<and> hb_x s' = hb_x s \<and>
    (c_didResume (hb_c s') \<longleftrightarrow> t_usingPSK s' \<or> c_didResume (hb_c s)) \<and> (q_echContext s \<noteq> None \<longrightarrow> c_echAccepted (hb_c s')) \<and>
    (if t_usingPSK s' then \<exists>session. q_session s = Some session \<and> took_session E s' session else server_verified E s')"
proof -
  let ?buf = "hb_c_update (\<lambda>c. c\<lparr>c_buffering := True\<rparr>)" and ?finish = "hb_c_update (\<lambda>c. c\<lparr>c_isHandshakeComplete := True\<rparr>)"
  from run obtain s1 s2 s3 s4 s5 where st: "client13_start C E s = Some (Inr (), s1)"
    and p: "client_processServerHello13 E (?buf s1) = Some (Inr (), s2)" and m: "client13_middle C E s2 = Some (Inr (), s3)"
    and c: "readServerCertificate C E s3 = Some (Inr (), s4)" and r: "client13_rest C E s4 = Some (Inr (), s5)"
    and ok: "client13_ready s5 = Some (Inr (), s5)" and s': "s' = ?finish s5"
    unfolding client13_handshake_split hsBind_done failing_runs client13_ready_def hsBind_get id_apply by (auto simp: failing_runs)
  have o1: "opening13 s1 = opening13 s" using keepsD [OF client13_start_opening st] .
  have "keeps outcome13 (client13_middle C E)" "keeps outcome13 (client13_rest C E)"
    unfolding client13_middle_def client13_rest_def
    by (intro outcome_rules establishHandshakeKeys_outcome readServerParameters_outcome readServerFinished_outcome
        sendClientCertificate_outcome sendClientFinished_outcome)+
  from keepsD [OF this(1), OF m] keepsD [OF this(2), OF r]
  have o3: "outcome13 s3 = outcome13 s2" and o5: "outcome13 s5 = outcome13 s4" .
  have o4: "opening13 s4 = opening13 s3" using keepsD [OF readServerCertificate_opening c] .
  have "\<not> rejected (echState s5)" using ok by (simp add: client13_ready_def hsBind_get failing_runs echRejected_state)
  then have "\<not> rejected (echState s1)"
    using keepsD [OF ech_client13_rest r] keepsD [OF ech_readServerCertificate c] staysD [OF rejected_middle, OF m]
      keepsD [OF ech_client_processServerHello13 p] by (auto simp: echState_def)
  then have a1: "q_echContext s \<noteq> None \<longrightarrow> c_echAccepted (hb_c s1)"
    using client13_start_success [OF st] by (auto simp: echRejected_state)
  have q1: "opening13 (?buf s1) = opening13 s" "c_echAccepted (hb_c (?buf s1)) = c_echAccepted (hb_c s1)" using o1 by (simp_all add: outcome13_defs)
  from client_processServerHello13_success [OF p] consider "s2 = ?buf s1"
    | session where "s2 = resumeSession13 session (?buf s1)" "took_session E s2 session" by blast
  moreover have fin: "fixedConfig (?finish s5) = fixedConfig s5" by (simp add: fixedConfig_def)
  ultimately show ?thesis
  proof cases
    case 1
    then have o2: "opening13 s2 = opening13 s" "c_echAccepted (hb_c s2) = c_echAccepted (hb_c s1)" using q1 by simp_all
    with o3 have o3': "opening13 s3 = opening13 s" "c_echAccepted (hb_c s3) = c_echAccepted (hb_c s1)" by (simp_all add: outcome13_def)
    then have f: "fixedConfig s3 = fixedConfig s" and u: "\<not> t_usingPSK s3" using psk by (simp_all add: opening13_def frame13_def)
    have "\<not> cfg_InsecureSkipVerify (hb_config s3)" "cfg_EncryptedClientHelloConfigList (hb_config s3) = None \<or> c_echAccepted (hb_c s3)"
      using skip ech a1 o3'(2) fixedConfig_fields [OF f] by auto
    from readServerCertificate_success [OF c u this] have v: "server_verified E s4" "c_echAccepted (hb_c s4) = c_echAccepted (hb_c s1)"
      using o3' by simp_all
    have "opening13 s4 = opening13 s" using o4 o3' by simp
    then have g: "fixedConfig s4 = fixedConfig s" "hb_x s4 = hb_x s" "c_didResume (hb_c s4) = c_didResume (hb_c s)"
      by (simp_all add: opening13_def frame13_def)
    have h: "fixedConfig s5 = fixedConfig s4" "t_usingPSK s5 = t_usingPSK s3" using o5 o4 by (simp_all add: outcome13_def opening13_def frame13_def)
    then show ?thesis using fixedConfig_fields [of s5 s4] o5 v a1 u
      by (simp add: s' server_verified_def outcome13_def opening13_def frame13_def fin g)
  next
    case (2 session)
    then have u: "t_usingPSK s3" "c_echAccepted (hb_c s3) = c_echAccepted (hb_c s1)" "q_session s2 = q_session s" using o3 q1
      by (simp_all add: resumeSession13_def outcome13_def opening13_def frame13_def)
    then have "verifyConnection s3 = Some (Inr (), s4)" using c by (simp add: readServerCertificate_def hsBind_get)
    from keepsD [OF oc.verifyConnection_keeps this] have "outcome13 s5 = outcome13 s2" using o3 o5 by simp
    moreover have "fixedConfig s2 = fixedConfig s" "hb_x s2 = hb_x s"
      using 2(1) q1(1) by (simp_all add: resumeSession13_def outcome13_defs)
    ultimately show ?thesis using 2(2) u a1 o3 by (auto simp: s' fin took_session_def outcome13_def opening13_def frame13_def)
  qed
qed

section \<open>Properties\<close>


definition client13_sample :: clientHandshakeStateTLS13 where
  "client13_sample = clientHandshakeStateTLS13_new \<lparr>hb_c = conn12_sample\<lparr>c_vers := VersionTLS13, c_isClient := True, c_handshakes := 1\<rparr>,
     hb_x = configExt_zero, hb_ekm = None, hb_keyLog = []\<rparr> serverHelloMsg_zero clientHelloMsg_zero None None None [] None"


end
