(* ===== verification/Agreement13.thy ===== *)
theory Agreement13
  imports Client13
begin

text \<open>
  The two ends of a TLS 1.3 handshake together: what a client and a server that agree on the suite, the transcript and the secrets
  install as the keys of their record layers, and the session cache of a client whose handshake fails.
\<close>

section \<open>Successful steps\<close>

lemma onConn_success: "onConn g s = Some (Inr (), s') \<longleftrightarrow> (\<exists>c. g (hb_c s) = Some (None, c) \<and> s' = s\<lparr>hb_c := c\<rparr>)"
  by (auto simp: onConn_def split: option.split_asm prod.split_asm)

lemma setWriteSecret_success:
  assumes "setWriteSecret C l w s = Some (Inr (), s')"
  shows "\<exists>suite out. t_suite s = Some suite \<and> hc_setTrafficSecret C (c_out (hb_c s)) suite l w = Some out \<and>
    s' = s\<lparr>hb_c := (hb_c s)\<lparr>c_out := out\<rparr>\<rparr>"
  using assms by (auto simp: setWriteSecret_def getSuite_def hs_success(4,5,7) onConn_success setWriteTrafficSecret_def)

lemma setReadSecret_success:
  assumes "setReadSecret C l w s = Some (Inr (), s')"
  shows "\<exists>suite inn. t_suite s = Some suite \<and> hc_setTrafficSecret C (c_in (hb_c s)) suite l w = Some inn \<and>
    s' = s\<lparr>hb_c := (hb_c s)\<lparr>c_in := inn\<rparr>\<rparr>"
  using assms
  by (auto simp: setReadSecret_def getSuite_def hs_success(4,5,7) onConn_success setReadTrafficSecret_def split: if_split_asm)

text \<open>The halves of the connection, which the steps for a QUIC transport and for the key log leave alone.\<close>

definition halves :: "'z hs13_scheme \<Rightarrow> halfConn \<times> halfConn" where
  "halves s = (c_out (hb_c s), c_in (hb_c s))"

lemma quicSecrets_success:
  assumes "quicSecrets l w v s = Some (Inr (), s')"
  shows "halves s' = halves s"
  using assms
  by (auto simp: quicSecrets_def getSuite_def hs_simps hsWhen_def onConn_success quicSetReadSecret_def quicSetWriteSecret_def halves_def
      split: if_split_asm)

lemma logSecret_success:
  assumes "logSecret l w s = Some (Inr (), s')"
  shows "halves s' = halves s"
  using assms
  by (auto simp: logSecret_def hs_simps orAlert_def writeKeyLog_def Let_def hsErr_def abort_def alertHs_def halves_def
      split: option.split_asm sum.split_asm prod.split_asm)

section \<open>The handshake keys\<close>

text \<open>
  What both ends do: the two handshake traffic secrets over a transcript, one for each half of the connection (\<open>own\<close> for the
  writing half, \<open>other\<close> for the reading half).
\<close>

definition installs :: "('b, 'x) cryptobyte_scheme \<Rightarrow> cipherSuiteTLS13 \<Rightarrow> bytes \<Rightarrow> bytes \<Rightarrow> 'z hs13_scheme \<Rightarrow> 'y hs13_scheme \<Rightarrow> bool" where
  "installs C suite own other s s' \<longleftrightarrow>
     hc_setTrafficSecret C (c_out (hb_c s)) suite QUICEncryptionLevelHandshake own = Some (c_out (hb_c s')) \<and>
     hc_setTrafficSecret C (c_in (hb_c s)) suite QUICEncryptionLevelHandshake other = Some (c_in (hb_c s'))"

lemma serverHandshakeKeys_success:
  assumes "serverHandshakeKeys C s = Some (Inr (), s')"
  shows "\<exists>suite t hs clientSecret serverSecret. t_suite s = Some suite \<and> t_transcript s = Some t \<and>
    EarlySecret_HandshakeSecret C (case t_earlySecret s of Some e \<Rightarrow> e | None \<Rightarrow> NewEarlySecret (cs13_hash suite) None) (u_sharedKey s) = Some hs \<and>
    HandshakeSecret_ClientHandshakeTrafficSecret C hs t = Some clientSecret \<and>
    HandshakeSecret_ServerHandshakeTrafficSecret C hs t = Some serverSecret \<and> installs C suite serverSecret clientSecret s s'"
proof -
  let ?early = "\<lambda>suite. case t_earlySecret s of Some e \<Rightarrow> e | None \<Rightarrow> NewEarlySecret (cs13_hash suite) None"
  let ?l = QUICEncryptionLevelHandshake
  from assms obtain suite t hs cs ss s1 s2 s3 s4 where suite: "t_suite s = Some suite" and t: "t_transcript s = Some t"
    and hs: "EarlySecret_HandshakeSecret C (?early suite) (u_sharedKey s) = Some hs"
    and ss: "HandshakeSecret_ServerHandshakeTrafficSecret C hs t = Some ss"
    and w: "setWriteSecret C ?l ss (u_handshakeSecret_update (\<lambda>_. Some hs) s) = Some (Inr (), s1)"
    and cs: "HandshakeSecret_ClientHandshakeTrafficSecret C hs t = Some cs"
    and r: "setReadSecret C ?l cs s1 = Some (Inr (), s2)" and q: "quicSecrets ?l ss cs s2 = Some (Inr (), s3)"
    and l: "logSecret keyLogLabelClientHandshake cs s3 = Some (Inr (), s4)" "logSecret keyLogLabelServerHandshake ss s4 = Some (Inr (), s')"
    unfolding serverHandshakeKeys_def hsBind_get Let_def id_apply getSuite_def getTranscript_def hsSeq.simps
    by (auto simp: hs_success(1,4-7))
  from setWriteSecret_success [OF w] obtain out where o: "hc_setTrafficSecret C (c_out (hb_c s)) suite ?l ss = Some out"
    and s1: "s1 = u_handshakeSecret_update (\<lambda>_. Some hs) s\<lparr>hb_c := (hb_c s)\<lparr>c_out := out\<rparr>\<rparr>" using suite by auto
  from setReadSecret_success [OF r] obtain inn where i: "hc_setTrafficSecret C (c_in (hb_c s)) suite ?l cs = Some inn"
    and s2: "s2 = s1\<lparr>hb_c := (hb_c s1)\<lparr>c_in := inn\<rparr>\<rparr>" using suite by (auto simp: s1)
  have "halves s' = halves s2" using quicSecrets_success [OF q] logSecret_success [OF l(1)] logSecret_success [OF l(2)] by simp
  then have "installs C suite ss cs s s'" using o i by (simp add: installs_def halves_def s2 s1)
  with suite t hs ss cs show ?thesis by blast
qed

lemma establishHandshakeKeys_success:
  assumes run: "establishHandshakeKeys C E k = Some (Inr (), k')"
    and ke: "exchangeFor E (ks_group (sh_serverShare (t_serverHello k))) = Inr ke" and keys: "q_keyShareKeys k = Some keys"
    and shared: "clientSharedSecret ke keys (ks_data (sh_serverShare (t_serverHello k))) = Some (Inr shared)"
  shows "\<exists>suite t early hs clientSecret serverSecret. t_suite k = Some suite \<and> t_transcript k = Some t \<and>
    (if t_usingPSK k then t_earlySecret k else Some (NewEarlySecret (cs13_hash suite) None)) = Some early \<and>
    EarlySecret_HandshakeSecret C early shared = Some hs \<and>
    HandshakeSecret_ClientHandshakeTrafficSecret C hs t = Some clientSecret \<and>
    HandshakeSecret_ServerHandshakeTrafficSecret C hs t = Some serverSecret \<and> installs C suite clientSecret serverSecret k k' \<and>
    t_masterSecret k' = HandshakeSecret_MasterSecret C hs"
proof -
  let ?l = QUICEncryptionLevelHandshake and ?k = "hb_c_update (\<lambda>c. c\<lparr>c_curveID := ks_group (sh_serverShare (t_serverHello k))\<rparr>) k"
  from run ke keys shared obtain suite t early hs cs ss s1 s2 s3 s4 s5 ms where suite: "t_suite k = Some suite" and t: "t_transcript k = Some t"
    and e: "(if t_usingPSK k then t_earlySecret k else Some (NewEarlySecret (cs13_hash suite) None)) = Some early"
    and hs: "EarlySecret_HandshakeSecret C early shared = Some hs"
    and cs: "HandshakeSecret_ClientHandshakeTrafficSecret C hs t = Some cs"
    and w: "setWriteSecret C ?l cs ?k = Some (Inr (), s1)"
    and ss: "HandshakeSecret_ServerHandshakeTrafficSecret C hs t = Some ss"
    and r: "setReadSecret C ?l ss s1 = Some (Inr (), s2)" and q: "quicSecrets ?l cs ss s2 = Some (Inr (), s3)"
    and l: "logSecret keyLogLabelClientHandshake cs s3 = Some (Inr (), s4)" "logSecret keyLogLabelServerHandshake ss s4 = Some (Inr (), s5)"
    and ms: "HandshakeSecret_MasterSecret C hs = Some ms" and k': "k' = s5\<lparr>t_masterSecret := Some ms\<rparr>"
    unfolding establishHandshakeKeys_def hsBind_get Let_def id_apply getSuite_def getTranscript_def hsSeq.simps
    by (auto simp: hs_success(1,4-7) failing_runs)
  from setWriteSecret_success [OF w] obtain out where o: "hc_setTrafficSecret C (c_out (hb_c k)) suite ?l cs = Some out"
    and s1: "s1 = ?k\<lparr>hb_c := (hb_c ?k)\<lparr>c_out := out\<rparr>\<rparr>" using suite by auto
  from setReadSecret_success [OF r] obtain inn where i: "hc_setTrafficSecret C (c_in (hb_c k)) suite ?l ss = Some inn"
    and s2: "s2 = s1\<lparr>hb_c := (hb_c s1)\<lparr>c_in := inn\<rparr>\<rparr>" using suite by (auto simp: s1)
  have "halves s5 = halves s2" using quicSecrets_success [OF q] logSecret_success [OF l(1)] logSecret_success [OF l(2)] by simp
  then have "installs C suite cs ss k k'" using o i by (simp add: installs_def halves_def s2 s1 k')
  with suite t e hs ss cs ms k' show ?thesis by (intro exI [of _ suite] exI [of _ t] exI [of _ early] exI [of _ hs]) simp
qed

text \<open>Two halves that are given the same secret are paired.\<close>

lemma same_secret_paired:
  assumes "cryptobyte_pkg C" and "suite13_ok suite" and "hc_version i = hc_version out" and "hc_mac i = None"
    and "hc_setTrafficSecret C out suite l secret = Some out'" and "hc_setTrafficSecret C i suite l secret = Some i'"
  shows "rl_paired (out', rand) i' \<and> hc_trafficSecret out' = secret \<and> hc_trafficSecret i' = secret"
proof -
  obtain a where a: "aead_wf a" "aead_Overhead a \<le> 200" "aead_explicitNonceLen a = 0"
    and r: "\<forall>hc level. hc_setTrafficSecret C hc suite level secret = Some (rekeyed hc level secret a)"
    by (rule cryptobyte_pkg.hc_setTrafficSecret_total [OF assms(1,2)])
  have e: "out' = rekeyed out l secret a" "i' = rekeyed i l secret a" using r assms(5,6) by simp_all
  show ?thesis using rekeyed_paired [OF a assms(3,4)] unfolding e by (simp add: rekeyed_def)
qed

section \<open>The session cache after a failure\<close>

text \<open>A nil session that was put under a key is not found there again, whether it removed an entry or was stored.\<close>

lemma lru_Put_nil: "lru_Put cache key None = Some cache' \<Longrightarrow> lru_Get cache' key = Some ((cs, ok), cache'') \<Longrightarrow> cs = None"
  by (auto simp: lru_Put_def lru_Get_def Let_def bind_eq_Some_conv split: option.split_asm if_split_asm)

lemma cachePut_run:
  assumes "cachePut key cs s = Some (r, s')"
  shows "\<exists>cache cache'. lru_Put cache key cs = Some cache' \<and> s' = s\<lparr>hb_c := (hb_c s)\<lparr>c_ClientSessionCache := Some cache'\<rparr>\<rparr>"
  using assms
  by (cases s) (auto simp: cachePut_def hsBind_def hsGet_def hsOpt_def hsRet_def hsPanic_def modConn_def hsModify_def split: option.split_asm; blast)

lemma cacheGet_run:
  assumes "cacheGet key s = Some (r, s')" and "c_ClientSessionCache (hb_c s) = Some cache"
  obtains cs ok cache' where "lru_Get cache key = Some ((cs, ok), cache')" and "r = Inr (if ok then cs else None)"
proof (cases "lru_Get cache key")
  case None
  with assms show thesis by (simp add: cacheGet_def hsBind_def hsGet_def hsOpt_def hsRet_def hsPanic_def)
next
  case (Some a)
  obtain cs ok cache' where "a = ((cs, ok), cache')" by (cases a) auto
  with Some assms show thesis
    by (intro that) (auto simp: cacheGet_def hsBind_def hsGet_def hsOpt_def hsRet_def hsPanic_def modConn_def hsModify_def)
qed

lemma cachePut_nil:
  assumes put: "cachePut key None s = Some (r, s')" and "cacheGet key s' = Some (found, s'')"
  shows "found = Inr None"
proof -
  from cachePut_run [OF put] obtain cache cache' where p: "lru_Put cache key None = Some cache'"
    and s': "s' = s\<lparr>hb_c := (hb_c s)\<lparr>c_ClientSessionCache := Some cache'\<rparr>\<rparr>" by blast
  have "c_ClientSessionCache (hb_c s') = Some cache'" by (simp add: s')
  with assms(2) obtain cs ok cache'' where "lru_Get cache' key = Some ((cs, ok), cache'')" "found = Inr (if ok then cs else None)"
    by (rule cacheGet_run)
  with lru_Put_nil [OF p] show ?thesis by simp
qed

section \<open>Properties\<close>

text \<open>
  (C6) Both ends of a TLS 1.3 handshake install matching handshake keys: a client in \<open>establishHandshakeKeys\<close> and a server in
  \<open>sendServerParameters\<close> that have the same suite, the same transcript up to the ServerHello, the same early secret (of a
  pre-shared key, or none) and whose key exchange gave one shared secret end up with paired halves in both directions, as the delivery
  of the encrypted messages requires, and with the same traffic secrets, from which each computes and checks the Finished messages.
\<close>

theorem handshake_keys_paired:
  assumes "cryptobyte_pkg C" and "suite13_ok suite"
    and "establishHandshakeKeys C E k = Some (Inr (), k')" and "serverHandshakeKeys C s = Some (Inr (), s')"
    and "t_suite k = Some suite" and "t_suite s = Some suite" and "t_transcript k = t_transcript s"
    and "if t_usingPSK k then t_earlySecret k = t_earlySecret s else t_earlySecret s = None"
    and "exchangeFor E (ks_group (sh_serverShare (t_serverHello k))) = Inr ke" and "q_keyShareKeys k = Some keys"
    and "clientSharedSecret ke keys (ks_data (sh_serverShare (t_serverHello k))) = Some (Inr (u_sharedKey s))"
    and "hc_version (c_in (hb_c s)) = hc_version (c_out (hb_c k))" and "hc_mac (c_in (hb_c s)) = None"
    and "hc_version (c_in (hb_c k)) = hc_version (c_out (hb_c s))" and "hc_mac (c_in (hb_c k)) = None"
  shows "rl_paired (c_out (hb_c k'), rand) (c_in (hb_c s')) \<and> rl_paired (c_out (hb_c s'), rand') (c_in (hb_c k')) \<and>
    hc_trafficSecret (c_out (hb_c k')) = hc_trafficSecret (c_in (hb_c s')) \<and>
    hc_trafficSecret (c_out (hb_c s')) = hc_trafficSecret (c_in (hb_c k'))"
proof -
  from establishHandshakeKeys_success [OF assms(3,9-11)] assms(5) obtain t early hs cs ss where
      t: "t_transcript k = Some t" and e: "(if t_usingPSK k then t_earlySecret k else Some (NewEarlySecret (cs13_hash suite) None)) = Some early"
    and hs: "EarlySecret_HandshakeSecret C early (u_sharedKey s) = Some hs"
    and secrets: "HandshakeSecret_ClientHandshakeTrafficSecret C hs t = Some cs" "HandshakeSecret_ServerHandshakeTrafficSecret C hs t = Some ss"
    and k: "installs C suite cs ss k k'" by auto
  have "(case t_earlySecret s of Some e \<Rightarrow> e | None \<Rightarrow> NewEarlySecret (cs13_hash suite) None) = early"
    using e assms(8) by (cases "t_earlySecret s") (auto split: if_split_asm)
  with serverHandshakeKeys_success [OF assms(4)] assms(6,7) t hs secrets have s: "installs C suite ss cs s s'" by auto
  have "rl_paired (c_out (hb_c k'), rand) (c_in (hb_c s')) \<and> hc_trafficSecret (c_out (hb_c k')) = cs \<and> hc_trafficSecret (c_in (hb_c s')) = cs"
    by (rule same_secret_paired [OF assms(1,2,12,13), where l = QUICEncryptionLevelHandshake]) (use k s in \<open>simp_all add: installs_def\<close>)
  moreover have "rl_paired (c_out (hb_c s'), rand') (c_in (hb_c k')) \<and> hc_trafficSecret (c_out (hb_c s')) = ss \<and> hc_trafficSecret (c_in (hb_c k')) = ss"
    by (rule same_secret_paired [OF assms(1,2,14,15), where l = QUICEncryptionLevelHandshake]) (use k s in \<open>simp_all add: installs_def\<close>)
  ultimately show ?thesis by simp
qed

definition suite13_sample :: cipherSuiteTLS13 where
  "suite13_sample = \<lparr>cs13_id = TLS_AES_128_GCM_SHA256, cs13_keyLen = 16, cs13_aead = (\<lambda>key iv. Some (xorNonceAEAD iv aead_sample)),
     cs13_hash = hash_sample\<rparr>"

lemma suite13_sample_ok: "suite13_ok suite13_sample"
  using hash_sample_ok
  by (simp add: suite13_sample_def suite13_ok_def schedule_hash_def aead_wf_def aead_sample_def cipherAEAD_ok_def)

definition paired_server :: serverHandshakeStateTLS13 where
  "paired_server = server13_sample\<lparr>t_suite := Some suite13_sample, t_transcript := Some (hs_new hash_sample), u_sharedKey := [6]\<rparr>"

definition paired_client :: clientHandshakeStateTLS13 where
  "paired_client = client13_sample\<lparr>t_suite := Some suite13_sample, t_transcript := Some (hs_new hash_sample),
     t_serverHello := serverHelloMsg_zero\<lparr>sh_serverShare := \<lparr>ks_group = X25519, ks_data = [3]\<rparr>\<rparr>,
     q_keyShareKeys := Some \<lparr>kp_ecdhe = [2], kp_mlkem = None\<rparr>\<rparr>"

lemma paired_fields:
  "t_suite paired_client = Some suite13_sample" "t_suite paired_server = Some suite13_sample" "t_transcript paired_client = Some (hs_new hash_sample)"
  "t_transcript paired_server = Some (hs_new hash_sample)" "\<not> t_usingPSK paired_client" "t_earlySecret paired_server = None"
  "q_keyShareKeys paired_client = Some \<lparr>kp_ecdhe = [2], kp_mlkem = None\<rparr>" "u_sharedKey paired_server = [6]"
  "hc_version (c_in (hb_c paired_server)) = hc_version (c_out (hb_c paired_client))" "hc_mac (c_in (hb_c paired_server)) = None"
  "hc_version (c_in (hb_c paired_client)) = hc_version (c_out (hb_c paired_server))" "hc_mac (c_in (hb_c paired_client)) = None"
  "sh_serverShare (t_serverHello paired_client) = \<lparr>ks_group = X25519, ks_data = [3]\<rparr>"
  "c_hand (hb_c paired_client) = []" "c_hand (hb_c paired_server) = []" "c_quic (hb_c paired_client) = None" "c_quic (hb_c paired_server) = None"
  "cx_KeyLogWriter (hb_x paired_client) = None" "cx_KeyLogWriter (hb_x paired_server) = None"
  by (simp_all add: paired_client_def paired_server_def server13_sample_def client13_sample_def serverHandshakeStateTLS13_new_def
      clientHandshakeStateTLS13_new_def conn12_sample_def conn_sample_def halfConn_zero_def configExt_zero_def)

theorem handshake_keys_paired_witness:
  "\<exists>k' s'. establishHandshakeKeys cb_ref hsEnv_sample paired_client = Some (Inr (), k') \<and> serverHandshakeKeys cb_ref paired_server = Some (Inr (), s') \<and>
     rl_paired (c_out (hb_c k'), []) (c_in (hb_c s')) \<and> rl_paired (c_out (hb_c s'), []) (c_in (hb_c k'))"
proof -
  let ?ke = "EcdhKE \<lparr>ke_id = X25519, ke_curve = curve_sample\<rparr>" and ?l = QUICEncryptionLevelHandshake
  have ke: "exchangeFor hsEnv_sample (ks_group (sh_serverShare (t_serverHello paired_client))) = Inr ?ke"
    by (simp add: paired_fields exchangeFor_def keyExchangeForCurveID_def hsEnv_sample_def kaPkgs_sample_def)
  have sh: "clientSharedSecret ?ke \<lparr>kp_ecdhe = [2], kp_mlkem = None\<rparr> (ks_data (sh_serverShare (t_serverHello paired_client))) =
      Some (Inr (u_sharedKey paired_server))"
    by (simp add: paired_fields clientSharedSecret_def ecdh_clientSharedSecret_def curve_sample_def)
  obtain hs ms where s: "EarlySecret_HandshakeSecret cb_ref (NewEarlySecret hash_sample None) [6] = Some hs"
      "HandshakeSecret_MasterSecret cb_ref hs = Some ms" "ss_hash hs = hash_sample"
    by (rule cbr.schedule_total [OF hash_sample_ok, of "hs_new hash_sample" None "[6]"]) (simp add: hs_new_def)
  obtain cs ss where t: "HandshakeSecret_ClientHandshakeTrafficSecret cb_ref hs (hs_new hash_sample) = Some cs"
      "HandshakeSecret_ServerHandshakeTrafficSecret cb_ref hs (hs_new hash_sample) = Some ss"
    using cbr.traffic_secrets_total [of hs "hs_new hash_sample"] hash_sample_ok s(3) by (auto simp: hs_new_def)
  obtain a where a: "\<And>hc. hc_setTrafficSecret cb_ref hc suite13_sample ?l cs = Some (rekeyed hc ?l cs a)"
    by (rule cbr.hc_setTrafficSecret_total [OF suite13_sample_ok, of cs]) blast
  obtain b where b: "\<And>hc. hc_setTrafficSecret cb_ref hc suite13_sample ?l ss = Some (rekeyed hc ?l ss b)"
    by (rule cbr.hc_setTrafficSecret_total [OF suite13_sample_ok, of ss]) blast
  have h: "cs13_hash suite13_sample = hash_sample" by (simp add: suite13_sample_def)
  note run = paired_fields getSuite_def getTranscript_def setWriteSecret_def setReadSecret_def onConn_def quicSecrets_def logSecret_def
    orAlert_def writeKeyLog_def setWriteTrafficSecret_def setReadTrafficSecret_def hsBind_def hsGet_def hsOpt_def hsRet_def hsModify_def
    modConn_def hsWhen_def Let_def resAlert_def hsRes_def
  obtain k' where k': "establishHandshakeKeys cb_ref hsEnv_sample paired_client = Some (Inr (), k')"
    using ke sh s t by (simp add: establishHandshakeKeys_def run h a b)
  obtain s' where s': "serverHandshakeKeys cb_ref paired_server = Some (Inr (), s')"
    using s t by (simp add: serverHandshakeKeys_def run h a b)
  have e: "t_transcript paired_client = t_transcript paired_server"
    "if t_usingPSK paired_client then t_earlySecret paired_client = t_earlySecret paired_server else t_earlySecret paired_server = None"
    by (simp_all add: paired_fields)
  from handshake_keys_paired [OF cbr.cryptobyte_pkg_axioms suite13_sample_ok k' s' paired_fields(1,2) e ke paired_fields(7) sh paired_fields(9-12)] k' s'
  show ?thesis by blast
qed


definition stale_sample :: hsBase where
  "stale_sample = \<lparr>hb_c = conn12_sample\<lparr>c_isClient := True, c_config := config12_sample\<lparr>cfg_ServerName := ''a''\<rparr>,
     c_ClientSessionCache := lru_Put (NewLRUClientSessionCache 2) ''a'' (Some (Some session13_sample))\<rparr>, hb_x = configExt_zero, hb_ekm = None, hb_keyLog = []\<rparr>"


end
